(* ===== verification/Prelude.thy ===== *)
theory Prelude
  imports Main "HOL-Library.Char_ord" "HOL-Library.List_Lexorder" "HOL-Library.Multiset"
    "HOL-Library.Sublist" "HOL-Library.Word"
begin

text \<open>
  Shared vocabulary of the development: the fragment of Go's standard library that the
  modelled packages use (string functions, decimal numbers, maps with a zero value, sorting
  with a comparison function) and the generic lemmas the components build on.

  Strings are byte strings (\<open>string\<close>, a list of characters). \<open>ToLower\<close> and
  \<open>TrimSpace\<close> are modelled on ASCII text, which Kubernetes names, labels, annotation keys and
  the literals the code compares with all are.
\<close>

named_theorems go_simps \<open>equations of the Go standard library model\<close>
named_theorems sort_simps \<open>facts about sorting with a comparison function\<close>

subsection \<open>Strings\<close>

definition is_space :: "char \<Rightarrow> bool" where
  "is_space c = (c \<in> set [CHR '' '', CHR 0x09, CHR 0x0A, CHR 0x0B, CHR 0x0C, CHR 0x0D])"

definition TrimSpace :: "string \<Rightarrow> string" where
  "TrimSpace s = rev (dropWhile is_space (rev (dropWhile is_space s)))"

definition lower_char :: "char \<Rightarrow> char" where
  "lower_char c = (let n = of_char c :: nat in if 65 \<le> n \<and> n \<le> 90 then char_of (n + 32) else c)"

definition ToLower :: "string \<Rightarrow> string" where
  "ToLower s = map lower_char s"

definition upper_char :: "char \<Rightarrow> char" where
  "upper_char c = (let n = of_char c :: nat in if 97 \<le> n \<and> n \<le> 122 then char_of (n - 32) else c)"

definition ToUpper :: "string \<Rightarrow> string" where
  "ToUpper s = map upper_char s"

fun HasPrefix :: "string \<Rightarrow> string \<Rightarrow> bool" where
  "HasPrefix s [] = True"
| "HasPrefix [] (_ # _) = False"
| "HasPrefix (c # s) (d # p) = (c = d \<and> HasPrefix s p)"

definition HasSuffix :: "string \<Rightarrow> string \<Rightarrow> bool" where
  "HasSuffix s p = HasPrefix (rev s) (rev p)"

text \<open>\<open>strings.CutPrefix\<close>: the rest after the prefix, or \<open>None\<close> when it is not there.\<close>

definition CutPrefix :: "string \<Rightarrow> string \<Rightarrow> string option" where
  "CutPrefix s p = (if HasPrefix s p then Some (drop (length p) s) else None)"

definition TrimPrefix :: "string \<Rightarrow> string \<Rightarrow> string" where
  "TrimPrefix s p = (if HasPrefix s p then drop (length p) s else s)"

definition TrimSuffix :: "string \<Rightarrow> string \<Rightarrow> string" where
  "TrimSuffix s p = (if HasSuffix s p then take (length s - length p) s else s)"

fun Contains :: "string \<Rightarrow> string \<Rightarrow> bool" where
  "Contains [] t = (t = [])"
| "Contains (c # s) t = (HasPrefix (c # s) t \<or> Contains s t)"

text \<open>\<open>strings.Split\<close> for a separator of one character.\<close>

fun Split :: "char \<Rightarrow> string \<Rightarrow> string list" where
  "Split sep [] = [[]]"
| "Split sep (c # s) =
     (if c = sep then [] # Split sep s
      else (case Split sep s of [] \<Rightarrow> [[c]] | w # ws \<Rightarrow> (c # w) # ws))"

fun Join :: "string \<Rightarrow> string list \<Rightarrow> string" where
  "Join sep [] = []"
| "Join sep [w] = w"
| "Join sep (w # ws) = w @ sep @ Join sep ws"

text \<open>\<open>strings.ReplaceAll\<close> for a non-empty pattern, scanning left to right.\<close>

function ReplaceAll :: "string \<Rightarrow> string \<Rightarrow> string \<Rightarrow> string" where
  "ReplaceAll [] old new = []"
| "ReplaceAll (c # s) old new =
     (if old \<noteq> [] \<and> HasPrefix (c # s) old
      then new @ ReplaceAll (drop (length old) (c # s)) old new
      else c # ReplaceAll s old new)"
  by pat_completeness auto
termination
  by (relation "measure (\<lambda>(s, old, new). length s)") (auto simp: neq_Nil_conv)

lemma HasPrefix_iff: "HasPrefix s p \<longleftrightarrow> prefix p s"
  by (induction s p rule: HasPrefix.induct) auto

lemma HasPrefix_append [go_simps]: "HasPrefix (p @ s) p"
  by (simp add: HasPrefix_iff)

lemma HasPrefix_self [simp]: "HasPrefix s s"
  by (simp add: HasPrefix_iff)

lemma CutPrefix_Some_iff: "CutPrefix s p = Some r \<longleftrightarrow> s = p @ r"
  by (auto simp: CutPrefix_def HasPrefix_iff prefix_def)

lemma Contains_iff: "Contains s t \<longleftrightarrow> sublist t s"
  by (induction s) (auto simp: HasPrefix_iff sublist_Cons_right)

lemma Contains_self [simp]: "Contains s s"
  by (simp add: Contains_iff)

lemma TrimSpace_Nil [simp]: "TrimSpace [] = []"
  by (simp add: TrimSpace_def)

lemma dropWhile_is_space_idem: "dropWhile P (dropWhile P xs) = dropWhile P xs"
  by (induction xs) auto

text \<open>Trimming the end keeps a string that does not begin with white space from beginning with
  some, so trimming twice is trimming once.\<close>

lemma dropWhile_rev_keeps_head:
  assumes "dropWhile P xs = xs"
  shows "dropWhile P (rev (dropWhile P (rev xs))) = rev (dropWhile P (rev xs))"
proof (cases "rev (dropWhile P (rev xs))")
  case Nil
  show ?thesis unfolding Nil by simp
next
  case (Cons y ys)
  have "suffix (dropWhile P (rev xs)) (rev xs)" by (rule suffix_dropWhile)
  then have "prefix (y # ys) xs"
    using Cons by (metis rev_rev_ident suffix_to_prefix)
  then obtain zs where "xs = y # zs" by (auto simp: prefix_def)
  with assms have "\<not> P y"
    by (metis dropWhile_eq_Cons_conv)
  with Cons show ?thesis by simp
qed

lemma TrimSpace_idem [simp]: "TrimSpace (TrimSpace s) = TrimSpace s"
  by (simp add: TrimSpace_def dropWhile_rev_keeps_head dropWhile_is_space_idem)

lemma lower_char_idem [simp]: "lower_char (lower_char c) = lower_char c"
  by (auto simp: lower_char_def Let_def)

lemma ToLower_idem [simp]: "ToLower (ToLower s) = ToLower s"
  by (simp add: ToLower_def)

lemma Split_nonempty [simp]: "Split c s \<noteq> []"
  by (cases s) (auto split: list.splits)

lemma Join_Split: "Join [c] (Split c s) = s"
proof (induction s)
  case (Cons d s)
  then show ?case
    by (cases "Split c s" rule: list.exhaust; cases "tl (Split c s)") (auto split: list.splits)
qed simp

lemma Split_no_sep: "p \<in> set (Split sep s) \<Longrightarrow> sep \<notin> set p"
  by (induction sep s arbitrary: p rule: Split.induct) (auto split: if_splits list.splits)

lemma Split_snoc: "sep \<notin> set s \<Longrightarrow> Split sep s = [s]"
  by (induction sep s rule: Split.induct) auto

lemma Split_append: "sep \<notin> set a \<Longrightarrow> Split sep (a @ sep # s) = a # Split sep s"
  by (induction a) auto

lemma Split_append_all: "Split sep (a @ sep # b) = Split sep a @ Split sep b"
  by (induction sep a rule: Split.induct) (auto split: list.splits simp: Cons_eq_append_conv)

lemma Split_Join_sep: "(\<forall>l \<in> set ls. sep \<notin> set l) \<Longrightarrow> ls \<noteq> [] \<Longrightarrow> Split sep (Join [sep] ls) = ls"
  by (induction "[sep]" ls rule: Join.induct) (auto simp: Split_snoc Split_append)

subsection \<open>Decimal numbers\<close>

fun digits_of :: "nat \<Rightarrow> string" where
  "digits_of n = (if n < 10 then [char_of (48 + n)] else digits_of (n div 10) @ [char_of (48 + n mod 10)])"

declare digits_of.simps [simp del]

definition itoa :: "int \<Rightarrow> string" where
  "itoa i = (if i < 0 then CHR ''-'' # digits_of (nat (- i)) else digits_of (nat i))"

definition is_digit :: "char \<Rightarrow> bool" where
  "is_digit c = (48 \<le> (of_char c :: nat) \<and> (of_char c :: nat) \<le> 57)"

definition digit_value :: "char \<Rightarrow> nat" where
  "digit_value c = of_char c - 48"

definition decimal_value :: "string \<Rightarrow> nat" where
  "decimal_value s = foldl (\<lambda>v c. 10 * v + digit_value c) 0 s"

text \<open>\<open>strconv.Atoi\<close> on a 64-bit platform: an optional sign, at least one digit, and a value
  in the range of \<open>int64\<close>; anything else is an error.\<close>

definition Atoi :: "string \<Rightarrow> int option" where
  "Atoi s =
     (let (sign, ds) = (case s of
          [] \<Rightarrow> (1, [])
        | c # r \<Rightarrow> if c = CHR ''-'' then (-1, r) else if c = CHR ''+'' then (1, r) else (1, s));
        v = sign * int (decimal_value ds)
      in if ds = [] \<or> \<not> list_all is_digit ds \<or> v < - (2 ^ 63) \<or> 2 ^ 63 - 1 < v then None else Some v)"

lemma digits_of_nonempty [simp]: "digits_of n \<noteq> []"
  by (subst digits_of.simps) simp

lemma is_digit_digit: "d < 10 \<Longrightarrow> is_digit (char_of (48 + d :: nat))"
  by (simp add: is_digit_def)

lemma digits_of_digits: "list_all is_digit (digits_of n)"
proof (induction n rule: digits_of.induct)
  case (1 n)
  then show ?case
    by (cases "n < 10") (simp_all add: digits_of.simps [of n] is_digit_digit)
qed

lemma decimal_value_digits_of [simp]: "decimal_value (digits_of n) = n"
proof (induction n rule: digits_of.induct)
  case (1 n)
  show ?case
  proof (cases "n < 10")
    case True
    then show ?thesis by (simp add: digits_of.simps [of n] decimal_value_def digit_value_def)
  next
    case False
    have "digit_value (char_of (48 + n mod 10)) = n mod 10"
      by (simp add: digit_value_def)
    with False 1 show ?thesis by (simp add: digits_of.simps [of n] decimal_value_def)
  qed
qed

lemma digits_of_inj: "digits_of m = digits_of n \<Longrightarrow> m = n"
  by (metis decimal_value_digits_of)

lemma digits_of_head: "digits_of n = c # r \<Longrightarrow> is_digit c"
  using digits_of_digits [of n] by simp

lemma Atoi_itoa: "- (2 ^ 63) \<le> i \<Longrightarrow> i \<le> 2 ^ 63 - 1 \<Longrightarrow> Atoi (itoa i) = Some i"
proof (cases "i < 0")
  case True
  moreover assume "- (2 ^ 63) \<le> i" "i \<le> 2 ^ 63 - 1"
  ultimately show ?thesis
    by (simp add: Atoi_def itoa_def digits_of_digits)
next
  case False
  moreover assume b: "- (2 ^ 63) \<le> i" "i \<le> 2 ^ 63 - 1"
  obtain c r where cr: "digits_of (nat i) = c # r"
    by (cases "digits_of (nat i)") auto
  have "is_digit c" using cr by (rule digits_of_head)
  then have "c \<noteq> CHR ''-''" "c \<noteq> CHR ''+''" by (auto simp: is_digit_def)
  moreover have "list_all is_digit (c # r)" "decimal_value (c # r) = nat i"
    using digits_of_digits [of "nat i"] decimal_value_digits_of [of "nat i"] cr by simp_all
  ultimately show ?thesis
    using False b by (simp add: Atoi_def itoa_def cr)
qed

subsection \<open>Maps with a zero value\<close>

text \<open>
  A Go \<open>map[string]string\<close> is a map; reading a key that is not there gives the empty string.
  A nil map and an empty map read alike, and both are \<open>Map.empty\<close>.
\<close>

type_synonym strmap = "string \<rightharpoonup> string"

definition get_str :: "strmap \<Rightarrow> string \<Rightarrow> string" where
  "get_str m k = (case m k of None \<Rightarrow> [] | Some v \<Rightarrow> v)"

definition delete_key :: "('k \<rightharpoonup> 'v) \<Rightarrow> 'k \<Rightarrow> ('k \<rightharpoonup> 'v)" where
  "delete_key m k = m(k := None)"

definition delete_keys :: "('k \<rightharpoonup> 'v) \<Rightarrow> 'k list \<Rightarrow> ('k \<rightharpoonup> 'v)" where
  "delete_keys m ks = foldl delete_key m ks"

lemma get_str_upd [simp]: "get_str (m(k \<mapsto> v)) k' = (if k' = k then v else get_str m k')"
  by (simp add: get_str_def)

lemma get_str_empty [simp]: "get_str Map.empty k = []"
  by (simp add: get_str_def)

lemma get_str_None: "m k = None \<Longrightarrow> get_str m k = []"
  by (simp add: get_str_def)

lemma get_str_nonempty: "get_str m k = v \<Longrightarrow> v \<noteq> [] \<Longrightarrow> m k = Some v"
  by (auto simp: get_str_def split: option.splits)

lemma delete_key_apply [simp]: "delete_key m k k' = (if k' = k then None else m k')"
  by (simp add: delete_key_def)

lemma delete_keys_apply [simp]: "delete_keys m ks k' = (if k' \<in> set ks then None else m k')"
  by (induction ks arbitrary: m) (auto simp: delete_keys_def)

subsection \<open>Sorting with a comparison function\<close>

text \<open>
  \<open>sort_by lt xs\<close> is a stable sort, as \<open>sort.SliceStable\<close> and
  \<open>slices.SortStableFunc\<close> give it. The unstable sorts of Go (\<open>sort.Slice\<close>,
  \<open>slices.SortFunc\<close>) return some sorted permutation; where no two elements compare as equal
  that permutation is unique and is this one (\<open>sorted_perm_unique\<close> below).
\<close>

fun insort_by :: "('a \<Rightarrow> 'a \<Rightarrow> bool) \<Rightarrow> 'a \<Rightarrow> 'a list \<Rightarrow> 'a list" where
  "insort_by lt x [] = [x]"
| "insort_by lt x (y # ys) = (if lt y x then y # insort_by lt x ys else x # y # ys)"

definition sort_by :: "('a \<Rightarrow> 'a \<Rightarrow> bool) \<Rightarrow> 'a list \<Rightarrow> 'a list" where
  "sort_by lt xs = foldr (insort_by lt) xs []"

lemma sort_by_Nil [simp]: "sort_by lt [] = []"
  and sort_by_Cons [simp]: "sort_by lt (x # xs) = insort_by lt x (sort_by lt xs)"
  by (simp_all add: sort_by_def)

lemma mset_insort_by [simp, sort_simps]: "mset (insort_by lt x xs) = add_mset x (mset xs)"
  by (induction xs) auto

lemma mset_sort_by [simp, sort_simps]: "mset (sort_by lt xs) = mset xs"
  by (induction xs) auto

lemma set_sort_by [simp, sort_simps]: "set (sort_by lt xs) = set xs"
  by (metis mset_sort_by set_mset_mset)

lemma set_insort_by [simp]: "set (insort_by lt x xs) = insert x (set xs)"
  by (metis mset_insort_by set_mset_add_mset_insert set_mset_mset)

lemma length_sort_by [simp, sort_simps]: "length (sort_by lt xs) = length xs"
  by (metis mset_sort_by size_mset)

lemma distinct_sort_by [simp, sort_simps]: "distinct (sort_by lt xs) = distinct xs"
  by (metis mset_eq_imp_distinct_iff mset_sort_by)

lemma sort_by_eq_Nil [simp]: "sort_by lt xs = [] \<longleftrightarrow> xs = []"
  by (metis length_0_conv length_sort_by)

text \<open>The interface of a comparison function: a strict weak order.\<close>

locale strict_weak =
  fixes lt :: "'a \<Rightarrow> 'a \<Rightarrow> bool"
  assumes less_irrefl: "\<not> lt a a"
    and less_neg_trans: "\<not> lt a b \<Longrightarrow> \<not> lt b c \<Longrightarrow> \<not> lt a c"
    and less_asym: "lt a b \<Longrightarrow> \<not> lt b a"
begin

lemma sorted_insort_by:
  "sorted_wrt (\<lambda>a b. \<not> lt b a) ys \<Longrightarrow> sorted_wrt (\<lambda>a b. \<not> lt b a) (insort_by lt x ys)"
proof (induction ys)
  case Nil
  then show ?case by simp
next
  case (Cons y ys)
  show ?case
  proof (cases "lt y x")
    case True
    then show ?thesis using Cons less_asym by auto
  next
    case False
    then show ?thesis using Cons less_neg_trans by auto
  qed
qed

lemma sorted_sort_by: "sorted_wrt (\<lambda>a b. \<not> lt b a) (sort_by lt xs)"
  by (induction xs) (auto intro: sorted_insort_by)

lemma sort_by_head_minimal:
  "sort_by lt xs = y # ys \<Longrightarrow> x \<in> set xs \<Longrightarrow> \<not> lt x y"
  using sorted_sort_by [of xs] set_sort_by [of lt xs] less_irrefl [of y] by force

text \<open>Elements that compare as equal keep the order they came in.\<close>

lemma filter_insort_by:
  "sorted_wrt (\<lambda>a b. \<not> lt b a) ys \<Longrightarrow>
   filter (\<lambda>b. \<not> lt a b \<and> \<not> lt b a) (insort_by lt x ys)
     = filter (\<lambda>b. \<not> lt a b \<and> \<not> lt b a) (x # ys)"
proof (induction ys)
  case Nil
  then show ?case by simp
next
  case (Cons y ys)
  then have IH: "filter (\<lambda>b. \<not> lt a b \<and> \<not> lt b a) (insort_by lt x ys)
      = filter (\<lambda>b. \<not> lt a b \<and> \<not> lt b a) (x # ys)" by simp
  show ?case
  proof (cases "lt y x")
    case True
    then have "\<not> (\<not> lt a y \<and> \<not> lt y a \<and> \<not> lt a x \<and> \<not> lt x a)"
      using less_neg_trans [of y a x] by blast
    with True IH show ?thesis by auto
  next
    case False
    then show ?thesis by simp
  qed
qed

lemma sort_by_stable:
  "filter (\<lambda>b. \<not> lt a b \<and> \<not> lt b a) (sort_by lt xs)
     = filter (\<lambda>b. \<not> lt a b \<and> \<not> lt b a) xs"
proof (induction xs)
  case (Cons x xs)
  have "filter (\<lambda>b. \<not> lt a b \<and> \<not> lt b a) (sort_by lt (x # xs))
      = filter (\<lambda>b. \<not> lt a b \<and> \<not> lt b a) (x # sort_by lt xs)"
    using filter_insort_by [OF sorted_sort_by [of xs], of a x] by simp
  with Cons show ?case by simp
qed simp

text \<open>Where the order separates the elements, the sorted list depends only on what is sorted.\<close>

lemma sorted_perm_unique:
  assumes "sorted_wrt (\<lambda>a b. \<not> lt b a) xs" "sorted_wrt (\<lambda>a b. \<not> lt b a) ys"
    and "mset xs = mset ys"
    and sep: "\<And>a b. a \<in> set xs \<Longrightarrow> b \<in> set xs \<Longrightarrow> \<not> lt a b \<Longrightarrow> \<not> lt b a \<Longrightarrow> a = b"
  shows "xs = ys"
  using assms
proof (induction xs arbitrary: ys)
  case Nil
  then show ?case by simp
next
  case (Cons x xs)
  then obtain y zs where ys: "ys = y # zs" by (cases ys) auto
  have sets: "set (x # xs) = set ys" using Cons.prems(3) by (metis set_mset_mset)
  have "\<not> lt y x"
    using Cons.prems(1) sets ys less_irrefl [of x] by force
  moreover have "\<not> lt x y"
    using Cons.prems(2) sets ys less_irrefl [of y] by force
  ultimately have xy: "x = y"
    using Cons.prems(4) [of x y] sets ys by auto
  moreover have "xs = zs"
  proof (rule Cons.IH)
    show "sorted_wrt (\<lambda>a b. \<not> lt b a) xs" using Cons.prems(1) by simp
    show "sorted_wrt (\<lambda>a b. \<not> lt b a) zs" using Cons.prems(2) ys by simp
    show "mset xs = mset zs" using Cons.prems(3) ys xy by simp
    show "a = b" if "a \<in> set xs" "b \<in> set xs" "\<not> lt a b" "\<not> lt b a" for a b
      using Cons.prems(4) that by simp
  qed
  ultimately show ?case using ys by simp
qed

lemma sort_by_perm:
  assumes "mset xs = mset ys"
    and "\<And>a b. a \<in> set xs \<Longrightarrow> b \<in> set xs \<Longrightarrow> \<not> lt a b \<Longrightarrow> \<not> lt b a \<Longrightarrow> a = b"
  shows "sort_by lt xs = sort_by lt ys"
  by (rule sorted_perm_unique) (use assms in \<open>auto intro: sorted_sort_by\<close>)

end

text \<open>Comparing by a key in a linear order is one such comparison.\<close>

locale key_order =
  fixes key :: "'a \<Rightarrow> 'k :: linorder"
begin

lemma keys_sorted: "sorted (map key (sort_by (\<lambda>a b. key a < key b) xs))"
proof -
  have "strict_weak (\<lambda>a b. key a < key b)" by unfold_locales auto
  then have "sorted_wrt (\<lambda>a b. \<not> key b < key a) (sort_by (\<lambda>a b. key a < key b) xs)"
    by (rule strict_weak.sorted_sort_by)
  then show ?thesis by (simp add: sorted_wrt_map not_less)
qed

end

sublocale key_order \<subseteq> strict_weak "\<lambda>a b. key a < key b"
  by unfold_locales auto

subsection \<open>Lists\<close>

lemma mset_filter_partition:
  "mset (filter P xs) + mset (filter (\<lambda>x. \<not> P x) xs) = mset xs"
  by (induction xs) auto

lemma length_filter_partition:
  "length (filter P xs) + length (filter (\<lambda>x. \<not> P x) xs) = length xs"
  by (induction xs) auto

lemma map_of_mem_keys: "map_of m k = Some v \<Longrightarrow> k \<in> set (map fst m)"
  by (metis map_of_eq_None_iff option.distinct(1) set_map)

lemma list_all2_right_witness:
  assumes "list_all2 P xs ys" "y \<in> set ys"
  obtains x where "x \<in> set xs" "P x y"
  using assms by (induction rule: list_all2_induct) auto

lemma set_map_filter: "set (List.map_filter f xs) = {y. \<exists>x. x \<in> set xs \<and> f x = Some y}"
  by (force simp: List.map_filter_def)

end
