(* ===== verification/K8s_Lib.thy ===== *)
theory K8s_Lib
  imports Prelude "HOL-Library.AList"
begin

text \<open>
  The boundary of the model. Kuvryn Sync is written against the Kubernetes Go libraries
  (\<open>k8s.io/apimachinery\<close>, \<open>controller-runtime\<close>), which are not part of this
  repository. What the code calls there is collected in one record, \<open>lib\<close>, that every
  definition using it takes as its first argument; nothing is assumed of its fields unless a
  theorem names one of the law predicates below, which state documented behaviour of those
  functions. Two functions of Go's own library whose values the code never inspects, the
  SHA-256 fingerprint and the textual form of a time, are fields of the same record.

  The data these libraries exchange with the code is modelled as the code sees it: the dynamic
  values of \<open>map[string]any\<close>, \<open>unstructured.Unstructured\<close>, conditions, owner references,
  managed-fields entries and API errors. \<open>std_lib\<close> at the end is one concrete library that
  satisfies the laws; only witnesses use it.
\<close>

subsection \<open>Dynamic values\<close>

datatype any =
    VNil
  | VBool bool
  | VInt int
  | VFloat "64 word"
  | VStr string
  | VList "any list"
  | VMap "(string \<times> any) list"

text \<open>A \<open>map[string]any\<close>, as an association list: Go does not define the order in which a map
  is traversed, and where the source depends on an order it sorts the keys first.\<close>

type_synonym gomap = "(string \<times> any) list"

definition mget :: "gomap \<Rightarrow> string \<Rightarrow> any" where
  "mget m k = (case map_of m k of None \<Rightarrow> VNil | Some v \<Rightarrow> v)"

definition mdelete :: "gomap \<Rightarrow> string \<Rightarrow> gomap" where
  "mdelete m k = filter (\<lambda>(k', _). k' \<noteq> k) m"

definition mset_key :: "gomap \<Rightarrow> string \<Rightarrow> any \<Rightarrow> gomap" where
  "mset_key m k v = AList.update k v m"

fun as_str :: "any \<Rightarrow> string" where
  "as_str (VStr s) = s"
| "as_str _ = []"

fun as_map :: "any \<Rightarrow> gomap" where
  "as_map (VMap m) = m"
| "as_map _ = []"

fun as_list :: "any \<Rightarrow> any list" where
  "as_list (VList xs) = xs"
| "as_list _ = []"

fun as_bool :: "any \<Rightarrow> bool" where
  "as_bool (VBool b) = b"
| "as_bool _ = False"

fun is_map :: "any \<Rightarrow> bool" where
  "is_map (VMap _) = True"
| "is_map _ = False"

text \<open>The result of the \<open>unstructured.Nested*\<close> accessors: a value, no such field, or an error
  because a field on the way has another type.\<close>

datatype 'a nested = Found 'a | Absent | Wrong_Type

definition nval :: "'a \<Rightarrow> 'a nested \<Rightarrow> 'a" where
  "nval d r = (case r of Found v \<Rightarrow> v | _ \<Rightarrow> d)"

subsection \<open>Objects, conditions and API errors\<close>

type_synonym time = int \<comment> \<open>nanoseconds since Go's zero time, so \<open>IsZero t\<close> is \<open>t = 0\<close>\<close>

record unstructured =
  Object :: gomap

record owner_reference =
  owner_APIVersion :: string
  owner_Kind :: string
  owner_Name :: string
  owner_UID :: string

record managed_fields =
  mf_Manager :: string
  mf_FieldsV1 :: "string option"

datatype condition_status = ConditionTrue | ConditionFalse | ConditionUnknown

record condition =
  cond_Type :: string
  cond_Status :: condition_status
  cond_Reason :: string
  cond_Message :: string
  cond_ObservedGeneration :: int

record status_cause =
  cause_Type :: string
  cause_Message :: string

datatype api_error =
    NotFound string
  | Forbidden string
  | Conflict string "status_cause list option"
  | AlreadyExists string
  | NoMatch string
  | Unauthorized string
  | Timeout string
  | Wrapped string string \<comment> \<open>an error of the program itself, found again by \<open>errors.Is\<close>, and the whole text\<close>
  | Other_Error string

fun IsNotFound :: "api_error \<Rightarrow> bool" where
  "IsNotFound (NotFound _) = True"
| "IsNotFound _ = False"

fun IsForbidden :: "api_error \<Rightarrow> bool" where
  "IsForbidden (Forbidden _) = True"
| "IsForbidden _ = False"

fun IsNoMatchError :: "api_error \<Rightarrow> bool" where
  "IsNoMatchError (NoMatch _) = True"
| "IsNoMatchError _ = False"

fun IsAlreadyExists :: "api_error \<Rightarrow> bool" where
  "IsAlreadyExists (AlreadyExists _) = True"
| "IsAlreadyExists _ = False"

fun IsUnauthorized :: "api_error \<Rightarrow> bool" where
  "IsUnauthorized (Unauthorized _) = True"
| "IsUnauthorized _ = False"

text \<open>\<open>apierrors.IsTimeout\<close> or \<open>apierrors.IsServerTimeout\<close>; the code always asks for both.\<close>

fun IsTimeout :: "api_error \<Rightarrow> bool" where
  "IsTimeout (Timeout _) = True"
| "IsTimeout _ = False"

text \<open>\<open>errors.Is\<close> for the sentinel errors of the program, which are told apart by their texts.\<close>

fun errors_Is :: "api_error \<Rightarrow> string \<Rightarrow> bool" where
  "errors_Is (Wrapped sentinel _) s = (sentinel = s)"
| "errors_Is _ s = False"

fun error_text :: "api_error \<Rightarrow> string" where
  "error_text (NotFound m) = m"
| "error_text (Forbidden m) = m"
| "error_text (Conflict m _) = m"
| "error_text (AlreadyExists m) = m"
| "error_text (NoMatch m) = m"
| "error_text (Unauthorized m) = m"
| "error_text (Timeout m) = m"
| "error_text (Wrapped _ m) = m"
| "error_text (Other_Error m) = m"

text \<open>A kind, as \<open>schema.GroupVersionKind\<close> names it.\<close>

record gvk =
  gvk_Group :: string
  gvk_Version :: string
  gvk_Kind :: string

subsection \<open>The libraries as a parameter\<close>

record lib =
  GetAPIVersion :: "unstructured \<Rightarrow> string"
  GetKind :: "unstructured \<Rightarrow> string"
  GetNamespace :: "unstructured \<Rightarrow> string"
  GetName :: "unstructured \<Rightarrow> string"
  GetUID :: "unstructured \<Rightarrow> string"
  GetGeneration :: "unstructured \<Rightarrow> int"
  GetDeletionTimestamp :: "unstructured \<Rightarrow> time option"
  GetLabels :: "unstructured \<Rightarrow> (string \<times> string) list"
  GetAnnotations :: "unstructured \<Rightarrow> (string \<times> string) list"
  GetOwnerReferences :: "unstructured \<Rightarrow> owner_reference list"
  GetManagedFields :: "unstructured \<Rightarrow> managed_fields list"
  SetLabels :: "unstructured \<Rightarrow> (string \<times> string) list \<Rightarrow> unstructured"
  SetAnnotations :: "unstructured \<Rightarrow> (string \<times> string) list \<Rightarrow> unstructured"
  SetNamespace :: "unstructured \<Rightarrow> string \<Rightarrow> unstructured"
  SetGroupVersionKind :: "unstructured \<Rightarrow> gvk \<Rightarrow> unstructured"
  ParseGroupVersion :: "string \<Rightarrow> (string \<times> string) option"
  GroupVersionString :: "string \<Rightarrow> string \<Rightarrow> string"
  GroupVersionKindOf :: "unstructured \<Rightarrow> gvk"
  GVKString :: "gvk \<Rightarrow> string"
  NestedString :: "gomap \<Rightarrow> string list \<Rightarrow> string nested"
  NestedInt64 :: "gomap \<Rightarrow> string list \<Rightarrow> int nested"
  NestedBool :: "gomap \<Rightarrow> string list \<Rightarrow> bool nested"
  NestedMap :: "gomap \<Rightarrow> string list \<Rightarrow> gomap nested"
  NestedSlice :: "gomap \<Rightarrow> string list \<Rightarrow> any list nested"
  NestedStringMap :: "gomap \<Rightarrow> string list \<Rightarrow> (string \<times> string) list nested"
  RemoveNestedField :: "gomap \<Rightarrow> string list \<Rightarrow> gomap"
  FindStatusCondition :: "condition list \<Rightarrow> string \<Rightarrow> condition option"
  SetStatusCondition :: "condition list \<Rightarrow> condition \<Rightarrow> condition list"
  RemoveStatusCondition :: "condition list \<Rightarrow> string \<Rightarrow> condition list"
  UnmarshalAny :: "string \<Rightarrow> any option"
  MarshalObject :: "gomap \<Rightarrow> string option"
  FormatFloat :: "64 word \<Rightarrow> string"
  Sha256Hex :: "string \<Rightarrow> string"
  ParseRFC3339 :: "string \<Rightarrow> time option"
  FormatRFC3339 :: "time \<Rightarrow> string"

text \<open>\<open>json.Unmarshal\<close> into a \<open>map[string]any\<close> accepts an object or null.\<close>

definition UnmarshalMap :: "lib \<Rightarrow> string \<Rightarrow> gomap option" where
  "UnmarshalMap L s = (case UnmarshalAny L s of
       Some (VMap m) \<Rightarrow> Some m
     | Some VNil \<Rightarrow> Some []
     | _ \<Rightarrow> None)"

definition label :: "lib \<Rightarrow> unstructured \<Rightarrow> string \<Rightarrow> string" where
  "label L obj k = get_str (map_of (GetLabels L obj)) k"

definition annotation :: "lib \<Rightarrow> unstructured \<Rightarrow> string \<Rightarrow> string" where
  "annotation L obj k = get_str (map_of (GetAnnotations L obj)) k"

subsection \<open>\<open>fmt.Sprint\<close>\<close>

text \<open>Maps print with their keys sorted.\<close>

definition key_lt :: "(string \<times> 'a) \<Rightarrow> (string \<times> 'a) \<Rightarrow> bool" where
  "key_lt a b = (fst a < fst b)"

fun Sprint :: "lib \<Rightarrow> any \<Rightarrow> string" where
  "Sprint L VNil = ''<nil>''"
| "Sprint L (VBool b) = (if b then ''true'' else ''false'')"
| "Sprint L (VInt i) = itoa i"
| "Sprint L (VFloat w) = FormatFloat L w"
| "Sprint L (VStr s) = s"
| "Sprint L (VList xs) = ''['' @ Join '' '' (map (Sprint L) xs) @ '']''"
| "Sprint L (VMap m) =
     ''map['' @ Join '' '' (map (\<lambda>(k, s). k @ '':'' @ s)
        (sort_by key_lt (map (\<lambda>(k, v). (k, Sprint L v)) m))) @ '']''"

interpretation map_keys: key_order "fst :: string \<times> 'a \<Rightarrow> string" .

lemma key_lt_fst: "key_lt = (\<lambda>a b. fst a < fst b)"
  by (simp add: key_lt_def fun_eq_iff)

lemma sorted_map_keys: "sorted (map fst (sort_by key_lt m))"
  unfolding key_lt_fst by (rule map_keys.keys_sorted)

subsection \<open>Documented laws\<close>

definition object_meta_laws :: "lib \<Rightarrow> bool" where
  "object_meta_laws L \<longleftrightarrow>
     (\<forall>obj ls. map_of (GetLabels L (SetLabels L obj ls)) = map_of ls) \<and>
     (\<forall>obj ls. GetAnnotations L (SetLabels L obj ls) = GetAnnotations L obj) \<and>
     (\<forall>obj ls. GetKind L (SetLabels L obj ls) = GetKind L obj) \<and>
     (\<forall>obj ls. GetAPIVersion L (SetLabels L obj ls) = GetAPIVersion L obj) \<and>
     (\<forall>obj ls. GetName L (SetLabels L obj ls) = GetName L obj) \<and>
     (\<forall>obj ls. GetNamespace L (SetLabels L obj ls) = GetNamespace L obj) \<and>
     (\<forall>obj as. map_of (GetAnnotations L (SetAnnotations L obj as)) = map_of as) \<and>
     (\<forall>obj as. GetLabels L (SetAnnotations L obj as) = GetLabels L obj) \<and>
     (\<forall>obj as. GetKind L (SetAnnotations L obj as) = GetKind L obj) \<and>
     (\<forall>obj as. GetAPIVersion L (SetAnnotations L obj as) = GetAPIVersion L obj) \<and>
     (\<forall>obj as. GetName L (SetAnnotations L obj as) = GetName L obj) \<and>
     (\<forall>obj as. GetNamespace L (SetAnnotations L obj as) = GetNamespace L obj)"

text \<open>\<open>meta.SetStatusCondition\<close> and its companions: at most one condition per type matters, the
  written fields are read back, and other types are left alone.\<close>

definition condition_laws :: "lib \<Rightarrow> bool" where
  "condition_laws L \<longleftrightarrow>
     (\<forall>cs c. FindStatusCondition L (SetStatusCondition L cs c) (cond_Type c) = Some c) \<and>
     (\<forall>cs c t. t \<noteq> cond_Type c \<longrightarrow>
        FindStatusCondition L (SetStatusCondition L cs c) t = FindStatusCondition L cs t) \<and>
     (\<forall>cs t. FindStatusCondition L (RemoveStatusCondition L cs t) t = None) \<and>
     (\<forall>cs t t'. t' \<noteq> t \<longrightarrow>
        FindStatusCondition L (RemoveStatusCondition L cs t) t' = FindStatusCondition L cs t')"

text \<open>A time of the years 1 to 9999 that was formatted in RFC 3339 parses again, to the second.\<close>

definition second :: int where
  "second = 1000000000"

definition year_10000 :: time where
  "year_10000 = 315537897600 * second"

definition rfc3339_law :: "lib \<Rightarrow> bool" where
  "rfc3339_law L \<longleftrightarrow> (\<forall>t. 0 \<le> t \<and> t < year_10000 \<longrightarrow>
     ParseRFC3339 L (FormatRFC3339 L t) = Some (t - t mod second))"

lemma object_meta_lawsD:
  assumes "object_meta_laws L"
  shows "map_of (GetLabels L (SetLabels L obj ls)) = map_of ls"
    and "GetAnnotations L (SetLabels L obj ls) = GetAnnotations L obj"
    and "GetKind L (SetLabels L obj ls) = GetKind L obj"
    and "GetAPIVersion L (SetLabels L obj ls) = GetAPIVersion L obj"
    and "GetName L (SetLabels L obj ls) = GetName L obj"
    and "GetNamespace L (SetLabels L obj ls) = GetNamespace L obj"
    and "map_of (GetAnnotations L (SetAnnotations L obj as)) = map_of as"
    and "GetLabels L (SetAnnotations L obj as) = GetLabels L obj"
    and "GetKind L (SetAnnotations L obj as) = GetKind L obj"
    and "GetAPIVersion L (SetAnnotations L obj as) = GetAPIVersion L obj"
    and "GetName L (SetAnnotations L obj as) = GetName L obj"
    and "GetNamespace L (SetAnnotations L obj as) = GetNamespace L obj"
  using assms by (simp_all add: object_meta_laws_def)

lemma condition_lawsD:
  assumes "condition_laws L"
  shows "FindStatusCondition L (SetStatusCondition L cs c) (cond_Type c) = Some c"
    and "t \<noteq> cond_Type c \<Longrightarrow>
        FindStatusCondition L (SetStatusCondition L cs c) t = FindStatusCondition L cs t"
    and "FindStatusCondition L (RemoveStatusCondition L cs t) t = None"
    and "t' \<noteq> t \<Longrightarrow>
        FindStatusCondition L (RemoveStatusCondition L cs t) t' = FindStatusCondition L cs t'"
  using assms by (simp_all add: condition_laws_def)

subsection \<open>One concrete library\<close>

fun nested_field :: "gomap \<Rightarrow> string list \<Rightarrow> any nested" where
  "nested_field m [] = Found (VMap m)"
| "nested_field m [k] = (case map_of m k of None \<Rightarrow> Absent | Some v \<Rightarrow> Found v)"
| "nested_field m (k # ks) =
     (case map_of m k of
        None \<Rightarrow> Absent
      | Some (VMap m') \<Rightarrow> nested_field m' ks
      | Some VNil \<Rightarrow> Absent
      | Some _ \<Rightarrow> Wrong_Type)"

definition nested_as :: "(any \<Rightarrow> 'a option) \<Rightarrow> gomap \<Rightarrow> string list \<Rightarrow> 'a nested" where
  "nested_as f m ks = (case nested_field m ks of
       Absent \<Rightarrow> Absent
     | Wrong_Type \<Rightarrow> Wrong_Type
     | Found v \<Rightarrow> (case f v of None \<Rightarrow> Wrong_Type | Some x \<Rightarrow> Found x))"

fun string_entries :: "gomap \<Rightarrow> (string \<times> string) list option" where
  "string_entries [] = Some []"
| "string_entries ((k, VStr s) # m) = map_option (Cons (k, s)) (string_entries m)"
| "string_entries _ = None"

definition str_of :: "any \<Rightarrow> string option" where
  "str_of v = (case v of VStr s \<Rightarrow> Some s | _ \<Rightarrow> None)"

definition int_of :: "any \<Rightarrow> int option" where
  "int_of v = (case v of VInt i \<Rightarrow> Some i | _ \<Rightarrow> None)"

definition bool_of :: "any \<Rightarrow> bool option" where
  "bool_of v = (case v of VBool b \<Rightarrow> Some b | _ \<Rightarrow> None)"

definition map_of_any :: "any \<Rightarrow> gomap option" where
  "map_of_any v = (case v of VMap m \<Rightarrow> Some m | _ \<Rightarrow> None)"

definition list_of :: "any \<Rightarrow> any list option" where
  "list_of v = (case v of VList xs \<Rightarrow> Some xs | _ \<Rightarrow> None)"

definition strs_of :: "any \<Rightarrow> (string \<times> string) list option" where
  "strs_of v = (case v of VMap m \<Rightarrow> string_entries m | _ \<Rightarrow> None)"

definition std_metadata :: "unstructured \<Rightarrow> gomap" where
  "std_metadata obj = as_map (mget (Object obj) ''metadata'')"

definition std_set_meta :: "unstructured \<Rightarrow> string \<Rightarrow> any \<Rightarrow> unstructured" where
  "std_set_meta obj k v =
     \<lparr>Object = mset_key (Object obj) ''metadata'' (VMap (mset_key (std_metadata obj) k v))\<rparr>"

definition std_strings :: "unstructured \<Rightarrow> string \<Rightarrow> (string \<times> string) list" where
  "std_strings obj k = (case strs_of (mget (std_metadata obj) k) of None \<Rightarrow> [] | Some ss \<Rightarrow> ss)"

definition of_strings :: "(string \<times> string) list \<Rightarrow> any" where
  "of_strings ss = VMap (map (\<lambda>(k, v). (k, VStr v)) ss)"

definition std_parse_gv :: "string \<Rightarrow> (string \<times> string) option" where
  "std_parse_gv s = (case Split CHR ''/'' s of
       [v] \<Rightarrow> Some ([], v)
     | [g, v] \<Rightarrow> Some (g, v)
     | _ \<Rightarrow> None)"

definition std_gv_string :: "string \<Rightarrow> string \<Rightarrow> string" where
  "std_gv_string g v = (if g = [] then v else g @ ''/'' @ v)"

fun std_remove :: "gomap \<Rightarrow> string list \<Rightarrow> gomap" where
  "std_remove m [] = m"
| "std_remove m [k] = mdelete m k"
| "std_remove m (k # ks) = (case map_of m k of
       Some (VMap m') \<Rightarrow> mset_key m k (VMap (std_remove m' ks))
     | _ \<Rightarrow> m)"

fun std_find :: "condition list \<Rightarrow> string \<Rightarrow> condition option" where
  "std_find [] t = None"
| "std_find (c # cs) t = (if cond_Type c = t then Some c else std_find cs t)"

fun std_set :: "condition list \<Rightarrow> condition \<Rightarrow> condition list" where
  "std_set [] c = [c]"
| "std_set (d # cs) c = (if cond_Type d = cond_Type c then c # cs else d # std_set cs c)"

definition std_gvk :: "unstructured \<Rightarrow> gvk" where
  "std_gvk obj = (case std_parse_gv (as_str (mget (Object obj) ''apiVersion'')) of
       Some (g, v) \<Rightarrow> \<lparr>gvk_Group = g, gvk_Version = v, gvk_Kind = as_str (mget (Object obj) ''kind'')\<rparr>
     | None \<Rightarrow> \<lparr>gvk_Group = [], gvk_Version = [], gvk_Kind = []\<rparr>)"

definition std_lib :: lib where
  "std_lib = \<lparr>
     GetAPIVersion = (\<lambda>obj. as_str (mget (Object obj) ''apiVersion'')),
     GetKind = (\<lambda>obj. as_str (mget (Object obj) ''kind'')),
     GetNamespace = (\<lambda>obj. as_str (mget (std_metadata obj) ''namespace'')),
     GetName = (\<lambda>obj. as_str (mget (std_metadata obj) ''name'')),
     GetUID = (\<lambda>obj. as_str (mget (std_metadata obj) ''uid'')),
     GetGeneration = (\<lambda>obj. case mget (std_metadata obj) ''generation'' of VInt i \<Rightarrow> i | _ \<Rightarrow> 0),
     GetDeletionTimestamp = (\<lambda>obj. int_of (mget (std_metadata obj) ''deletionTimestamp'')),
     GetLabels = (\<lambda>obj. std_strings obj ''labels''),
     GetAnnotations = (\<lambda>obj. std_strings obj ''annotations''),
     GetOwnerReferences = (\<lambda>obj. map (\<lambda>r. \<lparr>owner_APIVersion = as_str (mget (as_map r) ''apiVersion''),
         owner_Kind = as_str (mget (as_map r) ''kind''), owner_Name = as_str (mget (as_map r) ''name''),
         owner_UID = as_str (mget (as_map r) ''uid'')\<rparr>) (as_list (mget (std_metadata obj) ''ownerReferences''))),
     GetManagedFields = (\<lambda>obj. map (\<lambda>r. \<lparr>mf_Manager = as_str (mget (as_map r) ''manager''),
         mf_FieldsV1 = str_of (mget (as_map r) ''fieldsV1'')\<rparr>) (as_list (mget (std_metadata obj) ''managedFields''))),
     SetLabels = (\<lambda>obj ls. std_set_meta obj ''labels'' (of_strings ls)),
     SetAnnotations = (\<lambda>obj as. std_set_meta obj ''annotations'' (of_strings as)),
     SetNamespace = (\<lambda>obj ns. std_set_meta obj ''namespace'' (VStr ns)),
     SetGroupVersionKind = (\<lambda>obj k. \<lparr>Object = mset_key (mset_key (Object obj) ''apiVersion''
         (VStr (std_gv_string (gvk_Group k) (gvk_Version k)))) ''kind'' (VStr (gvk_Kind k))\<rparr>),
     ParseGroupVersion = std_parse_gv,
     GroupVersionString = std_gv_string,
     GroupVersionKindOf = std_gvk,
     GVKString = (\<lambda>g. gvk_Group g @ ''/'' @ gvk_Version g @ '', Kind='' @ gvk_Kind g),
     NestedString = nested_as str_of,
     NestedInt64 = nested_as int_of,
     NestedBool = nested_as bool_of,
     NestedMap = nested_as map_of_any,
     NestedSlice = nested_as list_of,
     NestedStringMap = nested_as strs_of,
     RemoveNestedField = std_remove,
     FindStatusCondition = std_find,
     SetStatusCondition = std_set,
     RemoveStatusCondition = (\<lambda>cs t. filter (\<lambda>c. cond_Type c \<noteq> t) cs),
     UnmarshalAny = (\<lambda>s. if s = ''{}'' then Some (VMap []) else None),
     MarshalObject = (\<lambda>m. Some []),
     FormatFloat = (\<lambda>w. itoa (sint w)),
     Sha256Hex = (\<lambda>s. s),
     ParseRFC3339 = (\<lambda>s. map_option (\<lambda>n. second * n) (Atoi s)),
     FormatRFC3339 = (\<lambda>t. itoa (t div second))\<rparr>"

lemma string_entries_of_strings [simp]: "string_entries (map (\<lambda>(k, v). (k, VStr v)) ss) = Some ss"
  by (induction ss) auto

lemma mget_mset_key [simp]: "mget (mset_key m k v) k' = (if k' = k then v else mget m k')"
  by (simp add: mget_def mset_key_def update_conv)

lemma std_metadata_set [simp]: "std_metadata (std_set_meta obj k v) = mset_key (std_metadata obj) k v"
  by (simp add: std_metadata_def [of "std_set_meta obj k v"]) (simp add: std_set_meta_def)

lemma std_top_set: "k \<noteq> ''metadata'' \<Longrightarrow> mget (Object (std_set_meta obj k' v)) k = mget (Object obj) k"
  by (simp add: std_set_meta_def)

lemma std_strings_set [simp]:
  "std_strings (std_set_meta obj k (of_strings ss)) k' = (if k' = k then ss else std_strings obj k')"
  by (simp add: std_strings_def of_strings_def strs_of_def)

lemma std_object_meta_laws: "object_meta_laws std_lib"
  by (simp add: object_meta_laws_def std_lib_def std_top_set)

lemma std_find_set: "std_find (std_set cs c) t = (if t = cond_Type c then Some c else std_find cs t)"
  by (induction cs) auto

lemma std_find_remove: "std_find (filter (\<lambda>c. cond_Type c \<noteq> t) cs) t' = (if t' = t then None else std_find cs t')"
  by (induction cs) auto

lemma std_condition_laws: "condition_laws std_lib"
  by (simp add: condition_laws_def std_lib_def std_find_set std_find_remove)

lemma std_rfc3339_law: "rfc3339_law std_lib"
  unfolding rfc3339_law_def
proof (intro allI impI, elim conjE)
  fix t :: time
  assume "0 \<le> t" "t < year_10000"
  then have "0 \<le> t div second" "t div second \<le> 2 ^ 63 - 1"
    by (simp_all add: second_def year_10000_def)
  then have "Atoi (itoa (t div second)) = Some (t div second)"
    by (intro Atoi_itoa) auto
  then show "ParseRFC3339 std_lib (FormatRFC3339 std_lib t) = Some (t - t mod second)"
    by (simp add: std_lib_def minus_mod_eq_mult_div)
qed

end
