(* ===== verification/Api_Types.thy ===== *)
theory Api_Types
  imports K8s_Lib
begin

text \<open>
  The Kubernetes API of Kuvryn Sync (\<open>api/v1alpha1\<close>): every enumeration as a datatype, with a
  constructor for the zero value where the field is optional, and every struct as a record with
  the source's fields. A pointer is an \<open>option\<close>, a \<open>metav1.Time\<close> a \<open>time\<close>, a duration
  an integer number of nanoseconds. \<open>metav1.ObjectMeta\<close> carries the fields the code reads.
\<close>

subsection \<open>Enumerations\<close>

datatype repository_type = RepositoryTypeNone | RepositoryTypeGit | RepositoryTypeOther string

datatype repository_state =
  RepositoryStateNone | RepositoryStateUnknown | RepositoryStateReady | RepositoryStateFailed

datatype sync_state =
    SyncStateNone
  | SyncStateUnknown
  | SyncStateSynced
  | SyncStateOutOfSync
  | SyncStateDrifted
  | SyncStatePlanning
  | SyncStateAwaitingApproval
  | SyncStateApplying
  | SyncStatePruning

datatype health_state =
    HealthStateNone
  | HealthStateUnknown
  | HealthStateProgressing
  | HealthStateHealthy
  | HealthStateDegraded
  | HealthStateSuspended

datatype conflict_policy =
    ConflictPolicyNone
  | ConflictPolicyFail
  | ConflictPolicyAdopt
  | ConflictPolicyOther string

datatype render_type = RenderTypeNone | RenderTypeYAML | RenderTypeKustomize | RenderTypeHelm

datatype failure_action = FailureActionNone | FailureActionPause | FailureActionRollback

datatype deletion_policy =
  DeletionPolicyNone | DeletionPolicyOrphan | DeletionPolicyDeleteManagedResources

datatype revision_phase =
    RevisionPhaseNone
  | RevisionPhasePending
  | RevisionPhasePlanning
  | RevisionPhaseAwaitingApproval
  | RevisionPhaseApplying
  | RevisionPhaseObserving
  | RevisionPhaseHealthy
  | RevisionPhaseFailed
  | RevisionPhaseRollingBack
  | RevisionPhaseRolledBack
  | RevisionPhaseCancelled

datatype plan_action = PlanActionCreate | PlanActionUpdate | PlanActionDelete | PlanActionUnchanged

datatype notification_event =
    NotificationAwaitingApproval
  | NotificationHealthy
  | NotificationFailed
  | NotificationRolledBack

datatype notification_sink_type = NotificationSinkWebhook | NotificationSinkSlack

fun health_state_string :: "health_state \<Rightarrow> string" where
  "health_state_string HealthStateNone = ''''"
| "health_state_string HealthStateUnknown = ''Unknown''"
| "health_state_string HealthStateProgressing = ''Progressing''"
| "health_state_string HealthStateHealthy = ''Healthy''"
| "health_state_string HealthStateDegraded = ''Degraded''"
| "health_state_string HealthStateSuspended = ''Suspended''"

subsection \<open>Annotation and condition names\<close>

definition ApprovedRevisionAnnotation :: string where
  "ApprovedRevisionAnnotation = ''sync.kuvryn.io/approved-revision''"
definition ApproveDigestAnnotation :: string where
  "ApproveDigestAnnotation = ''sync.kuvryn.io/approve-digest''"
definition ApprovedByAnnotation :: string where
  "ApprovedByAnnotation = ''sync.kuvryn.io/approved-by''"
definition ApprovedAtAnnotation :: string where
  "ApprovedAtAnnotation = ''sync.kuvryn.io/approved-at''"
definition ApprovedDigestAnnotation :: string where
  "ApprovedDigestAnnotation = ''sync.kuvryn.io/approved-digest''"
definition RollbackRevisionAnnotation :: string where
  "RollbackRevisionAnnotation = ''sync.kuvryn.io/rollback-revision''"
definition RollbackFromAnnotation :: string where
  "RollbackFromAnnotation = ''sync.kuvryn.io/rollback-from''"
definition RollbackKindAnnotation :: string where
  "RollbackKindAnnotation = ''sync.kuvryn.io/rollback-kind''"
definition RollbackTargetRevisionAnnotation :: string where
  "RollbackTargetRevisionAnnotation = ''sync.kuvryn.io/rollback-target-revision''"
definition RollbackRequestedByAnnotation :: string where
  "RollbackRequestedByAnnotation = ''sync.kuvryn.io/rollback-requested-by''"
definition RollbackRequestedAtAnnotation :: string where
  "RollbackRequestedAtAnnotation = ''sync.kuvryn.io/rollback-requested-at''"
definition RollbackTargetHashAnnotation :: string where
  "RollbackTargetHashAnnotation = ''sync.kuvryn.io/rollback-target-hash''"
definition RollbackKindManual :: string where
  "RollbackKindManual = ''manual''"
definition RollbackKindAutomatic :: string where
  "RollbackKindAutomatic = ''automatic''"
definition RolledBackCondition :: string where
  "RolledBackCondition = ''RolledBack''"

lemmas annotation_names =
  ApprovedRevisionAnnotation_def ApproveDigestAnnotation_def ApprovedByAnnotation_def
  ApprovedAtAnnotation_def ApprovedDigestAnnotation_def RollbackRevisionAnnotation_def
  RollbackFromAnnotation_def RollbackKindAnnotation_def RollbackTargetRevisionAnnotation_def
  RollbackRequestedByAnnotation_def RollbackRequestedAtAnnotation_def RollbackTargetHashAnnotation_def

lemma annotation_names_distinct:
  "distinct [ApprovedRevisionAnnotation, ApproveDigestAnnotation, ApprovedByAnnotation,
     ApprovedAtAnnotation, ApprovedDigestAnnotation, RollbackRevisionAnnotation,
     RollbackFromAnnotation, RollbackKindAnnotation, RollbackTargetRevisionAnnotation,
     RollbackRequestedByAnnotation, RollbackRequestedAtAnnotation, RollbackTargetHashAnnotation]"
  by (simp add: annotation_names)

lemmas annotation_names_neq [simp] = annotation_names_distinct [simplified]

subsection \<open>Shared structs\<close>

record object_meta =
  om_Name :: string
  om_Namespace :: string
  om_Labels :: strmap
  om_Annotations :: strmap
  om_Generation :: int
  om_CreationTimestamp :: time
  om_DeletionTimestamp :: "time option"
  om_Finalizers :: "string list"
  om_UID :: string
  om_ResourceVersion :: string

record resource_ref =
  ref_APIVersion :: string
  ref_Kind :: string
  ref_Namespace :: string
  ref_Name :: string

record plan_summary =
  sum_Create :: int
  sum_Update :: int
  sum_Delete :: int
  sum_Unchanged :: int
  sum_Truncated :: bool

record plan_field_change =
  fc_Path :: string
  fc_Before :: string
  fc_After :: string
  fc_Redacted :: bool

record plan_conflict =
  pc_Path :: string
  pc_Manager :: string
  pc_Policy :: conflict_policy

record plan_resource_change =
  prc_Resource :: resource_ref
  prc_Action :: plan_action
  prc_Destructive :: bool
  prc_Changes :: "plan_field_change list"
  prc_Conflicts :: "plan_conflict list"
  prc_Warnings :: "string list"

record revision_plan =
  plan_Summary :: plan_summary
  plan_Digest :: string
  plan_Resources :: "plan_resource_change list"

record failure_policy =
  fp_Action :: failure_action
  fp_Timeout :: "int option"
  fp_MaxAttempts :: "int option"

record resource_health_summary =
  hs_Total :: int
  hs_Healthy :: int
  hs_Progressing :: int
  hs_Degraded :: int
  hs_Unknown :: int

subsection \<open>Application\<close>

record helm_chart_source =
  chart_Repository :: string
  chart_Name :: string
  chart_Version :: string
  chart_SecretRef :: "string option"

record helm_values_reference =
  vref_Kind :: string
  vref_Name :: string
  vref_Key :: string

record helm_render_spec =
  helm_ReleaseName :: string
  helm_ValuesFiles :: "string list"
  helm_Chart :: "helm_chart_source option"
  helm_ValuesFrom :: "helm_values_reference list"
  helm_Values :: "string option"

record render_spec =
  render_Type :: render_type
  render_Helm :: "helm_render_spec option"

record application_source =
  src_RepositoryRef :: string
  src_Revision :: string
  src_Path :: string
  src_Render :: render_spec

record sync_policy =
  sync_Automatic :: bool
  sync_Prune :: bool
  sync_SelfHeal :: bool
  sync_ConflictPolicy :: conflict_policy

record deployment_strategy =
  strategy_Type :: string
  strategy_FailurePolicy :: failure_policy

record notification_subscription =
  sub_SinkRef :: string
  sub_Events :: "notification_event list"

record decryption_spec =
  dec_Provider :: string
  dec_SecretRef :: string

record application_spec =
  aspec_Source :: application_source
  aspec_DestinationNamespace :: string
  aspec_Sync :: sync_policy
  aspec_Strategy :: deployment_strategy
  aspec_HealthTimeout :: "int option"
  aspec_HistoryLimit :: "int option"
  aspec_DeletionPolicy :: deletion_policy
  aspec_Suspend :: bool
  aspec_ServiceAccountName :: string
  aspec_Notifications :: "notification_subscription list"
  aspec_DependsOn :: "string list"
  aspec_Decryption :: "decryption_spec option"

record managed_kind =
  mk_APIVersion :: string
  mk_Kind :: string

record diagnosis_cause =
  dc_Resource :: resource_ref
  dc_Reason :: string
  dc_Message :: string
  dc_Chain :: "resource_ref list"

record application_status =
  astatus_State :: health_state
  astatus_DesiredRevision :: string
  astatus_DeployedRevision :: string
  astatus_ServiceAccountName :: string
  astatus_Sync :: sync_state
  astatus_Health :: health_state
  astatus_Resources :: resource_health_summary
  astatus_Diagnosis :: "diagnosis_cause list"
  astatus_ManagedKinds :: "managed_kind list"
  astatus_ObservedGeneration :: int
  astatus_Conditions :: "condition list"

record application =
  app_Meta :: object_meta
  app_Spec :: application_spec
  app_Status :: application_status

definition DestinationNamespace :: "application \<Rightarrow> string" where
  "DestinationNamespace a =
     (if aspec_DestinationNamespace (app_Spec a) \<noteq> [] then aspec_DestinationNamespace (app_Spec a)
      else om_Namespace (app_Meta a))"

subsection \<open>Revision\<close>

record revision_source =
  rsrc_RepositoryRef :: string
  rsrc_Revision :: string
  rsrc_Path :: string
  rsrc_Render :: render_spec

record revision_spec =
  rspec_ApplicationRef :: string
  rspec_Source :: revision_source
  rspec_DesiredStateHash :: string

record hook_status =
  hook_Resource :: resource_ref
  hook_Stage :: string
  hook_State :: health_state
  hook_Message :: string

record revision_approval =
  appr_ApprovedBy :: string
  appr_ApprovedAt :: time
  appr_PlanDigest :: string
  appr_DesiredStateHash :: string

record revision_failure =
  fail_Reason :: string
  fail_Message :: string
  fail_Resource :: "resource_ref option"
  fail_Retryable :: bool

record revision_status =
  rstatus_Phase :: revision_phase
  rstatus_StartedAt :: "time option"
  rstatus_CompletedAt :: "time option"
  rstatus_Attempts :: int
  rstatus_Plan :: revision_plan
  rstatus_Health :: resource_health_summary
  rstatus_PreviousRevision :: "string option"
  rstatus_Failure :: "revision_failure option"
  rstatus_Approval :: "revision_approval option"
  rstatus_DeployedDesiredStateHash :: string
  rstatus_ChartDigest :: string
  rstatus_Hooks :: "hook_status list"
  rstatus_Conditions :: "condition list"

record revision =
  rev_Meta :: object_meta
  rev_Spec :: revision_spec
  rev_Status :: revision_status

subsection \<open>Repository, HealthCheck, NotificationSink and ImagePolicy\<close>

record application_policy =
  ap_AllowAutomatic :: bool
  ap_AllowPrune :: bool
  ap_AllowAdopt :: bool
  ap_AllowDeleteManagedResources :: bool

record image_update_spec =
  iu_SecretRef :: string
  iu_Branch :: string
  iu_Path :: string
  iu_AuthorName :: string
  iu_AuthorEmail :: string

record git_repository_spec =
  git_URL :: string
  git_Revision :: string
  git_AuthSecretRef :: "string option"

record repository_spec =
  repo_Type :: repository_type
  repo_Git :: "git_repository_spec option"
  repo_ApplicationConfigPaths :: "string list"
  repo_ApplicationServiceAccountName :: string
  repo_ApplicationPolicy :: application_policy
  repo_PollInterval :: "int option"
  repo_Webhook :: "string option"
  repo_ImageUpdate :: "image_update_spec option"

record repository_status =
  repostatus_State :: repository_state
  repostatus_ObservedRevision :: string
  repostatus_LastFetchedAt :: "time option"
  repostatus_Conditions :: "condition list"

record repository =
  repo_Meta :: object_meta
  repo_Spec :: repository_spec
  repo_Status :: repository_status

record health_rule =
  rule_Expression :: string
  rule_State :: health_state
  rule_Message :: string

record health_check =
  hc_Name :: string
  hc_Group :: string
  hc_Kind :: string
  hc_Rules :: "health_rule list"

subsection \<open>Field access\<close>

text \<open>The paths through the structs that the components use most.\<close>

abbreviation app_Name :: "application \<Rightarrow> string" where
  "app_Name a \<equiv> om_Name (app_Meta a)"
abbreviation app_Namespace :: "application \<Rightarrow> string" where
  "app_Namespace a \<equiv> om_Namespace (app_Meta a)"
abbreviation app_Annotations :: "application \<Rightarrow> strmap" where
  "app_Annotations a \<equiv> om_Annotations (app_Meta a)"
abbreviation rev_Name :: "revision \<Rightarrow> string" where
  "rev_Name r \<equiv> om_Name (rev_Meta r)"
abbreviation rev_Phase :: "revision \<Rightarrow> revision_phase" where
  "rev_Phase r \<equiv> rstatus_Phase (rev_Status r)"
abbreviation rev_SourceRevision :: "revision \<Rightarrow> string" where
  "rev_SourceRevision r \<equiv> rsrc_Revision (rspec_Source (rev_Spec r))"
abbreviation rev_ApplicationRef :: "revision \<Rightarrow> string" where
  "rev_ApplicationRef r \<equiv> rspec_ApplicationRef (rev_Spec r)"
abbreviation rev_Created :: "revision \<Rightarrow> time" where
  "rev_Created r \<equiv> om_CreationTimestamp (rev_Meta r)"
abbreviation rev_DesiredStateHash :: "revision \<Rightarrow> string" where
  "rev_DesiredStateHash r \<equiv> rspec_DesiredStateHash (rev_Spec r)"
abbreviation rev_PlanDigest :: "revision \<Rightarrow> string" where
  "rev_PlanDigest r \<equiv> plan_Digest (rstatus_Plan (rev_Status r))"

definition set_annotations :: "strmap \<Rightarrow> application \<Rightarrow> application" where
  "set_annotations m a = a\<lparr>app_Meta := (app_Meta a)\<lparr>om_Annotations := m\<rparr>\<rparr>"

definition upd_status :: "(application_status \<Rightarrow> application_status) \<Rightarrow> application \<Rightarrow> application" where
  "upd_status f a = a\<lparr>app_Status := f (app_Status a)\<rparr>"

definition upd_rstatus :: "(revision_status \<Rightarrow> revision_status) \<Rightarrow> revision \<Rightarrow> revision" where
  "upd_rstatus f r = r\<lparr>rev_Status := f (rev_Status r)\<rparr>"

lemma app_set_annotations [simp]:
  "app_Annotations (set_annotations m a) = m"
  "app_Name (set_annotations m a) = app_Name a"
  "app_Namespace (set_annotations m a) = app_Namespace a"
  "app_Spec (set_annotations m a) = app_Spec a"
  "app_Status (set_annotations m a) = app_Status a"
  by (simp_all add: set_annotations_def)

lemma app_upd_status [simp]:
  "app_Meta (upd_status f a) = app_Meta a"
  "app_Spec (upd_status f a) = app_Spec a"
  "app_Status (upd_status f a) = f (app_Status a)"
  by (simp_all add: upd_status_def)

lemma rev_upd_rstatus [simp]:
  "rev_Meta (upd_rstatus f r) = rev_Meta r"
  "rev_Spec (upd_rstatus f r) = rev_Spec r"
  "rev_Status (upd_rstatus f r) = f (rev_Status r)"
  by (simp_all add: upd_rstatus_def)

subsection \<open>Zero values\<close>

text \<open>What Go gives a struct that no field was assigned.\<close>

definition zero_meta :: object_meta where
  "zero_meta = \<lparr>om_Name = [], om_Namespace = [], om_Labels = Map.empty, om_Annotations = Map.empty,
     om_Generation = 0, om_CreationTimestamp = 0, om_DeletionTimestamp = None, om_Finalizers = [],
     om_UID = [], om_ResourceVersion = []\<rparr>"

definition zero_ref :: resource_ref where
  "zero_ref = \<lparr>ref_APIVersion = [], ref_Kind = [], ref_Namespace = [], ref_Name = []\<rparr>"

definition zero_plan :: revision_plan where
  "zero_plan = \<lparr>plan_Summary = \<lparr>sum_Create = 0, sum_Update = 0, sum_Delete = 0, sum_Unchanged = 0,
     sum_Truncated = False\<rparr>, plan_Digest = [], plan_Resources = []\<rparr>"

definition zero_health :: resource_health_summary where
  "zero_health = \<lparr>hs_Total = 0, hs_Healthy = 0, hs_Progressing = 0, hs_Degraded = 0, hs_Unknown = 0\<rparr>"

definition zero_render :: render_spec where
  "zero_render = \<lparr>render_Type = RenderTypeNone, render_Helm = None\<rparr>"

definition zero_application :: application where
  "zero_application = \<lparr>app_Meta = zero_meta,
     app_Spec = \<lparr>
       aspec_Source = \<lparr>src_RepositoryRef = [], src_Revision = [], src_Path = [], src_Render = zero_render\<rparr>,
       aspec_DestinationNamespace = [],
       aspec_Sync = \<lparr>sync_Automatic = False, sync_Prune = False, sync_SelfHeal = False,
         sync_ConflictPolicy = ConflictPolicyNone\<rparr>,
       aspec_Strategy = \<lparr>strategy_Type = [], strategy_FailurePolicy =
         \<lparr>fp_Action = FailureActionNone, fp_Timeout = None, fp_MaxAttempts = None\<rparr>\<rparr>,
       aspec_HealthTimeout = None, aspec_HistoryLimit = None, aspec_DeletionPolicy = DeletionPolicyNone,
       aspec_Suspend = False, aspec_ServiceAccountName = [], aspec_Notifications = [],
       aspec_DependsOn = [], aspec_Decryption = None\<rparr>,
     app_Status = \<lparr>
       astatus_State = HealthStateNone, astatus_DesiredRevision = [], astatus_DeployedRevision = [],
       astatus_ServiceAccountName = [], astatus_Sync = SyncStateNone, astatus_Health = HealthStateNone,
       astatus_Resources = zero_health, astatus_Diagnosis = [], astatus_ManagedKinds = [],
       astatus_ObservedGeneration = 0, astatus_Conditions = []\<rparr>\<rparr>"

definition zero_revision :: revision where
  "zero_revision = \<lparr>rev_Meta = zero_meta,
     rev_Spec = \<lparr>rspec_ApplicationRef = [],
       rspec_Source = \<lparr>rsrc_RepositoryRef = [], rsrc_Revision = [], rsrc_Path = [], rsrc_Render = zero_render\<rparr>,
       rspec_DesiredStateHash = []\<rparr>,
     rev_Status = \<lparr>rstatus_Phase = RevisionPhaseNone, rstatus_StartedAt = None, rstatus_CompletedAt = None,
       rstatus_Attempts = 0, rstatus_Plan = zero_plan, rstatus_Health = zero_health,
       rstatus_PreviousRevision = None, rstatus_Failure = None, rstatus_Approval = None,
       rstatus_DeployedDesiredStateHash = [], rstatus_ChartDigest = [], rstatus_Hooks = [],
       rstatus_Conditions = []\<rparr>\<rparr>"

definition named_application :: "string \<Rightarrow> string \<Rightarrow> application" where
  "named_application ns name = zero_application\<lparr>app_Meta := zero_meta\<lparr>om_Name := name, om_Namespace := ns\<rparr>\<rparr>"

definition named_revision :: "string \<Rightarrow> string \<Rightarrow> revision" where
  "named_revision ns name = zero_revision\<lparr>rev_Meta := zero_meta\<lparr>om_Name := name, om_Namespace := ns\<rparr>\<rparr>"

lemmas zero_values = zero_meta_def zero_ref_def zero_plan_def zero_health_def zero_render_def
  zero_application_def zero_revision_def named_application_def named_revision_def

end
