(* ===== verification/Resource.thy ===== *)
theory Resource
  imports Api_Types
begin

text \<open>
  Package \<open>internal/resource\<close>: the identity of a Kubernetes object and the resolution of its
  scope. \<open>FromObject\<close> returns the identity or the error of the source; \<open>NewScopes\<close> and
  \<open>Namespaced\<close> combine the cluster's REST mapper, a parameter, with the CustomResourceDefinitions
  that are rendered alongside.
\<close>

record resource_id =
  ID_Group :: string
  ID_Version :: string
  ID_Kind :: string
  ID_Namespace :: string
  ID_Name :: string

datatype id_error = ParseAPIVersionError | KindAndNameRequired

definition FromObject :: "lib \<Rightarrow> unstructured \<Rightarrow> id_error + resource_id" where
  "FromObject L obj =
     (case ParseGroupVersion L (GetAPIVersion L obj) of
        None \<Rightarrow> Inl ParseAPIVersionError
      | Some (g, v) \<Rightarrow>
          if GetKind L obj = [] \<or> GetName L obj = [] then Inl KindAndNameRequired
          else Inr \<lparr>ID_Group = g, ID_Version = v, ID_Kind = GetKind L obj,
                    ID_Namespace = GetNamespace L obj, ID_Name = GetName L obj\<rparr>)"

definition APIVersion :: "lib \<Rightarrow> resource_id \<Rightarrow> string" where
  "APIVersion L i = GroupVersionString L (ID_Group i) (ID_Version i)"

definition ID_String :: "lib \<Rightarrow> resource_id \<Rightarrow> string" where
  "ID_String L i =
     (if ID_Namespace i = [] then APIVersion L i @ ''/'' @ ID_Kind i @ ''/'' @ ID_Name i
      else APIVersion L i @ ''/'' @ ID_Kind i @ ''/'' @ ID_Namespace i @ ''/'' @ ID_Name i)"

definition QualifiedName :: "resource_id \<Rightarrow> string" where
  "QualifiedName i =
     (if ID_Namespace i = [] then ID_Name i else ID_Namespace i @ ''/'' @ ID_Name i)"

subsection \<open>Scopes\<close>

text \<open>The REST mapper answers whether a kind is namespaced, or an error.\<close>

type_synonym rest_mapper = "gvk \<Rightarrow> api_error + bool"

record scopes =
  sc_mapper :: rest_mapper
  sc_rendered :: "(string \<times> string) \<rightharpoonup> bool"

datatype scope_error = ResolveScopeError gvk api_error

definition crd_scope :: "lib \<Rightarrow> unstructured \<Rightarrow> ((string \<times> string) \<rightharpoonup> bool) \<Rightarrow> ((string \<times> string) \<rightharpoonup> bool)" where
  "crd_scope L obj m =
     (if GetKind L obj \<noteq> ''CustomResourceDefinition'' then m
      else let grp = nval [] (NestedString L (Object obj) [''spec'', ''group'']);
               kind = nval [] (NestedString L (Object obj) [''spec'', ''names'', ''kind'']);
               scope = nval [] (NestedString L (Object obj) [''spec'', ''scope''])
           in if kind \<noteq> [] then m((grp, kind) \<mapsto> scope \<noteq> ''Cluster'') else m)"

definition NewScopes :: "lib \<Rightarrow> rest_mapper \<Rightarrow> unstructured list \<Rightarrow> scopes" where
  "NewScopes L mapper objs =
     \<lparr>sc_mapper = mapper, sc_rendered = foldl (\<lambda>m obj. crd_scope L obj m) Map.empty objs\<rparr>"

definition Namespaced :: "lib \<Rightarrow> scopes \<Rightarrow> unstructured \<Rightarrow> scope_error + bool" where
  "Namespaced L s obj =
     (let k = GroupVersionKindOf L obj in
      case sc_mapper s k of
        Inr namespaced \<Rightarrow> Inr namespaced
      | Inl err \<Rightarrow>
          (case sc_rendered s (gvk_Group k, gvk_Kind k) of
             Some namespaced \<Rightarrow> if IsNoMatchError err then Inr namespaced else Inl (ResolveScopeError k err)
           | None \<Rightarrow> Inl (ResolveScopeError k err)))"

text \<open>The identity of an object, when it has one.\<close>

definition object_id :: "lib \<Rightarrow> unstructured \<Rightarrow> resource_id option" where
  "object_id L obj = (case FromObject L obj of Inl _ \<Rightarrow> None | Inr i \<Rightarrow> Some i)"

subsection \<open>Lemmas\<close>

lemma object_id_Some_iff: "object_id L obj = Some i \<longleftrightarrow> FromObject L obj = Inr i"
  by (auto simp: object_id_def split: sum.splits)

lemma FromObject_Inr:
  assumes "FromObject L obj = Inr i"
  shows "ID_Kind i = GetKind L obj" "ID_Name i = GetName L obj" "ID_Namespace i = GetNamespace L obj"
    "ID_Kind i \<noteq> []" "ID_Name i \<noteq> []"
    "ParseGroupVersion L (GetAPIVersion L obj) = Some (ID_Group i, ID_Version i)"
  using assms by (auto simp: FromObject_def split: option.splits if_splits)

lemma FromObject_cong:
  assumes "GetAPIVersion L a = GetAPIVersion L b" "GetKind L a = GetKind L b"
    "GetName L a = GetName L b" "GetNamespace L a = GetNamespace L b"
  shows "FromObject L a = FromObject L b"
  using assms by (simp add: FromObject_def split: option.splits)

lemma split_at_first:
  assumes "a @ c # x = b @ c # y" "c \<notin> set a" "c \<notin> set b"
  shows "a = b \<and> x = y"
  using assms
proof (induction a arbitrary: b)
  case Nil
  then show ?case by (cases b) auto
next
  case (Cons d a)
  then show ?case by (cases b) auto
qed

text \<open>A mapped kind follows the mapper; a kind the mapper does not know follows the rendered
  definition; everything else is an error.\<close>

lemma Namespaced_mapped: "sc_mapper s (GroupVersionKindOf L obj) = Inr b \<Longrightarrow> Namespaced L s obj = Inr b"
  by (simp add: Namespaced_def Let_def)

lemma Namespaced_error_reason:
  "Namespaced L s obj = Inl e \<Longrightarrow> \<exists>err. sc_mapper s (GroupVersionKindOf L obj) = Inl err"
  by (auto simp: Namespaced_def Let_def split: sum.splits)

lemma crd_scope_other: "GetKind L obj \<noteq> ''CustomResourceDefinition'' \<Longrightarrow> crd_scope L obj m = m"
  by (simp add: crd_scope_def)

end
