(* ===== verification/Health.thy ===== *)
theory Health
  imports Resource
begin

text \<open>
  Package \<open>internal/health\<close>: the health of a live object. \<open>Evaluate\<close> has dedicated rules for the
  built-in workload kinds and follows the kstatus conventions for every other kind; \<open>Summary\<close> counts
  the verdicts; an \<open>evaluator\<close> tries the cluster's HealthCheck rules first. The CEL engine is a
  parameter: compiling an expression gives a program or an error, running a program on an object
  gives a value or an error.
\<close>

record health_result =
  hr_Resource :: resource_id
  hr_State :: health_state
  hr_Reason :: string
  hr_Message :: string

record health_condition =
  hcond_Status :: string
  hcond_Reason :: string
  hcond_Message :: string

subsection \<open>Built-in rules\<close>

definition progressing :: "health_result \<Rightarrow> string \<Rightarrow> string \<Rightarrow> health_result" where
  "progressing result reason message =
     result\<lparr>hr_State := HealthStateProgressing, hr_Reason := reason, hr_Message := message\<rparr>"

definition int64OrDefault :: "lib \<Rightarrow> unstructured \<Rightarrow> int \<Rightarrow> string list \<Rightarrow> int" where
  "int64OrDefault L obj fallback path = (case NestedInt64 L (Object obj) path of Found v \<Rightarrow> v | _ \<Rightarrow> fallback)"

definition Conditions :: "lib \<Rightarrow> unstructured \<Rightarrow> string \<rightharpoonup> health_condition" where
  "Conditions L obj =
     foldl (\<lambda>out item.
       (case item of
          VMap entry \<Rightarrow>
            (let kind = as_str (mget entry ''type'') in
             if kind \<noteq> [] then out(kind \<mapsto> \<lparr>hcond_Status = as_str (mget entry ''status''),
                hcond_Reason = as_str (mget entry ''reason''), hcond_Message = as_str (mget entry ''message'')\<rparr>)
             else out)
        | _ \<Rightarrow> out))
     Map.empty (nval [] (NestedSlice L (Object obj) [''status'', ''conditions'']))"

definition condition_true :: "(string \<rightharpoonup> health_condition) \<Rightarrow> string \<Rightarrow> health_condition option" where
  "condition_true cs t = (case cs t of
       Some c \<Rightarrow> if hcond_Status c = ''True'' then Some c else None
     | None \<Rightarrow> None)"

definition generic :: "lib \<Rightarrow> health_result \<Rightarrow> unstructured \<Rightarrow> health_result" where
  "generic L result obj =
     (if (case NestedInt64 L (Object obj) [''status'', ''observedGeneration''] of
            Found observed \<Rightarrow> observed < GetGeneration L obj | _ \<Rightarrow> False)
      then progressing result ''GenerationPending'' ''controller has not observed latest generation''
      else
        (let conditions = Conditions L obj in
         case condition_true conditions ''Stalled'' of
           Some c \<Rightarrow> result\<lparr>hr_State := HealthStateDegraded, hr_Reason := ''Stalled'', hr_Message := hcond_Message c\<rparr>
         | None \<Rightarrow>
             (case condition_true conditions ''Reconciling'' of
                Some c \<Rightarrow> progressing result ''Reconciling'' (hcond_Message c)
              | None \<Rightarrow>
                  (case conditions ''Ready'' of
                     Some c \<Rightarrow> if hcond_Status c \<noteq> ''True'' then progressing result ''NotReady'' (hcond_Message c) else result
                   | None \<Rightarrow> result))))"

definition count_of :: "int \<Rightarrow> int \<Rightarrow> string \<Rightarrow> string" where
  "count_of n m what = itoa n @ ''/'' @ itoa m @ '' '' @ what"

definition Evaluate :: "lib \<Rightarrow> unstructured \<Rightarrow> id_error + health_result" where
  "Evaluate L obj =
     (case FromObject L obj of
        Inl err \<Rightarrow> Inl err
      | Inr i \<Rightarrow>
          (let result = \<lparr>hr_Resource = i, hr_State = HealthStateHealthy, hr_Reason = ''Ready'', hr_Message = []\<rparr>;
               kind = GetKind L obj;
               generation = GetGeneration L obj;
               observed = int64OrDefault L obj 0 [''status'', ''observedGeneration'']
           in if kind = ''Deployment'' \<or> kind = ''StatefulSet'' then
                (let desired = int64OrDefault L obj 1 [''spec'', ''replicas''];
                     available = int64OrDefault L obj 0 [''status'', ''availableReplicas'']
                 in if generation > 0 \<and> observed < generation
                    then Inr (progressing result ''GenerationPending'' ''controller has not observed latest generation'')
                    else if available < desired
                    then Inr (progressing result ''ReplicasUnavailable'' (count_of available desired ''replicas available''))
                    else Inr result)
              else if kind = ''DaemonSet'' then
                (let desired = int64OrDefault L obj 0 [''status'', ''desiredNumberScheduled''];
                     updated = int64OrDefault L obj 0 [''status'', ''updatedNumberScheduled''];
                     available = int64OrDefault L obj 0 [''status'', ''numberAvailable'']
                 in if generation > 0 \<and> observed < generation
                    then Inr (progressing result ''GenerationPending'' ''controller has not observed latest generation'')
                    else if updated < desired
                    then Inr (progressing result ''ReplicasUnavailable'' (count_of updated desired ''pods updated''))
                    else if available < desired
                    then Inr (progressing result ''ReplicasUnavailable'' (count_of available desired ''pods available''))
                    else Inr result)
              else if kind = ''Pod'' then
                (let phase = nval [] (NestedString L (Object obj) [''status'', ''phase''])
                 in if phase = ''Running'' \<or> phase = ''Succeeded'' then Inr result
                    else if phase = ''Failed''
                    then Inr \<lparr>hr_Resource = i, hr_State = HealthStateDegraded, hr_Reason = ''PodFailed'',
                              hr_Message = ''pod phase is Failed''\<rparr>
                    else Inr (progressing result ''PodPending'' ''pod is not running''))
              else if kind = ''Job'' then
                (let conditions = Conditions L obj
                 in case condition_true conditions ''Failed'' of
                      Some c \<Rightarrow> Inr \<lparr>hr_Resource = i, hr_State = HealthStateDegraded, hr_Reason = ''JobFailed'',
                                    hr_Message = hcond_Message c\<rparr>
                    | None \<Rightarrow>
                        (case condition_true conditions ''Complete'' of
                           Some c \<Rightarrow> Inr result
                         | None \<Rightarrow> Inr (progressing result ''JobRunning'' ''job has not completed'')))
              else Inr (generic L result obj)))"

subsection \<open>Summary\<close>

fun count_state :: "health_state \<Rightarrow> resource_health_summary \<Rightarrow> resource_health_summary" where
  "count_state HealthStateHealthy s = s\<lparr>hs_Healthy := hs_Healthy s + 1\<rparr>"
| "count_state HealthStateProgressing s = s\<lparr>hs_Progressing := hs_Progressing s + 1\<rparr>"
| "count_state HealthStateDegraded s = s\<lparr>hs_Degraded := hs_Degraded s + 1\<rparr>"
| "count_state _ s = s\<lparr>hs_Unknown := hs_Unknown s + 1\<rparr>"

definition Summary :: "health_result list \<Rightarrow> resource_health_summary" where
  "Summary results = foldl (\<lambda>s r. count_state (hr_State r) s)
     (zero_health\<lparr>hs_Total := int (length results)\<rparr>) results"

subsection \<open>HealthCheck rules\<close>

datatype cel_value = CelBool bool | CelOther

text \<open>\<open>CompileRule\<close> accepts an expression that compiles and whose output type is bool or dynamic; a
  compiled rule carries its program as what it answers on an object.\<close>

datatype cel_type = CelBoolType | CelDynType | CelOtherType string

type_synonym cel_program = "gomap \<Rightarrow> string + cel_value"

record cel =
  cel_Compile :: "string \<Rightarrow> string + cel_type"
  cel_Program :: "string \<Rightarrow> string + cel_program"

definition CompileRule :: "cel \<Rightarrow> string \<Rightarrow> string + cel_program" where
  "CompileRule C expression =
     (case cel_Compile C expression of
        Inl issue \<Rightarrow> Inl issue
      | Inr (CelOtherType t) \<Rightarrow> Inl (''expression must evaluate to a bool, not '' @ t)
      | Inr _ \<Rightarrow> cel_Program C expression)"

record compiled_rule =
  cr_program :: cel_program
  cr_rule :: health_rule
  cr_source :: string

type_synonym evaluator = "(string \<times> string) \<Rightarrow> compiled_rule list"

definition check_lt :: "health_check \<Rightarrow> health_check \<Rightarrow> bool" where
  "check_lt a b = (hc_Name a < hc_Name b)"

definition rule_source :: "string \<Rightarrow> nat \<Rightarrow> string" where
  "rule_source name i = ''HealthCheck '' @ name @ '' rule '' @ itoa (int i)"

fun compile_rules :: "cel \<Rightarrow> string \<Rightarrow> (string \<times> string) \<Rightarrow> nat \<Rightarrow> health_rule list
    \<Rightarrow> evaluator \<times> string list \<Rightarrow> evaluator \<times> string list" where
  "compile_rules C name gk i [] acc = acc"
| "compile_rules C name gk i (rule # rules) (ev, invalid) =
     (case CompileRule C (rule_Expression rule) of
        Inl err \<Rightarrow> compile_rules C name gk (Suc i) rules (ev, invalid @ [rule_source name i @ '': '' @ err])
      | Inr program \<Rightarrow> compile_rules C name gk (Suc i) rules
          (ev(gk := ev gk @ [\<lparr>cr_program = program, cr_rule = rule, cr_source = rule_source name i\<rparr>]), invalid))"

text \<open>The invalid rules come back beside the evaluator that skips them.\<close>

definition NewEvaluator :: "cel \<Rightarrow> health_check list \<Rightarrow> evaluator \<times> string list" where
  "NewEvaluator C checks =
     foldl (\<lambda>acc check. compile_rules C (hc_Name check) (hc_Group check, hc_Kind check) 0 (hc_Rules check) acc)
       ((\<lambda>_. []), []) (sort_by check_lt checks)"

fun first_rule :: "gomap \<Rightarrow> health_result \<Rightarrow> health_result \<Rightarrow> compiled_rule list \<Rightarrow> health_result" where
  "first_rule obj result fallback [] = fallback"
| "first_rule obj result fallback (rule # rules) =
     (case cr_program rule obj of
        Inl err \<Rightarrow> progressing result ''HealthCheckFailed'' (cr_source rule @ '': '' @ err)
      | Inr CelOther \<Rightarrow> progressing result ''HealthCheckFailed'' (cr_source rule @ '' did not return a bool'')
      | Inr (CelBool matched) \<Rightarrow>
          if matched then result\<lparr>hr_State := rule_State (cr_rule rule), hr_Reason := ''HealthCheck'',
                                 hr_Message := rule_Message (cr_rule rule)\<rparr>
          else first_rule obj result fallback rules)"

definition Evaluator_Evaluate :: "lib \<Rightarrow> evaluator \<Rightarrow> unstructured \<Rightarrow> id_error + health_result" where
  "Evaluator_Evaluate L e obj =
     (let k = GroupVersionKindOf L obj;
          rules = e (gvk_Group k, gvk_Kind k)
      in if rules = [] then Evaluate L obj
         else case Evaluate L obj of
                Inl err \<Rightarrow> Inl err
              | Inr fallback \<Rightarrow>
                  Inr (first_rule (Object obj)
                    \<lparr>hr_Resource = hr_Resource fallback, hr_State = HealthStateNone, hr_Reason = [], hr_Message = []\<rparr>
                    fallback rules))"

subsection \<open>Verdicts\<close>

definition verdicts :: "health_state set" where
  "verdicts = {HealthStateHealthy, HealthStateProgressing, HealthStateDegraded}"

lemma verdicts_simps [simp]:
  "HealthStateHealthy \<in> verdicts" "HealthStateProgressing \<in> verdicts" "HealthStateDegraded \<in> verdicts"
  by (simp_all add: verdicts_def)

lemma generic_facts:
  shows "hr_State result = HealthStateHealthy \<Longrightarrow> hr_State (generic L result obj) \<in> verdicts"
    and "hr_Resource (generic L result obj) = hr_Resource result"
  by (auto simp: generic_def progressing_def verdicts_def Let_def split: option.splits nested.splits)

lemma Evaluate_facts:
  assumes "Evaluate L obj = Inr r"
  shows "FromObject L obj = Inr (hr_Resource r)" "hr_State r \<in> verdicts"
proof -
  from assms obtain i where i: "FromObject L obj = Inr i"
    by (auto simp: Evaluate_def split: sum.splits)
  have "hr_Resource r = i \<and> hr_State r \<in> verdicts"
    using assms i by (auto simp: generic_facts Evaluate_def Let_def progressing_def split: if_splits option.splits)
  then show "FromObject L obj = Inr (hr_Resource r)" "hr_State r \<in> verdicts" using i by auto
qed

lemma first_rule_resource:
  "hr_Resource result = hr_Resource fallback \<Longrightarrow> hr_Resource (first_rule obj result fallback rules) = hr_Resource fallback"
  by (induction rules) (auto simp: progressing_def split: sum.splits cel_value.splits)

lemma first_rule_state:
  assumes "hr_State fallback \<in> verdicts" "\<forall>r \<in> set rules. rule_State (cr_rule r) \<in> verdicts"
  shows "hr_State (first_rule obj result fallback rules) \<in> verdicts"
  using assms
  by (induction rules) (auto simp: progressing_def verdicts_def split: sum.splits cel_value.splits)

text \<open>The CRD admits only the three verdicts as the state of a rule.\<close>

definition rules_admitted :: "evaluator \<Rightarrow> bool" where
  "rules_admitted e \<longleftrightarrow> (\<forall>gk. \<forall>r \<in> set (e gk). rule_State (cr_rule r) \<in> verdicts)"

lemma Evaluator_facts:
  assumes "Evaluator_Evaluate L e obj = Inr r"
  shows "FromObject L obj = Inr (hr_Resource r)"
    and "rules_admitted e \<Longrightarrow> hr_State r \<in> verdicts"
  using assms Evaluate_facts [of L obj] first_rule_state first_rule_resource
  by (auto simp: Evaluator_Evaluate_def rules_admitted_def Let_def split: sum.splits if_splits)

lemma compile_rules_admitted:
  assumes "rules_admitted ev" "\<forall>r \<in> set rules. rule_State r \<in> verdicts"
  shows "rules_admitted (fst (compile_rules C name gk i rules (ev, invalid)))"
  using assms
proof (induction rules arbitrary: i ev invalid)
  case (Cons r rules)
  show ?case
  proof (cases "CompileRule C (rule_Expression r)")
    case (Inl err)
    then show ?thesis using Cons by simp
  next
    case (Inr program)
    have "rules_admitted (ev(gk := ev gk @ [\<lparr>cr_program = program, cr_rule = r, cr_source = rule_source name i\<rparr>]))"
      using Cons.prems by (auto simp: rules_admitted_def)
    then show ?thesis using Inr Cons by simp
  qed
qed simp

lemma NewEvaluator_admitted:
  assumes "\<forall>c \<in> set checks. \<forall>r \<in> set (hc_Rules c). rule_State r \<in> verdicts"
  shows "rules_admitted (fst (NewEvaluator C checks))"
proof -
  let ?step = "\<lambda>acc check. compile_rules C (hc_Name check) (hc_Group check, hc_Kind check) 0 (hc_Rules check) acc"
  have "rules_admitted (fst (foldl ?step acc cs))"
    if "rules_admitted (fst acc)" "set cs \<subseteq> set checks" for acc cs
    using that
  proof (induction cs arbitrary: acc)
    case (Cons c cs)
    have "rules_admitted (fst (?step acc c))"
      using compile_rules_admitted [of "fst acc" "hc_Rules c" C "hc_Name c" "(hc_Group c, hc_Kind c)" 0 "snd acc"]
        Cons.prems assms by auto
    then show ?case using Cons.IH [of "?step acc c"] Cons.prems by simp
  qed simp
  moreover have "rules_admitted (\<lambda>_. [])" by (simp add: rules_admitted_def)
  ultimately show ?thesis by (simp add: NewEvaluator_def)
qed

subsection \<open>Counting\<close>

definition in_state :: "health_state \<Rightarrow> health_result list \<Rightarrow> int" where
  "in_state st results = int (length (filter (\<lambda>r. hr_State r = st) results))"

lemma Summary_counts:
  "hs_Total (Summary results) = int (length results)"
  "hs_Healthy (Summary results) = in_state HealthStateHealthy results"
  "hs_Progressing (Summary results) = in_state HealthStateProgressing results"
  "hs_Degraded (Summary results) = in_state HealthStateDegraded results"
  "hs_Unknown (Summary results) =
     int (length results) - in_state HealthStateHealthy results - in_state HealthStateProgressing results
       - in_state HealthStateDegraded results"
proof -
  let ?f = "\<lambda>s r. count_state (hr_State r) s"
  have *: "hs_Total (foldl ?f s rs) = hs_Total s \<and>
      hs_Healthy (foldl ?f s rs) = hs_Healthy s + in_state HealthStateHealthy rs \<and>
      hs_Progressing (foldl ?f s rs) = hs_Progressing s + in_state HealthStateProgressing rs \<and>
      hs_Degraded (foldl ?f s rs) = hs_Degraded s + in_state HealthStateDegraded rs \<and>
      hs_Unknown (foldl ?f s rs) = hs_Unknown s + int (length rs) - in_state HealthStateHealthy rs
        - in_state HealthStateProgressing rs - in_state HealthStateDegraded rs" for s rs
  proof (induction rs arbitrary: s)
    case (Cons r rs)
    show ?case by (cases "hr_State r") (simp_all add: Cons in_state_def)
  qed (simp add: in_state_def)
  show "hs_Total (Summary results) = int (length results)"
    "hs_Healthy (Summary results) = in_state HealthStateHealthy results"
    "hs_Progressing (Summary results) = in_state HealthStateProgressing results"
    "hs_Degraded (Summary results) = in_state HealthStateDegraded results"
    "hs_Unknown (Summary results) =
       int (length results) - in_state HealthStateHealthy results - in_state HealthStateProgressing results
         - in_state HealthStateDegraded results"
    using * [of "zero_health\<lparr>hs_Total := int (length results)\<rparr>" results]
    by (simp_all add: Summary_def zero_health_def)
qed

lemma in_state_zero: "in_state st results \<le> 0 \<longleftrightarrow> (\<forall>r \<in> set results. hr_State r \<noteq> st)"
  by (auto simp: in_state_def filter_empty_conv)

lemma length_filter_all: "length (filter P xs) = length xs \<longleftrightarrow> list_all P xs"
proof (induction xs)
  case (Cons x xs)
  moreover have "length (filter P xs) \<noteq> Suc (length xs)" using length_filter_le [of P xs] by linarith
  ultimately show ?case by auto
qed simp

lemma in_state_all: "in_state st results = int (length results) \<longleftrightarrow> (\<forall>r \<in> set results. hr_State r = st)"
proof -
  have "length (filter (\<lambda>r. hr_State r = st) results) = length results
      \<longleftrightarrow> (\<forall>r \<in> set results. hr_State r = st)"
    by (simp add: length_filter_all list_all_iff)
  then show ?thesis by (simp add: in_state_def)
qed

subsection \<open>Properties\<close>

text \<open>The summary adds up: the four counts are disjoint, sum to the total, and all resources
  count as healthy exactly when each of them is.\<close>

theorem Summary_adds_up:
  "hs_Total (Summary results) = hs_Healthy (Summary results) + hs_Progressing (Summary results)
     + hs_Degraded (Summary results) + hs_Unknown (Summary results)
   \<and> (hs_Healthy (Summary results) = hs_Total (Summary results)) =
       list_all (\<lambda>r. hr_State r = HealthStateHealthy) results
   \<and> (hs_Degraded (Summary results) > 0) = list_ex (\<lambda>r. hr_State r = HealthStateDegraded) results
   \<and> 0 \<le> hs_Unknown (Summary results)"
proof -
  have "0 \<le> hs_Unknown (Summary results)"
  proof -
    have "in_state HealthStateHealthy rs + in_state HealthStateProgressing rs + in_state HealthStateDegraded rs
        \<le> int (length rs)" for rs
      by (induction rs) (auto simp: in_state_def)
    from this [of results] show ?thesis unfolding Summary_counts by linarith
  qed
  then show ?thesis
    using in_state_all [of HealthStateHealthy results] in_state_zero [of HealthStateDegraded results]
    by (auto simp: Summary_counts list_all_iff list_ex_iff)
qed

text \<open>HealthCheck rules fail closed: when the first rule that does not answer false fails or
  answers something other than a bool, the object is Progressing, which holds a rollout, whatever the
  built-in rules and the later rules would say.\<close>

theorem failing_rule_holds_rollout:
  assumes "Evaluator_Evaluate L e obj = Inr r"
    and "e (gvk_Group (GroupVersionKindOf L obj), gvk_Kind (GroupVersionKindOf L obj)) = before @ rule # after"
    and "list_all (\<lambda>b. cr_program b (Object obj) = Inr (CelBool False)) before"
    and "isl (cr_program rule (Object obj)) \<or> cr_program rule (Object obj) = Inr CelOther"
  shows "hr_State r = HealthStateProgressing \<and> hr_Reason r = ''HealthCheckFailed''"
proof -
  have "first_rule (Object obj) result fallback (before @ rule # after)
      = first_rule (Object obj) result fallback (rule # after)" for result fallback
    using assms(3) by (induction before) auto
  then show ?thesis
    using assms by (auto simp: Evaluator_Evaluate_def Let_def progressing_def split: sum.splits)
qed

definition broken_rule :: compiled_rule where
  "broken_rule = \<lparr>cr_program = (\<lambda>obj. Inl ''no such key''),
     cr_rule = \<lparr>rule_Expression = ''object.x'', rule_State = HealthStateHealthy, rule_Message = []\<rparr>,
     cr_source = ''HealthCheck c rule 0''\<rparr>"

definition pod :: unstructured where
  "pod = \<lparr>Object = [(''apiVersion'', VStr ''v1''), (''kind'', VStr ''Pod''),
     (''metadata'', VMap [(''name'', VStr ''p'')])]\<rparr>"

theorem failing_rule_holds_rollout_witness:
  "hr_State (projr (Evaluator_Evaluate std_lib (\<lambda>_. [broken_rule]) pod)) = HealthStateProgressing
   \<and> hr_Reason (projr (Evaluator_Evaluate std_lib (\<lambda>_. [broken_rule]) pod)) = ''HealthCheckFailed''"
proof (rule failing_rule_holds_rollout [where before = "[]" and rule = broken_rule and after = "[]"])
  have "\<not> isl (Evaluator_Evaluate std_lib (\<lambda>_. [broken_rule]) pod)" by code_simp
  then show "Evaluator_Evaluate std_lib (\<lambda>_. [broken_rule]) pod
    = Inr (projr (Evaluator_Evaluate std_lib (\<lambda>_. [broken_rule]) pod))" by simp
qed (simp_all add: broken_rule_def)

end
