(* ===== verification/Ordering.thy ===== *)
theory Ordering
  imports Resource
begin

text \<open>
  Package \<open>internal/ordering\<close>: the order in which rendered objects are applied and pruned, the
  stage an object's hook annotations put it in, its sync wave, and the groups a rollout applies one
  after the other. The stages are a datatype whose \<open>StageNone\<close> is the empty string of the
  source; \<open>Groups\<close> is proved equal to a declarative description of the groups.
\<close>

subsection \<open>Apply and prune order\<close>

definition layer :: "lib \<Rightarrow> unstructured \<Rightarrow> nat" where
  "layer L obj =
     (let k = GetKind L obj in
      if k \<in> set [''Namespace'', ''CustomResourceDefinition''] then 0
      else if k \<in> set [''ServiceAccount'', ''Role'', ''ClusterRole'', ''RoleBinding'',
        ''ClusterRoleBinding'', ''ConfigMap'', ''Secret'', ''PersistentVolumeClaim''] then 10
      else if k = ''Service'' then 20
      else if k \<in> set [''Deployment'', ''StatefulSet'', ''DaemonSet'', ''ReplicaSet'', ''Job'',
        ''CronJob''] then 30
      else if k \<in> set [''Ingress'', ''HTTPRoute'', ''GRPCRoute''] then 40
      else 50)"

definition identity :: "lib \<Rightarrow> unstructured \<Rightarrow> string" where
  "identity L obj =
     GetAPIVersion L obj @ ''/'' @ GetKind L obj @ ''/'' @ GetNamespace L obj @ ''/'' @ GetName L obj"

definition apply_lt :: "lib \<Rightarrow> unstructured \<Rightarrow> unstructured \<Rightarrow> bool" where
  "apply_lt L a b =
     (if layer L a \<noteq> layer L b then layer L a < layer L b else identity L a < identity L b)"

definition Apply :: "lib \<Rightarrow> unstructured list \<Rightarrow> unstructured list" where
  "Apply L objs = sort_by (apply_lt L) objs"

definition Prune :: "lib \<Rightarrow> unstructured list \<Rightarrow> unstructured list" where
  "Prune L objs = rev (Apply L objs)"

subsection \<open>Hooks\<close>

datatype stage = StageNone | StagePreSync | StageSync | StagePostSync | StageSkip

definition KuvrynSyncHookAnnotation :: string where
  "KuvrynSyncHookAnnotation = ''sync.kuvryn.io/hook''"
definition ArgoHookAnnotation :: string where
  "ArgoHookAnnotation = ''argocd.argoproj.io/hook''"
definition HelmHookAnnotation :: string where
  "HelmHookAnnotation = ''helm.sh/hook''"

datatype hook_error = UnknownHook string string \<comment> \<open>annotation and value\<close>

definition firstStage :: "stage \<Rightarrow> stage \<Rightarrow> stage" where
  "firstStage current nxt = (if current = StageNone \<or> current = StageSkip then nxt else current)"

text \<open>The loop of \<open>argoHookStage\<close> over the comma-separated events.\<close>

fun argo_events :: "string \<Rightarrow> string list \<Rightarrow> stage \<Rightarrow> bool \<Rightarrow> hook_error + stage" where
  "argo_events value [] stage skip =
     (if stage = StageSync then Inr StageNone
      else if stage \<noteq> StageNone then Inr stage
      else if skip then Inr StageSkip
      else Inr StageNone)"
| "argo_events value (event # events) stage skip =
     (let e = TrimSpace event in
      if e = ''PreSync'' then argo_events value events (firstStage stage StagePreSync) skip
      else if e = ''PostSync'' then argo_events value events (firstStage stage StagePostSync) skip
      else if e = ''Sync'' then argo_events value events (firstStage stage StageSync) skip
      else if e = ''Skip'' then Inr StageSkip
      else if e \<in> set [''SyncFail'', ''PreDelete'', ''PostDelete''] then argo_events value events stage True
      else Inl (UnknownHook ArgoHookAnnotation value))"

definition argoHookStage :: "string \<Rightarrow> hook_error + stage" where
  "argoHookStage value = argo_events value (Split CHR '','' value) StageNone False"

fun helm_events :: "string list \<Rightarrow> stage \<Rightarrow> stage" where
  "helm_events [] stage = stage"
| "helm_events (event # events) stage =
     (let e = ToLower (TrimSpace event) in
      if e \<in> set [''pre-install'', ''pre-upgrade''] then helm_events events (firstStage stage StagePreSync)
      else if e \<in> set [''post-install'', ''post-upgrade''] then helm_events events (firstStage stage StagePostSync)
      else helm_events events stage)"

definition helmHookStage :: "string \<Rightarrow> stage" where
  "helmHookStage value =
     (if TrimSpace value = [] then StageNone else helm_events (Split CHR '','' value) StageSkip)"

definition hookStage :: "(string \<times> string) list \<Rightarrow> hook_error + stage" where
  "hookStage annotations =
     (case map_of annotations KuvrynSyncHookAnnotation of
        Some value \<Rightarrow>
          (let v = ToLower (TrimSpace value) in
           if v = ''pre-sync'' then Inr StagePreSync
           else if v = ''post-sync'' then Inr StagePostSync
           else if v = ''skip'' then Inr StageSkip
           else Inl (UnknownHook KuvrynSyncHookAnnotation value))
      | None \<Rightarrow>
          (case map_of annotations ArgoHookAnnotation of
             Some value \<Rightarrow> argoHookStage value
           | None \<Rightarrow> Inr (helmHookStage (get_str (map_of annotations) HelmHookAnnotation))))"

definition Hook :: "lib \<Rightarrow> unstructured \<Rightarrow> stage" where
  "Hook L obj = (case hookStage (GetAnnotations L obj) of Inl _ \<Rightarrow> StageSkip | Inr stage \<Rightarrow> stage)"

fun ValidateHooks :: "lib \<Rightarrow> unstructured list \<Rightarrow> (unstructured \<times> hook_error) option" where
  "ValidateHooks L [] = None"
| "ValidateHooks L (obj # objs) =
     (case hookStage (GetAnnotations L obj) of
        Inl err \<Rightarrow> Some (obj, err)
      | Inr _ \<Rightarrow> ValidateHooks L objs)"

subsection \<open>Waves and groups\<close>

definition wave_keys :: "string list" where
  "wave_keys = [''sync.kuvryn.io/sync-wave'', ''argocd.argoproj.io/sync-wave'']"

fun wave_from :: "(string \<times> string) list \<Rightarrow> string list \<Rightarrow> int" where
  "wave_from annotations [] = 0"
| "wave_from annotations (key # keys) =
     (case map_of annotations key of
        Some value \<Rightarrow>
          (case Atoi (TrimSpace value) of Some wave \<Rightarrow> wave | None \<Rightarrow> wave_from annotations keys)
      | None \<Rightarrow> wave_from annotations keys)"

definition Wave :: "lib \<Rightarrow> unstructured \<Rightarrow> int" where
  "Wave L obj = wave_from (GetAnnotations L obj) wave_keys"

record group =
  grp_Stage :: stage
  grp_Wave :: int
  grp_Objects :: "unstructured list"

type_synonym group_acc = "unstructured list \<times> (int \<times> unstructured list) list \<times> unstructured list"

fun group_loop :: "lib \<Rightarrow> unstructured list \<Rightarrow> group_acc \<Rightarrow> group_acc" where
  "group_loop L [] acc = acc"
| "group_loop L (obj # objs) (pre, waves, post) =
     (case Hook L obj of
        StagePreSync \<Rightarrow> group_loop L objs (pre @ [obj], waves, post)
      | StagePostSync \<Rightarrow> group_loop L objs (pre, waves, post @ [obj])
      | StageSkip \<Rightarrow> group_loop L objs (pre, waves, post)
      | _ \<Rightarrow> group_loop L objs
          (pre, AList.map_default (Wave L obj) [obj] (\<lambda>objs'. objs' @ [obj]) waves, post))"

definition Groups :: "lib \<Rightarrow> unstructured list \<Rightarrow> group list" where
  "Groups L objs =
     (let (pre, waves, post) = group_loop L objs ([], [], []) in
      (if pre \<noteq> [] then [\<lparr>grp_Stage = StagePreSync, grp_Wave = 0, grp_Objects = Apply L pre\<rparr>] else [])
      @ map (\<lambda>w. \<lparr>grp_Stage = StageSync, grp_Wave = w, grp_Objects = Apply L (the (map_of waves w))\<rparr>)
          (sort (map fst waves))
      @ (if post \<noteq> [] then [\<lparr>grp_Stage = StagePostSync, grp_Wave = 0, grp_Objects = Apply L post\<rparr>] else []))"

subsection \<open>Specification\<close>

definition ordinary :: "lib \<Rightarrow> unstructured \<Rightarrow> bool" where
  "ordinary L obj = (Hook L obj \<noteq> StagePreSync \<and> Hook L obj \<noteq> StagePostSync \<and> Hook L obj \<noteq> StageSkip)"

definition waves_of :: "lib \<Rightarrow> unstructured list \<Rightarrow> int list" where
  "waves_of L objs = sort (remdups (map (Wave L) (filter (ordinary L) objs)))"

definition wave_group :: "lib \<Rightarrow> unstructured list \<Rightarrow> int \<Rightarrow> group" where
  "wave_group L objs w = \<lparr>grp_Stage = StageSync, grp_Wave = w,
     grp_Objects = Apply L (filter (\<lambda>obj. ordinary L obj \<and> Wave L obj = w) objs)\<rparr>"

definition hook_group :: "lib \<Rightarrow> stage \<Rightarrow> unstructured list \<Rightarrow> group list" where
  "hook_group L stage objs =
     (let hooks = filter (\<lambda>obj. Hook L obj = stage) objs in
      if hooks = [] then [] else [\<lparr>grp_Stage = stage, grp_Wave = 0, grp_Objects = Apply L hooks\<rparr>])"

definition groups_spec :: "lib \<Rightarrow> unstructured list \<Rightarrow> group list" where
  "groups_spec L objs =
     hook_group L StagePreSync objs @ map (wave_group L objs) (waves_of L objs)
     @ hook_group L StagePostSync objs"

text \<open>One group must be Healthy before another starts.\<close>

fun stage_rank :: "stage \<Rightarrow> nat" where
  "stage_rank StagePreSync = 0"
| "stage_rank StagePostSync = 2"
| "stage_rank _ = 1"

definition group_before :: "group \<Rightarrow> group \<Rightarrow> bool" where
  "group_before g h \<longleftrightarrow>
     stage_rank (grp_Stage g) < stage_rank (grp_Stage h)
     \<or> stage_rank (grp_Stage g) = stage_rank (grp_Stage h) \<and> grp_Wave g < grp_Wave h"

subsection \<open>The apply order\<close>

interpretation apply_order: strict_weak "apply_lt L" for L
proof
  show "\<not> apply_lt L a a" for a by (simp add: apply_lt_def)
  show "apply_lt L a b \<Longrightarrow> \<not> apply_lt L b a" for a b
    by (auto simp: apply_lt_def split: if_splits)
  show "\<not> apply_lt L a b \<Longrightarrow> \<not> apply_lt L b c \<Longrightarrow> \<not> apply_lt L a c" for a b c
    by (auto simp: apply_lt_def split: if_splits)
qed

lemma mset_Apply [simp]: "mset (Apply L objs) = mset objs"
  by (simp add: Apply_def)

lemma set_Apply [simp]: "set (Apply L objs) = set objs"
  by (simp add: Apply_def)

lemma Apply_eq_Nil [simp]: "Apply L objs = [] \<longleftrightarrow> objs = []"
  by (simp add: Apply_def)

lemma Apply_sorted: "sorted_wrt (\<lambda>a b. \<not> apply_lt L b a) (Apply L objs)"
  unfolding Apply_def by (rule apply_order.sorted_sort_by)

lemma Apply_layers: "sorted (map (layer L) (Apply L objs))"
proof -
  have "sorted_wrt (\<lambda>a b. layer L a \<le> layer L b) (Apply L objs)"
    using Apply_sorted by (rule sorted_wrt_mono_rel [rotated]) (auto simp: apply_lt_def split: if_splits)
  then show ?thesis by (simp add: sorted_wrt_map)
qed

subsection \<open>The grouping loop\<close>

lemma map_default_append:
  "map_of (AList.map_default w [x] (\<lambda>xs. xs @ [x]) waves) v =
     (if v = w then Some ((case map_of waves w of None \<Rightarrow> [] | Some xs \<Rightarrow> xs) @ [x]) else map_of waves v)"
  by (induction waves) (auto split: option.splits)

lemma keys_map_default:
  "map fst (AList.map_default w d f waves)
     = (if w \<in> set (map fst waves) then map fst waves else map fst waves @ [w])"
  by (induction waves) auto

definition bucket :: "lib \<Rightarrow> unstructured list \<Rightarrow> int \<Rightarrow> unstructured list" where
  "bucket L seen w = filter (\<lambda>obj. ordinary L obj \<and> Wave L obj = w) seen"

definition nonempty_buckets :: "(int \<Rightarrow> 'a list) \<Rightarrow> int \<rightharpoonup> 'a list" where
  "nonempty_buckets f w = (if f w = [] then None else Some (f w))"

definition loop_inv :: "lib \<Rightarrow> unstructured list \<Rightarrow> group_acc \<Rightarrow> bool" where
  "loop_inv L seen acc \<longleftrightarrow> (case acc of (pre, waves, post) \<Rightarrow>
     pre = filter (\<lambda>obj. Hook L obj = StagePreSync) seen \<and>
     post = filter (\<lambda>obj. Hook L obj = StagePostSync) seen \<and>
     distinct (map fst waves) \<and>
     map_of waves = nonempty_buckets (bucket L seen))"

lemma bucket_snoc:
  "bucket L (seen @ [obj]) w =
     bucket L seen w @ (if ordinary L obj \<and> Wave L obj = w then [obj] else [])"
  by (simp add: bucket_def)

lemma bucket_not_ordinary: "\<not> ordinary L obj \<Longrightarrow> bucket L (seen @ [obj]) = bucket L seen"
  by (simp add: fun_eq_iff bucket_def)

lemma bucket_empty [simp]: "bucket L [] = (\<lambda>w. [])"
  by (simp add: fun_eq_iff bucket_def)

lemma bucket_Nil_iff: "bucket L seen w = [] \<longleftrightarrow> w \<notin> Wave L ` set (filter (ordinary L) seen)"
  by (auto simp: bucket_def filter_empty_conv)

lemma loop_inv_hook:
  assumes "loop_inv L seen (pre, waves, post)" "Hook L obj = StagePreSync"
  shows "loop_inv L (seen @ [obj]) (pre @ [obj], waves, post)"
  using assms bucket_not_ordinary [of L obj seen] by (simp add: loop_inv_def ordinary_def)

lemma loop_inv_post:
  assumes "loop_inv L seen (pre, waves, post)" "Hook L obj = StagePostSync"
  shows "loop_inv L (seen @ [obj]) (pre, waves, post @ [obj])"
  using assms bucket_not_ordinary [of L obj seen] by (simp add: loop_inv_def ordinary_def)

lemma loop_inv_skip:
  assumes "loop_inv L seen (pre, waves, post)" "Hook L obj = StageSkip"
  shows "loop_inv L (seen @ [obj]) (pre, waves, post)"
  using assms bucket_not_ordinary [of L obj seen] by (simp add: loop_inv_def ordinary_def)

lemma loop_inv_wave:
  assumes inv: "loop_inv L seen (pre, waves, post)" and ord: "ordinary L obj"
  shows "loop_inv L (seen @ [obj])
    (pre, AList.map_default (Wave L obj) [obj] (\<lambda>objs. objs @ [obj]) waves, post)"
proof -
  let ?new = "AList.map_default (Wave L obj) [obj] (\<lambda>objs. objs @ [obj]) waves"
  have "map_of ?new = nonempty_buckets (bucket L (seen @ [obj]))"
    using inv ord
    by (auto simp: loop_inv_def map_default_append bucket_snoc nonempty_buckets_def fun_eq_iff)
  moreover have "distinct (map fst ?new)"
    using inv by (auto simp: loop_inv_def keys_map_default simp del: set_map)
  moreover have "\<not> Hook L obj = StagePreSync" "\<not> Hook L obj = StagePostSync"
    using ord by (auto simp: ordinary_def)
  ultimately show ?thesis using inv by (simp add: loop_inv_def)
qed

lemma group_loop_inv: "loop_inv L seen acc \<Longrightarrow> loop_inv L (seen @ objs) (group_loop L objs acc)"
proof (induction objs arbitrary: seen acc)
  case Nil
  then show ?case by simp
next
  case (Cons obj objs)
  obtain pre waves post where acc: "acc = (pre, waves, post)" by (cases acc)
  have "loop_inv L ((seen @ [obj]) @ objs) (group_loop L (obj # objs) acc)"
  proof (cases "ordinary L obj")
    case True
    with Cons.prems acc have "loop_inv L ((seen @ [obj]) @ objs) (group_loop L objs
        (pre, AList.map_default (Wave L obj) [obj] (\<lambda>objs. objs @ [obj]) waves, post))"
      by (intro Cons.IH loop_inv_wave) auto
    with True acc show ?thesis by (auto simp: ordinary_def split: stage.splits)
  next
    case False
    have "loop_inv L seen (pre, waves, post)" using Cons.prems acc by simp
    note steps = loop_inv_hook [OF this] loop_inv_post [OF this] loop_inv_skip [OF this]
    from False acc show ?thesis
      by (cases "Hook L obj") (simp_all only: group_loop.simps stage.case ordinary_def Cons.IH steps, simp_all)
  qed
  then show ?case by simp
qed

lemma group_loop_start: "loop_inv L objs (group_loop L objs ([], [], []))"
proof -
  have "loop_inv L [] ([], [], [])" by (simp add: loop_inv_def nonempty_buckets_def fun_eq_iff)
  then have "loop_inv L ([] @ objs) (group_loop L objs ([], [], []))" by (rule group_loop_inv)
  then show ?thesis by simp
qed

lemma sorted_keys_unique:
  "distinct (xs :: int list) \<Longrightarrow> set xs = set ys \<Longrightarrow> sort xs = sort (remdups ys)"
  by (rule properties_for_sort) (auto simp: mset_set_set [symmetric])

lemma Groups_eq_spec: "Groups L objs = groups_spec L objs"
proof -
  obtain pre waves post where acc: "group_loop L objs ([], [], []) = (pre, waves, post)"
    by (cases "group_loop L objs ([], [], [])")
  have inv: "loop_inv L objs (pre, waves, post)"
    using group_loop_start [of L objs] acc by simp
  have dom: "set (map fst waves) = Wave L ` set (filter (ordinary L) objs)"
    using dom_map_of_conv_image_fst [of waves] inv
    by (auto simp: loop_inv_def dom_def nonempty_buckets_def bucket_Nil_iff split: if_splits)
  have keys: "sort (map fst waves) = waves_of L objs"
    unfolding waves_of_def
    by (rule sorted_keys_unique) (use inv dom in \<open>auto simp: loop_inv_def\<close>)
  have "map (\<lambda>w. \<lparr>grp_Stage = StageSync, grp_Wave = w, grp_Objects = Apply L (the (map_of waves w))\<rparr>)
      (sort (map fst waves)) = map (wave_group L objs) (waves_of L objs)"
    unfolding keys [symmetric] wave_group_def
  proof (rule map_cong [OF refl])
    fix w assume "w \<in> set (sort (map fst waves))"
    then have "bucket L objs w \<noteq> []" using dom by (simp add: bucket_Nil_iff)
    then have "the (map_of waves w) = bucket L objs w" using inv by (simp add: loop_inv_def nonempty_buckets_def)
    then show "\<lparr>grp_Stage = StageSync, grp_Wave = w, grp_Objects = Apply L (the (map_of waves w))\<rparr>
      = \<lparr>grp_Stage = StageSync, grp_Wave = w,
          grp_Objects = Apply L (filter (\<lambda>obj. ordinary L obj \<and> Wave L obj = w) objs)\<rparr>"
      by (simp add: bucket_def)
  qed
  with inv acc show ?thesis
    by (simp add: Groups_def groups_spec_def hook_group_def loop_inv_def Let_def)
qed

subsection \<open>What the groups hold\<close>

lemma mset_concat_buckets:
  "distinct ws \<Longrightarrow>
   mset (concat (map (\<lambda>w. filter (\<lambda>x. P x \<and> f x = w) xs) ws)) = mset (filter (\<lambda>x. P x \<and> f x \<in> set ws) xs)"
proof (induction ws)
  case Nil
  then show ?case by simp
next
  case (Cons w ws)
  have "mset (filter (\<lambda>x. P x \<and> f x \<in> set (w # ws)) xs)
      = mset (filter (\<lambda>x. P x \<and> f x = w) xs) + mset (filter (\<lambda>x. P x \<and> f x \<in> set ws) xs)"
    using Cons.prems by (induction xs) auto
  with Cons show ?case by simp
qed

lemma mset_concat_Apply: "mset (concat (map (\<lambda>w. Apply L (g w)) ws)) = mset (concat (map g ws))"
  by (induction ws) auto

lemma waves_of_facts: "distinct (waves_of L objs)" "sorted (waves_of L objs)"
  "set (waves_of L objs) = Wave L ` set (filter (ordinary L) objs)"
  by (simp_all add: waves_of_def)

lemma mset_hook_group:
  "mset (concat (map grp_Objects (hook_group L stage objs))) = mset (filter (\<lambda>obj. Hook L obj = stage) objs)"
  by (auto simp: hook_group_def Let_def filter_empty_conv)

lemma mset_wave_groups:
  "mset (concat (map grp_Objects (map (wave_group L objs) (waves_of L objs)))) = mset (filter (ordinary L) objs)"
proof -
  have "mset (concat (map grp_Objects (map (wave_group L objs) (waves_of L objs))))
      = mset (filter (\<lambda>obj. ordinary L obj \<and> Wave L obj \<in> set (waves_of L objs)) objs)"
    by (simp add: comp_def wave_group_def mset_concat_Apply mset_concat_buckets waves_of_facts
        del: mset_concat)
  also have "filter (\<lambda>obj. ordinary L obj \<and> Wave L obj \<in> set (waves_of L objs)) objs = filter (ordinary L) objs"
    by (rule filter_cong) (auto simp: waves_of_facts)
  finally show ?thesis .
qed

lemma mset_stages:
  "mset (filter (\<lambda>obj. Hook L obj = StagePreSync) objs) + mset (filter (ordinary L) objs)
     + mset (filter (\<lambda>obj. Hook L obj = StagePostSync) objs)
   = mset (filter (\<lambda>obj. Hook L obj \<noteq> StageSkip) objs)"
  by (induction objs) (auto simp: ordinary_def)

lemma mset_Groups:
  "mset (concat (map grp_Objects (Groups L objs))) = mset (filter (\<lambda>obj. Hook L obj \<noteq> StageSkip) objs)"
  unfolding Groups_eq_spec groups_spec_def map_append concat_append mset_append
    mset_hook_group mset_wave_groups
  by (simp only: mset_stages flip: add.assoc)

lemma set_Groups:
  "(\<Union>g \<in> set (Groups L objs). set (grp_Objects g)) = {obj \<in> set objs. Hook L obj \<noteq> StageSkip}"
  using arg_cong [OF mset_Groups [of L objs], of set_mset] by simp

lemma group_before_spec: "sorted_wrt group_before (groups_spec L objs)"
proof -
  have "sorted_wrt (<) (waves_of L objs)"
    using waves_of_facts [of L objs] by (simp add: strict_sorted_iff)
  then have "sorted_wrt group_before (map (wave_group L objs) (waves_of L objs))"
    unfolding sorted_wrt_map
    by (rule sorted_wrt_mono_rel [rotated]) (simp add: group_before_def wave_group_def)
  then show ?thesis
    by (auto simp: groups_spec_def hook_group_def Let_def sorted_wrt_append group_before_def wave_group_def)
qed

lemma groups_spec_shape:
  "list_all (\<lambda>g. grp_Objects g \<noteq> [] \<and> sorted (map (layer L) (grp_Objects g))) (groups_spec L objs)"
proof -
  have "bucket L objs w \<noteq> []" if "w \<in> set (waves_of L objs)" for w
    using that by (simp add: bucket_Nil_iff waves_of_facts)
  then have "grp_Objects (wave_group L objs w) \<noteq> []" if "w \<in> set (waves_of L objs)" for w
    using that by (simp add: wave_group_def bucket_def)
  moreover have "sorted (map (layer L) (grp_Objects (wave_group L objs w)))" for w
    by (simp add: wave_group_def Apply_layers)
  ultimately show ?thesis
    by (simp add: groups_spec_def hook_group_def Let_def Apply_layers list_all_iff)
qed

subsection \<open>Properties\<close>

text \<open>C16. The loop of \<open>Groups\<close> computes exactly the declarative grouping: the pre-sync hooks,
  one group per wave in ascending order holding the ordinary objects of that wave, the post-sync
  hooks; hooks that never run are in no group.\<close>

theorem Groups_refines_spec: "Groups L objs = groups_spec L objs"
  by (rule Groups_eq_spec)

text \<open>No rendered object is lost or applied in two groups: the groups together hold every
  object that is not skipped, each as often as it was rendered.\<close>

theorem Groups_lossless:
  "mset (concat (map grp_Objects (Groups L objs))) = mset (filter (\<lambda>obj. Hook L obj \<noteq> StageSkip) objs)"
  by (rule mset_Groups)

text \<open>The groups come in rollout order, pre-sync hooks before waves, lower waves before
  higher ones, post-sync hooks last, no group is empty, and inside a group the dependency layers
  ascend, so a Namespace is applied before what lives in it.\<close>

theorem Groups_staged:
  "sorted_wrt group_before (Groups L objs) \<and>
   list_all (\<lambda>g. grp_Objects g \<noteq> [] \<and> sorted (map (layer L) (grp_Objects g))) (Groups L objs)"
  using group_before_spec groups_spec_shape by (simp add: Groups_eq_spec)

text \<open>Pruning deletes dependents first: \<open>Prune\<close> returns the same objects with the layers
  descending.\<close>

lemma Prune_reverse_layers:
  "mset (Prune L objs) = mset objs \<and> sorted_wrt (\<lambda>a b. layer L b \<le> layer L a) (Prune L objs)"
  using Apply_layers [of L objs] by (simp add: Prune_def sorted_wrt_rev sorted_wrt_map)

text \<open>The apply order does not depend on the order in which the renderer emitted the objects:
  for objects with distinct identities, permuting the input leaves the output unchanged.\<close>

theorem Apply_deterministic:
  assumes "mset xs = mset ys" and "inj_on (identity L) (set xs)"
  shows "Apply L xs = Apply L ys"
  unfolding Apply_def
proof (rule apply_order.sort_by_perm [OF assms(1)])
  fix a b assume "a \<in> set xs" "b \<in> set xs" "\<not> apply_lt L a b" "\<not> apply_lt L b a"
  then show "a = b" using assms(2) by (auto simp: apply_lt_def inj_on_def split: if_splits)
qed

definition config_map :: "string \<Rightarrow> unstructured" where
  "config_map name = \<lparr>Object = [(''apiVersion'', VStr ''v1''), (''kind'', VStr ''ConfigMap''),
     (''metadata'', VMap [(''name'', VStr name), (''namespace'', VStr ''web'')])]\<rparr>"

theorem Apply_deterministic_witness:
  "Apply std_lib [config_map ''b'', config_map ''a''] = Apply std_lib [config_map ''a'', config_map ''b'']"
  by (rule Apply_deterministic)
    (simp_all add: inj_on_def identity_def config_map_def std_lib_def mget_def std_metadata_def)

end
