(* ===== verification/Applier.thy ===== *)
theory Applier
  imports Ordering
begin

text \<open>
  Package \<open>internal/applier\<close>: the metadata every managed object carries, server-side apply
  under a conflict policy, and the inventory of the objects an Application manages.

  The API server is a parameter. \<open>ssa obj force w\<close> is one server-side apply request by the
  field manager \<open>kuvryn-sync\<close>, with or without forced ownership, that takes the cluster \<open>w\<close> to
  a new cluster and answers with an error or none. A \<open>reader\<close> answers list requests.
\<close>

definition FieldManager :: string where
  "FieldManager = ''kuvryn-sync''"
definition ApplicationLabelKey :: string where
  "ApplicationLabelKey = ''sync.kuvryn.io/application''"
definition ApplicationNamespaceLabelKey :: string where
  "ApplicationNamespaceLabelKey = ''sync.kuvryn.io/application-namespace''"
definition RevisionAnnotationKey :: string where
  "RevisionAnnotationKey = ''sync.kuvryn.io/revision''"
definition LegacyFieldManager :: string where
  "LegacyFieldManager = ''before-first-apply''"

lemma label_keys_neq [simp]: "ApplicationLabelKey \<noteq> ApplicationNamespaceLabelKey"
  by (simp add: ApplicationLabelKey_def ApplicationNamespaceLabelKey_def)

subsection \<open>MarkManaged\<close>

definition MarkManaged :: "lib \<Rightarrow> unstructured \<Rightarrow> string \<Rightarrow> string \<Rightarrow> string \<Rightarrow> unstructured" where
  "MarkManaged L obj app appNamespace revision =
     (let labels = GetLabels L obj;
          labels = (if app \<noteq> [] then AList.update ApplicationLabelKey app labels else labels);
          labels = (if appNamespace \<noteq> [] then AList.update ApplicationNamespaceLabelKey appNamespace labels
                    else labels);
          obj = SetLabels L obj labels;
          annotations = GetAnnotations L obj;
          annotations = (if revision \<noteq> [] then AList.update RevisionAnnotationKey revision annotations
                         else annotations)
      in SetAnnotations L obj annotations)"

subsection \<open>Apply\<close>

datatype apply_error = UnsupportedConflictPolicy conflict_policy | ApplyFailed api_error

definition CauseTypeFieldManagerConflict :: string where
  "CauseTypeFieldManagerConflict = ''FieldManagerConflict''"

definition legacy_conflict_text :: string where
  "legacy_conflict_text = ''conflict with '' @ [CHR 0x22] @ LegacyFieldManager @ [CHR 0x22] @ '' using ''"

fun onlyLegacyConflicts :: "api_error \<Rightarrow> bool" where
  "onlyLegacyConflicts (Conflict _ (Some causes)) =
     (causes \<noteq> [] \<and> list_all (\<lambda>cause.
        \<not> (cause_Type cause \<noteq> CauseTypeFieldManagerConflict
           \<or> \<not> Contains (cause_Message cause) legacy_conflict_text)) causes)"
| "onlyLegacyConflicts _ = False"

type_synonym 'w ssa = "unstructured \<Rightarrow> bool \<Rightarrow> 'w \<Rightarrow> 'w \<times> api_error option"

fun apply_loop :: "lib \<Rightarrow> 'w ssa \<Rightarrow> string \<Rightarrow> string \<Rightarrow> string \<Rightarrow> conflict_policy \<Rightarrow> unstructured list \<Rightarrow> 'w
    \<Rightarrow> 'w \<times> apply_error option" where
  "apply_loop L ssa appNamespace app revision policy [] w = (w, None)"
| "apply_loop L ssa appNamespace app revision policy (d # ds) w =
     (let obj = MarkManaged L d app appNamespace revision;
          (w, err) = ssa obj (policy = ConflictPolicyAdopt) w;
          (w, err) = (case err of
              Some e \<Rightarrow> if policy = ConflictPolicyFail \<and> onlyLegacyConflicts e then ssa obj True w else (w, err)
            | None \<Rightarrow> (w, err))
      in case err of
           Some e \<Rightarrow> (w, Some (ApplyFailed e))
         | None \<Rightarrow> apply_loop L ssa appNamespace app revision policy ds w)"

definition Applier_Apply :: "lib \<Rightarrow> 'w ssa \<Rightarrow> string \<Rightarrow> string \<Rightarrow> string \<Rightarrow> unstructured list \<Rightarrow> conflict_policy
    \<Rightarrow> 'w \<Rightarrow> 'w \<times> apply_error option" where
  "Applier_Apply L ssa appNamespace app revision desired policy w =
     (if policy \<noteq> ConflictPolicyFail \<and> policy \<noteq> ConflictPolicyAdopt
      then (w, Some (UnsupportedConflictPolicy policy))
      else apply_loop L ssa appNamespace app revision policy desired w)"

subsection \<open>Inventory\<close>

definition core_kind :: "string \<Rightarrow> gvk" where
  "core_kind k = \<lparr>gvk_Group = [], gvk_Version = ''v1'', gvk_Kind = k\<rparr>"

definition apps_kind :: "string \<Rightarrow> gvk" where
  "apps_kind k = \<lparr>gvk_Group = ''apps'', gvk_Version = ''v1'', gvk_Kind = k\<rparr>"

definition DefaultKinds :: "gvk list" where
  "DefaultKinds = [core_kind ''ConfigMap'', core_kind ''Secret'', core_kind ''Service'',
     apps_kind ''Deployment'', apps_kind ''StatefulSet'', apps_kind ''DaemonSet'']"

definition gvk_lt :: "lib \<Rightarrow> gvk \<Rightarrow> gvk \<Rightarrow> bool" where
  "gvk_lt L a b = (GVKString L a < GVKString L b)"

definition UnionKinds :: "lib \<Rightarrow> gvk list list \<Rightarrow> gvk list" where
  "UnionKinds L sets = sort_by (gvk_lt L) (remdups (concat sets))"

definition InventoryKinds :: "lib \<Rightarrow> application \<Rightarrow> gvk list" where
  "InventoryKinds L a = UnionKinds L [List.map_filter (\<lambda>kind.
      case ParseGroupVersion L (mk_APIVersion kind) of
        Some (g, v) \<Rightarrow> Some \<lparr>gvk_Group = g, gvk_Version = v, gvk_Kind = mk_Kind kind\<rparr>
      | None \<Rightarrow> None) (astatus_ManagedKinds (app_Status a))]"

record list_options =
  lo_DesiredKinds :: "gvk list"
  lo_MetadataOnly :: "(gvk \<Rightarrow> bool) option"
  lo_Exclude :: "(gvk \<Rightarrow> bool) option"

text \<open>A list request names a kind, a namespace and the labels to match. A metadata-only list
  answers with each item's metadata, which converting to a dynamic value may refuse.\<close>

record reader =
  rd_List :: "gvk \<Rightarrow> string \<Rightarrow> (string \<times> string) list \<Rightarrow> api_error + unstructured list"
  rd_ListMetadata :: "gvk \<Rightarrow> string \<Rightarrow> (string \<times> string) list \<Rightarrow> api_error + (api_error + gomap) list"

fun convert_metadata :: "lib \<Rightarrow> gvk \<Rightarrow> (api_error + gomap) list \<Rightarrow> api_error + unstructured list" where
  "convert_metadata L k [] = Inr []"
| "convert_metadata L k (Inl err # items) = Inl err"
| "convert_metadata L k (Inr raw # items) =
     (case convert_metadata L k items of
        Inl err \<Rightarrow> Inl err
      | Inr out \<Rightarrow> Inr (SetGroupVersionKind L \<lparr>Object = raw\<rparr> k # out))"

definition listKind :: "lib \<Rightarrow> reader \<Rightarrow> gvk \<Rightarrow> bool \<Rightarrow> string \<Rightarrow> (string \<times> string) list
    \<Rightarrow> api_error + unstructured list" where
  "listKind L rd k metadataOnly namespace labels =
     (if \<not> metadataOnly then rd_List rd k namespace labels
      else case rd_ListMetadata rd k namespace labels of
             Inl err \<Rightarrow> Inl err
           | Inr items \<Rightarrow> convert_metadata L k items)"

definition asks :: "(gvk \<Rightarrow> bool) option \<Rightarrow> gvk \<Rightarrow> bool" where
  "asks f k = (case f of None \<Rightarrow> False | Some g \<Rightarrow> g k)"

definition owned_here :: "lib \<Rightarrow> application \<Rightarrow> unstructured \<Rightarrow> bool" where
  "owned_here L a item =
     (let ownerNamespace = label L item ApplicationNamespaceLabelKey in
      ownerNamespace = [] \<or> ownerNamespace = app_Namespace a)"

fun list_loop :: "lib \<Rightarrow> reader \<Rightarrow> application \<Rightarrow> list_options \<Rightarrow> gvk list \<Rightarrow> unstructured list \<Rightarrow> string list
    \<Rightarrow> api_error + (unstructured list \<times> string list)" where
  "list_loop L rd a opts [] out skipped = Inr (out, skipped)"
| "list_loop L rd a opts (k # ks) out skipped =
     (if asks (lo_Exclude opts) k then list_loop L rd a opts ks out skipped
      else case listKind L rd k (asks (lo_MetadataOnly opts) k) (DestinationNamespace a)
                 [(ApplicationLabelKey, app_Name a)] of
             Inl err \<Rightarrow>
               if IsNoMatchError err then list_loop L rd a opts ks out skipped
               else if IsForbidden err then list_loop L rd a opts ks out (skipped @ [gvk_Kind k])
               else Inl err
           | Inr items \<Rightarrow> list_loop L rd a opts ks (out @ filter (owned_here L a) items) skipped)"

definition inventory :: "lib \<Rightarrow> application \<Rightarrow> list_options \<Rightarrow> gvk list" where
  "inventory L a opts =
     (let kinds = UnionKinds L [InventoryKinds L a, lo_DesiredKinds opts] in
      if astatus_ManagedKinds (app_Status a) = [] then UnionKinds L [kinds, DefaultKinds] else kinds)"

definition ListManaged :: "lib \<Rightarrow> reader \<Rightarrow> application \<Rightarrow> list_options
    \<Rightarrow> api_error + (unstructured list \<times> string list)" where
  "ListManaged L rd a opts = list_loop L rd a opts (inventory L a opts) [] []"

subsection \<open>Marked objects\<close>

lemma MarkManaged_labels:
  assumes "object_meta_laws L"
  shows "map_of (GetLabels L (MarkManaged L obj app ns revision)) =
    (let m = map_of (GetLabels L obj);
         m = (if app \<noteq> [] then m(ApplicationLabelKey \<mapsto> app) else m)
     in if ns \<noteq> [] then m(ApplicationNamespaceLabelKey \<mapsto> ns) else m)"
  using object_meta_lawsD [OF assms] by (simp add: MarkManaged_def Let_def update_conv')

lemma MarkManaged_annotations:
  assumes "object_meta_laws L"
  shows "map_of (GetAnnotations L (MarkManaged L obj app ns revision)) =
    (if revision \<noteq> [] then (map_of (GetAnnotations L obj))(RevisionAnnotationKey \<mapsto> revision)
     else map_of (GetAnnotations L obj))"
  using object_meta_lawsD [OF assms] by (simp add: MarkManaged_def Let_def update_conv')

lemma MarkManaged_identity:
  assumes "object_meta_laws L"
  shows "GetKind L (MarkManaged L obj app ns revision) = GetKind L obj"
    "GetName L (MarkManaged L obj app ns revision) = GetName L obj"
    "GetNamespace L (MarkManaged L obj app ns revision) = GetNamespace L obj"
    "GetAPIVersion L (MarkManaged L obj app ns revision) = GetAPIVersion L obj"
  using object_meta_lawsD [OF assms] by (simp_all add: MarkManaged_def Let_def)

lemma FromObject_MarkManaged:
  "object_meta_laws L \<Longrightarrow> FromObject L (MarkManaged L obj app ns revision) = FromObject L obj"
  by (intro FromObject_cong) (simp_all add: MarkManaged_identity)

subsection \<open>The requests an apply makes\<close>

text \<open>Recording every request beside the cluster, for any server.\<close>

type_synonym request_log = "(unstructured \<times> bool \<times> api_error option) list"

definition logged :: "'w ssa \<Rightarrow> ('w \<times> request_log) ssa" where
  "logged ssa obj force s =
     (let (w, err) = ssa obj force (fst s) in ((w, snd s @ [(obj, force, err)]), err))"

lemma logged_step:
  "ssa obj force w = (w', err) \<Longrightarrow> logged ssa obj force (w, log) = ((w', log @ [(obj, force, err)]), err)"
  by (simp add: logged_def)

definition forced_only_after_legacy :: "request_log \<Rightarrow> bool" where
  "forced_only_after_legacy log \<longleftrightarrow>
     (\<forall>i obj err. i < length log \<longrightarrow> log ! i = (obj, True, err) \<longrightarrow>
        (\<exists>e. 0 < i \<and> log ! (i - 1) = (obj, False, Some e) \<and> onlyLegacyConflicts e))"

lemma forced_only_Nil [simp]: "forced_only_after_legacy []"
  by (simp add: forced_only_after_legacy_def)

lemma forced_only_one: "forced_only_after_legacy [(obj, False, err)]"
  by (simp add: forced_only_after_legacy_def)

lemma forced_only_two:
  "onlyLegacyConflicts e \<Longrightarrow> forced_only_after_legacy [(obj, False, Some e), (obj, True, err)]"
  by (auto simp: forced_only_after_legacy_def less_Suc_eq nth_Cons split: nat.splits)

lemma forced_only_append:
  assumes "forced_only_after_legacy a" "forced_only_after_legacy b"
  shows "forced_only_after_legacy (a @ b)"
  unfolding forced_only_after_legacy_def
proof (intro allI impI)
  fix i obj err
  assume i: "i < length (a @ b)" "(a @ b) ! i = (obj, True, err)"
  show "\<exists>e. 0 < i \<and> (a @ b) ! (i - 1) = (obj, False, Some e) \<and> onlyLegacyConflicts e"
  proof (cases "i < length a")
    case True
    then have "a ! i = (obj, True, err)" using i by (simp add: nth_append)
    with True assms(1) obtain e where "0 < i" "a ! (i - 1) = (obj, False, Some e)" "onlyLegacyConflicts e"
      unfolding forced_only_after_legacy_def by blast
    with True show ?thesis by (simp add: nth_append less_imp_diff_less)
  next
    case False
    let ?j = "i - length a"
    have "?j < length b" "b ! ?j = (obj, True, err)" using False i by (auto simp: nth_append)
    with assms(2) obtain e where e: "0 < ?j" "b ! (?j - 1) = (obj, False, Some e)" "onlyLegacyConflicts e"
      unfolding forced_only_after_legacy_def by blast
    then have "\<not> i - 1 < length a" "i - 1 - length a = ?j - 1" by auto
    then have "(a @ b) ! (i - 1) = b ! (?j - 1)" by (simp add: nth_append)
    with e show ?thesis by auto
  qed
qed

text \<open>The log grows by one request per object, or two where a legacy conflict was taken over.\<close>

lemma apply_loop_log:
  assumes "apply_loop L (logged ssa) ns app revision policy ds (w, log) = ((w', log'), res)"
    and "policy = ConflictPolicyFail"
  shows "\<exists>new. log' = log @ new \<and> forced_only_after_legacy new"
  using assms
proof (induction ds arbitrary: w log)
  case Nil
  then show ?case by simp
next
  case (Cons d ds)
  let ?obj = "MarkManaged L d app ns revision"
  obtain w1 e1 where first: "ssa ?obj False w = (w1, e1)" by (cases "ssa ?obj False w")
  let ?log1 = "log @ [(?obj, False, e1)]"
  show ?case
  proof (cases e1)
    case None
    with Cons.prems first
    have "apply_loop L (logged ssa) ns app revision policy ds (w1, ?log1) = ((w', log'), res)"
      by (simp add: logged_step Let_def)
    then obtain new where "log' = ?log1 @ new" "forced_only_after_legacy new"
      using Cons.IH Cons.prems(2) by blast
    then show ?thesis
      using forced_only_append [OF forced_only_one] by (metis append.assoc)
  next
    case (Some e)
    show ?thesis
    proof (cases "onlyLegacyConflicts e")
      case False
      with Some Cons.prems first have "log' = ?log1" by (simp add: logged_step Let_def)
      then show ?thesis using forced_only_one by blast
    next
      case True
      obtain w2 e2 where second: "ssa ?obj True w1 = (w2, e2)" by (cases "ssa ?obj True w1")
      let ?two = "[(?obj, False, Some e), (?obj, True, e2)]"
      have two: "forced_only_after_legacy ?two" using True by (rule forced_only_two)
      show ?thesis
      proof (cases e2)
        case None
        with True Some Cons.prems first second
        have "apply_loop L (logged ssa) ns app revision policy ds (w2, log @ ?two) = ((w', log'), res)"
          by (simp add: logged_step Let_def)
        then obtain new where "log' = (log @ ?two) @ new" "forced_only_after_legacy new"
          using Cons.IH Cons.prems(2) by blast
        then show ?thesis using forced_only_append [OF two] by (metis append.assoc)
      next
        case (Some e')
        with True \<open>e1 = Some e\<close> Cons.prems first second have "log' = log @ ?two"
          by (simp add: logged_step Let_def)
        then show ?thesis using two by blast
      qed
    qed
  qed
qed

lemma apply_step_success:
  assumes "apply_loop L (logged ssa) ns app revision policy (d # ds) (w, log) = ((w', log'), None)"
  obtains w1 log1 where
    "apply_loop L (logged ssa) ns app revision policy ds (w1, log1) = ((w', log'), None)"
    "set log \<subseteq> set log1" "\<exists>force. (MarkManaged L d app ns revision, force, None) \<in> set log1"
proof -
  let ?obj = "MarkManaged L d app ns revision" and ?force = "policy = ConflictPolicyAdopt"
  obtain w1 e1 where first: "ssa ?obj ?force w = (w1, e1)" by (cases "ssa ?obj ?force w")
  obtain w2 e2 where second: "ssa ?obj True w1 = (w2, e2)" by (cases "ssa ?obj True w1")
  show thesis
  proof (cases e1)
    case None
    with assms first show thesis
      by (intro that [of w1 "log @ [(?obj, ?force, None)]"]) (auto simp: logged_step Let_def)
  next
    case (Some e)
    with assms first second have "policy = ConflictPolicyFail \<and> onlyLegacyConflicts e \<and> e2 = None"
      by (auto simp: logged_step Let_def split: if_splits option.splits)
    with Some assms first second show thesis
      by (intro that [of w2 "log @ [(?obj, ?force, Some e), (?obj, True, None)]"])
        (auto simp: logged_step Let_def)
  qed
qed

text \<open>Success means every desired object was accepted by the server.\<close>

lemma apply_loop_complete:
  assumes "apply_loop L (logged ssa) ns app revision policy ds (w, log) = ((w', log'), None)"
  shows "set log \<subseteq> set log' \<and>
    (\<forall>d \<in> set ds. \<exists>force. (MarkManaged L d app ns revision, force, None) \<in> set log')"
  using assms
proof (induction ds arbitrary: w log)
  case Nil
  then show ?case by simp
next
  case (Cons d ds)
  from Cons.prems obtain w1 log1 where step:
      "apply_loop L (logged ssa) ns app revision policy ds (w1, log1) = ((w', log'), None)"
      "set log \<subseteq> set log1" "\<exists>force. (MarkManaged L d app ns revision, force, None) \<in> set log1"
    by (rule apply_step_success)
  with Cons.IH [OF step(1)] show ?case by auto
qed

subsection \<open>The inventory\<close>

lemma list_loop_owned:
  assumes "list_loop L rd a opts ks out skipped = Inr (found, denied)"
    and "list_all (owned_here L a) out"
  shows "list_all (owned_here L a) found"
  using assms
proof (induction ks arbitrary: out skipped)
  case (Cons k ks)
  show ?case
  proof (cases "asks (lo_Exclude opts) k")
    case True
    then show ?thesis using Cons by simp
  next
    case False
    let ?items = "listKind L rd k (asks (lo_MetadataOnly opts) k) (DestinationNamespace a)
      [(ApplicationLabelKey, app_Name a)]"
    show ?thesis
    proof (cases ?items)
      case (Inl err)
      then show ?thesis using False Cons.prems Cons.IH by (simp split: if_splits)
    next
      case (Inr items)
      have "list_all (owned_here L a) (out @ filter (owned_here L a) items)"
        using Cons.prems(2) by (auto simp: list_all_iff)
      then show ?thesis using Inr False Cons.prems(1) Cons.IH by simp
    qed
  qed
qed simp

lemma list_loop_cong:
  assumes "\<And>k ns ls. \<not> asks (lo_Exclude opts) k \<Longrightarrow> rd_List rd k ns ls = rd_List rd' k ns ls"
    and "\<And>k ns ls. \<not> asks (lo_Exclude opts) k \<Longrightarrow> rd_ListMetadata rd k ns ls = rd_ListMetadata rd' k ns ls"
  shows "list_loop L rd a opts ks out skipped = list_loop L rd' a opts ks out skipped"
proof (induction ks arbitrary: out skipped)
  case (Cons k ks)
  have "listKind L rd k b ns ls = listKind L rd' k b ns ls" if "\<not> asks (lo_Exclude opts) k" for b ns ls
    using assms that by (simp add: listKind_def)
  then show ?case by (simp add: Cons split: sum.split)
qed simp

interpretation kind_order: key_order "GVKString L" for L .

lemma set_UnionKinds [simp]: "set (UnionKinds L sets) = (\<Union>ks \<in> set sets. set ks)"
  by (simp add: UnionKinds_def)

lemma distinct_UnionKinds: "distinct (UnionKinds L sets)"
  by (simp add: UnionKinds_def)

lemma sorted_UnionKinds: "sorted (map (GVKString L) (UnionKinds L sets))"
  using kind_order.keys_sorted [of L "remdups (concat sets)"]
  by (simp add: UnionKinds_def gvk_lt_def [abs_def])

subsection \<open>Properties\<close>

text \<open>C27. Under the \<open>fail\<close> conflict policy ownership is forced only to take over legacy fields: in
  the requests an apply makes, against any server, a forced one directly follows an unforced one
  for the same object that the server refused with a conflict naming only
  \<open>before-first-apply\<close>.\<close>

theorem Apply_fail_never_forces:
  assumes "Applier_Apply L (logged ssa) ns app revision desired ConflictPolicyFail (w, []) = ((w', log), res)"
  shows "forced_only_after_legacy log"
  using apply_loop_log [of L ssa ns app revision ConflictPolicyFail desired w "[]" w' log res] assms
  by (auto simp: Applier_Apply_def)

definition refusing :: "unit ssa" where
  "refusing obj force w = (w, if force then None
     else Some (Conflict ''conflict'' (Some [\<lparr>cause_Type = CauseTypeFieldManagerConflict,
       cause_Message = legacy_conflict_text\<rparr>])))"

theorem Apply_fail_never_forces_witness:
  "forced_only_after_legacy
     [(MarkManaged std_lib (config_map ''a'') ''shop'' ''web'' ''r1'', False, snd (refusing (config_map ''a'') False ())),
      (MarkManaged std_lib (config_map ''a'') ''shop'' ''web'' ''r1'', True, None)]"
proof (rule Apply_fail_never_forces)
  show "Applier_Apply std_lib (logged refusing) ''web'' ''shop'' ''r1'' [config_map ''a''] ConflictPolicyFail ((), [])
    = (((), [(MarkManaged std_lib (config_map ''a'') ''shop'' ''web'' ''r1'', False, snd (refusing (config_map ''a'') False ())),
      (MarkManaged std_lib (config_map ''a'') ''shop'' ''web'' ''r1'', True, None)]), None)"
    by (simp add: Applier_Apply_def logged_def refusing_def Let_def)
qed

text \<open>When an apply reports success, every desired object, carrying the Application's
  metadata, was accepted by the server.\<close>

theorem Apply_success_complete:
  assumes "Applier_Apply L (logged ssa) ns app revision desired policy (w, []) = ((w', log), None)"
    and "d \<in> set desired"
  shows "\<exists>force. (MarkManaged L d app ns revision, force, None) \<in> set log"
  using apply_loop_complete [of L ssa ns app revision policy desired w "[]" w' log] assms
  by (auto simp: Applier_Apply_def split: if_splits)

definition accepting :: "unit ssa" where
  "accepting obj force w = (w, None)"

theorem Apply_success_complete_witness:
  "\<exists>force. (MarkManaged std_lib (config_map ''a'') ''shop'' ''web'' ''r1'', force, None)
     \<in> set [(MarkManaged std_lib (config_map ''a'') ''shop'' ''web'' ''r1'', True, None)]"
proof -
  have "Applier_Apply std_lib (logged accepting) ''web'' ''shop'' ''r1'' [config_map ''a''] ConflictPolicyAdopt ((), [])
    = (((), [(MarkManaged std_lib (config_map ''a'') ''shop'' ''web'' ''r1'', True, None)]), None)"
    by (simp add: Applier_Apply_def logged_def accepting_def Let_def)
  from Apply_success_complete [OF this, of "config_map ''a''"] show ?thesis by simp
qed

text \<open>The inventory never claims an object another namespace's Application owns: every object
  \<open>ListManaged\<close> returns carries no owner namespace or this Application's.\<close>

theorem ListManaged_owned:
  assumes "ListManaged L rd a opts = Inr (found, denied)" and "item \<in> set found"
  shows "label L item ApplicationNamespaceLabelKey \<in> {[], app_Namespace a}"
  using list_loop_owned [of L rd a opts "inventory L a opts" "[]" "[]" found denied] assms
  by (auto simp: ListManaged_def list_all_iff owned_here_def Let_def)

text \<open>A cluster that serves one ConfigMap and no other kind.\<close>

definition one_reader :: "unstructured \<Rightarrow> reader" where
  "one_reader item = \<lparr>
     rd_List = (\<lambda>k ns ls. if k = core_kind ''ConfigMap'' then Inr [item] else Inl (NoMatch ''no match'')),
     rd_ListMetadata = (\<lambda>k ns ls. Inl (NoMatch ''no match''))\<rparr>"

definition shop_config :: unstructured where
  "shop_config = MarkManaged std_lib (config_map ''a'') ''shop'' ''web'' ''r1''"

definition config_options :: list_options where
  "config_options = \<lparr>lo_DesiredKinds = [core_kind ''ConfigMap''], lo_MetadataOnly = None,
     lo_Exclude = Some (\<lambda>k. gvk_Kind k = ''Secret'')\<rparr>"

theorem ListManaged_owned_witness:
  "label std_lib shop_config ApplicationNamespaceLabelKey \<in> {[], app_Namespace (named_application ''web'' ''shop'')}"
proof (rule ListManaged_owned)
  show "ListManaged std_lib (one_reader shop_config) (named_application ''web'' ''shop'') config_options
    = Inr ([shop_config], [])"
    by code_simp
  show "shop_config \<in> set [shop_config]" by simp
qed

text \<open>An excluded kind is never read: what \<open>ListManaged\<close> returns does not depend on anything
  the cluster would answer for a kind that \<open>Exclude\<close> names.\<close>

theorem ListManaged_never_reads_excluded:
  assumes "\<And>k ns ls. \<not> asks (lo_Exclude opts) k \<Longrightarrow> rd_List rd k ns ls = rd_List rd' k ns ls"
    and "\<And>k ns ls. \<not> asks (lo_Exclude opts) k \<Longrightarrow> rd_ListMetadata rd k ns ls = rd_ListMetadata rd' k ns ls"
  shows "ListManaged L rd a opts = ListManaged L rd' a opts"
  unfolding ListManaged_def by (rule list_loop_cong [OF assms])

definition secret_reader :: reader where
  "secret_reader = \<lparr>
     rd_List = (\<lambda>k ns ls. if gvk_Kind k = ''Secret'' then Inr [\<lparr>Object = []\<rparr>] else rd_List (one_reader shop_config) k ns ls),
     rd_ListMetadata = (\<lambda>k ns ls. rd_ListMetadata (one_reader shop_config) k ns ls)\<rparr>"

theorem ListManaged_never_reads_excluded_witness:
  "ListManaged std_lib secret_reader (named_application ''web'' ''shop'') config_options
   = ListManaged std_lib (one_reader shop_config) (named_application ''web'' ''shop'') config_options"
  by (rule ListManaged_never_reads_excluded)
    (simp_all add: secret_reader_def config_options_def asks_def)

end
