(* ===== verification/Pruning.thy ===== *)
theory Pruning
  imports Applier
begin

text \<open>
  Package \<open>internal/prune\<close>: which of the live objects that left the desired state may be
  deleted. \<open>Plan\<close> splits them into objects to delete, objects kept on purpose and objects that are
  not this Application's, and never touches the cluster. The properties say exactly which objects
  are deleted and that every object is accounted for once.
\<close>

definition PruneAnnotationKey :: string where
  "PruneAnnotationKey = ''sync.kuvryn.io/prune''"

record prune_policy =
  Application :: string
  AllowHighRisk :: bool

record rejected =
  Rejected_Object :: unstructured
  Rejected_Reason :: string

record prune_result =
  Eligible :: "unstructured list"
  Skipped :: "rejected list"
  Rejected :: "rejected list"

definition highRisk :: "lib \<Rightarrow> unstructured \<Rightarrow> bool" where
  "highRisk L obj = (GetKind L obj \<in> {''Namespace'', ''CustomResourceDefinition'',
     ''PersistentVolumeClaim'', ''PersistentVolume'', ''Secret''})"

definition rejectReason :: "lib \<Rightarrow> unstructured \<Rightarrow> prune_policy \<Rightarrow> string" where
  "rejectReason L obj policy =
     (if Application policy = [] then ''application identity is required''
      else if label L obj ApplicationLabelKey \<noteq> Application policy
      then ''resource is not managed by this Application''
      else '''')"

definition skipReason :: "lib \<Rightarrow> unstructured \<Rightarrow> prune_policy \<Rightarrow> string" where
  "skipReason L obj policy =
     (if annotation L obj PruneAnnotationKey = ''disabled''
      then ''prune disabled by sync.kuvryn.io/prune annotation''
      else if highRisk L obj \<and> \<not> AllowHighRisk policy
      then ''high-risk '' @ GetKind L obj @ '' is never pruned automatically''
      else '''')"

fun plan_loop :: "lib \<Rightarrow> prune_policy \<Rightarrow> unstructured list \<Rightarrow> prune_result \<Rightarrow> prune_result" where
  "plan_loop L policy [] result = result"
| "plan_loop L policy (obj # live) result =
     (if rejectReason L obj policy \<noteq> []
      then plan_loop L policy live (result\<lparr>Rejected := Rejected result @
             [\<lparr>Rejected_Object = obj, Rejected_Reason = rejectReason L obj policy\<rparr>]\<rparr>)
      else if skipReason L obj policy \<noteq> []
      then plan_loop L policy live (result\<lparr>Skipped := Skipped result @
             [\<lparr>Rejected_Object = obj, Rejected_Reason = skipReason L obj policy\<rparr>]\<rparr>)
      else plan_loop L policy live (result\<lparr>Eligible := Eligible result @ [obj]\<rparr>))"

definition Plan :: "lib \<Rightarrow> unstructured list \<Rightarrow> prune_policy \<Rightarrow> prune_result" where
  "Plan L live policy =
     (let result = plan_loop L policy live \<lparr>Eligible = [], Skipped = [], Rejected = []\<rparr>
      in result\<lparr>Eligible := Prune L (Eligible result)\<rparr>)"

subsection \<open>The three outcomes\<close>

definition prunable :: "lib \<Rightarrow> prune_policy \<Rightarrow> unstructured \<Rightarrow> bool" where
  "prunable L policy obj \<longleftrightarrow>
     Application policy \<noteq> [] \<and> label L obj ApplicationLabelKey = Application policy \<and>
     annotation L obj PruneAnnotationKey \<noteq> ''disabled'' \<and> \<not> (highRisk L obj \<and> \<not> AllowHighRisk policy)"

lemma prunable_iff: "prunable L policy obj \<longleftrightarrow> rejectReason L obj policy = [] \<and> skipReason L obj policy = []"
  by (auto simp: prunable_def rejectReason_def skipReason_def)

lemma plan_loop_eq:
  "plan_loop L policy live r =
     r\<lparr>Eligible := Eligible r @ filter (prunable L policy) live,
       Skipped := Skipped r @ map (\<lambda>obj. \<lparr>Rejected_Object = obj, Rejected_Reason = skipReason L obj policy\<rparr>)
          (filter (\<lambda>obj. rejectReason L obj policy = [] \<and> skipReason L obj policy \<noteq> []) live),
       Rejected := Rejected r @ map (\<lambda>obj. \<lparr>Rejected_Object = obj, Rejected_Reason = rejectReason L obj policy\<rparr>)
          (filter (\<lambda>obj. rejectReason L obj policy \<noteq> []) live)\<rparr>"
  by (induction live arbitrary: r) (auto simp: prunable_iff)

lemma mset_Prune: "mset (Prune L objs) = mset objs"
  by (simp add: Prune_def)

lemma set_Prune: "set (Prune L objs) = set objs"
  by (metis mset_Prune mset_eq_setD)

lemma mset_three_way:
  "mset (filter (\<lambda>x. P x \<and> Q x) xs) + mset (filter (\<lambda>x. P x \<and> \<not> Q x) xs)
     + mset (filter (\<lambda>x. \<not> P x) xs) = mset xs"
  by (induction xs) auto

subsection \<open>Properties\<close>

text \<open>C26. The objects \<open>Plan\<close> deletes are exactly the live objects that carry this Application's
  label, did not opt out with the prune annotation, and are not of a high-risk kind unless the
  policy allows those; with no Application name nothing is deleted.\<close>

theorem Plan_eligible_exactly:
  "set (Eligible (Plan L live policy)) =
     {obj \<in> set live. Application policy \<noteq> [] \<and> label L obj ApplicationLabelKey = Application policy \<and>
        annotation L obj PruneAnnotationKey \<noteq> ''disabled'' \<and>
        \<not> (highRisk L obj \<and> \<not> AllowHighRisk policy)}"
  by (auto simp: Plan_def Let_def plan_loop_eq set_Prune prunable_def)

text \<open>\<open>Plan\<close> loses and duplicates nothing: the deleted, the kept and the rejected objects are
  together exactly the live objects, and no object is kept or rejected without a reason.\<close>

theorem Plan_partition:
  "mset (Eligible (Plan L live policy)) + mset (map Rejected_Object (Skipped (Plan L live policy)))
     + mset (map Rejected_Object (Rejected (Plan L live policy))) = mset live
   \<and> list_all (\<lambda>r. Rejected_Reason r \<noteq> []) (Skipped (Plan L live policy) @ Rejected (Plan L live policy))"
  using mset_three_way [of "\<lambda>obj. rejectReason L obj policy = []" "\<lambda>obj. skipReason L obj policy = []" live]
  by (auto simp: Plan_def Let_def plan_loop_eq mset_Prune list_all_iff prunable_iff comp_def)

end
