(* ===== verification/Rollout.thy ===== *)
theory Rollout
  imports Health Pruning
begin

text \<open>
  The lifecycle of a Revision: package \<open>internal/status\<close> (the transitions of a Revision and its
  Application), \<open>internal/syncpolicy\<close>, and \<open>internal/controller/application_rollout.go\<close> (how far a
  rollout got, and which hooks it already ran). Status updates are functions on the Revision and the
  Application; the controller theory writes them to the API server.
\<close>

subsection \<open>Transitions (\<open>internal/status\<close>)\<close>

definition set_started :: "time \<Rightarrow> revision_status \<Rightarrow> revision_status" where
  "set_started now s = (if rstatus_StartedAt s = None then s\<lparr>rstatus_StartedAt := Some now\<rparr> else s)"

definition StartPlanning :: "revision \<Rightarrow> application \<Rightarrow> time \<Rightarrow> revision \<times> application" where
  "StartPlanning r a now =
     (upd_rstatus (\<lambda>s. set_started now (s\<lparr>rstatus_Phase := RevisionPhasePlanning\<rparr>)) r,
      upd_status (\<lambda>s. s\<lparr>astatus_Sync := SyncStatePlanning,
        astatus_Health := (if astatus_Health s = HealthStateNone then HealthStateUnknown else astatus_Health s)\<rparr>) a)"

definition AwaitApproval :: "revision \<Rightarrow> application \<Rightarrow> revision \<times> application" where
  "AwaitApproval r a =
     (upd_rstatus (\<lambda>s. s\<lparr>rstatus_Phase := RevisionPhaseAwaitingApproval, rstatus_StartedAt := None\<rparr>) r,
      upd_status (\<lambda>s. s\<lparr>astatus_Sync := SyncStateAwaitingApproval\<rparr>) a)"

definition StartApplying :: "revision \<Rightarrow> application \<Rightarrow> time \<Rightarrow> revision \<times> application" where
  "StartApplying r a now =
     (upd_rstatus (\<lambda>s. set_started now (s\<lparr>rstatus_Phase := RevisionPhaseApplying\<rparr>)) r,
      upd_status (\<lambda>s. s\<lparr>astatus_Sync := SyncStateApplying\<rparr>) a)"

definition CompleteHealthy :: "revision \<Rightarrow> application \<Rightarrow> time \<Rightarrow> revision \<times> application" where
  "CompleteHealthy r a now =
     (upd_rstatus (\<lambda>s. s\<lparr>rstatus_Phase := RevisionPhaseHealthy, rstatus_CompletedAt := Some now\<rparr>) r,
      upd_status (\<lambda>s. s\<lparr>astatus_Sync := SyncStateSynced, astatus_Health := HealthStateHealthy,
        astatus_State := HealthStateHealthy, astatus_DeployedRevision := rev_SourceRevision r\<rparr>) a)"

definition Fail :: "revision \<Rightarrow> application \<Rightarrow> time \<Rightarrow> revision_failure \<Rightarrow> revision \<times> application" where
  "Fail r a now failure =
     (upd_rstatus (\<lambda>s. s\<lparr>rstatus_Phase := RevisionPhaseFailed, rstatus_CompletedAt := Some now,
        rstatus_Failure := Some failure\<rparr>) r,
      upd_status (\<lambda>s. s\<lparr>astatus_Sync := SyncStateOutOfSync, astatus_Health := HealthStateDegraded,
        astatus_State := HealthStateDegraded\<rparr>) a)"

definition EffectiveConflictPolicy :: "sync_policy \<Rightarrow> conflict_policy" where
  "EffectiveConflictPolicy policy =
     (if sync_ConflictPolicy policy = ConflictPolicyNone then ConflictPolicyFail else sync_ConflictPolicy policy)"

lemmas status_transitions =
  StartPlanning_def AwaitApproval_def StartApplying_def CompleteHealthy_def Fail_def set_started_def

subsection \<open>How far a rollout got\<close>

definition RolloutCompleteCondition :: string where
  "RolloutCompleteCondition = ''RolloutComplete''"

datatype rollout_state = rolloutNotStarted | rolloutInProgress | rolloutComplete

type_synonym hook_states = "resource_ref \<rightharpoonup> health_state"

record rollout_progress =
  rp_previousPhase :: revision_phase
  rp_state :: rollout_state
  rp_hooks :: hook_states
  rp_previousHealth :: health_state
  rp_pruning :: prune_result

definition rolloutOf :: "lib \<Rightarrow> revision \<Rightarrow> revision_phase \<Rightarrow> rollout_state" where
  "rolloutOf L r previousPhase =
     (case FindStatusCondition L (rstatus_Conditions (rev_Status r)) RolloutCompleteCondition of
        Some c \<Rightarrow> if cond_Status c = ConditionTrue then rolloutComplete else rolloutInProgress
      | None \<Rightarrow>
          if previousPhase \<in> {RevisionPhaseHealthy, RevisionPhaseRolledBack} then rolloutComplete
          else if previousPhase \<in> {RevisionPhaseApplying, RevisionPhaseObserving} then rolloutInProgress
          else rolloutNotStarted)"

definition rollout_condition :: "revision \<Rightarrow> bool \<Rightarrow> condition" where
  "rollout_condition r complete =
     (if complete then
        \<lparr>cond_Type = RolloutCompleteCondition, cond_Status = ConditionTrue, cond_Reason = ''Complete'',
         cond_Message = ''Every group of the rollout became Healthy'',
         cond_ObservedGeneration = om_Generation (rev_Meta r)\<rparr>
      else
        \<lparr>cond_Type = RolloutCompleteCondition, cond_Status = ConditionFalse, cond_Reason = ''RollingOut'',
         cond_Message = ''Rollout started and not every group is Healthy yet'',
         cond_ObservedGeneration = om_Generation (rev_Meta r)\<rparr>)"

definition setRolloutComplete :: "lib \<Rightarrow> revision \<Rightarrow> bool \<Rightarrow> revision" where
  "setRolloutComplete L r complete =
     upd_rstatus (\<lambda>s. s\<lparr>rstatus_Conditions := SetStatusCondition L (rstatus_Conditions s) (rollout_condition r complete)\<rparr>) r"

definition finishedPhase :: "revision_phase \<Rightarrow> revision_phase" where
  "finishedPhase previousPhase =
     (if previousPhase = RevisionPhaseRolledBack then previousPhase else RevisionPhaseHealthy)"

subsection \<open>Hooks\<close>

definition resourceRef :: "lib \<Rightarrow> resource_id \<Rightarrow> resource_ref" where
  "resourceRef L i = \<lparr>ref_APIVersion = APIVersion L i, ref_Kind = ID_Kind i, ref_Namespace = ID_Namespace i,
     ref_Name = ID_Name i\<rparr>"

definition objectRef :: "lib \<Rightarrow> unstructured \<Rightarrow> resource_ref option" where
  "objectRef L obj = (case FromObject L obj of Inl _ \<Rightarrow> None | Inr i \<Rightarrow> Some (resourceRef L i))"

definition hookStates :: "hook_status list \<Rightarrow> hook_states" where
  "hookStates hooks = foldl (\<lambda>out hook. out(hook_Resource hook \<mapsto> hook_State hook)) Map.empty hooks"

definition withoutCompletedHooks :: "lib \<Rightarrow> unstructured list \<Rightarrow> hook_states \<Rightarrow> unstructured list" where
  "withoutCompletedHooks L objs states =
     filter (\<lambda>obj. \<not> (case objectRef L obj of None \<Rightarrow> False | Some ref \<Rightarrow> states ref = Some HealthStateHealthy)) objs"

definition hook_done :: "resource_id \<Rightarrow> health_result" where
  "hook_done i = \<lparr>hr_Resource = i, hr_State = HealthStateHealthy, hr_Reason = ''HookSucceeded'',
     hr_Message = ''hook already succeeded for this Revision''\<rparr>"

fun splitHooks :: "lib \<Rightarrow> unstructured list \<Rightarrow> hook_states
    \<Rightarrow> unstructured list \<times> unstructured list \<times> health_result list" where
  "splitHooks L [] states = ([], [], [])"
| "splitHooks L (obj # objs) states =
     (let (pending, watched, done) = splitHooks L objs states in
      case FromObject L obj of
        Inl _ \<Rightarrow> (obj # pending, watched, done)
      | Inr i \<Rightarrow>
          (case states (resourceRef L i) of
             None \<Rightarrow> (obj # pending, watched, done)
           | Some state \<Rightarrow>
               if state = HealthStateDegraded then (obj # pending, watched, done)
               else if state = HealthStateHealthy then (pending, watched, hook_done i # done)
               else (pending, obj # watched, done)))"

fun put_hook :: "hook_status list \<Rightarrow> hook_status \<Rightarrow> hook_status list" where
  "put_hook [] status = [status]"
| "put_hook (h # hooks) status =
     (if hook_Resource h = hook_Resource status then status # hooks else h # put_hook hooks status)"

definition stage_string :: "stage \<Rightarrow> string" where
  "stage_string s = (case s of StageNone \<Rightarrow> '''' | StagePreSync \<Rightarrow> ''PreSync'' | StageSync \<Rightarrow> ''Sync''
     | StagePostSync \<Rightarrow> ''PostSync'' | StageSkip \<Rightarrow> ''Skip'')"

definition recordHooks :: "lib \<Rightarrow> revision \<Rightarrow> stage \<Rightarrow> health_result list \<Rightarrow> revision" where
  "recordHooks L r stage results =
     upd_rstatus (\<lambda>s. s\<lparr>rstatus_Hooks := foldl (\<lambda>hooks result.
         put_hook hooks \<lparr>hook_Resource = resourceRef L (hr_Resource result), hook_Stage = stage_string stage,
           hook_State = hr_State result, hook_Message = hr_Message result\<rparr>)
       (rstatus_Hooks s) results\<rparr>) r"

subsection \<open>Lemmas\<close>

lemma transitions_keep_conditions [simp]:
  "rstatus_Conditions (rev_Status (fst (StartPlanning r a now))) = rstatus_Conditions (rev_Status r)"
  "rstatus_Conditions (rev_Status (fst (AwaitApproval r a))) = rstatus_Conditions (rev_Status r)"
  "rstatus_Conditions (rev_Status (fst (StartApplying r a now))) = rstatus_Conditions (rev_Status r)"
  "rstatus_Conditions (rev_Status (fst (CompleteHealthy r a now))) = rstatus_Conditions (rev_Status r)"
  "rstatus_Conditions (rev_Status (fst (Fail r a now failure))) = rstatus_Conditions (rev_Status r)"
  by (simp_all add: status_transitions)

lemma rolloutOf_cong:
  "FindStatusCondition L (rstatus_Conditions (rev_Status r)) RolloutCompleteCondition \<noteq> None \<Longrightarrow>
   rstatus_Conditions (rev_Status r') = rstatus_Conditions (rev_Status r) \<Longrightarrow>
   rolloutOf L r' p' = rolloutOf L r p"
  by (auto simp: rolloutOf_def)

lemma rollout_condition_type [simp]: "cond_Type (rollout_condition r b) = RolloutCompleteCondition"
  by (simp add: rollout_condition_def)

lemma find_rollout_condition:
  assumes "condition_laws L"
  shows "FindStatusCondition L (rstatus_Conditions (rev_Status (setRolloutComplete L r b))) RolloutCompleteCondition
    = Some (rollout_condition r b)"
  using condition_lawsD(1) [OF assms, of "rstatus_Conditions (rev_Status r)" "rollout_condition r b"]
  by (simp add: setRolloutComplete_def)

lemma find_other_condition:
  assumes "condition_laws L" "t \<noteq> RolloutCompleteCondition"
  shows "FindStatusCondition L (rstatus_Conditions (rev_Status (setRolloutComplete L r b))) t
    = FindStatusCondition L (rstatus_Conditions (rev_Status r)) t"
  using condition_lawsD(2) [OF assms(1), of t "rollout_condition r b"] assms(2)
  by (simp add: setRolloutComplete_def)

definition hook_pending :: "lib \<Rightarrow> hook_states \<Rightarrow> unstructured \<Rightarrow> bool" where
  "hook_pending L states obj = (case FromObject L obj of Inl _ \<Rightarrow> True
     | Inr i \<Rightarrow> states (resourceRef L i) \<in> {None, Some HealthStateDegraded})"

definition hook_watched :: "lib \<Rightarrow> hook_states \<Rightarrow> unstructured \<Rightarrow> bool" where
  "hook_watched L states obj = (case FromObject L obj of Inl _ \<Rightarrow> False
     | Inr i \<Rightarrow> states (resourceRef L i) \<notin> {None, Some HealthStateDegraded, Some HealthStateHealthy})"

definition hook_result :: "lib \<Rightarrow> hook_states \<Rightarrow> unstructured \<Rightarrow> health_result option" where
  "hook_result L states obj = (case FromObject L obj of Inl _ \<Rightarrow> None
     | Inr i \<Rightarrow> if states (resourceRef L i) = Some HealthStateHealthy then Some (hook_done i) else None)"

lemma splitHooks_parts:
  "splitHooks L objs states = (filter (hook_pending L states) objs, filter (hook_watched L states) objs,
     List.map_filter (hook_result L states) objs)"
proof (induction objs)
  case (Cons obj objs)
  then show ?case
    by (cases "FromObject L obj")
      (auto simp: hook_pending_def hook_watched_def hook_result_def List.map_filter_def split: option.splits)
qed (simp add: List.map_filter_def)

definition state_in :: "hook_status list \<Rightarrow> hook_states" where
  "state_in hooks ref = map_option hook_State (List.find (\<lambda>h. hook_Resource h = ref) hooks)"

definition one_per_ref :: "hook_status list \<Rightarrow> bool" where
  "one_per_ref hooks \<longleftrightarrow> distinct (map hook_Resource hooks)"

lemma set_put_hook: "hook_Resource ` set (put_hook hooks s) = insert (hook_Resource s) (hook_Resource ` set hooks)"
  by (induction hooks) auto

lemma one_per_ref_put: "one_per_ref hooks \<Longrightarrow> one_per_ref (put_hook hooks s)"
proof (induction hooks)
  case (Cons h hooks)
  then show ?case using set_put_hook [of hooks s] by (auto simp: one_per_ref_def)
qed (simp add: one_per_ref_def)

lemma state_in_put: "state_in (put_hook hooks s) ref = (if ref = hook_Resource s then Some (hook_State s) else state_in hooks ref)"
  by (induction hooks) (auto simp: state_in_def)

lemma hookStates_snoc: "hookStates (hooks @ [h]) = (hookStates hooks)(hook_Resource h \<mapsto> hook_State h)"
  by (simp add: hookStates_def)

lemma hookStates_notin: "ref \<notin> hook_Resource ` set hooks \<Longrightarrow> hookStates hooks ref = None"
  by (induction hooks rule: rev_induct) (auto simp: hookStates_snoc hookStates_def [of "[]"])

lemma hookStates_state_in: "one_per_ref hooks \<Longrightarrow> hookStates hooks = state_in hooks"
proof (induction hooks rule: rev_induct)
  case Nil
  then show ?case by (simp add: hookStates_def state_in_def fun_eq_iff)
next
  case (snoc h hooks)
  then have "hook_Resource h \<notin> hook_Resource ` set hooks" "one_per_ref hooks"
    by (auto simp: one_per_ref_def)
  moreover have "state_in (hooks @ [h]) ref = (if hook_Resource h = ref \<and> ref \<notin> hook_Resource ` set hooks
      then Some (hook_State h) else state_in hooks ref)" for ref
    by (induction hooks) (auto simp: state_in_def)
  ultimately show ?case using snoc.IH by (auto simp: hookStates_snoc fun_eq_iff)
qed

lemma foldl_put_hook:
  assumes "one_per_ref hooks" "\<And>s. f s = \<lparr>hook_Resource = g s, hook_Stage = st s, hook_State = v s, hook_Message = m s\<rparr>"
  shows "one_per_ref (foldl (\<lambda>hs s. put_hook hs (f s)) hooks ss) \<and>
    state_in (foldl (\<lambda>hs s. put_hook hs (f s)) hooks ss) = state_in hooks ++ map_of (rev (map (\<lambda>s. (g s, v s)) ss))"
  using assms(1)
proof (induction ss arbitrary: hooks)
  case (Cons s ss)
  have "state_in (put_hook hooks (f s)) = (state_in hooks)(g s \<mapsto> v s)"
    by (simp add: state_in_put fun_eq_iff assms(2))
  then show ?case
    using Cons.IH [OF one_per_ref_put [OF Cons.prems, of "f s"]] by (simp add: map_add_def fun_eq_iff split: option.split)
qed simp

subsection \<open>Properties\<close>

text \<open>Whether a rollout is finished is read from its condition alone: after \<open>setRolloutComplete\<close>
  the rollout reads as complete or in progress whatever phase is persisted, and planning, approval
  waits, applying, completing and failing leave that reading unchanged.\<close>

theorem rollout_condition_decides:
  assumes "condition_laws L"
  shows "rolloutOf L (setRolloutComplete L r b) phase = (if b then rolloutComplete else rolloutInProgress)
    \<and> rolloutOf L (fst (StartPlanning (setRolloutComplete L r b) a now)) phase = rolloutOf L (setRolloutComplete L r b) phase'
    \<and> rolloutOf L (fst (AwaitApproval (setRolloutComplete L r b) a)) phase = rolloutOf L (setRolloutComplete L r b) phase'
    \<and> rolloutOf L (fst (StartApplying (setRolloutComplete L r b) a now)) phase = rolloutOf L (setRolloutComplete L r b) phase'
    \<and> rolloutOf L (fst (CompleteHealthy (setRolloutComplete L r b) a now)) phase = rolloutOf L (setRolloutComplete L r b) phase'
    \<and> rolloutOf L (fst (Fail (setRolloutComplete L r b) a now failure)) phase = rolloutOf L (setRolloutComplete L r b) phase'"
proof -
  note found = find_rollout_condition [OF assms, of r b]
  have "rolloutOf L r' phase = rolloutOf L (setRolloutComplete L r b) phase'"
    if "rstatus_Conditions (rev_Status r') = rstatus_Conditions (rev_Status (setRolloutComplete L r b))" for r'
    using rolloutOf_cong that found by fastforce
  moreover have "rolloutOf L (setRolloutComplete L r b) phase = (if b then rolloutComplete else rolloutInProgress)"
    using found by (simp add: rolloutOf_def rollout_condition_def)
  ultimately show ?thesis by simp
qed

theorem rollout_condition_decides_witness:
  "rolloutOf std_lib (setRolloutComplete std_lib zero_revision True) RevisionPhasePlanning = rolloutComplete
   \<and> rolloutOf std_lib (fst (Fail (setRolloutComplete std_lib zero_revision True) zero_application 1
       \<lparr>fail_Reason = ''r'', fail_Message = ''m'', fail_Resource = None, fail_Retryable = True\<rparr>)) RevisionPhasePlanning
     = rolloutOf std_lib (setRolloutComplete std_lib zero_revision True) RevisionPhaseFailed"
  using rollout_condition_decides [OF std_condition_laws, of zero_revision True RevisionPhasePlanning
      zero_application 1 RevisionPhaseFailed
      "\<lparr>fail_Reason = ''r'', fail_Message = ''m'', fail_Resource = None, fail_Retryable = True\<rparr>"]
  by simp

text \<open>A hook runs once per rollout: what \<open>recordHooks\<close> writes is what \<open>splitHooks\<close> later reads, so
  a hook last seen Healthy is neither applied nor watched again, one still Progressing is only
  watched, and only one that failed or was never recorded is applied.\<close>

theorem hooks_run_once:
  assumes "one_per_ref (rstatus_Hooks (rev_Status r))"
    and "splitHooks L objs (hookStates (rstatus_Hooks (rev_Status (recordHooks L r stage results)))) = (pending, watched, done)"
    and "obj \<in> set objs" "FromObject L obj = Inr i"
    and "map_of (List.rev (map (\<lambda>res. (resourceRef L (hr_Resource res), hr_State res)) results)) (resourceRef L i) = Some st"
  shows "(obj \<in> set pending) = (st = HealthStateDegraded)
    \<and> (obj \<in> set watched) = (st \<notin> {HealthStateDegraded, HealthStateHealthy})
    \<and> one_per_ref (rstatus_Hooks (rev_Status (recordHooks L r stage results)))"
proof -
  let ?hooks = "rstatus_Hooks (rev_Status (recordHooks L r stage results))"
  have rec: "one_per_ref ?hooks \<and> state_in ?hooks = state_in (rstatus_Hooks (rev_Status r))
      ++ map_of (List.rev (map (\<lambda>res. (resourceRef L (hr_Resource res), hr_State res)) results))"
    unfolding recordHooks_def rev_upd_rstatus
    by simp (rule foldl_put_hook [OF assms(1)], rule refl)
  then have "hookStates ?hooks (resourceRef L i) = Some st"
    using assms(5) hookStates_state_in by (simp add: map_add_Some_iff)
  then show ?thesis
    using assms(2-4) rec by (auto simp: splitHooks_parts hook_pending_def hook_watched_def)
qed

definition job_id :: resource_id where
  "job_id = \<lparr>ID_Group = [], ID_Version = ''v1'', ID_Kind = ''ConfigMap'', ID_Namespace = ''web'', ID_Name = ''a''\<rparr>"

theorem hooks_run_once_witness:
  "(config_map ''a'' \<in> set []) = (HealthStateHealthy = HealthStateDegraded)
   \<and> (config_map ''a'' \<in> set []) = (HealthStateHealthy \<notin> {HealthStateDegraded, HealthStateHealthy})
   \<and> one_per_ref (rstatus_Hooks (rev_Status (recordHooks std_lib zero_revision StagePreSync [hook_done job_id])))"
proof (rule hooks_run_once)
  show "one_per_ref (rstatus_Hooks (rev_Status zero_revision))" by (simp add: zero_values one_per_ref_def)
  show "splitHooks std_lib [config_map ''a'']
      (hookStates (rstatus_Hooks (rev_Status (recordHooks std_lib zero_revision StagePreSync [hook_done job_id]))))
    = ([], [], [hook_done job_id])"
    by code_simp
  show "FromObject std_lib (config_map ''a'') = Inr job_id" by code_simp
  show "map_of (List.rev (map (\<lambda>res. (resourceRef std_lib (hr_Resource res), hr_State res)) [hook_done job_id]))
    (resourceRef std_lib job_id) = Some HealthStateHealthy"
    by code_simp
qed simp

end
