(* ===== verification/Approval.thy ===== *)
theory Approval
  imports Rollout
begin

text \<open>
  Who may deploy what: \<open>internal/revisionid\<close> (the identity of a Revision and the binding of a
  rollback to a desired state), the rollback request kept in an Application's annotations
  (\<open>internal/controller/application_rollback.go\<close>), and the approvals the Application controller
  accepts (\<open>manualApproval\<close>, \<open>rollbackApproval\<close>, \<open>rolloutApproval\<close> of
  \<open>internal/controller\<close>). The JSON encodings that are only fed to a hash are parameters, collected in
  \<open>codec\<close>. The locale \<open>approval_gate\<close> is the contract of a source of approvals; both sources are
  interpretations of it.
\<close>

record codec =
  MarshalIdentity :: "string \<Rightarrow> string \<Rightarrow> string \<Rightarrow> string \<Rightarrow> render_spec \<Rightarrow> string \<Rightarrow> string option"
  MarshalBinding :: "string \<Rightarrow> sync_policy \<Rightarrow> deployment_strategy \<Rightarrow> string option"
  MarshalRevisionPlan :: "revision_plan \<Rightarrow> string option"
  MarshalObjects :: "unstructured list \<Rightarrow> string option"

subsection \<open>Revision identities and bindings\<close>

definition For :: "lib \<Rightarrow> codec \<Rightarrow> application \<Rightarrow> string \<Rightarrow> string \<Rightarrow> (string \<times> string) option" where
  "For L J a r serviceAccount =
     (let src = aspec_Source (app_Spec a) in
      case MarshalIdentity J (app_Name a) (src_RepositoryRef src) r (src_Path src) (src_Render src) serviceAccount of
        None \<Rightarrow> None
      | Some raw \<Rightarrow>
          (let hash = Sha256Hex L raw in Some (app_Name a @ ''-'' @ take 12 hash, hash)))"

definition Binding :: "lib \<Rightarrow> codec \<Rightarrow> string \<Rightarrow> application \<Rightarrow> string" where
  "Binding L J desiredStateHash a =
     (if desiredStateHash = [] then []
      else case MarshalBinding J desiredStateHash (aspec_Sync (app_Spec a)) (aspec_Strategy (app_Spec a)) of
             None \<Rightarrow> []
           | Some raw \<Rightarrow> Sha256Hex L raw)"

definition RollbackBinding :: "lib \<Rightarrow> codec \<Rightarrow> revision \<Rightarrow> application \<Rightarrow> string" where
  "RollbackBinding L J r a = Binding L J (rstatus_DeployedDesiredStateHash (rev_Status r)) a"

subsection \<open>Rollback requests\<close>

record rollback_request =
  req_target :: string
  req_from :: string
  req_kind :: string

definition rollbackRequestOf :: "application \<Rightarrow> rollback_request" where
  "rollbackRequestOf a =
     \<lparr>req_target = TrimSpace (get_str (app_Annotations a) RollbackRevisionAnnotation),
      req_from = TrimSpace (get_str (app_Annotations a) RollbackFromAnnotation),
      req_kind = get_str (app_Annotations a) RollbackKindAnnotation\<rparr>"

definition active :: "rollback_request \<Rightarrow> bool" where
  "active req \<longleftrightarrow> req_target req \<noteq> []"

definition automatic :: "rollback_request \<Rightarrow> bool" where
  "automatic req \<longleftrightarrow> req_kind req = RollbackKindAutomatic"

definition setRollbackRequest :: "application \<Rightarrow> rollback_request \<Rightarrow> application" where
  "setRollbackRequest a req = set_annotations ((app_Annotations a)
     (RollbackRevisionAnnotation \<mapsto> req_target req, RollbackFromAnnotation \<mapsto> req_from req,
      RollbackKindAnnotation \<mapsto> req_kind req)) a"

definition clearRollbackRequest :: "application \<Rightarrow> application" where
  "clearRollbackRequest a = set_annotations (delete_keys (app_Annotations a)
     [RollbackRevisionAnnotation, RollbackFromAnnotation, RollbackKindAnnotation,
      RollbackTargetRevisionAnnotation, RollbackRequestedByAnnotation, RollbackRequestedAtAnnotation,
      RollbackTargetHashAnnotation]) a"

definition heldBy :: "lib \<Rightarrow> revision \<Rightarrow> condition option" where
  "heldBy L r = (case FindStatusCondition L (rstatus_Conditions (rev_Status r)) RolledBackCondition of
       None \<Rightarrow> None
     | Some c \<Rightarrow> if cond_Status c \<noteq> ConditionTrue then None else Some c)"

definition manualRollbackReason :: string where
  "manualRollbackReason = ''ManualRollback''"

definition automaticRollbackReason :: string where
  "automaticRollbackReason = ''RollbackCompleted''"

definition rollbackWording :: "bool \<Rightarrow> string \<times> string" where
  "rollbackWording manual =
     (if manual then (manualRollbackReason, ''manually'') else (automaticRollbackReason, ''after a failure''))"

definition holdMessage :: "bool \<Rightarrow> string" where
  "holdMessage manual =
     ''Application was rolled back '' @ snd (rollbackWording manual) @ '' to an earlier Revision; a new commit deploys again''"

subsection \<open>Approvals\<close>

definition manualApproval :: "lib \<Rightarrow> application \<Rightarrow> revision \<Rightarrow> rollout_state \<Rightarrow> revision_approval option \<times> bool" where
  "manualApproval L a r rollout =
     (let annotations = app_Annotations a in
      if get_str annotations ApprovedRevisionAnnotation \<noteq> rev_Name r \<or> heldBy L r \<noteq> None then (None, False)
      else
        (let approvedBy = get_str annotations ApprovedByAnnotation;
             digest = get_str annotations ApprovedDigestAnnotation
         in case ParseRFC3339 L (get_str annotations ApprovedAtAnnotation) of
              None \<Rightarrow> (None, True)
            | Some approvedAt \<Rightarrow>
                if approvedBy = [] then (None, True)
                else if digest = rev_PlanDigest r then
                  (Some \<lparr>appr_ApprovedBy = approvedBy, appr_ApprovedAt = approvedAt, appr_PlanDigest = digest,
                         appr_DesiredStateHash = rev_DesiredStateHash r\<rparr>, False)
                else
                  (case rstatus_Approval (rev_Status r) of
                     None \<Rightarrow> (None, True)
                   | Some recorded \<Rightarrow>
                       if rollout = rolloutInProgress \<and> appr_PlanDigest recorded = digest \<and>
                          appr_ApprovedBy recorded = approvedBy \<and> appr_DesiredStateHash recorded \<noteq> [] \<and>
                          appr_DesiredStateHash recorded = rev_DesiredStateHash r
                       then (Some recorded, False) else (None, True))))"

definition rollbackApproval :: "lib \<Rightarrow> codec \<Rightarrow> application \<Rightarrow> rollback_request \<Rightarrow> revision \<Rightarrow> rollout_state
    \<Rightarrow> revision_approval option \<times> bool" where
  "rollbackApproval L J a req r rollout =
     (if \<not> active req \<or> automatic req \<or> rev_SourceRevision r \<noteq> req_target req \<or> heldBy L r \<noteq> None then (None, False)
      else
        (let annotations = app_Annotations a;
             chosen = get_str annotations RollbackTargetRevisionAnnotation;
             chosenHash = get_str annotations RollbackTargetHashAnnotation;
             requestedBy = get_str annotations RollbackRequestedByAnnotation
         in case ParseRFC3339 L (get_str annotations RollbackRequestedAtAnnotation) of
              None \<Rightarrow> (None, False)
            | Some requestedAt \<Rightarrow>
                if chosen = [] \<or> chosenHash = [] \<or> requestedBy = [] then (None, False)
                else if rev_Name r \<noteq> chosen \<or> Binding L J (rev_DesiredStateHash r) a \<noteq> chosenHash then (None, True)
                else if rev_PlanDigest r = [] then (None, False)
                else
                  (let approval = \<lparr>appr_ApprovedBy = requestedBy, appr_ApprovedAt = requestedAt,
                         appr_PlanDigest = rev_PlanDigest r, appr_DesiredStateHash = rev_DesiredStateHash r\<rparr>
                   in case rstatus_Approval (rev_Status r) of
                        None \<Rightarrow> (Some approval, False)
                      | Some recorded \<Rightarrow>
                          if rollout = rolloutInProgress \<and> appr_ApprovedBy recorded = appr_ApprovedBy approval \<and>
                             appr_ApprovedAt recorded = appr_ApprovedAt approval \<and>
                             appr_DesiredStateHash recorded = appr_DesiredStateHash approval
                          then (Some recorded, False) else (Some approval, False))))"

definition sameApproval :: "revision_approval option \<Rightarrow> revision_approval option \<Rightarrow> bool" where
  "sameApproval x y = (case (x, y) of
       (Some a, Some b) \<Rightarrow> appr_ApprovedBy a = appr_ApprovedBy b \<and> appr_ApprovedAt a = appr_ApprovedAt b \<and>
         appr_PlanDigest a = appr_PlanDigest b \<and> appr_DesiredStateHash a = appr_DesiredStateHash b
     | (None, None) \<Rightarrow> True
     | _ \<Rightarrow> False)"

definition approvedSinceRequest :: "lib \<Rightarrow> application \<Rightarrow> bool" where
  "approvedSinceRequest L a =
     (case ParseRFC3339 L (get_str (app_Annotations a) RollbackRequestedAtAnnotation) of
        None \<Rightarrow> True
      | Some requestedAt \<Rightarrow>
          (case ParseRFC3339 L (get_str (app_Annotations a) ApprovedAtAnnotation) of
             None \<Rightarrow> False
           | Some approvedAt \<Rightarrow> \<not> approvedAt < requestedAt))"

text \<open>An Event the controller records: its type, reason and message.\<close>

datatype event_type = EventNormal | EventWarning

type_synonym event = "event_type \<times> string \<times> string"

definition rolloutApproval :: "lib \<Rightarrow> codec \<Rightarrow> application \<Rightarrow> revision \<Rightarrow> rollback_request \<Rightarrow> rollout_state
    \<Rightarrow> revision_approval option \<times> bool \<times> event list" where
  "rolloutApproval L J a r request rollout =
     (let (approval, stale) =
            (if \<not> active request \<or> approvedSinceRequest L a then manualApproval L a r rollout else (None, False))
      in if approval \<noteq> None \<or> sync_Automatic (aspec_Sync (app_Spec a)) then (approval, stale, [])
         else
           (let (approval, targetChanged) = rollbackApproval L J a request r rollout in
            case approval of
              Some given \<Rightarrow>
                (approval, False,
                 if \<not> sameApproval (rstatus_Approval (rev_Status r)) approval then
                   [(EventNormal, ''RollbackApproved'', ''Rollback to Revision '' @ rev_Name r @ '' approved by ''
                      @ appr_ApprovedBy given @ '', who requested it'')]
                 else [])
            | None \<Rightarrow>
                if targetChanged then
                  (None, True,
                   [(EventWarning, ''RollbackTargetChanged'',
                     ''Rollback target changed since it was requested: Revision '' @ rev_Name r
                     @ '' is not the Revision and desired state the requester chose; review it with ksync plan and approve it with ksync sync'')])
                else (None, stale, [])))"

subsection \<open>The contract of an approval\<close>

locale approval_gate =
  fixes held :: "revision \<Rightarrow> bool"
    and approve :: "application \<Rightarrow> revision \<Rightarrow> rollout_state \<Rightarrow> revision_approval option"
    and user :: "application \<Rightarrow> string"
  assumes not_held: "approve a r rollout = Some ap \<Longrightarrow> \<not> held r"
    and by_user: "approve a r rollout = Some ap \<Longrightarrow> appr_ApprovedBy ap = user a \<and> user a \<noteq> []"
    and same_state: "approve a r rollout = Some ap \<Longrightarrow> appr_DesiredStateHash ap = rev_DesiredStateHash r"
    and same_plan: "approve a r rollout = Some ap \<Longrightarrow>
      appr_PlanDigest ap = rev_PlanDigest r \<or> (rollout = rolloutInProgress \<and> rstatus_Approval (rev_Status r) = Some ap)"
begin

text \<open>What an accepted approval covers, for every source.\<close>

lemma approve_covers:
  "approve a r rollout = Some ap \<Longrightarrow> \<not> held r \<and> appr_ApprovedBy ap = user a \<and> user a \<noteq> [] \<and>
     appr_DesiredStateHash ap = rev_DesiredStateHash r \<and>
     (appr_PlanDigest ap = rev_PlanDigest r \<or> (rollout = rolloutInProgress \<and> rstatus_Approval (rev_Status r) = Some ap))"
  using not_held by_user same_state same_plan by blast

lemma fresh_rollout_exact:
  "approve a r rollout = Some ap \<Longrightarrow> rollout \<noteq> rolloutInProgress \<Longrightarrow> appr_PlanDigest ap = rev_PlanDigest r"
  using same_plan by blast

lemma recorded_needs_approval:
  "rstatus_Approval (rev_Status r) = None \<Longrightarrow> approve a r rollout = Some ap \<Longrightarrow> appr_PlanDigest ap = rev_PlanDigest r"
  using same_plan by fastforce

end

interpretation manual: approval_gate "\<lambda>r. heldBy L r \<noteq> None" "\<lambda>a r ro. fst (manualApproval L a r ro)"
    "\<lambda>a. get_str (app_Annotations a) ApprovedByAnnotation" for L
  by unfold_locales (auto simp: manualApproval_def Let_def split: if_splits option.splits)

interpretation rollback: approval_gate "\<lambda>r. heldBy L r \<noteq> None"
    "\<lambda>a r ro. fst (rollbackApproval L J a (rollbackRequestOf a) r ro)"
    "\<lambda>a. get_str (app_Annotations a) RollbackRequestedByAnnotation" for L J
  by unfold_locales (auto simp: rollbackApproval_def Let_def split: if_splits option.splits)

subsection \<open>Lemmas\<close>

lemma clear_request_inactive: "\<not> active (rollbackRequestOf (clearRollbackRequest a))"
  by (simp add: clearRollbackRequest_def rollbackRequestOf_def active_def get_str_def delete_keys_def TrimSpace_def)

lemma set_request_of:
  "TrimSpace (req_target req) = req_target req \<Longrightarrow> TrimSpace (req_from req) = req_from req \<Longrightarrow>
     rollbackRequestOf (setRollbackRequest a req) = req"
  by (simp add: setRollbackRequest_def rollbackRequestOf_def get_str_def)

lemma rolloutApproval_source:
  assumes "rolloutApproval L J a r (rollbackRequestOf a) rollout = (Some ap, stale, events)"
  shows "fst (manualApproval L a r rollout) = Some ap
    \<or> fst (rollbackApproval L J a (rollbackRequestOf a) r rollout) = Some ap"
  using assms by (auto simp: rolloutApproval_def Let_def split: prod.splits if_splits option.splits)

lemma Binding_eq:
  assumes "Binding L J h a = b" "b \<noteq> []"
  shows "h \<noteq> [] \<and> (\<exists>raw. MarshalBinding J h (aspec_Sync (app_Spec a)) (aspec_Strategy (app_Spec a)) = Some raw
    \<and> b = Sha256Hex L raw)"
  using assms by (auto simp: Binding_def split: if_splits option.splits)

text \<open>Distinct bindings have distinct fingerprints: the encoding is injective and SHA-256 has no
  collision among the encodings.\<close>

definition binding_collision_free :: "lib \<Rightarrow> codec \<Rightarrow> bool" where
  "binding_collision_free L J \<longleftrightarrow>
     (\<forall>h p q h' p' q' x x'. MarshalBinding J h p q = Some x \<longrightarrow> MarshalBinding J h' p' q' = Some x' \<longrightarrow>
        Sha256Hex L x = Sha256Hex L x' \<longrightarrow> h = h' \<and> p = p' \<and> q = q')"

lemma rollbackApproval_conditions:
  assumes "rollbackApproval L J a req r rollout = (Some ap, changed)"
  shows "active req" "\<not> automatic req" "rev_SourceRevision r = req_target req"
    "rev_Name r = get_str (app_Annotations a) RollbackTargetRevisionAnnotation"
    "get_str (app_Annotations a) RollbackTargetHashAnnotation = Binding L J (rev_DesiredStateHash r) a"
    "Binding L J (rev_DesiredStateHash r) a \<noteq> []"
  using assms by (auto simp: rollbackApproval_def Let_def split: if_splits option.splits)

subsection \<open>Properties\<close>

text \<open>C3. Whatever approval lets a Revision deploy, it is a named user's decision about exactly what
  is deployed: the Revision is not held, the approval is for its current desired state, and for its
  current plan unless the same rollout already acted on this approval.\<close>

theorem rolloutApproval_covers:
  assumes "rolloutApproval L J a r (rollbackRequestOf a) rollout = (Some ap, stale, events)"
  shows "heldBy L r = None \<and> appr_ApprovedBy ap \<noteq> []
    \<and> appr_ApprovedBy ap \<in> {get_str (app_Annotations a) ApprovedByAnnotation,
         get_str (app_Annotations a) RollbackRequestedByAnnotation}
    \<and> appr_DesiredStateHash ap = rev_DesiredStateHash r
    \<and> (appr_PlanDigest ap = rev_PlanDigest r
       \<or> (rollout = rolloutInProgress \<and> rstatus_Approval (rev_Status r) = Some ap))"
  using rolloutApproval_source [OF assms] manual.approve_covers [of L a r rollout ap]
    rollback.approve_covers [of L J a r rollout ap]
  by auto

text \<open>C28. A failure policy's rollback never approves itself, and an approval given before a rollback
  was requested does not deploy the rollback: with an automatic request admitted at \<open>t\<close> and an
  approval from before \<open>t\<close>, nothing is approved.\<close>

theorem automatic_rollback_needs_later_approval:
  assumes "active (rollbackRequestOf a)" "automatic (rollbackRequestOf a)"
    and "ParseRFC3339 L (get_str (app_Annotations a) RollbackRequestedAtAnnotation) = Some requestedAt"
    and "ParseRFC3339 L (get_str (app_Annotations a) ApprovedAtAnnotation) = Some approvedAt"
    and "approvedAt < requestedAt"
  shows "rolloutApproval L J a r (rollbackRequestOf a) rollout = (None, False, [])"
proof -
  have "\<not> approvedSinceRequest L a" using assms(3-5) by (simp add: approvedSinceRequest_def)
  moreover have "rollbackApproval L J a (rollbackRequestOf a) r rollout = (None, False)"
    using assms(2) by (simp add: rollbackApproval_def)
  ultimately show ?thesis using assms(1) by (simp add: rolloutApproval_def)
qed

text \<open>A manual rollback deploys only what its requester chose: when the recorded hash is the
  binding the webhook computed from a desired state and the Application as they were then, an
  approved rollback renders that same desired state under the same sync policy and strategy.\<close>

theorem rollback_bound_to_request:
  assumes "binding_collision_free L J"
    and "rollbackApproval L J a req r rollout = (Some ap, changed)"
    and "get_str (app_Annotations a) RollbackTargetHashAnnotation = Binding L J chosenHash requested"
  shows "rev_DesiredStateHash r = chosenHash
    \<and> aspec_Sync (app_Spec a) = aspec_Sync (app_Spec requested)
    \<and> aspec_Strategy (app_Spec a) = aspec_Strategy (app_Spec requested)
    \<and> rev_Name r = get_str (app_Annotations a) RollbackTargetRevisionAnnotation"
proof -
  note c = rollbackApproval_conditions [OF assms(2)]
  obtain x where x: "MarshalBinding J (rev_DesiredStateHash r) (aspec_Sync (app_Spec a)) (aspec_Strategy (app_Spec a)) = Some x"
      "Binding L J (rev_DesiredStateHash r) a = Sha256Hex L x"
    using Binding_eq [OF refl c(6)] by auto
  obtain y where y: "MarshalBinding J chosenHash (aspec_Sync (app_Spec requested)) (aspec_Strategy (app_Spec requested)) = Some y"
      "Binding L J chosenHash requested = Sha256Hex L y"
    using Binding_eq [OF refl, of L J chosenHash requested] c(5,6) assms(3) by auto
  have "Sha256Hex L x = Sha256Hex L y" using x(2) y(2) c(5) assms(3) by simp
  with assms(1) x(1) y(1) c(4) show ?thesis unfolding binding_collision_free_def by blast
qed

subsection \<open>Witnesses\<close>

text \<open>An encoding that keeps the number of the commit, the desired-state hash and one bit of each policy, and a
  revision that a manual rollback request chose.\<close>

definition sample_codec :: codec where
  "sample_codec = \<lparr>MarshalIdentity = (\<lambda>a b c d e f. Some (tl c)), MarshalBinding = (\<lambda>h p q. if p = aspec_Sync (app_Spec zero_application)
       \<and> q = aspec_Strategy (app_Spec zero_application) then Some h else None),
     MarshalRevisionPlan = (\<lambda>p. Some []), MarshalObjects = (\<lambda>os. Some [])\<rparr>"

definition chosen_revision :: revision where
  "chosen_revision = (named_revision ''web'' ''shop-1'')
     \<lparr>rev_Spec := (rev_Spec zero_revision)\<lparr>rspec_Source := (rspec_Source (rev_Spec zero_revision))\<lparr>rsrc_Revision := ''c1''\<rparr>,
        rspec_DesiredStateHash := ''h1''\<rparr>,
      rev_Status := (rev_Status zero_revision)\<lparr>rstatus_Plan := zero_plan\<lparr>plan_Digest := ''d1''\<rparr>\<rparr>\<rparr>"

definition requesting_app :: "string \<Rightarrow> application" where
  "requesting_app kind = set_annotations
     [RollbackRevisionAnnotation \<mapsto> ''c1'', RollbackKindAnnotation \<mapsto> kind,
      RollbackTargetRevisionAnnotation \<mapsto> ''shop-1'', RollbackTargetHashAnnotation \<mapsto> ''h1'',
      RollbackRequestedByAnnotation \<mapsto> ''alice'', RollbackRequestedAtAnnotation \<mapsto> ''7'',
      ApprovedAtAnnotation \<mapsto> ''6''] (named_application ''web'' ''shop'')"

definition chosen_approval :: revision_approval where
  "chosen_approval = \<lparr>appr_ApprovedBy = ''alice'', appr_ApprovedAt = 7 * second, appr_PlanDigest = ''d1'',
     appr_DesiredStateHash = ''h1''\<rparr>"

lemma sample_collision_free: "binding_collision_free std_lib sample_codec"
  by (auto simp: binding_collision_free_def sample_codec_def std_lib_def split: if_splits)

lemma sample_rollbackApproval:
  "rollbackApproval std_lib sample_codec (requesting_app ''manual'') (rollbackRequestOf (requesting_app ''manual''))
     chosen_revision rolloutNotStarted = (Some chosen_approval, False)"
  by code_simp

theorem rolloutApproval_covers_witness:
  "heldBy std_lib chosen_revision = None \<and> appr_ApprovedBy chosen_approval \<noteq> []
    \<and> appr_ApprovedBy chosen_approval \<in> {get_str (app_Annotations (requesting_app ''manual'')) ApprovedByAnnotation,
         get_str (app_Annotations (requesting_app ''manual'')) RollbackRequestedByAnnotation}
    \<and> appr_DesiredStateHash chosen_approval = rev_DesiredStateHash chosen_revision
    \<and> (appr_PlanDigest chosen_approval = rev_PlanDigest chosen_revision
       \<or> (rolloutNotStarted = rolloutInProgress \<and> rstatus_Approval (rev_Status chosen_revision) = Some chosen_approval))"
proof (rule rolloutApproval_covers)
  show "rolloutApproval std_lib sample_codec (requesting_app ''manual'') chosen_revision
      (rollbackRequestOf (requesting_app ''manual'')) rolloutNotStarted
    = (Some chosen_approval, False, [(EventNormal, ''RollbackApproved'',
        ''Rollback to Revision shop-1 approved by alice, who requested it'')])"
    by code_simp
qed

theorem automatic_rollback_needs_later_approval_witness:
  "rolloutApproval std_lib sample_codec (requesting_app ''automatic'') chosen_revision
     (rollbackRequestOf (requesting_app ''automatic'')) rolloutNotStarted = (None, False, [])"
proof (rule automatic_rollback_needs_later_approval)
  show "active (rollbackRequestOf (requesting_app ''automatic''))" by code_simp
  show "automatic (rollbackRequestOf (requesting_app ''automatic''))" by code_simp
  show "ParseRFC3339 std_lib (get_str (app_Annotations (requesting_app ''automatic'')) RollbackRequestedAtAnnotation)
    = Some (7 * second)" by code_simp
  show "ParseRFC3339 std_lib (get_str (app_Annotations (requesting_app ''automatic'')) ApprovedAtAnnotation)
    = Some (6 * second)" by code_simp
  show "6 * second < 7 * second" by (simp add: second_def)
qed

theorem rollback_bound_to_request_witness:
  "rev_DesiredStateHash chosen_revision = ''h1''
    \<and> aspec_Sync (app_Spec (requesting_app ''manual'')) = aspec_Sync (app_Spec zero_application)
    \<and> aspec_Strategy (app_Spec (requesting_app ''manual'')) = aspec_Strategy (app_Spec zero_application)
    \<and> rev_Name chosen_revision = get_str (app_Annotations (requesting_app ''manual'')) RollbackTargetRevisionAnnotation"
proof (rule rollback_bound_to_request [OF sample_collision_free sample_rollbackApproval])
  show "get_str (app_Annotations (requesting_app ''manual'')) RollbackTargetHashAnnotation
    = Binding std_lib sample_codec ''h1'' zero_application"
    by code_simp
qed

end
