(* ===== verification/Webhook.thy ===== *)
theory Webhook
  imports Approval
begin

text \<open>
  The admission webhook of Applications (\<open>internal/webhook/v1alpha1/application_webhook.go\<close>):
  it stamps who approved a plan or requested a rollback, and restores those annotations on every
  other change. The API reader and the clock are parameters; a request carries the authenticated
  user and, on an update, the stored object.
\<close>

record user_info =
  ui_Username :: string
  ui_Groups :: "string list"

record admission_request =
  ar_UserInfo :: user_info
  ar_OldObject :: "(string + application) option" \<comment> \<open>absent on create; \<open>Inl\<close> when it does not decode\<close>

datatype webhook_error =
    NoRequest string
  | BadOldObject string
  | RollbackRevisionRequired
  | RollbackTargetUnreadable string api_error
  | RollbackTargetForeign string string
  | RollbackTargetOfOtherSource string string
  | ApprovedRevisionRequired
  | ApprovalNotAuthenticated string
  | ApprovalUnreadable string api_error
  | NoPlanToApprove string string
  | PlanChanged string string string

definition authenticated :: "user_info \<Rightarrow> bool" where
  "authenticated user \<longleftrightarrow> ui_Username user \<noteq> [] \<and> ui_Username user \<noteq> ''system:anonymous'' \<and>
     ''system:unauthenticated'' \<notin> set (ui_Groups user)"

definition rollbackRecord :: "string list" where
  "rollbackRecord = [RollbackRequestedByAnnotation, RollbackRequestedAtAnnotation, RollbackTargetHashAnnotation]"

definition approvalRecord :: "string list" where
  "approvalRecord = [ApprovedByAnnotation, ApprovedAtAnnotation, ApprovedDigestAnnotation]"

definition rollbackKind :: "strmap \<Rightarrow> string" where
  "rollbackKind annotations =
     (if get_str annotations RollbackKindAnnotation \<noteq> [] then get_str annotations RollbackKindAnnotation
      else RollbackKindManual)"

text \<open>The loops that give back the recorded values: a key the old object has keeps its old value,
  any other is deleted.\<close>

definition restore_keys :: "string list \<Rightarrow> strmap \<Rightarrow> strmap \<Rightarrow> strmap" where
  "restore_keys ks old annotations = foldl (\<lambda>m key. case old key of
       Some value \<Rightarrow> m(key \<mapsto> value) | None \<Rightarrow> delete_key m key) annotations ks"

type_synonym revision_reader = "string \<Rightarrow> string \<Rightarrow> api_error + revision"

definition rollback_changed :: "strmap \<Rightarrow> strmap \<Rightarrow> bool" where
  "rollback_changed old annotations \<longleftrightarrow>
     TrimSpace (get_str annotations RollbackRevisionAnnotation) \<noteq> TrimSpace (get_str old RollbackRevisionAnnotation) \<or>
     TrimSpace (get_str annotations RollbackTargetRevisionAnnotation)
       \<noteq> TrimSpace (get_str old RollbackTargetRevisionAnnotation) \<or>
     rollbackKind annotations \<noteq> rollbackKind old"

definition chosen_hash :: "lib \<Rightarrow> codec \<Rightarrow> revision_reader \<Rightarrow> application \<Rightarrow> string \<Rightarrow> string \<Rightarrow> webhook_error + string" where
  "chosen_hash L J get obj chosen target =
     (if chosen = [] then Inr []
      else if target = [] then Inl RollbackRevisionRequired
      else case get (app_Namespace obj) chosen of
             Inl err \<Rightarrow> Inl (RollbackTargetUnreadable chosen err)
           | Inr r \<Rightarrow>
               if rev_ApplicationRef r \<noteq> app_Name obj then Inl (RollbackTargetForeign chosen (rev_ApplicationRef r))
               else if rev_SourceRevision r \<noteq> target
               then Inl (RollbackTargetOfOtherSource chosen (rev_SourceRevision r))
               else Inr (RollbackBinding L J r obj))"

definition recordRollbackRequester :: "lib \<Rightarrow> codec \<Rightarrow> revision_reader \<Rightarrow> time \<Rightarrow> user_info \<Rightarrow> application
    \<Rightarrow> strmap \<Rightarrow> strmap \<Rightarrow> webhook_error + strmap" where
  "recordRollbackRequester L J get now user obj old annotations =
     (let target = TrimSpace (get_str annotations RollbackRevisionAnnotation);
          chosen = TrimSpace (get_str annotations RollbackTargetRevisionAnnotation);
          changed = rollback_changed old annotations;
          annotations = (if changed then delete_keys annotations rollbackRecord
                         else restore_keys rollbackRecord old annotations)
      in if \<not> changed then Inr annotations
         else
           (case chosen_hash L J get obj chosen target of
              Inl err \<Rightarrow> Inl err
            | Inr hash \<Rightarrow>
                if target = [] \<or> \<not> authenticated user then Inr annotations
                else
                  (let annotations = annotations(RollbackRequestedByAnnotation \<mapsto> ui_Username user,
                         RollbackRequestedAtAnnotation \<mapsto> FormatRFC3339 L now)
                   in Inr (if hash \<noteq> [] then annotations(RollbackTargetHashAnnotation \<mapsto> hash) else annotations))))"

definition Default :: "lib \<Rightarrow> codec \<Rightarrow> revision_reader \<Rightarrow> time \<Rightarrow> string + admission_request \<Rightarrow> application
    \<Rightarrow> webhook_error + application" where
  "Default L J get now request obj =
     (case request of
        Inl err \<Rightarrow> Inl (NoRequest err)
      | Inr req \<Rightarrow>
          (case (case ar_OldObject req of None \<Rightarrow> Inr zero_application | Some old \<Rightarrow> old) of
             Inl err \<Rightarrow> Inl (BadOldObject err)
           | Inr oldObj \<Rightarrow>
               (let old = app_Annotations oldObj in
                case recordRollbackRequester L J get now (ar_UserInfo req) obj old (app_Annotations obj) of
                  Inl err \<Rightarrow> Inl err
                | Inr annotations \<Rightarrow>
                    (let requested = annotations ApproveDigestAnnotation;
                         annotations = delete_key annotations ApproveDigestAnnotation;
                         approved = get_str annotations ApprovedRevisionAnnotation
                     in if requested = None \<and> approved = get_str old ApprovedRevisionAnnotation
                        then Inr (set_annotations (restore_keys approvalRecord old annotations) obj)
                        else
                          (let annotations = delete_keys annotations approvalRecord in
                           if approved = [] then
                             (if requested \<noteq> None then Inl ApprovedRevisionRequired
                              else Inr (set_annotations annotations obj))
                           else if \<not> authenticated (ar_UserInfo req) then Inl (ApprovalNotAuthenticated (app_Name obj))
                           else
                             (case get (app_Namespace obj) approved of
                                Inl err \<Rightarrow> Inl (ApprovalUnreadable approved err)
                              | Inr r \<Rightarrow>
                                  (let current = rev_PlanDigest r in
                                   if rev_ApplicationRef r \<noteq> app_Name obj \<or> current = []
                                   then Inl (NoPlanToApprove approved (app_Name obj))
                                   else if requested \<noteq> None \<and> requested \<noteq> Some current
                                   then Inl (PlanChanged approved (the requested) current)
                                   else Inr (set_annotations (annotations
                                          (ApprovedByAnnotation \<mapsto> ui_Username (ar_UserInfo req),
                                           ApprovedAtAnnotation \<mapsto> FormatRFC3339 L now,
                                           ApprovedDigestAnnotation \<mapsto> current)) obj))))))))"

subsection \<open>Lemmas\<close>

lemma restore_keys_apply:
  "restore_keys ks old m k = (if k \<in> set ks then old k else m k)"
  unfolding restore_keys_def by (induction ks arbitrary: m) (auto split: option.splits)

definition stored :: "admission_request \<Rightarrow> strmap" where
  "stored req = (case ar_OldObject req of Some (Inr old) \<Rightarrow> app_Annotations old | _ \<Rightarrow> Map.empty)"

lemma zero_application_annotations [simp]: "app_Annotations zero_application = Map.empty"
  by (simp add: zero_values)

definition stamped_rollback :: "lib \<Rightarrow> codec \<Rightarrow> revision_reader \<Rightarrow> time \<Rightarrow> user_info \<Rightarrow> application \<Rightarrow> strmap \<Rightarrow> bool" where
  "stamped_rollback L J get now user obj m \<longleftrightarrow>
     authenticated user \<and> m RollbackRequestedByAnnotation = Some (ui_Username user) \<and>
     m RollbackRequestedAtAnnotation = Some (FormatRFC3339 L now) \<and>
     (m RollbackTargetHashAnnotation = None \<or>
      (\<exists>r. get (app_Namespace obj) (TrimSpace (get_str m RollbackTargetRevisionAnnotation)) = Inr r \<and>
         rev_ApplicationRef r = app_Name obj \<and>
         rev_SourceRevision r = TrimSpace (get_str m RollbackRevisionAnnotation) \<and>
         m RollbackTargetHashAnnotation = Some (RollbackBinding L J r obj)))"

lemma annotation_names_distinct_rev:
  "distinct (List.rev [ApprovedRevisionAnnotation, ApproveDigestAnnotation, ApprovedByAnnotation,
     ApprovedAtAnnotation, ApprovedDigestAnnotation, RollbackRevisionAnnotation,
     RollbackFromAnnotation, RollbackKindAnnotation, RollbackTargetRevisionAnnotation,
     RollbackRequestedByAnnotation, RollbackRequestedAtAnnotation, RollbackTargetHashAnnotation])"
  by (simp only: distinct_rev annotation_names_distinct)

lemmas annotation_names_neq_rev [simp] = annotation_names_distinct_rev [simplified]

lemma chosen_hash_read:
  assumes "chosen_hash L J get obj chosen target = Inr hash" "hash \<noteq> []"
  shows "\<exists>r. get (app_Namespace obj) chosen = Inr r \<and> rev_ApplicationRef r = app_Name obj \<and>
    rev_SourceRevision r = target \<and> hash = RollbackBinding L J r obj"
  using assms by (auto simp: chosen_hash_def split: if_splits sum.splits)

lemma rollbackRecord_iff [simp]:
  "k \<in> set rollbackRecord \<longleftrightarrow>
     k = RollbackRequestedByAnnotation \<or> k = RollbackRequestedAtAnnotation \<or> k = RollbackTargetHashAnnotation"
  by (simp add: rollbackRecord_def)

lemma approvalRecord_iff [simp]:
  "k \<in> set approvalRecord \<longleftrightarrow> k = ApprovedByAnnotation \<or> k = ApprovedAtAnnotation \<or> k = ApprovedDigestAnnotation"
  by (simp add: approvalRecord_def)

lemma record_rollback_cases:
  assumes "recordRollbackRequester L J get now user obj old m = Inr m'"
  shows "(\<forall>k. k \<notin> set rollbackRecord \<longrightarrow> m' k = m k) \<and>
    (list_all (\<lambda>k. m' k = old k) rollbackRecord \<or> list_all (\<lambda>k. m' k = None) rollbackRecord
     \<or> stamped_rollback L J get now user obj m')"
proof (cases "rollback_changed old m")
  case False
  then have m': "m' = restore_keys rollbackRecord old m"
    using assms by (simp add: recordRollbackRequester_def Let_def)
  show ?thesis by (simp add: m' restore_keys_apply list_all_iff)
next
  case True
  let ?t = "TrimSpace (get_str m RollbackRevisionAnnotation)"
  let ?c = "TrimSpace (get_str m RollbackTargetRevisionAnnotation)"
  let ?base = "delete_keys m rollbackRecord"
  obtain hash where hash: "chosen_hash L J get obj ?c ?t = Inr hash"
    using assms True by (cases "chosen_hash L J get obj ?c ?t") (auto simp: recordRollbackRequester_def Let_def)
  show ?thesis
  proof (cases "?t = [] \<or> \<not> authenticated user")
    case skip: True
    then have "m' = ?base" using assms True hash by (simp add: recordRollbackRequester_def Let_def)
    then show ?thesis by (simp add: list_all_iff)
  next
    case False
    let ?new = "?base(RollbackRequestedByAnnotation \<mapsto> ui_Username user,
      RollbackRequestedAtAnnotation \<mapsto> FormatRFC3339 L now)"
    have m': "m' = (if hash \<noteq> [] then ?new(RollbackTargetHashAnnotation \<mapsto> hash) else ?new)"
      using assms True hash False by (simp add: recordRollbackRequester_def Let_def)
    then have keys: "get_str m' RollbackTargetRevisionAnnotation = get_str m RollbackTargetRevisionAnnotation"
      "get_str m' RollbackRevisionAnnotation = get_str m RollbackRevisionAnnotation"
      by (simp_all add: get_str_def)
    have "stamped_rollback L J get now user obj m'"
      using False chosen_hash_read [OF hash] m' unfolding stamped_rollback_def keys by (cases "hash = []") auto
    then show ?thesis using m' by simp
  qed
qed

definition stamped_approval :: "lib \<Rightarrow> revision_reader \<Rightarrow> time \<Rightarrow> user_info \<Rightarrow> application \<Rightarrow> strmap \<Rightarrow> bool" where
  "stamped_approval L get now user obj m \<longleftrightarrow>
     authenticated user \<and> m ApprovedByAnnotation = Some (ui_Username user) \<and>
     m ApprovedAtAnnotation = Some (FormatRFC3339 L now) \<and>
     (\<exists>r. get (app_Namespace obj) (get_str m ApprovedRevisionAnnotation) = Inr r \<and>
        rev_ApplicationRef r = app_Name obj \<and> rev_PlanDigest r \<noteq> [] \<and>
        m ApprovedDigestAnnotation = Some (rev_PlanDigest r))"

text \<open>An admitted request, opened up: the annotations after the rollback record, and what the
  approval part made of them.\<close>

lemma Default_cases:
  assumes "Default L J get now (Inr req) obj = Inr obj'"
  obtains m where "recordRollbackRequester L J get now (ar_UserInfo req) obj (stored req) (app_Annotations obj) = Inr m"
    "app_Annotations obj' = restore_keys approvalRecord (stored req) (delete_key m ApproveDigestAnnotation)"
    "m ApproveDigestAnnotation = None" "get_str m ApprovedRevisionAnnotation = get_str (stored req) ApprovedRevisionAnnotation"
    "obj' = set_annotations (app_Annotations obj') obj"
  | m where "recordRollbackRequester L J get now (ar_UserInfo req) obj (stored req) (app_Annotations obj) = Inr m"
    "app_Annotations obj' = delete_keys (delete_key m ApproveDigestAnnotation) approvalRecord"
    "m ApproveDigestAnnotation = None" "obj' = set_annotations (app_Annotations obj') obj"
  | m r where "recordRollbackRequester L J get now (ar_UserInfo req) obj (stored req) (app_Annotations obj) = Inr m"
    "app_Annotations obj' = (delete_keys (delete_key m ApproveDigestAnnotation) approvalRecord)
       (ApprovedByAnnotation \<mapsto> ui_Username (ar_UserInfo req), ApprovedAtAnnotation \<mapsto> FormatRFC3339 L now,
        ApprovedDigestAnnotation \<mapsto> rev_PlanDigest r)"
    "authenticated (ar_UserInfo req)" "get (app_Namespace obj) (get_str m ApprovedRevisionAnnotation) = Inr r"
    "rev_ApplicationRef r = app_Name obj" "rev_PlanDigest r \<noteq> []"
    "m ApproveDigestAnnotation \<in> {None, Some (rev_PlanDigest r)}"
    "obj' = set_annotations (app_Annotations obj') obj"
proof -
  obtain oldObj where old: "(case ar_OldObject req of None \<Rightarrow> Inr zero_application | Some old \<Rightarrow> old) = Inr oldObj"
      "app_Annotations oldObj = stored req"
    using assms by (auto simp: Default_def stored_def split: option.splits sum.splits)
  obtain m where m: "recordRollbackRequester L J get now (ar_UserInfo req) obj (stored req) (app_Annotations obj) = Inr m"
    using assms old by (cases "recordRollbackRequester L J get now (ar_UserInfo req) obj (stored req) (app_Annotations obj)")
      (simp_all add: Default_def)
  let ?m = "delete_key m ApproveDigestAnnotation"
  let ?approved = "get_str m ApprovedRevisionAnnotation"
  have approved: "get_str ?m ApprovedRevisionAnnotation = ?approved" by (simp add: get_str_def)
  note step = assms [unfolded Default_def, simplified old m Let_def approved sum.case]
  show thesis
  proof (cases "m ApproveDigestAnnotation = None \<and> ?approved = get_str (stored req) ApprovedRevisionAnnotation")
    case True
    then have "obj' = set_annotations (restore_keys approvalRecord (stored req) ?m) obj" using step by simp
    then show thesis using that(1) [OF m] True by simp
  next
    case changed: False
    show thesis
    proof (cases "?approved = []")
      case True
      then have "m ApproveDigestAnnotation = None" "obj' = set_annotations (delete_keys ?m approvalRecord) obj"
        using step changed by (auto split: if_splits)
      then show thesis using that(2) [OF m] by simp
    next
      case False
      then obtain r where r: "authenticated (ar_UserInfo req)" "get (app_Namespace obj) ?approved = Inr r"
          "rev_ApplicationRef r = app_Name obj" "rev_PlanDigest r \<noteq> []"
          "m ApproveDigestAnnotation \<in> {None, Some (rev_PlanDigest r)}"
          "obj' = set_annotations ((delete_keys ?m approvalRecord)
            (ApprovedByAnnotation \<mapsto> ui_Username (ar_UserInfo req), ApprovedAtAnnotation \<mapsto> FormatRFC3339 L now,
             ApprovedDigestAnnotation \<mapsto> rev_PlanDigest r)) obj"
        using step changed by (auto split: if_splits sum.splits)
      then show thesis using that(3) [OF m _ r(1-5)] by simp
    qed
  qed
qed

subsection \<open>Properties\<close>

text \<open>C4. Approvals and rollback requests cannot be forged: on every admitted change the approval
  record is the stored one of the same approved Revision, or gone, or stamped with the authenticated
  user, the time and the current plan digest of a Revision of this Application; the same holds of the
  rollback record; the one-shot approval request is never stored and nothing else of the object is
  touched.\<close>

theorem Default_unforgeable:
  assumes "Default L J get now (Inr req) obj = Inr obj'"
  shows "((list_all (\<lambda>k. app_Annotations obj' k = stored req k) approvalRecord \<and>
       get_str (app_Annotations obj') ApprovedRevisionAnnotation = get_str (stored req) ApprovedRevisionAnnotation)
      \<or> list_all (\<lambda>k. app_Annotations obj' k = None) approvalRecord
      \<or> stamped_approval L get now (ar_UserInfo req) obj (app_Annotations obj'))
    \<and> (list_all (\<lambda>k. app_Annotations obj' k = stored req k) rollbackRecord
      \<or> list_all (\<lambda>k. app_Annotations obj' k = None) rollbackRecord
      \<or> stamped_rollback L J get now (ar_UserInfo req) obj (app_Annotations obj'))
    \<and> app_Annotations obj' ApproveDigestAnnotation = None
    \<and> obj' = set_annotations (app_Annotations obj') obj"
proof -
  have rb: "list_all (\<lambda>k. m' k = stored req k) rollbackRecord \<or> list_all (\<lambda>k. m' k = None) rollbackRecord
      \<or> stamped_rollback L J get now (ar_UserInfo req) obj m'"
    if "recordRollbackRequester L J get now (ar_UserInfo req) obj (stored req) (app_Annotations obj) = Inr m"
      and same: "\<And>k. k \<in> {RollbackRequestedByAnnotation, RollbackRequestedAtAnnotation, RollbackTargetHashAnnotation,
        RollbackRevisionAnnotation, RollbackTargetRevisionAnnotation} \<Longrightarrow> m' k = m k" for m m'
  proof -
    have eqs: "get_str m' RollbackRevisionAnnotation = get_str m RollbackRevisionAnnotation"
      "get_str m' RollbackTargetRevisionAnnotation = get_str m RollbackTargetRevisionAnnotation"
      "m' RollbackRequestedByAnnotation = m RollbackRequestedByAnnotation"
      "m' RollbackRequestedAtAnnotation = m RollbackRequestedAtAnnotation"
      "m' RollbackTargetHashAnnotation = m RollbackTargetHashAnnotation"
      using same by (simp_all add: get_str_def)
    show ?thesis
      using record_rollback_cases [OF that(1)] by (simp add: rollbackRecord_def stamped_rollback_def eqs)
  qed
  show ?thesis using assms
  proof (cases rule: Default_cases)
    case (1 m)
    then have "get_str (app_Annotations obj') ApprovedRevisionAnnotation = get_str (stored req) ApprovedRevisionAnnotation"
      by (simp add: restore_keys_apply get_str_def)
    moreover have "list_all (\<lambda>k. app_Annotations obj' k = stored req k) approvalRecord"
      by (simp add: 1(2) restore_keys_apply list_all_iff)
    moreover have "list_all (\<lambda>k. app_Annotations obj' k = stored req k) rollbackRecord
        \<or> list_all (\<lambda>k. app_Annotations obj' k = None) rollbackRecord
        \<or> stamped_rollback L J get now (ar_UserInfo req) obj (app_Annotations obj')"
      by (rule rb [OF 1(1)]) (auto simp: 1(2) restore_keys_apply)
    moreover have "app_Annotations obj' ApproveDigestAnnotation = None" by (simp add: 1(2) restore_keys_apply)
    ultimately show ?thesis using 1(5) by blast
  next
    case (2 m)
    have "list_all (\<lambda>k. app_Annotations obj' k = None) approvalRecord" by (simp add: 2(2) list_all_iff)
    moreover have "list_all (\<lambda>k. app_Annotations obj' k = stored req k) rollbackRecord
        \<or> list_all (\<lambda>k. app_Annotations obj' k = None) rollbackRecord
        \<or> stamped_rollback L J get now (ar_UserInfo req) obj (app_Annotations obj')"
      by (rule rb [OF 2(1)]) (auto simp: 2(2))
    moreover have "app_Annotations obj' ApproveDigestAnnotation = None" by (simp add: 2(2))
    ultimately show ?thesis using 2(4) by blast
  next
    case (3 m r)
    have "stamped_approval L get now (ar_UserInfo req) obj (app_Annotations obj')"
      using 3(3-6) by (simp add: stamped_approval_def 3(2) get_str_def)
    moreover have "list_all (\<lambda>k. app_Annotations obj' k = stored req k) rollbackRecord
        \<or> list_all (\<lambda>k. app_Annotations obj' k = None) rollbackRecord
        \<or> stamped_rollback L J get now (ar_UserInfo req) obj (app_Annotations obj')"
      by (rule rb [OF 3(1)]) (auto simp: 3(2))
    moreover have "app_Annotations obj' ApproveDigestAnnotation = None" by (simp add: 3(2))
    ultimately show ?thesis using 3(8) by blast
  qed
qed

text \<open>What is left of an approval of digest \<open>d\<close> once the plan is another: while the rollout it let start
  is in progress, the approval the Revision records, if it is of that digest by that user and the desired
  state is the same.\<close>

definition carried_on :: "string \<Rightarrow> string \<Rightarrow> rollout_state \<Rightarrow> revision \<Rightarrow> revision_approval option" where
  "carried_on user d rollout r =
     (case rstatus_Approval (rev_Status r) of
        None \<Rightarrow> None
      | Some recorded \<Rightarrow>
          if rollout = rolloutInProgress \<and> appr_PlanDigest recorded = d \<and> appr_ApprovedBy recorded = user \<and>
             appr_DesiredStateHash recorded = rev_DesiredStateHash r \<and> rev_DesiredStateHash r \<noteq> []
          then Some recorded else None)"

text \<open>An approval means the plan that was reviewed: when a request to approve digest \<open>d\<close> is
  admitted, the controller accepts it for no Revision but the named one and for none that is held, for
  that one while its plan digest is \<open>d\<close>, under the requesting user's name and the second it was admitted,
  and for any other plan only as a rollout in progress carries it on; otherwise it is stale.\<close>

theorem admitted_approval_exact:
  assumes "rfc3339_law L" "0 \<le> now" "now < year_10000"
    and "Default L J get now (Inr req) obj = Inr a"
    and "app_Annotations obj ApproveDigestAnnotation = Some d"
  shows "manualApproval L a r rollout =
    (if rev_Name r \<noteq> get_str (app_Annotations a) ApprovedRevisionAnnotation \<or> heldBy L r \<noteq> None then (None, False)
     else if rev_PlanDigest r = d then
       (Some \<lparr>appr_ApprovedBy = ui_Username (ar_UserInfo req), appr_ApprovedAt = now - now mod second,
              appr_PlanDigest = d, appr_DesiredStateHash = rev_DesiredStateHash r\<rparr>, False)
     else (carried_on (ui_Username (ar_UserInfo req)) d rollout r, carried_on (ui_Username (ar_UserInfo req)) d rollout r = None))"
proof -
  have parsed: "ParseRFC3339 L (FormatRFC3339 L now) = Some (now - now mod second)"
    using assms(1-3) by (simp add: rfc3339_law_def)
  have kept: "m ApproveDigestAnnotation = Some d"
    if "recordRollbackRequester L J get now (ar_UserInfo req) obj (stored req) (app_Annotations obj) = Inr m" for m
    using record_rollback_cases [OF that] assms(5) by simp
  show ?thesis using assms(4)
  proof (cases rule: Default_cases)
    case (1 m)
    then show ?thesis using kept by simp
  next
    case (2 m)
    then show ?thesis using kept by simp
  next
    case (3 m s)
    have d: "d = rev_PlanDigest s" using kept [OF 3(1)] 3(7) by simp
    have ann: "get_str (app_Annotations a) ApprovedByAnnotation = ui_Username (ar_UserInfo req)"
      "get_str (app_Annotations a) ApprovedAtAnnotation = FormatRFC3339 L now"
      "get_str (app_Annotations a) ApprovedDigestAnnotation = d"
      by (simp_all add: 3(2) d get_str_def)
    have "ui_Username (ar_UserInfo req) \<noteq> []" using 3(3) by (simp add: authenticated_def)
    then show ?thesis
      by (auto simp: manualApproval_def carried_on_def ann parsed Let_def split: option.splits)
  qed
qed

subsection \<open>Witnesses\<close>

definition alice :: user_info where
  "alice = \<lparr>ui_Username = ''alice'', ui_Groups = [''system:authenticated'']\<rparr>"

definition approve_request :: admission_request where
  "approve_request = \<lparr>ar_UserInfo = alice, ar_OldObject = Some (Inr (named_application ''web'' ''shop''))\<rparr>"

definition approving :: application where
  "approving = set_annotations [ApprovedRevisionAnnotation \<mapsto> ''shop-1'', ApproveDigestAnnotation \<mapsto> ''d1'']
     (named_application ''web'' ''shop'')"

definition planned_revision :: revision where
  "planned_revision = chosen_revision\<lparr>rev_Spec := (rev_Spec chosen_revision)\<lparr>rspec_ApplicationRef := ''shop''\<rparr>\<rparr>"

definition approved :: application where
  "approved = set_annotations [ApprovedRevisionAnnotation \<mapsto> ''shop-1'', ApprovedByAnnotation \<mapsto> ''alice'',
     ApprovedAtAnnotation \<mapsto> FormatRFC3339 std_lib (9 * second), ApprovedDigestAnnotation \<mapsto> ''d1'']
     (named_application ''web'' ''shop'')"

lemma approving_admitted:
  "Default std_lib sample_codec (\<lambda>ns n. Inr planned_revision) (9 * second) (Inr approve_request) approving = Inr approved"
proof -
  have "rollback_changed Map.empty (app_Annotations approving) = False"
    by code_simp
  then have rec: "recordRollbackRequester std_lib sample_codec (\<lambda>ns n. Inr planned_revision) (9 * second) alice approving
      Map.empty (app_Annotations approving) = Inr (app_Annotations approving)"
    by (simp add: recordRollbackRequester_def Let_def fun_eq_iff restore_keys_apply)
      (simp add: approving_def)
  have ann: "app_Annotations approving = [ApprovedRevisionAnnotation \<mapsto> ''shop-1'', ApproveDigestAnnotation \<mapsto> ''d1'']"
    by (simp add: approving_def)
  have "authenticated alice" by code_simp
  moreover have "rev_PlanDigest planned_revision = ''d1''" "rev_ApplicationRef planned_revision = ''shop''"
    by code_simp+
  moreover have "app_Annotations (named_application ''web'' ''shop'') = Map.empty" "app_Name approving = ''shop''"
    by (simp_all add: zero_values approving_def)
  moreover have "(delete_keys (delete_key (app_Annotations approving) ApproveDigestAnnotation) approvalRecord)
      (ApprovedByAnnotation \<mapsto> ui_Username alice, ApprovedAtAnnotation \<mapsto> FormatRFC3339 std_lib (9 * second),
       ApprovedDigestAnnotation \<mapsto> ''d1'') = app_Annotations approved"
    by (rule ext) (simp add: ann approved_def alice_def)
  moreover have "set_annotations (app_Annotations approved) approving = approved"
    by (simp add: approved_def approving_def set_annotations_def)
  ultimately show ?thesis
    using rec by (simp add: Default_def approve_request_def Let_def get_str_def ann [THEN fun_cong])
qed

theorem Default_unforgeable_witness:
  "((list_all (\<lambda>k. app_Annotations approved k = stored approve_request k) approvalRecord \<and>
       get_str (app_Annotations approved) ApprovedRevisionAnnotation = get_str (stored approve_request) ApprovedRevisionAnnotation)
      \<or> list_all (\<lambda>k. app_Annotations approved k = None) approvalRecord
      \<or> stamped_approval std_lib (\<lambda>ns n. Inr planned_revision) (9 * second) (ar_UserInfo approve_request) approving (app_Annotations approved))
    \<and> (list_all (\<lambda>k. app_Annotations approved k = stored approve_request k) rollbackRecord
      \<or> list_all (\<lambda>k. app_Annotations approved k = None) rollbackRecord
      \<or> stamped_rollback std_lib sample_codec (\<lambda>ns n. Inr planned_revision) (9 * second) (ar_UserInfo approve_request) approving (app_Annotations approved))
    \<and> app_Annotations approved ApproveDigestAnnotation = None
    \<and> approved = set_annotations (app_Annotations approved) approving"
  by (rule Default_unforgeable [OF approving_admitted])

end
