(* ===== verification/Normalize.thy ===== *)
theory Normalize
  imports Resource
begin

text \<open>
  Package \<open>internal/normalize\<close>: the fields the API server populates are removed before a desired
  and a live object are compared, and, for the built-in groups, the fields set to null.
\<close>

datatype normalize_error = MetadataNotMap | MarshalError

definition builtinGroups :: "string list" where
  "builtinGroups = ['''', ''apps'', ''batch'', ''autoscaling'', ''policy'',
     ''admissionregistration.k8s.io'', ''apiextensions.k8s.io'', ''apiregistration.k8s.io'',
     ''authentication.k8s.io'', ''authorization.k8s.io'', ''certificates.k8s.io'',
     ''coordination.k8s.io'', ''discovery.k8s.io'', ''events.k8s.io'',
     ''flowcontrol.apiserver.k8s.io'', ''internal.apiserver.k8s.io'', ''networking.k8s.io'',
     ''node.k8s.io'', ''rbac.authorization.k8s.io'', ''resource.k8s.io'',
     ''scheduling.k8s.io'', ''storage.k8s.io'', ''storagemigration.k8s.io'']"

definition builtinGroup :: "string \<Rightarrow> bool" where
  "builtinGroup grp \<longleftrightarrow> grp \<in> set builtinGroups"

fun dropNulls :: "any \<Rightarrow> any" where
  "dropNulls (VMap m) = VMap (map (\<lambda>(k, item). (k, dropNulls item)) (filter (\<lambda>(k, item). item \<noteq> VNil) m))"
| "dropNulls (VList items) = VList (map dropNulls items)"
| "dropNulls v = v"

definition server_fields :: "string list" where
  "server_fields = [''creationTimestamp'', ''deletionGracePeriodSeconds'', ''deletionTimestamp'', ''generation'',
     ''managedFields'', ''resourceVersion'', ''selfLink'', ''uid'']"

definition server_annotations :: "string list" where
  "server_annotations = [''kubectl.kubernetes.io/last-applied-configuration'']"

definition normalize_metadata :: "gomap \<Rightarrow> gomap" where
  "normalize_metadata metadata =
     (let metadata = foldl mdelete metadata server_fields in
      case mget metadata ''annotations'' of
        VMap annotations \<Rightarrow>
          (let annotations = foldl mdelete annotations server_annotations in
           if annotations = [] then mdelete metadata ''annotations''
           else mset_key metadata ''annotations'' (VMap annotations))
      | _ \<Rightarrow> metadata)"

definition normalize_Object :: "lib \<Rightarrow> unstructured \<Rightarrow> normalize_error + unstructured" where
  "normalize_Object L obj =
     (let copy = (if builtinGroup (gvk_Group (GroupVersionKindOf L obj)) then as_map (dropNulls (VMap (Object obj)))
                  else Object obj);
          copy = RemoveNestedField L copy [''status'']
      in case NestedMap L copy [''metadata''] of
           Wrong_Type \<Rightarrow> Inl MetadataNotMap
         | Absent \<Rightarrow> Inr \<lparr>Object = copy\<rparr>
         | Found metadata \<Rightarrow> Inr \<lparr>Object = mset_key copy ''metadata'' (VMap (normalize_metadata metadata))\<rparr>)"

definition normalize_Equal :: "lib \<Rightarrow> unstructured \<Rightarrow> unstructured \<Rightarrow> normalize_error + bool" where
  "normalize_Equal L a b =
     (case normalize_Object L a of
        Inl err \<Rightarrow> Inl err
      | Inr an \<Rightarrow>
          (case normalize_Object L b of
             Inl err \<Rightarrow> Inl err
           | Inr bn \<Rightarrow>
               (case MarshalObject L (Object an) of
                  None \<Rightarrow> Inl MarshalError
                | Some aj \<Rightarrow>
                    (case MarshalObject L (Object bn) of
                       None \<Rightarrow> Inl MarshalError
                     | Some bj \<Rightarrow> Inr (aj = bj)))))"

subsection \<open>Documented behaviour of the field accessors\<close>

definition field_laws :: "lib \<Rightarrow> bool" where
  "field_laws L \<longleftrightarrow>
     (\<forall>m k. RemoveNestedField L m [k] = mdelete m k) \<and>
     (\<forall>m k. NestedMap L m [k] =
        (case map_of m k of None \<Rightarrow> Absent | Some (VMap m') \<Rightarrow> Found m' | Some _ \<Rightarrow> Wrong_Type))"

lemma std_field_laws: "field_laws std_lib"
  by (auto simp: field_laws_def std_lib_def nested_as_def map_of_any_def split: option.splits any.splits)

lemma mget_mdelete: "mget (mdelete m k) k' = (if k' = k then VNil else mget m k')"
  unfolding mget_def mdelete_def by (induction m) (auto split: option.splits)

lemma map_of_mdelete: "map_of (mdelete m k) = (map_of m)(k := None)"
  unfolding mdelete_def by (induction m) auto

lemma mget_foldl_mdelete: "mget (foldl mdelete m ks) k = (if k \<in> set ks then VNil else mget m k)"
  by (induction ks arbitrary: m) (auto simp: mget_mdelete)

lemma mdelete_id: "k \<notin> fst ` set m \<Longrightarrow> mdelete m k = m"
  by (force simp: mdelete_def filter_id_conv)

lemma keys_mdelete [simp]: "fst ` set (mdelete m k) = fst ` set m - {k}"
  by (force simp: mdelete_def)

lemma keys_foldl_mdelete [simp]: "fst ` set (foldl mdelete m ks) = fst ` set m - set ks"
  by (induction ks arbitrary: m) auto

lemma foldl_mdelete_id: "set ks \<inter> fst ` set m = {} \<Longrightarrow> foldl mdelete m ks = m"
  by (induction ks arbitrary: m) (auto simp: mdelete_id)

lemma keys_mset_key [simp]: "fst ` set (mset_key m k v) = insert k (fst ` set m)"
  by (simp add: mset_key_def dom_update)

lemma mset_key_same: "map_of m k = Some v \<Longrightarrow> mset_key m k v = m"
  unfolding mset_key_def by (induction m) auto

lemma dropNulls_idem: "dropNulls (dropNulls v) = dropNulls v"
proof (induction v rule: dropNulls.induct)
  case (1 m)
  have "dropNulls item \<noteq> VNil" if "item \<noteq> VNil" for item using that by (cases item) auto
  then have *: "filter (\<lambda>(k, item). item \<noteq> VNil)
      (map (\<lambda>(k, item). (k, dropNulls item)) (filter (\<lambda>(k, item). item \<noteq> VNil) m))
    = map (\<lambda>(k, item). (k, dropNulls item)) (filter (\<lambda>(k, item). item \<noteq> VNil) m)"
    by (intro filter_True) auto
  show ?case by (simp add: *) (use 1 in force)
qed auto

subsection \<open>Server-populated state\<close>

text \<open>What the API server writes on its own: the status, and the server fields of the metadata.\<close>

definition server_update :: "any \<Rightarrow> (string \<times> any) list \<Rightarrow> unstructured \<Rightarrow> unstructured" where
  "server_update status writes obj = \<lparr>Object = mset_key
     (mset_key (Object obj) ''metadata''
        (VMap (foldr (\<lambda>(f, v) m. mset_key m f v) writes (as_map (mget (Object obj) ''metadata'')))))
     ''status'' status\<rparr>"

text \<open>A kind is read from \<open>apiVersion\<close> and \<open>kind\<close> alone.\<close>

definition kind_law :: "lib \<Rightarrow> bool" where
  "kind_law L \<longleftrightarrow> (\<forall>a b. mget (Object a) ''apiVersion'' = mget (Object b) ''apiVersion'' \<and>
     mget (Object a) ''kind'' = mget (Object b) ''kind'' \<longrightarrow> GroupVersionKindOf L a = GroupVersionKindOf L b)"

lemma std_kind_law: "kind_law std_lib"
  by (auto simp: kind_law_def std_lib_def std_gvk_def split: option.splits)

definition without :: "string list \<Rightarrow> gomap \<Rightarrow> gomap" where
  "without ks m = filter (\<lambda>(k, _). k \<notin> set ks) m"

lemma foldl_mdelete_without: "foldl mdelete m ks = without ks m"
proof (induction ks arbitrary: m)
  case (Cons k ks)
  then show ?case by (auto simp: without_def mdelete_def intro!: filter_cong)
qed (simp add: without_def)

lemma mdelete_without: "mdelete m k = without [k] m"
  by (simp add: mdelete_def without_def)

lemma without_mset_key: "k \<in> set ks \<Longrightarrow> without ks (mset_key m k v) = without ks m"
  unfolding without_def mset_key_def by (induction m) auto

lemma without_writes:
  "fst ` set writes \<subseteq> set ks \<Longrightarrow> without ks (foldr (\<lambda>(f, v) m. mset_key m f v) writes m) = without ks m"
  by (induction writes) (auto simp: without_mset_key)

lemma without_mset_key_other: "k \<notin> set ks \<Longrightarrow> without ks (mset_key m k v) = mset_key (without ks m) k v"
  unfolding without_def mset_key_def by (induction m) auto

lemma map_of_without: "map_of (without ks m) k = (if k \<in> set ks then None else map_of m k)"
  unfolding without_def by (induction m) auto

lemma mset_key_mset_key [simp]: "mset_key (mset_key m k v) k w = mset_key m k w"
  unfolding mset_key_def by (induction m) auto

definition nonnull :: "gomap \<Rightarrow> gomap" where
  "nonnull m = as_map (dropNulls (VMap m))"

lemma nonnull_eq: "nonnull m = map (\<lambda>(k, v). (k, dropNulls v)) (filter (\<lambda>(k, v). v \<noteq> VNil) m)"
  by (simp add: nonnull_def)

lemma dropNulls_VMap: "dropNulls (VMap m) = VMap (nonnull m)"
  by (simp add: nonnull_def)

lemma without_nonnull: "without ks (nonnull m) = nonnull (without ks m)"
  by (induction m) (auto simp: nonnull_eq without_def)

lemma nonnull_mset_key:
  assumes "map_of m k = Some v" "v \<noteq> VNil" "w \<noteq> VNil"
  shows "nonnull (mset_key m k w) = mset_key (nonnull m) k (dropNulls w)"
  using assms unfolding mset_key_def by (induction m) (auto simp: nonnull_eq split: if_splits)

lemma map_of_nonnull:
  assumes "map_of m k = Some v" "v \<noteq> VNil"
  shows "map_of (nonnull m) k = Some (dropNulls v)"
  using assms by (induction m) (auto simp: nonnull_eq split: if_splits)

text \<open>Both branches of the normalisation, for an object whose metadata is a map.\<close>

definition prepare :: "lib \<Rightarrow> unstructured \<Rightarrow> gomap \<Rightarrow> gomap" where
  "prepare L obj m = (if builtinGroup (gvk_Group (GroupVersionKindOf L obj)) then nonnull m else m)"

lemma prepare_facts:
  shows "without ks (prepare L obj m) = prepare L obj (without ks m)"
    and "map_of m k = Some (VMap v) \<Longrightarrow> prepare L obj (mset_key m k (VMap w))
      = mset_key (prepare L obj m) k (VMap (prepare L obj w))"
    and "map_of m k = Some (VMap v) \<Longrightarrow> map_of (prepare L obj m) k = Some (VMap (prepare L obj v))"
  by (simp_all add: prepare_def without_nonnull nonnull_mset_key map_of_nonnull dropNulls_VMap
      del: dropNulls.simps)

lemma normalize_Object_map:
  assumes "field_laws L" "map_of (Object obj) ''metadata'' = Some (VMap m)"
  shows "normalize_Object L obj = Inr \<lparr>Object = mset_key (without [''status''] (prepare L obj (Object obj)))
    ''metadata'' (VMap (normalize_metadata (prepare L obj m)))\<rparr>"
proof -
  have copy: "(if builtinGroup (gvk_Group (GroupVersionKindOf L obj)) then as_map (dropNulls (VMap (Object obj)))
      else Object obj) = prepare L obj (Object obj)"
    by (simp only: prepare_def nonnull_def)
  have "NestedMap L (without [''status''] (prepare L obj (Object obj))) [''metadata''] = Found (prepare L obj m)"
    using assms(1) prepare_facts(3) [OF assms(2), of L obj] by (simp add: field_laws_def map_of_without)
  moreover have "RemoveNestedField L (prepare L obj (Object obj)) [''status'']
      = without [''status''] (prepare L obj (Object obj))"
    using assms(1) by (simp add: field_laws_def mdelete_without)
  ultimately show ?thesis unfolding normalize_Object_def copy Let_def by simp
qed

lemma normalize_metadata_cong:
  "without server_fields m = without server_fields m' \<Longrightarrow> normalize_metadata m = normalize_metadata m'"
  by (simp add: normalize_metadata_def foldl_mdelete_without Let_def)

subsection \<open>Properties\<close>

text \<open>Nothing the API server populates can look like a difference: an object whose status was
  written, with any server-populated metadata fields on top, normalises to the same object.\<close>

theorem normalize_ignores_server_state:
  assumes "field_laws L" "kind_law L"
    and "map_of (Object obj) ''metadata'' = Some (VMap m)"
    and "fst ` set writes \<subseteq> set server_fields"
  shows "normalize_Object L (server_update status writes obj) = normalize_Object L obj"
proof -
  let ?w = "foldr (\<lambda>(f, v) m. mset_key m f v) writes m"
  let ?o = "server_update status writes obj"
  have m: "mget (Object obj) ''metadata'' = VMap m" using assms(3) by (simp add: mget_def)
  have o: "Object ?o = mset_key (mset_key (Object obj) ''metadata'' (VMap ?w)) ''status'' status"
    by (simp add: server_update_def m)
  have "GroupVersionKindOf L ?o = GroupVersionKindOf L obj"
    by (intro assms(2) [unfolded kind_law_def, rule_format] conjI) (simp_all add: o)
  then have p: "prepare L ?o = prepare L obj" by (simp add: prepare_def fun_eq_iff)
  have wm: "map_of (Object ?o) ''metadata'' = Some (VMap ?w)" by (simp add: o mset_key_def update_conv')
  note new = normalize_Object_map [OF assms(1) wm]
  have "without server_fields (prepare L obj ?w) = without server_fields (prepare L obj m)"
    using assms(4) by (simp add: prepare_facts(1) without_writes)
  then have meta: "normalize_metadata (prepare L obj ?w) = normalize_metadata (prepare L obj m)"
    by (rule normalize_metadata_cong)
  have "without [''status''] (prepare L obj (Object ?o))
    = mset_key (without [''status''] (prepare L obj (Object obj))) ''metadata'' (VMap (prepare L obj ?w))"
  proof -
    have "without [''status''] (prepare L obj (Object ?o)) = prepare L obj (without [''status''] (Object ?o))"
      by (rule prepare_facts(1))
    also have "without [''status''] (Object ?o)
        = without [''status''] (mset_key (Object obj) ''metadata'' (VMap ?w))"
      by (simp add: o without_mset_key)
    also have "prepare L obj \<dots> = without [''status''] (prepare L obj (mset_key (Object obj) ''metadata'' (VMap ?w)))"
      by (rule prepare_facts(1) [symmetric])
    also have "prepare L obj (mset_key (Object obj) ''metadata'' (VMap ?w))
        = mset_key (prepare L obj (Object obj)) ''metadata'' (VMap (prepare L obj ?w))"
      by (rule prepare_facts(2) [OF assms(3)])
    finally show ?thesis by (simp add: without_mset_key_other)
  qed
  then show ?thesis
    by (simp add: new normalize_Object_map [OF assms(1,3)] p meta)
qed

theorem normalize_ignores_server_state_witness:
  "normalize_Object std_lib (server_update (VStr ''Running'') [(''uid'', VStr ''u1'')]
      \<lparr>Object = [(''kind'', VStr ''Pod''), (''metadata'', VMap [(''name'', VStr ''a'')])]\<rparr>)
   = normalize_Object std_lib
      \<lparr>Object = [(''kind'', VStr ''Pod''), (''metadata'', VMap [(''name'', VStr ''a'')])]\<rparr>"
  by (rule normalize_ignores_server_state [OF std_field_laws std_kind_law, of _ "[(''name'', VStr ''a'')]"])
    (simp_all add: server_fields_def)

end
