(* ===== verification/Redact.thy ===== *)
theory Redact
  imports Prelude
begin

text \<open>
  Package \<open>internal/redact\<close>: what keeps secret material out of statuses, events, logs and plans.
  \<open>Value\<close> and \<open>SensitivePath\<close> are the planner's; \<open>redact_String\<close> is \<open>redact.String\<close>, its three
  regular expressions written as matchers. Each expression is deterministic, because every
  repetition is followed by a character it cannot itself match, so greedy matching from the
  leftmost position is what Go's \<open>regexp\<close> finds.
\<close>

definition Placeholder :: string where
  "Placeholder = ''REDACTED''"

definition Value :: "string \<Rightarrow> string" where
  "Value value = (if value = [] \<or> Contains value Placeholder then value else Placeholder)"

definition sensitive_tokens :: "string list" where
  "sensitive_tokens = [''password'', ''token'', ''secret'', ''credential'', ''privatekey'', ''private_key'',
     ''clientsecret'', ''client_secret'']"

definition SensitivePath :: "string \<Rightarrow> bool" where
  "SensitivePath path =
     (let lower = ToLower path in
      if lower = ''data'' \<or> lower = ''stringdata'' \<or> HasPrefix lower ''data.'' \<or> HasPrefix lower ''stringdata.''
      then True
      else list_ex (\<lambda>token. Contains lower token) sensitive_tokens)"

subsection \<open>Matchers\<close>

text \<open>A matcher reads a prefix of the text: it answers what it read and what is left.\<close>

type_synonym matcher = "string \<Rightarrow> (string \<times> string) option"

definition lit_ci :: "string \<Rightarrow> matcher" where
  "lit_ci lit s =
     (if length lit \<le> length s \<and> ToLower (take (length lit) s) = ToLower lit
      then Some (take (length lit) s, drop (length lit) s) else None)"

definition lit :: "string \<Rightarrow> matcher" where
  "lit l s = (if take (length l) s = l then Some (l, drop (length l) s) else None)"

definition many :: "(char \<Rightarrow> bool) \<Rightarrow> matcher" where
  "many P s = Some (takeWhile P s, dropWhile P s)"

definition many1 :: "(char \<Rightarrow> bool) \<Rightarrow> matcher" where
  "many1 P s = (if takeWhile P s = [] then None else Some (takeWhile P s, dropWhile P s))"

fun one_of :: "(char \<Rightarrow> bool) \<Rightarrow> matcher" where
  "one_of P [] = None"
| "one_of P (c # cs) = (if P c then Some ([c], cs) else None)"

fun optional :: "(char \<Rightarrow> bool) \<Rightarrow> matcher" where
  "optional P [] = Some ([], [])"
| "optional P (c # cs) = (if P c then Some ([c], cs) else Some ([], c # cs))"

definition seq :: "matcher \<Rightarrow> matcher \<Rightarrow> matcher" where
  "seq a b s = (case a s of
       None \<Rightarrow> None
     | Some (x, rest) \<Rightarrow> (case b rest of None \<Rightarrow> None | Some (y, rest') \<Rightarrow> Some (x @ y, rest')))"

fun first_of :: "matcher list \<Rightarrow> matcher" where
  "first_of [] s = None"
| "first_of (m # ms) s = (case m s of None \<Rightarrow> first_of ms s | Some r \<Rightarrow> Some r)"

text \<open>The class \<open>\s\<close> of Go's regular expressions.\<close>

definition re_space :: "char \<Rightarrow> bool" where
  "re_space c \<longleftrightarrow> c \<in> {CHR '' '', CHR 0x09, CHR 0x0A, CHR 0x0C, CHR 0x0D}"

definition secret_char :: "char \<Rightarrow> bool" where
  "secret_char c \<longleftrightarrow> \<not> re_space c \<and> c \<noteq> CHR '','' \<and> c \<noteq> CHR '';''"

definition dash :: "char \<Rightarrow> bool" where
  "dash c \<longleftrightarrow> c = CHR ''-'' \<or> c = CHR ''_''"

definition keyword :: matcher where
  "keyword = first_of [lit_ci ''password'', lit_ci ''token'', lit_ci ''secret'', lit_ci ''credential'',
     seq (lit_ci ''private'') (seq (optional dash) (lit_ci ''key'')),
     seq (lit_ci ''client'') (seq (optional dash) (lit_ci ''secret''))]"

definition separator :: matcher where
  "separator = seq (many re_space) (seq (one_of (\<lambda>c. c = CHR '':'' \<or> c = CHR ''='')) (many re_space))"

text \<open>The parts the two assignment expressions keep; what they replace is a run of \<open>secret_char\<close>.\<close>

definition assignment_head :: matcher where
  "assignment_head = seq keyword separator"

definition bearer_head :: matcher where
  "bearer_head = seq (lit_ci ''Authorization:'') (seq (many re_space) (seq (lit_ci ''Bearer'') (many1 re_space)))"

definition alpha :: "char \<Rightarrow> bool" where
  "alpha c \<longleftrightarrow> (CHR ''A'' \<le> c \<and> c \<le> CHR ''Z'') \<or> (CHR ''a'' \<le> c \<and> c \<le> CHR ''z'')"

definition scheme_char :: "char \<Rightarrow> bool" where
  "scheme_char c \<longleftrightarrow> alpha c \<or> is_digit c \<or> c \<in> {CHR ''+'', CHR ''.'', CHR ''-''}"

definition userinfo_char :: "char \<Rightarrow> bool" where
  "userinfo_char c \<longleftrightarrow> c \<noteq> CHR ''/'' \<and> \<not> re_space c \<and> c \<noteq> CHR ''@'' \<and> c \<noteq> CHR 0x22 \<and> c \<noteq> CHR 0x27"

definition scheme :: matcher where
  "scheme = seq (one_of alpha) (seq (many scheme_char) (lit ''://''))"

subsection \<open>Replacement\<close>

text \<open>\<open>ReplaceAllString\<close>: at each position from the left, a match is replaced and reading goes on
  behind it. \<open>rewrite s\<close> is the replacement of the match at the head of \<open>s\<close> with what follows it.\<close>

definition rewrite_secret :: "matcher \<Rightarrow> matcher" where
  "rewrite_secret head s = (case head s of
       None \<Rightarrow> None
     | Some (kept, rest) \<Rightarrow> (case many1 secret_char rest of
           None \<Rightarrow> None
         | Some (_, rest') \<Rightarrow> Some (kept @ Placeholder, rest')))"

definition rewrite_userinfo :: matcher where
  "rewrite_userinfo s = (case scheme s of
       None \<Rightarrow> None
     | Some (kept, rest) \<Rightarrow> (case seq (many1 userinfo_char) (lit ''@'') rest of
           None \<Rightarrow> None
         | Some (_, rest') \<Rightarrow> Some (kept @ Placeholder @ ''@'', rest')))"

function replace_all :: "matcher \<Rightarrow> string \<Rightarrow> string" where
  "replace_all rewrite [] = []"
| "replace_all rewrite (c # cs) =
     (case rewrite (c # cs) of
        Some (out, rest) \<Rightarrow>
          if length rest \<le> length cs then out @ replace_all rewrite rest else c # replace_all rewrite cs
      | None \<Rightarrow> c # replace_all rewrite cs)"
  by pat_completeness auto
termination by (relation "measure (\<lambda>(_, s). length s)") auto

definition redact_String :: "string \<Rightarrow> string" where
  "redact_String value =
     replace_all rewrite_userinfo
       (replace_all (rewrite_secret bearer_head) (replace_all (rewrite_secret assignment_head) value))"

subsection \<open>Values and paths\<close>

lemma Contains_Placeholder [simp]: "Contains Placeholder Placeholder"
  by (simp add: Placeholder_def)

lemma Value_idem: "Value (Value v) = Value v"
  by (simp add: Value_def)

lemma Value_hides: "Value v = [] \<or> Contains (Value v) Placeholder"
  by (simp add: Value_def)

lemma Value_independent:
  "v \<noteq> [] \<Longrightarrow> \<not> Contains v Placeholder \<Longrightarrow> Value v = Placeholder"
  by (simp add: Value_def)

lemma SensitivePath_data: "SensitivePath (''data.'' @ key)"
  by (simp add: SensitivePath_def Let_def ToLower_def lower_char_def)

end
