(* ===== verification/Planner.thy ===== *)
theory Planner
  imports Normalize Redact Pruning
begin

text \<open>
  Package \<open>internal/planner\<close>: the change plan. \<open>Build\<close> compares desired and live objects by
  identity, \<open>changedFields\<close> the two versions of one object, and \<open>fieldOwners\<close> reads which field
  manager owns which path from the server's managed-fields trees. Go maps whose keys are iterated
  are association lists here; the source sorts their keys wherever the order shows.
\<close>

record change =
  ch_ID :: resource_id
  ch_Action :: plan_action
  ch_Fields :: "plan_field_change list"
  ch_Conflicts :: "plan_conflict list"
  ch_Destructive :: bool
  ch_Warnings :: "string list"

record plan =
  pl_Changes :: "change list"
  pl_Summary :: plan_summary

datatype plan_error = BadIdentity id_error | BadObject normalize_error

subsection \<open>Flattening\<close>

definition dotted :: "string \<Rightarrow> string \<Rightarrow> string" where
  "dotted pfx key = (if pfx \<noteq> [] then pfx @ ''.'' @ key else key)"

definition indexed :: "string \<Rightarrow> nat \<Rightarrow> string" where
  "indexed pfx i = pfx @ ''['' @ itoa (int i) @ '']''"

lemma enumerate_size [termination_simp]:
  assumes "(i, x) \<in> set (enumerate n xs)"
  shows "size x < Suc (size_list size xs)"
proof -
  have "x \<in> set xs" using assms by (metis in_set_enumerate_eq nth_mem fst_conv snd_conv less_diff_conv2)
  then show ?thesis by (simp add: less_Suc_eq_le size_list_estimation')
qed

fun flatten :: "lib \<Rightarrow> string \<Rightarrow> any \<Rightarrow> (string \<times> string) list \<Rightarrow> (string \<times> string) list" where
  "flatten L pfx (VMap m) out =
     fold (\<lambda>(key, v) out. flatten L (dotted pfx key) v out) (sort_by key_lt m) out"
| "flatten L pfx (VList items) out =
     fold (\<lambda>(i, item) out. flatten L (indexed pfx i) item out) (enumerate 0 items) out"
| "flatten L pfx v out = AList.update pfx (Sprint L v) out"

subsection \<open>Field ownership\<close>

type_synonym ownership = "(string \<times> string list) list"

definition owners_of :: "ownership \<Rightarrow> string \<Rightarrow> string list" where
  "owners_of own path = (case map_of own path of None \<Rightarrow> [] | Some ms \<Rightarrow> ms)"

definition matchesKey :: "lib \<Rightarrow> gomap \<Rightarrow> gomap \<Rightarrow> bool" where
  "matchesKey L entry flds = list_all (\<lambda>(name, want). Sprint L (mget entry name) = Sprint L want) flds"

text \<open>The index of the first list item that satisfies a test.\<close>

fun first_index :: "(any \<Rightarrow> bool) \<Rightarrow> nat \<Rightarrow> any list \<Rightarrow> nat option" where
  "first_index P i [] = None"
| "first_index P i (x # xs) = (if P x then Some i else first_index P (Suc i) xs)"

text \<open>\<open>fmt.Sscanf\<close> with \<open>%d\<close>: leading blanks, a sign, and at least one digit; the rest is ignored.\<close>

definition Sscanf_d :: "string \<Rightarrow> int option" where
  "Sscanf_d s =
     (let t = dropWhile (\<lambda>c. is_space c \<and> c \<noteq> CHR 0x0A) s;
          (sign, u) = (case t of c # cs \<Rightarrow> if c = CHR ''-'' \<or> c = CHR ''+'' then ([c], cs) else ([], t) | [] \<Rightarrow> ([], []));
          digits = takeWhile is_digit u
      in if digits = [] then None else Atoi (sign @ digits))"

definition step :: "lib \<Rightarrow> string \<Rightarrow> string \<Rightarrow> any \<Rightarrow> (string \<times> any) option" where
  "step L pfx key liveValue =
     (case CutPrefix key ''f:'' of
        Some name \<Rightarrow> Some (dotted pfx name, mget (as_map liveValue) name)
      | None \<Rightarrow>
          (let items = as_list liveValue;
               found = (\<lambda>i. case i of Some i \<Rightarrow> Some (indexed pfx i, items ! i) | None \<Rightarrow> None)
           in if HasPrefix key ''k:'' then
                (case UnmarshalMap L (drop 2 key) of
                   None \<Rightarrow> None
                 | Some flds \<Rightarrow> found (first_index (\<lambda>item. is_map item \<and> matchesKey L (as_map item) flds) 0 items))
              else if HasPrefix key ''v:'' then
                (case UnmarshalAny L (drop 2 key) of
                   None \<Rightarrow> None
                 | Some want \<Rightarrow> found (first_index (\<lambda>item. Sprint L item = Sprint L want) 0 items))
              else if HasPrefix key ''i:'' then
                (case Sscanf_d (drop 2 key) of
                   None \<Rightarrow> None
                 | Some index \<Rightarrow> if 0 \<le> index \<and> index < int (length items) then found (Some (nat index)) else None)
              else None))"

definition is_leaf :: "gomap \<Rightarrow> bool" where
  "is_leaf child \<longleftrightarrow> child = [] \<or> (length child = 1 \<and> mget child ''.'' \<noteq> VNil)"

definition entries_size :: "gomap \<Rightarrow> nat" where
  "entries_size m = size_list (\<lambda>(k, v). size v) m"

lemma entries_size_simps [simp]:
  "entries_size [] = 0"
  "entries_size ((k, v) # m) = Suc (size v + entries_size m)"
  by (simp_all add: entries_size_def)

lemma entries_size_as_map: "entries_size (as_map v) \<le> size v"
proof (cases v)
  case (VMap m)
  have "entries_size m \<le> size_list (size_prod (\<lambda>_. 0) size) m"
    unfolding entries_size_def by (rule size_list_pointwise) auto
  then show ?thesis using VMap by (simp add: entries_size_def)
qed (simp_all add: entries_size_def)

function walk :: "lib \<Rightarrow> gomap \<Rightarrow> string \<Rightarrow> any \<Rightarrow> string \<Rightarrow> ownership \<Rightarrow> ownership" where
  "walk L [] pfx liveValue manager own = own"
| "walk L ((key, value) # node) pfx liveValue manager own =
     (let own' =
        (if key = ''.'' then own
         else case step L pfx key liveValue of
                None \<Rightarrow> own
              | Some (path, childLive) \<Rightarrow>
                  if is_leaf (as_map value) then AList.map_default path [manager] (\<lambda>ms. ms @ [manager]) own
                  else walk L (as_map value) path childLive manager own)
      in walk L node pfx liveValue manager own')"
  by pat_completeness auto
termination
  by (relation "measure (\<lambda>(L, node, _). entries_size node)")
    (auto simp: less_Suc_eq_le intro: trans_le_add1 entries_size_as_map)

definition fieldOwners :: "lib \<Rightarrow> unstructured \<Rightarrow> ownership" where
  "fieldOwners L live =
     map (\<lambda>(path, managers). (path, remdups_adj (sort managers)))
       (foldl (\<lambda>own managed.
          if mf_Manager managed = [] then own
          else case mf_FieldsV1 managed of
                 None \<Rightarrow> own
               | Some raw \<Rightarrow>
                   (case UnmarshalMap L raw of
                      None \<Rightarrow> own
                    | Some tree \<Rightarrow> walk L tree [] (VMap (Object live)) (mf_Manager managed) own))
        [] (GetManagedFields L live))"

definition detectConflicts :: "lib \<Rightarrow> unstructured \<Rightarrow> plan_field_change list \<Rightarrow> plan_conflict list" where
  "detectConflicts L live flds =
     (let owners = fieldOwners L live in
      concat (map (\<lambda>field. List.map_filter (\<lambda>manager.
          if manager = FieldManager then None
          else Some \<lparr>pc_Path = fc_Path field, pc_Manager = manager, pc_Policy = ConflictPolicyFail\<rparr>)
        (owners_of owners (fc_Path field))) flds))"

subsection \<open>Field changes\<close>

definition isSecret :: "lib \<Rightarrow> unstructured \<Rightarrow> bool" where
  "isSecret L obj \<longleftrightarrow> GetAPIVersion L obj = ''v1'' \<and> GetKind L obj = ''Secret''"

definition lenStringMap :: "any \<Rightarrow> nat" where
  "lenStringMap v = length (as_map v)"

definition redactedCount :: "nat \<Rightarrow> string" where
  "redactedCount n = itoa (int n) @ '' key(s) '' @ Value ''secret''"

definition secretFieldChanges :: "lib \<Rightarrow> unstructured \<Rightarrow> unstructured \<Rightarrow> plan_field_change list" where
  "secretFieldChanges L desired live =
     List.map_filter (\<lambda>path.
       let before = lenStringMap (mget (Object live) path);
           after = lenStringMap (mget (Object desired) path)
       in if before = after \<and> before = 0 then None
          else Some \<lparr>fc_Path = path, fc_Before = redactedCount before, fc_After = redactedCount after, fc_Redacted = True\<rparr>)
     [''data'', ''stringData'']"

definition createFieldChanges :: "lib \<Rightarrow> unstructured \<Rightarrow> plan_field_change list" where
  "createFieldChanges L obj = (if isSecret L obj then secretFieldChanges L obj \<lparr>Object = []\<rparr> else [])"

text \<open>The value Go reads from a \<open>map[string]string\<close>: empty where the key is absent.\<close>

definition at :: "(string \<times> string) list \<Rightarrow> string \<Rightarrow> string" where
  "at m path = get_str (map_of m) path"

definition changed_paths :: "(string \<times> string) list \<Rightarrow> (string \<times> string) list \<Rightarrow> ownership \<Rightarrow> string list" where
  "changed_paths df lf owners = sort (remdups (map fst df @
     filter (\<lambda>path. path \<notin> fst ` set df \<and> FieldManager \<in> set (owners_of owners path)) (map fst lf)))"

definition field_change :: "(string \<times> string) list \<Rightarrow> (string \<times> string) list \<Rightarrow> string \<Rightarrow> plan_field_change option" where
  "field_change df lf path =
     (if at df path = at lf path then None
      else let redacted = SensitivePath path;
               before = (if redacted then Value (at lf path) else at lf path);
               after = (if redacted then Value (at df path) else at df path)
           in Some \<lparr>fc_Path = path, fc_Before = before, fc_After = after, fc_Redacted = redacted\<rparr>)"

definition changedFields :: "lib \<Rightarrow> unstructured \<Rightarrow> unstructured \<Rightarrow> normalize_error + plan_field_change list" where
  "changedFields L desired live =
     (if isSecret L desired \<or> isSecret L live then
        (case normalize_Equal L desired live of
           Inl err \<Rightarrow> Inl err
         | Inr equal \<Rightarrow> if equal then Inr [] else Inr (secretFieldChanges L desired live))
      else
        (let owners = fieldOwners L live in
         case normalize_Object L desired of
           Inl err \<Rightarrow> Inl err
         | Inr d \<Rightarrow>
             (case normalize_Object L live of
                Inl err \<Rightarrow> Inl err
              | Inr l \<Rightarrow>
                  (let df = flatten L [] (VMap (Object d)) [];
                       lf = flatten L [] (VMap (Object l)) []
                   in Inr (List.map_filter (field_change df lf) (changed_paths df lf owners))))))"

subsection \<open>Build\<close>

fun index_objects :: "lib \<Rightarrow> unstructured list \<Rightarrow> (resource_id \<times> unstructured) list
    \<Rightarrow> id_error + (resource_id \<times> unstructured) list" where
  "index_objects L [] acc = Inr acc"
| "index_objects L (obj # objs) acc =
     (case FromObject L obj of
        Inl err \<Rightarrow> Inl err
      | Inr i \<Rightarrow> index_objects L objs (AList.update i obj acc))"

definition zero_summary :: plan_summary where
  "zero_summary = \<lparr>sum_Create = 0, sum_Update = 0, sum_Delete = 0, sum_Unchanged = 0, sum_Truncated = False\<rparr>"

definition new_change :: "resource_id \<Rightarrow> change" where
  "new_change i = \<lparr>ch_ID = i, ch_Action = PlanActionUnchanged, ch_Fields = [], ch_Conflicts = [],
     ch_Destructive = False, ch_Warnings = []\<rparr>"

text \<open>The change of one identity and the summary it leaves.\<close>

definition classify :: "lib \<Rightarrow> resource_id \<Rightarrow> unstructured option \<Rightarrow> unstructured option \<Rightarrow> plan_summary
    \<Rightarrow> normalize_error + (change \<times> plan_summary)" where
  "classify L i want have summary =
     (case (want, have) of
        (Some desired, None) \<Rightarrow>
          Inr ((new_change i)\<lparr>ch_Action := PlanActionCreate, ch_Fields := createFieldChanges L desired\<rparr>,
               summary\<lparr>sum_Create := sum_Create summary + 1\<rparr>)
      | (None, Some live) \<Rightarrow>
          Inr ((new_change i)\<lparr>ch_Action := PlanActionDelete, ch_Destructive := True,
                 ch_Warnings := [''delete action is destructive'']\<rparr>,
               summary\<lparr>sum_Delete := sum_Delete summary + 1\<rparr>)
      | (Some desired, Some live) \<Rightarrow>
          (case changedFields L desired live of
             Inl err \<Rightarrow> Inl err
           | Inr flds \<Rightarrow>
               if flds = [] then Inr (new_change i, summary\<lparr>sum_Unchanged := sum_Unchanged summary + 1\<rparr>)
               else Inr ((new_change i)\<lparr>ch_Action := PlanActionUpdate, ch_Fields := flds,
                           ch_Conflicts := detectConflicts L live flds\<rparr>,
                         summary\<lparr>sum_Update := sum_Update summary + 1\<rparr>))
      | (None, None) \<Rightarrow> Inr (new_change i, summary))"

fun build_loop :: "lib \<Rightarrow> (resource_id \<rightharpoonup> unstructured) \<Rightarrow> (resource_id \<rightharpoonup> unstructured) \<Rightarrow> resource_id list
    \<Rightarrow> plan \<Rightarrow> normalize_error + plan" where
  "build_loop L desiredByID liveByID [] p = Inr p"
| "build_loop L desiredByID liveByID (i # ids) p =
     (case classify L i (desiredByID i) (liveByID i) (pl_Summary p) of
        Inl err \<Rightarrow> Inl err
      | Inr (change, summary) \<Rightarrow>
          build_loop L desiredByID liveByID ids \<lparr>pl_Changes = pl_Changes p @ [change], pl_Summary = summary\<rparr>)"

definition id_lt :: "lib \<Rightarrow> resource_id \<Rightarrow> resource_id \<Rightarrow> bool" where
  "id_lt L a b = (ID_String L a < ID_String L b)"

definition ordered_ids :: "lib \<Rightarrow> (resource_id \<times> unstructured) list \<Rightarrow> (resource_id \<times> unstructured) list
    \<Rightarrow> resource_id list" where
  "ordered_ids L desiredByID liveByID = sort_by (id_lt L) (remdups (map fst desiredByID @ map fst liveByID))"

definition Build :: "lib \<Rightarrow> unstructured list \<Rightarrow> unstructured list \<Rightarrow> plan_error + plan" where
  "Build L desired live =
     (case index_objects L desired [] of
        Inl err \<Rightarrow> Inl (BadIdentity err)
      | Inr desiredByID \<Rightarrow>
          (case index_objects L live [] of
             Inl err \<Rightarrow> Inl (BadIdentity err)
           | Inr liveByID \<Rightarrow>
               (case build_loop L (map_of desiredByID) (map_of liveByID) (ordered_ids L desiredByID liveByID)
                       \<lparr>pl_Changes = [], pl_Summary = zero_summary\<rparr> of
                  Inl err \<Rightarrow> Inl (BadObject err)
                | Inr p \<Rightarrow> Inr p)))"

subsection \<open>Kept objects and the status form\<close>

definition change_lt :: "lib \<Rightarrow> change \<Rightarrow> change \<Rightarrow> bool" where
  "change_lt L a b = (ID_String L (ch_ID a) < ID_String L (ch_ID b))"

text \<open>The plan is changed in place, so a failing \<open>Keep\<close> leaves what it had added.\<close>

fun keep_loop :: "lib \<Rightarrow> rejected list \<Rightarrow> plan \<Rightarrow> plan \<times> id_error option" where
  "keep_loop L [] p = (p, None)"
| "keep_loop L (obj # kept) p =
     (case FromObject L (Rejected_Object obj) of
        Inl err \<Rightarrow> (p, Some err)
      | Inr i \<Rightarrow> keep_loop L kept
          \<lparr>pl_Changes = pl_Changes p @ [(new_change i)\<lparr>ch_Warnings :=
               [''no longer in desired state; prune skipped: '' @ Rejected_Reason obj]\<rparr>],
           pl_Summary = (pl_Summary p)\<lparr>sum_Unchanged := sum_Unchanged (pl_Summary p) + 1\<rparr>\<rparr>)"

definition Keep :: "lib \<Rightarrow> plan \<Rightarrow> rejected list \<Rightarrow> plan \<times> id_error option" where
  "Keep L p kept =
     (if kept = [] then (p, None)
      else case keep_loop L kept p of
             (p, Some err) \<Rightarrow> (p, Some err)
           | (p, None) \<Rightarrow> (p\<lparr>pl_Changes := sort_by (change_lt L) (pl_Changes p)\<rparr>, None))"

definition status_change :: "lib \<Rightarrow> change \<Rightarrow> plan_resource_change" where
  "status_change L c = \<lparr>
     prc_Resource = \<lparr>ref_APIVersion = APIVersion L (ch_ID c), ref_Kind = ID_Kind (ch_ID c),
       ref_Namespace = ID_Namespace (ch_ID c), ref_Name = ID_Name (ch_ID c)\<rparr>,
     prc_Action = ch_Action c, prc_Destructive = ch_Destructive c, prc_Changes = ch_Fields c,
     prc_Conflicts = ch_Conflicts c, prc_Warnings = ch_Warnings c\<rparr>"

definition RevisionPlan :: "lib \<Rightarrow> plan \<Rightarrow> int \<Rightarrow> revision_plan" where
  "RevisionPlan L p limit =
     (let limit = (if limit \<le> 0 \<or> limit > int (length (pl_Changes p)) then length (pl_Changes p) else nat limit)
      in \<lparr>plan_Summary = (pl_Summary p)\<lparr>sum_Truncated := length (pl_Changes p) > limit\<rparr>,
          plan_Digest = [],
          plan_Resources = map (status_change L) (take limit (pl_Changes p))\<rparr>)"

subsection \<open>Indexing by identity\<close>

definition ids_of :: "lib \<Rightarrow> unstructured list \<Rightarrow> resource_id set" where
  "ids_of L objs = {i. \<exists>obj. obj \<in> set objs \<and> FromObject L obj = Inr i}"

lemma ids_of_simps [simp]:
  "ids_of L [] = {}"
  "ids_of L (obj # objs) = (case FromObject L obj of Inl _ \<Rightarrow> {} | Inr i \<Rightarrow> {i}) \<union> ids_of L objs"
  by (auto simp: ids_of_def split: sum.splits)

lemma index_objects_keys:
  assumes "index_objects L objs acc = Inr m" "distinct (map fst acc)"
  shows "set (map fst m) = set (map fst acc) \<union> ids_of L objs \<and> distinct (map fst m)"
  using assms
proof (induction objs arbitrary: acc)
  case (Cons obj objs)
  then obtain i where i: "FromObject L obj = Inr i" by (cases "FromObject L obj") auto
  have "distinct (map fst (AList.update i obj acc))"
    using Cons.prems(2) by (rule distinct_update)
  then show ?case using Cons.IH [of "AList.update i obj acc"] Cons.prems(1) i by (auto simp: dom_update)
qed simp

lemma index_objects_lookup:
  assumes "index_objects L objs acc = Inr m"
  shows "map_of m i = Some obj \<Longrightarrow> map_of acc i = Some obj \<or> (obj \<in> set objs \<and> FromObject L obj = Inr i)"
  using assms
  by (induction objs arbitrary: acc) (fastforce simp: update_conv' split: sum.splits if_splits)+

lemma index_objects_total:
  "(\<exists>m. index_objects L objs acc = Inr m) \<longleftrightarrow> list_all (\<lambda>obj. \<not> isl (FromObject L obj)) objs"
  by (induction objs arbitrary: acc) (auto split: sum.splits)




text \<open>With one object per identity the index is the objects themselves, whatever their order.\<close>

definition one_per_id :: "lib \<Rightarrow> unstructured list \<Rightarrow> bool" where
  "one_per_id L objs \<longleftrightarrow> distinct (map (FromObject L) objs)"

lemma index_objects_member:
  assumes "index_objects L objs acc = Inr m" "one_per_id L objs"
    and "obj \<in> set objs" "FromObject L obj = Inr i"
  shows "map_of m i = Some obj"
  using assms
proof (induction objs arbitrary: acc)
  case (Cons a objs)
  then obtain j where j: "FromObject L a = Inr j" by (cases "FromObject L a") auto
  have rest: "index_objects L objs (AList.update j a acc) = Inr m" "one_per_id L objs"
    using Cons.prems(1,2) j by (auto simp: one_per_id_def)
  show ?case
  proof (cases "obj \<in> set objs")
    case True
    then show ?thesis using Cons.IH [OF rest] Cons.prems(4) by blast
  next
    case False
    then have "obj = a" "i = j" using Cons.prems(3,4) j by auto
    have "Inr i \<notin> FromObject L ` set objs" using Cons.prems(2) \<open>i = j\<close> j by (simp add: one_per_id_def)
    then have "i \<notin> ids_of L objs" by (force simp: ids_of_def)
    have keep: "map_of m i = map_of acc' i"
      if "index_objects L objs' acc' = Inr m" "i \<notin> ids_of L objs'" for objs' acc'
      using that by (induction objs' arbitrary: acc') (auto simp: update_conv' split: sum.splits)
    show ?thesis
      using keep [OF rest(1) \<open>i \<notin> ids_of L objs\<close>] \<open>obj = a\<close> \<open>i = j\<close> by (simp add: update_conv')
  qed
qed simp

lemma index_objects_map:
  assumes "index_objects L objs [] = Inr m" "one_per_id L objs"
  shows "map_of m i = Some obj \<longleftrightarrow> obj \<in> set objs \<and> FromObject L obj = Inr i"
proof
  assume "map_of m i = Some obj"
  then show "obj \<in> set objs \<and> FromObject L obj = Inr i"
    using index_objects_lookup [OF assms(1)] by simp
next
  assume "obj \<in> set objs \<and> FromObject L obj = Inr i"
  then show "map_of m i = Some obj" using index_objects_member [OF assms] by simp
qed

lemma index_objects_perm:
  assumes "index_objects L objs [] = Inr m" "index_objects L objs' [] = Inr m'"
    and "one_per_id L objs" "mset objs = mset objs'"
  shows "map_of m = map_of m' \<and> mset (map fst m) = mset (map fst m')"
proof -
  have same: "set objs = set objs'" using assms(4) by (metis set_mset_mset)
  have "mset (map (FromObject L) objs) = mset (map (FromObject L) objs')" using assms(4) by simp
  then have "one_per_id L objs'"
    using assms(3) unfolding one_per_id_def by (metis mset_eq_imp_distinct_iff)
  then have "map_of m i = Some obj \<longleftrightarrow> map_of m' i = Some obj" for i obj
    using index_objects_map assms same by blast
  then have maps: "map_of m = map_of m'" by (intro ext) (metis not_None_eq)
  have "distinct (map fst m)" "distinct (map fst m')"
    using index_objects_keys assms(1,2) by fastforce+
  moreover have "set (map fst m) = set (map fst m')"
    using arg_cong [OF maps, of dom] by (simp add: dom_map_of_conv_image_fst)
  ultimately show ?thesis using maps by (metis set_eq_iff_mset_eq_distinct)
qed

lemma index_objects_err_perm:
  "mset objs = mset objs' \<Longrightarrow> (\<exists>m. index_objects L objs [] = Inr m) = (\<exists>m. index_objects L objs' [] = Inr m)"
  unfolding index_objects_total list_all_iff by (metis set_mset_mset)

subsection \<open>One change per identity\<close>

text \<open>The change is a function of the two objects; the summary counts its action.\<close>

definition change_of :: "lib \<Rightarrow> resource_id \<Rightarrow> unstructured option \<Rightarrow> unstructured option \<Rightarrow> normalize_error + change" where
  "change_of L i want have = map_sum id fst (classify L i want have zero_summary)"

definition bump :: "plan_action \<Rightarrow> plan_summary \<Rightarrow> plan_summary" where
  "bump action s = (case action of
       PlanActionCreate \<Rightarrow> s\<lparr>sum_Create := sum_Create s + 1\<rparr>
     | PlanActionUpdate \<Rightarrow> s\<lparr>sum_Update := sum_Update s + 1\<rparr>
     | PlanActionDelete \<Rightarrow> s\<lparr>sum_Delete := sum_Delete s + 1\<rparr>
     | PlanActionUnchanged \<Rightarrow> s\<lparr>sum_Unchanged := sum_Unchanged s + 1\<rparr>)"

lemma classify_change_of:
  assumes "want \<noteq> None \<or> have \<noteq> None"
  shows "classify L i want have s = map_sum id (\<lambda>c. (c, bump (ch_Action c) s)) (change_of L i want have)"
  using assms
  by (cases want; cases "have")
    (auto simp: classify_def change_of_def bump_def new_change_def split: sum.splits)

lemma change_of_ID: "change_of L i want have = Inr c \<Longrightarrow> ch_ID c = i"
  by (auto simp: change_of_def classify_def new_change_def split: option.splits sum.splits if_splits)


lemma change_of_update:
  assumes "change_of L i (Some desired) (Some live) = Inr c"
  shows "changedFields L desired live = Inr (ch_Fields c)"
    and "ch_Action c = (if ch_Fields c = [] then PlanActionUnchanged else PlanActionUpdate)"
    and "ch_Conflicts c = (if ch_Fields c = [] then [] else detectConflicts L live (ch_Fields c))"
  using assms by (auto simp: change_of_def classify_def new_change_def split: sum.splits if_splits)

lemma change_of_create:
  "change_of L i (Some desired) None = Inr c \<Longrightarrow> ch_Fields c = createFieldChanges L desired \<and> ch_Conflicts c = []"
  by (auto simp: change_of_def classify_def new_change_def)

lemma change_of_delete: "change_of L i None (Some live) = Inr c \<Longrightarrow> ch_Fields c = [] \<and> ch_Conflicts c = []"
  by (auto simp: change_of_def classify_def new_change_def)

subsection \<open>Counting\<close>

definition counted :: "plan_action \<Rightarrow> change list \<Rightarrow> int" where
  "counted action cs = int (length (filter (\<lambda>c. ch_Action c = action) cs))"

definition counts_ok :: "plan \<Rightarrow> bool" where
  "counts_ok p \<longleftrightarrow>
     sum_Create (pl_Summary p) = counted PlanActionCreate (pl_Changes p) \<and>
     sum_Update (pl_Summary p) = counted PlanActionUpdate (pl_Changes p) \<and>
     sum_Delete (pl_Summary p) = counted PlanActionDelete (pl_Changes p) \<and>
     sum_Unchanged (pl_Summary p) = counted PlanActionUnchanged (pl_Changes p)"

lemma counts_ok_snoc:
  assumes "counts_ok p"
  shows "counts_ok \<lparr>pl_Changes = pl_Changes p @ [c], pl_Summary = bump (ch_Action c) (pl_Summary p)\<rparr>"
  using assms by (cases "ch_Action c") (simp_all add: counts_ok_def counted_def bump_def)

lemma counted_perm: "mset cs = mset cs' \<Longrightarrow> counted action cs = counted action cs'"
  unfolding counted_def by (metis mset_filter size_mset)

lemma counts_ok_perm:
  "counts_ok p \<Longrightarrow> mset cs = mset (pl_Changes p) \<Longrightarrow> counts_ok (p\<lparr>pl_Changes := cs\<rparr>)"
  by (simp add: counts_ok_def counted_perm [of cs "pl_Changes p"])

lemma counted_total:
  "counted PlanActionCreate cs + counted PlanActionUpdate cs + counted PlanActionDelete cs
     + counted PlanActionUnchanged cs = int (length cs)"
proof (induction cs)
  case (Cons c cs)
  then show ?case by (cases "ch_Action c") (simp_all add: counted_def)
qed (simp add: counted_def)

subsection \<open>The loop\<close>

text \<open>The loop builds one change per identity, in the order given.\<close>

lemma build_loop_changes:
  assumes "build_loop L D H ids p = Inr p'" and "\<forall>i \<in> set ids. D i \<noteq> None \<or> H i \<noteq> None"
  shows "\<exists>cs. pl_Changes p' = pl_Changes p @ cs \<and> list_all2 (\<lambda>i c. change_of L i (D i) (H i) = Inr c) ids cs
     \<and> (counts_ok p \<longrightarrow> counts_ok p')"
  using assms
proof (induction ids arbitrary: p)
  case (Cons i ids)
  have "D i \<noteq> None \<or> H i \<noteq> None" using Cons.prems(2) by simp
  note cl = classify_change_of [OF this, of L i "pl_Summary p"]
  then obtain c where c: "change_of L i (D i) (H i) = Inr c"
    using Cons.prems(1) by (cases "change_of L i (D i) (H i)") auto
  let ?q = "\<lparr>pl_Changes = pl_Changes p @ [c], pl_Summary = bump (ch_Action c) (pl_Summary p)\<rparr>"
  have "build_loop L D H ids ?q = Inr p'" using Cons.prems(1) cl c by simp
  then obtain cs where cs: "pl_Changes p' = pl_Changes ?q @ cs"
      "list_all2 (\<lambda>i c. change_of L i (D i) (H i) = Inr c) ids cs" "counts_ok ?q \<longrightarrow> counts_ok p'"
    using Cons.IH [of ?q] Cons.prems(2) by auto
  then show ?case
    using c counts_ok_snoc [of p c] by (intro exI [of _ "c # cs"]) auto
qed simp

lemma build_loop_cong:
  assumes "\<And>i. i \<in> set ids \<Longrightarrow> D i = D' i" "\<And>i. i \<in> set ids \<Longrightarrow> H i = H' i"
  shows "build_loop L D H ids p = build_loop L D' H' ids p"
  using assms by (induction ids arbitrary: p) (auto split: sum.split)

interpretation id_order: key_order "ID_String L" for L .

lemma set_ordered_ids [simp]: "set (ordered_ids L d l) = set (map fst d) \<union> set (map fst l)"
  by (simp add: ordered_ids_def)

lemma distinct_ordered_ids [simp]: "distinct (ordered_ids L d l)"
  by (simp add: ordered_ids_def)

lemma sorted_ordered_ids: "sorted (map (ID_String L) (ordered_ids L d l))"
  using id_order.keys_sorted by (simp add: ordered_ids_def id_lt_def [abs_def])

text \<open>A successful \<open>Build\<close>, opened up once for all the properties.\<close>

lemma Build_cases:
  assumes "Build L desired live = Inr p"
  obtains d l where "index_objects L desired [] = Inr d" "index_objects L live [] = Inr l"
    "set (map fst d) = ids_of L desired" "set (map fst l) = ids_of L live"
    "list_all2 (\<lambda>i c. change_of L i (map_of d i) (map_of l i) = Inr c) (ordered_ids L d l) (pl_Changes p)"
    "map ch_ID (pl_Changes p) = ordered_ids L d l" "counts_ok p"
proof -
  let ?p0 = "\<lparr>pl_Changes = [], pl_Summary = zero_summary\<rparr>"
  from assms obtain d l where dl: "index_objects L desired [] = Inr d" "index_objects L live [] = Inr l"
      "build_loop L (map_of d) (map_of l) (ordered_ids L d l) ?p0 = Inr p"
    by (auto simp: Build_def split: sum.splits)
  have keys: "set (map fst d) = ids_of L desired" "set (map fst l) = ids_of L live"
    using index_objects_keys [OF dl(1)] index_objects_keys [OF dl(2)] by simp_all
  have "\<forall>i \<in> set (ordered_ids L d l). map_of d i \<noteq> None \<or> map_of l i \<noteq> None"
    by (auto simp: map_of_eq_None_iff)
  moreover have "counts_ok ?p0" by (simp add: counts_ok_def counted_def zero_summary_def)
  ultimately have changes: "list_all2 (\<lambda>i c. change_of L i (map_of d i) (map_of l i) = Inr c)
      (ordered_ids L d l) (pl_Changes p)" and "counts_ok p"
    using build_loop_changes [OF dl(3)] by auto
  moreover have "map ch_ID (pl_Changes p) = ordered_ids L d l"
    using changes by (induction rule: list_all2_induct) (auto dest: change_of_ID)
  ultimately show thesis using that dl(1,2) keys by blast
qed

lemma Build_change:
  assumes "Build L desired live = Inr p" "c \<in> set (pl_Changes p)"
  obtains d l where "index_objects L desired [] = Inr d" "index_objects L live [] = Inr l"
    "change_of L (ch_ID c) (map_of d (ch_ID c)) (map_of l (ch_ID c)) = Inr c"
    "map_of d (ch_ID c) \<noteq> None \<or> map_of l (ch_ID c) \<noteq> None"
proof -
  obtain d l where b: "index_objects L desired [] = Inr d" "index_objects L live [] = Inr l"
    "list_all2 (\<lambda>i c. change_of L i (map_of d i) (map_of l i) = Inr c) (ordered_ids L d l) (pl_Changes p)"
    by (rule Build_cases [OF assms(1)])
  from b(3) assms(2) obtain i where i: "i \<in> set (ordered_ids L d l)" "change_of L i (map_of d i) (map_of l i) = Inr c"
    by (rule list_all2_right_witness)
  then have "ch_ID c = i" by (auto dest: change_of_ID)
  moreover have "map_of d i \<noteq> None \<or> map_of l i \<noteq> None" using i(1) by (auto simp: map_of_eq_None_iff)
  ultimately show thesis using that b(1,2) i(2) by blast
qed

subsection \<open>Keep\<close>

interpretation change_order: key_order "\<lambda>c. ID_String L (ch_ID c)" for L .

lemma keep_loop_counts: "counts_ok p \<Longrightarrow> counts_ok (fst (keep_loop L kept p))"
proof (induction kept arbitrary: p)
  case (Cons r kept)
  show ?case
  proof (cases "FromObject L (Rejected_Object r)")
    case (Inr i)
    let ?c = "(new_change i)\<lparr>ch_Warnings := [''no longer in desired state; prune skipped: '' @ Rejected_Reason r]\<rparr>"
    have "ch_Action ?c = PlanActionUnchanged" by (simp add: new_change_def)
    then show ?thesis using Inr Cons.IH [OF counts_ok_snoc [OF Cons.prems, of ?c]] by (simp add: bump_def)
  qed (use Cons.prems in simp)
qed simp

lemma Keep_counts: "counts_ok p \<Longrightarrow> counts_ok (fst (Keep L p kept))"
  using keep_loop_counts [of p L kept]
  by (auto simp: Keep_def split: prod.splits option.splits intro: counts_ok_perm)

lemma Keep_sorted:
  assumes "Keep L p kept = (p', None)" "sorted (map (\<lambda>c. ID_String L (ch_ID c)) (pl_Changes p))"
  shows "sorted (map (\<lambda>c. ID_String L (ch_ID c)) (pl_Changes p'))"
  using assms change_order.keys_sorted
  by (auto simp: Keep_def change_lt_def [abs_def] split: if_splits prod.splits option.splits)

subsection \<open>Fields\<close>


lemma field_change_Some:
  "field_change df lf path = Some f \<Longrightarrow> fc_Path f = path \<and> at df path \<noteq> at lf path \<and>
     fc_Redacted f = SensitivePath path \<and>
     fc_Before f = (if SensitivePath path then Value (at lf path) else at lf path) \<and>
     fc_After f = (if SensitivePath path then Value (at df path) else at df path)"
  by (auto simp: field_change_def Let_def split: if_splits)


text \<open>The leaves of an object as they are compared: normalised and flattened.\<close>

definition leaves :: "lib \<Rightarrow> unstructured \<Rightarrow> (string \<times> string) list" where
  "leaves L obj = (case normalize_Object L obj of Inl _ \<Rightarrow> [] | Inr n \<Rightarrow> flatten L [] (VMap (Object n)) [])"




text \<open>What may be shown in place of a sensitive value: nothing, the placeholder, or a number of keys.\<close>

definition concealed :: "string \<Rightarrow> bool" where
  "concealed v \<longleftrightarrow> v = [] \<or> v = Placeholder \<or> (\<exists>n. v = redactedCount n)"

definition field_redacted :: "plan_field_change \<Rightarrow> bool" where
  "field_redacted f \<longleftrightarrow> fc_Redacted f = SensitivePath (fc_Path f) \<and>
     \<not> (fc_Redacted f \<and> \<not> (concealed (fc_Before f) \<and> concealed (fc_After f)))"

text \<open>No sensitive leaf of an object holds the placeholder itself: \<open>redact.Value\<close> takes a value that holds it
  for one that was redacted before, and shows it.\<close>

definition unmarked :: "lib \<Rightarrow> unstructured \<Rightarrow> bool" where
  "unmarked L obj \<longleftrightarrow> list_all (\<lambda>(path, v). \<not> (SensitivePath path \<and> Contains v Placeholder)) (leaves L obj)"

lemma unmarked_at: "unmarked L obj \<Longrightarrow> SensitivePath path \<Longrightarrow> concealed (Value (at (leaves L obj) path))"
  by (auto simp: unmarked_def list_all_iff at_def get_str_def concealed_def Value_def Placeholder_def dest!: map_of_SomeD
      split: option.split)

lemma changedFields_leaves:
  assumes "changedFields L desired live = Inr fs" "\<not> isSecret L desired" "\<not> isSecret L live"
  shows "fs = List.map_filter (field_change (leaves L desired) (leaves L live))
    (changed_paths (leaves L desired) (leaves L live) (fieldOwners L live))"
  using assms by (auto simp: changedFields_def leaves_def Let_def split: sum.splits)

lemma SensitivePath_secret: "SensitivePath ''data''" "SensitivePath ''stringData''"
  by (code_simp, code_simp)

lemma secretFieldChanges_only:
  assumes "f \<in> set (secretFieldChanges L desired live)"
  shows "fc_Path f \<in> {''data'', ''stringData''} \<and> fc_Redacted f \<and>
    fc_Before f = redactedCount (lenStringMap (mget (Object live) (fc_Path f))) \<and>
    fc_After f = redactedCount (lenStringMap (mget (Object desired) (fc_Path f)))"
  using assms by (auto simp: secretFieldChanges_def set_map_filter Let_def split: if_splits)

lemma secretFieldChanges_redacted: "list_all field_redacted (secretFieldChanges L desired live)"
  by (auto simp: list_all_iff field_redacted_def concealed_def SensitivePath_secret dest!: secretFieldChanges_only)

lemma changedFields_redacted:
  assumes "changedFields L desired live = Inr fs" "unmarked L desired" "unmarked L live"
  shows "list_all field_redacted fs"
proof (cases "isSecret L desired \<or> isSecret L live")
  case True
  then show ?thesis
    using assms(1) secretFieldChanges_redacted [of L desired live] by (auto simp: changedFields_def split: sum.splits if_splits)
next
  case False
  have "field_redacted f" if "field_change (leaves L desired) (leaves L live) path = Some f" for path f
    using field_change_Some [OF that] unmarked_at [OF assms(2)] unmarked_at [OF assms(3)] by (simp add: field_redacted_def)
  then show ?thesis using changedFields_leaves [OF assms(1)] False by (auto simp: list_all_iff set_map_filter)
qed



lemma changedFields_secret:
  "changedFields L desired live = Inr fs \<Longrightarrow> isSecret L desired \<or> isSecret L live \<Longrightarrow>
     set fs \<subseteq> set (secretFieldChanges L desired live)"
  by (auto simp: changedFields_def split: sum.splits if_splits)

lemma changedFields_same:
  assumes "normalize_Object L desired = normalize_Object L live" "changedFields L desired live = Inr fs"
  shows "fs = []"
proof (cases "isSecret L desired \<or> isSecret L live")
  case True
  then show ?thesis using assms by (auto simp: changedFields_def normalize_Equal_def split: sum.splits option.splits)
next
  case False
  then show ?thesis
    using assms by (auto simp: changedFields_def field_change_def List.map_filter_def Let_def split: sum.splits)
qed

lemma set_detectConflicts:
  "set (detectConflicts L live fs) =
     {\<lparr>pc_Path = fc_Path f, pc_Manager = m, pc_Policy = ConflictPolicyFail\<rparr> | f m.
        f \<in> set fs \<and> m \<in> set (owners_of (fieldOwners L live) (fc_Path f)) \<and> m \<noteq> FieldManager}"
  by (auto simp: detectConflicts_def set_map_filter Let_def split: if_splits)

subsection \<open>Properties\<close>




text \<open>The summary is the plan counted, and stays so and stays ordered when the objects prune
  keeps are added: the four counts are the numbers of changes of each action, and their sum is the
  number of changes.\<close>

theorem Build_Keep_counts:
  assumes "Build L desired live = Inr p" "Keep L p kept = (p', None)"
  shows "counts_ok p'
    \<and> sum_Create (pl_Summary p') + sum_Update (pl_Summary p') + sum_Delete (pl_Summary p')
        + sum_Unchanged (pl_Summary p') = int (length (pl_Changes p'))
    \<and> sorted (map (\<lambda>c. ID_String L (ch_ID c)) (pl_Changes p'))"
proof -
  obtain d l where b: "map ch_ID (pl_Changes p) = ordered_ids L d l" "counts_ok p"
    by (rule Build_cases [OF assms(1)])
  have "counts_ok p'" using Keep_counts [OF b(2), of L kept] assms(2) by simp
  moreover have "sorted (map (\<lambda>c. ID_String L (ch_ID c)) (pl_Changes p'))"
  proof (rule Keep_sorted [OF assms(2)])
    have "map (\<lambda>c. ID_String L (ch_ID c)) (pl_Changes p) = map (ID_String L) (ordered_ids L d l)"
      by (simp add: b(1) [symmetric])
    then show "sorted (map (\<lambda>c. ID_String L (ch_ID c)) (pl_Changes p))"
      by (simp add: sorted_ordered_ids)
  qed
  ultimately show ?thesis using counted_total [of "pl_Changes p'"] by (simp add: counts_ok_def)
qed

text \<open>The plan does not depend on the order objects were rendered or listed in, where every
  identity occurs once and identities print differently.\<close>

theorem Build_deterministic:
  assumes "Build L desired live = Inr p"
    and "mset desired' = mset desired" "mset live' = mset live"
    and "one_per_id L desired" "one_per_id L live"
    and "inj_on (ID_String L) (ids_of L desired \<union> ids_of L live)"
  shows "Build L desired' live' = Inr p"
proof -
  from assms(1) obtain d l where dl: "index_objects L desired [] = Inr d" "index_objects L live [] = Inr l"
      "build_loop L (map_of d) (map_of l) (ordered_ids L d l) \<lparr>pl_Changes = [], pl_Summary = zero_summary\<rparr> = Inr p"
    by (auto simp: Build_def split: sum.splits)
  obtain d' l' where dl': "index_objects L desired' [] = Inr d'" "index_objects L live' [] = Inr l'"
    using dl(1,2) index_objects_err_perm [OF assms(2), of L] index_objects_err_perm [OF assms(3), of L] by blast
  have d: "map_of d = map_of d'" "mset (map fst d) = mset (map fst d')"
    using index_objects_perm [OF dl(1) dl'(1) assms(4)] assms(2) by simp_all
  have l: "map_of l = map_of l'" "mset (map fst l) = mset (map fst l')"
    using index_objects_perm [OF dl(2) dl'(2) assms(5)] assms(3) by simp_all
  have keys: "set (map fst d) = ids_of L desired" "set (map fst l) = ids_of L live"
    using index_objects_keys [OF dl(1)] index_objects_keys [OF dl(2)] by simp_all
  have "set (map fst d @ map fst l) = set (map fst d' @ map fst l')"
    using d(2) l(2) by (metis mset_append set_mset_mset)
  then have "mset (remdups (map fst d @ map fst l)) = mset (remdups (map fst d' @ map fst l'))"
    by (metis set_eq_iff_mset_remdups_eq)
  then have "ordered_ids L d l = ordered_ids L d' l'"
    unfolding ordered_ids_def id_lt_def [abs_def]
  proof (rule id_order.sort_by_perm)
    fix a b
    assume "a \<in> set (remdups (map fst d @ map fst l))" "b \<in> set (remdups (map fst d @ map fst l))"
      "\<not> ID_String L a < ID_String L b" "\<not> ID_String L b < ID_String L a"
    then show "a = b" using assms(6) keys by (simp add: inj_on_def)
  qed
  then show ?thesis using dl dl' d l by (simp add: Build_def)
qed

text \<open>A converged cluster plans nothing: when the live objects have the desired identities and
  each normalises as its desired object does, every change is Unchanged and lists no field.\<close>

theorem Build_converged:
  assumes "Build L desired live = Inr p" and "ids_of L desired = ids_of L live"
    and "\<And>d l. d \<in> set desired \<Longrightarrow> l \<in> set live \<Longrightarrow> FromObject L d = FromObject L l \<Longrightarrow>
      normalize_Object L d = normalize_Object L l"
  shows "list_all (\<lambda>c. ch_Action c = PlanActionUnchanged \<and> ch_Fields c = []) (pl_Changes p)"
proof -
  have "ch_Action c = PlanActionUnchanged \<and> ch_Fields c = []" if c: "c \<in> set (pl_Changes p)" for c
  proof -
    obtain d l where x: "index_objects L desired [] = Inr d" "index_objects L live [] = Inr l"
      "change_of L (ch_ID c) (map_of d (ch_ID c)) (map_of l (ch_ID c)) = Inr c"
      "map_of d (ch_ID c) \<noteq> None \<or> map_of l (ch_ID c) \<noteq> None"
      by (rule Build_change [OF assms(1) c])
    have "set (map fst d) = set (map fst l)"
      using index_objects_keys [OF x(1)] index_objects_keys [OF x(2)] assms(2) by simp
    then obtain a b where ab: "map_of d (ch_ID c) = Some a" "map_of l (ch_ID c) = Some b"
      using x(4) by (metis map_of_eq_None_iff option.exhaust set_map)
    then have "normalize_Object L a = normalize_Object L b"
      using assms(3) index_objects_lookup [OF x(1) ab(1)] index_objects_lookup [OF x(2) ab(2)] by simp
    moreover have "change_of L (ch_ID c) (Some a) (Some b) = Inr c" using x(3) ab by simp
    ultimately show ?thesis
      using changedFields_same change_of_update by metis
  qed
  then show ?thesis by (simp add: list_all_iff)
qed


text \<open>A conflict in a plan is a changed field that another manager owns: Kuvryn Sync never
  conflicts with itself, and on an Update every such owner is named.\<close>

theorem Build_conflicts_foreign:
  assumes "Build L desired live = Inr p" "c \<in> set (pl_Changes p)"
  shows "FieldManager \<notin> pc_Manager ` set (ch_Conflicts c)
    \<and> pc_Path ` set (ch_Conflicts c) \<subseteq> fc_Path ` set (ch_Fields c)"
proof -
  obtain d l where x: "change_of L (ch_ID c) (map_of d (ch_ID c)) (map_of l (ch_ID c)) = Inr c"
      "map_of d (ch_ID c) \<noteq> None \<or> map_of l (ch_ID c) \<noteq> None"
    by (rule Build_change [OF assms])
  show ?thesis
  proof (cases "map_of d (ch_ID c)"; cases "map_of l (ch_ID c)")
    fix a b
    assume "map_of d (ch_ID c) = Some a" "map_of l (ch_ID c) = Some b"
    then show ?thesis using change_of_update(3) [of L "ch_ID c" a b c] x(1)
      by (auto simp: set_detectConflicts split: if_splits)
  qed (use x change_of_create change_of_delete in fastforce)+
qed

text \<open>C25. Secret material stays out of plans: every changed field is marked redacted exactly when
  its path is sensitive, and what a redacted field shows is nothing, the placeholder, or a number of keys. The one
  way to a value is excluded by hypothesis, because the code does show it: a sensitive leaf whose value
  already holds the placeholder is taken for redacted and shown as it is.\<close>

theorem Build_redacts:
  assumes "Build L desired live = Inr p" "c \<in> set (pl_Changes p)"
    and "\<And>obj. obj \<in> set (desired @ live) \<Longrightarrow> unmarked L obj"
  shows "list_all field_redacted (ch_Fields c)"
proof -
  obtain d l where i: "index_objects L desired [] = Inr d" "index_objects L live [] = Inr l"
    and x: "change_of L (ch_ID c) (map_of d (ch_ID c)) (map_of l (ch_ID c)) = Inr c"
      "map_of d (ch_ID c) \<noteq> None \<or> map_of l (ch_ID c) \<noteq> None"
    by (rule Build_change [OF assms(1,2)])
  show ?thesis
  proof (cases "map_of d (ch_ID c)")
    case None
    then show ?thesis using x change_of_delete by fastforce
  next
    case (Some a)
    note want = this
    show ?thesis
    proof (cases "map_of l (ch_ID c)")
      case None
      then show ?thesis
        using x want change_of_create secretFieldChanges_redacted by (fastforce simp: createFieldChanges_def)
    next
      case (Some b)
      have "a \<in> set desired" "b \<in> set live"
        using index_objects_lookup [OF i(1) want] index_objects_lookup [OF i(2) Some] by simp_all
      then have "unmarked L a" "unmarked L b" using assms(3) by simp_all
      then show ?thesis using x(1) want Some change_of_update(1) changedFields_redacted by fastforce
    qed
  qed
qed

text \<open>The status form of a plan is bounded and honest: it lists the first changes up to the
  limit, keeps the counts of the whole plan and says whether anything was left out.\<close>

lemma RevisionPlan_bounded:
  "plan_Resources (RevisionPlan L p limit) =
     map (status_change L) (take (length (plan_Resources (RevisionPlan L p limit))) (pl_Changes p))
   \<and> length (plan_Resources (RevisionPlan L p limit)) =
       (if limit \<le> 0 then length (pl_Changes p) else min (nat limit) (length (pl_Changes p)))
   \<and> sum_Truncated (plan_Summary (RevisionPlan L p limit)) =
       (length (plan_Resources (RevisionPlan L p limit)) < length (pl_Changes p))
   \<and> sum_Create (plan_Summary (RevisionPlan L p limit)) = sum_Create (pl_Summary p)
   \<and> sum_Update (plan_Summary (RevisionPlan L p limit)) = sum_Update (pl_Summary p)
   \<and> sum_Delete (plan_Summary (RevisionPlan L p limit)) = sum_Delete (pl_Summary p)
   \<and> sum_Unchanged (plan_Summary (RevisionPlan L p limit)) = sum_Unchanged (pl_Summary p)"
  by (auto simp: RevisionPlan_def Let_def min_def)

subsection \<open>A sample plan\<close>

text \<open>Two desired ConfigMaps, of which one is live with another value, and one live one that is no
  longer desired.\<close>

definition data_map :: "string \<Rightarrow> string \<Rightarrow> unstructured" where
  "data_map name value = \<lparr>Object = Object (config_map name) @ [(''data'', VMap [(''mode'', VStr value)])]\<rparr>"

definition sample_desired :: "unstructured list" where
  "sample_desired = [data_map ''b'' ''on'', data_map ''a'' ''on'']"

definition sample_live :: "unstructured list" where
  "sample_live = [data_map ''a'' ''off'', data_map ''c'' ''on'']"

definition sample_plan :: plan where
  "sample_plan = projr (Build std_lib sample_desired sample_live)"

lemma sample_Build: "Build std_lib sample_desired sample_live = Inr sample_plan"
proof -
  have "\<not> isl (Build std_lib sample_desired sample_live)" by code_simp
  then show ?thesis by (simp add: sample_plan_def)
qed

lemma sample_update: "pl_Changes sample_plan ! 0 \<in> set (pl_Changes sample_plan)"
  unfolding sample_plan_def by code_simp


definition sample_kept :: "rejected list" where
  "sample_kept = [\<lparr>Rejected_Object = config_map ''k'', Rejected_Reason = ''kept''\<rparr>]"

theorem Build_Keep_counts_witness:
  "counts_ok (fst (Keep std_lib sample_plan sample_kept))
   \<and> sum_Create (pl_Summary (fst (Keep std_lib sample_plan sample_kept)))
       + sum_Update (pl_Summary (fst (Keep std_lib sample_plan sample_kept)))
       + sum_Delete (pl_Summary (fst (Keep std_lib sample_plan sample_kept)))
       + sum_Unchanged (pl_Summary (fst (Keep std_lib sample_plan sample_kept)))
     = int (length (pl_Changes (fst (Keep std_lib sample_plan sample_kept))))
   \<and> sorted (map (\<lambda>c. ID_String std_lib (ch_ID c)) (pl_Changes (fst (Keep std_lib sample_plan sample_kept))))"
proof (rule Build_Keep_counts [OF sample_Build])
  have "snd (Keep std_lib sample_plan sample_kept) = None" unfolding sample_plan_def by code_simp
  then show "Keep std_lib sample_plan sample_kept = (fst (Keep std_lib sample_plan sample_kept), None)"
    by (simp add: prod_eq_iff)
qed

theorem Build_deterministic_witness:
  "Build std_lib (rev sample_desired) (rev sample_live) = Inr sample_plan"
proof (rule Build_deterministic [OF sample_Build])
  show "one_per_id std_lib sample_desired" by code_simp
  show "one_per_id std_lib sample_live" by code_simp
  have "ids_of std_lib sample_desired \<union> ids_of std_lib sample_live =
    set (map (\<lambda>obj. projr (FromObject std_lib obj)) (sample_desired @ sample_live))"
    by (auto simp: sample_desired_def sample_live_def data_map_def config_map_def std_lib_def FromObject_def
        std_parse_gv_def mget_def std_metadata_def)
  moreover have "inj_on (ID_String std_lib)
    (set (map (\<lambda>obj. projr (FromObject std_lib obj)) (sample_desired @ sample_live)))"
    by code_simp
  ultimately show "inj_on (ID_String std_lib) (ids_of std_lib sample_desired \<union> ids_of std_lib sample_live)"
    by simp
qed simp_all

theorem Build_converged_witness:
  "list_all (\<lambda>c. ch_Action c = PlanActionUnchanged \<and> ch_Fields c = [])
     (pl_Changes (projr (Build std_lib [config_map ''a''] [config_map ''a''])))"
proof (rule Build_converged)
  have "\<not> isl (Build std_lib [config_map ''a''] [config_map ''a''])" by code_simp
  then show "Build std_lib [config_map ''a''] [config_map ''a'']
    = Inr (projr (Build std_lib [config_map ''a''] [config_map ''a'']))" by simp
qed simp_all


theorem Build_conflicts_foreign_witness:
  "FieldManager \<notin> pc_Manager ` set (ch_Conflicts (pl_Changes sample_plan ! 0))
    \<and> pc_Path ` set (ch_Conflicts (pl_Changes sample_plan ! 0))
      \<subseteq> fc_Path ` set (ch_Fields (pl_Changes sample_plan ! 0))"
  by (rule Build_conflicts_foreign [OF sample_Build sample_update])

theorem Build_redacts_witness: "list_all field_redacted (ch_Fields (pl_Changes sample_plan ! 0))"
proof (rule Build_redacts [OF sample_Build sample_update])
  have "list_all (unmarked std_lib) (sample_desired @ sample_live)" by code_simp
  then show "unmarked std_lib obj" if "obj \<in> set (sample_desired @ sample_live)" for obj
    using that by (simp only: list_all_iff)
qed

subsection \<open>A difference the plan does not show\<close>

text \<open>A declared field whose value is the empty string compares as equal to an absent one, and an
  empty map flattens to nothing: a desired object that adds either to the live one is planned as
  Unchanged.\<close>

lemma empty_value_not_planned:
  "map (\<lambda>c. (ch_Action c, ch_Fields c)) (pl_Changes (projr (Build std_lib [data_map ''a'' ''''] [config_map ''a''])))
   = [(PlanActionUnchanged, [])]"
  by code_simp

end
