(* ===== verification/Validate.thy ===== *)
theory Validate
  imports Resource
begin

text \<open>
  Package \<open>internal/validate\<close>: rendered objects are checked before anything is planned. Each needs an
  API version, a kind and a name, must not leave the destination namespace, and no two may be the
  same resource.
\<close>

record validate_id =
  VID_APIVersion :: string
  VID_Kind :: string
  VID_Namespace :: string
  VID_Name :: string

datatype validate_error =
    MissingAPIVersion
  | MissingKind string
  | MissingName string string
  | OutsideDestination string string string string string
  | DuplicateResource validate_id

definition identify :: "lib \<Rightarrow> string \<Rightarrow> unstructured \<Rightarrow> validate_error + validate_id" where
  "identify L destination obj =
     (let apiVersion = TrimSpace (GetAPIVersion L obj);
          kind = TrimSpace (GetKind L obj);
          name = TrimSpace (GetName L obj);
          namespace = TrimSpace (GetNamespace L obj)
      in if apiVersion = [] then Inl MissingAPIVersion
         else if kind = [] then Inl (MissingKind apiVersion)
         else if name = [] then Inl (MissingName apiVersion kind)
         else if destination \<noteq> [] \<and> namespace \<noteq> [] \<and> namespace \<noteq> destination
         then Inl (OutsideDestination apiVersion kind namespace name destination)
         else Inr \<lparr>VID_APIVersion = apiVersion, VID_Kind = kind,
                   VID_Namespace = (if namespace = [] then destination else namespace), VID_Name = name\<rparr>)"

fun desired_loop :: "lib \<Rightarrow> string \<Rightarrow> validate_id list \<Rightarrow> unstructured list \<Rightarrow> validate_error option" where
  "desired_loop L destination seen [] = None"
| "desired_loop L destination seen (obj # objs) =
     (case identify L destination obj of
        Inl err \<Rightarrow> Some err
      | Inr i \<Rightarrow>
          if i \<in> set seen then Some (DuplicateResource i)
          else desired_loop L destination (i # seen) objs)"

definition Desired :: "lib \<Rightarrow> unstructured list \<Rightarrow> string \<Rightarrow> validate_error option" where
  "Desired L objs destination = desired_loop L destination [] objs"

lemma desired_loop_None:
  "desired_loop L destination seen objs = None \<longleftrightarrow>
     list_all (\<lambda>obj. \<not> isl (identify L destination obj)) objs \<and>
     distinct (map (\<lambda>obj. projr (identify L destination obj)) objs) \<and>
     set (map (\<lambda>obj. projr (identify L destination obj)) objs) \<inter> set seen = {}"
proof (induction objs arbitrary: seen)
  case (Cons obj objs)
  then show ?case by (cases "identify L destination obj") auto
qed simp

lemma identify_Inr:
  assumes "identify L destination obj = Inr i"
  shows "VID_Kind i = TrimSpace (GetKind L obj)" "VID_Name i = TrimSpace (GetName L obj)"
    "VID_APIVersion i = TrimSpace (GetAPIVersion L obj)"
    "VID_Namespace i = (if TrimSpace (GetNamespace L obj) = [] then destination else TrimSpace (GetNamespace L obj))"
    "VID_APIVersion i \<noteq> []" "VID_Kind i \<noteq> []" "VID_Name i \<noteq> []"
    "destination \<noteq> [] \<Longrightarrow> VID_Namespace i = destination"
  using assms by (auto simp: identify_def Let_def split: if_splits)

lemma identify_cong:
  assumes "GetAPIVersion L a = GetAPIVersion L b" "GetKind L a = GetKind L b"
    "GetName L a = GetName L b" "GetNamespace L a = GetNamespace L b"
  shows "identify L destination a = identify L destination b"
  using assms by (simp add: identify_def)

subsection \<open>Properties\<close>

text \<open>C29. A rendered desired state is accepted exactly when every object is complete and stays in the
  destination namespace, and no two objects are the same resource.\<close>

theorem Desired_accepts_exactly:
  "(Desired L objs destination = None) =
     (list_all (\<lambda>obj. TrimSpace (GetAPIVersion L obj) \<noteq> [] \<and> TrimSpace (GetKind L obj) \<noteq> [] \<and>
        TrimSpace (GetName L obj) \<noteq> [] \<and>
        (destination = [] \<or> TrimSpace (GetNamespace L obj) \<in> {[], destination})) objs \<and>
      distinct (map (\<lambda>obj. (TrimSpace (GetAPIVersion L obj), TrimSpace (GetKind L obj),
        (if TrimSpace (GetNamespace L obj) = [] then destination else TrimSpace (GetNamespace L obj)),
        TrimSpace (GetName L obj))) objs))"
proof -
  let ?key = "\<lambda>i :: validate_id. (VID_APIVersion i, VID_Kind i, VID_Namespace i, VID_Name i)"
  let ?id = "\<lambda>obj. projr (identify L destination obj)"
  let ?tuple = "\<lambda>obj. (TrimSpace (GetAPIVersion L obj), TrimSpace (GetKind L obj),
        (if TrimSpace (GetNamespace L obj) = [] then destination else TrimSpace (GetNamespace L obj)),
        TrimSpace (GetName L obj))"
  have ok: "(\<not> isl (identify L destination obj)) = (TrimSpace (GetAPIVersion L obj) \<noteq> [] \<and>
      TrimSpace (GetKind L obj) \<noteq> [] \<and> TrimSpace (GetName L obj) \<noteq> [] \<and>
      (destination = [] \<or> TrimSpace (GetNamespace L obj) \<in> {[], destination}))" for obj
    by (auto simp: identify_def Let_def)
  have inj: "inj ?key"
  proof (rule injI)
    fix x y :: validate_id
    assume "?key x = ?key y"
    then show "x = y" by (cases x, cases y) simp
  qed
  have keys: "?key (?id obj) = ?tuple obj" if "\<not> isl (identify L destination obj)" for obj
    using that identify_Inr [of L destination obj] by (cases "identify L destination obj") auto
  have "distinct (map ?id objs) = distinct (map ?tuple objs)"
    if "list_all (\<lambda>obj. \<not> isl (identify L destination obj)) objs"
  proof -
    have "map ?tuple objs = map ?key (map ?id objs)" using that keys by (simp add: list_all_iff)
    then show ?thesis using inj_on_subset [OF inj subset_UNIV] by (simp only: distinct_map [of ?key]) blast
  qed
  then show ?thesis unfolding Desired_def desired_loop_None ok by auto
qed

end
