(* ===== verification/History.thy ===== *)
theory History
  imports Api_Types
begin

text \<open>
  Packages \<open>internal/history\<close>, \<open>internal/rollback\<close> and \<open>internal/retry\<close>: which Revisions of an
  Application are kept, which healthy one a rollback returns to, and when a failed one may be
  attempted again. Revisions are ordered newest first, by creation time and then by name.
\<close>

definition newer :: "revision \<Rightarrow> revision \<Rightarrow> bool" where
  "newer a b = (if rev_Created a \<noteq> rev_Created b then rev_Created a > rev_Created b else rev_Name a > rev_Name b)"

subsection \<open>Retention\<close>

record retention =
  ret_Keep :: "revision list"
  ret_Delete :: "revision list"

definition ApplyRetention :: "revision list \<Rightarrow> int \<Rightarrow> retention" where
  "ApplyRetention revisions limit =
     (let ordered = sort_by newer revisions in
      if limit \<le> 0 \<or> limit \<ge> int (length ordered) then \<lparr>ret_Keep = ordered, ret_Delete = []\<rparr>
      else \<lparr>ret_Keep = take (nat limit) ordered, ret_Delete = drop (nat limit) ordered\<rparr>)"

definition LimitFor :: "application \<Rightarrow> int \<Rightarrow> int" where
  "LimitFor app fallback =
     (let fallback = (if fallback \<le> 0 then 20 else fallback) in
      case aspec_HistoryLimit (app_Spec app) of
        None \<Rightarrow> fallback
      | Some limit \<Rightarrow> if limit \<le> 0 then fallback else limit)"

subsection \<open>Rollback target\<close>

datatype target_error = NoTarget string

definition candidate :: "revision \<Rightarrow> revision \<Rightarrow> bool" where
  "candidate current r =
     (if rev_Name r = rev_Name current \<or> rev_ApplicationRef r \<noteq> rev_ApplicationRef current then False
      else if rev_Phase r \<noteq> RevisionPhaseHealthy then False
      else if rev_Created current \<noteq> 0 \<and> \<not> rev_Created r < rev_Created current then False
      else True)"

definition Target :: "revision \<Rightarrow> revision list \<Rightarrow> target_error + revision" where
  "Target current history =
     (let candidates = filter (candidate current) history in
      case sort_by newer candidates of
        [] \<Rightarrow> Inl (NoTarget (rev_ApplicationRef current))
      | r # _ \<Rightarrow> Inr r)"

subsection \<open>Retry\<close>

record retry_state =
  rs_DesiredRevision :: string
  rs_Attempts :: int
  rs_LastFailureAt :: time

record decision =
  Allowed :: bool
  Exhausted :: bool
  Decision_Reason :: string

definition effective_max_attempts :: "failure_policy \<Rightarrow> int" where
  "effective_max_attempts policy = (case fp_MaxAttempts policy of
       Some n \<Rightarrow> if n > 0 then n else 1
     | None \<Rightarrow> 1)"

definition Decide :: "failure_policy \<Rightarrow> retry_state \<Rightarrow> time \<Rightarrow> int \<Rightarrow> decision" where
  "Decide policy state now backoff =
     (let maxAttempts = effective_max_attempts policy in
      if rs_Attempts state \<ge> maxAttempts then
        \<lparr>Allowed = False, Exhausted = True, Decision_Reason =
           ''maxAttempts '' @ itoa maxAttempts @ '' reached for desired revision '' @ rs_DesiredRevision state\<rparr>
      else if backoff > 0 \<and> rs_LastFailureAt state \<noteq> 0 \<and> now < rs_LastFailureAt state + backoff then
        \<lparr>Allowed = False, Exhausted = False, Decision_Reason = ''backoff window has not elapsed''\<rparr>
      else \<lparr>Allowed = True, Exhausted = False, Decision_Reason = []\<rparr>)"

subsection \<open>The order of Revisions\<close>

interpretation newest_first: strict_weak newer
  by unfold_locales (auto simp: newer_def split: if_splits)

lemma sorted_newest: "sorted_wrt (\<lambda>a b. \<not> newer b a) (sort_by newer revs)"
  by (rule newest_first.sorted_sort_by)

lemma not_newer_created: "\<not> newer a b \<Longrightarrow> rev_Created a \<le> rev_Created b"
  by (auto simp: newer_def split: if_splits)

subsection \<open>Properties\<close>

text \<open>Retention keeps the newest Revisions: nothing is lost, at most the limit is kept, and no
  deleted Revision is newer than a kept one.\<close>

theorem ApplyRetention_keeps_newest:
  "mset (ret_Keep (ApplyRetention revs limit)) + mset (ret_Delete (ApplyRetention revs limit)) = mset revs
   \<and> length (ret_Keep (ApplyRetention revs limit)) =
       (if limit \<le> 0 then length revs else min (nat limit) (length revs))
   \<and> list_all (\<lambda>k. list_all (\<lambda>d. rev_Created d \<le> rev_Created k) (ret_Delete (ApplyRetention revs limit)))
       (ret_Keep (ApplyRetention revs limit))"
proof -
  let ?s = "sort_by newer revs"
  have "list_all (\<lambda>k. list_all (\<lambda>d. rev_Created d \<le> rev_Created k) (drop n ?s)) (take n ?s)" for n
    using sorted_newest [of revs] sorted_wrt_append [of "\<lambda>a b. \<not> newer b a" "take n ?s" "drop n ?s"]
    by (auto simp: list_all_iff intro: not_newer_created)
  moreover have "mset (take n ?s) + mset (drop n ?s) = mset revs" for n
    by (metis append_take_drop_id mset_append mset_sort_by)
  moreover have "list_all (\<lambda>k. True) ?s" by (simp add: list_all_iff)
  ultimately show ?thesis by (auto simp: ApplyRetention_def Let_def min_def)
qed

text \<open>A rollback goes to the most recent earlier healthy Revision of the same Application, and is
  refused exactly when there is none.\<close>

theorem Target_most_recent_healthy:
  "case Target current history of
     Inl e \<Rightarrow> filter (candidate current) history = [] \<and> e = NoTarget (rev_ApplicationRef current)
   | Inr target \<Rightarrow>
       target \<in> set history \<and> rev_Name target \<noteq> rev_Name current \<and>
       rev_ApplicationRef target = rev_ApplicationRef current \<and> rev_Phase target = RevisionPhaseHealthy \<and>
       (rev_Created current = 0 \<or> rev_Created target < rev_Created current) \<and>
       list_all (\<lambda>r. \<not> newer r target) (filter (candidate current) history)"
proof (cases "sort_by newer (filter (candidate current) history)")
  case Nil
  then show ?thesis by (simp add: Target_def)
next
  case (Cons target rest)
  then have "target \<in> set (filter (candidate current) history)"
    by (metis list.set_intros(1) set_sort_by)
  moreover have "list_all (\<lambda>r. \<not> newer r target) (filter (candidate current) history)"
    using newest_first.sort_by_head_minimal [OF Cons] by (simp add: list_all_iff)
  ultimately show ?thesis
    using Cons by (auto simp: Target_def candidate_def split: if_splits)
qed

text \<open>Attempts are bounded: a retry is allowed only below the effective maximum, which is at
  least one, and after the backoff window; at the maximum the decision is final.\<close>

theorem Decide_bounded:
  "Allowed (Decide policy state now backoff) =
     (rs_Attempts state < effective_max_attempts policy \<and>
      (backoff \<le> 0 \<or> rs_LastFailureAt state = 0 \<or> rs_LastFailureAt state + backoff \<le> now))
   \<and> Exhausted (Decide policy state now backoff) = (effective_max_attempts policy \<le> rs_Attempts state)
   \<and> 1 \<le> effective_max_attempts policy
   \<and> (Decision_Reason (Decide policy state now backoff) = []) = Allowed (Decide policy state now backoff)"
  by (auto simp: Decide_def Let_def effective_max_attempts_def split: option.splits)

end
