(* ===== verification/Guards.thy ===== *)
theory Guards
  imports Planner Validate History Approval
begin

text \<open>
  The decisions of the Application controller that touch no cluster
  (\<open>internal/controller/application_controller.go\<close>, \<open>application_watches.go\<close>): the fingerprints
  an approval covers, the conflict guard, which managed objects are stale, the inventory that is
  recorded, the default namespace of rendered objects, the masking of Helm secrets, the retry guard,
  and the dependency guard with its search for a cycle.
\<close>

subsection \<open>Messages and failures\<close>

definition failure :: "string \<Rightarrow> string \<Rightarrow> bool \<Rightarrow> revision_failure" where
  "failure reason message retryable =
     \<lparr>fail_Reason = reason, fail_Message = message, fail_Resource = None, fail_Retryable = retryable\<rparr>"

text \<open>The message of a non-nil error.\<close>

definition safeMessage :: "string \<Rightarrow> string \<Rightarrow> string" where
  "safeMessage err fallback =
     (let message = redact_String err;
          message = (if message = [] then fallback else message)
      in if length message > 512 then take 512 message else message)"

definition accessFailure :: "api_error \<Rightarrow> string \<Rightarrow> string \<Rightarrow> bool \<Rightarrow> revision_failure" where
  "accessFailure err reason fallback retryable =
     (if IsForbidden err
      then failure ''Forbidden''
        (safeMessage (error_text err) ''Application service account is not allowed to manage a resource'') False
      else failure reason (safeMessage (error_text err) fallback) retryable)"

definition healthFailure :: "string \<Rightarrow> bool" where
  "healthFailure reason \<longleftrightarrow> reason \<in> {''HealthFailure'', ''HookFailed'', ''TimeoutFailure''}"

subsection \<open>Secrets in plans\<close>

fun redactValues :: "string \<Rightarrow> string list \<Rightarrow> string" where
  "redactValues text [] = text"
| "redactValues text (secret # secrets) =
     redactValues
       (if length secret \<ge> 4 then ReplaceAll text secret Placeholder
        else if text = secret then Placeholder else text) secrets"

definition redact_change :: "string list \<Rightarrow> plan_field_change \<Rightarrow> plan_field_change" where
  "redact_change secrets c =
     (let before = redactValues (fc_Before c) secrets; after = redactValues (fc_After c) secrets
      in if before \<noteq> fc_Before c \<or> after \<noteq> fc_After c
         then c\<lparr>fc_Before := before, fc_After := after, fc_Redacted := True\<rparr> else c)"

definition redactPlanValues :: "revision_plan \<Rightarrow> string list \<Rightarrow> revision_plan" where
  "redactPlanValues p secrets =
     (if secrets = [] then p
      else p\<lparr>plan_Resources := map (\<lambda>r. r\<lparr>prc_Changes := map (redact_change secrets) (prc_Changes r)\<rparr>)
               (plan_Resources p)\<rparr>)"

function mergeValues :: "gomap \<Rightarrow> gomap \<Rightarrow> gomap" where
  "mergeValues out [] = out"
| "mergeValues out ((k, v) # b) =
     mergeValues
       (case v of
          VMap bm \<Rightarrow> (case mget out k of
              VMap am \<Rightarrow> mset_key out k (VMap (mergeValues am bm))
            | _ \<Rightarrow> mset_key out k v)
        | _ \<Rightarrow> mset_key out k v) b"
  by pat_completeness auto
termination
proof (relation "measure (\<lambda>(_, b). entries_size b)")
  fix out k v b bm am
  assume "v = VMap bm"
  then show "((am, bm), out, (k, v) # b) \<in> measure (\<lambda>(_, b). entries_size b)"
    using entries_size_as_map [of "VMap bm"] by simp
qed simp_all

fun leafValues :: "lib \<Rightarrow> any \<Rightarrow> string list" where
  "leafValues L (VMap m) = concat (map (\<lambda>(k, v). leafValues L v) m)"
| "leafValues L (VList xs) = concat (map (leafValues L) xs)"
| "leafValues L VNil = []"
| "leafValues L (VBool b) = []"
| "leafValues L v = [Sprint L v]"

subsection \<open>Fingerprints\<close>

definition hash_key :: "lib \<Rightarrow> unstructured \<Rightarrow> string" where
  "hash_key L obj =
     GetAPIVersion L obj @ ''/'' @ GetKind L obj @ ''/'' @ GetNamespace L obj @ ''/'' @ GetName L obj"

definition hash_lt :: "lib \<Rightarrow> unstructured \<Rightarrow> unstructured \<Rightarrow> bool" where
  "hash_lt L a b = (hash_key L a < hash_key L b)"

definition desiredStateHash :: "lib \<Rightarrow> codec \<Rightarrow> unstructured list \<Rightarrow> string option" where
  "desiredStateHash L J objs = map_option (Sha256Hex L) (MarshalObjects J (sort_by (hash_lt L) objs))"

definition planDigest :: "lib \<Rightarrow> codec \<Rightarrow> string \<Rightarrow> plan \<Rightarrow> string list \<Rightarrow> string option" where
  "planDigest L J stateHash p secretValues =
     map_option (\<lambda>raw. Sha256Hex L (stateHash @ [CHR 0x0A] @ raw))
       (MarshalRevisionPlan J (redactPlanValues (RevisionPlan L p 0) secretValues))"

subsection \<open>Conflicts\<close>

definition mark_conflict :: "conflict_policy \<Rightarrow> plan_conflict \<Rightarrow> plan_conflict" where
  "mark_conflict policy c =
     (if pc_Manager c = LegacyFieldManager then c\<lparr>pc_Policy := ConflictPolicyAdopt\<rparr> else c\<lparr>pc_Policy := policy\<rparr>)"

definition markConflictPolicy :: "plan \<Rightarrow> conflict_policy \<Rightarrow> plan" where
  "markConflictPolicy p policy =
     p\<lparr>pl_Changes := map (\<lambda>c. c\<lparr>ch_Conflicts := map (mark_conflict policy) (ch_Conflicts c)\<rparr>) (pl_Changes p)\<rparr>"

definition conflict_failure_of :: "lib \<Rightarrow> change \<Rightarrow> plan_conflict \<Rightarrow> revision_failure" where
  "conflict_failure_of L c conflict = failure ''ConflictFailure''
     (''server-side apply conflict on '' @ APIVersion L (ch_ID c) @ ''/'' @ ID_Kind (ch_ID c) @ '' ''
      @ ID_Namespace (ch_ID c) @ ''/'' @ ID_Name (ch_ID c) @ '' managed by '' @ pc_Manager conflict) False"

definition conflictFailure :: "lib \<Rightarrow> plan \<Rightarrow> revision_failure option" where
  "conflictFailure L p =
     (case List.find (\<lambda>(c, conflict). pc_Policy conflict = ConflictPolicyFail)
         (concat (map (\<lambda>c. map (Pair c) (ch_Conflicts c)) (pl_Changes p))) of
        None \<Rightarrow> None
      | Some (c, conflict) \<Rightarrow> Some (conflict_failure_of L c conflict))"

subsection \<open>Inventory and namespaces\<close>

definition objectKinds :: "lib \<Rightarrow> unstructured list \<Rightarrow> gvk list" where
  "objectKinds L objs = UnionKinds L [map (GroupVersionKindOf L) objs]"

definition managedKinds :: "lib \<Rightarrow> gvk list \<Rightarrow> managed_kind list" where
  "managedKinds L kinds = map (\<lambda>k.
     if gvk_Group k = [] \<and> gvk_Version k = [] \<and> gvk_Kind k = [] then \<lparr>mk_APIVersion = [], mk_Kind = []\<rparr>
     else \<lparr>mk_APIVersion = GroupVersionString L (gvk_Group k) (gvk_Version k), mk_Kind = gvk_Kind k\<rparr>) kinds"

definition inventoryKinds :: "lib \<Rightarrow> unstructured list \<Rightarrow> rejected list \<Rightarrow> managed_kind list" where
  "inventoryKinds L desired kept =
     managedKinds L (UnionKinds L [objectKinds L desired @ map (\<lambda>r. GroupVersionKindOf L (Rejected_Object r)) kept])"

definition staleManagedObjects :: "lib \<Rightarrow> unstructured list \<Rightarrow> unstructured list \<Rightarrow> unstructured list \<Rightarrow> unstructured list" where
  "staleManagedObjects L desired desiredLive managed =
     (let keep = List.map_filter (object_id L) (desired @ desiredLive) in
      filter (\<lambda>obj. case FromObject L obj of Inl _ \<Rightarrow> False | Inr i \<Rightarrow> i \<notin> set keep) managed)"

fun defaultDestinationNamespace :: "lib \<Rightarrow> unstructured list \<Rightarrow> string \<Rightarrow> scopes \<Rightarrow> scope_error + unstructured list" where
  "defaultDestinationNamespace L [] namespace sc = Inr []"
| "defaultDestinationNamespace L (obj # objs) namespace sc =
     (if namespace = [] then Inr (obj # objs)
      else
        (case (if GetNamespace L obj \<noteq> [] then Inr obj
               else case Namespaced L sc obj of
                      Inl err \<Rightarrow> Inl err
                    | Inr namespaced \<Rightarrow> Inr (if namespaced then SetNamespace L obj namespace else obj)) of
           Inl err \<Rightarrow> Inl err
         | Inr obj' \<Rightarrow>
             (case defaultDestinationNamespace L objs namespace sc of
                Inl err \<Rightarrow> Inl err
              | Inr objs' \<Rightarrow> Inr (obj' # objs'))))"

definition effectiveServiceAccount :: "application \<Rightarrow> string \<Rightarrow> string" where
  "effectiveServiceAccount a defaultServiceAccount =
     (if aspec_ServiceAccountName (app_Spec a) \<noteq> [] then aspec_ServiceAccountName (app_Spec a)
      else defaultServiceAccount)"

subsection \<open>Retries\<close>

definition retryBackoff :: "revision \<Rightarrow> int" where
  "retryBackoff r = min (second * 2 ^ nat (min (rstatus_Attempts (rev_Status r)) 6)) (60 * second)"

definition retryBlocked :: "application \<Rightarrow> revision \<Rightarrow> time \<Rightarrow> revision_failure option \<times> bool" where
  "retryBlocked a r now =
     (if rev_Phase r \<noteq> RevisionPhaseFailed \<or> rstatus_Failure (rev_Status r) = None then (None, False)
      else
        (let lastFailure = (case rstatus_CompletedAt (rev_Status r) of Some t \<Rightarrow> t | None \<Rightarrow> 0);
             d = Decide (strategy_FailurePolicy (aspec_Strategy (app_Spec a)))
               \<lparr>rs_DesiredRevision = rev_SourceRevision r, rs_Attempts = rstatus_Attempts (rev_Status r),
                rs_LastFailureAt = lastFailure\<rparr> now (retryBackoff r)
         in if Allowed d then (None, False)
            else (Some (failure ''RetryBlocked'' (Decision_Reason d) False), Exhausted d)))"

subsection \<open>Dependencies\<close>

definition dependencyHealthy :: "application option \<Rightarrow> bool" where
  "dependencyHealthy dep = (case dep of
       None \<Rightarrow> False
     | Some d \<Rightarrow> astatus_ObservedGeneration (app_Status d) = om_Generation (app_Meta d) \<and>
         astatus_Health (app_Status d) = HealthStateHealthy \<and>
         astatus_DesiredRevision (app_Status d) \<noteq> [] \<and>
         astatus_DeployedRevision (app_Status d) = astatus_DesiredRevision (app_Status d))"

text \<open>The search shares its set of seen names between the branches, as the closure of the source
  does. Its fuel bounds the depth; \<open>None\<close> is a search that ran out of it.\<close>

type_synonym visit_result = "(string list option \<times> string list) option"

fun visit :: "nat \<Rightarrow> (string \<Rightarrow> string list option) \<Rightarrow> string \<Rightarrow> string \<Rightarrow> string list \<Rightarrow> string list \<Rightarrow> visit_result"
  and visit_all :: "nat \<Rightarrow> (string \<Rightarrow> string list option) \<Rightarrow> string \<Rightarrow> string list \<Rightarrow> string list \<Rightarrow> string list \<Rightarrow> visit_result" where
  "visit 0 succs start name path seen = None"
| "visit (Suc fuel) succs start name path seen =
     (if name = start \<and> path \<noteq> [] then Some (Some (path @ [name]), seen)
      else if name \<in> set seen then Some (None, seen)
      else case succs name of
             None \<Rightarrow> Some (None, name # seen)
           | Some deps \<Rightarrow> visit_all fuel succs start deps (path @ [name]) (name # seen))"
| "visit_all fuel succs start [] path seen = Some (None, seen)"
| "visit_all fuel succs start (dep # deps) path seen =
     (case visit fuel succs start dep path seen of
        None \<Rightarrow> None
      | Some (Some cycle, seen') \<Rightarrow> Some (Some cycle, seen')
      | Some (None, seen') \<Rightarrow> visit_all fuel succs start deps path seen')"

text \<open>The names the search follows: the start has the given dependencies, any other name those of
  its Application, if there is one.\<close>

definition dependency_succs :: "string \<Rightarrow> string list \<Rightarrow> (string \<rightharpoonup> application) \<Rightarrow> string \<Rightarrow> string list option" where
  "dependency_succs start deps byName name =
     (if name = start then Some deps else map_option (\<lambda>a. aspec_DependsOn (app_Spec a)) (byName name))"

definition dependencyCycle :: "nat \<Rightarrow> string \<Rightarrow> string list \<Rightarrow> (string \<rightharpoonup> application) \<Rightarrow> string option" where
  "dependencyCycle fuel start deps byName =
     (case visit fuel (dependency_succs start deps byName) start start [] [] of
        None \<Rightarrow> None
      | Some (Some cycle, _) \<Rightarrow> Some (Join '' -> '' cycle)
      | Some (None, _) \<Rightarrow> Some [])"

definition by_name :: "application list \<Rightarrow> string \<rightharpoonup> application" where
  "by_name apps = foldl (\<lambda>m a. m(app_Name a \<mapsto> a)) Map.empty apps"

text \<open>Every level of the search adds a new name to those seen, so one more than the number of names
  is enough fuel.\<close>

definition dependency_fuel :: "string list \<Rightarrow> application list \<Rightarrow> nat" where
  "dependency_fuel deps apps = Suc (Suc (length deps + length (concat (map (\<lambda>a. aspec_DependsOn (app_Spec a)) apps))))"

subsection \<open>The search for a cycle\<close>

definition edges :: "(string \<Rightarrow> string list option) \<Rightarrow> (string \<times> string) set" where
  "edges succs = {(x, y). \<exists>ds. succs x = Some ds \<and> y \<in> set ds}"

text \<open>Soundness: a reported cycle is a path along edges from where the search began to the start.\<close>

definition chain :: "(string \<Rightarrow> string list option) \<Rightarrow> string list \<Rightarrow> bool" where
  "chain succs xs \<longleftrightarrow> (\<forall>i. Suc i < length xs \<longrightarrow> (xs ! i, xs ! Suc i) \<in> edges succs)"

lemma chain_snoc:
  assumes "chain succs path" "path \<noteq> []" "(last path, y) \<in> edges succs"
  shows "chain succs (path @ [y])"
  unfolding chain_def
proof (intro allI impI)
  fix i
  assume i: "Suc i < length (path @ [y])"
  show "((path @ [y]) ! i, (path @ [y]) ! Suc i) \<in> edges succs"
  proof (cases "Suc i < length path")
    case True
    then show ?thesis using assms(1) by (simp add: chain_def nth_append)
  next
    case False
    then have "Suc i = length path" using i by simp
    then have "path ! i = last path" using assms(2) by (metis diff_Suc_1 last_conv_nth)
    then show ?thesis using assms(3) \<open>Suc i = length path\<close> by (simp add: nth_append)
  qed
qed

lemma chain_trancl:
  assumes "chain succs xs" "Suc 0 < length xs"
  shows "(hd xs, last xs) \<in> (edges succs)\<^sup>+"
  using assms
proof (induction xs rule: rev_induct)
  case (snoc x xs)
  have step: "(last xs, x) \<in> edges succs"
    using snoc.prems by (auto simp: chain_def nth_append last_conv_nth dest!: spec [of _ "length xs - 1"])
  show ?case
  proof (cases "Suc 0 < length xs")
    case True
    have "chain succs xs" using snoc.prems(1) unfolding chain_def by (metis Suc_lessD length_append_singleton less_SucI nth_append)
    then have "(hd xs, last xs) \<in> (edges succs)\<^sup>+" using snoc.IH True by blast
    then have "(hd xs, x) \<in> (edges succs)\<^sup>+" using step by (rule trancl_into_trancl)
    then show ?thesis using True by (cases xs) auto
  next
    case False
    then obtain y where "xs = [y]" using snoc.prems(2) by (cases xs) auto
    then show ?thesis using step by auto
  qed
qed simp

lemma visit_sound:
  "visit fuel succs start name path seen = Some (Some cycle, seen') \<Longrightarrow> chain succs (path @ [name]) \<Longrightarrow>
     chain succs cycle \<and> hd cycle = hd (path @ [name]) \<and> last cycle = start \<and> Suc 0 < length cycle"
  "visit_all fuel succs start deps path seen = Some (Some cycle, seen') \<Longrightarrow> path \<noteq> [] \<Longrightarrow>
     chain succs path \<Longrightarrow> (\<forall>d \<in> set deps. (last path, d) \<in> edges succs) \<Longrightarrow>
     chain succs cycle \<and> hd cycle = hd path \<and> last cycle = start \<and> Suc 0 < length cycle"
proof (induction fuel succs start name path seen and fuel succs start deps path seen
    arbitrary: cycle seen' and cycle seen' rule: visit_visit_all.induct)
  case (2 fuel succs start name path seen)
  show ?case
  proof (cases "name = start \<and> path \<noteq> []")
    case True
    then show ?thesis using 2(2,3) by auto
  next
    case False
    then obtain deps where deps: "name \<notin> set seen" "succs name = Some deps"
        "visit_all fuel succs start deps (path @ [name]) (name # seen) = Some (Some cycle, seen')"
      using 2(2) by (auto split: if_splits option.splits)
    have "\<forall>d \<in> set deps. (last (path @ [name]), d) \<in> edges succs" using deps(2) by (auto simp: edges_def)
    with 2(1) [OF False deps(1,2,3)] 2(3) show ?thesis by simp
  qed
next
  case (4 fuel succs start dep deps path seen)
  obtain r seen1 where v: "visit fuel succs start dep path seen = Some (r, seen1)"
    using 4(3) by (auto split: option.splits prod.splits)
  have "chain succs (path @ [dep])"
    using chain_snoc [of succs path dep] 4(4-6) by simp
  show ?case
  proof (cases r)
    case None
    then show ?thesis using 4(2) [OF v [unfolded None] refl refl] 4(3-6) v by simp
  next
    case (Some c)
    then have "c = cycle" using 4(3) v by simp
    then show ?thesis using 4(1) [of cycle seen1] v Some \<open>chain succs (path @ [dep])\<close> 4(4) by simp
  qed
qed simp_all

text \<open>Completeness: a search that finds nothing has closed what it newly saw under edges, and met
  the start nowhere.\<close>

definition closed_off :: "(string \<Rightarrow> string list option) \<Rightarrow> string \<Rightarrow> string set \<Rightarrow> string set \<Rightarrow> bool" where
  "closed_off succs start seen seen' \<longleftrightarrow> seen \<subseteq> seen' \<and>
     (\<forall>x \<in> seen' - seen. \<forall>ds. succs x = Some ds \<longrightarrow> set ds \<subseteq> seen' \<and> start \<notin> set ds)"

lemma closed_off_trans:
  "closed_off succs start a b \<Longrightarrow> closed_off succs start b c \<Longrightarrow> closed_off succs start a c"
  unfolding closed_off_def by (meson DiffI Diff_iff order_trans subset_iff)

lemma closed_off_new:
  assumes "closed_off succs start (insert n seen) seen'" "succs n = Some deps" "set deps \<subseteq> seen'" "start \<notin> set deps"
  shows "closed_off succs start seen seen'"
proof -
  have "set ds \<subseteq> seen' \<and> start \<notin> set ds" if x: "x \<in> seen' - seen" "succs x = Some ds" for x ds
  proof (cases "x = n")
    case True
    then show ?thesis using assms(2-4) x(2) by simp
  next
    case False
    then have "x \<in> seen' - insert n seen" using x(1) by simp
    then show ?thesis using assms(1) x(2) unfolding closed_off_def by blast
  qed
  moreover have "seen \<subseteq> seen'" using assms(1) by (simp add: closed_off_def)
  ultimately show ?thesis unfolding closed_off_def by blast
qed

lemma visit_closed:
  "visit fuel succs start name path seen = Some (None, seen') \<Longrightarrow>
     closed_off succs start (set seen) (set seen') \<and> name \<in> set seen' \<and> (path \<noteq> [] \<longrightarrow> name \<noteq> start)"
  "visit_all fuel succs start deps path seen = Some (None, seen') \<Longrightarrow> path \<noteq> [] \<Longrightarrow>
     closed_off succs start (set seen) (set seen') \<and> set deps \<subseteq> set seen' \<and> start \<notin> set deps"
proof (induction fuel succs start name path seen and fuel succs start deps path seen
    arbitrary: seen' and seen' rule: visit_visit_all.induct)
  case (2 fuel succs start name path seen)
  then have new: "\<not> (name = start \<and> path \<noteq> [])" by (auto split: if_splits)
  show ?case
  proof (cases "name \<in> set seen")
    case True
    then show ?thesis using 2(2) new by (auto simp: closed_off_def)
  next
    case False
    show ?thesis
    proof (cases "succs name")
      case None
      then show ?thesis using 2(2) new False by (auto simp: closed_off_def)
    next
      case (Some deps)
      then have "visit_all fuel succs start deps (path @ [name]) (name # seen) = Some (None, seen')"
        using 2(2) new False by (auto split: if_splits)
      with 2(1) [OF new False Some] have
        "closed_off succs start (set (name # seen)) (set seen')" "set deps \<subseteq> set seen'" "start \<notin> set deps"
        by simp_all
      then show ?thesis using closed_off_new [of succs start name "set seen" "set seen'"] Some new
        by (auto simp: closed_off_def)
    qed
  qed
next
  case (4 fuel succs start dep deps path seen)
  obtain seen1 where v: "visit fuel succs start dep path seen = Some (None, seen1)"
    using 4(3) by (auto split: option.splits prod.splits)
  then have rest: "visit_all fuel succs start deps path seen1 = Some (None, seen')" using 4(3) by simp
  from 4(1) [OF v] 4(2) [OF v refl refl rest] 4(4) show ?case
    using closed_off_trans [of succs start "set seen" "set seen1" "set seen'"] by (auto simp: closed_off_def)
qed (auto simp: closed_off_def)

text \<open>Termination: with more fuel than names left, the search answers.\<close>

lemma visit_fuel:
  assumes "finite U" "\<And>x ds. x \<in> U \<Longrightarrow> succs x = Some ds \<Longrightarrow> set ds \<subseteq> U"
  shows "name \<in> U \<Longrightarrow> card (U - set seen) < fuel \<Longrightarrow> visit fuel succs start name path seen \<noteq> None"
    and "set deps \<subseteq> U \<Longrightarrow> path \<noteq> [] \<Longrightarrow> card (U - set seen) < fuel \<Longrightarrow> visit_all fuel succs start deps path seen \<noteq> None"
  using assms
proof (induction fuel succs start name path seen and fuel succs start deps path seen
    rule: visit_visit_all.induct)
  case (2 fuel succs start name path seen)
  show ?case
  proof (cases "(name = start \<and> path \<noteq> []) \<or> name \<in> set seen \<or> succs name = None")
    case True
    then show ?thesis by auto
  next
    case False
    then obtain deps where deps: "\<not> (name = start \<and> path \<noteq> [])" "name \<notin> set seen" "succs name = Some deps" by auto
    have "U - set (name # seen) = (U - set seen) - {name}" by auto
    then have "card (U - set (name # seen)) < fuel"
      using deps(2) 2(2,3,4) card_Diff1_less [of "U - set seen" name] by simp
    then show ?thesis using 2(1) [OF deps] 2(2,4,5) deps by auto
  qed
next
  case (4 fuel succs start dep deps path seen)
  obtain r seen1 where v: "visit fuel succs start dep path seen = Some (r, seen1)"
    using 4(1) 4(3,5,6,7) by (auto simp: not_None_eq)
  show ?case
  proof (cases r)
    case None
    then have "set seen \<subseteq> set seen1" using visit_closed(1) v by (auto simp: closed_off_def)
    then have "card (U - set seen1) \<le> card (U - set seen)" using 4(6) by (intro card_mono) auto
    then show ?thesis using 4(2) [OF v [unfolded None] refl refl] 4(3-7) v None by auto
  qed (use v in simp)
qed simp_all

lemma by_name_member: "by_name apps name = Some a \<Longrightarrow> a \<in> set apps"
proof (induction apps arbitrary: a rule: rev_induct)
  case (snoc b apps)
  then show ?case by (auto simp: by_name_def split: if_splits)
qed (simp add: by_name_def)

lemma Join_nonempty: "sep \<noteq> [] \<Longrightarrow> Suc 0 < length xs \<Longrightarrow> Join sep xs \<noteq> []"
  by (cases xs; cases "tl xs") auto

lemma search_answers:
  assumes "succs = dependency_succs start deps (by_name apps)"
  obtains r seen' where "visit (dependency_fuel deps apps) succs start start [] [] = Some (r, seen')"
proof -
  let ?names = "start # deps @ concat (map (\<lambda>a. aspec_DependsOn (app_Spec a)) apps)"
  have "card (set ?names - set []) \<le> length ?names" by (simp only: set_empty2 Diff_empty card_length set_simps(1))
  then have "card (set ?names - set []) < dependency_fuel deps apps" by (simp add: dependency_fuel_def)
  moreover have "set ds \<subseteq> set ?names" if "succs x = Some ds" for x ds
    using that assms by (auto simp: dependency_succs_def split: if_splits dest!: by_name_member)
  ultimately have "visit (dependency_fuel deps apps) succs start start [] [] \<noteq> None"
    using visit_fuel(1) [of "set ?names" succs start "[]" "dependency_fuel deps apps" start "[]"] by simp
  then show thesis using that by auto
qed

lemma closed_no_cycle:
  assumes "closed_off succs start {} seen'" "start \<in> seen'"
  shows "(start, start) \<notin> (edges succs)\<^sup>+"
proof
  assume "(start, start) \<in> (edges succs)\<^sup>+"
  then obtain y where y: "(start, y) \<in> (edges succs)\<^sup>*" "(y, start) \<in> edges succs"
    by (meson tranclD2)
  from y(1) have "y \<in> seen'"
  proof (induction rule: rtrancl_induct)
    case (step a b)
    then show ?case using assms(1) by (auto simp: closed_off_def edges_def)
  qed (rule assms(2))
  then show False using y(2) assms(1) by (auto simp: closed_off_def edges_def)
qed

subsection \<open>Conflicts, stale objects and retries\<close>

lemma find_None_iff_none: "List.find P xs = None \<longleftrightarrow> (\<forall>x \<in> set xs. \<not> P x)"
  by (auto simp: find_None_iff)

lemma conflictFailure_None:
  "conflictFailure L p = None \<longleftrightarrow>
     (\<forall>c \<in> set (pl_Changes p). \<forall>x \<in> set (ch_Conflicts c). pc_Policy x \<noteq> ConflictPolicyFail)"
proof -
  let ?pairs = "concat (map (\<lambda>c. map (Pair c) (ch_Conflicts c)) (pl_Changes p))"
  have "conflictFailure L p = None \<longleftrightarrow> List.find (\<lambda>(c, conflict). pc_Policy conflict = ConflictPolicyFail) ?pairs = None"
    by (simp add: conflictFailure_def split: option.splits)
  then show ?thesis by (auto simp: find_None_iff_none)
qed

lemma staleManagedObjects_fresh:
  assumes "obj \<in> set (staleManagedObjects L desired desiredLive managed)"
  shows "obj \<in> set managed \<and> (\<exists>i. FromObject L obj = Inr i \<and> i \<notin> ids_of L desired \<union> ids_of L desiredLive)"
  using assms
  by (force simp: staleManagedObjects_def Let_def set_map_filter object_id_Some_iff ids_of_def split: sum.splits)

lemma retryBackoff_bounds:
  assumes "0 \<le> rstatus_Attempts (rev_Status r)"
  shows "second \<le> retryBackoff r \<and> retryBackoff r \<le> 60 * second"
proof -
  have "(1::int) \<le> 2 ^ nat (min (rstatus_Attempts (rev_Status r)) 6)" by simp
  then have "second * 1 \<le> second * 2 ^ nat (min (rstatus_Attempts (rev_Status r)) 6)"
    by (intro mult_left_mono) (simp_all add: second_def)
  then show ?thesis by (simp add: retryBackoff_def second_def)
qed

text \<open>A Revision that failed was attempted at least once, so its first retry waits two seconds, not
  the one second the source's comment names.\<close>

lemma first_retry_waits_two_seconds: "rstatus_Attempts (rev_Status r) = 1 \<Longrightarrow> retryBackoff r = 2 * second"
  by (simp add: retryBackoff_def second_def)

text \<open>Masking depends on the order of the secret values: with the shorter of two overlapping values
  first, the rest of the longer one stays readable. \<open>leafValues\<close> collects the values of a map in the
  order of a Go map iteration, which varies from run to run.\<close>

lemma masking_depends_on_order:
  "redactValues ''tokens3cret'' [''token'', ''tokens3cret''] = ''REDACTEDs3cret''"
  "redactValues ''tokens3cret'' [''tokens3cret'', ''token''] = ''REDACTED''"
  by code_simp+

subsection \<open>Properties\<close>

text \<open>C17. The dependency guard always answers and is exact: the search for a dependency cycle ends,
  and it reports a cycle exactly when the Application depends on itself through any number of
  Applications.\<close>

theorem dependencyCycle_correct:
  "dependencyCycle (dependency_fuel deps apps) start deps (by_name apps) \<noteq> None
   \<and> (dependencyCycle (dependency_fuel deps apps) start deps (by_name apps) \<noteq> Some [])
     = ((start, start) \<in> (edges (dependency_succs start deps (by_name apps)))\<^sup>+)"
proof -
  let ?succs = "dependency_succs start deps (by_name apps)"
  obtain r seen' where v: "visit (dependency_fuel deps apps) ?succs start start [] [] = Some (r, seen')"
    by (rule search_answers [OF refl])
  show ?thesis
  proof (cases r)
    case None
    then have "closed_off ?succs start {} (set seen')" "start \<in> set seen'"
      using visit_closed(1) [of "dependency_fuel deps apps" ?succs start start "[]" "[]" seen'] v by simp_all
    then show ?thesis using closed_no_cycle v None by (simp add: dependencyCycle_def)
  next
    case (Some cycle)
    have "chain ?succs [start]" by (simp add: chain_def)
    then have c: "chain ?succs cycle" "hd cycle = start" "last cycle = start" "Suc 0 < length cycle"
      using visit_sound(1) [OF v [unfolded Some]] by simp_all
    then have "(start, start) \<in> (edges ?succs)\<^sup>+" using chain_trancl [of ?succs cycle] by simp
    then show ?thesis using Join_nonempty [of "'' -> ''" cycle] c(4) v Some by (simp add: dependencyCycle_def)
  qed
qed

text \<open>Under the \<open>fail\<close> conflict policy a plan passes the guard exactly when every conflict is with
  the legacy manager alone; any other owner stops the deployment before anything is applied.\<close>

theorem conflict_guard_exact:
  "(conflictFailure L (markConflictPolicy p ConflictPolicyFail) = None) =
     list_all (\<lambda>c. list_all (\<lambda>x. pc_Manager x = LegacyFieldManager) (ch_Conflicts c)) (pl_Changes p)"
proof -
  have "pc_Policy (mark_conflict ConflictPolicyFail x) \<noteq> ConflictPolicyFail \<longleftrightarrow> pc_Manager x = LegacyFieldManager" for x
    by (simp add: mark_conflict_def)
  then show ?thesis by (simp add: conflictFailure_None markConflictPolicy_def list_all_iff)
qed

text \<open>C15. Pruning never deletes what is desired: whatever the inventory lists, the objects that
  \<open>staleManagedObjects\<close> and \<open>prune.Plan\<close> let through are managed ones whose identity no desired and
  no desired live object has.\<close>

theorem prune_never_deletes_desired:
  "set (Eligible (Plan L (staleManagedObjects L desired desiredLive managed) policy)) \<subseteq>
     {obj \<in> set managed. \<exists>i. FromObject L obj = Inr i \<and> i \<notin> ids_of L desired \<union> ids_of L desiredLive}"
proof
  fix obj
  assume "obj \<in> set (Eligible (Plan L (staleManagedObjects L desired desiredLive managed) policy))"
  then have "obj \<in> set (staleManagedObjects L desired desiredLive managed)"
    by (auto simp: Plan_def Let_def plan_loop_eq set_Prune)
  then show "obj \<in> {obj \<in> set managed. \<exists>i. FromObject L obj = Inr i \<and> i \<notin> ids_of L desired \<union> ids_of L desiredLive}"
    using staleManagedObjects_fresh by blast
qed

text \<open>A failed Revision is never stuck waiting: one minute after it failed it is either allowed
  to retry or has used up its attempts, and exhaustion does not depend on the time.\<close>

theorem retry_decided_within_a_minute:
  assumes "rev_Phase r = RevisionPhaseFailed" "rstatus_Failure (rev_Status r) = Some f"
    and "rstatus_CompletedAt (rev_Status r) = Some t" "0 \<le> rstatus_Attempts (rev_Status r)"
    and "t + 60 * second \<le> now"
  shows "(retryBlocked a r now = (None, False)
      \<and> rstatus_Attempts (rev_Status r) < effective_max_attempts (strategy_FailurePolicy (aspec_Strategy (app_Spec a))))
    \<or> (snd (retryBlocked a r now)
      \<and> effective_max_attempts (strategy_FailurePolicy (aspec_Strategy (app_Spec a))) \<le> rstatus_Attempts (rev_Status r))"
  using assms retryBackoff_bounds [OF assms(4)]
  by (auto simp: retryBlocked_def Decide_def Let_def)

definition failed_revision :: revision where
  "failed_revision = upd_rstatus (\<lambda>s. s\<lparr>rstatus_Phase := RevisionPhaseFailed, rstatus_Attempts := 1,
     rstatus_CompletedAt := Some second, rstatus_Failure := Some (failure ''r'' ''m'' True)\<rparr>) zero_revision"

theorem retry_decided_within_a_minute_witness:
  "(retryBlocked zero_application failed_revision (61 * second) = (None, False)
      \<and> rstatus_Attempts (rev_Status failed_revision)
        < effective_max_attempts (strategy_FailurePolicy (aspec_Strategy (app_Spec zero_application))))
    \<or> (snd (retryBlocked zero_application failed_revision (61 * second))
      \<and> effective_max_attempts (strategy_FailurePolicy (aspec_Strategy (app_Spec zero_application)))
        \<le> rstatus_Attempts (rev_Status failed_revision))"
  by (rule retry_decided_within_a_minute [of _ "failure ''r'' ''m'' True" second])
    (simp_all add: failed_revision_def second_def)

end
