(* ===== verification/Controller_Base.thy ===== *)
theory Controller_Base
  imports Guards
begin

text \<open>
  What the Application controller's handlers share: the API it works against, the record of the
  objects a reconcile holds in memory, and the writes that end a reconcile
  (\<open>internal/controller/application_controller.go\<close> and \<open>application_rollback.go\<close>).

  The clusters are a parameter. \<open>'w\<close> is the state of the world: the tenant's cluster, the stored
  Applications and Revisions, the clock, the recorded Events and the notification queue. The record
  \<open>api\<close> holds every request the controller makes of it; a read answers from the world, a write takes
  it to a new one. Nothing is assumed of these functions. A status update keeps the object in memory
  as it was written, apart from its resource version, which the model does not carry.
\<close>

record secret =
  sec_Labels :: strmap
  sec_Data :: strmap

record notify_target =
  nt_Type :: notification_sink_type
  nt_URL :: string
  nt_HMACKey :: string

record notify_message =
  msg_Event :: notification_event
  msg_Application :: string
  msg_Namespace :: string
  msg_Revision :: string
  msg_SourceRevision :: string
  msg_Message :: string
  msg_Plan :: plan_summary
  msg_Time :: time
  msg_ApproveCommand :: string

record cause =
  cs_Resource :: resource_id
  cs_Reason :: string
  cs_Message :: string
  cs_Chain :: "resource_id list"
  cs_Fallback :: bool

record 'w api =
  clock :: "'w \<Rightarrow> time"
  \<comment> \<open>as the Application's service account\<close>
  tn_Apply :: "'w ssa"
  tn_Get :: "gvk \<Rightarrow> string \<Rightarrow> string \<Rightarrow> 'w \<Rightarrow> api_error + unstructured"
  tn_Delete :: "unstructured \<Rightarrow> 'w \<Rightarrow> 'w \<times> api_error option"
  tn_Reader :: "'w \<Rightarrow> reader"
  tn_Diagnose :: "string \<Rightarrow> health_result list \<Rightarrow> unstructured list \<Rightarrow> 'w \<Rightarrow> cause list"
  \<comment> \<open>as the controller\<close>
  ct_GetApplication :: "string \<Rightarrow> string \<Rightarrow> 'w \<Rightarrow> api_error + application"
  ct_ListApplications :: "string \<Rightarrow> 'w \<Rightarrow> api_error + application list"
  ct_PatchApplication :: "application \<Rightarrow> application \<Rightarrow> 'w \<Rightarrow> 'w \<times> (api_error + application)"
  ct_UpdateApplicationStatus :: "application \<Rightarrow> 'w \<Rightarrow> 'w \<times> api_error option"
  ct_GetRevision :: "string \<Rightarrow> string \<Rightarrow> 'w \<Rightarrow> api_error + revision"
  ct_ListRevisions :: "string \<Rightarrow> string \<Rightarrow> 'w \<Rightarrow> api_error + revision list"
  ct_CreateRevision :: "revision \<Rightarrow> 'w \<Rightarrow> 'w \<times> (api_error + revision)"
  ct_UpdateRevision :: "revision \<Rightarrow> 'w \<Rightarrow> 'w \<times> api_error option"
  ct_UpdateRevisionStatus :: "revision \<Rightarrow> 'w \<Rightarrow> 'w \<times> api_error option"
  ct_DeleteRevision :: "revision \<Rightarrow> 'w \<Rightarrow> 'w \<times> api_error option"
  ct_Impersonate :: "(string \<Rightarrow> string \<Rightarrow> api_error option) option" \<comment> \<open>None when not configured\<close>
  ct_DefaultServiceAccount :: string
  ct_SetControllerReference :: "application \<Rightarrow> revision \<Rightarrow> api_error + revision"
  ct_ListHealthChecks :: "'w \<Rightarrow> api_error + health_check list"
  ct_GetNotificationSink :: "string \<Rightarrow> string \<Rightarrow> 'w \<Rightarrow> api_error + (notification_sink_type \<times> string)"
  ct_GetSecret :: "string \<Rightarrow> string \<Rightarrow> 'w \<Rightarrow> api_error + secret"
  ct_Event :: "application \<Rightarrow> event \<Rightarrow> 'w \<Rightarrow> 'w"
  ct_Notifier :: bool
  ct_Enqueue :: "notify_target \<Rightarrow> notify_message \<Rightarrow> 'w \<Rightarrow> 'w \<times> bool"
  ct_DriftResyncInterval :: int
  ct_Cel :: cel
  url_Parse :: "string \<Rightarrow> (string \<times> string) option" \<comment> \<open>scheme and host\<close>
  \<comment> \<open>texts of library errors\<close>
  ParseGroupVersionError :: "string \<Rightarrow> string"
  MarshalError_text :: string
  NormalizeError_text :: "normalize_error \<Rightarrow> string"
  Quote :: "string \<Rightarrow> string"

text \<open>What a reconcile holds: its Application, its Revision, and the world.\<close>

record 'w ctl =
  c_app :: application
  c_rev :: revision
  c_world :: 'w

record rollback_hold =
  hold_desired :: string
  hold_manual :: bool

definition event :: "'w api \<Rightarrow> event_type \<Rightarrow> string \<Rightarrow> string \<Rightarrow> 'w ctl \<Rightarrow> 'w ctl" where
  "event E eventType reason message s =
     s\<lparr>c_world := ct_Event E (c_app s) (eventType, reason, redact_String message) (c_world s)\<rparr>"

subsection \<open>Conditions\<close>

definition ReadyCondition :: string where
  "ReadyCondition = ''Ready''"

definition setReady :: "lib \<Rightarrow> application \<Rightarrow> condition_status \<Rightarrow> string \<Rightarrow> string \<Rightarrow> application" where
  "setReady L a state reason message =
     upd_status (\<lambda>s. s\<lparr>astatus_Conditions := SetStatusCondition L (astatus_Conditions s)
       \<lparr>cond_Type = ReadyCondition, cond_Status = state, cond_Reason = reason, cond_Message = message,
        cond_ObservedGeneration = om_Generation (app_Meta a)\<rparr>\<rparr>) a"

definition markApplicationFailure :: "lib \<Rightarrow> application \<Rightarrow> string \<Rightarrow> string \<Rightarrow> application" where
  "markApplicationFailure L a reason message =
     setReady L (upd_status (\<lambda>s. s\<lparr>astatus_Diagnosis := [], astatus_ObservedGeneration := om_Generation (app_Meta a),
         astatus_State := HealthStateDegraded, astatus_Health := HealthStateDegraded,
         astatus_Sync := SyncStateOutOfSync\<rparr>) a)
       ConditionFalse reason message"

subsection \<open>Writes\<close>

definition updateRevisionStatus :: "'w api \<Rightarrow> 'w ctl \<Rightarrow> 'w ctl \<times> api_error option" where
  "updateRevisionStatus E s =
     (let (w, err) = ct_UpdateRevisionStatus E (c_rev s) (c_world s) in (s\<lparr>c_world := w\<rparr>, err))"

definition updateApplicationStatus :: "'w api \<Rightarrow> rollback_hold option \<Rightarrow> 'w ctl \<Rightarrow> 'w ctl \<times> api_error option" where
  "updateApplicationStatus E hold s =
     (let a = (case hold of
           None \<Rightarrow> c_app s
         | Some h \<Rightarrow> upd_status (\<lambda>st. st\<lparr>astatus_DesiredRevision := hold_desired h,
             astatus_Sync := (if astatus_Sync st = SyncStateSynced then SyncStateOutOfSync else astatus_Sync st)\<rparr>)
             (c_app s));
          (w, err) = ct_UpdateApplicationStatus E a (c_world s)
      in (s\<lparr>c_app := a, c_world := w\<rparr>, err))"

text \<open>Both status writes, the Revision's first.\<close>

definition write_status :: "'w api \<Rightarrow> rollback_hold option \<Rightarrow> 'w ctl \<Rightarrow> 'w ctl \<times> api_error option" where
  "write_status E hold s =
     (case updateRevisionStatus E s of
        (s, Some err) \<Rightarrow> (s, Some err)
      | (s, None) \<Rightarrow> updateApplicationStatus E hold s)"

definition updateKeepingStatus :: "'w api \<Rightarrow> 'w ctl \<Rightarrow> 'w ctl \<times> api_error option" where
  "updateKeepingStatus E s =
     (let a = c_app s in
      case ct_GetApplication E (app_Namespace a) (app_Name a) (c_world s) of
        Inl err \<Rightarrow> (s, Some err)
      | Inr fresh \<Rightarrow>
          (case ct_PatchApplication E (a\<lparr>app_Status := app_Status fresh\<rparr>) fresh (c_world s) of
             (w, Inl err) \<Rightarrow> (s\<lparr>c_world := w\<rparr>, Some err)
           | (w, Inr patched) \<Rightarrow> (s\<lparr>c_app := patched\<lparr>app_Status := app_Status a\<rparr>, c_world := w\<rparr>, None)))"

subsection \<open>Notifications\<close>

definition notificationTarget :: "'w api \<Rightarrow> string \<Rightarrow> string \<Rightarrow> 'w \<Rightarrow> string + notify_target" where
  "notificationTarget E namespace name w =
     (case ct_GetNotificationSink E namespace name w of
        Inl err \<Rightarrow> Inl (''NotificationSink '' @ name @ '': '' @ error_text err)
      | Inr (ty, secretRef) \<Rightarrow>
          (case ct_GetSecret E namespace secretRef w of
             Inl err \<Rightarrow> Inl (''NotificationSink '' @ name @ '' secret: '' @ error_text err)
           | Inr sec \<Rightarrow>
               (let target = \<lparr>nt_Type = ty, nt_URL = get_str (sec_Data sec) ''url'',
                              nt_HMACKey = get_str (sec_Data sec) ''hmacKey''\<rparr>
                in if (case url_Parse E (nt_URL target) of
                         None \<Rightarrow> True
                       | Some (sch, host) \<Rightarrow> sch \<noteq> ''https'' \<or> host = [])
                   then Inl (''NotificationSink '' @ name @ '' secret must hold an https url'')
                   else if nt_Type target = NotificationSinkWebhook \<and> nt_HMACKey target = []
                   then Inl (''NotificationSink '' @ name @ '' secret must hold an hmacKey for webhook signing'')
                   else Inr target)))"

definition notify_body :: "notification_event \<Rightarrow> string \<Rightarrow> 'w api \<Rightarrow> 'w ctl \<Rightarrow> notify_message" where
  "notify_body ev message E s = \<lparr>msg_Event = ev, msg_Application = app_Name (c_app s),
     msg_Namespace = app_Namespace (c_app s), msg_Revision = rev_Name (c_rev s),
     msg_SourceRevision = rev_SourceRevision (c_rev s), msg_Message = redact_String message,
     msg_Plan = plan_Summary (rstatus_Plan (rev_Status (c_rev s))), msg_Time = clock E (c_world s),
     msg_ApproveCommand = (if ev = NotificationAwaitingApproval
       then ''ksync approve '' @ app_Name (c_app s) @ '' -n '' @ app_Namespace (c_app s) @ '' --revision '' @ rev_Name (c_rev s)
       else [])\<rparr>"

fun notify_loop :: "'w api \<Rightarrow> notification_event \<Rightarrow> string \<Rightarrow> notification_subscription list \<Rightarrow> condition \<Rightarrow> 'w ctl
    \<Rightarrow> 'w ctl \<times> condition" where
  "notify_loop E ev message [] c s = (s, c)"
| "notify_loop E ev message (sub # subs) c s =
     (case notificationTarget E (app_Namespace (c_app s)) (sub_SinkRef sub) (c_world s) of
        Inl err \<Rightarrow> notify_loop E ev message subs
          (c\<lparr>cond_Status := ConditionFalse, cond_Reason := ''SinkInvalid'',
             cond_Message := safeMessage err ''A notification sink is invalid''\<rparr>) s
      | Inr target \<Rightarrow>
          if \<not> ct_Notifier E \<or> ev \<notin> set (sub_Events sub) then notify_loop E ev message subs c s
          else
            (case ct_Enqueue E target (notify_body ev message E s) (c_world s) of
               (w, True) \<Rightarrow> notify_loop E ev message subs c (s\<lparr>c_world := w\<rparr>)
             | (w, False) \<Rightarrow> notify_loop E ev message subs c
                 (event E EventWarning ''NotificationDropped''
                    (''Notification to sink '' @ sub_SinkRef sub @ '' was dropped: the queue is full'')
                    (s\<lparr>c_world := w\<rparr>))))"

definition notify :: "'w api \<Rightarrow> lib \<Rightarrow> notification_event \<Rightarrow> string \<Rightarrow> 'w ctl \<Rightarrow> 'w ctl" where
  "notify E L ev message s =
     (if aspec_Notifications (app_Spec (c_app s)) = [] then s
      else
        (let c = \<lparr>cond_Type = ''NotificationsReady'', cond_Status = ConditionTrue, cond_Reason = ''SinksReady'',
               cond_Message = ''Notification sinks are configured'',
               cond_ObservedGeneration = om_Generation (app_Meta (c_app s))\<rparr>;
             (s, c) = notify_loop E ev message (aspec_Notifications (app_Spec (c_app s))) c s
         in s\<lparr>c_app := upd_status (\<lambda>st. st\<lparr>astatus_Conditions := SetStatusCondition L (astatus_Conditions st) c\<rparr>) (c_app s)\<rparr>))"

subsection \<open>Holding and lifting\<close>

definition applicationRevisions :: "'w api \<Rightarrow> application \<Rightarrow> 'w \<Rightarrow> api_error + revision list" where
  "applicationRevisions E a w =
     (case ct_ListRevisions E (app_Namespace a) (app_Name a) w of
        Inl err \<Rightarrow> Inl err
      | Inr rs \<Rightarrow> Inr (filter (\<lambda>r. rev_ApplicationRef r = app_Name a) rs))"

definition hold_condition :: "bool \<Rightarrow> string \<Rightarrow> condition" where
  "hold_condition manual target =
     \<lparr>cond_Type = RolledBackCondition, cond_Status = ConditionTrue, cond_Reason = fst (rollbackWording manual),
      cond_Message = ''Rolled back '' @ snd (rollbackWording manual) @ '' to source revision '' @ target,
      cond_ObservedGeneration = 0\<rparr>"

definition held_revision :: "lib \<Rightarrow> condition \<Rightarrow> revision \<Rightarrow> revision" where
  "held_revision L c r = upd_rstatus (\<lambda>s. s\<lparr>rstatus_Phase := RevisionPhaseFailed,
     rstatus_Failure := (case rstatus_Failure s of None \<Rightarrow> Some (failure ''RolledBack'' (cond_Message c) False) | Some f \<Rightarrow> Some f),
     rstatus_Conditions := SetStatusCondition L (rstatus_Conditions s)
       (c\<lparr>cond_ObservedGeneration := om_Generation (rev_Meta r)\<rparr>)\<rparr>) r"

fun hold_loop :: "'w api \<Rightarrow> lib \<Rightarrow> condition \<Rightarrow> string \<Rightarrow> string \<Rightarrow> revision list \<Rightarrow> 'w \<Rightarrow> 'w \<times> api_error option" where
  "hold_loop E L c targetName from [] w = (w, None)"
| "hold_loop E L c targetName from (r # rs) w =
     (if rev_Name r = targetName \<or> rev_SourceRevision r \<noteq> from then hold_loop E L c targetName from rs w
      else if (case heldBy L r of Some held \<Rightarrow> cond_Reason held = cond_Reason c | None \<Rightarrow> False)
              \<and> rev_Phase r = RevisionPhaseFailed
      then hold_loop E L c targetName from rs w
      else
        (case ct_UpdateRevisionStatus E (held_revision L c r) w of
           (w, Some err) \<Rightarrow> (w, Some err)
         | (w, None) \<Rightarrow> hold_loop E L c targetName from rs w))"

definition holdReplaced :: "'w api \<Rightarrow> lib \<Rightarrow> rollback_request \<Rightarrow> 'w ctl \<Rightarrow> 'w ctl \<times> api_error option" where
  "holdReplaced E L req s =
     (let target = c_rev s in
      if req_from req = [] \<or> req_from req = rev_SourceRevision target then (s, None)
      else
        (case applicationRevisions E (c_app s) (c_world s) of
           Inl err \<Rightarrow> (s, Some err)
         | Inr revisions \<Rightarrow>
             (let (w, err) = hold_loop E L (hold_condition (\<not> automatic req) (rev_SourceRevision target))
                    (rev_Name target) (req_from req) revisions (c_world s)
              in (s\<lparr>c_world := w\<rparr>, err))))"

definition liftHold :: "'w api \<Rightarrow> lib \<Rightarrow> string \<Rightarrow> 'w ctl \<Rightarrow> 'w ctl \<times> api_error option" where
  "liftHold E L why s =
     (let s = s\<lparr>c_rev := upd_rstatus (\<lambda>st. st\<lparr>
            rstatus_Conditions := RemoveStatusCondition L (rstatus_Conditions st) RolledBackCondition,
            rstatus_Failure := None, rstatus_Phase := RevisionPhasePending\<rparr>) (c_rev s)\<rparr>
      in case updateRevisionStatus E s of
           (s, Some err) \<Rightarrow> (s, Some err)
         | (s, None) \<Rightarrow> (event E EventNormal ''RollbackHoldLifted''
             (''Hold on source revision '' @ rev_SourceRevision (c_rev s) @ '' lifted by '' @ why) s, None))"

fun fail_rolling_back :: "'w api \<Rightarrow> string \<Rightarrow> revision list \<Rightarrow> 'w \<Rightarrow> 'w \<times> api_error option" where
  "fail_rolling_back E from [] w = (w, None)"
| "fail_rolling_back E from (r # rs) w =
     (if rev_SourceRevision r = from \<and> rev_Phase r = RevisionPhaseRollingBack then
        (case ct_UpdateRevisionStatus E (upd_rstatus (\<lambda>s. s\<lparr>rstatus_Phase := RevisionPhaseFailed\<rparr>) r) w of
           (w, Some err) \<Rightarrow> (w, Some err)
         | (w, None) \<Rightarrow> fail_rolling_back E from rs w)
      else fail_rolling_back E from rs w)"

definition abandonRollback :: "'w api \<Rightarrow> rollback_request \<Rightarrow> string \<Rightarrow> 'w ctl \<Rightarrow> 'w ctl \<times> api_error option" where
  "abandonRollback E req why s =
     (case
        (if automatic req \<and> req_from req \<noteq> [] then
           (case applicationRevisions E (c_app s) (c_world s) of
              Inl err \<Rightarrow> (c_world s, Some err)
            | Inr revisions \<Rightarrow> fail_rolling_back E (req_from req) revisions (c_world s))
         else (c_world s, None)) of
        (w, Some err) \<Rightarrow> (s\<lparr>c_world := w\<rparr>, Some err)
      | (w, None) \<Rightarrow>
          (case updateKeepingStatus E (s\<lparr>c_world := w, c_app := clearRollbackRequest (c_app s)\<rparr>) of
             (s, Some err) \<Rightarrow> (s, Some err)
           | (s, None) \<Rightarrow> (event E EventWarning ''RollbackAbandoned''
               (safeMessage (''rollback to source revision '' @ req_target req @ '' was abandoned: '' @ why)
                  ''Rollback was abandoned'') s, None)))"

definition reportHold :: "'w api \<Rightarrow> lib \<Rightarrow> rollback_hold \<Rightarrow> health_state \<Rightarrow> health_state \<Rightarrow> 'w ctl \<Rightarrow> 'w ctl \<times> api_error option" where
  "reportHold E L hold health state s =
     (let a = upd_status (\<lambda>st. st\<lparr>astatus_Health := health, astatus_State := state, astatus_Sync := SyncStateOutOfSync\<rparr>) (c_app s);
          a = setReady L a ConditionFalse ''RolledBack'' (holdMessage (hold_manual hold))
      in updateApplicationStatus E (Some hold) (s\<lparr>c_app := a\<rparr>))"

subsection \<open>Failing\<close>

definition rollbackTarget :: "'w api \<Rightarrow> 'w ctl \<Rightarrow> api_error + (target_error + revision)" where
  "rollbackTarget E s =
     (case applicationRevisions E (c_app s) (c_world s) of
        Inl err \<Rightarrow> Inl err
      | Inr revisions \<Rightarrow> Inr (Target (c_rev s) revisions))"

definition noRollbackTargetMessage :: string where
  "noRollbackTargetMessage = ''no previous healthy Revision to roll back to''"

text \<open>What a failure does about rolling back: the failure to record, whether a rollback was queued,
  or the error that ends the reconcile.\<close>

definition failure_rollback :: "'w api \<Rightarrow> revision_failure \<Rightarrow> 'w ctl \<Rightarrow> 'w ctl \<times> (api_error + revision_failure \<times> bool)" where
  "failure_rollback E f s =
     (let request = rollbackRequestOf (c_app s) in
      if active request then
        (if \<not> fail_Retryable f then
           (case abandonRollback E request (fail_Reason f @ '': '' @ fail_Message f) s of
              (s, Some err) \<Rightarrow> (s, Inl err)
            | (s, None) \<Rightarrow> (s, Inr (f, False)))
         else (s, Inr (f, False)))
      else if fp_Action (strategy_FailurePolicy (aspec_Strategy (app_Spec (c_app s)))) = FailureActionRollback then
        (case rollbackTarget E s of
           Inl err \<Rightarrow> (s, Inl (Other_Error (''find a rollback target: '' @ error_text err)))
         | Inr (Inl (NoTarget _)) \<Rightarrow>
             (s, Inr (f\<lparr>fail_Message := fail_Message f @ ''; '' @ noRollbackTargetMessage\<rparr>, False))
         | Inr (Inr target) \<Rightarrow>
             (let s = s\<lparr>c_app := setRollbackRequest (c_app s)
                    \<lparr>req_target = rev_SourceRevision target, req_from = rev_SourceRevision (c_rev s),
                     req_kind = RollbackKindAutomatic\<rparr>,
                  c_rev := upd_rstatus (\<lambda>st. st\<lparr>rstatus_PreviousRevision := Some (rev_Name target)\<rparr>) (c_rev s)\<rparr>
              in case updateKeepingStatus E s of
                   (s, Some err) \<Rightarrow> (s, Inl err)
                 | (s, None) \<Rightarrow> (s, Inr (f, True))))
      else (s, Inr (f, False)))"

definition failRevisionAndApplication :: "'w api \<Rightarrow> lib \<Rightarrow> rollback_hold option \<Rightarrow> revision_failure \<Rightarrow> 'w ctl
    \<Rightarrow> 'w ctl \<times> api_error option" where
  "failRevisionAndApplication E L hold f s =
     (let now = clock E (c_world s) in
      case failure_rollback E f s of
        (s, Inl err) \<Rightarrow> (s, Some err)
      | (s, Inr (f, rollbackQueued)) \<Rightarrow>
          (let (r, a) = Fail (c_rev s) (c_app s) now f;
               a = setReady L a ConditionFalse (fail_Reason f) (fail_Message f);
               a = (if \<not> healthFailure (fail_Reason f) then upd_status (\<lambda>st. st\<lparr>astatus_Diagnosis := []\<rparr>) a else a);
               r = (if rollbackQueued then upd_rstatus (\<lambda>st. st\<lparr>rstatus_Phase := RevisionPhaseRollingBack\<rparr>) r else r);
               s = s\<lparr>c_rev := r, c_app := a\<rparr>;
               s = (if rollbackQueued then event E EventWarning ''RollbackStarted'' ''Application failure triggered rollback'' s else s);
               s = event E EventWarning (fail_Reason f) (fail_Message f) s;
               s = notify E L NotificationFailed (fail_Reason f @ '': '' @ fail_Message f) s
           in write_status E hold s))"

end
