(* ===== verification/Controller_Rollout.thy ===== *)
theory Controller_Rollout
  imports Controller_Base
begin

text \<open>
  The rollout of a Revision (\<open>applyAndObserve\<close> and what it calls in
  \<open>internal/controller/application_controller.go\<close>, \<open>application_diagnosis.go\<close> and
  \<open>application_health.go\<close>; \<open>internal/live\<close>). A rollout walks the groups of \<open>ordering.Groups\<close> from the
  first: it prunes before the PostSync hooks, replaces hooks of earlier Revisions, applies what is
  pending, reads it back, and stops at the first group that is degraded or still progressing.
  \<open>group_step\<close> is the body of that loop, with the paths that end the reconcile in \<open>Inl\<close>.

  What a reconcile returns is the state it leaves, the requeue delay in nanoseconds (0 for none) and
  its error. Go's map of live objects is an association list in the order of the reads. The compiled
  HealthChecks are recomputed instead of cached. Metrics and logs are left out.
\<close>

type_synonym 'w reconciled = "'w ctl \<times> int \<times> api_error option"

definition ends :: "'w ctl \<times> api_error option \<Rightarrow> 'w reconciled" where
  "ends x = (fst x, 0, snd x)"

subsection \<open>Error texts\<close>

fun id_error_text :: "'w api \<Rightarrow> lib \<Rightarrow> unstructured \<Rightarrow> id_error \<Rightarrow> string" where
  "id_error_text E L obj ParseAPIVersionError = ''parse apiVersion: '' @ ParseGroupVersionError E (GetAPIVersion L obj)"
| "id_error_text E L obj KindAndNameRequired = ''kind and name are required''"

fun policy_string :: "conflict_policy \<Rightarrow> string" where
  "policy_string ConflictPolicyNone = ''''"
| "policy_string ConflictPolicyFail = ''fail''"
| "policy_string ConflictPolicyAdopt = ''adopt''"
| "policy_string (ConflictPolicyOther s) = s"

fun apply_error_of :: "'w api \<Rightarrow> apply_error \<Rightarrow> api_error" where
  "apply_error_of E (UnsupportedConflictPolicy p) = Other_Error (''unsupported conflict policy '' @ Quote E (policy_string p))"
| "apply_error_of E (ApplyFailed err) = err"

subsection \<open>Reading live state\<close>

record live_result =
  live_Found :: "(resource_id \<times> unstructured) list"
  live_Missing :: "resource_id list"

fun live_loop :: "'w api \<Rightarrow> lib \<Rightarrow> 'w \<Rightarrow> unstructured list \<Rightarrow> live_result \<Rightarrow> api_error + live_result" where
  "live_loop E L w [] result = Inr result"
| "live_loop E L w (obj # objs) result =
     (case FromObject L obj of
        Inl err \<Rightarrow> Inl (Other_Error (id_error_text E L obj err))
      | Inr i \<Rightarrow>
          (case tn_Get E \<lparr>gvk_Group = ID_Group i, gvk_Version = ID_Version i, gvk_Kind = ID_Kind i\<rparr>
                  (ID_Namespace i) (ID_Name i) w of
             Inl err \<Rightarrow>
               if IsNotFound err then live_loop E L w objs (result\<lparr>live_Missing := live_Missing result @ [i]\<rparr>)
               else Inl err
           | Inr obj \<Rightarrow> live_loop E L w objs (result\<lparr>live_Found := AList.update i obj (live_Found result)\<rparr>)))"

definition live_Read :: "'w api \<Rightarrow> lib \<Rightarrow> unstructured list \<Rightarrow> 'w \<Rightarrow> api_error + live_result" where
  "live_Read E L desired w = live_loop E L w desired \<lparr>live_Found = [], live_Missing = []\<rparr>"

definition healthEvaluator :: "'w api \<Rightarrow> 'w ctl \<Rightarrow> 'w ctl \<times> (api_error + evaluator)" where
  "healthEvaluator E s =
     (case ct_ListHealthChecks E (c_world s) of
        Inl err \<Rightarrow> (s, Inl err)
      | Inr checks \<Rightarrow>
          (let (ev, invalid) = NewEvaluator (ct_Cel E) checks in
           (if invalid \<noteq> [] then event E EventWarning ''InvalidHealthCheck''
                (safeMessage (''invalid health rules: ['' @ Join '' '' invalid @ '']'') ''A HealthCheck rule is invalid'') s
            else s,
            Inr ev)))"

fun evaluate_all :: "'w api \<Rightarrow> lib \<Rightarrow> evaluator \<Rightarrow> unstructured list \<Rightarrow> api_error + health_result list" where
  "evaluate_all E L ev [] = Inr []"
| "evaluate_all E L ev (obj # objs) =
     (case Evaluator_Evaluate L ev obj of
        Inl err \<Rightarrow> Inl (Other_Error (id_error_text E L obj err))
      | Inr r \<Rightarrow>
          (case evaluate_all E L ev objs of
             Inl err \<Rightarrow> Inl err
           | Inr rs \<Rightarrow> Inr (r # rs)))"

definition missing_result :: "bool \<Rightarrow> resource_id \<Rightarrow> health_result" where
  "missing_result hooks i =
     (if hooks then \<lparr>hr_Resource = i, hr_State = HealthStateDegraded, hr_Reason = ''HookMissing'',
        hr_Message = ''hook was deleted before it reported success''\<rparr>
      else \<lparr>hr_Resource = i, hr_State = HealthStateProgressing, hr_Reason = ''NotFound'',
        hr_Message = ''resource does not exist yet''\<rparr>)"

definition groupHealth :: "'w api \<Rightarrow> lib \<Rightarrow> evaluator \<Rightarrow> unstructured list \<Rightarrow> bool \<Rightarrow> 'w
    \<Rightarrow> api_error + (health_result list \<times> unstructured list)" where
  "groupHealth E L ev objs hooks w =
     (case live_Read E L objs w of
        Inl err \<Rightarrow> Inl err
      | Inr lr \<Rightarrow>
          (let found = Apply L (map snd (live_Found lr)) in
           case evaluate_all E L ev found of
             Inl err \<Rightarrow> Inl err
           | Inr results \<Rightarrow> Inr (results @ map (missing_result hooks) (live_Missing lr), found)))"

subsection \<open>Deleting\<close>

text \<open>\<open>client.IgnoreNotFound\<close> on every delete; the first other error ends the loop.\<close>

fun delete_each :: "('o \<Rightarrow> 'w \<Rightarrow> 'w \<times> api_error option) \<Rightarrow> 'o list \<Rightarrow> 'w \<Rightarrow> 'w \<times> api_error option" where
  "delete_each del [] w = (w, None)"
| "delete_each del (obj # objs) w =
     (case del obj w of
        (w, None) \<Rightarrow> delete_each del objs w
      | (w, Some err) \<Rightarrow> if IsNotFound err then delete_each del objs w else (w, Some err))"

definition pruneStale :: "'w api \<Rightarrow> prune_result \<Rightarrow> 'w \<Rightarrow> 'w \<times> revision_failure option" where
  "pruneStale E pruning w =
     (case Rejected pruning of
        r # _ \<Rightarrow> (w, Some (failure ''PruneFailure''
                   (safeMessage (Rejected_Reason r) ''Managed resource prune was rejected'') False))
      | [] \<Rightarrow>
          (case delete_each (tn_Delete E) (Eligible pruning) w of
             (w, None) \<Rightarrow> (w, None)
           | (w, Some err) \<Rightarrow> (w, Some (accessFailure err ''PruneFailure'' ''Managed resource prune failed'' True))))"

fun replaceStaleHooks :: "'w api \<Rightarrow> lib \<Rightarrow> unstructured list \<Rightarrow> string \<Rightarrow> bool \<Rightarrow> 'w \<Rightarrow> 'w \<times> (api_error + bool)" where
  "replaceStaleHooks E L [] revision replacing w = (w, Inr replacing)"
| "replaceStaleHooks E L (hook # hooks) revision replacing w =
     (case tn_Get E (GroupVersionKindOf L hook) (GetNamespace L hook) (GetName L hook) w of
        Inl err \<Rightarrow> if IsNotFound err then replaceStaleHooks E L hooks revision replacing w else (w, Inl err)
      | Inr current \<Rightarrow>
          if annotation L current RevisionAnnotationKey = revision then replaceStaleHooks E L hooks revision replacing w
          else if GetDeletionTimestamp L current = None then
            (case tn_Delete E current w of
               (w, None) \<Rightarrow> replaceStaleHooks E L hooks revision True w
             | (w, Some err) \<Rightarrow>
                 if IsNotFound err then replaceStaleHooks E L hooks revision True w else (w, Inl err))
          else replaceStaleHooks E L hooks revision True w)"

subsection \<open>Recording health and diagnoses\<close>

definition diagnosis_Status :: "lib \<Rightarrow> cause list \<Rightarrow> diagnosis_cause list" where
  "diagnosis_Status L causes = map (\<lambda>c. \<lparr>dc_Resource = resourceRef L (cs_Resource c), dc_Reason = cs_Reason c,
     dc_Message = cs_Message c, dc_Chain = map (resourceRef L) (cs_Chain c)\<rparr>) causes"

definition sameCauses :: "diagnosis_cause list \<Rightarrow> diagnosis_cause list \<Rightarrow> bool" where
  "sameCauses a b = list_all2 (\<lambda>x y. dc_Resource x = dc_Resource y \<and> dc_Reason x = dc_Reason y) a b"

definition diagnosed_message :: "cause \<Rightarrow> nat \<Rightarrow> string" where
  "diagnosed_message first n =
     ID_Kind (cs_Resource first) @ '' '' @ QualifiedName (cs_Resource first) @ '': '' @ cs_Reason first
     @ (if cs_Message first \<noteq> [] then '': '' @ cs_Message first else [])
     @ (if n > 1 then '' (and '' @ itoa (int n - 1) @ '' more)'' else [])"

definition diagnose :: "'w api \<Rightarrow> lib \<Rightarrow> health_result list \<Rightarrow> unstructured list \<Rightarrow> bool \<Rightarrow> health_state \<Rightarrow> 'w ctl
    \<Rightarrow> 'w ctl \<times> bool" where
  "diagnose E L results observed degraded previousHealth s =
     (if \<not> list_ex (\<lambda>r. hr_State r \<noteq> HealthStateHealthy) results then
        (s\<lparr>c_app := upd_status (\<lambda>st. st\<lparr>astatus_Diagnosis := []\<rparr>) (c_app s)\<rparr>, False)
      else
        (let causes = tn_Diagnose E (DestinationNamespace (c_app s)) results observed (c_world s);
             nxt = diagnosis_Status L causes;
             changed = (\<not> sameCauses (astatus_Diagnosis (app_Status (c_app s))) nxt);
             newlyDegraded = (degraded \<and> previousHealth \<noteq> HealthStateDegraded);
             s = s\<lparr>c_app := upd_status (\<lambda>st. st\<lparr>astatus_Diagnosis := nxt\<rparr>) (c_app s)\<rparr>;
             evident = list_ex (\<lambda>c. \<not> cs_Fallback c) causes
         in case causes of
              [] \<Rightarrow> (s, evident)
            | first # _ \<Rightarrow>
                if \<not> changed \<and> \<not> newlyDegraded then (s, evident)
                else if \<not> evident \<and> \<not> degraded then (s, False)
                else (event E EventWarning ''Diagnosed'' (diagnosed_message first (length nxt)) s, evident)))"

definition recordHealth :: "health_result list \<Rightarrow> 'w ctl \<Rightarrow> 'w ctl" where
  "recordHealth results s =
     s\<lparr>c_rev := upd_rstatus (\<lambda>st. st\<lparr>rstatus_Health := Summary results\<rparr>) (c_rev s),
       c_app := upd_status (\<lambda>st. st\<lparr>astatus_Resources := Summary results\<rparr>) (c_app s)\<rparr>"

definition timed_out :: "application \<Rightarrow> revision \<Rightarrow> time \<Rightarrow> bool" where
  "timed_out a r now = (case (aspec_HealthTimeout (app_Spec a), rstatus_StartedAt (rev_Status r)) of
       (Some timeout, Some started) \<Rightarrow> now - started > timeout
     | _ \<Rightarrow> False)"

definition observe :: "'w api \<Rightarrow> lib \<Rightarrow> rollback_hold option \<Rightarrow> health_result list \<Rightarrow> unstructured list \<Rightarrow> health_state
    \<Rightarrow> int \<Rightarrow> 'w ctl \<Rightarrow> 'w reconciled" where
  "observe E L hold results observed previousHealth after s =
     (let timedOut = timed_out (c_app s) (c_rev s) (clock E (c_world s));
          (s, _) = diagnose E L results observed timedOut previousHealth s
      in if timedOut then
           ends (failRevisionAndApplication E L hold (failure ''TimeoutFailure'' ''Health observation timed out'' True) s)
         else
           (let s = recordHealth results s;
                s = s\<lparr>c_rev := upd_rstatus (\<lambda>st. st\<lparr>rstatus_Phase := RevisionPhaseObserving\<rparr>) (c_rev s),
                      c_app := upd_status (\<lambda>st. st\<lparr>astatus_Sync := SyncStateSynced, astatus_Health := HealthStateProgressing,
                        astatus_State := HealthStateProgressing,
                        astatus_DeployedRevision := rev_SourceRevision (c_rev s)\<rparr>) (c_app s)\<rparr>
            in case updateRevisionStatus E s of
                 (s, Some err) \<Rightarrow> (s, 0, Some err)
               | (s, None) \<Rightarrow> (case updateApplicationStatus E hold s of (s, err) \<Rightarrow> (s, after, err))))"

subsection \<open>Completing\<close>

definition completion_time :: "lib \<Rightarrow> revision \<Rightarrow> time \<Rightarrow> time" where
  "completion_time L r now =
     (case (FindStatusCondition L (rstatus_Conditions (rev_Status r)) RolloutCompleteCondition,
            rstatus_CompletedAt (rev_Status r)) of
        (Some c, Some t) \<Rightarrow> if cond_Status c = ConditionTrue then t else now
      | _ \<Rightarrow> now)"

text \<open>The Revision and Application of a finished rollout, before a rollback request is looked at.\<close>

definition mark_complete :: "lib \<Rightarrow> time \<Rightarrow> 'w ctl \<Rightarrow> 'w ctl" where
  "mark_complete L now s =
     (let (r, a) = CompleteHealthy (c_rev s) (c_app s) (completion_time L (c_rev s) now);
          r = upd_rstatus (\<lambda>st. st\<lparr>rstatus_DeployedDesiredStateHash := rev_DesiredStateHash r\<rparr>) r;
          a = upd_status (\<lambda>st. st\<lparr>astatus_Diagnosis := []\<rparr>) a
      in s\<lparr>c_rev := setRolloutComplete L r True, c_app := a\<rparr>)"

text \<open>A completed rollback: every Revision it replaced is held before the request is removed.\<close>

definition complete_rollback :: "'w api \<Rightarrow> lib \<Rightarrow> rollback_request \<Rightarrow> bool \<Rightarrow> 'w ctl \<Rightarrow> 'w ctl \<times> api_error option" where
  "complete_rollback E L request transition s =
     (let s = s\<lparr>c_rev := upd_rstatus (\<lambda>st. st\<lparr>rstatus_Phase := RevisionPhaseRolledBack\<rparr>) (c_rev s),
                c_app := upd_status (\<lambda>st. st\<lparr>astatus_Sync := SyncStateOutOfSync\<rparr>) (c_app s)\<rparr>
      in case holdReplaced E L request s of
           (s, Some err) \<Rightarrow> (s, Some err)
         | (s, None) \<Rightarrow>
             (case updateKeepingStatus E (s\<lparr>c_app := clearRollbackRequest (c_app s)\<rparr>) of
                (s, Some err) \<Rightarrow> (s, Some err)
              | (s, None) \<Rightarrow>
                  (let s = s\<lparr>c_app := setReady L (c_app s) ConditionFalse ''RolledBack'' (holdMessage (\<not> automatic request))\<rparr>;
                       s = event E EventNormal ''RollbackCompleted'' ''Application rollback completed'' s
                   in (if transition then notify E L NotificationRolledBack ''Application rollback completed'' s else s, None))))"

definition completeSuccessfulDeployment :: "'w api \<Rightarrow> lib \<Rightarrow> rollback_hold option \<Rightarrow> string \<Rightarrow> bool \<Rightarrow> 'w ctl
    \<Rightarrow> 'w ctl \<times> api_error option" where
  "completeSuccessfulDeployment E L hold healthyMessage transition s =
     (let s = mark_complete L (clock E (c_world s)) s;
          request = rollbackRequestOf (c_app s)
      in case
           (if active request then complete_rollback E L request transition s
            else case hold of
                   Some h \<Rightarrow>
                     (s\<lparr>c_app := setReady L (c_app s) ConditionFalse ''RolledBack'' (holdMessage (hold_manual h))\<rparr>, None)
                 | None \<Rightarrow>
                     (let s = s\<lparr>c_app := setReady L (c_app s) ConditionTrue ''Healthy'' ''Application is Synced and Healthy''\<rparr>;
                          s = event E EventNormal ''DeploymentHealthy'' healthyMessage s
                      in (if transition then notify E L NotificationHealthy healthyMessage s else s, None))) of
           (s, Some err) \<Rightarrow> (s, Some err)
         | (s, None) \<Rightarrow> write_status E hold s)"

definition retained :: "lib \<Rightarrow> application \<Rightarrow> revision list \<Rightarrow> retention" where
  "retained L a revisions = ApplyRetention (filter (\<lambda>r. heldBy L r = None) revisions) (LimitFor a 20)"

definition applyHistoryRetention :: "'w api \<Rightarrow> lib \<Rightarrow> 'w ctl \<Rightarrow> 'w ctl \<times> api_error option" where
  "applyHistoryRetention E L s =
     (case applicationRevisions E (c_app s) (c_world s) of
        Inl err \<Rightarrow> (s, Some err)
      | Inr revisions \<Rightarrow>
          (let (w, err) = delete_each (ct_DeleteRevision E) (ret_Delete (retained L (c_app s) revisions)) (c_world s)
           in (s\<lparr>c_world := w\<rparr>, err)))"

subsection \<open>Walking the groups\<close>

text \<open>What the walk carries from group to group: the results and live objects seen so far, and
  whether stale objects were pruned.\<close>

record walk_state =
  wk_results :: "health_result list"
  wk_observed :: "unstructured list"
  wk_pruned :: bool

definition degraded_failure :: "stage \<Rightarrow> health_result \<Rightarrow> revision_failure" where
  "degraded_failure stage result =
     (if stage \<noteq> StageSync then
        failure ''HookFailed'' (safeMessage (stage_string stage @ '' hook '' @ ID_Kind (hr_Resource result) @ ''/''
          @ ID_Name (hr_Resource result) @ '' failed: '' @ hr_Message result) ''A sync hook failed'') True
      else failure ''HealthFailure'' ''One or more resources are degraded'' True)"

text \<open>Before a group applies: prune ahead of the PostSync hooks, and split and replace hooks. The
  result is what to apply, what only to watch, and what is already done.\<close>

definition group_prepare :: "'w api \<Rightarrow> lib \<Rightarrow> rollback_hold option \<Rightarrow> rollout_progress \<Rightarrow> group \<Rightarrow> walk_state \<Rightarrow> 'w ctl
    \<Rightarrow> ('w reconciled) + ('w ctl \<times> walk_state \<times> unstructured list \<times> unstructured list \<times> health_result list)" where
  "group_prepare E L hold progress grp wk s =
     (case
        (if grp_Stage grp = StagePostSync \<and> \<not> wk_pruned wk then
           (case pruneStale E (rp_pruning progress) (c_world s) of
              (w, Some f) \<Rightarrow> Inl (ends (failRevisionAndApplication E L hold f (s\<lparr>c_world := w\<rparr>)))
            | (w, None) \<Rightarrow> Inr (s\<lparr>c_world := w\<rparr>, wk\<lparr>wk_pruned := True\<rparr>))
         else Inr (s, wk)) of
        Inl out \<Rightarrow> Inl out
      | Inr (s, wk) \<Rightarrow>
          if grp_Stage grp = StageSync then Inr (s, wk, grp_Objects grp, [], [])
          else
            (let (pending, watched, done) = splitHooks L (grp_Objects grp) (rp_hooks progress) in
             case replaceStaleHooks E L pending (rev_Name (c_rev s)) False (c_world s) of
               (w, Inl err) \<Rightarrow> Inl (ends (failRevisionAndApplication E L hold
                   (accessFailure err ''HookFailed'' ''Previous hooks could not be removed'' True) (s\<lparr>c_world := w\<rparr>)))
             | (w, Inr True) \<Rightarrow> Inl (observe E L hold (wk_results wk) (wk_observed wk) (rp_previousHealth progress)
                   (2 * second) (s\<lparr>c_world := w\<rparr>))
             | (w, Inr False) \<Rightarrow> Inr (s\<lparr>c_world := w\<rparr>, wk, pending, watched, done)))"

definition group_apply :: "'w api \<Rightarrow> lib \<Rightarrow> rollback_hold option \<Rightarrow> unstructured list \<Rightarrow> 'w ctl \<Rightarrow> ('w reconciled) + 'w ctl" where
  "group_apply E L hold pending s =
     (if pending = [] then Inr s
      else
        (case Applier_Apply L (tn_Apply E) (app_Namespace (c_app s)) (app_Name (c_app s)) (rev_Name (c_rev s)) pending
                (EffectiveConflictPolicy (aspec_Sync (app_Spec (c_app s)))) (c_world s) of
           (w, None) \<Rightarrow> Inr (s\<lparr>c_world := w\<rparr>)
         | (w, Some err) \<Rightarrow> Inl (ends (failRevisionAndApplication E L hold
             (accessFailure (apply_error_of E err) ''ApplyFailure'' ''Desired state apply failed'' True) (s\<lparr>c_world := w\<rparr>)))))"

definition group_check :: "'w api \<Rightarrow> lib \<Rightarrow> rollback_hold option \<Rightarrow> evaluator \<Rightarrow> rollout_progress \<Rightarrow> stage
    \<Rightarrow> unstructured list \<Rightarrow> health_result list \<Rightarrow> walk_state \<Rightarrow> 'w ctl \<Rightarrow> ('w reconciled) + ('w ctl \<times> walk_state)" where
  "group_check E L hold ev progress stage objs done wk s =
     (case groupHealth E L ev objs (stage \<noteq> StageSync) (c_world s) of
        Inl err \<Rightarrow> Inl (ends (failRevisionAndApplication E L hold
            (accessFailure err ''HealthFailure'' ''Applied resources could not be read'' True) s))
      | Inr (checked, read) \<Rightarrow>
          (let s = (if stage \<noteq> StageSync then s\<lparr>c_rev := recordHooks L (c_rev s) stage checked\<rparr> else s);
               groupResults = done @ checked;
               wk = wk\<lparr>wk_results := wk_results wk @ groupResults, wk_observed := wk_observed wk @ read\<rparr>
           in case List.find (\<lambda>r. hr_State r = HealthStateDegraded) groupResults of
                Some result \<Rightarrow>
                  (let s = recordHealth (wk_results wk) s;
                       (s, _) = diagnose E L (wk_results wk) (wk_observed wk) True (rp_previousHealth progress) s
                   in Inl (ends (failRevisionAndApplication E L hold (degraded_failure stage result) s)))
              | None \<Rightarrow>
                  if hs_Progressing (Summary groupResults) > 0 then
                    Inl (observe E L hold (wk_results wk) (wk_observed wk) (rp_previousHealth progress) (10 * second) s)
                  else Inr (s, wk)))"

definition group_step :: "'w api \<Rightarrow> lib \<Rightarrow> rollback_hold option \<Rightarrow> evaluator \<Rightarrow> rollout_progress \<Rightarrow> group \<Rightarrow> walk_state \<Rightarrow> 'w ctl
    \<Rightarrow> ('w reconciled) + ('w ctl \<times> walk_state)" where
  "group_step E L hold ev progress grp wk s =
     (case group_prepare E L hold progress grp wk s of
        Inl out \<Rightarrow> Inl out
      | Inr (s, wk, pending, watched, done) \<Rightarrow>
          (case group_apply E L hold pending s of
             Inl out \<Rightarrow> Inl out
           | Inr s \<Rightarrow> group_check E L hold ev progress (grp_Stage grp) (watched @ pending) done wk s))"

fun walk_groups :: "'w api \<Rightarrow> lib \<Rightarrow> rollback_hold option \<Rightarrow> evaluator \<Rightarrow> rollout_progress \<Rightarrow> group list \<Rightarrow> walk_state \<Rightarrow> 'w ctl
    \<Rightarrow> ('w reconciled) + ('w ctl \<times> walk_state)" where
  "walk_groups E L hold ev progress [] wk s = Inr (s, wk)"
| "walk_groups E L hold ev progress (grp # groups) wk s =
     (case group_step E L hold ev progress grp wk s of
        Inl out \<Rightarrow> Inl out
      | Inr (s, wk) \<Rightarrow> walk_groups E L hold ev progress groups wk s)"

text \<open>After the last group: prune if no PostSync group did, and complete.\<close>

definition finish_walk :: "'w api \<Rightarrow> lib \<Rightarrow> rollback_hold option \<Rightarrow> rollout_progress \<Rightarrow> walk_state \<Rightarrow> 'w ctl \<Rightarrow> 'w reconciled" where
  "finish_walk E L hold progress wk s =
     (case (if wk_pruned wk then (c_world s, None) else pruneStale E (rp_pruning progress) (c_world s)) of
        (w, Some f) \<Rightarrow> ends (failRevisionAndApplication E L hold f (s\<lparr>c_world := w\<rparr>))
      | (w, None) \<Rightarrow>
          (case completeSuccessfulDeployment E L hold ''Application deployment is healthy'' True
                  (recordHealth (wk_results wk) (s\<lparr>c_world := w\<rparr>)) of
             (s, Some err) \<Rightarrow> (s, 0, Some err)
           | (s, None) \<Rightarrow> ends (applyHistoryRetention E L s)))"

text \<open>The start of a rollout: the Revision is Applying and its rollout is marked unfinished before
  anything is applied.\<close>

definition start_rollout :: "'w api \<Rightarrow> lib \<Rightarrow> 'w ctl \<Rightarrow> 'w ctl \<times> api_error option" where
  "start_rollout E L s =
     (let (r, a) = StartApplying (c_rev s) (c_app s) (clock E (c_world s))
      in updateRevisionStatus E (s\<lparr>c_rev := setRolloutComplete L r False, c_app := a\<rparr>))"

definition applyAndObserve :: "'w api \<Rightarrow> lib \<Rightarrow> rollback_hold option \<Rightarrow> unstructured list \<Rightarrow> rollout_progress \<Rightarrow> 'w ctl
    \<Rightarrow> 'w reconciled" where
  "applyAndObserve E L hold desired progress s =
     (let resuming = (rp_state progress = rolloutInProgress \<and> rp_previousPhase progress \<noteq> RevisionPhaseFailed) in
      case start_rollout E L s of
        (s, Some err) \<Rightarrow> (s, 0, Some err)
      | (s, None) \<Rightarrow>
          (let s = (if resuming then s else event E EventNormal ''DeploymentStarted'' ''Application deployment started'' s) in
           case healthEvaluator E s of
             (s, Inl err) \<Rightarrow> ends (failRevisionAndApplication E L hold
                 (failure ''HealthFailure'' (safeMessage (error_text err) ''HealthChecks could not be read'') True) s)
           | (s, Inr ev) \<Rightarrow>
               (let s = s\<lparr>c_app := upd_status (\<lambda>st. st\<lparr>astatus_ManagedKinds :=
                          inventoryKinds L desired (Skipped (rp_pruning progress))\<rparr>) (c_app s)\<rparr>
                in case walk_groups E L hold ev progress (Groups L desired)
                          \<lparr>wk_results = [], wk_observed = [], wk_pruned = False\<rparr> s of
                     Inl out \<Rightarrow> out
                   | Inr (s, wk) \<Rightarrow> finish_walk E L hold progress wk s)))"

end
