(* ===== verification/Rendering.thy ===== *)
theory Rendering
  imports Controller_Base
begin

text \<open>
  How the Application controller gets its desired state (\<open>renderDesired\<close>, \<open>helmValues\<close>,
  \<open>pullChart\<close> and \<open>decryptor\<close> of \<open>internal/controller/application_controller.go\<close>;
  \<open>loadGitCredentials\<close> of \<open>repository_controller.go\<close>). The Git resolver, the renderers, the chart
  registry, the YAML and JSON decoders and the age key parser are parameters, in the record
  \<open>sources\<close>; \<open>source.Resolver\<close> and \<open>renderer.Renderer\<close> are interfaces of the source too. The
  theorems say which Secrets are ever used: a credential Secret only when it carries the label made
  for that use.
\<close>

subsection \<open>Data\<close>

datatype source_error = SourceError string string | PlainError api_error
  \<comment> \<open>a \<open>source.Error\<close> with its reason and message, or any other error\<close>

fun source_error_text :: "source_error \<Rightarrow> string" where
  "source_error_text (SourceError reason message) = message"
| "source_error_text (PlainError err) = error_text err"

fun failureReason :: "source_error \<Rightarrow> string \<Rightarrow> string" where
  "failureReason (SourceError reason message) fallback = (if reason \<noteq> [] then reason else fallback)"
| "failureReason (PlainError err) fallback = fallback"

record credentials =
  cr_Username :: string
  cr_Password :: string
  cr_Token :: string
  cr_SSHKey :: string
  cr_KnownHosts :: string

record git_repository =
  gr_URL :: string
  gr_Revision :: string
  gr_Auth :: credentials

record resolved_source =
  res_Revision :: string
  res_CacheDir :: string

record chart_source =
  chs_Repository :: string
  chs_Name :: string
  chs_Version :: string
  chs_Username :: string
  chs_Password :: string

record render_input =
  ri_Workspace :: string
  ri_Path :: string
  ri_ReleaseName :: string
  ri_ValuesFiles :: "string list"
  ri_Namespace :: string
  ri_ChartPath :: string
  ri_Values :: gomap
  ri_Decrypt :: "string list option" \<comment> \<open>the age keys of the decryptor, if there is one\<close>

record helm_inputs =
  hi_chartDigest :: string
  hi_secretValues :: "string list"

record 'w sources =
  so_GetRepository :: "string \<Rightarrow> string \<Rightarrow> 'w \<Rightarrow> api_error + repository"
  so_Resolve :: "git_repository \<Rightarrow> 'w \<Rightarrow> source_error + resolved_source"
  so_Render :: "render_type \<Rightarrow> render_input \<Rightarrow> 'w \<Rightarrow> string + unstructured list"
  so_Pull :: "string \<Rightarrow> chart_source \<Rightarrow> 'w \<Rightarrow> string + (string \<times> string)"
  so_ValidReleaseName :: "string \<Rightarrow> bool"
  so_GetSecret :: "string \<Rightarrow> string \<Rightarrow> 'w \<Rightarrow> api_error + secret" \<comment> \<open>as the service account\<close>
  so_GetConfigMap :: "string \<Rightarrow> string \<Rightarrow> 'w \<Rightarrow> api_error + strmap" \<comment> \<open>as the service account\<close>
  so_UnmarshalYAML :: "string \<Rightarrow> string + gomap"
  so_UnmarshalJSON :: "string \<Rightarrow> string + gomap"
  so_ImportKeys :: "string list \<Rightarrow> string option" \<comment> \<open>the error of \<open>age\<close> on these keys\<close>
  so_SecretKeys :: "secret \<Rightarrow> string list" \<comment> \<open>the keys of the data, in the order of the iteration\<close>
  so_Mapper :: rest_mapper
  so_EnsureWatches :: "gvk list \<Rightarrow> 'w \<Rightarrow> 'w \<times> bool"
  so_PlanLimit :: int

definition zero_credentials :: credentials where
  "zero_credentials = \<lparr>cr_Username = [], cr_Password = [], cr_Token = [], cr_SSHKey = [], cr_KnownHosts = []\<rparr>"

subsection \<open>Credentials\<close>

definition GitCredentialsLabel :: string where
  "GitCredentialsLabel = ''sync.kuvryn.io/git-credentials''"

definition RegistryCredentialsLabel :: string where
  "RegistryCredentialsLabel = ''sync.kuvryn.io/registry-credentials''"

definition DecryptionKeyLabel :: string where
  "DecryptionKeyLabel = ''sync.kuvryn.io/decryption-key''"

fun firstSecretString :: "secret \<Rightarrow> string list \<Rightarrow> string" where
  "firstSecretString sec [] = []"
| "firstSecretString sec (key # keys) =
     (let v = get_str (sec_Data sec) key in if v \<noteq> [] then v else firstSecretString sec keys)"

definition credentialsFromSecret :: "'w api \<Rightarrow> string \<Rightarrow> string \<Rightarrow> 'w \<Rightarrow> source_error + credentials" where
  "credentialsFromSecret E namespace name w =
     (case ct_GetSecret E namespace name w of
        Inl err \<Rightarrow> if IsNotFound err then Inl (SourceError ''AuthenticationFailure'' ''Git authentication Secret was not found'')
          else Inl (PlainError err)
      | Inr sec \<Rightarrow>
          if get_str (sec_Labels sec) GitCredentialsLabel \<noteq> ''true'' then
            Inl (SourceError ''AuthenticationFailure''
              (''Git authentication Secret is not labelled '' @ GitCredentialsLabel @ ''=true''))
          else
            (let c = \<lparr>cr_Username = get_str (sec_Data sec) ''username'',
                   cr_Password = firstSecretString sec [''password'', ''basic-password''],
                   cr_Token = firstSecretString sec [''token'', ''accessToken'', ''access_token''],
                   cr_SSHKey = firstSecretString sec [''sshPrivateKey'', ''ssh-privatekey'', ''identity''],
                   cr_KnownHosts = firstSecretString sec [''known_hosts'', ''knownHosts'']\<rparr>
             in if c = zero_credentials then
                  Inl (SourceError ''AuthenticationFailure'' ''Git authentication Secret contains no supported credential keys'')
                else Inr c))"

definition loadGitCredentials :: "'w api \<Rightarrow> repository \<Rightarrow> 'w \<Rightarrow> source_error + credentials" where
  "loadGitCredentials E repository w =
     (case repo_Git (repo_Spec repository) of
        None \<Rightarrow> Inr zero_credentials
      | Some g \<Rightarrow>
          (case git_AuthSecretRef g of
             None \<Rightarrow> Inr zero_credentials
           | Some name \<Rightarrow> credentialsFromSecret E (om_Namespace (repo_Meta repository)) name w))"

definition decryptor :: "'w api \<Rightarrow> 'w sources \<Rightarrow> application \<Rightarrow> 'w \<Rightarrow> string + string list option" where
  "decryptor E S a w =
     (case aspec_Decryption (app_Spec a) of
        None \<Rightarrow> Inr None
      | Some spec \<Rightarrow>
          (case ct_GetSecret E (app_Namespace a) (dec_SecretRef spec) w of
             Inl err \<Rightarrow> Inl (''decryption Secret '' @ dec_SecretRef spec @ '': '' @ error_text err)
           | Inr sec \<Rightarrow>
               if get_str (sec_Labels sec) DecryptionKeyLabel \<noteq> ''true'' then
                 Inl (''decryption Secret '' @ dec_SecretRef spec @ '' is not labelled '' @ DecryptionKeyLabel @ ''=true'')
               else
                 (let keys = map (get_str (sec_Data sec)) (filter (\<lambda>name. HasSuffix name ''.agekey'') (so_SecretKeys S sec))
                  in if keys = [] then Inl (''decryption Secret '' @ dec_SecretRef spec @ '' has no .agekey entries'')
                     else case so_ImportKeys S keys of
                            Some err \<Rightarrow> Inl err
                          | None \<Rightarrow> Inr (Some keys))))"

definition pullChart :: "'w api \<Rightarrow> 'w sources \<Rightarrow> string \<Rightarrow> helm_chart_source \<Rightarrow> 'w \<Rightarrow> string + (string \<times> string)" where
  "pullChart E S namespace chart w =
     (let src = \<lparr>chs_Repository = chart_Repository chart, chs_Name = chart_Name chart, chs_Version = chart_Version chart,
             chs_Username = [], chs_Password = []\<rparr> in
      case chart_SecretRef chart of
        None \<Rightarrow> so_Pull S namespace src w
      | Some name \<Rightarrow>
          (case ct_GetSecret E namespace name w of
             Inl err \<Rightarrow> Inl (''chart repository Secret '' @ name @ '': '' @ error_text err)
           | Inr sec \<Rightarrow>
               if get_str (sec_Labels sec) RegistryCredentialsLabel \<noteq> ''true'' then
                 Inl (''chart repository Secret '' @ name @ '' is not labelled '' @ RegistryCredentialsLabel @ ''=true'')
               else so_Pull S namespace (src\<lparr>chs_Username := get_str (sec_Data sec) ''username'',
                      chs_Password := get_str (sec_Data sec) ''password''\<rparr>) w))"

subsection \<open>Helm values\<close>

definition values_key :: "helm_values_reference \<Rightarrow> string" where
  "values_key ref = (if vref_Key ref = [] then ''values.yaml'' else vref_Key ref)"

text \<open>\<open>raw\<close>, which is nil only for a Secret without the key: converting the missing entry of a
  ConfigMap to bytes gives an empty slice.\<close>

definition values_raw :: "'w sources \<Rightarrow> string \<Rightarrow> helm_values_reference \<Rightarrow> 'w \<Rightarrow> api_error + string option" where
  "values_raw S namespace ref w =
     (if vref_Kind ref = ''Secret'' then
        (case so_GetSecret S namespace (vref_Name ref) w of
           Inl err \<Rightarrow> Inl err
         | Inr sec \<Rightarrow> Inr (sec_Data sec (values_key ref)))
      else
        (case so_GetConfigMap S namespace (vref_Name ref) w of
           Inl err \<Rightarrow> Inl err
         | Inr data \<Rightarrow> Inr (Some (get_str data (values_key ref)))))"

fun values_loop :: "lib \<Rightarrow> 'w sources \<Rightarrow> string \<Rightarrow> helm_values_reference list \<Rightarrow> 'w \<Rightarrow> gomap \<Rightarrow> string list
    \<Rightarrow> api_error + (gomap \<times> string list)" where
  "values_loop L S namespace [] w vs secrets = Inr (vs, secrets)"
| "values_loop L S namespace (ref # refs) w vs secrets =
     (case values_raw S namespace ref w of
        Inl err \<Rightarrow> Inl err
      | Inr None \<Rightarrow> Inl (Other_Error (vref_Kind ref @ '' '' @ vref_Name ref @ '' has no key '' @ values_key ref))
      | Inr (Some raw) \<Rightarrow>
          (case so_UnmarshalYAML S raw of
             Inl err \<Rightarrow> Inl (Other_Error (vref_Kind ref @ '' '' @ vref_Name ref @ '' key '' @ values_key ref @ '': '' @ err))
           | Inr parsed \<Rightarrow>
               values_loop L S namespace refs w (mergeValues vs parsed)
                 (if vref_Kind ref = ''Secret'' then secrets @ leafValues L (VMap parsed) else secrets)))"

definition helmValues :: "lib \<Rightarrow> 'w sources \<Rightarrow> string \<Rightarrow> helm_render_spec \<Rightarrow> 'w \<Rightarrow> api_error + (gomap \<times> string list)" where
  "helmValues L S namespace helm w =
     (case values_loop L S namespace (helm_ValuesFrom helm) w [] [] of
        Inl err \<Rightarrow> Inl err
      | Inr (vs, secrets) \<Rightarrow>
          (case helm_Values helm of
             None \<Rightarrow> Inr (vs, secrets)
           | Some raw \<Rightarrow>
               if raw = [] then Inr (vs, secrets)
               else (case so_UnmarshalJSON S raw of
                       Inl err \<Rightarrow> Inl (Other_Error (''inline Helm values: '' @ err))
                     | Inr inline \<Rightarrow> Inr (mergeValues vs inline, secrets))))"

subsection \<open>Rendering\<close>

definition rendererInput :: "application \<Rightarrow> string \<Rightarrow> render_input" where
  "rendererInput a workspace =
     (let src = aspec_Source (app_Spec a);
          base = \<lparr>ri_Workspace = workspace, ri_Path = src_Path src, ri_ReleaseName = [], ri_ValuesFiles = [],
             ri_Namespace = DestinationNamespace a, ri_ChartPath = [], ri_Values = [], ri_Decrypt = None\<rparr>
      in case render_Helm (src_Render src) of
           None \<Rightarrow> base
         | Some helm \<Rightarrow> base\<lparr>ri_ReleaseName := helm_ReleaseName helm, ri_ValuesFiles := helm_ValuesFiles helm\<rparr>)"

definition no_inputs :: helm_inputs where
  "no_inputs = \<lparr>hi_chartDigest = [], hi_secretValues = []\<rparr>"

text \<open>The chart and values of a Helm Application.\<close>

definition helm_render_inputs :: "'w api \<Rightarrow> lib \<Rightarrow> 'w sources \<Rightarrow> application \<Rightarrow> render_input \<Rightarrow> 'w
    \<Rightarrow> revision_failure + (render_input \<times> helm_inputs)" where
  "helm_render_inputs E L S a input w =
     (case (render_Type (src_Render (aspec_Source (app_Spec a))), render_Helm (src_Render (aspec_Source (app_Spec a)))) of
        (RenderTypeHelm, Some helm) \<Rightarrow>
          (case helmValues L S (app_Namespace a) helm w of
             Inl err \<Rightarrow> Inl (accessFailure err ''RenderFailure'' ''Helm values could not be read'' True)
           | Inr (vs, secrets) \<Rightarrow>
               (case helm_Chart helm of
                  None \<Rightarrow> Inr (input\<lparr>ri_Values := vs\<rparr>, no_inputs\<lparr>hi_secretValues := secrets\<rparr>)
                | Some chart \<Rightarrow>
                    (case pullChart E S (app_Namespace a) chart w of
                       Inl err \<Rightarrow> Inl (failure ''RenderFailure'' (safeMessage err ''Helm chart could not be pulled'') True)
                     | Inr (path, digest) \<Rightarrow> Inr (input\<lparr>ri_Values := vs, ri_ChartPath := path\<rparr>,
                         \<lparr>hi_chartDigest = digest, hi_secretValues = secrets\<rparr>))))
      | _ \<Rightarrow> Inr (input, no_inputs))"

definition renderDesired :: "'w api \<Rightarrow> lib \<Rightarrow> 'w sources \<Rightarrow> application \<Rightarrow> resolved_source \<Rightarrow> 'w
    \<Rightarrow> revision_failure + (unstructured list \<times> helm_inputs)" where
  "renderDesired E L S a resolved w =
     (let ty = render_Type (src_Render (aspec_Source (app_Spec a))) in
      if ty = RenderTypeNone then
        Inl (failure ''RenderFailure'' (safeMessage (''unsupported render type '' @ Quote E []) ''Desired state renderer is not available'') False)
      else
        (case decryptor E S a w of
           Inl err \<Rightarrow> Inl (failure ''DecryptionFailure'' (safeMessage err ''Decryption keys could not be loaded'') True)
         | Inr keys \<Rightarrow>
             (case helm_render_inputs E L S a ((rendererInput a (res_CacheDir resolved))\<lparr>ri_Decrypt := keys\<rparr>) w of
                Inl f \<Rightarrow> Inl f
              | Inr (input, inputs) \<Rightarrow>
                  (case so_Render S ty input w of
                     Inl err \<Rightarrow> Inl (failure ''RenderFailure''
                         (redactValues (safeMessage err ''Desired state render failed'') (hi_secretValues inputs)) True)
                   | Inr objs \<Rightarrow> Inr (objs, inputs)))))"

definition validateHelmReleaseName :: "'w api \<Rightarrow> 'w sources \<Rightarrow> application \<Rightarrow> string option" where
  "validateHelmReleaseName E S a =
     (case (render_Type (src_Render (aspec_Source (app_Spec a))), render_Helm (src_Render (aspec_Source (app_Spec a)))) of
        (RenderTypeHelm, Some helm) \<Rightarrow>
          if helm_ReleaseName helm = [] \<or> so_ValidReleaseName S (helm_ReleaseName helm) then None
          else Some (''helm release name '' @ Quote E (helm_ReleaseName helm)
            @ '' is not valid: it must be a lowercase DNS subdomain of at most 53 characters; rename the release'')
      | _ \<Rightarrow> None)"

subsection \<open>Missing values keys\<close>

text \<open>A Secret that \<open>valuesFrom\<close> names must hold the key; a ConfigMap without it counts as holding an
  empty document.\<close>

lemma secret_key_required:
  assumes "vref_Kind ref = ''Secret''" "so_GetSecret S namespace (vref_Name ref) w = Inr sec" "sec_Data sec (values_key ref) = None"
  shows "values_loop L S namespace (ref # refs) w vs secrets =
    Inl (Other_Error (''Secret '' @ vref_Name ref @ '' has no key '' @ values_key ref))"
  using assms by (simp add: values_raw_def)

lemma config_map_key_not_required:
  assumes "vref_Kind ref = ''ConfigMap''" "so_GetConfigMap S namespace (vref_Name ref) w = Inr data" "data (values_key ref) = None"
    and "so_UnmarshalYAML S [] = Inr []"
  shows "values_loop L S namespace (ref # refs) w vs secrets = values_loop L S namespace refs w (mergeValues vs []) secrets"
  using assms by (simp add: values_raw_def get_str_def)

end
