(* ===== verification/Controller.thy ===== *)
theory Controller
  imports Controller_Rollout Rendering
begin

text \<open>
  The handlers in which the Application controller's \<open>Reconcile\<close> ends
  (\<open>internal/controller/application_controller.go\<close>, \<open>application_health.go\<close>): using the service
  account, finding or creating the Revision, waiting for dependencies and for an approval, reporting a
  blocked retry, deleting an Application with what it manages, and re-evaluating a finished rollout.
\<close>

subsection \<open>Service account, Revision and dependencies\<close>

definition tenantClient :: "'w api \<Rightarrow> 'w ctl \<Rightarrow> 'w ctl \<times> (string \<times> string) option" where
  "tenantClient E s =
     (let name = effectiveServiceAccount (c_app s) (ct_DefaultServiceAccount E);
          using_account = (\<lambda>n. s\<lparr>c_app := upd_status (\<lambda>st. st\<lparr>astatus_ServiceAccountName := n\<rparr>) (c_app s)\<rparr>)
      in if name = [] then
           (using_account [], Some (''ServiceAccountRequired'',
              ''application has no serviceAccountName and the controller has no default service account''))
         else
           (case ct_Impersonate E of
              None \<Rightarrow> (using_account [], Some (''ServiceAccountFailure'', ''service account impersonation is not configured''))
            | Some for_account \<Rightarrow>
                (case for_account (app_Namespace (c_app s)) name of
                   Some err \<Rightarrow> (using_account [], Some (''ServiceAccountFailure'', error_text err))
                 | None \<Rightarrow> (using_account name, None))))"

definition new_revision :: "application \<Rightarrow> string \<Rightarrow> string \<Rightarrow> string \<Rightarrow> revision" where
  "new_revision a name r desiredHash =
     (let src = aspec_Source (app_Spec a) in
      zero_revision\<lparr>
        rev_Meta := zero_meta\<lparr>om_Name := name, om_Namespace := app_Namespace a,
          om_Labels := [''sync.kuvryn.io/application'' \<mapsto> app_Name a]\<rparr>,
        rev_Spec := \<lparr>rspec_ApplicationRef = app_Name a,
          rspec_Source = \<lparr>rsrc_RepositoryRef = src_RepositoryRef src, rsrc_Revision = r, rsrc_Path = src_Path src,
            rsrc_Render = src_Render src\<rparr>,
          rspec_DesiredStateHash = desiredHash\<rparr>\<rparr>)"

definition ensureRevision :: "'w api \<Rightarrow> lib \<Rightarrow> codec \<Rightarrow> string \<Rightarrow> 'w ctl \<Rightarrow> 'w ctl \<times> api_error option" where
  "ensureRevision E L J r s =
     (let a = c_app s in
      case For L J a r (effectiveServiceAccount a (ct_DefaultServiceAccount E)) of
        None \<Rightarrow> (s, Some (Other_Error (MarshalError_text E)))
      | Some (name, desiredHash) \<Rightarrow>
          (case ct_GetRevision E (app_Namespace a) name (c_world s) of
             Inr out \<Rightarrow> (s\<lparr>c_rev := out\<rparr>, None)
           | Inl err \<Rightarrow>
               if \<not> IsNotFound err then (s, Some err)
               else
                 (case ct_SetControllerReference E a (new_revision a name r desiredHash) of
                    Inl err \<Rightarrow> (s, Some err)
                  | Inr out \<Rightarrow>
                      (case ct_CreateRevision E out (c_world s) of
                         (w, Inr created) \<Rightarrow> (s\<lparr>c_rev := created, c_world := w\<rparr>, None)
                       | (w, Inl err) \<Rightarrow>
                           if \<not> IsAlreadyExists err then (s\<lparr>c_world := w\<rparr>, Some err)
                           else
                             (case ct_GetRevision E (app_Namespace a) name w of
                                Inl err \<Rightarrow> (s\<lparr>c_world := w\<rparr>, Some err)
                              | Inr out \<Rightarrow> (s\<lparr>c_rev := out, c_world := w\<rparr>, None))))))"

definition dependencies_condition :: "application \<Rightarrow> application list \<Rightarrow> condition" where
  "dependencies_condition a apps =
     (let deps = aspec_DependsOn (app_Spec a);
          byName = by_name apps;
          c = \<lparr>cond_Type = ''DependenciesReady'', cond_Status = ConditionTrue, cond_Reason = ''DependenciesHealthy'',
               cond_Message = ''All dependencies are Healthy'', cond_ObservedGeneration = om_Generation (app_Meta a)\<rparr>
      in case dependencyCycle (dependency_fuel deps apps) (app_Name a) deps byName of
           Some (ch # cycle) \<Rightarrow> c\<lparr>cond_Status := ConditionFalse, cond_Reason := ''DependencyCycle'',
             cond_Message := ''dependsOn forms a cycle: '' @ (ch # cycle)\<rparr>
         | _ \<Rightarrow>
             (let pending = filter (\<lambda>dep. \<not> dependencyHealthy (byName dep)) deps in
              if pending \<noteq> [] then c\<lparr>cond_Status := ConditionFalse, cond_Reason := ''DependencyNotReady'',
                cond_Message := ''Waiting for Healthy dependencies: '' @ Join '', '' pending\<rparr>
              else c))"

definition dependenciesReady :: "'w api \<Rightarrow> lib \<Rightarrow> 'w ctl \<Rightarrow> 'w ctl \<times> (api_error + bool)" where
  "dependenciesReady E L s =
     (let set_conditions = (\<lambda>f. s\<lparr>c_app := upd_status (\<lambda>st. st\<lparr>astatus_Conditions := f (astatus_Conditions st)\<rparr>) (c_app s)\<rparr>) in
      if aspec_DependsOn (app_Spec (c_app s)) = [] then
        (set_conditions (\<lambda>cs. RemoveStatusCondition L cs ''DependenciesReady''), Inr True)
      else
        (case ct_ListApplications E (app_Namespace (c_app s)) (c_world s) of
           Inl err \<Rightarrow> (s, Inl err)
         | Inr apps \<Rightarrow>
             (let c = dependencies_condition (c_app s) apps in
              (set_conditions (\<lambda>cs. SetStatusCondition L cs c), Inr (cond_Status c = ConditionTrue)))))"

definition awaitDependencies :: "'w api \<Rightarrow> rollback_hold option \<Rightarrow> 'w ctl \<Rightarrow> 'w ctl \<times> api_error option" where
  "awaitDependencies E hold s =
     write_status E hold (s\<lparr>c_rev := upd_rstatus (\<lambda>st. st\<lparr>rstatus_StartedAt := None\<rparr>) (c_rev s)\<rparr>)"

definition awaitApproval :: "'w api \<Rightarrow> lib \<Rightarrow> rollback_hold option \<Rightarrow> revision_phase \<Rightarrow> bool \<Rightarrow> 'w ctl \<Rightarrow> 'w ctl \<times> api_error option" where
  "awaitApproval E L hold previousPhase stale s =
     (let (r, a) = AwaitApproval (c_rev s) (c_app s);
          s = s\<lparr>c_rev := r, c_app := a\<rparr>;
          s = (if previousPhase \<noteq> RevisionPhaseAwaitingApproval
               then notify E L NotificationAwaitingApproval ''Application plan is awaiting approval'' s else s)
      in case write_status E hold s of
           (s, Some err) \<Rightarrow> (s, Some err)
         | (s, None) \<Rightarrow>
             (if stale then event E EventWarning ''ApprovalStale'' ''Application plan changed after approval; approve the new plan'' s
              else event E EventNormal ''ApprovalRequired'' ''Application plan is awaiting approval'' s, None))"

definition retry_message :: "revision \<Rightarrow> revision_failure \<Rightarrow> string" where
  "retry_message r blocked = safeMessage
     (case rstatus_Failure (rev_Status r) of
        None \<Rightarrow> fail_Message blocked
      | Some f \<Rightarrow> fail_Message blocked @ ''; last failure '' @ fail_Reason f @ '': '' @ fail_Message f)
     (fail_Message blocked)"

definition reportRetryBlocked :: "'w api \<Rightarrow> lib \<Rightarrow> rollback_hold option \<Rightarrow> revision_failure \<Rightarrow> 'w ctl \<Rightarrow> 'w ctl \<times> api_error option" where
  "reportRetryBlocked E L hold blocked s =
     (let message = retry_message (c_rev s) blocked;
          diagnosed = astatus_Diagnosis (app_Status (c_app s));
          a = markApplicationFailure L (c_app s) (fail_Reason blocked) message;
          a = (case rstatus_Failure (rev_Status (c_rev s)) of
                 Some f \<Rightarrow> if healthFailure (fail_Reason f) then upd_status (\<lambda>st. st\<lparr>astatus_Diagnosis := diagnosed\<rparr>) a else a
               | None \<Rightarrow> a)
      in updateApplicationStatus E hold (event E EventWarning (fail_Reason blocked) message (s\<lparr>c_app := a\<rparr>)))"

subsection \<open>Deletion\<close>

definition applicationFinalizer :: string where
  "applicationFinalizer = ''applications.sync.kuvryn.io/finalizer''"

definition set_finalizers :: "(string list \<Rightarrow> string list) \<Rightarrow> application \<Rightarrow> application" where
  "set_finalizers f a = a\<lparr>app_Meta := (app_Meta a)\<lparr>om_Finalizers := f (om_Finalizers (app_Meta a))\<rparr>\<rparr>"

definition ContainsFinalizer :: "application \<Rightarrow> bool" where
  "ContainsFinalizer a \<longleftrightarrow> applicationFinalizer \<in> set (om_Finalizers (app_Meta a))"

definition RemoveFinalizer :: "application \<Rightarrow> application" where
  "RemoveFinalizer a = set_finalizers (filter (\<lambda>f. f \<noteq> applicationFinalizer)) a"

definition warnSkippedKinds :: "'w api \<Rightarrow> string \<Rightarrow> string list \<Rightarrow> 'w ctl \<Rightarrow> 'w ctl" where
  "warnSkippedKinds E reason kinds s =
     (if kinds = [] then s
      else event E EventWarning reason (''Service account may not list '' @ Join '', '' kinds
             @ ''; managed objects of these kinds are not deleted'') s)"

definition list_kinds :: "gvk list \<Rightarrow> list_options" where
  "list_kinds kinds = \<lparr>lo_DesiredKinds = kinds, lo_MetadataOnly = None, lo_Exclude = None\<rparr>"

text \<open>The objects a deletion removes, in order.\<close>

definition delete_managed :: "'w api \<Rightarrow> lib \<Rightarrow> unstructured list \<Rightarrow> 'w ctl \<Rightarrow> 'w ctl \<times> api_error option" where
  "delete_managed E L managed s =
     (let eligible = Prune L (Eligible (Plan L managed \<lparr>Application = app_Name (c_app s), AllowHighRisk = True\<rparr>)) in
      case delete_each (tn_Delete E) eligible (c_world s) of
        (w, None) \<Rightarrow> (s\<lparr>c_world := w\<rparr>, None)
      | (w, Some err) \<Rightarrow>
          (if IsForbidden err then event E EventWarning ''Forbidden''
               (safeMessage (error_text err) ''Application service account may not delete a managed resource'') (s\<lparr>c_world := w\<rparr>)
           else s\<lparr>c_world := w\<rparr>, Some err))"

definition reconcileDelete :: "'w api \<Rightarrow> lib \<Rightarrow> 'w ctl \<Rightarrow> 'w ctl \<times> api_error option" where
  "reconcileDelete E L s =
     (let finish = (\<lambda>s. updateKeepingStatus E (s\<lparr>c_app := RemoveFinalizer (c_app s)\<rparr>)) in
      if \<not> ContainsFinalizer (c_app s) then (s, None)
      else if aspec_DeletionPolicy (app_Spec (c_app s)) = DeletionPolicyDeleteManagedResources then
        (case tenantClient E s of
           (s, Some (_, err)) \<Rightarrow> finish (event E EventWarning ''ManagedResourcesOrphaned''
               (safeMessage err ''Application service account could not be used'') s)
         | (s, None) \<Rightarrow>
             (case ListManaged L (tn_Reader E (c_world s)) (c_app s) (list_kinds []) of
                Inl err \<Rightarrow> (s, Some err)
              | Inr (managed, skipped) \<Rightarrow>
                  (case delete_managed E L managed (warnSkippedKinds E ''ManagedResourcesOrphaned'' skipped s) of
                     (s, Some err) \<Rightarrow> (s, Some err)
                   | (s, None) \<Rightarrow> finish s)))
      else finish s)"

subsection \<open>A finished rollout (\<open>application_health.go\<close>)\<close>

definition healthRecheck :: "'w api \<Rightarrow> int" where
  "healthRecheck E = (if ct_DriftResyncInterval E > 0 then ct_DriftResyncInterval E else 300 * second)"

fun finished_results :: "'w api \<Rightarrow> lib \<Rightarrow> evaluator \<Rightarrow> live_result \<Rightarrow> unstructured list
    \<Rightarrow> api_error + (health_result list \<times> unstructured list)" where
  "finished_results E L ev found [] = Inr ([], [])"
| "finished_results E L ev found (obj # objs) =
     (case FromObject L obj of
        Inl err \<Rightarrow> Inl (Other_Error (id_error_text E L obj err))
      | Inr i \<Rightarrow>
          (case
             (case map_of (live_Found found) i of
                None \<Rightarrow> Inr (\<lparr>hr_Resource = i, hr_State = HealthStateDegraded, hr_Reason = ''Missing'',
                          hr_Message = ''resource no longer exists''\<rparr>, [])
              | Some current \<Rightarrow>
                  (case Evaluator_Evaluate L ev current of
                     Inl err \<Rightarrow> Inl (Other_Error (id_error_text E L current err))
                   | Inr result \<Rightarrow> Inr (result, [current]))) of
             Inl err \<Rightarrow> Inl err
           | Inr (result, seen) \<Rightarrow>
               (case finished_results E L ev found objs of
                  Inl err \<Rightarrow> Inl err
                | Inr (results, observed) \<Rightarrow> Inr (result # results, seen @ observed))))"

definition sync_objects :: "lib \<Rightarrow> unstructured list \<Rightarrow> unstructured list" where
  "sync_objects L rendered = concat (map grp_Objects (filter (\<lambda>g. grp_Stage g = StageSync) (Groups L rendered)))"

definition unhealthy_message :: "resource_health_summary \<Rightarrow> diagnosis_cause list \<Rightarrow> string" where
  "unhealthy_message summary causes =
     (case causes of
        [] \<Rightarrow> itoa (hs_Total summary - hs_Healthy summary) @ '' of '' @ itoa (hs_Total summary) @ '' resources are not healthy''
      | cause # _ \<Rightarrow> ref_Kind (dc_Resource cause) @ '' '' @ ref_Namespace (dc_Resource cause) @ ''/''
          @ ref_Name (dc_Resource cause) @ '': '' @ dc_Reason cause)"

definition finishedRolloutHealth :: "'w api \<Rightarrow> lib \<Rightarrow> unstructured list \<Rightarrow> live_result \<Rightarrow> health_state \<Rightarrow> 'w ctl
    \<Rightarrow> 'w ctl \<times> (api_error + (health_state \<times> string))" where
  "finishedRolloutHealth E L rendered found previousHealth s =
     (case healthEvaluator E s of
        (s, Inl err) \<Rightarrow> (s, Inl err)
      | (s, Inr ev) \<Rightarrow>
          (case finished_results E L ev found (sync_objects L rendered) of
             Inl err \<Rightarrow> (s, Inl err)
           | Inr (results, observed) \<Rightarrow>
               (let summary = Summary results;
                    s = s\<lparr>c_app := upd_status (\<lambda>st. st\<lparr>astatus_Resources := summary\<rparr>) (c_app s)\<rparr>;
                    (s, evident) = diagnose E L results observed (hs_Degraded summary > 0) previousHealth s
                in if hs_Healthy summary = hs_Total summary then (s, Inr (HealthStateHealthy, []))
                   else (s, Inr (if hs_Degraded summary > 0 \<or> evident then HealthStateDegraded else HealthStateProgressing,
                                 unhealthy_message summary (astatus_Diagnosis (app_Status (c_app s))))))))"

definition set_health :: "health_state \<Rightarrow> health_state \<Rightarrow> 'w ctl \<Rightarrow> 'w ctl" where
  "set_health health state s =
     s\<lparr>c_app := upd_status (\<lambda>st. st\<lparr>astatus_Health := health, astatus_State := state\<rparr>) (c_app s)\<rparr>"

definition markFinishedRolloutUnhealthy :: "'w api \<Rightarrow> lib \<Rightarrow> rollback_hold option \<Rightarrow> health_state \<Rightarrow> string \<Rightarrow> health_state
    \<Rightarrow> 'w ctl \<Rightarrow> 'w ctl" where
  "markFinishedRolloutUnhealthy E L hold state message previousHealth s =
     (let s = set_health state state s;
          (reason, message) = (case hold of
              None \<Rightarrow> (health_state_string state, message)
            | Some h \<Rightarrow> (''RolledBack'', message @ ''; '' @ holdMessage (hold_manual h)));
          s = s\<lparr>c_app := setReady L (c_app s) ConditionFalse reason message\<rparr>
      in if state = HealthStateDegraded \<and> previousHealth \<noteq> HealthStateDegraded
         then event E EventWarning ''HealthDegraded'' (''Application became Degraded after its rollout: '' @ message) s
         else s)"

definition markFinishedRolloutRecovered :: "lib \<Rightarrow> rollback_hold option \<Rightarrow> application \<Rightarrow> application" where
  "markFinishedRolloutRecovered L hold a =
     (case FindStatusCondition L (astatus_Conditions (app_Status a)) ReadyCondition of
        None \<Rightarrow> a
      | Some ready \<Rightarrow>
          if cond_Status ready \<noteq> ConditionFalse then a
          else
            (case hold of
               Some h \<Rightarrow> if cond_Reason ready = ''RolledBack''
                 then setReady L a ConditionFalse ''RolledBack'' (holdMessage (hold_manual h)) else a
             | None \<Rightarrow> if cond_Reason ready = ''Degraded'' \<or> cond_Reason ready = ''Progressing''
                 then setReady L a ConditionTrue ''Healthy'' ''Application is Healthy; live state has drifted from its deployed Revision''
                 else a))"

definition rest_in_phase :: "revision_phase \<Rightarrow> 'w ctl \<Rightarrow> 'w ctl" where
  "rest_in_phase previousPhase s =
     s\<lparr>c_rev := upd_rstatus (\<lambda>st. st\<lparr>rstatus_Phase := finishedPhase previousPhase\<rparr>) (c_rev s)\<rparr>"

definition keepFinishedRollout :: "'w api \<Rightarrow> rollback_hold option \<Rightarrow> revision_phase \<Rightarrow> 'w ctl \<Rightarrow> 'w reconciled" where
  "keepFinishedRollout E hold previousPhase s =
     (case updateRevisionStatus E (rest_in_phase previousPhase s) of
        (s, Some err) \<Rightarrow> (s, 0, Some err)
      | (s, None) \<Rightarrow> (case updateApplicationStatus E hold s of (s, err) \<Rightarrow> (s, healthRecheck E, err)))"

end
