(* ===== verification/Reconciler.thy ===== *)
theory Reconciler
  imports Controller
begin

text \<open>
  The Application controller's \<open>Reconcile\<close> (\<open>internal/controller/application_controller.go\<close>). One call
  is cut at its early returns into stages, in the order of the source: \<open>admit\<close> (deletion,
  suspension, service account, repository), \<open>resolve_source\<close> (the rollback request and the commit),
  \<open>choose_revision\<close> (the Revision, and the hold of a completed rollback), \<open>begin_attempt\<close> (the retry
  guard and the dependencies), \<open>render_revision\<close>, \<open>plan_revision\<close> and \<open>act_on_plan\<close>. A stage that
  ends the reconcile returns its outcome in \<open>Inl\<close>. Metrics, traces and logs are left out.
\<close>

definition fails_application :: "'w api \<Rightarrow> lib \<Rightarrow> rollback_hold option \<Rightarrow> string \<Rightarrow> string \<Rightarrow> 'w ctl \<Rightarrow> 'w ctl \<times> api_error option" where
  "fails_application E L hold reason message s =
     updateApplicationStatus E hold (s\<lparr>c_app := markApplicationFailure L (c_app s) reason message\<rparr>)"

subsection \<open>Admission\<close>

definition suspended :: "application \<Rightarrow> application" where
  "suspended a = upd_status (\<lambda>st. st\<lparr>astatus_ObservedGeneration := om_Generation (app_Meta a),
     astatus_State := HealthStateSuspended, astatus_Health := HealthStateSuspended,
     astatus_Sync := (if astatus_Sync st = SyncStateNone then SyncStateUnknown else astatus_Sync st)\<rparr>) a"

definition find_repository :: "'w api \<Rightarrow> lib \<Rightarrow> 'w sources \<Rightarrow> 'w ctl
    \<Rightarrow> ('w reconciled) + ('w ctl \<times> git_repository_spec \<times> credentials)" where
  "find_repository E L S s =
     (case so_GetRepository S (app_Namespace (c_app s)) (src_RepositoryRef (aspec_Source (app_Spec (c_app s)))) (c_world s) of
        Inl err \<Rightarrow>
          if IsNotFound err then Inl (ends (fails_application E L None ''SourceFailure'' ''Referenced Repository was not found'' s))
          else Inl (s, 0, Some err)
      | Inr repository \<Rightarrow>
          if repo_Type (repo_Spec repository) \<noteq> RepositoryTypeNone \<and> repo_Type (repo_Spec repository) \<noteq> RepositoryTypeGit then
            Inl (ends (fails_application E L None ''SourceFailure'' ''Only Git repositories are supported'' s))
          else
            (case repo_Git (repo_Spec repository) of
               None \<Rightarrow> Inl (ends (fails_application E L None ''SourceFailure'' ''Git repository configuration is required'' s))
             | Some g \<Rightarrow>
                 (case loadGitCredentials E repository (c_world s) of
                    Inl err \<Rightarrow> Inl (ends (fails_application E L None (failureReason err ''SourceFailure'')
                        (safeMessage (source_error_text err) ''Application source authentication failed'') s))
                  | Inr c \<Rightarrow> Inr (s, g, c))))"

definition admit :: "'w api \<Rightarrow> lib \<Rightarrow> 'w sources \<Rightarrow> 'w ctl
    \<Rightarrow> ('w reconciled) + ('w ctl \<times> git_repository_spec \<times> credentials)" where
  "admit E L S s =
     (let a = c_app s in
      if om_DeletionTimestamp (app_Meta a) \<noteq> None then Inl (ends (reconcileDelete E L s))
      else if aspec_DeletionPolicy (app_Spec a) = DeletionPolicyDeleteManagedResources \<and> \<not> ContainsFinalizer a then
        Inl (ends (updateKeepingStatus E (s\<lparr>c_app := set_finalizers (\<lambda>fs. fs @ [applicationFinalizer]) a\<rparr>)))
      else if aspec_Suspend (app_Spec a) then Inl (ends (updateApplicationStatus E None (s\<lparr>c_app := suspended a\<rparr>)))
      else
        (case validateHelmReleaseName E S a of
           Some err \<Rightarrow> Inl (ends (fails_application E L None ''ValidationFailure'' err s))
         | None \<Rightarrow>
             (case tenantClient E s of
                (s, Some (reason, err)) \<Rightarrow> Inl (ends (fails_application E L None reason
                    (safeMessage err ''Application service account could not be used'') s))
              | (s, None) \<Rightarrow> find_repository E L S s)))"

subsection \<open>Source\<close>

definition rollbackSourceRetry :: int where
  "rollbackSourceRetry = 60 * second"

definition resolve_at :: "'w sources \<Rightarrow> git_repository_spec \<Rightarrow> credentials \<Rightarrow> string \<Rightarrow> 'w \<Rightarrow> source_error + resolved_source" where
  "resolve_at S g c ref w = so_Resolve S \<lparr>gr_URL = git_URL g, gr_Revision = ref, gr_Auth = c\<rparr> w"

definition source_failed :: "'w api \<Rightarrow> lib \<Rightarrow> rollback_hold option \<Rightarrow> source_error \<Rightarrow> int \<Rightarrow> 'w ctl \<Rightarrow> 'w reconciled" where
  "source_failed E L hold err after s =
     (case fails_application E L hold (failureReason err ''SourceFailure'')
            (safeMessage (source_error_text err) ''Application source resolution failed'') s of
        (s, e) \<Rightarrow> (s, after, e))"

definition recordRollbackIntent :: "'w api \<Rightarrow> rollback_request \<Rightarrow> 'w ctl \<Rightarrow> 'w ctl \<times> rollback_request \<times> api_error option" where
  "recordRollbackIntent E req s =
     (let req = (if req_kind req = [] then req\<lparr>req_kind := RollbackKindManual\<rparr> else req) in
      if req = rollbackRequestOf (c_app s) then (s, req, None)
      else (case updateKeepingStatus E (s\<lparr>c_app := setRollbackRequest (c_app s) req\<rparr>) of (s, err) \<Rightarrow> (s, req, err)))"

text \<open>The rollback request with its source and kind, if one is active.\<close>

definition rollback_intent :: "'w api \<Rightarrow> lib \<Rightarrow> 'w sources \<Rightarrow> git_repository_spec \<Rightarrow> credentials \<Rightarrow> string \<Rightarrow> 'w ctl
    \<Rightarrow> ('w reconciled) + ('w ctl \<times> rollback_request)" where
  "rollback_intent E L S g c ref s =
     (let request = rollbackRequestOf (c_app s) in
      if \<not> active request then Inr (s, request)
      else
        (case
           (if req_from request = [] then
              (case resolve_at S g c ref (c_world s) of
                 Inl err \<Rightarrow> Inl (source_failed E L None err rollbackSourceRetry s)
               | Inr desired \<Rightarrow> Inr (request\<lparr>req_from := res_Revision desired\<rparr>))
            else Inr request) of
           Inl out \<Rightarrow> Inl out
         | Inr request \<Rightarrow>
             (case recordRollbackIntent E request s of
                (s, _, Some err) \<Rightarrow> Inl (s, 0, Some err)
              | (s, request, None) \<Rightarrow> Inr (s, request))))"

definition spec_ref :: "application \<Rightarrow> git_repository_spec \<Rightarrow> string" where
  "spec_ref a g =
     (let ref = TrimSpace (src_Revision (aspec_Source (app_Spec a))) in if ref = [] then git_Revision g else ref)"

definition resolve_source :: "'w api \<Rightarrow> lib \<Rightarrow> 'w sources \<Rightarrow> git_repository_spec \<Rightarrow> credentials \<Rightarrow> 'w ctl
    \<Rightarrow> ('w reconciled) + ('w ctl \<times> rollback_request \<times> resolved_source)" where
  "resolve_source E L S g c s =
     (let ref = spec_ref (c_app s) g in
      case rollback_intent E L S g c ref s of
        Inl out \<Rightarrow> Inl out
      | Inr (s, request) \<Rightarrow>
          (case resolve_at S g c (if active request then req_target request else ref) (c_world s) of
             Inl err \<Rightarrow> Inl (source_failed E L None err (if active request then rollbackSourceRetry else 0) s)
           | Inr resolved \<Rightarrow> Inr (s, request, resolved)))"

subsection \<open>Revision and hold\<close>

definition planning_status :: "string \<Rightarrow> application \<Rightarrow> application" where
  "planning_status desired a = upd_status (\<lambda>st. st\<lparr>astatus_ObservedGeneration := om_Generation (app_Meta a),
     astatus_DesiredRevision := desired, astatus_State := HealthStateUnknown, astatus_Health := HealthStateUnknown,
     astatus_Sync := SyncStatePlanning\<rparr>) a"

text \<open>With a held Revision: an active rollback to it, or its commit running again, lifts the hold;
  otherwise the reconcile goes on with the deployed revision.\<close>

definition keep_deployed :: "'w api \<Rightarrow> lib \<Rightarrow> codec \<Rightarrow> 'w sources \<Rightarrow> git_repository_spec \<Rightarrow> credentials \<Rightarrow> rollback_hold
    \<Rightarrow> health_state \<Rightarrow> health_state \<Rightarrow> 'w ctl \<Rightarrow> ('w reconciled) + ('w ctl \<times> resolved_source \<times> rollback_hold option)" where
  "keep_deployed E L J S g c hold previousHealth previousState s =
     (let deployed = astatus_DeployedRevision (app_Status (c_app s)) in
      if deployed = [] then Inl (ends (reportHold E L hold previousHealth previousState s))
      else
        (case resolve_at S g c deployed (c_world s) of
           Inl err \<Rightarrow> Inl (source_failed E L (Some hold) err 0 s)
         | Inr resolved \<Rightarrow>
             (case ensureRevision E L J (res_Revision resolved) s of
                (s, Some err) \<Rightarrow> Inl (s, 0, Some err)
              | (s, None) \<Rightarrow> Inr (s, resolved, Some hold))))"

definition choose_revision :: "'w api \<Rightarrow> lib \<Rightarrow> codec \<Rightarrow> 'w sources \<Rightarrow> git_repository_spec \<Rightarrow> credentials \<Rightarrow> rollback_request
    \<Rightarrow> resolved_source \<Rightarrow> 'w ctl \<Rightarrow> ('w reconciled) + ('w ctl \<times> resolved_source \<times> rollback_hold option)" where
  "choose_revision E L J S g c request resolved s =
     (let previousHealth = astatus_Health (app_Status (c_app s));
          previousState = astatus_State (app_Status (c_app s));
          s = s\<lparr>c_app := planning_status (res_Revision resolved) (c_app s)\<rparr>
      in case ensureRevision E L J (res_Revision resolved) s of
           (s, Some err) \<Rightarrow> Inl (s, 0, Some err)
         | (s, None) \<Rightarrow>
             (case heldBy L (c_rev s) of
                None \<Rightarrow> Inr (s, resolved, None)
              | Some held \<Rightarrow>
                  if active request then
                    (case liftHold E L ''a rollback to it'' s of
                       (s, Some err) \<Rightarrow> Inl (s, 0, Some err)
                     | (s, None) \<Rightarrow> Inr (s, resolved, None))
                  else if astatus_DeployedRevision (app_Status (c_app s)) = res_Revision resolved then
                    (case liftHold E L ''its commit being deployed again'' s of
                       (s, Some err) \<Rightarrow> Inl (s, 0, Some err)
                     | (s, None) \<Rightarrow> Inr (s, resolved, None))
                  else keep_deployed E L J S g c
                         \<lparr>hold_desired = res_Revision resolved, hold_manual = (cond_Reason held = manualRollbackReason)\<rparr>
                         previousHealth previousState s))"

subsection \<open>Starting an attempt\<close>

definition retry_guard :: "'w api \<Rightarrow> lib \<Rightarrow> rollback_hold option \<Rightarrow> rollback_request \<Rightarrow> 'w ctl \<Rightarrow> ('w reconciled) + unit" where
  "retry_guard E L hold request s =
     (case retryBlocked (c_app s) (c_rev s) (clock E (c_world s)) of
        (None, _) \<Rightarrow> Inr ()
      | (Some blocked, exhausted) \<Rightarrow>
          if active request \<and> \<not> exhausted then
            (case reportRetryBlocked E L hold blocked s of (s', err) \<Rightarrow> Inl (s', retryBackoff (c_rev s), err))
          else if active request then
            (case abandonRollback E request (fail_Message blocked) s of
               (s, Some err) \<Rightarrow> Inl (s, 0, Some err)
             | (s, None) \<Rightarrow> Inl (ends (reportRetryBlocked E L hold blocked s)))
          else Inl (ends (reportRetryBlocked E L hold blocked s)))"

definition new_attempt :: "revision_phase \<Rightarrow> bool" where
  "new_attempt phase \<longleftrightarrow> phase \<in> {RevisionPhaseNone, RevisionPhasePending, RevisionPhaseFailed}"

text \<open>Whether the rollout starts over, running its hooks again.\<close>

definition fresh_rollout :: "rollout_state \<Rightarrow> application \<Rightarrow> string \<Rightarrow> bool" where
  "fresh_rollout rollout a resolved \<longleftrightarrow>
     rollout = rolloutNotStarted \<or> (rollout = rolloutComplete \<and> astatus_DeployedRevision (app_Status a) \<noteq> resolved)"

definition start_planning :: "'w api \<Rightarrow> time \<Rightarrow> 'w ctl \<Rightarrow> 'w ctl \<times> api_error option" where
  "start_planning E now s =
     (let r = (if new_attempt (rev_Phase (c_rev s))
               then upd_rstatus (\<lambda>st. st\<lparr>rstatus_Attempts := rstatus_Attempts st + 1, rstatus_StartedAt := None\<rparr>) (c_rev s)
               else c_rev s);
          (r, a) = StartPlanning r (c_app s) now
      in updateRevisionStatus E (s\<lparr>c_rev := r, c_app := a\<rparr>))"

definition reset_rollout :: "rollout_state \<Rightarrow> revision \<Rightarrow> revision" where
  "reset_rollout rollout r = upd_rstatus (\<lambda>st. st\<lparr>rstatus_Hooks := [],
     rstatus_StartedAt := (if rollout = rolloutComplete then None else rstatus_StartedAt st)\<rparr>) r"

definition begin_attempt :: "'w api \<Rightarrow> lib \<Rightarrow> rollback_hold option \<Rightarrow> rollback_request \<Rightarrow> resolved_source \<Rightarrow> 'w ctl
    \<Rightarrow> ('w reconciled) + ('w ctl \<times> rollout_state \<times> bool \<times> time)" where
  "begin_attempt E L hold request resolved s =
     (case retry_guard E L hold request s of
        Inl out \<Rightarrow> Inl out
      | Inr _ \<Rightarrow>
          (let rollout = rolloutOf L (c_rev s) (rev_Phase (c_rev s));
               fresh = fresh_rollout rollout (c_app s) (res_Revision resolved);
               begun = (\<lambda>s. let now = clock E (c_world s) in
                         case start_planning E now s of
                           (s, Some err) \<Rightarrow> Inl (s, 0, Some err)
                         | (s, None) \<Rightarrow> Inr (s, rollout, fresh, now))
           in if \<not> fresh then begun s
              else
                (case dependenciesReady E L (s\<lparr>c_rev := reset_rollout rollout (c_rev s)\<rparr>) of
                   (s, Inl err) \<Rightarrow> Inl (s, 0, Some err)
                 | (s, Inr False) \<Rightarrow> Inl (ends (awaitDependencies E hold s))
                 | (s, Inr True) \<Rightarrow> begun s)))"

subsection \<open>Rendering and planning\<close>

fun hook_error_text :: "'w api \<Rightarrow> hook_error \<Rightarrow> string" where
  "hook_error_text E (UnknownHook key v) =
     ''unknown '' @ key @ '' value '' @ Quote E v
     @ (if key = KuvrynSyncHookAnnotation then '': use pre-sync, post-sync, or skip'' else [])"

fun scope_error_text :: "lib \<Rightarrow> scope_error \<Rightarrow> string" where
  "scope_error_text L (ResolveScopeError k err) = ''resolve scope of '' @ GVKString L k @ '': '' @ error_text err"

fun validate_error_text :: "validate_error \<Rightarrow> string" where
  "validate_error_text MissingAPIVersion = ''rendered resource is missing apiVersion''"
| "validate_error_text (MissingKind v) = ''rendered resource '' @ v @ '' is missing kind''"
| "validate_error_text (MissingName v k) = ''rendered resource '' @ v @ ''/'' @ k @ '' is missing metadata.name''"
| "validate_error_text (OutsideDestination v k ns n dest) =
     ''rendered resource '' @ v @ ''/'' @ k @ '' '' @ ns @ ''/'' @ n @ '' targets namespace outside destination '' @ dest"
| "validate_error_text (DuplicateResource i) =
     ''duplicate rendered resource '' @ VID_APIVersion i @ ''/'' @ VID_Kind i @ '' '' @ VID_Namespace i @ ''/'' @ VID_Name i"

definition fails :: "'w api \<Rightarrow> lib \<Rightarrow> rollback_hold option \<Rightarrow> revision_failure \<Rightarrow> 'w ctl \<Rightarrow> 'w reconciled" where
  "fails E L hold f s = ends (failRevisionAndApplication E L hold f s)"

text \<open>The rendered objects that are deployed, in the namespace they are deployed to, or the failure.\<close>

definition desired_objects :: "'w api \<Rightarrow> lib \<Rightarrow> 'w sources \<Rightarrow> application \<Rightarrow> resolved_source \<Rightarrow> 'w
    \<Rightarrow> revision_failure + (unstructured list \<times> helm_inputs)" where
  "desired_objects E L S a resolved w =
     (case renderDesired E L S a resolved w of
        Inl f \<Rightarrow> Inl f
      | Inr (rendered, inputs) \<Rightarrow>
          (case ValidateHooks L rendered of
             Some (obj, err) \<Rightarrow> Inl (failure ''ValidationFailure''
                 (safeMessage (''rendered resource '' @ GetAPIVersion L obj @ ''/'' @ GetKind L obj @ '' '' @ GetName L obj
                    @ '': '' @ hook_error_text E err) ''Rendered hook annotation is invalid'') False)
           | None \<Rightarrow>
               (let rendered = filter (\<lambda>obj. Hook L obj \<noteq> StageSkip) rendered in
                case defaultDestinationNamespace L rendered (aspec_DestinationNamespace (app_Spec a))
                       (NewScopes L (so_Mapper S) rendered) of
                  Inl err \<Rightarrow> Inl (failure ''ValidationFailure''
                      (safeMessage (scope_error_text L err) ''Rendered resource scope could not be resolved'') True)
                | Inr rendered \<Rightarrow> Inr (rendered, inputs))))"

text \<open>The desired state is fingerprinted on the Revision before it is planned.\<close>

definition render_revision :: "'w api \<Rightarrow> lib \<Rightarrow> codec \<Rightarrow> 'w sources \<Rightarrow> rollback_hold option \<Rightarrow> resolved_source \<Rightarrow> 'w ctl
    \<Rightarrow> ('w reconciled) + ('w ctl \<times> unstructured list \<times> helm_inputs)" where
  "render_revision E L J S hold resolved s =
     (case desired_objects E L S (c_app s) resolved (c_world s) of
        Inl f \<Rightarrow> Inl (fails E L hold f s)
      | Inr (rendered, inputs) \<Rightarrow>
          (case desiredStateHash L J rendered of
             None \<Rightarrow> Inl (fails E L hold (failure ''PlanFailure''
                 (safeMessage (MarshalError_text E) ''Desired state could not be fingerprinted'') False) s)
           | Some desiredHash \<Rightarrow>
               if desiredHash = rev_DesiredStateHash (c_rev s) then Inr (s, rendered, inputs)
               else
                 (let r = (c_rev s)\<lparr>rev_Spec := (rev_Spec (c_rev s))\<lparr>rspec_DesiredStateHash := desiredHash\<rparr>\<rparr> in
                  case ct_UpdateRevision E r (c_world s) of
                    (w, Some err) \<Rightarrow> Inl (s\<lparr>c_rev := r, c_world := w\<rparr>, 0, Some err)
                  | (w, None) \<Rightarrow> Inr (s\<lparr>c_rev := r, c_world := w\<rparr>, rendered, inputs))))"

record planned_revision_state =
  pd_rendered :: "unstructured list"
  pd_live :: live_result
  pd_pruning :: prune_result
  pd_plan :: plan
  pd_hooks :: hook_states

definition id_failure_text :: "'w api \<Rightarrow> lib \<Rightarrow> unstructured list \<Rightarrow> id_error \<Rightarrow> string" where
  "id_failure_text E L objs err =
     (case List.find (\<lambda>obj. isl (FromObject L obj)) objs of
        Some obj \<Rightarrow> id_error_text E L obj err
      | None \<Rightarrow> [])"

fun plan_error_text :: "'w api \<Rightarrow> lib \<Rightarrow> unstructured list \<Rightarrow> plan_error \<Rightarrow> string" where
  "plan_error_text E L objs (BadIdentity err) = id_failure_text E L objs err"
| "plan_error_text E L objs (BadObject err) = NormalizeError_text E err"

text \<open>The stale managed objects, split by prune; only with the prune policy.\<close>

definition prune_plan :: "'w api \<Rightarrow> lib \<Rightarrow> unstructured list \<Rightarrow> unstructured list \<Rightarrow> 'w ctl
    \<Rightarrow> 'w ctl \<times> (api_error + prune_result)" where
  "prune_plan E L rendered liveObjects s =
     (if \<not> sync_Prune (aspec_Sync (app_Spec (c_app s))) then (s, Inr \<lparr>Eligible = [], Skipped = [], Rejected = []\<rparr>)
      else
        (case ListManaged L (tn_Reader E (c_world s)) (c_app s) (list_kinds (objectKinds L rendered)) of
           Inl err \<Rightarrow> (s, Inl err)
         | Inr (managed, skipped) \<Rightarrow>
             (warnSkippedKinds E ''PruneInventoryIncomplete'' skipped s,
              Inr (Plan L (staleManagedObjects L rendered liveObjects managed)
                     \<lparr>Application = app_Name (c_app s), AllowHighRisk = False\<rparr>))))"

definition build_plan :: "'w api \<Rightarrow> lib \<Rightarrow> unstructured list \<Rightarrow> unstructured list \<Rightarrow> rejected list \<Rightarrow> string + plan" where
  "build_plan E L planned liveObjects kept =
     (case Build L planned liveObjects of
        Inl err \<Rightarrow> Inl (plan_error_text E L (planned @ liveObjects) err)
      | Inr p \<Rightarrow>
          (case Keep L p kept of
             (p, None) \<Rightarrow> Inr p
           | (p, Some err) \<Rightarrow> Inl (id_failure_text E L (map Rejected_Object kept) err)))"

definition planLimit :: "'w sources \<Rightarrow> int" where
  "planLimit S = (if so_PlanLimit S > 0 then so_PlanLimit S else 50)"

definition maxPruneSkippedNamed :: nat where
  "maxPruneSkippedNamed = 5"

definition warnPruneSkipped :: "'w api \<Rightarrow> lib \<Rightarrow> rejected list \<Rightarrow> 'w ctl \<Rightarrow> 'w ctl" where
  "warnPruneSkipped E L skipped s =
     (if skipped = [] then s
      else
        (let named = map (\<lambda>kept. GetKind L (Rejected_Object kept) @ '' '' @ GetNamespace L (Rejected_Object kept) @ ''/''
                 @ GetName L (Rejected_Object kept) @ '' ('' @ Rejected_Reason kept @ '')'') (take maxPruneSkippedNamed skipped);
             message = ''Prune kept '' @ itoa (int (length skipped)) @ '' managed resource(s) no longer in desired state: ''
                 @ Join '', '' named;
             more = int (length skipped) - int (length named);
             message = (if more > 0 then message @ '', and '' @ itoa more @ '' more'' else message)
         in event E EventWarning ''PruneSkipped'' (safeMessage message ''Prune kept managed resources'') s))"

text \<open>What a plan leaves on the Revision: the truncated plan with the digest of the full one.\<close>

definition record_plan :: "lib \<Rightarrow> 'w sources \<Rightarrow> helm_inputs \<Rightarrow> plan \<Rightarrow> string \<Rightarrow> revision \<Rightarrow> revision" where
  "record_plan L S inputs p digest r =
     upd_rstatus (\<lambda>st. st\<lparr>
       rstatus_Plan := (redactPlanValues (RevisionPlan L p (planLimit S)) (hi_secretValues inputs))\<lparr>plan_Digest := digest\<rparr>,
       rstatus_ChartDigest := hi_chartDigest inputs, rstatus_Failure := None\<rparr>) r"

definition record_planned :: "'w api \<Rightarrow> lib \<Rightarrow> codec \<Rightarrow> 'w sources \<Rightarrow> rollback_hold option \<Rightarrow> bool \<Rightarrow> helm_inputs
    \<Rightarrow> planned_revision_state \<Rightarrow> 'w ctl \<Rightarrow> ('w reconciled) + ('w ctl \<times> planned_revision_state)" where
  "record_planned E L J S hold newAttempt inputs pd s =
     (case planDigest L J (rev_DesiredStateHash (c_rev s)) (pd_plan pd) (hi_secretValues inputs) of
        None \<Rightarrow>
          Inl (fails E L hold (failure ''PlanFailure'' (safeMessage (MarshalError_text E) ''Plan could not be fingerprinted'') False)
            (s\<lparr>c_rev := upd_rstatus (\<lambda>st. st\<lparr>
                 rstatus_Plan := redactPlanValues (RevisionPlan L (pd_plan pd) (planLimit S)) (hi_secretValues inputs),
                 rstatus_ChartDigest := hi_chartDigest inputs\<rparr>) (c_rev s)\<rparr>))
      | Some digest \<Rightarrow>
          (let s = s\<lparr>c_rev := record_plan L S inputs (pd_plan pd) digest (c_rev s)\<rparr>;
               s = event E EventNormal ''PlanCreated'' ''Application plan created'' s;
               s = (if newAttempt then warnPruneSkipped E L (Skipped (pd_pruning pd)) s else s)
           in Inr (s, pd)))"

definition plan_revision :: "'w api \<Rightarrow> lib \<Rightarrow> codec \<Rightarrow> 'w sources \<Rightarrow> rollback_hold option \<Rightarrow> bool \<Rightarrow> unstructured list
    \<Rightarrow> helm_inputs \<Rightarrow> 'w ctl \<Rightarrow> ('w reconciled) + ('w ctl \<times> planned_revision_state)" where
  "plan_revision E L J S hold newAttempt rendered inputs s =
     (case Desired L rendered (aspec_DestinationNamespace (app_Spec (c_app s))) of
        Some err \<Rightarrow> Inl (fails E L hold (failure ''ValidationFailure''
            (safeMessage (validate_error_text err) ''Rendered desired state is invalid'') False) s)
      | None \<Rightarrow>
          (let rendered = map (\<lambda>obj. MarkManaged L obj (app_Name (c_app s)) (app_Namespace (c_app s)) (rev_Name (c_rev s))) rendered;
               hooks = hookStates (rstatus_Hooks (rev_Status (c_rev s)));
               planned = withoutCompletedHooks L rendered hooks
           in case live_Read E L planned (c_world s) of
                Inl err \<Rightarrow> Inl (fails E L hold (accessFailure err ''PlanFailure'' ''Live state could not be read'' True) s)
              | Inr lr \<Rightarrow>
                  (case prune_plan E L rendered (map snd (live_Found lr)) s of
                     (s, Inl err) \<Rightarrow> Inl (fails E L hold
                         (accessFailure err ''PlanFailure'' ''Managed resources could not be inventoried'' True) s)
                   | (s, Inr pruning) \<Rightarrow>
                       (case build_plan E L planned (map snd (live_Found lr) @ Eligible pruning) (Skipped pruning) of
                          Inl err \<Rightarrow> Inl (fails E L hold
                              (failure ''PlanFailure'' (safeMessage err ''Plan could not be built'') False) s)
                        | Inr p \<Rightarrow>
                            record_planned E L J S hold newAttempt inputs
                              \<lparr>pd_rendered = rendered, pd_live = lr, pd_pruning = pruning,
                               pd_plan = markConflictPolicy p (EffectiveConflictPolicy (aspec_Sync (app_Spec (c_app s)))),
                               pd_hooks = hooks\<rparr> s))))"

subsection \<open>Acting on the plan\<close>

text \<open>What the earlier stages found out about this attempt.\<close>

record attempt =
  at_hold :: "rollback_hold option"
  at_request :: rollback_request
  at_rollout :: rollout_state
  at_fresh :: bool
  at_previousPhase :: revision_phase
  at_previousHealth :: health_state
  at_previousState :: health_state
  at_now :: time

definition no_changes :: "plan \<Rightarrow> bool" where
  "no_changes p \<longleftrightarrow> sum_Create (pl_Summary p) = 0 \<and> sum_Update (pl_Summary p) = 0 \<and> sum_Delete (pl_Summary p) = 0"

definition rollout_progress_of :: "attempt \<Rightarrow> planned_revision_state \<Rightarrow> rollout_progress" where
  "rollout_progress_of att pd = \<lparr>rp_previousPhase = at_previousPhase att, rp_state = at_rollout att, rp_hooks = pd_hooks pd,
     rp_previousHealth = at_previousHealth att, rp_pruning = pd_pruning pd\<rparr>"

text \<open>The approval of the plan just recorded, with its Events.\<close>

definition ask_approval :: "'w api \<Rightarrow> lib \<Rightarrow> codec \<Rightarrow> attempt \<Rightarrow> 'w ctl \<Rightarrow> 'w ctl \<times> revision_approval option \<times> bool" where
  "ask_approval E L J att s =
     (case rolloutApproval L J (c_app s) (c_rev s) (at_request att) (at_rollout att) of
        (approval, stale, events) \<Rightarrow> (foldl (\<lambda>s (t, reason, message). event E t reason message s) s events, approval, stale))"

definition record_approval :: "revision_approval option \<Rightarrow> 'w ctl \<Rightarrow> 'w ctl" where
  "record_approval approval s = s\<lparr>c_rev := upd_rstatus (\<lambda>st. st\<lparr>rstatus_Approval := approval\<rparr>) (c_rev s)\<rparr>"

definition already_synced :: "'w api \<Rightarrow> lib \<Rightarrow> attempt \<Rightarrow> 'w ctl \<Rightarrow> 'w reconciled" where
  "already_synced E L att s = ends (completeSuccessfulDeployment E L (at_hold att) ''Application already synced''
     (at_previousPhase att \<noteq> RevisionPhaseHealthy \<and> at_previousPhase att \<noteq> RevisionPhaseRolledBack) s)"

definition set_sync :: "sync_state \<Rightarrow> 'w ctl \<Rightarrow> 'w ctl" where
  "set_sync sync s = s\<lparr>c_app := upd_status (\<lambda>st. st\<lparr>astatus_Sync := sync\<rparr>) (c_app s)\<rparr>"

text \<open>Nothing to change, and no rollout in progress.\<close>

definition confirm_synced :: "'w api \<Rightarrow> lib \<Rightarrow> attempt \<Rightarrow> planned_revision_state \<Rightarrow> 'w ctl \<Rightarrow> 'w reconciled" where
  "confirm_synced E L att pd s =
     (let s = s\<lparr>c_app := upd_status (\<lambda>st. st\<lparr>astatus_ManagedKinds :=
                inventoryKinds L (pd_rendered pd) (Skipped (pd_pruning pd))\<rparr>) (c_app s)\<rparr>
      in if at_fresh att \<or> at_rollout att \<noteq> rolloutComplete \<or> active (at_request att) then already_synced E L att s
         else
           (case finishedRolloutHealth E L (pd_rendered pd) (pd_live pd) (at_previousHealth att) (set_sync SyncStateSynced s) of
              (s, Inl err) \<Rightarrow> keepFinishedRollout E (at_hold att) (at_previousPhase att)
                  (set_health (at_previousHealth att) (at_previousState att) s)
            | (s, Inr (state, message)) \<Rightarrow>
                if state \<noteq> HealthStateHealthy then
                  keepFinishedRollout E (at_hold att) (at_previousPhase att)
                    (markFinishedRolloutUnhealthy E L (at_hold att) state message (at_previousHealth att) s)
                else already_synced E L att s))"

definition act_unchanged :: "'w api \<Rightarrow> lib \<Rightarrow> codec \<Rightarrow> attempt \<Rightarrow> planned_revision_state \<Rightarrow> 'w ctl \<Rightarrow> 'w reconciled" where
  "act_unchanged E L J att pd s =
     (if at_rollout att = rolloutInProgress then
        applyAndObserve E L (at_hold att) (pd_rendered pd) (rollout_progress_of att pd) s
      else if active (at_request att) \<and> \<not> sync_Automatic (aspec_Sync (app_Spec (c_app s))) then
        (case ask_approval E L J att s of
           (s, None, stale) \<Rightarrow> ends (awaitApproval E L (at_hold att) (at_previousPhase att) stale s)
         | (s, Some approval, _) \<Rightarrow> confirm_synced E L att pd (record_approval (Some approval) s))
      else confirm_synced E L att pd s)"

text \<open>Differences after the rollout finished, without self-heal.\<close>

definition act_drifted :: "'w api \<Rightarrow> lib \<Rightarrow> attempt \<Rightarrow> planned_revision_state \<Rightarrow> 'w ctl \<Rightarrow> 'w reconciled" where
  "act_drifted E L att pd s =
     (let s = set_health (at_previousHealth att) (at_previousState att) (set_sync SyncStateDrifted s);
          rest = (\<lambda>s. ends (write_status E (at_hold att) (rest_in_phase (at_previousPhase att) s)))
      in if active (at_request att) then rest s
         else
           (case finishedRolloutHealth E L (pd_rendered pd) (pd_live pd) (at_previousHealth att) s of
              (s, Inl err) \<Rightarrow> keepFinishedRollout E (at_hold att) (at_previousPhase att) s
            | (s, Inr (state, message)) \<Rightarrow>
                if state \<noteq> HealthStateHealthy then
                  keepFinishedRollout E (at_hold att) (at_previousPhase att)
                    (markFinishedRolloutUnhealthy E L (at_hold att) state message (at_previousHealth att) s)
                else
                  (let s = set_health state state s
                   in rest (s\<lparr>c_app := markFinishedRolloutRecovered L (at_hold att) (c_app s)\<rparr>))))"

text \<open>Differences to apply: no conflict, ready dependencies, and an approval on manual sync.\<close>

definition act_approved :: "'w api \<Rightarrow> lib \<Rightarrow> codec \<Rightarrow> attempt \<Rightarrow> planned_revision_state \<Rightarrow> 'w ctl \<Rightarrow> 'w reconciled" where
  "act_approved E L J att pd s =
     (case ask_approval E L J att s of
        (s, approval, stale) \<Rightarrow>
          (let automatic_sync = sync_Automatic (aspec_Sync (app_Spec (c_app s))) in
           if \<not> automatic_sync \<and> approval = None then
             ends (awaitApproval E L (at_hold att) (at_previousPhase att) stale s)
           else
             (let s = (if automatic_sync then s else record_approval approval s);
                  s = (if at_rollout att = rolloutComplete
                       then s\<lparr>c_rev := upd_rstatus (\<lambda>st. st\<lparr>rstatus_StartedAt := Some (at_now att)\<rparr>) (c_rev s)\<rparr> else s)
              in applyAndObserve E L (at_hold att) (pd_rendered pd) (rollout_progress_of att pd) s)))"

definition act_changed :: "'w api \<Rightarrow> lib \<Rightarrow> codec \<Rightarrow> attempt \<Rightarrow> planned_revision_state \<Rightarrow> 'w ctl \<Rightarrow> 'w reconciled" where
  "act_changed E L J att pd s =
     (case conflictFailure L (pd_plan pd) of
        Some f \<Rightarrow> fails E L (at_hold att) f s
      | None \<Rightarrow>
          if at_fresh att then act_approved E L J att pd s
          else
            (case dependenciesReady E L s of
               (s, Inl err) \<Rightarrow> (s, 0, Some err)
             | (s, Inr False) \<Rightarrow> ends (awaitDependencies E (at_hold att) s)
             | (s, Inr True) \<Rightarrow> act_approved E L J att pd s))"

definition act_on_plan :: "'w api \<Rightarrow> lib \<Rightarrow> codec \<Rightarrow> attempt \<Rightarrow> planned_revision_state \<Rightarrow> 'w ctl \<Rightarrow> 'w reconciled" where
  "act_on_plan E L J att pd s =
     (if no_changes (pd_plan pd) then act_unchanged E L J att pd s
      else if \<not> at_fresh att \<and> at_rollout att = rolloutComplete \<and> \<not> sync_SelfHeal (aspec_Sync (app_Spec (c_app s))) then
        act_drifted E L att pd s
      else act_changed E L J att pd s)"

subsection \<open>Reconcile\<close>

text \<open>An Application with an unwatched kind is checked again after the resync interval.\<close>

definition resync :: "'w api \<Rightarrow> bool \<Rightarrow> 'w reconciled \<Rightarrow> 'w reconciled" where
  "resync E unwatched out =
     (case out of (s, after, err) \<Rightarrow>
        if err = None \<and> unwatched \<and> after = 0 \<and> ct_DriftResyncInterval E > 0
        then (s, ct_DriftResyncInterval E, err) else out)"

definition plan_and_act :: "'w api \<Rightarrow> lib \<Rightarrow> codec \<Rightarrow> 'w sources \<Rightarrow> attempt \<Rightarrow> resolved_source \<Rightarrow> 'w ctl \<Rightarrow> 'w reconciled" where
  "plan_and_act E L J S att resolved s =
     (case render_revision E L J S (at_hold att) resolved s of
        Inl out \<Rightarrow> out
      | Inr (s, rendered, inputs) \<Rightarrow>
          (let (w, watched) = so_EnsureWatches S
                 (UnionKinds L [objectKinds L rendered, InventoryKinds L (c_app s)]) (c_world s)
           in resync E (\<not> watched)
                (case plan_revision E L J S (at_hold att) (new_attempt (at_previousPhase att)) rendered inputs (s\<lparr>c_world := w\<rparr>) of
                   Inl out \<Rightarrow> out
                 | Inr (s, pd) \<Rightarrow> act_on_plan E L J att pd s)))"

definition reconcile_application :: "'w api \<Rightarrow> lib \<Rightarrow> codec \<Rightarrow> 'w sources \<Rightarrow> 'w ctl \<Rightarrow> 'w reconciled" where
  "reconcile_application E L J S s =
     (case admit E L S s of
        Inl out \<Rightarrow> out
      | Inr (s, g, c) \<Rightarrow>
          (case resolve_source E L S g c s of
             Inl out \<Rightarrow> out
           | Inr (s, request, resolved) \<Rightarrow>
               (let previousHealth = astatus_Health (app_Status (c_app s));
                    previousState = astatus_State (app_Status (c_app s))
                in case choose_revision E L J S g c request resolved s of
                     Inl out \<Rightarrow> out
                   | Inr (s, resolved, hold) \<Rightarrow>
                       (let previousPhase = rev_Phase (c_rev s) in
                        case begin_attempt E L hold request resolved s of
                          Inl out \<Rightarrow> out
                        | Inr (s, rollout, fresh, now) \<Rightarrow>
                            plan_and_act E L J S
                              \<lparr>at_hold = hold, at_request = request, at_rollout = rollout, at_fresh = fresh,
                               at_previousPhase = previousPhase, at_previousHealth = previousHealth,
                               at_previousState = previousState, at_now = now\<rparr> resolved s))))"

definition Reconcile :: "'w api \<Rightarrow> lib \<Rightarrow> codec \<Rightarrow> 'w sources \<Rightarrow> string \<Rightarrow> string \<Rightarrow> 'w \<Rightarrow> 'w \<times> int \<times> api_error option" where
  "Reconcile E L J S namespace name w =
     (case ct_GetApplication E namespace name w of
        Inl err \<Rightarrow> if IsNotFound err then (w, 0, None) else (w, 0, Some err)
      | Inr a \<Rightarrow>
          (case reconcile_application E L J S \<lparr>c_app = a, c_rev = zero_revision, c_world = w\<rparr> of
             (s, after, err) \<Rightarrow> (c_world s, after, err)))"

end
