(* ===== verification/Rollout_Safety.thy ===== *)
theory Rollout_Safety
  imports Reconciler
begin

text \<open>
  What holds of every rollout. The locale \<open>keeps_rollout\<close> is the contract of a handler that may change
  anything of a reconcile but how far the Revision's rollout is recorded to be; the handlers that
  fail, observe, record and write are interpretations of it, so that only the start and the end of a
  rollout touch that record. Beside the walk of the groups \<open>health_reads\<close> lists the worlds its health
  reads are made in, and \<open>findings\<close> says what the results of those reads are. The theorem: acting on a
  plan with something to change, or on a rollout in progress, records the rollout as complete only when
  every deployed object was read back and found Healthy, or is a hook recorded as such.
\<close>

subsection \<open>Handlers that keep the recorded rollout\<close>

abbreviation rev_conditions :: "'w ctl \<Rightarrow> condition list" where
  "rev_conditions s \<equiv> rstatus_Conditions (rev_Status (c_rev s))"

locale keeps_rollout =
  fixes handler :: "'w ctl \<Rightarrow> 'w ctl"
  assumes keeps_conditions [simp]: "rev_conditions (handler s) = rev_conditions s"
begin

lemma same_rollout:
  "FindStatusCondition L (rev_conditions s) RolloutCompleteCondition \<noteq> None \<Longrightarrow>
   rolloutOf L (c_rev (handler s)) phase = rolloutOf L (c_rev s) phase'"
  by (rule rolloutOf_cong) simp_all

end

text \<open>From a fact on the state of a result to the state its pattern binds.\<close>

lemma c_rev_of_pair: "c_rev (fst p) = r \<Longrightarrow> p = (s', e) \<Longrightarrow> c_rev s' = r"
  by simp

lemma conditions_of_pair: "rev_conditions (fst p) = cs \<Longrightarrow> p = (s', e) \<Longrightarrow> rev_conditions s' = cs"
  by simp

lemma c_rev_writes [simp]:
  "c_rev (event E t reason message s) = c_rev s"
  "c_rev (fst (updateRevisionStatus E s)) = c_rev s"
  "c_rev (fst (updateApplicationStatus E hold s)) = c_rev s"
  "c_rev (fst (updateKeepingStatus E s)) = c_rev s"
  by (simp_all add: event_def updateRevisionStatus_def updateApplicationStatus_def updateKeepingStatus_def Let_def
      split: prod.splits sum.splits)

lemmas c_rev_written = c_rev_writes(2-4) [THEN c_rev_of_pair]

lemma c_rev_write_status [simp]: "c_rev (fst (write_status E hold s)) = c_rev s"
  by (auto simp: write_status_def split: prod.splits option.splits dest!: c_rev_written)

lemma c_rev_notify_loop [simp]: "c_rev (fst (notify_loop E ev message subs c s)) = c_rev s"
proof (induction subs arbitrary: c s)
  case (Cons sub subs)
  then show ?case by (simp split: sum.split prod.split bool.split)
qed simp

lemma c_rev_notify [simp]: "c_rev (notify E L ev message s) = c_rev s"
  by (auto simp: notify_def Let_def split: prod.splits dest!: c_rev_notify_loop [THEN c_rev_of_pair])

lemma c_rev_abandonRollback [simp]: "c_rev (fst (abandonRollback E req why s)) = c_rev s"
  unfolding abandonRollback_def by (auto split: prod.split option.split dest!: c_rev_written)

lemma c_rev_holdReplaced [simp]: "c_rev (fst (holdReplaced E L req s)) = c_rev s"
  by (simp add: holdReplaced_def Let_def split: sum.split prod.split)

lemma c_rev_healthEvaluator [simp]: "c_rev (fst (healthEvaluator E s)) = c_rev s"
  by (simp add: healthEvaluator_def Let_def split: sum.split prod.split)

lemma c_rev_diagnose [simp]: "c_rev (fst (diagnose E L results observed degraded previousHealth s)) = c_rev s"
  by (simp add: diagnose_def Let_def split: list.split)

lemma conditions_failure_rollback [simp]: "rev_conditions (fst (failure_rollback E f s)) = rev_conditions s"
  by (auto simp: failure_rollback_def Let_def split: prod.split option.split sum.split target_error.split
      dest!: c_rev_written c_rev_abandonRollback [THEN c_rev_of_pair])

lemma conditions_fail [simp]: "rev_conditions (fst (failRevisionAndApplication E L hold f s)) = rev_conditions s"
  by (auto simp: failRevisionAndApplication_def Let_def Fail_def split: prod.splits sum.splits
      dest!: conditions_failure_rollback [THEN conditions_of_pair])

interpretation fail: keeps_rollout "\<lambda>s. fst (failRevisionAndApplication E L hold f s)" for E L hold f
  by unfold_locales simp

lemma conditions_recordHealth [simp]: "rev_conditions (recordHealth results s) = rev_conditions s"
  by (simp add: recordHealth_def)

lemma conditions_recordHooks [simp]:
  "rstatus_Conditions (rev_Status (recordHooks L r stage results)) = rstatus_Conditions (rev_Status r)"
  by (simp add: recordHooks_def)

lemma conditions_observe [simp]:
  "rev_conditions (fst (observe E L hold results observed previousHealth after s)) = rev_conditions s"
  by (auto simp: observe_def Let_def ends_def recordHealth_def split: prod.splits option.splits
      dest!: c_rev_written c_rev_diagnose [THEN c_rev_of_pair])

interpretation observing: keeps_rollout "\<lambda>s. fst (observe E L hold results observed previousHealth after s)"
  for E L hold results observed previousHealth after
  by unfold_locales simp

subsection \<open>Steps of the walk\<close>

text \<open>What a group leaves of the recorded rollout, whether it ends the reconcile or goes on.\<close>

definition outcome :: "('w reconciled) + ('w ctl \<times> 'b) \<Rightarrow> 'w ctl" where
  "outcome out = (case out of Inl (s, _) \<Rightarrow> s | Inr (s, _) \<Rightarrow> s)"

lemma outcome_simps [simp]: "outcome (Inl x) = fst x" "outcome (Inr y) = fst y"
  by (simp_all add: outcome_def split: prod.split)

lemma conditions_of_outcome:
  "rev_conditions (outcome out) = cs \<Longrightarrow> out = Inl (s', x) \<Longrightarrow> rev_conditions s' = cs"
  "rev_conditions (outcome out) = cs \<Longrightarrow> out = Inr (s', y) \<Longrightarrow> rev_conditions s' = cs"
  by simp_all

lemma ends_fst [simp]: "fst (ends x) = fst x"
  by (simp add: ends_def)

lemma conditions_prepare [simp]:
  "rev_conditions (outcome (group_prepare E L hold progress grp wk s)) = rev_conditions s"
  by (simp add: group_prepare_def split: prod.split option.split sum.split bool.split)

lemma conditions_apply:
  "group_apply E L hold pending s = Inl out \<Longrightarrow> rev_conditions (fst out) = rev_conditions s"
  "group_apply E L hold pending s = Inr s' \<Longrightarrow> rev_conditions s' = rev_conditions s"
  by (auto simp: group_apply_def split: prod.splits option.splits if_splits)

lemma conditions_check [simp]:
  "rev_conditions (outcome (group_check E L hold ev progress stage objs done wk s)) = rev_conditions s"
  by (auto simp: group_check_def Let_def split: prod.split option.split sum.split
      dest!: c_rev_diagnose [THEN c_rev_of_pair])

lemma conditions_step [simp]:
  "rev_conditions (outcome (group_step E L hold ev progress grp wk s)) = rev_conditions s"
  by (auto simp: group_step_def split: sum.splits prod.splits
      dest!: conditions_apply conditions_prepare [THEN conditions_of_outcome(1)] conditions_prepare [THEN conditions_of_outcome(2)])

lemma conditions_walk [simp]:
  "rev_conditions (outcome (walk_groups E L hold ev progress groups wk s)) = rev_conditions s"
proof (induction groups arbitrary: wk s)
  case (Cons grp groups)
  then show ?case
    by (auto split: sum.split prod.split
        dest!: conditions_step [THEN conditions_of_outcome(1)] conditions_step [THEN conditions_of_outcome(2)])
qed simp

subsection \<open>Reading back what was applied\<close>

text \<open>A read answers with the object that was asked for, and the CRD admits only the three verdicts
  as the state of a health rule.\<close>

definition get_answers_asked :: "'w api \<Rightarrow> lib \<Rightarrow> bool" where
  "get_answers_asked E L \<longleftrightarrow> (\<forall>k ns n w obj. tn_Get E k ns n w = Inr obj \<longrightarrow>
     FromObject L obj = Inr \<lparr>ID_Group = gvk_Group k, ID_Version = gvk_Version k, ID_Kind = gvk_Kind k,
       ID_Namespace = ns, ID_Name = n\<rparr>)"

definition checks_admitted :: "'w api \<Rightarrow> bool" where
  "checks_admitted E \<longleftrightarrow> (\<forall>w checks. ct_ListHealthChecks E w = Inr checks \<longrightarrow>
     (\<forall>c \<in> set checks. \<forall>r \<in> set (hc_Rules c). rule_State r \<in> verdicts))"

text \<open>The read that answers for an identity, as \<open>live.Reader\<close> asks for it.\<close>

abbreviation read_of :: "'w api \<Rightarrow> resource_id \<Rightarrow> 'w \<Rightarrow> api_error + unstructured" where
  "read_of E i \<equiv> tn_Get E \<lparr>gvk_Group = ID_Group i, gvk_Version = ID_Version i, gvk_Kind = ID_Kind i\<rparr>
     (ID_Namespace i) (ID_Name i)"

text \<open>What a read of \<open>objs\<close> found, under the identities it was asked for.\<close>

definition read_right :: "'w api \<Rightarrow> lib \<Rightarrow> 'w \<Rightarrow> unstructured set \<Rightarrow> (resource_id \<times> unstructured) list \<Rightarrow> bool" where
  "read_right E L w objs found \<longleftrightarrow> distinct (map fst found) \<and>
     (\<forall>i got. map_of found i = Some got \<longrightarrow>
        FromObject L got = Inr i \<and> read_of E i w = Inr got \<and> (\<exists>obj \<in> objs. FromObject L obj = Inr i))"

lemma live_loop_facts:
  assumes "live_loop E L w objs result = Inr lr" "get_answers_asked E L" "set objs \<subseteq> asked"
    "read_right E L w asked (live_Found result)"
  shows "read_right E L w asked (live_Found lr)
    \<and> set (live_Missing result) \<subseteq> set (live_Missing lr)
    \<and> dom (map_of (live_Found result)) \<subseteq> dom (map_of (live_Found lr))
    \<and> (\<forall>obj \<in> set objs. \<exists>i. FromObject L obj = Inr i \<and> (i \<in> dom (map_of (live_Found lr)) \<or> i \<in> set (live_Missing lr)))"
  using assms
proof (induction objs arbitrary: result)
  case (Cons obj objs)
  obtain i where i: "FromObject L obj = Inr i" using Cons.prems(1) by (auto split: sum.splits)
  show ?case
  proof (cases "read_of E i w")
    case (Inl err)
    then have "live_loop E L w objs (result\<lparr>live_Missing := live_Missing result @ [i]\<rparr>) = Inr lr"
      using Cons.prems(1) i by (simp split: if_splits)
    from Cons.IH [OF this] show ?thesis using Cons.prems i by auto
  next
    case (Inr got)
    then have l: "live_loop E L w objs (result\<lparr>live_Found := AList.update i got (live_Found result)\<rparr>) = Inr lr"
      using Cons.prems(1) i by simp
    have "FromObject L got = Inr i" using Inr Cons.prems(2) by (auto simp: get_answers_asked_def)
    then have "read_right E L w asked (AList.update i got (live_Found result))"
      using Cons.prems(3,4) Inr i by (auto simp: read_right_def update_conv' distinct_update)
    moreover have "dom (map_of (AList.update i got (live_Found result))) = insert i (dom (map_of (live_Found result)))"
      by (auto simp: update_conv')
    ultimately show ?thesis using Cons.IH [OF l Cons.prems(2)] Cons.prems(3) i by simp
  qed
qed simp

lemma live_Read_facts:
  assumes "live_Read E L objs w = Inr lr" "get_answers_asked E L"
  shows "read_right E L w (set objs) (live_Found lr)"
    and "\<And>obj. obj \<in> set objs \<Longrightarrow>
      \<exists>i. FromObject L obj = Inr i \<and> (i \<in> dom (map_of (live_Found lr)) \<or> i \<in> set (live_Missing lr))"
  using live_loop_facts [OF assms(1) [unfolded live_Read_def] assms(2) order_refl] by (simp_all add: read_right_def)

lemma evaluate_all_map: "evaluate_all E L ev objs = Inr results \<Longrightarrow> map (Evaluator_Evaluate L ev) objs = map Inr results"
  by (induction objs arbitrary: results) (auto split: sum.splits)

lemma evaluate_all_facts:
  assumes "evaluate_all E L ev objs = Inr results"
  shows "Evaluator_Evaluate L ev ` set objs = Inr ` set results"
  using arg_cong [OF evaluate_all_map [OF assms], of set] by simp

subsection \<open>What shows an object to be Healthy\<close>

text \<open>In the world \<open>w\<close> the API answers the read of the object with an object that the evaluator finds
  Healthy, and \<open>res\<close> is that finding.\<close>

definition found_healthy :: "'w api \<Rightarrow> lib \<Rightarrow> evaluator \<Rightarrow> 'w \<Rightarrow> unstructured \<Rightarrow> health_result \<Rightarrow> bool" where
  "found_healthy E L ev w obj res =
     (case FromObject L obj of
        Inl _ \<Rightarrow> False
      | Inr i \<Rightarrow>
          (case read_of E i w of
             Inl _ \<Rightarrow> False
           | Inr got \<Rightarrow> Evaluator_Evaluate L ev got = Inr res \<and> hr_Resource res = i \<and> hr_State res = HealthStateHealthy))"

text \<open>A hook the Revision already records as Healthy is not run or read again.\<close>

definition recorded_hook :: "lib \<Rightarrow> rollout_progress \<Rightarrow> unstructured \<Rightarrow> health_result \<Rightarrow> bool" where
  "recorded_hook L progress obj res \<longleftrightarrow>
     Hook L obj \<in> {StagePreSync, StagePostSync} \<and>
     (case FromObject L obj of
        Inl _ \<Rightarrow> False
      | Inr i \<Rightarrow> rp_hooks progress (resourceRef L i) = Some HealthStateHealthy \<and> res = hook_done i)"

text \<open>A health read of a walk is the world it was made in and the objects it asked for. An object is
  shown to be Healthy by such a read or, for a hook, by the record.\<close>

definition shown_healthy :: "'w api \<Rightarrow> lib \<Rightarrow> evaluator \<Rightarrow> rollout_progress \<Rightarrow> ('w \<times> unstructured list) list
    \<Rightarrow> unstructured \<Rightarrow> health_result \<Rightarrow> bool" where
  "shown_healthy E L ev progress reads obj res \<longleftrightarrow>
     recorded_hook L progress obj res \<or> list_ex (\<lambda>(w, objs). obj \<in> set objs \<and> found_healthy E L ev w obj res) reads"

text \<open>The results are the findings for these objects: one for every object, and no other.\<close>

definition findings :: "'w api \<Rightarrow> lib \<Rightarrow> evaluator \<Rightarrow> rollout_progress \<Rightarrow> ('w \<times> unstructured list) list
    \<Rightarrow> unstructured list \<Rightarrow> health_result list \<Rightarrow> bool" where
  "findings E L ev progress reads objs results \<longleftrightarrow>
     list_all (\<lambda>obj. list_ex (shown_healthy E L ev progress reads obj) results) objs \<and>
     list_all (\<lambda>res. list_ex (\<lambda>obj. shown_healthy E L ev progress reads obj res) objs) results"

lemma findings_iff:
  "findings E L ev progress reads objs results \<longleftrightarrow>
     (\<forall>obj \<in> set objs. \<exists>res \<in> set results. shown_healthy E L ev progress reads obj res) \<and>
     (\<forall>res \<in> set results. \<exists>obj \<in> set objs. shown_healthy E L ev progress reads obj res)"
  by (simp add: findings_def list_all_iff list_ex_iff)

lemma findings_append:
  assumes "findings E L ev progress reads objs results" "findings E L ev progress reads' objs' results'"
  shows "findings E L ev progress (reads @ reads') (objs @ objs') (results @ results')"
proof -
  have "shown_healthy E L ev progress (reads @ reads') obj res"
    if "shown_healthy E L ev progress reads obj res \<or> shown_healthy E L ev progress reads' obj res" for obj res
    using that by (auto simp: shown_healthy_def)
  then show ?thesis using assms unfolding findings_iff set_append by (meson Un_iff)
qed

lemma groupHealth_facts:
  assumes "groupHealth E L ev objs hooks w = Inr (checked, read)" "get_answers_asked E L" "rules_admitted ev"
    and "\<And>r. r \<in> set checked \<Longrightarrow> hr_State r \<noteq> HealthStateDegraded \<and> hr_State r \<noteq> HealthStateProgressing"
  shows "\<And>obj. obj \<in> set objs \<Longrightarrow> \<exists>r \<in> set checked. found_healthy E L ev w obj r"
    and "\<And>r. r \<in> set checked \<Longrightarrow> \<exists>obj \<in> set objs. found_healthy E L ev w obj r"
proof -
  obtain lr results where lr: "live_Read E L objs w = Inr lr"
    and ev: "evaluate_all E L ev (Apply L (map snd (live_Found lr))) = Inr results"
    and checked: "checked = results @ map (missing_result hooks) (live_Missing lr)"
    using assms(1) by (auto simp: groupHealth_def Let_def split: sum.splits)
  have none: "live_Missing lr = []"
    using assms(4) [of "missing_result hooks (hd (live_Missing lr))"] checked
    by (cases "live_Missing lr") (auto simp: missing_result_def split: if_splits)
  note right = live_Read_facts(1) [OF lr assms(2)]
  have found: "found_healthy E L ev w obj r"
    if "FromObject L obj = Inr i" "map_of (live_Found lr) i = Some got" "Evaluator_Evaluate L ev got = Inr r" "r \<in> set checked"
    for obj i got r
    using that right Evaluator_facts [OF that(3)] assms(3) assms(4) [OF that(4)]
    by (auto simp: found_healthy_def read_right_def verdicts_def)
  show "\<exists>r \<in> set checked. found_healthy E L ev w obj r" if obj: "obj \<in> set objs" for obj
  proof -
    obtain i got where i: "FromObject L obj = Inr i" "map_of (live_Found lr) i = Some got"
      using live_Read_facts(2) [OF lr assms(2) obj] none by auto
    then have "got \<in> set (Apply L (map snd (live_Found lr)))"
      using map_of_SomeD [OF i(2)] by (simp add: image_iff) (metis snd_conv)
    then obtain r where "r \<in> set results" "Evaluator_Evaluate L ev got = Inr r" using evaluate_all_facts [OF ev] by blast
    then show ?thesis using found [OF i] checked by auto
  qed
  show "\<exists>obj \<in> set objs. found_healthy E L ev w obj r" if r: "r \<in> set checked" for r
  proof -
    obtain i got where got: "(i, got) \<in> set (live_Found lr)" "Evaluator_Evaluate L ev got = Inr r"
    proof -
      have "Inr r \<in> Evaluator_Evaluate L ev ` set (Apply L (map snd (live_Found lr)))"
        using evaluate_all_facts [OF ev] r checked none by simp
      then show thesis using that by (auto simp: image_iff)
    qed
    then have "map_of (live_Found lr) i = Some got" using right by (simp add: read_right_def map_of_eq_Some_iff)
    then show ?thesis using right found got(2) r unfolding read_right_def by blast
  qed
qed

subsection \<open>A walk that reaches its end\<close>

text \<open>The health reads of a walk, beside it: after a group is prepared and applied, its objects are read
  in the world that left behind.\<close>

fun health_reads :: "'w api \<Rightarrow> lib \<Rightarrow> rollback_hold option \<Rightarrow> evaluator \<Rightarrow> rollout_progress \<Rightarrow> group list \<Rightarrow> walk_state
    \<Rightarrow> 'w ctl \<Rightarrow> ('w \<times> unstructured list) list" where
  "health_reads E L hold ev progress [] wk s = []"
| "health_reads E L hold ev progress (grp # groups) wk s =
     (case group_prepare E L hold progress grp wk s of
        Inl _ \<Rightarrow> []
      | Inr (s, wk, pending, watched, done) \<Rightarrow>
          (case group_apply E L hold pending s of
             Inl _ \<Rightarrow> []
           | Inr s \<Rightarrow> (c_world s, watched @ pending) #
               (case group_check E L hold ev progress (grp_Stage grp) (watched @ pending) done wk s of
                  Inl _ \<Rightarrow> []
                | Inr (s, wk) \<Rightarrow> health_reads E L hold ev progress groups wk s)))"

text \<open>Only a group of hooks consults the record of hooks.\<close>

definition staged :: "lib \<Rightarrow> group \<Rightarrow> bool" where
  "staged L grp \<longleftrightarrow> grp_Stage grp = StageSync \<or> (\<forall>obj \<in> set (grp_Objects grp). Hook L obj \<in> {StagePreSync, StagePostSync})"

lemma Groups_staged_hooks: "grp \<in> set (Groups L objs) \<Longrightarrow> staged L grp"
  by (auto simp: Groups_eq_spec groups_spec_def hook_group_def wave_group_def Let_def staged_def split: if_splits)

lemma hook_result_recorded:
  assumes "hook_result L (rp_hooks progress) obj = Some r" "staged L grp" "grp_Stage grp \<noteq> StageSync" "obj \<in> set (grp_Objects grp)"
  shows "recorded_hook L progress obj r"
  using assms by (auto simp: staged_def recorded_hook_def hook_result_def split: sum.splits if_splits)

lemma group_prepare_facts:
  assumes "group_prepare E L hold progress grp wk s = Inr (s', wk', pending, watched, done)" "staged L grp"
  shows "wk_results wk' = wk_results wk" "set (watched @ pending) \<subseteq> set (grp_Objects grp)"
    "\<And>obj. obj \<in> set (grp_Objects grp) \<Longrightarrow> obj \<in> set (watched @ pending) \<or> (\<exists>r \<in> set done. recorded_hook L progress obj r)"
    "\<And>r. r \<in> set done \<Longrightarrow> \<exists>obj \<in> set (grp_Objects grp). recorded_hook L progress obj r"
proof -
  have split: "wk_results wk' = wk_results wk \<and> (pending = grp_Objects grp \<and> watched = [] \<and> done = [] \<or>
      grp_Stage grp \<noteq> StageSync \<and> splitHooks L (grp_Objects grp) (rp_hooks progress) = (pending, watched, done))"
    using assms(1)
    by (auto simp: group_prepare_def split: if_splits prod.splits option.splits sum.splits bool.splits)
  then show "wk_results wk' = wk_results wk" "set (watched @ pending) \<subseteq> set (grp_Objects grp)"
    by (auto simp: splitHooks_parts)
  show "obj \<in> set (watched @ pending) \<or> (\<exists>r \<in> set done. recorded_hook L progress obj r)" if obj: "obj \<in> set (grp_Objects grp)" for obj
  proof (cases "hook_result L (rp_hooks progress) obj")
    case None
    then show ?thesis using obj split
      by (auto simp: splitHooks_parts hook_pending_def hook_watched_def hook_result_def split: sum.splits if_splits)
  next
    case (Some r)
    have "obj \<in> set pending \<or> r \<in> set done" using obj split Some by (auto simp: splitHooks_parts set_map_filter)
    moreover note hook_result_recorded [OF Some assms(2) _ obj]
    moreover have "obj \<in> set pending \<or> grp_Stage grp \<noteq> StageSync" using obj split by auto
    ultimately have "obj \<in> set pending \<or> recorded_hook L progress obj r \<and> r \<in> set done" by blast
    then show ?thesis by auto
  qed
  show "\<exists>obj \<in> set (grp_Objects grp). recorded_hook L progress obj r" if "r \<in> set done" for r
    using that split hook_result_recorded [OF _ assms(2)] by (auto simp: splitHooks_parts set_map_filter) blast
qed

lemma group_check_facts:
  assumes "group_check E L hold ev progress stage objs done wk s = Inr (s', wk')"
    "get_answers_asked E L" "rules_admitted ev"
  obtains checked where "wk_results wk' = wk_results wk @ done @ checked"
    "\<And>obj. obj \<in> set objs \<Longrightarrow> \<exists>r \<in> set checked. found_healthy E L ev (c_world s) obj r"
    "\<And>r. r \<in> set checked \<Longrightarrow> \<exists>obj \<in> set objs. found_healthy E L ev (c_world s) obj r"
proof -
  obtain checked read where h: "groupHealth E L ev objs (stage \<noteq> StageSync) (c_world s) = Inr (checked, read)"
    and fine: "List.find (\<lambda>r. hr_State r = HealthStateDegraded) (done @ checked) = None"
      "\<not> 0 < hs_Progressing (Summary (done @ checked))"
    and wk': "wk_results wk' = wk_results wk @ done @ checked"
    using assms(1) by (auto simp: group_check_def Let_def split: sum.splits prod.splits option.splits if_splits)
  have "filter (\<lambda>r. hr_State r = HealthStateProgressing) (done @ checked) = []"
    using fine(2) unfolding Summary_counts in_state_def by (simp only: of_nat_0_less_iff length_greater_0_conv not_not)
  then have "hr_State r \<noteq> HealthStateDegraded \<and> hr_State r \<noteq> HealthStateProgressing" if "r \<in> set checked" for r
    using fine(1) that by (auto simp: find_None_iff filter_empty_conv)
  then show thesis using groupHealth_facts [OF h assms(2,3)] that [OF wk'] by blast
qed

lemma group_step_facts:
  assumes "group_step E L hold ev progress grp wk s = Inr (s', wk')" "get_answers_asked E L" "rules_admitted ev" "staged L grp"
  obtains results w objs where "wk_results wk' = wk_results wk @ results"
    "health_reads E L hold ev progress (grp # groups) wk s = (w, objs) # health_reads E L hold ev progress groups wk' s'"
    "findings E L ev progress [(w, objs)] (grp_Objects grp) results"
proof -
  obtain s1 wk1 pending watched ready s2 where p: "group_prepare E L hold progress grp wk s = Inr (s1, wk1, pending, watched, ready)"
    and a: "group_apply E L hold pending s1 = Inr s2"
    and c: "group_check E L hold ev progress (grp_Stage grp) (watched @ pending) ready wk1 s2 = Inr (s', wk')"
    using assms(1) by (auto simp: group_step_def split: sum.splits prod.splits)
  note prep = group_prepare_facts [OF p assms(4)]
  obtain checked where k: "wk_results wk' = wk_results wk1 @ ready @ checked"
    "\<And>obj. obj \<in> set (watched @ pending) \<Longrightarrow> \<exists>r \<in> set checked. found_healthy E L ev (c_world s2) obj r"
    "\<And>r. r \<in> set checked \<Longrightarrow> \<exists>obj \<in> set (watched @ pending). found_healthy E L ev (c_world s2) obj r"
    using group_check_facts [OF c assms(2,3)] by blast
  have shown: "shown_healthy E L ev progress [(c_world s2, watched @ pending)] obj r \<longleftrightarrow>
      recorded_hook L progress obj r \<or> obj \<in> set (watched @ pending) \<and> found_healthy E L ev (c_world s2) obj r" for obj r
    by (simp add: shown_healthy_def)
  have "findings E L ev progress [(c_world s2, watched @ pending)] (grp_Objects grp) (ready @ checked)"
    unfolding findings_iff shown set_append Ball_def Bex_def using prep(2-4) k(2,3) unfolding set_append by blast
  then show thesis using that [of "ready @ checked"] k(1) prep(1) p a c by simp
qed

lemma walk_groups_facts:
  assumes "walk_groups E L hold ev progress groups wk s = Inr (s', wk')" "get_answers_asked E L" "rules_admitted ev"
    "\<And>grp. grp \<in> set groups \<Longrightarrow> staged L grp"
  shows "\<exists>results. wk_results wk' = wk_results wk @ results \<and>
    findings E L ev progress (health_reads E L hold ev progress groups wk s) (concat (map grp_Objects groups)) results"
  using assms
proof (induction groups arbitrary: wk s)
  case (Cons grp groups)
  obtain s1 wk1 where step: "group_step E L hold ev progress grp wk s = Inr (s1, wk1)"
    and rest: "walk_groups E L hold ev progress groups wk1 s1 = Inr (s', wk')"
    using Cons.prems(1) by (auto split: sum.splits prod.splits)
  obtain results w objs where one: "wk_results wk1 = wk_results wk @ results"
    "health_reads E L hold ev progress (grp # groups) wk s = (w, objs) # health_reads E L hold ev progress groups wk1 s1"
    "findings E L ev progress [(w, objs)] (grp_Objects grp) results"
    using group_step_facts [OF step Cons.prems(2,3), of groups] Cons.prems(4) by (metis list.set_intros(1))
  obtain others where "wk_results wk' = wk_results wk1 @ others"
    "findings E L ev progress (health_reads E L hold ev progress groups wk1 s1) (concat (map grp_Objects groups)) others"
    using Cons.IH [OF rest Cons.prems(2,3)] Cons.prems(4) by auto
  then show ?case using findings_append [OF one(3)] one(1,2)
    by (intro exI [of _ "results @ others"]) (simp del: health_reads.simps)
qed (simp add: findings_def)

subsection \<open>The end of a rollout\<close>

abbreviation rev_health :: "'w ctl \<Rightarrow> resource_health_summary" where
  "rev_health s \<equiv> rstatus_Health (rev_Status (c_rev s))"

lemma health_of_pair: "rev_health (fst p) = h \<Longrightarrow> p = (s', e) \<Longrightarrow> rev_health s' = h"
  by simp

lemma health_complete_rollback [simp]: "rev_health (fst (complete_rollback E L request transition s)) = rev_health s"
  by (auto simp: complete_rollback_def Let_def split: prod.splits option.splits
      dest!: c_rev_written c_rev_holdReplaced [THEN c_rev_of_pair])

lemma health_mark_complete [simp]: "rev_health (mark_complete L now s) = rev_health s"
  by (simp add: mark_complete_def CompleteHealthy_def setRolloutComplete_def Let_def)

lemma health_complete [simp]: "rev_health (fst (completeSuccessfulDeployment E L hold message transition s)) = rev_health s"
  by (auto simp: completeSuccessfulDeployment_def Let_def split: prod.split option.split if_splits
      dest!: health_complete_rollback [THEN health_of_pair])

lemma conditions_complete_rollback [simp]:
  "rev_conditions (fst (complete_rollback E L request transition s)) = rev_conditions s"
  by (auto simp: complete_rollback_def Let_def split: prod.splits option.splits
      dest!: c_rev_written c_rev_holdReplaced [THEN c_rev_of_pair])

lemma conditions_complete [simp]:
  "rev_conditions (fst (completeSuccessfulDeployment E L hold message transition s))
     = rev_conditions (mark_complete L (clock E (c_world s)) s)"
  by (auto simp: completeSuccessfulDeployment_def Let_def split: prod.split option.split if_splits
      dest!: conditions_complete_rollback [THEN conditions_of_pair])

text \<open>However its writes go, completing a deployment leaves the rollout complete.\<close>

lemma complete_is_complete:
  assumes "condition_laws L"
  shows "rolloutOf L (c_rev (fst (completeSuccessfulDeployment E L hold message transition s))) phase = rolloutComplete"
proof -
  let ?s = "mark_complete L (clock E (c_world s)) s"
  obtain r where "c_rev ?s = setRolloutComplete L r True"
    by (simp add: mark_complete_def CompleteHealthy_def Let_def)
  then have "FindStatusCondition L (rev_conditions ?s) RolloutCompleteCondition = Some (rollout_condition r True)"
    using find_rollout_condition [OF assms, of r True] by simp
  then show ?thesis by (simp add: rolloutOf_def rollout_condition_def)
qed

lemma c_rev_retention [simp]: "c_rev (fst (applyHistoryRetention E L s)) = c_rev s"
  by (simp add: applyHistoryRetention_def Let_def split: sum.split prod.split)

lemma finish_walk_facts:
  assumes "FindStatusCondition L (rev_conditions s) RolloutCompleteCondition \<noteq> None"
  shows "rolloutOf L (c_rev (fst (finish_walk E L hold progress wk s))) phase = rolloutOf L (c_rev s) phase
    \<or> rev_health (fst (finish_walk E L hold progress wk s)) = Summary (wk_results wk)"
proof -
  let ?prune = "if wk_pruned wk then (c_world s, None) else pruneStale E (rp_pruning progress) (c_world s)"
  obtain w f where p: "?prune = (w, f)" by (cases ?prune)
  show ?thesis
  proof (cases f)
    case (Some f')
    then show ?thesis using p assms fail.same_rollout [of L "s\<lparr>c_world := w\<rparr>"] by (simp add: finish_walk_def)
  next
    case None
    let ?c = "completeSuccessfulDeployment E L hold ''Application deployment is healthy'' True
      (recordHealth (wk_results wk) (s\<lparr>c_world := w\<rparr>))"
    have "rev_health (fst ?c) = Summary (wk_results wk)" by (simp add: recordHealth_def)
    then show ?thesis using p None by (cases ?c) (auto simp: finish_walk_def split: option.split)
  qed
qed

lemma finish_walk_complete:
  assumes "condition_laws L" "pruneStale E (rp_pruning progress) (c_world s) = (w, None)"
  shows "rolloutOf L (c_rev (fst (finish_walk E L hold progress wk s))) phase = rolloutComplete"
proof -
  let ?w = "if wk_pruned wk then c_world s else w"
  let ?c = "completeSuccessfulDeployment E L hold ''Application deployment is healthy'' True
    (recordHealth (wk_results wk) (s\<lparr>c_world := ?w\<rparr>))"
  have "c_rev (fst (finish_walk E L hold progress wk s)) = c_rev (fst ?c)"
    using assms(2) by (cases "wk_pruned wk"; cases ?c) (simp_all add: finish_walk_def split: option.split)
  then show ?thesis by (simp only: complete_is_complete [OF assms(1)])
qed

lemma start_rollout_facts:
  assumes "condition_laws L" "start_rollout E L s = (s', err)"
  shows "FindStatusCondition L (rev_conditions s') RolloutCompleteCondition \<noteq> None"
    "rolloutOf L (c_rev s') phase = rolloutInProgress"
proof -
  let ?r = "fst (StartApplying (c_rev s) (c_app s) (clock E (c_world s)))"
  have r: "c_rev s' = setRolloutComplete L ?r False"
    using assms(2) by (auto simp: start_rollout_def StartApplying_def Let_def dest: c_rev_written)
  show "FindStatusCondition L (rev_conditions s') RolloutCompleteCondition \<noteq> None"
    "rolloutOf L (c_rev s') phase = rolloutInProgress"
    using find_rollout_condition [OF assms(1), of ?r False] by (simp_all add: r rolloutOf_def rollout_condition_def)
qed

lemma healthEvaluator_admitted:
  assumes "healthEvaluator E s = (s', Inr ev)" "checks_admitted E"
  shows "rules_admitted ev"
proof -
  obtain checks where c: "ct_ListHealthChecks E (c_world s) = Inr checks" "ev = fst (NewEvaluator (ct_Cel E) checks)"
    using assms(1) by (auto simp: healthEvaluator_def Let_def split: sum.splits prod.splits)
  then show ?thesis using NewEvaluator_admitted [of checks "ct_Cel E"] assms(2) unfolding checks_admitted_def by blast
qed

text \<open>The start of the walk of \<open>applyAndObserve\<close>, when it gets that far: the evaluator it reads health
  with, and the state it walks from.\<close>

definition no_results :: walk_state where
  "no_results = \<lparr>wk_results = [], wk_observed = [], wk_pruned = False\<rparr>"

definition walk_start :: "'w api \<Rightarrow> lib \<Rightarrow> unstructured list \<Rightarrow> rollout_progress \<Rightarrow> 'w ctl \<Rightarrow> (evaluator \<times> 'w ctl) option" where
  "walk_start E L desired progress s =
     (case start_rollout E L s of
        (s, Some err) \<Rightarrow> None
      | (s, None) \<Rightarrow>
          (case healthEvaluator E
              (if rp_state progress = rolloutInProgress \<and> rp_previousPhase progress \<noteq> RevisionPhaseFailed then s
               else event E EventNormal ''DeploymentStarted'' ''Application deployment started'' s) of
             (s, Inl err) \<Rightarrow> None
           | (s, Inr ev) \<Rightarrow> Some (ev, s\<lparr>c_app := upd_status (\<lambda>st. st\<lparr>astatus_ManagedKinds :=
               inventoryKinds L desired (Skipped (rp_pruning progress))\<rparr>) (c_app s)\<rparr>)))"

lemma applyAndObserve_start:
  assumes "walk_start E L desired progress s = Some (ev, start)"
  shows "applyAndObserve E L hold desired progress s =
    (case walk_groups E L hold ev progress (Groups L desired) no_results start of
       Inl out \<Rightarrow> out
     | Inr (s, wk) \<Rightarrow> finish_walk E L hold progress wk s)"
proof -
  obtain s0 err where st: "start_rollout E L s = (s0, err)" by (cases "start_rollout E L s")
  let ?s1 = "if rp_state progress = rolloutInProgress \<and> rp_previousPhase progress \<noteq> RevisionPhaseFailed then s0
    else event E EventNormal ''DeploymentStarted'' ''Application deployment started'' s0"
  obtain s2 evr where he: "healthEvaluator E ?s1 = (s2, evr)" by (cases "healthEvaluator E ?s1")
  show ?thesis using assms st he
    by (cases err; cases evr) (simp_all add: applyAndObserve_def walk_start_def no_results_def)
qed

lemma walk_start_facts:
  assumes "condition_laws L" "walk_start E L desired progress s = Some (ev, start)"
  shows "FindStatusCondition L (rev_conditions start) RolloutCompleteCondition \<noteq> None"
    "rolloutOf L (c_rev start) phase = rolloutInProgress"
    "checks_admitted E \<Longrightarrow> rules_admitted ev"
proof -
  let ?s1 = "\<lambda>s0. if rp_state progress = rolloutInProgress \<and> rp_previousPhase progress \<noteq> RevisionPhaseFailed then s0
    else event E EventNormal ''DeploymentStarted'' ''Application deployment started'' s0"
  obtain s0 s2 where st: "start_rollout E L s = (s0, None)" and he: "healthEvaluator E (?s1 s0) = (s2, Inr ev)"
    and r: "c_rev start = c_rev s2"
    using assms(2) unfolding walk_start_def by (auto split: prod.splits option.splits sum.splits)
  have "c_rev start = c_rev s0" using r c_rev_healthEvaluator [THEN c_rev_of_pair, OF he] by simp
  then show "FindStatusCondition L (rev_conditions start) RolloutCompleteCondition \<noteq> None"
    "rolloutOf L (c_rev start) phase = rolloutInProgress"
    using start_rollout_facts [OF assms(1) st] by simp_all
  show "checks_admitted E \<Longrightarrow> rules_admitted ev" using healthEvaluator_admitted [OF he] .
qed

lemma unstarted_walk:
  assumes "condition_laws L" "walk_start E L desired progress s = None"
  shows "rolloutOf L (c_rev (fst (applyAndObserve E L hold desired progress s))) phase = rolloutInProgress"
proof -
  obtain s0 err where st: "start_rollout E L s = (s0, err)" by (cases "start_rollout E L s")
  let ?s1 = "if rp_state progress = rolloutInProgress \<and> rp_previousPhase progress \<noteq> RevisionPhaseFailed then s0
    else event E EventNormal ''DeploymentStarted'' ''Application deployment started'' s0"
  obtain s2 evr where he: "healthEvaluator E ?s1 = (s2, evr)" by (cases "healthEvaluator E ?s1")
  have "c_rev s2 = c_rev s0" using c_rev_healthEvaluator [THEN c_rev_of_pair, OF he] by simp
  then have "rev_conditions (fst (applyAndObserve E L hold desired progress s)) = rev_conditions s0"
    using assms(2) st he by (cases err; cases evr) (simp_all add: applyAndObserve_def walk_start_def)
  then show ?thesis using start_rollout_facts [OF assms(1) st] rolloutOf_cong by metis
qed

text \<open>Every way through \<open>applyAndObserve\<close>: it leaves the rollout in progress, or the walk reached its
  end and its results are what is recorded.\<close>

lemma applyAndObserve_cases:
  assumes "condition_laws L"
  obtains (unfinished) "rolloutOf L (c_rev (fst (applyAndObserve E L hold desired progress s))) phase = rolloutInProgress"
  | (finished) ev start s' wk where "walk_start E L desired progress s = Some (ev, start)"
      "walk_groups E L hold ev progress (Groups L desired) no_results start = Inr (s', wk)"
      "rev_health (fst (applyAndObserve E L hold desired progress s)) = Summary (wk_results wk)"
proof (cases "walk_start E L desired progress s")
  case None
  then show thesis using unstarted_walk [OF assms] unfinished by blast
next
  case (Some p)
  then obtain ev start where w: "walk_start E L desired progress s = Some (ev, start)" by (cases p) auto
  note facts = walk_start_facts(1,2) [OF assms w]
  let ?walk = "walk_groups E L hold ev progress (Groups L desired) no_results start"
  have kept: "rolloutOf L (c_rev (outcome ?walk)) phase = rolloutInProgress"
    using rolloutOf_cong [OF facts(1), of "c_rev (outcome ?walk)"] facts(2) by simp
  show thesis
  proof (cases ?walk)
    case (Inl out)
    then show thesis using kept unfinished by (simp add: applyAndObserve_start [OF w])
  next
    case (Inr q)
    then obtain s' wk where q: "?walk = Inr (s', wk)" by (cases q) auto
    have "rev_conditions s' = rev_conditions start"
      using conditions_walk [of E L hold ev progress "Groups L desired" no_results start] q by simp
    then show thesis
      using finish_walk_facts [of L s' E hold progress wk phase] kept facts(1) unfinished finished [OF w q] q
      by (simp add: applyAndObserve_start [OF w]) blast
  qed
qed

text \<open>A walk that ended with every deployed object shown to be Healthy, and the summary that records it.\<close>

definition completed_healthy :: "'w api \<Rightarrow> lib \<Rightarrow> rollback_hold option \<Rightarrow> unstructured list \<Rightarrow> rollout_progress \<Rightarrow> 'w ctl
    \<Rightarrow> resource_health_summary \<Rightarrow> bool" where
  "completed_healthy E L hold desired progress s recorded \<longleftrightarrow>
     (\<exists>ev start results. walk_start E L desired progress s = Some (ev, start)
        \<and> findings E L ev progress (health_reads E L hold ev progress (Groups L desired) no_results start)
            (filter (\<lambda>obj. Hook L obj \<noteq> StageSkip) desired) results
        \<and> recorded = Summary results)"

lemma applyAndObserve_complete:
  assumes "condition_laws L" "get_answers_asked E L" "checks_admitted E"
    and "rolloutOf L (c_rev (fst (applyAndObserve E L hold desired progress s))) phase = rolloutComplete"
  shows "completed_healthy E L hold desired progress s (rev_health (fst (applyAndObserve E L hold desired progress s)))"
proof (rule applyAndObserve_cases [OF assms(1), of E hold desired progress s phase])
  assume "rolloutOf L (c_rev (fst (applyAndObserve E L hold desired progress s))) phase = rolloutInProgress"
  then show ?thesis using assms(4) by simp
next
  fix ev start s' wk
  assume f: "walk_start E L desired progress s = Some (ev, start)"
    "walk_groups E L hold ev progress (Groups L desired) no_results start = Inr (s', wk)"
    "rev_health (fst (applyAndObserve E L hold desired progress s)) = Summary (wk_results wk)"
  have objs: "set (concat (map grp_Objects (Groups L desired))) = set (filter (\<lambda>obj. Hook L obj \<noteq> StageSkip) desired)"
    using set_Groups [of L desired] by auto
  have "findings E L ev progress (health_reads E L hold ev progress (Groups L desired) no_results start)
    (concat (map grp_Objects (Groups L desired))) (wk_results wk)"
    using walk_groups_facts [OF f(2) assms(2) walk_start_facts(3) [OF assms(1) f(1) assms(3)] Groups_staged_hooks]
    by (simp add: no_results_def)
  then show ?thesis using f(1,3) unfolding completed_healthy_def findings_iff objs by blast
qed

subsection \<open>Acting on a plan\<close>

text \<open>Everything in the act on a plan but the walk and the completion of a synced Application keeps the
  recorded rollout.\<close>

lemma conditions_waiting [simp]:
  "rev_conditions (fst (awaitApproval E L hold previousPhase stale s)) = rev_conditions s"
  "rev_conditions (fst (awaitDependencies E hold s)) = rev_conditions s"
  by (simp_all add: awaitApproval_def awaitDependencies_def Let_def split_beta split: prod.split option.split)

lemma c_rev_asking [simp]: "c_rev (fst (ask_approval E L J att s)) = c_rev s"
proof -
  have "c_rev (foldl (\<lambda>s (t, reason, message). event E t reason message s) s0 events) = c_rev s0" for s0 events
    by (induction events arbitrary: s0) auto
  then show ?thesis by (simp add: ask_approval_def split: prod.split)
qed

lemma c_rev_dependencies [simp]: "c_rev (fst (dependenciesReady E L s)) = c_rev s"
  by (simp add: dependenciesReady_def Let_def split: sum.split)

lemma conditions_finished [simp]:
  "rev_conditions (fst (keepFinishedRollout E hold previousPhase s)) = rev_conditions s"
  "rev_conditions (rest_in_phase previousPhase s) = rev_conditions s"
  "c_rev (markFinishedRolloutUnhealthy E L hold state message previousHealth s) = c_rev s"
  "c_rev (set_health h st s) = c_rev s" "c_rev (set_sync sync s) = c_rev s"
  by (auto simp: keepFinishedRollout_def rest_in_phase_def markFinishedRolloutUnhealthy_def set_health_def set_sync_def Let_def
      split: prod.splits option.splits dest!: c_rev_written)

lemma c_rev_finishedRolloutHealth [simp]: "c_rev (fst (finishedRolloutHealth E L rendered found previousHealth s)) = c_rev s"
  by (auto simp: finishedRolloutHealth_def Let_def split: prod.splits sum.splits
      dest!: c_rev_healthEvaluator [THEN c_rev_of_pair] c_rev_diagnose [THEN c_rev_of_pair])

lemma conditions_drifted [simp]: "rev_conditions (fst (act_drifted E L att pd s)) = rev_conditions s"
  by (auto simp: act_drifted_def Let_def split: prod.split sum.split dest!: c_rev_finishedRolloutHealth [THEN c_rev_of_pair])

lemma act_approved_cases:
  obtains (kept) "rev_conditions (fst (act_approved E L J att pd s)) = rev_conditions s"
  | (walked) s' where "act_approved E L J att pd s =
      applyAndObserve E L (at_hold att) (pd_rendered pd) (rollout_progress_of att pd) s'"
proof -
  obtain s1 approval stale where a: "ask_approval E L J att s = (s1, approval, stale)" by (cases "ask_approval E L J att s")
  then have "c_rev s1 = c_rev s" using c_rev_asking [of E L J att s] by simp
  then show thesis
    using a kept walked
    by (cases "\<not> sync_Automatic (aspec_Sync (app_Spec (c_app s1))) \<and> approval = None") (auto simp: act_approved_def Let_def)
qed

lemma act_changed_cases:
  obtains (kept) "rev_conditions (fst (act_changed E L J att pd s)) = rev_conditions s"
  | (walked) s' where "act_changed E L J att pd s =
      applyAndObserve E L (at_hold att) (pd_rendered pd) (rollout_progress_of att pd) s'"
proof -
  obtain s1 r where d: "dependenciesReady E L s = (s1, r)" by (cases "dependenciesReady E L s")
  then have r1: "c_rev s1 = c_rev s" using c_rev_dependencies [of E L s] by simp
  have "rev_conditions (fst (act_changed E L J att pd s)) = rev_conditions s
      \<or> act_changed E L J att pd s = act_approved E L J att pd s \<or> act_changed E L J att pd s = act_approved E L J att pd s1"
    using d r1 by (simp add: act_changed_def fails_def split: option.split sum.split bool.split)
  then show thesis using kept walked r1 act_approved_cases [of E L J att pd s] act_approved_cases [of E L J att pd s1]
    by metis
qed

text \<open>How acting on a plan can end: the recorded rollout is as it was, nothing was left to change and no
  rollout in progress, or the groups were walked.\<close>

lemma act_on_plan_cases:
  obtains (kept) "rev_conditions (fst (act_on_plan E L J att pd s)) = rev_conditions s"
  | (synced) "no_changes (pd_plan pd)" "at_rollout att \<noteq> rolloutInProgress"
  | (walked) s' where "act_on_plan E L J att pd s =
      applyAndObserve E L (at_hold att) (pd_rendered pd) (rollout_progress_of att pd) s'"
proof (cases "no_changes (pd_plan pd)")
  case True
  then show thesis using synced walked [of s] by (cases "at_rollout att = rolloutInProgress") (simp_all add: act_on_plan_def act_unchanged_def)
next
  case False
  then have "act_on_plan E L J att pd s = act_drifted E L att pd s \<or> act_on_plan E L J att pd s = act_changed E L J att pd s"
    by (simp add: act_on_plan_def)
  then show thesis using kept walked act_changed_cases [of E L J att pd s] conditions_drifted [of E L att pd s] by metis
qed

subsection \<open>Properties\<close>

text \<open>C1. A reconcile that deploys records a rollout as complete only when it is. Suppose acting on a plan
  turns a rollout that was not recorded as complete into one that is. Then either the plan has nothing to
  create, update or delete and no rollout was in progress, the one case in which the code completes a
  Revision without reading health; or the act is a walk of \<open>applyAndObserve\<close> in which every desired object
  but the skipped hooks was shown to be Healthy: in a world of the walk, reached after the object's own
  group was applied, the API answered a read of it with an object that the evaluator built from the
  HealthChecks finds Healthy, or it is a hook the Revision already records as Healthy. The recorded health
  summary counts exactly these findings. An object the API does not find is never such a finding. The API
  is assumed to answer a read with the object asked for, and to admit only the three verdicts in the rules
  of HealthChecks.\<close>

theorem complete_only_when_healthy:
  assumes "condition_laws L" "get_answers_asked E L" "checks_admitted E"
    and "rolloutOf L (c_rev s) phase \<noteq> rolloutComplete"
    and "rolloutOf L (c_rev (fst (act_on_plan E L J att pd s))) phase = rolloutComplete"
  shows "no_changes (pd_plan pd) \<and> at_rollout att \<noteq> rolloutInProgress \<or>
    (\<exists>s'. act_on_plan E L J att pd s = applyAndObserve E L (at_hold att) (pd_rendered pd) (rollout_progress_of att pd) s'
      \<and> completed_healthy E L (at_hold att) (pd_rendered pd) (rollout_progress_of att pd) s'
          (rstatus_Health (rev_Status (c_rev (fst (act_on_plan E L J att pd s))))))"
proof (rule act_on_plan_cases [of E L J att pd s])
  assume "rev_conditions (fst (act_on_plan E L J att pd s)) = rev_conditions s"
  then have "rolloutOf L (c_rev (fst (act_on_plan E L J att pd s))) phase = rolloutOf L (c_rev s) phase"
    by (simp add: rolloutOf_def)
  then show ?thesis using assms(4,5) by simp
next
  fix s'
  assume w: "act_on_plan E L J att pd s = applyAndObserve E L (at_hold att) (pd_rendered pd) (rollout_progress_of att pd) s'"
  then show ?thesis using applyAndObserve_complete [OF assms(1-3), of "at_hold att" "pd_rendered pd"] assms(5) by auto
qed blast

text \<open>A cluster that holds the given objects, lets every write pass and has no rollout history.\<close>

definition live_object :: "unstructured list \<Rightarrow> gvk \<Rightarrow> string \<Rightarrow> string \<Rightarrow> api_error + unstructured" where
  "live_object objs k ns n =
     (case List.find (\<lambda>obj. FromObject std_lib obj = Inr \<lparr>ID_Group = gvk_Group k, ID_Version = gvk_Version k,
         ID_Kind = gvk_Kind k, ID_Namespace = ns, ID_Name = n\<rparr>) objs of
        None \<Rightarrow> Inl (NotFound n)
      | Some obj \<Rightarrow> Inr obj)"

definition calm_api :: "unstructured list \<Rightarrow> unit api" where
  "calm_api objs = \<lparr>clock = (\<lambda>_. 1),
     tn_Apply = (\<lambda>_ _ w. (w, None)), tn_Get = (\<lambda>k ns n _. live_object objs k ns n), tn_Delete = (\<lambda>_ w. (w, None)),
     tn_Reader = (\<lambda>_. \<lparr>rd_List = (\<lambda>_ _ _. Inr []), rd_ListMetadata = (\<lambda>_ _ _. Inr [])\<rparr>),
     tn_Diagnose = (\<lambda>_ _ _ _. []),
     ct_GetApplication = (\<lambda>ns n _. Inr (named_application ns n)), ct_ListApplications = (\<lambda>_ _. Inr []),
     ct_PatchApplication = (\<lambda>a _ w. (w, Inr a)), ct_UpdateApplicationStatus = (\<lambda>_ w. (w, None)),
     ct_GetRevision = (\<lambda>ns n _. Inr (named_revision ns n)), ct_ListRevisions = (\<lambda>_ _ _. Inr []),
     ct_CreateRevision = (\<lambda>r w. (w, Inr r)), ct_UpdateRevision = (\<lambda>_ w. (w, None)),
     ct_UpdateRevisionStatus = (\<lambda>_ w. (w, None)), ct_DeleteRevision = (\<lambda>_ w. (w, None)),
     ct_Impersonate = Some (\<lambda>_ _. None), ct_DefaultServiceAccount = ''deployer'',
     ct_SetControllerReference = (\<lambda>_ r. Inr r), ct_ListHealthChecks = (\<lambda>_. Inr []),
     ct_GetNotificationSink = (\<lambda>_ n _. Inl (NotFound n)), ct_GetSecret = (\<lambda>_ n _. Inl (NotFound n)),
     ct_Event = (\<lambda>_ _ w. w), ct_Notifier = False, ct_Enqueue = (\<lambda>_ _ w. (w, True)),
     ct_DriftResyncInterval = 0, ct_Cel = \<lparr>cel_Compile = (\<lambda>_. Inr CelBoolType), cel_Program = (\<lambda>_. Inl [])\<rparr>,
     url_Parse = (\<lambda>_. None), ParseGroupVersionError = (\<lambda>_. []), MarshalError_text = [],
     NormalizeError_text = (\<lambda>_. []), Quote = (\<lambda>s. s)\<rparr>"

definition web_ctl :: "unit ctl" where
  "web_ctl = \<lparr>c_app = named_application ''web'' ''shop'', c_rev = named_revision ''web'' ''shop-1'', c_world = ()\<rparr>"

text \<open>The first attempt at one ConfigMap, on automatic sync, with the plan that creates it.\<close>

definition automatic_ctl :: "unit ctl" where
  "automatic_ctl = web_ctl\<lparr>c_app := (c_app web_ctl)\<lparr>app_Spec := (app_Spec (c_app web_ctl))\<lparr>aspec_Sync :=
     (aspec_Sync (app_Spec (c_app web_ctl)))\<lparr>sync_Automatic := True\<rparr>\<rparr>\<rparr>\<rparr>"

definition first_attempt :: attempt where
  "first_attempt = \<lparr>at_hold = None, at_request = rollbackRequestOf (c_app automatic_ctl), at_rollout = rolloutNotStarted,
     at_fresh = True, at_previousPhase = RevisionPhasePlanning, at_previousHealth = HealthStateUnknown,
     at_previousState = HealthStateUnknown, at_now = 1\<rparr>"

definition first_planned :: planned_revision_state where
  "first_planned = \<lparr>pd_rendered = [config_map ''a''], pd_live = \<lparr>live_Found = [], live_Missing = [job_id]\<rparr>,
     pd_pruning = \<lparr>Eligible = [], Skipped = [], Rejected = []\<rparr>,
     pd_plan = \<lparr>pl_Changes = [\<lparr>ch_ID = job_id, ch_Action = PlanActionCreate, ch_Fields = [], ch_Conflicts = [],
         ch_Destructive = False, ch_Warnings = []\<rparr>],
       pl_Summary = \<lparr>sum_Create = 1, sum_Update = 0, sum_Delete = 0, sum_Unchanged = 0, sum_Truncated = False\<rparr>\<rparr>,
     pd_hooks = Map.empty\<rparr>"

definition first_progress :: rollout_progress where
  "first_progress = rollout_progress_of first_attempt first_planned"

lemma first_progress_simps [simp]:
  "rp_state first_progress = rolloutNotStarted" "rp_pruning first_progress = \<lparr>Eligible = [], Skipped = [], Rejected = []\<rparr>"
  by (simp_all add: first_progress_def first_attempt_def first_planned_def rollout_progress_of_def)

lemma calm_api_laws: "get_answers_asked (calm_api objs) std_lib" "checks_admitted (calm_api objs)"
  by (auto simp: get_answers_asked_def checks_admitted_def calm_api_def live_object_def find_Some_iff split: option.splits)

lemma calm_steps:
  "event (calm_api objs) t reason message s = s"
  "healthEvaluator (calm_api objs) s = (s, Inr (\<lambda>_. []))"
  "updateRevisionStatus (calm_api objs) s = (s, None)"
  "applicationRevisions (calm_api objs) a w = Inr []"
  by (simp_all add: event_def healthEvaluator_def updateRevisionStatus_def applicationRevisions_def calm_api_def
      NewEvaluator_def Let_def)

lemma calm_groups: "Groups std_lib [config_map ''a''] = [\<lparr>grp_Stage = StageSync, grp_Wave = 0, grp_Objects = [config_map ''a'']\<rparr>]"
  by code_simp

lemma calm_health:
  "groupHealth (calm_api [config_map ''a'']) std_lib (\<lambda>_. []) [config_map ''a''] False w
     = Inr ([(hook_done job_id)\<lparr>hr_Reason := ''Ready'', hr_Message := []\<rparr>], [config_map ''a''])"
  by code_simp

lemma calm_apply: "Applier_Apply L (tn_Apply (calm_api objs)) ns app r [obj] ConflictPolicyFail w = (w, None)"
  by (simp add: Applier_Apply_def calm_api_def)

lemma calm_walk:
  assumes "EffectiveConflictPolicy (aspec_Sync (app_Spec (c_app s))) = ConflictPolicyFail"
  shows "\<exists>s' wk. walk_groups (calm_api [config_map ''a'']) std_lib None (\<lambda>_. []) first_progress
    (Groups std_lib [config_map ''a'']) no_results s = Inr (s', wk)"
  using assms
  by (simp add: no_results_def calm_groups group_step_def group_prepare_def group_apply_def group_check_def calm_apply calm_health
      Summary_counts in_state_def Let_def hook_done_def)

lemma calm_start:
  assumes "c_app s = c_app automatic_ctl"
  shows "\<exists>start. walk_start (calm_api [config_map ''a'']) std_lib [config_map ''a''] first_progress s = Some (\<lambda>_. [], start)
    \<and> EffectiveConflictPolicy (aspec_Sync (app_Spec (c_app start))) = ConflictPolicyFail"
  using assms
  by (simp add: walk_start_def start_rollout_def calm_steps Let_def split_beta StartApplying_def EffectiveConflictPolicy_def
      automatic_ctl_def web_ctl_def zero_values)

lemma calm_rollout:
  assumes "c_app s = c_app automatic_ctl"
  shows "rolloutOf std_lib (c_rev (fst (applyAndObserve (calm_api [config_map ''a'']) std_lib None [config_map ''a'']
     first_progress s))) phase = rolloutComplete"
proof -
  obtain start where start: "walk_start (calm_api [config_map ''a'']) std_lib [config_map ''a''] first_progress s = Some (\<lambda>_. [], start)"
    "EffectiveConflictPolicy (aspec_Sync (app_Spec (c_app start))) = ConflictPolicyFail"
    using calm_start [OF assms] by blast
  then obtain s' wk where "walk_groups (calm_api [config_map ''a'']) std_lib None (\<lambda>_. []) first_progress
    (Groups std_lib [config_map ''a'']) no_results start = Inr (s', wk)"
    using calm_walk by blast
  then show ?thesis
    using finish_walk_complete [OF std_condition_laws, of "calm_api [config_map ''a'']" first_progress s' "c_world s'"]
    by (simp add: applyAndObserve_start [OF start(1)] pruneStale_def)
qed

lemma calm_act:
  "act_on_plan (calm_api [config_map ''a'']) std_lib sample_codec first_attempt first_planned automatic_ctl
     = applyAndObserve (calm_api [config_map ''a'']) std_lib None [config_map ''a''] first_progress automatic_ctl"
proof -
  have auto: "sync_Automatic (aspec_Sync (app_Spec (c_app automatic_ctl)))" by (simp add: automatic_ctl_def)
  then have "fst (ask_approval (calm_api [config_map ''a'']) std_lib sample_codec first_attempt automatic_ctl) = automatic_ctl"
    by (simp add: ask_approval_def rolloutApproval_def split: prod.split)
  then have "act_approved (calm_api [config_map ''a'']) std_lib sample_codec first_attempt first_planned automatic_ctl
    = applyAndObserve (calm_api [config_map ''a'']) std_lib None [config_map ''a''] first_progress automatic_ctl"
    using auto by (auto simp: act_approved_def first_progress_def first_attempt_def first_planned_def split: prod.split)
  moreover have "conflictFailure std_lib (pd_plan first_planned) = None" "\<not> no_changes (pd_plan first_planned)"
    "at_fresh first_attempt"
    by (simp_all add: first_planned_def first_attempt_def conflictFailure_def no_changes_def)
  ultimately show ?thesis by (simp add: act_on_plan_def act_changed_def)
qed

theorem complete_only_when_healthy_witness:
  "\<exists>s'. act_on_plan (calm_api [config_map ''a'']) std_lib sample_codec first_attempt first_planned automatic_ctl
      = applyAndObserve (calm_api [config_map ''a'']) std_lib (at_hold first_attempt) (pd_rendered first_planned)
          (rollout_progress_of first_attempt first_planned) s'
    \<and> completed_healthy (calm_api [config_map ''a'']) std_lib (at_hold first_attempt) (pd_rendered first_planned)
        (rollout_progress_of first_attempt first_planned) s'
        (rstatus_Health (rev_Status (c_rev (fst (act_on_plan (calm_api [config_map ''a'']) std_lib sample_codec first_attempt
          first_planned automatic_ctl)))))"
proof -
  have "rolloutOf std_lib (c_rev automatic_ctl) RevisionPhaseNone \<noteq> rolloutComplete"
    by (simp add: automatic_ctl_def web_ctl_def rolloutOf_def zero_values std_lib_def)
  moreover have "\<not> no_changes (pd_plan first_planned)" by (simp add: first_planned_def no_changes_def)
  moreover have "rolloutOf std_lib (c_rev (fst (act_on_plan (calm_api [config_map ''a'']) std_lib sample_codec first_attempt
      first_planned automatic_ctl))) RevisionPhaseNone = rolloutComplete"
    by (simp add: calm_act calm_rollout)
  ultimately show ?thesis
    using complete_only_when_healthy [OF std_condition_laws calm_api_laws, of automatic_ctl RevisionPhaseNone "[config_map ''a'']"]
    by blast
qed

end
