(* ===== verification/Tenant_Safety.thy ===== *)
theory Tenant_Safety
  imports Rollout_Safety
begin

text \<open>
  Who writes to the tenant's cluster. \<open>with_writes A D E\<close> is the API \<open>E\<close> with other effects for
  server-side apply and for delete, so a handler that gives the same result under it made no such
  request that mattered. The locale \<open>reads_only\<close> is that contract, and every stage of \<open>Reconcile\<close> up to
  the plan is an interpretation of it; the lemmas of the handlers below are collected in
  \<open>tenant_free\<close>. The theorems say that only deleting an Application and acting on a plan reach the
  cluster, and that acting on a changed plan needs an approval on manual sync.
\<close>

named_theorems tenant_free \<open>handlers that neither apply nor delete in the tenant's cluster\<close>

definition with_writes :: "'w ssa \<Rightarrow> (unstructured \<Rightarrow> 'w \<Rightarrow> 'w \<times> api_error option) \<Rightarrow> 'w api \<Rightarrow> 'w api" where
  "with_writes A D E = E\<lparr>tn_Apply := A, tn_Delete := D\<rparr>"

lemma with_writes_reads [tenant_free]:
  "clock (with_writes A D E) = clock E" "tn_Get (with_writes A D E) = tn_Get E"
  "tn_Reader (with_writes A D E) = tn_Reader E" "tn_Diagnose (with_writes A D E) = tn_Diagnose E"
  "ct_GetApplication (with_writes A D E) = ct_GetApplication E"
  "ct_ListApplications (with_writes A D E) = ct_ListApplications E"
  "ct_PatchApplication (with_writes A D E) = ct_PatchApplication E"
  "ct_UpdateApplicationStatus (with_writes A D E) = ct_UpdateApplicationStatus E"
  "ct_GetRevision (with_writes A D E) = ct_GetRevision E" "ct_ListRevisions (with_writes A D E) = ct_ListRevisions E"
  "ct_CreateRevision (with_writes A D E) = ct_CreateRevision E"
  "ct_UpdateRevision (with_writes A D E) = ct_UpdateRevision E"
  "ct_UpdateRevisionStatus (with_writes A D E) = ct_UpdateRevisionStatus E"
  "ct_DeleteRevision (with_writes A D E) = ct_DeleteRevision E"
  "ct_Impersonate (with_writes A D E) = ct_Impersonate E"
  "ct_DefaultServiceAccount (with_writes A D E) = ct_DefaultServiceAccount E"
  "ct_SetControllerReference (with_writes A D E) = ct_SetControllerReference E"
  "ct_ListHealthChecks (with_writes A D E) = ct_ListHealthChecks E"
  "ct_GetNotificationSink (with_writes A D E) = ct_GetNotificationSink E"
  "ct_GetSecret (with_writes A D E) = ct_GetSecret E" "ct_Event (with_writes A D E) = ct_Event E"
  "ct_Notifier (with_writes A D E) = ct_Notifier E" "ct_Enqueue (with_writes A D E) = ct_Enqueue E"
  "ct_DriftResyncInterval (with_writes A D E) = ct_DriftResyncInterval E" "ct_Cel (with_writes A D E) = ct_Cel E"
  "url_Parse (with_writes A D E) = url_Parse E" "ParseGroupVersionError (with_writes A D E) = ParseGroupVersionError E"
  "MarshalError_text (with_writes A D E) = MarshalError_text E"
  "NormalizeError_text (with_writes A D E) = NormalizeError_text E" "Quote (with_writes A D E) = Quote E"
  by (simp_all add: with_writes_def)

locale reads_only =
  fixes handler :: "'w api \<Rightarrow> 'a"
  assumes no_write: "handler (with_writes A D E) = handler E"
begin

text \<open>Two APIs that differ in their tenant writes alone give one result.\<close>

lemma any_writes: "handler (with_writes A D E) = handler (with_writes A' D' E)"
  by (simp add: no_write)

end

subsection \<open>Handlers\<close>

lemma writes_free [tenant_free]:
  "event (with_writes A D E) = event E"
  "updateRevisionStatus (with_writes A D E) = updateRevisionStatus E"
  "updateApplicationStatus (with_writes A D E) = updateApplicationStatus E"
  "write_status (with_writes A D E) = write_status E"
  "updateKeepingStatus (with_writes A D E) = updateKeepingStatus E"
  "applicationRevisions (with_writes A D E) = applicationRevisions E"
  unfolding event_def updateRevisionStatus_def updateApplicationStatus_def write_status_def
      updateKeepingStatus_def applicationRevisions_def
    tenant_free by (rule refl)+

lemma notification_free [tenant_free]:
  "notificationTarget (with_writes A D E) = notificationTarget E"
  "notify_body ev message (with_writes A D E) = notify_body ev message E"
  unfolding notificationTarget_def notify_body_def
    tenant_free by (rule refl)+

lemma notify_loop_free [tenant_free]: "notify_loop (with_writes A D E) ev message subs c s = notify_loop E ev message subs c s"
proof (induction subs arbitrary: c s)
  case (Cons sub subs)
  show ?case unfolding notify_loop.simps tenant_free Cons.IH by (rule refl)
qed simp

lemma fail_rolling_back_free [tenant_free]: "fail_rolling_back (with_writes A D E) from rs w = fail_rolling_back E from rs w"
  by (induction rs arbitrary: w) (simp_all add: tenant_free split: prod.split option.split)

lemma notify_free [tenant_free]:
  "notify (with_writes A D E) = notify E"
  "abandonRollback (with_writes A D E) = abandonRollback E"
  "liftHold (with_writes A D E) = liftHold E"
  "reportHold (with_writes A D E) = reportHold E"
  "rollbackTarget (with_writes A D E) = rollbackTarget E"
  unfolding notify_def abandonRollback_def liftHold_def reportHold_def rollbackTarget_def
    tenant_free by (rule refl)+

lemma failing_free [tenant_free]:
  "failure_rollback (with_writes A D E) = failure_rollback E"
  "failRevisionAndApplication (with_writes A D E) = failRevisionAndApplication E"
  unfolding failure_rollback_def failRevisionAndApplication_def
    tenant_free by (rule refl)+

lemma id_error_text_free [tenant_free]: "id_error_text (with_writes A D E) L obj err = id_error_text E L obj err"
  by (cases err) (simp_all add: tenant_free)

lemma live_loop_free [tenant_free]: "live_loop (with_writes A D E) L w objs result = live_loop E L w objs result"
  by (induction objs arbitrary: result) (simp_all add: tenant_free split: sum.split)

lemma finished_results_free [tenant_free]:
  "finished_results (with_writes A D E) L ev found objs = finished_results E L ev found objs"
  by (induction objs) (simp_all add: tenant_free cong: sum.case_cong option.case_cong)

lemma hold_loop_free [tenant_free]: "hold_loop (with_writes A D E) L c target from rs w = hold_loop E L c target from rs w"
  by (induction rs arbitrary: w) (simp_all add: tenant_free split: prod.split option.split)

lemma health_free [tenant_free]:
  "live_Read (with_writes A D E) = live_Read E"
  "healthEvaluator (with_writes A D E) = healthEvaluator E"
  "diagnose (with_writes A D E) = diagnose E"
  "holdReplaced (with_writes A D E) = holdReplaced E"
  unfolding live_Read_def healthEvaluator_def diagnose_def holdReplaced_def
    tenant_free by (rule refl)+

lemma completing_free [tenant_free]:
  "complete_rollback (with_writes A D E) = complete_rollback E"
  "completeSuccessfulDeployment (with_writes A D E) = completeSuccessfulDeployment E"
  unfolding complete_rollback_def completeSuccessfulDeployment_def
    tenant_free by (rule refl)+

lemma waiting_free [tenant_free]:
  "tenantClient (with_writes A D E) = tenantClient E"
  "ensureRevision (with_writes A D E) = ensureRevision E"
  "dependenciesReady (with_writes A D E) = dependenciesReady E"
  "awaitDependencies (with_writes A D E) = awaitDependencies E"
  "awaitApproval (with_writes A D E) = awaitApproval E"
  "reportRetryBlocked (with_writes A D E) = reportRetryBlocked E"
  "warnSkippedKinds (with_writes A D E) = warnSkippedKinds E"
  unfolding tenantClient_def ensureRevision_def dependenciesReady_def awaitDependencies_def
      awaitApproval_def reportRetryBlocked_def warnSkippedKinds_def
    tenant_free by (rule refl)+

lemma finished_free [tenant_free]:
  "healthRecheck (with_writes A D E) = healthRecheck E"
  "finishedRolloutHealth (with_writes A D E) = finishedRolloutHealth E"
  "markFinishedRolloutUnhealthy (with_writes A D E) = markFinishedRolloutUnhealthy E"
  "keepFinishedRollout (with_writes A D E) = keepFinishedRollout E"
  unfolding healthRecheck_def finishedRolloutHealth_def markFinishedRolloutUnhealthy_def
      keepFinishedRollout_def
    tenant_free by (rule refl)+

subsection \<open>Stages\<close>

lemma rendering_free [tenant_free]:
  "loadGitCredentials (with_writes A D E) = loadGitCredentials E"
  "validateHelmReleaseName (with_writes A D E) = validateHelmReleaseName E"
  "renderDesired (with_writes A D E) = renderDesired E"
  unfolding loadGitCredentials_def credentialsFromSecret_def validateHelmReleaseName_def renderDesired_def decryptor_def
    helm_render_inputs_def pullChart_def tenant_free by (rule refl)+

lemma source_free [tenant_free]:
  "fails_application (with_writes A D E) = fails_application E"
  "find_repository (with_writes A D E) = find_repository E"
  "resolve_source (with_writes A D E) = resolve_source E"
  unfolding fails_application_def find_repository_def source_failed_def recordRollbackIntent_def
    rollback_intent_def resolve_source_def tenant_free by (rule refl)+

lemma choosing_free [tenant_free]:
  "choose_revision (with_writes A D E) = choose_revision E"
  "begin_attempt (with_writes A D E) = begin_attempt E"
  unfolding choose_revision_def keep_deployed_def source_failed_def retry_guard_def start_planning_def
    begin_attempt_def tenant_free by (rule refl)+

lemma hook_error_text_free [tenant_free]: "hook_error_text (with_writes A D E) err = hook_error_text E err"
  by (cases err) (simp add: tenant_free)

lemma plan_error_text_free [tenant_free]: "plan_error_text (with_writes A D E) L objs err = plan_error_text E L objs err"
  by (cases err) (simp_all add: id_failure_text_def tenant_free cong: option.case_cong)

lemma planning_free [tenant_free]:
  "fails (with_writes A D E) = fails E"
  "render_revision (with_writes A D E) = render_revision E"
  "plan_revision (with_writes A D E) = plan_revision E"
  unfolding fails_def desired_objects_def render_revision_def plan_revision_def prune_plan_def build_plan_def
    id_failure_text_def record_planned_def warnPruneSkipped_def tenant_free by (rule refl)+

lemma admit_free:
  "om_DeletionTimestamp (app_Meta (c_app s)) = None \<Longrightarrow> admit (with_writes A D E) L S s = admit E L S s"
  unfolding admit_def tenant_free by (simp add: Let_def)

interpretation resolving: reads_only "\<lambda>E. resolve_source E L S g c s" for L S g c s
  by unfold_locales (simp add: tenant_free)

interpretation choosing: reads_only "\<lambda>E. choose_revision E L J S g c request resolved s" for L J S g c request resolved s
  by unfold_locales (simp add: tenant_free)

interpretation beginning: reads_only "\<lambda>E. begin_attempt E L hold request resolved s" for L hold request resolved s
  by unfold_locales (simp add: tenant_free)

interpretation rendering: reads_only "\<lambda>E. render_revision E L J S hold resolved s" for L J S hold resolved s
  by unfold_locales (simp add: tenant_free)

interpretation planning: reads_only "\<lambda>E. plan_revision E L J S hold newAttempt rendered inputs s"
  for L J S hold newAttempt rendered inputs s
  by unfold_locales (simp add: tenant_free)

subsection \<open>Acting\<close>

lemma resync_free [tenant_free]: "resync (with_writes A D E) = resync E"
  unfolding resync_def tenant_free by (rule refl)

lemma acting_free [tenant_free]:
  "ask_approval (with_writes A D E) = ask_approval E"
  "confirm_synced (with_writes A D E) = confirm_synced E"
  "act_drifted (with_writes A D E) = act_drifted E"
  unfolding ask_approval_def confirm_synced_def already_synced_def act_drifted_def tenant_free by (rule refl)+

lemma act_unchanged_free:
  "at_rollout att \<noteq> rolloutInProgress \<Longrightarrow> act_unchanged (with_writes A D E) L J att pd s = act_unchanged E L J att pd s"
  unfolding act_unchanged_def tenant_free by simp

lemma rolloutApproval_status [simp]: "rolloutApproval L J (upd_status f a) r request rollout = rolloutApproval L J a r request rollout"
  unfolding rolloutApproval_def manualApproval_def rollbackApproval_def approvedSinceRequest_def Binding_def
    app_upd_status by (rule refl)

lemma dependenciesReady_keeps:
  assumes "dependenciesReady E L s = (s', r)"
  shows "\<exists>f. c_app s' = upd_status f (c_app s)" "c_rev s' = c_rev s"
proof -
  have "\<exists>f. a = upd_status f a" for a by (rule exI [of _ "\<lambda>st. st"]) (simp add: upd_status_def)
  then show "\<exists>f. c_app s' = upd_status f (c_app s)" "c_rev s' = c_rev s"
    using assms by (auto simp: dependenciesReady_def Let_def split: if_splits sum.splits)
qed

lemma ask_approval_keeps:
  "ask_approval E L J att s = (s', approval, stale) \<Longrightarrow>
     approval = fst (rolloutApproval L J (c_app s) (c_rev s) (at_request att) (at_rollout att)) \<and> c_app s' = c_app s"
proof -
  have "c_app (foldl (\<lambda>s (t, reason, message). event E t reason message s) s0 events) = c_app s0" for s0 events
    by (induction events arbitrary: s0) (auto simp: event_def)
  then show "ask_approval E L J att s = (s', approval, stale) \<Longrightarrow> ?thesis"
    by (auto simp: ask_approval_def split: prod.splits)
qed

lemma act_approved_free:
  assumes "\<not> sync_Automatic (aspec_Sync (app_Spec (c_app s)))"
    and "fst (rolloutApproval L J (c_app s) (c_rev s) (at_request att) (at_rollout att)) = None"
  shows "act_approved (with_writes A D E) L J att pd s = act_approved E L J att pd s"
proof -
  obtain s' approval stale where a: "ask_approval E L J att s = (s', approval, stale)" by (cases "ask_approval E L J att s")
  then show ?thesis using ask_approval_keeps [OF a] assms unfolding act_approved_def tenant_free by simp
qed

lemma act_changed_free:
  assumes "\<not> sync_Automatic (aspec_Sync (app_Spec (c_app s)))"
    and "fst (rolloutApproval L J (c_app s) (c_rev s) (at_request att) (at_rollout att)) = None"
  shows "act_changed (with_writes A D E) L J att pd s = act_changed E L J att pd s"
proof -
  obtain s' r where d: "dependenciesReady E L s = (s', r)" by (cases "dependenciesReady E L s")
  then obtain f where k: "c_app s' = upd_status f (c_app s)" "c_rev s' = c_rev s"
    using dependenciesReady_keeps by blast
  then show ?thesis
    using act_approved_free [OF assms, of A D E pd] act_approved_free [of s' L J att A D E pd] assms d
    unfolding act_changed_def tenant_free by (simp split: option.split sum.split bool.split)
qed

text \<open>Whether acting on a plan may write to the tenant's cluster: sync is automatic, the plan is
  approved, or a rollout in progress has nothing left to change.\<close>

definition may_write :: "lib \<Rightarrow> codec \<Rightarrow> attempt \<Rightarrow> planned_revision_state \<Rightarrow> 'w ctl \<Rightarrow> bool" where
  "may_write L J att pd s \<longleftrightarrow> sync_Automatic (aspec_Sync (app_Spec (c_app s)))
     \<or> fst (rolloutApproval L J (c_app s) (c_rev s) (at_request att) (at_rollout att)) \<noteq> None
     \<or> (at_rollout att = rolloutInProgress \<and> no_changes (pd_plan pd))"

lemma act_on_plan_free:
  "\<not> may_write L J att pd s \<Longrightarrow> act_on_plan (with_writes A D E) L J att pd s = act_on_plan E L J att pd s"
  using act_unchanged_free [of att A D E L J pd s] act_changed_free [of s L J att A D E pd]
  unfolding act_on_plan_def may_write_def tenant_free by auto

subsection \<open>The whole reconcile\<close>

text \<open>\<open>reconcile_application\<close> up to the act on the plan: its outcome when it ends before, or what the
  act starts from.\<close>

definition reach_plan :: "'w api \<Rightarrow> lib \<Rightarrow> codec \<Rightarrow> 'w sources \<Rightarrow> 'w ctl
    \<Rightarrow> ('w reconciled) + (attempt \<times> bool \<times> planned_revision_state \<times> 'w ctl)" where
  "reach_plan E L J S s =
     (case admit E L S s of
        Inl out \<Rightarrow> Inl out
      | Inr (s, g, c) \<Rightarrow>
          (case resolve_source E L S g c s of
             Inl out \<Rightarrow> Inl out
           | Inr (s, request, resolved) \<Rightarrow>
               (let previousHealth = astatus_Health (app_Status (c_app s));
                    previousState = astatus_State (app_Status (c_app s))
                in case choose_revision E L J S g c request resolved s of
                     Inl out \<Rightarrow> Inl out
                   | Inr (s, resolved, hold) \<Rightarrow>
                       (let previousPhase = rev_Phase (c_rev s) in
                        case begin_attempt E L hold request resolved s of
                          Inl out \<Rightarrow> Inl out
                        | Inr (s, rollout, fresh, now) \<Rightarrow>
                            (case render_revision E L J S hold resolved s of
                               Inl out \<Rightarrow> Inl out
                             | Inr (s, rendered, inputs) \<Rightarrow>
                                 (let (w, watched) = so_EnsureWatches S
                                        (UnionKinds L [objectKinds L rendered, InventoryKinds L (c_app s)]) (c_world s)
                                  in case plan_revision E L J S hold (new_attempt previousPhase) rendered inputs
                                            (s\<lparr>c_world := w\<rparr>) of
                                       Inl out \<Rightarrow> Inl (resync E (\<not> watched) out)
                                     | Inr (s, pd) \<Rightarrow>
                                         Inr (\<lparr>at_hold = hold, at_request = request, at_rollout = rollout, at_fresh = fresh,
                                               at_previousPhase = previousPhase, at_previousHealth = previousHealth,
                                               at_previousState = previousState, at_now = now\<rparr>, \<not> watched, pd, s)))))))"

lemma reconcile_application_reach:
  "reconcile_application E L J S s =
     (case reach_plan E L J S s of
        Inl out \<Rightarrow> out
      | Inr (att, unwatched, pd, s') \<Rightarrow> resync E unwatched (act_on_plan E L J att pd s'))"
  by (simp add: reconcile_application_def reach_plan_def plan_and_act_def Let_def split: sum.split prod.split)

lemma reach_plan_free:
  assumes "om_DeletionTimestamp (app_Meta (c_app s)) = None"
  shows "reach_plan (with_writes A D E) L J S s = reach_plan E L J S s"
  unfolding reach_plan_def tenant_free admit_free [OF assms] by (rule refl)

subsection \<open>What the stages keep of the Application\<close>

definition keeps_app :: "'w ctl \<Rightarrow> 'w ctl \<Rightarrow> bool" where
  "keeps_app s s' \<longleftrightarrow> app_Meta (c_app s') = app_Meta (c_app s) \<and> app_Spec (c_app s') = app_Spec (c_app s)"

lemma keeps_appI [intro]:
  "c_app s' = c_app s \<Longrightarrow> keeps_app s s'" "c_app s' = upd_status f (c_app s) \<Longrightarrow> keeps_app s s'"
  by (simp_all add: keeps_app_def)

lemma keeps_app_trans: "keeps_app s s' \<Longrightarrow> keeps_app s' s'' \<Longrightarrow> keeps_app s s''"
  by (simp add: keeps_app_def)

lemma c_app_simps [simp]:
  "c_app (event E t reason message s) = c_app s" "c_app (fst (updateRevisionStatus E s)) = c_app s"
  "c_app (warnSkippedKinds E reason kinds s) = c_app s" "c_app (warnPruneSkipped E L skipped s) = c_app s"
  by (simp_all add: event_def updateRevisionStatus_def warnSkippedKinds_def warnPruneSkipped_def Let_def split: prod.split)

lemma c_app_of_pair: "c_app (fst p) = a \<Longrightarrow> p = (s', e) \<Longrightarrow> c_app s' = a"
  by simp

lemma ensureRevision_app: "ensureRevision E L J r s = (s', err) \<Longrightarrow> c_app s' = c_app s"
  by (auto simp: ensureRevision_def Let_def split: option.splits sum.splits prod.splits if_splits)

lemma liftHold_app: "liftHold E L why s = (s', err) \<Longrightarrow> c_app s' = c_app s"
  by (auto simp: liftHold_def Let_def split: prod.splits option.splits dest!: c_app_simps(2) [THEN c_app_of_pair])

lemma admit_app: "admit E L S s = Inr (s', g, c) \<Longrightarrow> keeps_app s s'"
  by (auto simp: admit_def find_repository_def tenantClient_def Let_def
      split: if_splits option.splits prod.splits sum.splits)

lemma resolve_app:
  "resolve_source E L S g c s = Inr (s', request, resolved) \<Longrightarrow> \<not> active (rollbackRequestOf (c_app s)) \<Longrightarrow>
   s' = s \<and> request = rollbackRequestOf (c_app s)"
  by (auto simp: resolve_source_def rollback_intent_def Let_def split: sum.splits)

lemma choose_app:
  "choose_revision E L J S g c request resolved s = Inr (s', resolved', hold) \<Longrightarrow> keeps_app s s'"
  by (auto simp: choose_revision_def keep_deployed_def planning_status_def Let_def keeps_app_def
      split: prod.splits option.splits if_splits sum.splits dest!: ensureRevision_app liftHold_app)

lemma dependencies_app: "dependenciesReady E L s = (s', r) \<Longrightarrow> keeps_app s s'"
  using dependenciesReady_keeps(1) by blast

lemma start_planning_app: "start_planning E now s = (s', err) \<Longrightarrow> keeps_app s s'"
  by (auto simp: start_planning_def StartPlanning_def keeps_app_def Let_def split: if_splits
      dest!: c_app_simps(2) [THEN c_app_of_pair])

lemma begin_app: "begin_attempt E L hold request resolved s = Inr (s', rollout, fresh, now) \<Longrightarrow> keeps_app s s'"
  by (auto simp: begin_attempt_def Let_def keeps_app_def split: prod.splits sum.splits option.splits if_splits bool.splits
      dest!: start_planning_app dependencies_app)

lemma render_app: "render_revision E L J S hold resolved s = Inr (s', rendered, inputs) \<Longrightarrow> c_app s' = c_app s"
  by (auto simp: render_revision_def Let_def split: prod.splits sum.splits option.splits if_splits)

lemma prune_plan_app: "prune_plan E L rendered live s = (s', r) \<Longrightarrow> c_app s' = c_app s"
  by (auto simp: prune_plan_def split: if_splits sum.splits prod.splits)

lemma plan_app: "plan_revision E L J S hold newAttempt rendered inputs s = Inr (s', pd) \<Longrightarrow> c_app s' = c_app s"
  by (auto simp: plan_revision_def record_planned_def Let_def split: prod.splits sum.splits option.splits if_splits
      dest!: prune_plan_app)

lemma begin_rollout:
  "begin_attempt E L hold request resolved s = Inr (s', rollout, fresh, now) \<Longrightarrow>
   rollout = rolloutOf L (c_rev s) (rev_Phase (c_rev s))"
  by (auto simp: begin_attempt_def Let_def split: prod.splits sum.splits option.splits if_splits bool.splits)

text \<open>What an act starts from, when no rollback is requested: the Application as it was admitted, and
  the rollout its Revision was found in.\<close>

lemma reach_plan_facts:
  assumes "reach_plan E L J S s = Inr (att, unwatched, pd, s')" "\<not> active (rollbackRequestOf (c_app s))"
  obtains g c request resolved s1 s2 resolved' hold where "keeps_app s s'" "keeps_app s s1" "at_request att = rollbackRequestOf (c_app s)"
    "choose_revision E L J S g c request resolved s1 = Inr (s2, resolved', hold)"
    "at_rollout att = rolloutOf L (c_rev s2) (rev_Phase (c_rev s2))"
proof -
  obtain s1 g c s2 request resolved s3 resolved' hold s4 rollout fresh now s5 rendered inputs w where r:
    "admit E L S s = Inr (s1, g, c)" "resolve_source E L S g c s1 = Inr (s2, request, resolved)"
    "choose_revision E L J S g c request resolved s2 = Inr (s3, resolved', hold)"
    "begin_attempt E L hold request resolved' s3 = Inr (s4, rollout, fresh, now)"
    "render_revision E L J S hold resolved' s4 = Inr (s5, rendered, inputs)"
    "plan_revision E L J S hold (new_attempt (rev_Phase (c_rev s3))) rendered inputs (s5\<lparr>c_world := w\<rparr>) = Inr (s', pd)"
    "at_request att = request" "at_rollout att = rollout"
    using assms(1) by (auto simp: reach_plan_def Let_def split: sum.splits prod.splits; blast)
  have k1: "keeps_app s s1" using admit_app [OF r(1)] .
  then have "rollbackRequestOf (c_app s1) = rollbackRequestOf (c_app s)"
    by (simp add: keeps_app_def rollbackRequestOf_def)
  with resolve_app [OF r(2)] assms(2) have r2: "s2 = s1" "request = rollbackRequestOf (c_app s)" by auto
  have "keeps_app s s3" using keeps_app_trans [OF k1] choose_app [OF r(3)] r2 by simp
  then have "keeps_app s s4" using keeps_app_trans begin_app [OF r(4)] by blast
  then have "keeps_app s s'" using render_app [OF r(5)] plan_app [OF r(6)] by (simp add: keeps_app_def)
  then show thesis using that k1 r(3,7,8) r2 begin_rollout [OF r(4)] by blast
qed

lemma no_approver:
  assumes "get_str (app_Annotations a) ApprovedByAnnotation = []" "\<not> active request"
  shows "fst (rolloutApproval L J a r request rollout) = None"
  using assms by (simp add: rolloutApproval_def manualApproval_def rollbackApproval_def Let_def split: option.split)

subsection \<open>Properties\<close>

text \<open>C2. Without an approval a reconcile writes nothing to the tenant's cluster. It gives the same outcome whatever
  server-side apply and delete would do, so neither is used, under three conditions: the Application is
  not being deleted (its deletion policy deletes without an approval); sync is manual and no approval covers exactly
  this Revision and plan, where the reconcile gets as far as acting on a plan; and that plan has changes, or no
  rollout is in progress (a rollout that was let start is carried on, and its objects applied again, even when nothing is
  left to change).\<close>

theorem unapproved_never_writes:
  assumes "om_DeletionTimestamp (app_Meta (c_app s)) = None"
    and "\<And>att unwatched pd s'. reach_plan E L J S s = Inr (att, unwatched, pd, s') \<Longrightarrow>
      \<not> sync_Automatic (aspec_Sync (app_Spec (c_app s')))
      \<and> fst (rolloutApproval L J (c_app s') (c_rev s') (at_request att) (at_rollout att)) = None
      \<and> (no_changes (pd_plan pd) \<longrightarrow> at_rollout att \<noteq> rolloutInProgress)"
  shows "reconcile_application (E\<lparr>tn_Apply := A, tn_Delete := D\<rparr>) L J S s = reconcile_application E L J S s"
proof -
  have "reconcile_application (with_writes A D E) L J S s = reconcile_application E L J S s"
  proof (cases "reach_plan E L J S s")
    case (Inl out)
    then show ?thesis using reach_plan_free [OF assms(1)] by (simp add: reconcile_application_reach)
  next
    case (Inr p)
    then obtain att unwatched pd s' where p: "reach_plan E L J S s = Inr (att, unwatched, pd, s')" by (cases p) auto
    then have "\<not> may_write L J att pd s'" using assms(2) by (auto simp: may_write_def)
    then show ?thesis
      using p act_on_plan_free [of L J att pd s' A D E] reach_plan_free [OF assms(1)] by (simp add: reconcile_application_reach tenant_free)
  qed
  then show ?thesis by (simp add: with_writes_def)
qed

text \<open>Sources that resolve every reference to one commit and render the given objects.\<close>

definition calm_sources :: "unstructured list \<Rightarrow> unit sources" where
  "calm_sources objs = \<lparr>
     so_GetRepository = (\<lambda>ns n _. Inr \<lparr>repo_Meta = zero_meta\<lparr>om_Name := n, om_Namespace := ns\<rparr>,
        repo_Spec = \<lparr>repo_Type = RepositoryTypeGit,
          repo_Git = Some \<lparr>git_URL = ''https://git'', git_Revision = ''main'', git_AuthSecretRef = None\<rparr>,
          repo_ApplicationConfigPaths = [], repo_ApplicationServiceAccountName = [],
          repo_ApplicationPolicy = \<lparr>ap_AllowAutomatic = False, ap_AllowPrune = False, ap_AllowAdopt = False,
            ap_AllowDeleteManagedResources = False\<rparr>,
          repo_PollInterval = None, repo_Webhook = None, repo_ImageUpdate = None\<rparr>,
        repo_Status = \<lparr>repostatus_State = RepositoryStateReady, repostatus_ObservedRevision = [],
          repostatus_LastFetchedAt = None, repostatus_Conditions = []\<rparr>\<rparr>),
     so_Resolve = (\<lambda>_ _. Inr \<lparr>res_Revision = ''c1'', res_CacheDir = ''/ws''\<rparr>),
     so_Render = (\<lambda>_ _ _. Inr objs), so_Pull = (\<lambda>_ _ _. Inl []), so_ValidReleaseName = (\<lambda>_. True),
     so_GetSecret = (\<lambda>_ n _. Inl (NotFound n)), so_GetConfigMap = (\<lambda>_ n _. Inl (NotFound n)),
     so_UnmarshalYAML = (\<lambda>_. Inr []), so_UnmarshalJSON = (\<lambda>_. Inr []), so_ImportKeys = (\<lambda>_. None),
     so_SecretKeys = (\<lambda>_. []), so_Mapper = (\<lambda>_. Inr True), so_EnsureWatches = (\<lambda>_ w. (w, True)),
     so_PlanLimit = 0\<rparr>"

definition manual_ctl :: "unit ctl" where
  "manual_ctl = web_ctl\<lparr>c_app := (c_app web_ctl)\<lparr>app_Spec := (app_Spec (c_app web_ctl))\<lparr>aspec_Source :=
     \<lparr>src_RepositoryRef = ''repo'', src_Revision = [], src_Path = ''.'',
      src_Render = \<lparr>render_Type = RenderTypeYAML, render_Helm = None\<rparr>\<rparr>\<rparr>\<rparr>\<rparr>"

lemma calm_ensure: "ensureRevision (calm_api objs) L J r s = (s', err) \<Longrightarrow> err = None \<Longrightarrow>
   \<exists>name. c_rev s' = named_revision (app_Namespace (c_app s)) name"
  by (auto simp: ensureRevision_def calm_api_def Let_def split: option.splits)

lemma calm_choose:
  assumes "choose_revision (calm_api objs) std_lib J S g c request resolved s = Inr (s', resolved', hold)"
  shows "rolloutOf std_lib (c_rev s') (rev_Phase (c_rev s')) = rolloutNotStarted"
proof -
  have [simp]: "FindStatusCondition std_lib (rstatus_Conditions (rev_Status (named_revision ns n))) t = None" for ns n t
    by (simp add: std_lib_def zero_values)
  have "\<exists>ns n. c_rev s' = named_revision ns n"
    using assms
    by (auto simp: choose_revision_def heldBy_def Let_def split: prod.splits option.splits dest!: calm_ensure)
  then show ?thesis by (auto simp: rolloutOf_def zero_values std_lib_def)
qed

theorem unapproved_never_writes_witness:
  "reconcile_application ((calm_api [])\<lparr>tn_Apply := \<lambda>obj force w. (w, Some (Forbidden ''apply'')),
      tn_Delete := \<lambda>obj w. (w, Some (Forbidden ''delete''))\<rparr>) std_lib sample_codec (calm_sources [config_map ''a'']) manual_ctl
   = reconcile_application (calm_api []) std_lib sample_codec (calm_sources [config_map ''a'']) manual_ctl"
proof (rule unapproved_never_writes)
  show "om_DeletionTimestamp (app_Meta (c_app manual_ctl)) = None" by (simp add: manual_ctl_def web_ctl_def zero_values)
  have quiet: "\<not> active (rollbackRequestOf (c_app manual_ctl))" "app_Annotations (c_app manual_ctl) = Map.empty"
    "\<not> sync_Automatic (aspec_Sync (app_Spec (c_app manual_ctl)))"
    by (simp_all add: manual_ctl_def web_ctl_def zero_values active_def rollbackRequestOf_def get_str_def)
  fix att unwatched pd s'
  assume "reach_plan (calm_api []) std_lib sample_codec (calm_sources [config_map ''a'']) manual_ctl = Inr (att, unwatched, pd, s')"
  from reach_plan_facts [OF this quiet(1)] calm_choose
  have "keeps_app manual_ctl s'" "at_request att = rollbackRequestOf (c_app manual_ctl)" "at_rollout att = rolloutNotStarted"
    by metis+
  then show "\<not> sync_Automatic (aspec_Sync (app_Spec (c_app s')))
      \<and> fst (rolloutApproval std_lib sample_codec (c_app s') (c_rev s') (at_request att) (at_rollout att)) = None
      \<and> (no_changes (pd_plan pd) \<longrightarrow> at_rollout att \<noteq> rolloutInProgress)"
    using quiet no_approver by (simp add: keeps_app_def get_str_def)
qed

end
