(* ===== verification/Images.thy ===== *)
theory Images
  imports Rendering
begin

text \<open>
  Image automation: \<open>internal/imagepolicy\<close> (which tag an ImagePolicy selects, which credential goes to
  a registry), \<open>internal/controller/imagepolicy_controller.go\<close> (recording the selected image) and
  \<open>internal/imageupdate\<close> (writing it back to Git). Semantic versions, regular expressions, floating
  point, JSON, base64 and URL parsing, and the registry are parameters, in the record \<open>image_lib\<close>;
  the marker's own regular expression is the function \<open>marker\<close>.
\<close>

subsection \<open>Data\<close>

record tag_pattern =
  tp_Regex :: string
  tp_Order :: string

record image_selection =
  isel_Semver :: "string option" \<comment> \<open>the range\<close>
  isel_TagPattern :: "tag_pattern option"
  isel_Digest :: "string option" \<comment> \<open>the tag\<close>

record image_policy_spec =
  ips_Image :: string
  ips_SecretRef :: "string option"
  ips_Interval :: int
  ips_Policy :: image_selection
  ips_Webhook :: "string option"

record image_policy_status =
  ipst_LatestTag :: string
  ipst_LatestDigest :: string
  ipst_LatestImage :: string
  ipst_LastScannedAt :: "time option"
  ipst_ObservedGeneration :: int
  ipst_Conditions :: "condition list"

record image_policy =
  ip_Meta :: object_meta
  ip_Spec :: image_policy_spec
  ip_Status :: image_policy_status

record registry_entry =
  re_Username :: string
  re_Password :: string
  re_Auth :: string

type_synonym credential = "string \<times> string"

record ('v, 'f, 'w) image_lib =
  sv_NewConstraint :: "string \<Rightarrow> string + ('v \<Rightarrow> bool)"
  sv_NewVersion :: "string \<Rightarrow> string + 'v"
  sv_GreaterThan :: "'v \<Rightarrow> 'v \<Rightarrow> bool"
  rx_Compile :: "string \<Rightarrow> string + (string \<Rightarrow> string list option)" \<comment> \<open>\<open>FindStringSubmatch\<close>\<close>
  fl_Parse :: "string \<Rightarrow> string + 'f"
  fl_less :: "'f \<Rightarrow> 'f \<Rightarrow> bool"
  js_DockerConfig :: "string \<Rightarrow> string + (string \<times> registry_entry) list" \<comment> \<open>\<open>auths\<close>, as iterated\<close>
  b64_Decode :: "string \<Rightarrow> string + string"
  url_Host :: "string \<Rightarrow> string option"
  fmt_Quote :: "string \<Rightarrow> string" \<comment> \<open>\<open>%q\<close>\<close>
  rg_Tags :: "string \<Rightarrow> credential \<Rightarrow> 'w \<Rightarrow> string + string list"
  rg_Digest :: "string \<Rightarrow> string \<Rightarrow> credential \<Rightarrow> 'w \<Rightarrow> string + string"

subsection \<open>Selecting a tag\<close>

fun best_version :: "('v, 'f, 'w) image_lib \<Rightarrow> ('v \<Rightarrow> bool) \<Rightarrow> string list \<Rightarrow> ('v \<times> string) option \<Rightarrow> ('v \<times> string) option" where
  "best_version M ok [] best = best"
| "best_version M ok (tag # tags) best =
     (case sv_NewVersion M tag of
        Inl _ \<Rightarrow> best_version M ok tags best
      | Inr version \<Rightarrow>
          if \<not> ok version then best_version M ok tags best
          else if (case best of None \<Rightarrow> True | Some (b, _) \<Rightarrow> sv_GreaterThan M version b)
          then best_version M ok tags (Some (version, tag))
          else best_version M ok tags best)"

text \<open>The candidates of a pattern with their keys: the whole match or its first group as a number, or
  the zero key of the alphabetical order.\<close>

fun candidates :: "('v, 'f, 'w) image_lib \<Rightarrow> bool \<Rightarrow> (string \<Rightarrow> string list option) \<Rightarrow> string list \<Rightarrow> (string \<times> 'f option) list" where
  "candidates M numerical pattern [] = []"
| "candidates M numerical pattern (tag # tags) =
     (case pattern tag of
        None \<Rightarrow> candidates M numerical pattern tags
      | Some groups \<Rightarrow>
          if numerical then
            (case fl_Parse M (if length groups > 1 then groups ! 1 else hd groups) of
               Inl _ \<Rightarrow> candidates M numerical pattern tags
             | Inr key \<Rightarrow> (tag, Some key) # candidates M numerical pattern tags)
          else (tag, None) # candidates M numerical pattern tags)"

definition candidate_lt :: "('v, 'f, 'w) image_lib \<Rightarrow> bool \<Rightarrow> string \<times> 'f option \<Rightarrow> string \<times> 'f option \<Rightarrow> bool" where
  "candidate_lt M numerical a b =
     (if numerical then (case (snd a, snd b) of (Some x, Some y) \<Rightarrow> fl_less M x y | _ \<Rightarrow> False) else fst a < fst b)"

definition Select :: "('v, 'f, 'w) image_lib \<Rightarrow> image_selection \<Rightarrow> string list \<Rightarrow> string + string" where
  "Select M policy tags =
     (case isel_Digest policy of
        Some tag \<Rightarrow> Inr tag
      | None \<Rightarrow>
          (case isel_Semver policy of
             Some rng \<Rightarrow>
               (case sv_NewConstraint M rng of
                  Inl err \<Rightarrow> Inl (''semver range '' @ fmt_Quote M rng @ '': '' @ err)
                | Inr ok \<Rightarrow>
                    (case best_version M ok tags None of
                       None \<Rightarrow> Inl (''no tag satisfies '' @ fmt_Quote M rng)
                     | Some (_, tag) \<Rightarrow> Inr tag))
           | None \<Rightarrow>
               (case isel_TagPattern policy of
                  Some tp \<Rightarrow>
                    (case rx_Compile M (tp_Regex tp) of
                       Inl err \<Rightarrow> Inl (''tag pattern '' @ fmt_Quote M (tp_Regex tp) @ '': '' @ err)
                     | Inr pattern \<Rightarrow>
                         (let numerical = (tp_Order tp = ''numerical'');
                              matches = candidates M numerical pattern tags
                          in if matches = [] then Inl (''no tag matches '' @ fmt_Quote M (tp_Regex tp))
                             else Inr (fst (last (sort_by (candidate_lt M numerical) matches)))))
                | None \<Rightarrow> Inl ''the policy selects nothing'')))"

subsection \<open>Credentials\<close>

definition registryHost :: "('v, 'f, 'w) image_lib \<Rightarrow> string \<Rightarrow> string" where
  "registryHost M key =
     (let key = (if \<not> Contains key ''://'' then ''https://'' @ key else key) in
      case url_Host M key of
        None \<Rightarrow> []
      | Some host \<Rightarrow>
          (let host = ToLower host in
           if host = ''index.docker.io'' \<or> host = ''registry-1.docker.io'' then ''docker.io'' else host))"

text \<open>\<open>strings.Cut\<close> at the first colon.\<close>

definition cut_colon :: "string \<Rightarrow> string \<times> string" where
  "cut_colon s = (takeWhile (\<lambda>c. c \<noteq> CHR '':'') s, drop 1 (dropWhile (\<lambda>c. c \<noteq> CHR '':'') s))"

fun find_credential :: "('v, 'f, 'w) image_lib \<Rightarrow> string \<Rightarrow> string \<Rightarrow> (string \<times> registry_entry) list \<Rightarrow> string + credential" where
  "find_credential M host want [] = Inl (''registry credentials have no entry for '' @ host)"
| "find_credential M host want ((registry, entry) # auths) =
     (if registryHost M registry \<noteq> want then find_credential M host want auths
      else if re_Auth entry \<noteq> [] then
        (case b64_Decode M (re_Auth entry) of
           Inl err \<Rightarrow> Inl (''parse registry credentials: '' @ err)
         | Inr decoded \<Rightarrow> Inr (cut_colon decoded))
      else Inr (re_Username entry, re_Password entry))"

definition image_host :: "string \<Rightarrow> string" where
  "image_host img = takeWhile (\<lambda>c. c \<noteq> CHR ''/'') img"

definition Credentials :: "('v, 'f, 'w) image_lib \<Rightarrow> string \<Rightarrow> string \<Rightarrow> string + credential" where
  "Credentials M dockerConfigJSON img =
     (case js_DockerConfig M dockerConfigJSON of
        Inl err \<Rightarrow> Inl (''parse registry credentials: '' @ err)
      | Inr auths \<Rightarrow> find_credential M (image_host img) (registryHost M (image_host img)) auths)"

subsection \<open>The ImagePolicy controller\<close>

definition scan_credentials :: "'w api \<Rightarrow> ('v, 'f, 'w) image_lib \<Rightarrow> image_policy \<Rightarrow> 'w \<Rightarrow> string + credential" where
  "scan_credentials E M policy w =
     (case ips_SecretRef (ip_Spec policy) of
        None \<Rightarrow> Inr ([], [])
      | Some name \<Rightarrow>
          (case ct_GetSecret E (om_Namespace (ip_Meta policy)) name w of
             Inl err \<Rightarrow> if IsNotFound err then Inl (''registry credentials Secret '' @ name @ '' was not found'')
               else Inl (error_text err)
           | Inr sec \<Rightarrow>
               if get_str (sec_Labels sec) RegistryCredentialsLabel \<noteq> ''true'' then
                 Inl (''registry credentials Secret '' @ name @ '' is not labelled '' @ RegistryCredentialsLabel @ ''=true'')
               else Credentials M (get_str (sec_Data sec) ''.dockerconfigjson'') (ips_Image (ip_Spec policy))))"

definition scan :: "'w api \<Rightarrow> ('v, 'f, 'w) image_lib \<Rightarrow> image_policy \<Rightarrow> 'w \<Rightarrow> string + (string \<times> string \<times> string)" where
  "scan E M policy w =
     (let img = ips_Image (ip_Spec policy) in
      case scan_credentials E M policy w of
        Inl err \<Rightarrow> Inl err
      | Inr cred \<Rightarrow>
          (case (if isel_Digest (ips_Policy (ip_Spec policy)) = None then rg_Tags M img cred w else Inr []) of
             Inl err \<Rightarrow> Inl err
           | Inr tags \<Rightarrow>
               (case Select M (ips_Policy (ip_Spec policy)) tags of
                  Inl err \<Rightarrow> Inl err
                | Inr tag \<Rightarrow>
                    (case rg_Digest M img tag cred w of
                       Inl err \<Rightarrow> Inl err
                     | Inr digest \<Rightarrow> Inr (img @ '':'' @ tag @ ''@'' @ digest, tag, digest)))))"

record 'w image_api =
  im_GetPolicy :: "string \<Rightarrow> string \<Rightarrow> 'w \<Rightarrow> api_error + image_policy"
  im_UpdateStatus :: "image_policy \<Rightarrow> 'w \<Rightarrow> 'w \<times> api_error option"
  im_Event :: "image_policy \<Rightarrow> event \<Rightarrow> 'w \<Rightarrow> 'w"

definition scan_condition :: "image_policy \<Rightarrow> condition_status \<Rightarrow> string \<Rightarrow> string \<Rightarrow> condition" where
  "scan_condition policy state reason message = \<lparr>cond_Type = ''Ready'', cond_Status = state, cond_Reason = reason,
     cond_Message = message, cond_ObservedGeneration = om_Generation (ip_Meta policy)\<rparr>"

definition scan_failed :: "lib \<Rightarrow> string \<Rightarrow> image_policy \<Rightarrow> image_policy" where
  "scan_failed L err policy = policy\<lparr>ip_Status := (ip_Status policy)\<lparr>ipst_Conditions :=
     SetStatusCondition L (ipst_Conditions (ip_Status policy)) (scan_condition policy ConditionFalse ''ScanFailed''
       (safeMessage err ''Image repository could not be scanned''))\<rparr>\<rparr>"

definition scan_selected :: "lib \<Rightarrow> string \<times> string \<times> string \<Rightarrow> time \<Rightarrow> image_policy \<Rightarrow> image_policy" where
  "scan_selected L = (\<lambda>(img, tag, digest) now policy. policy\<lparr>ip_Status := (ip_Status policy)\<lparr>ipst_LatestTag := tag,
     ipst_LatestDigest := digest, ipst_LatestImage := img, ipst_LastScannedAt := Some now,
     ipst_Conditions := SetStatusCondition L (ipst_Conditions (ip_Status policy))
       (scan_condition policy ConditionTrue ''Selected'' (''Selected '' @ img))\<rparr>\<rparr>)"

definition ImagePolicy_Reconcile :: "'w api \<Rightarrow> lib \<Rightarrow> ('v, 'f, 'w) image_lib \<Rightarrow> 'w image_api \<Rightarrow> string \<Rightarrow> string \<Rightarrow> 'w
    \<Rightarrow> 'w \<times> int \<times> api_error option" where
  "ImagePolicy_Reconcile E L M I namespace name w =
     (case im_GetPolicy I namespace name w of
        Inl err \<Rightarrow> (w, 0, if IsNotFound err then None else Some err)
      | Inr policy \<Rightarrow>
          (let interval = (if ips_Interval (ip_Spec policy) \<le> 0 then 300 * second else ips_Interval (ip_Spec policy));
               policy = policy\<lparr>ip_Status := (ip_Status policy)\<lparr>ipst_ObservedGeneration := om_Generation (ip_Meta policy)\<rparr>\<rparr>
           in case scan E M policy w of
                Inl err \<Rightarrow> (case im_UpdateStatus I (scan_failed L err policy) w of (w, e) \<Rightarrow> (w, interval, e))
              | Inr (img, tag, digest) \<Rightarrow>
                  (let w = (if img \<noteq> ipst_LatestImage (ip_Status policy)
                            then im_Event I policy (EventNormal, ''ImageSelected'', ''Selected '' @ img) w else w)
                   in case im_UpdateStatus I (scan_selected L (img, tag, digest) (clock E w) policy) w of
                        (w, e) \<Rightarrow> (w, interval, e))))"

subsection \<open>Markers\<close>

text \<open>The marker of a line, as the six groups of the source's expression. Between the groups every
  repetition ends at a character it cannot read, so they are read greedily; the key before the
  colon is the shortest one for which the rest can be read.\<close>

record marker_groups =
  mg_1 :: string
  mg_2 :: string
  mg_3 :: string
  mg_4 :: string
  mg_5 :: string
  mg_6 :: string

definition quote :: "char \<Rightarrow> bool" where
  "quote c \<longleftrightarrow> c = CHR 0x22 \<or> c = CHR 0x27"

definition value_char :: "char \<Rightarrow> bool" where
  "value_char c \<longleftrightarrow> \<not> re_space c \<and> \<not> quote c \<and> c \<noteq> CHR ''#''"

definition comment_head :: matcher where
  "comment_head = seq (many1 re_space) (seq (lit ''#'') (seq (many re_space) (seq (lit ''{'') (seq (many re_space)
     (seq (lit ([CHR 0x22] @ ''$imagepolicy'' @ [CHR 0x22])) (seq (many re_space) (seq (lit '':'') (seq (many re_space)
       (lit [CHR 0x22])))))))))"

definition comment_tail :: matcher where
  "comment_tail = seq (lit [CHR 0x22]) (seq (many re_space) (lit ''}''))"

text \<open>The fifth group and the sixth inside it.\<close>

definition policy_comment :: "string \<Rightarrow> string option" where
  "policy_comment s =
     (case comment_head s of
        None \<Rightarrow> None
      | Some (_, rest) \<Rightarrow>
          (case many1 (\<lambda>c. c \<noteq> CHR 0x22) rest of
             None \<Rightarrow> None
           | Some (ref, rest) \<Rightarrow> (case comment_tail rest of None \<Rightarrow> None | Some _ \<Rightarrow> Some ref)))"

definition after_colon :: "string \<Rightarrow> string \<Rightarrow> marker_groups option" where
  "after_colon key s =
     (case many1 re_space s of
        None \<Rightarrow> None
      | Some (space, rest) \<Rightarrow>
          (case optional quote rest of
             None \<Rightarrow> None
           | Some (open_quote, rest) \<Rightarrow>
               (case many1 value_char rest of
                  None \<Rightarrow> None
                | Some (value, rest) \<Rightarrow>
                    (case optional quote rest of
                       None \<Rightarrow> None
                     | Some (close_quote, rest) \<Rightarrow>
                         (case policy_comment rest of
                            None \<Rightarrow> None
                          | Some ref \<Rightarrow> Some \<lparr>mg_1 = key @ '':'' @ space, mg_2 = open_quote, mg_3 = value,
                              mg_4 = close_quote, mg_5 = rest, mg_6 = ref\<rparr>)))))"

fun marker_from :: "string \<Rightarrow> string \<Rightarrow> marker_groups option" where
  "marker_from key [] = None"
| "marker_from key (c # s) =
     (if c = CHR ''#'' then None
      else if c = CHR '':'' then
        (case after_colon key s of Some g \<Rightarrow> Some g | None \<Rightarrow> marker_from (key @ [c]) s)
      else marker_from (key @ [c]) s)"

definition marker :: "string \<Rightarrow> marker_groups option" where
  "marker line = marker_from [] line"

subsection \<open>Rewriting\<close>

record policy_image =
  img_Name :: string
  img_Tag :: string
  img_Full :: string

record image_change =
  ic_File :: string
  ic_Policy :: string
  ic_Old :: string
  ic_New :: string

definition marker_value :: "string list \<Rightarrow> policy_image \<Rightarrow> string option" where
  "marker_value ref img =
     (if length ref = 3 then
        (if ref ! 2 = ''tag'' then Some (img_Tag img) else if ref ! 2 = ''name'' then Some (img_Name img) else None)
      else Some (img_Full img))"

definition rewrite_line :: "string \<Rightarrow> string \<Rightarrow> (string \<rightharpoonup> policy_image) \<Rightarrow> string \<Rightarrow> string \<times> image_change list" where
  "rewrite_line file namespace images line =
     (case marker line of
        None \<Rightarrow> (line, [])
      | Some g \<Rightarrow>
          (let ref = Split CHR '':'' (mg_6 g) in
           if length ref < 2 \<or> length ref > 3 \<or> ref ! 0 \<noteq> namespace then (line, [])
           else
             (let policy = ref ! 0 @ '':'' @ ref ! 1 in
              case images policy of
                None \<Rightarrow> (line, [])
              | Some img \<Rightarrow>
                  (case marker_value ref img of
                     None \<Rightarrow> (line, [])
                   | Some value \<Rightarrow>
                       if value = [] \<or> value = mg_3 g then (line, [])
                       else (mg_1 g @ mg_2 g @ value @ mg_4 g @ mg_5 g,
                             [\<lparr>ic_File = file, ic_Policy = policy, ic_Old = mg_3 g, ic_New = value\<rparr>])))))"

definition Rewrite :: "string \<Rightarrow> string \<Rightarrow> string \<Rightarrow> (string \<rightharpoonup> policy_image) \<Rightarrow> string \<times> image_change list" where
  "Rewrite file data namespace images =
     (let lines = map (rewrite_line file namespace images) (Split CHR 0x0A data)
      in (Join [CHR 0x0A] (map fst lines), concat (map snd lines)))"

subsection \<open>Write-back\<close>

definition isSSH :: "string \<Rightarrow> bool" where
  "isSSH rawURL = (HasPrefix rawURL ''ssh://'' \<or>
     (Contains rawURL ''@'' \<and> Contains rawURL '':'' \<and> \<not> Contains rawURL ''://''))"

definition RemoteURL :: "string \<Rightarrow> bool" where
  "RemoteURL rawURL =
     (list_ex (\<lambda>s. HasPrefix rawURL s) [''https://'', ''http://'', ''ssh://'', ''git://''] \<or> isSSH rawURL)"

record update_request =
  ur_URL :: string
  ur_Branch :: string
  ur_Path :: string
  ur_Auth :: credentials
  ur_Namespace :: string
  ur_Images :: "string \<rightharpoonup> policy_image"
  ur_AuthorName :: string
  ur_AuthorEmail :: string

datatype git_error = NonFastForward string | GitError string

fun git_text :: "git_error \<Rightarrow> string" where
  "git_text (NonFastForward m) = m"
| "git_text (GitError m) = m"

definition branchMoved :: "git_error \<Rightarrow> bool" where
  "branchMoved err = (case err of
      NonFastForward _ \<Rightarrow> True
    | GitError msg \<Rightarrow> Contains msg ''non-fast-forward'' \<or> Contains msg ''fetch first'')"

type_synonym 'w git_attempt = "update_request \<Rightarrow> 'w \<Rightarrow> 'w \<times> (git_error + (string \<times> image_change list))"

definition attempts :: nat where
  "attempts = 3"

text \<open>The loop of \<open>Update\<close>, by the number of attempts it still has.\<close>

fun update_loop :: "nat \<Rightarrow> 'w git_attempt \<Rightarrow> update_request \<Rightarrow> 'w \<Rightarrow> 'w \<times> (git_error + (string \<times> image_change list))" where
  "update_loop n attempt req w =
     (case attempt req w of
        (w, Inr r) \<Rightarrow> (w, Inr r)
      | (w, Inl err) \<Rightarrow>
          if \<not> branchMoved err then (w, Inl err)
          else case n of
                 0 \<Rightarrow> (w, Inl err)
               | Suc m \<Rightarrow> update_loop m attempt req w)"

definition Update :: "(git_repository \<Rightarrow> git_error option) \<Rightarrow> bool \<Rightarrow> 'w git_attempt \<Rightarrow> update_request \<Rightarrow> 'w
    \<Rightarrow> 'w \<times> (git_error + (string \<times> image_change list))" where
  "Update AuthMethod allowLocal attempt req w =
     (if \<not> RemoteURL (ur_URL req) \<and> \<not> allowLocal then
        (w, Inl (GitError ''git repository URL must use https, http, ssh, or git''))
      else case AuthMethod \<lparr>gr_URL = ur_URL req, gr_Revision = [], gr_Auth = ur_Auth req\<rparr> of
             Some err \<Rightarrow> (w, Inl err)
           | None \<Rightarrow> update_loop (attempts - 1) attempt req w)"

definition change_line :: "image_change \<Rightarrow> string" where
  "change_line c = ''- '' @ ic_Policy c @ '' ('' @ ic_File c @ ''): '' @ ic_Old c @ '' -> '' @ ic_New c"

definition message :: "image_change list \<Rightarrow> string" where
  "message changes = ''Update images from ImagePolicies'' @ [CHR 0x0A, CHR 0x0A]
     @ Join [CHR 0x0A] (sort (map change_line changes)) @ [CHR 0x0A]"

subsection \<open>Selection\<close>

lemma best_version_newest:
  assumes "strict_weak (\<lambda>a b. sv_GreaterThan M b a)" and "best_version M ok tags best = Some (v, tag)"
  shows "(best = Some (v, tag) \<or> tag \<in> set tags \<and> sv_NewVersion M tag = Inr v \<and> ok v)
    \<and> (\<forall>b t. best = Some (b, t) \<longrightarrow> \<not> sv_GreaterThan M b v)
    \<and> (\<forall>t \<in> set tags. \<forall>u. sv_NewVersion M t = Inr u \<longrightarrow> ok u \<longrightarrow> \<not> sv_GreaterThan M u v)"
  using assms(2)
proof (induction tags arbitrary: best)
  case Nil
  then show ?case
    using strict_weak.less_irrefl [OF assms(1)] by auto
next
  case (Cons t tags)
  note trans = strict_weak.less_neg_trans [OF assms(1)] and asym = strict_weak.less_asym [OF assms(1)]
  consider "isl (sv_NewVersion M t)" | version where "sv_NewVersion M t = Inr version" "\<not> ok version"
    | version where "sv_NewVersion M t = Inr version" "ok version" "best = None"
    | version b t' where "sv_NewVersion M t = Inr version" "ok version" "best = Some (b, t')" "sv_GreaterThan M version b"
    | version b t' where "sv_NewVersion M t = Inr version" "ok version" "best = Some (b, t')" "\<not> sv_GreaterThan M version b"
    by (cases "sv_NewVersion M t"; cases best) (simp_all, blast, metis surj_pair)
  then show ?case
  proof cases
    case 1
    then show ?thesis
      using Cons.IH [of best] Cons.prems by (cases "sv_NewVersion M t") auto
  next
    case 2
    then show ?thesis
      using Cons.IH [of best] Cons.prems by auto
  next
    case 3
    then show ?thesis
      using Cons.IH [of "Some (version, t)"] Cons.prems by auto
  next
    case 4
    then have "\<not> sv_GreaterThan M b version"
      using asym [of b version] by blast
    then have "\<not> sv_GreaterThan M version v \<Longrightarrow> \<not> sv_GreaterThan M b v"
      using trans [of version v b] by blast
    then show ?thesis
      using 4 Cons.IH [of "Some (version, t)"] Cons.prems by auto
  next
    case 5
    then show ?thesis
      using Cons.IH [of best] Cons.prems trans [of b v version] by auto
  qed
qed

lemma best_version_None:
  "best_version M ok tags best = None \<longleftrightarrow> best = None \<and> (\<forall>t \<in> set tags. \<forall>u. sv_NewVersion M t = Inr u \<longrightarrow> \<not> ok u)"
proof (induction tags arbitrary: best)
  case (Cons t tags)
  have "best_version M ok tags (Some b) \<noteq> None" for b
    using Cons.IH [of "Some b"] by simp
  then show ?case
    using Cons.IH [of best] by (cases "sv_NewVersion M t"; cases best) auto
qed simp

lemma candidates_tags: "c \<in> set (candidates M numerical pattern tags) \<Longrightarrow> fst c \<in> set tags \<and> pattern (fst c) \<noteq> None"
  by (induction tags) (auto split: option.splits if_splits sum.splits)

text \<open>The semantic version policy selects the newest version it allows: the selected tag is one of
  the registry's, its version satisfies the range, and no other tag in the range is greater; it
  selects nothing exactly when no tag is in the range.\<close>

theorem Select_newest:
  assumes "strict_weak (\<lambda>a b. sv_GreaterThan M b a)"
    and "isel_Digest policy = None" "isel_Semver policy = Some rng" "sv_NewConstraint M rng = Inr ok"
  shows "case Select M policy tags of
      Inl e \<Rightarrow> (\<forall>t \<in> set tags. \<forall>u. sv_NewVersion M t = Inr u \<longrightarrow> \<not> ok u)
    | Inr tag \<Rightarrow> \<exists>v. tag \<in> set tags \<and> sv_NewVersion M tag = Inr v \<and> ok v
        \<and> (\<forall>t \<in> set tags. \<forall>u. sv_NewVersion M t = Inr u \<longrightarrow> ok u \<longrightarrow> \<not> sv_GreaterThan M u v)"
  using best_version_newest [OF assms(1), of ok tags None] best_version_None [of M ok tags None] assms(2-4)
  by (auto simp: Select_def split: option.splits)

subsection \<open>Reading markers\<close>

lemma takeWhile_run: "list_all P xs \<Longrightarrow> ys = [] \<or> \<not> P (hd ys) \<Longrightarrow> takeWhile P (xs @ ys) = xs \<and> dropWhile P (xs @ ys) = ys"
  by (induction xs) (auto simp: takeWhile_eq_Nil_iff dropWhile_eq_self_iff)

lemma many1_run: "list_all P xs \<Longrightarrow> xs \<noteq> [] \<Longrightarrow> ys = [] \<or> \<not> P (hd ys) \<Longrightarrow> many1 P (xs @ ys) = Some (xs, ys)"
  using takeWhile_run [of P xs ys] by (simp add: many1_def)

lemma many1_SomeD: "many1 P s = Some (xs, ys) \<Longrightarrow> s = xs @ ys \<and> xs \<noteq> [] \<and> list_all P xs \<and> (ys = [] \<or> \<not> P (hd ys))"
  using hd_dropWhile [of P s] by (auto simp: many1_def list_all_iff dest: set_takeWhileD split: if_splits)

lemma optional_SomeD: "optional P s = Some (xs, ys) \<Longrightarrow> s = xs @ ys \<and> (xs = [] \<and> (s = [] \<or> \<not> P (hd s)) \<or> (\<exists>c. xs = [c] \<and> P c))"
  by (cases s) (auto split: if_splits)

lemma optional_run: "xs = [] \<and> (ys = [] \<or> \<not> P (hd ys)) \<or> (\<exists>c. xs = [c] \<and> P c) \<Longrightarrow> optional P (xs @ ys) = Some (xs, ys)"
  by (cases "xs @ ys") auto

lemma char_classes [simp]:
  "\<not> value_char c" if "re_space c" for c
  using that by (simp add: value_char_def)

lemma class_facts:
  "\<not> re_space CHR '':''" "\<not> quote CHR '':''" "value_char CHR '':''" "\<not> re_space CHR ''#''" "re_space c \<Longrightarrow> \<not> quote c"
  "value_char c \<Longrightarrow> \<not> re_space c \<and> \<not> quote c \<and> c \<noteq> CHR ''#''" "quote c \<Longrightarrow> \<not> re_space c \<and> c \<noteq> CHR ''#'' \<and> \<not> value_char c"
  by (auto simp: re_space_def quote_def value_char_def)

lemma seq_reads: "seq a b s \<noteq> None \<Longrightarrow> \<exists>x rest. a s = Some (x, rest) \<and> b rest \<noteq> None"
  by (auto simp: seq_def split: option.splits prod.splits)

lemma policy_comment_hash:
  assumes "policy_comment s = Some ref"
  shows "takeWhile re_space s \<noteq> [] \<and> (\<exists>t. dropWhile re_space s = CHR ''#'' # t)"
proof -
  have "comment_head s \<noteq> None"
    using assms by (auto simp: policy_comment_def split: option.splits)
  then obtain x rest where space: "many1 re_space s = Some (x, rest)" and "\<exists>y. lit ''#'' rest = Some y"
    unfolding comment_head_def by (metis seq_reads)
  then have "\<exists>t. rest = CHR ''#'' # t"
    by (cases rest) (auto simp: lit_def split: if_splits)
  then show ?thesis
    using space by (auto simp: many1_def split: if_splits)
qed

text \<open>No marker begins before the key's own colon: whatever is read there ends at the space before the
  value.\<close>

lemma after_colon_early:
  assumes hash: "CHR ''#'' \<notin> set m" and "\<exists>c \<in> set m. \<not> re_space c" and "re_space (last m)"
    and x: "x \<noteq> []" "\<not> re_space (hd x)" "hd x \<noteq> CHR ''#''"
  shows "after_colon key (m @ x) = None"
proof (rule ccontr)
  assume "after_colon key (m @ x) \<noteq> None"
  then obtain sp r1 q r2 v r3 q' r4 ref where
    read: "many1 re_space (m @ x) = Some (sp, r1)" "optional quote r1 = Some (q, r2)" "many1 value_char r2 = Some (v, r3)"
      "optional quote r3 = Some (q', r4)" "policy_comment r4 = Some ref"
    by (auto simp: after_colon_def split: option.splits prod.splits)
  define inside where "inside = (\<lambda>r. \<exists>m'. r = m' @ x \<and> m' \<noteq> [] \<and> CHR ''#'' \<notin> set m' \<and> re_space (last m'))"
  have inside1: "inside r1"
  proof -
    have "r1 = dropWhile re_space m @ x" 
      using read(1) assms(2) by (auto simp: many1_def split: if_splits)
    moreover have "dropWhile re_space m \<noteq> []"
      using assms(2) by (auto simp: dropWhile_eq_Nil_conv)
    ultimately show ?thesis
      using assms(1,3) unfolding inside_def
      by (metis last_appendR set_dropWhileD takeWhile_dropWhile_id)
  qed
  have inside_tl: "inside (tl r)" if r: "inside r" "quote (hd r)" for r
  proof -
    obtain m' where m': "r = m' @ x" "m' \<noteq> []" "CHR ''#'' \<notin> set m'" "re_space (last m')"
      using r(1) unfolding inside_def by blast
    then have "tl m' \<noteq> []"
      using r(2) class_facts(5,7) by (cases m') (auto split: if_splits)
    then show ?thesis
      using m' unfolding inside_def by (cases m') auto
  qed
  have inside_run: "inside (dropWhile value_char r)" if r: "inside r" for r
  proof -
    obtain m' where m': "r = m' @ x" "m' \<noteq> []" "CHR ''#'' \<notin> set m'" "re_space (last m')"
      using r unfolding inside_def by blast
    then have "last m' \<in> set m'" "\<not> value_char (last m')"
      by simp_all
    then have "dropWhile value_char m' \<noteq> []" "dropWhile value_char r = dropWhile value_char m' @ x"
      using m'(1) dropWhile_append1 [of "last m'" m' value_char x] by (auto simp: dropWhile_eq_Nil_conv)
    then show ?thesis
      using m'(3,4) unfolding inside_def by (metis last_appendR set_dropWhileD takeWhile_dropWhile_id)
  qed
  have inside_quote: "inside rest" if r: "inside r" "optional quote r = Some (y, rest)" for r y rest
    using optional_SomeD [OF r(2)] r(1) inside_tl [OF r(1)] by auto
  have "inside r2"
    by (rule inside_quote [OF inside1 read(2)])
  then have "inside r3"
    using inside_run read(3) by (auto simp: many1_def split: if_splits)
  then have "inside r4"
    by (rule inside_quote [OF _ read(4)])
  then obtain m4 where m4: "r4 = m4 @ x" "CHR ''#'' \<notin> set m4"
    unfolding inside_def by blast
  then have "\<nexists>t. dropWhile re_space r4 = CHR ''#'' # t"
    using x set_dropWhileD [of "CHR ''#''" re_space m4]
    by (cases x; cases "dropWhile re_space m4") (auto simp: dropWhile_append)
  then show False
    using policy_comment_hash [OF read(5)] by blast
qed

lemma marker_from_skip:
  assumes "CHR ''#'' \<notin> set mid" "space \<noteq> []" "list_all re_space space" "x \<noteq> []" "\<not> re_space (hd x)" "hd x \<noteq> CHR ''#''"
  shows "marker_from key (mid @ CHR '':'' # space @ x) = marker_from (key @ mid) (CHR '':'' # space @ x)"
  using assms
proof (induction mid arbitrary: key)
  case (Cons c mid)
  have "after_colon key ((mid @ CHR '':'' # space) @ x) = None"
    using Cons.prems class_facts(1)
    by (intro after_colon_early) (auto simp: list_all_iff class_facts(4))
  then have "marker_from key ((c # mid) @ CHR '':'' # space @ x) = marker_from (key @ [c]) (mid @ CHR '':'' # space @ x)"
    using Cons.prems(1) by auto
  then show ?case
    using Cons.IH [of "key @ [c]"] Cons.prems by (simp del: marker_from.simps)
qed simp

lemma after_colon_groups:
  assumes "after_colon key s = Some g"
  obtains space where "s = space @ mg_2 g @ mg_3 g @ mg_4 g @ mg_5 g" "mg_1 g = key @ '':'' @ space" "space \<noteq> []"
    "list_all re_space space" "mg_2 g = [] \<or> (\<exists>q. mg_2 g = [q] \<and> quote q)" "mg_3 g \<noteq> []" "list_all value_char (mg_3 g)"
    "mg_4 g = [] \<and> (mg_5 g = [] \<or> \<not> quote (hd (mg_5 g))) \<or> (\<exists>q. mg_4 g = [q] \<and> quote q)" "policy_comment (mg_5 g) = Some (mg_6 g)"
proof -
  obtain sp r1 q r2 v r3 q' r4 ref where
    read: "many1 re_space s = Some (sp, r1)" "optional quote r1 = Some (q, r2)" "many1 value_char r2 = Some (v, r3)"
      "optional quote r3 = Some (q', r4)" "policy_comment r4 = Some ref"
    and g: "g = \<lparr>mg_1 = key @ '':'' @ sp, mg_2 = q, mg_3 = v, mg_4 = q', mg_5 = r4, mg_6 = ref\<rparr>"
    using assms by (auto simp: after_colon_def split: option.splits prod.splits)
  show thesis
    using many1_SomeD [OF read(1)] optional_SomeD [OF read(2)] many1_SomeD [OF read(3)] optional_SomeD [OF read(4)] read(5) g
    by (intro that [of sp]) auto
qed

lemma policy_comment_start:
  assumes "policy_comment s = Some ref"
  shows "s \<noteq> [] \<and> re_space (hd s)"
  using policy_comment_hash [OF assms] by (cases s) (auto split: if_splits)

text \<open>Reading back a value that was written gives that value: the marker of the new line is the old one
  with the value exchanged.\<close>

lemma after_colon_rewritten:
  assumes "after_colon key s = Some g" "v \<noteq> []" "list_all value_char v" "mg_1 g = key @ '':'' @ space"
  shows "after_colon key (space @ mg_2 g @ v @ mg_4 g @ mg_5 g) = Some (g\<lparr>mg_3 := v\<rparr>)"
proof -
  obtain sp where g: "mg_1 g = key @ '':'' @ sp" "sp \<noteq> []" "list_all re_space sp"
    and q: "mg_2 g = [] \<or> (\<exists>q. mg_2 g = [q] \<and> quote q)"
    and q': "mg_4 g = [] \<and> (mg_5 g = [] \<or> \<not> quote (hd (mg_5 g))) \<or> (\<exists>q. mg_4 g = [q] \<and> quote q)"
    and c: "policy_comment (mg_5 g) = Some (mg_6 g)"
    by (rule after_colon_groups [OF assms(1)])
  have hd_v: "value_char (hd v)" "\<not> re_space (hd v)" "\<not> quote (hd v)"
    using assms(2,3) class_facts(6) by (cases v; auto)+
  have "space = sp"
    using g(1) assms(4) by simp
  then have "many1 re_space (space @ mg_2 g @ v @ mg_4 g @ mg_5 g) = Some (space, mg_2 g @ v @ mg_4 g @ mg_5 g)"
    using g q hd_v assms(2) class_facts(7) by (intro many1_run) auto
  moreover have "optional quote (mg_2 g @ v @ mg_4 g @ mg_5 g) = Some (mg_2 g, v @ mg_4 g @ mg_5 g)"
    using q hd_v assms(2) by (intro optional_run) auto
  moreover have "many1 value_char (v @ mg_4 g @ mg_5 g) = Some (v, mg_4 g @ mg_5 g)"
    using assms(2,3) q' policy_comment_start [OF c] class_facts(7) by (intro many1_run) auto
  moreover have "optional quote (mg_4 g @ mg_5 g) = Some (mg_4 g, mg_5 g)"
    using q' by (intro optional_run) auto
  ultimately show ?thesis
    using c assms(4) by (simp add: after_colon_def)
qed

lemma marker_from_groups:
  "marker_from key s = Some g \<Longrightarrow>
   \<exists>mid space. s = mid @ CHR '':'' # space @ mg_2 g @ mg_3 g @ mg_4 g @ mg_5 g \<and> CHR ''#'' \<notin> set mid
     \<and> mg_1 g = key @ mid @ '':'' @ space \<and> after_colon (key @ mid) (space @ mg_2 g @ mg_3 g @ mg_4 g @ mg_5 g) = Some g"
proof (induction s arbitrary: key)
  case (Cons c s)
  show ?case
  proof (cases "c = CHR '':'' \<and> after_colon key s \<noteq> None")
    case True
    then have here: "after_colon key s = Some g"
      using Cons.prems by (auto split: option.splits)
    then obtain space where "s = space @ mg_2 g @ mg_3 g @ mg_4 g @ mg_5 g" "mg_1 g = key @ '':'' @ space"
      by (rule after_colon_groups)
    then show ?thesis
      using True here by (intro exI [of _ "[]"] exI [of _ space]) auto
  next
    case False
    then have later: "c \<noteq> CHR ''#''" "marker_from (key @ [c]) s = Some g"
      using Cons.prems by (auto split: if_splits option.splits)
    then obtain mid space where "s = mid @ CHR '':'' # space @ mg_2 g @ mg_3 g @ mg_4 g @ mg_5 g" "CHR ''#'' \<notin> set mid"
      "mg_1 g = (key @ [c]) @ mid @ '':'' @ space"
      "after_colon ((key @ [c]) @ mid) (space @ mg_2 g @ mg_3 g @ mg_4 g @ mg_5 g) = Some g"
      using Cons.IH by blast
    then show ?thesis
      using later(1) by (intro exI [of _ "c # mid"] exI [of _ space]) auto
  qed
qed simp

lemma marker_rewritten:
  assumes "marker line = Some g" "v \<noteq> []" "list_all value_char v"
  shows "marker (mg_1 g @ mg_2 g @ v @ mg_4 g @ mg_5 g) = Some (g\<lparr>mg_3 := v\<rparr>)"
proof -
  obtain mid space where m: "CHR ''#'' \<notin> set mid" "mg_1 g = [] @ mid @ '':'' @ space"
    and here: "after_colon ([] @ mid) (space @ mg_2 g @ mg_3 g @ mg_4 g @ mg_5 g) = Some g"
    using marker_from_groups [OF assms(1) [unfolded marker_def]] by blast
  obtain sp where sp: "mg_1 g = ([] @ mid) @ '':'' @ sp" "sp \<noteq> []" "list_all re_space sp"
    and q: "mg_2 g = [] \<or> (\<exists>q. mg_2 g = [q] \<and> quote q)"
    using here by (rule after_colon_groups)
  have "space = sp"
    using m(2) sp(1) by simp
  have "value_char (hd v)"
    using assms(2,3) by (cases v) auto
  then have head: "v \<noteq> []" "\<not> re_space (hd v)" "hd v \<noteq> CHR ''#''"
    using assms(2) class_facts(6) by blast+
  have start: "mg_2 g @ v @ mg_4 g @ mg_5 g \<noteq> []" "\<not> re_space (hd (mg_2 g @ v @ mg_4 g @ mg_5 g))"
    "hd (mg_2 g @ v @ mg_4 g @ mg_5 g) \<noteq> CHR ''#''"
    using q head class_facts(7) by (cases "mg_2 g"; force)+
  have line: "mg_1 g @ mg_2 g @ v @ mg_4 g @ mg_5 g = mid @ CHR '':'' # space @ mg_2 g @ v @ mg_4 g @ mg_5 g"
    using m(2) by simp
  have "marker (mg_1 g @ mg_2 g @ v @ mg_4 g @ mg_5 g) = marker_from ([] @ mid) (CHR '':'' # space @ mg_2 g @ v @ mg_4 g @ mg_5 g)"
    unfolding marker_def line \<open>space = sp\<close> by (rule marker_from_skip [OF m(1) sp(2,3) start])
  moreover have "after_colon ([] @ mid) (space @ mg_2 g @ v @ mg_4 g @ mg_5 g) = Some (g\<lparr>mg_3 := v\<rparr>)"
    by (rule after_colon_rewritten [OF here assms(2,3)]) (simp add: m(2))
  ultimately show ?thesis
    by (simp del: append_Nil)
qed

subsection \<open>Rewriting\<close>

definition clean_image :: "policy_image \<Rightarrow> bool" where
  "clean_image im \<longleftrightarrow> list_all (list_all value_char) [img_Name im, img_Tag im, img_Full im]"

lemma rewrite_line_cases:
  "rewrite_line file namespace images line = (line', cs) \<Longrightarrow>
   (line' = line \<and> cs = []) \<or>
   (\<exists>g policy im val. marker line = Some g \<and> images policy = Some im \<and> policy = namespace @ '':'' @ Split CHR '':'' (mg_6 g) ! 1
      \<and> marker_value (Split CHR '':'' (mg_6 g)) im = Some val \<and> val \<noteq> [] \<and> val \<noteq> mg_3 g
      \<and> line' = mg_1 g @ mg_2 g @ val @ mg_4 g @ mg_5 g
      \<and> cs = [\<lparr>ic_File = file, ic_Policy = policy, ic_Old = mg_3 g, ic_New = val\<rparr>])"
  by (auto simp: rewrite_line_def Let_def split: option.splits if_splits)

lemma marker_value_clean: "clean_image im \<Longrightarrow> marker_value ref im = Some val \<Longrightarrow> list_all value_char val"
  by (auto simp: marker_value_def clean_image_def split: if_splits)

lemma rewrite_line_again:
  assumes "\<forall>im \<in> ran images. clean_image im" "rewrite_line file namespace images line = (line', cs)"
  shows "rewrite_line file namespace images line' = (line', [])"
proof -
  consider "line' = line" "cs = []" | g policy im val where "marker line = Some g" "images policy = Some im"
      "marker_value (Split CHR '':'' (mg_6 g)) im = Some val" "val \<noteq> []" "val \<noteq> mg_3 g"
      "policy = namespace @ '':'' @ Split CHR '':'' (mg_6 g) ! 1" "line' = mg_1 g @ mg_2 g @ val @ mg_4 g @ mg_5 g"
    using rewrite_line_cases [OF assms(2)] by blast
  then show ?thesis
  proof cases
    case 1
    then show ?thesis using assms(2) by simp
  next
    case 2
    then have "list_all value_char val"
      using assms(1) marker_value_clean by (metis ranI)
    then have "marker line' = Some (g\<lparr>mg_3 := val\<rparr>)"
      using marker_rewritten [OF 2(1,4)] 2(7) by simp
    then show ?thesis
      using 2 by (auto simp: rewrite_line_def Let_def)
  qed
qed

lemma marker_line: "marker line = Some g \<Longrightarrow> line = mg_1 g @ mg_2 g @ mg_3 g @ mg_4 g @ mg_5 g"
  using marker_from_groups [of "[]" line g] by (auto simp: marker_def)

lemma rewrite_line_no_newline:
  assumes "\<forall>im \<in> ran images. clean_image im" "CHR 0x0A \<notin> set line"
  shows "CHR 0x0A \<notin> set (fst (rewrite_line file namespace images line))"
proof -
  obtain line' cs where r: "rewrite_line file namespace images line = (line', cs)"
    by fastforce
  from rewrite_line_cases [OF r] show ?thesis
  proof
    assume "\<exists>g policy im val. marker line = Some g \<and> images policy = Some im \<and> policy = namespace @ '':'' @ Split CHR '':'' (mg_6 g) ! 1
      \<and> marker_value (Split CHR '':'' (mg_6 g)) im = Some val \<and> val \<noteq> [] \<and> val \<noteq> mg_3 g
      \<and> line' = mg_1 g @ mg_2 g @ val @ mg_4 g @ mg_5 g
      \<and> cs = [\<lparr>ic_File = file, ic_Policy = policy, ic_Old = mg_3 g, ic_New = val\<rparr>]"
    then obtain g policy im val where m: "marker line = Some g" "images policy = Some im"
      "marker_value (Split CHR '':'' (mg_6 g)) im = Some val" "line' = mg_1 g @ mg_2 g @ val @ mg_4 g @ mg_5 g"
      by blast
    have "list_all value_char val"
      using assms(1) m(2,3) marker_value_clean by (metis ranI)
    then have "CHR 0x0A \<notin> set val"
      by (auto simp: list_all_iff value_char_def re_space_def)
    then show ?thesis
      using r m(4) marker_line [OF m(1)] assms(2) by auto
  qed (use r assms(2) in simp)
qed

text \<open>C18. Writing images back settles: after a rewrite with valid image references, a second one finds
  every marker up to date, so a commit of image updates never triggers another.\<close>

theorem Rewrite_settles:
  assumes "\<forall>im \<in> ran images. clean_image im" and "Rewrite file data namespace images = (data', cs)"
  shows "Rewrite file data' namespace images = (data', [])"
proof -
  define lines where "lines = map (\<lambda>l. fst (rewrite_line file namespace images l)) (Split CHR 0x0A data)"
  have "lines \<noteq> []" "\<forall>l \<in> set lines. CHR 0x0A \<notin> set l"
    using rewrite_line_no_newline [OF assms(1)] Split_no_sep unfolding lines_def by auto
  moreover have data': "data' = Join [CHR 0x0A] lines"
    using assms(2) by (auto simp: Rewrite_def Let_def lines_def comp_def)
  ultimately have "Split CHR 0x0A data' = lines"
    by (simp add: Split_Join_sep)
  moreover have "rewrite_line file namespace images l = (l, [])" if l: "l \<in> set lines" for l
  proof -
    obtain l0 where "l = fst (rewrite_line file namespace images l0)"
      using l unfolding lines_def by auto
    then have "rewrite_line file namespace images l0 = (l, snd (rewrite_line file namespace images l0))"
      by simp
    then show ?thesis
      by (rule rewrite_line_again [OF assms(1)])
  qed
  ultimately show ?thesis
    unfolding Rewrite_def Let_def data' by (simp add: comp_def map_idI)
qed

text \<open>One tenant cannot pin another's images: every change a rewrite makes is at a marker that names a
  policy of the Repository's own namespace, and writes what that policy selects; every other line of
  the file stays as it is.\<close>

theorem Rewrite_own_namespace:
  assumes "Rewrite file data namespace images = (data', cs)"
  shows "(\<forall>c \<in> set cs. \<exists>im. images (ic_Policy c) = Some im \<and> HasPrefix (ic_Policy c) (namespace @ '':'')
      \<and> ic_New c \<in> {img_Full im, img_Tag im, img_Name im} \<and> ic_New c \<noteq> [])
    \<and> (\<forall>l \<in> set (Split CHR 0x0A data). fst (rewrite_line file namespace images l) = l
      \<or> (\<exists>g. marker l = Some g \<and> Split CHR '':'' (mg_6 g) ! 0 = namespace))"
proof -
  have "HasPrefix (p @ q) p" for p q :: string
    by (induction p) auto
  then have pre: "HasPrefix (namespace @ CHR '':'' # q) (namespace @ '':'')" for q
    by (metis append.assoc append_Cons append_Nil)
  have "\<exists>im. images (ic_Policy c) = Some im \<and> HasPrefix (ic_Policy c) (namespace @ '':'')
      \<and> ic_New c \<in> {img_Full im, img_Tag im, img_Name im} \<and> ic_New c \<noteq> []"
    if "c \<in> set (snd (rewrite_line file namespace images l))" for c l
    using that rewrite_line_cases [of "file" namespace images l] pre
    by (cases "rewrite_line file namespace images l") (fastforce simp: marker_value_def split: if_splits)
  moreover have "fst (rewrite_line file namespace images l) = l \<or> (\<exists>g. marker l = Some g \<and> Split CHR '':'' (mg_6 g) ! 0 = namespace)" for l
    by (auto simp: rewrite_line_def Let_def split: option.splits)
  ultimately show ?thesis
    using assms by (auto simp: Rewrite_def Let_def)
qed

text \<open>A file with one marker, and the image its policy selects.\<close>

definition api_image :: policy_image where
  "api_image = \<lparr>img_Name = ''ghcr.io/acme/api'', img_Tag = ''v2'', img_Full = ''ghcr.io/acme/api:v2@sha256:1f''\<rparr>"

definition marked_line :: string where
  "marked_line = ''image: ghcr.io/acme/api:v1 # {'' @ [CHR 0x22] @ ''$imagepolicy'' @ [CHR 0x22] @ '': '' @ [CHR 0x22] @ ''shop:api'' @ [CHR 0x22] @ ''}''"

lemma api_image_clean: "\<forall>im \<in> ran [''shop:api'' \<mapsto> api_image]. clean_image im"
proof -
  have "clean_image api_image" by code_simp
  then show ?thesis by simp
qed

lemma marked_line_rewritten:
  "snd (Rewrite ''web.yaml'' marked_line ''shop'' [''shop:api'' \<mapsto> api_image]) =
     [\<lparr>ic_File = ''web.yaml'', ic_Policy = ''shop:api'', ic_Old = ''ghcr.io/acme/api:v1'', ic_New = ''ghcr.io/acme/api:v2@sha256:1f''\<rparr>]"
  by code_simp

theorem Rewrite_settles_witness:
  "snd (Rewrite ''web.yaml'' marked_line ''shop'' [''shop:api'' \<mapsto> api_image]) \<noteq> [] \<and>
   snd (Rewrite ''web.yaml'' (fst (Rewrite ''web.yaml'' marked_line ''shop'' [''shop:api'' \<mapsto> api_image])) ''shop''
     [''shop:api'' \<mapsto> api_image]) = []"
  using Rewrite_settles [OF api_image_clean prod.collapse [symmetric]] by (simp add: marked_line_rewritten)

theorem Rewrite_own_namespace_witness:
  "\<exists>c im. snd (Rewrite ''web.yaml'' marked_line ''shop'' [''shop:api'' \<mapsto> api_image]) = [c]
     \<and> [''shop:api'' \<mapsto> api_image] (ic_Policy c) = Some im \<and> HasPrefix (ic_Policy c) ''shop:''
     \<and> ic_New c \<in> {img_Full im, img_Tag im, img_Name im}"
  using Rewrite_own_namespace [of "''web.yaml''" marked_line "''shop''" "[''shop:api'' \<mapsto> api_image]", OF prod.collapse [symmetric]]
  unfolding marked_line_rewritten by auto

definition number_lib :: "(int, int, unit) image_lib" where
  "number_lib = \<lparr>sv_NewConstraint = (\<lambda>_. Inr (\<lambda>v. v \<le> 20)), sv_NewVersion = (\<lambda>s. case Atoi s of Some n \<Rightarrow> Inr n | None \<Rightarrow> Inl s),
     sv_GreaterThan = (\<lambda>a b. a > b), rx_Compile = (\<lambda>_. Inr (\<lambda>s. Some [s])), fl_Parse = (\<lambda>s. Inl s), fl_less = (\<lambda>a b. a < b),
     js_DockerConfig = (\<lambda>s. Inr []), b64_Decode = Inr, url_Host = Some, fmt_Quote = (\<lambda>s. s), rg_Tags = (\<lambda>_ _ _. Inr []),
     rg_Digest = (\<lambda>_ _ _ _. Inr [])\<rparr>"

theorem Select_newest_witness:
  "Select number_lib \<lparr>isel_Semver = Some ''x'', isel_TagPattern = None, isel_Digest = None\<rparr> [''7'', ''main'', ''19'', ''30''] = Inr ''19''
   \<and> (\<exists>v. sv_NewVersion number_lib ''19'' = Inr v \<and> v \<le> 20)"
proof -
  have order: "strict_weak (\<lambda>a b. sv_GreaterThan number_lib b a)"
    by unfold_locales (simp_all add: number_lib_def)
  have "Select number_lib \<lparr>isel_Semver = Some ''x'', isel_TagPattern = None, isel_Digest = None\<rparr> [''7'', ''main'', ''19'', ''30''] = Inr ''19''"
    by code_simp
  then show ?thesis
    using Select_newest [OF order, of "\<lparr>isel_Semver = Some ''x'', isel_TagPattern = None, isel_Digest = None\<rparr>" "''x''" "\<lambda>v. v \<le> 20"
        "[''7'', ''main'', ''19'', ''30'']"]
    by (auto simp: number_lib_def)
qed

subsection \<open>Credentials\<close>

lemma find_credential_host:
  "find_credential M host want auths = Inr cred \<Longrightarrow>
   \<exists>registry entry. (registry, entry) \<in> set auths \<and> registryHost M registry = want
     \<and> (if re_Auth entry \<noteq> [] then \<exists>decoded. b64_Decode M (re_Auth entry) = Inr decoded \<and> cred = cut_colon decoded
        else cred = (re_Username entry, re_Password entry))"
  by (induction M host want auths rule: find_credential.induct) (auto split: if_splits sum.splits; blast)+

text \<open>A registry credential goes only where it belongs: what a scan sends to the image's registry is
  empty, or comes from a Secret labelled for that use, from the entry that names the registry's own
  host.\<close>

theorem scan_credentials_for_host:
  assumes "scan_credentials E M policy w = Inr cred" "ips_SecretRef (ip_Spec policy) = Some name"
  shows "\<exists>sec auths registry entry. ct_GetSecret E (om_Namespace (ip_Meta policy)) name w = Inr sec
    \<and> get_str (sec_Labels sec) RegistryCredentialsLabel = ''true''
    \<and> js_DockerConfig M (get_str (sec_Data sec) ''.dockerconfigjson'') = Inr auths \<and> (registry, entry) \<in> set auths
    \<and> registryHost M registry = registryHost M (image_host (ips_Image (ip_Spec policy)))
    \<and> (if re_Auth entry \<noteq> [] then \<exists>decoded. b64_Decode M (re_Auth entry) = Inr decoded \<and> cred = cut_colon decoded
       else cred = (re_Username entry, re_Password entry))"
proof -
  obtain sec auths where "ct_GetSecret E (om_Namespace (ip_Meta policy)) name w = Inr sec"
    "get_str (sec_Labels sec) RegistryCredentialsLabel = ''true''"
    "js_DockerConfig M (get_str (sec_Data sec) ''.dockerconfigjson'') = Inr auths"
    "find_credential M (image_host (ips_Image (ip_Spec policy))) (registryHost M (image_host (ips_Image (ip_Spec policy)))) auths = Inr cred"
    using assms by (auto simp: scan_credentials_def Credentials_def split: sum.splits if_splits)
  then show ?thesis
    using find_credential_host [of M _ _ auths cred] by blast
qed

lemma scan_exact:
  assumes "scan E M policy w = Inr (img, tag, digest)"
  shows "\<exists>cred tags. scan_credentials E M policy w = Inr cred \<and> Select M (ips_Policy (ip_Spec policy)) tags = Inr tag
    \<and> (isel_Digest (ips_Policy (ip_Spec policy)) = None \<longrightarrow> rg_Tags M (ips_Image (ip_Spec policy)) cred w = Inr tags)
    \<and> rg_Digest M (ips_Image (ip_Spec policy)) tag cred w = Inr digest
    \<and> img = ips_Image (ip_Spec policy) @ '':'' @ tag @ ''@'' @ digest"
  using assms by (auto simp: scan_def Let_def split: sum.splits if_splits)

text \<open>The attempts of a write-back, as the results the attempts give one after the other.\<close>

fun attempt_results :: "nat \<Rightarrow> 'w git_attempt \<Rightarrow> update_request \<Rightarrow> 'w \<Rightarrow> (git_error + (string \<times> image_change list)) list" where
  "attempt_results 0 attempt req w = []"
| "attempt_results (Suc n) attempt req w = (case attempt req w of (w', r) \<Rightarrow> r # attempt_results n attempt req w')"

lemma update_loop_results:
  "\<exists>k \<le> n. snd (update_loop n attempt req w) = last (attempt_results (Suc k) attempt req w)
     \<and> list_all (\<lambda>r. \<exists>err. r = Inl err \<and> branchMoved err) (butlast (attempt_results (Suc k) attempt req w))
     \<and> (k < n \<longrightarrow> \<not> (\<exists>err. snd (update_loop n attempt req w) = Inl err \<and> branchMoved err))"
proof (induction n arbitrary: w)
  case 0
  then show ?case
    by (auto split: prod.splits sum.splits)
next
  case (Suc n)
  obtain w' r where first: "attempt req w = (w', r)"
    by fastforce
  show ?case
  proof (cases "\<exists>err. r = Inl err \<and> branchMoved err")
    case True
    then have step: "update_loop (Suc n) attempt req w = update_loop n attempt req w'"
      using first by auto
    obtain k where "k \<le> n" "snd (update_loop n attempt req w') = last (attempt_results (Suc k) attempt req w')"
      "list_all (\<lambda>r. \<exists>err. r = Inl err \<and> branchMoved err) (butlast (attempt_results (Suc k) attempt req w'))"
      "k < n \<longrightarrow> \<not> (\<exists>err. snd (update_loop n attempt req w') = Inl err \<and> branchMoved err)"
      using Suc.IH by blast
    then show ?thesis
      using True first by (intro exI [of _ "Suc k"]) (simp add: step del: update_loop.simps split: prod.splits)
  next
    case False
    then show ?thesis
      using first by (intro exI [of _ 0]) (auto split: sum.splits)
  qed
qed

text \<open>A policy whose Secret holds a credential for its registry.\<close>

definition registry_secret :: secret where
  "registry_secret = \<lparr>sec_Labels = [RegistryCredentialsLabel \<mapsto> ''true''], sec_Data = [''.dockerconfigjson'' \<mapsto> ''{}'']\<rparr>"

definition registry_lib :: "(int, int, unit) image_lib" where
  "registry_lib = number_lib\<lparr>js_DockerConfig := (\<lambda>_. Inr [(''https://GHCR.io'', \<lparr>re_Username = ''bot'', re_Password = ''pw'', re_Auth = []\<rparr>)]),
     url_Host := (\<lambda>u. Some (drop 8 u))\<rparr>"

definition api_policy :: image_policy where
  "api_policy = \<lparr>ip_Meta = zero_meta\<lparr>om_Name := ''api'', om_Namespace := ''shop''\<rparr>,
     ip_Spec = \<lparr>ips_Image = ''ghcr.io/acme/api'', ips_SecretRef = Some ''registry'', ips_Interval = 0,
       ips_Policy = \<lparr>isel_Semver = None, isel_TagPattern = None, isel_Digest = Some ''main''\<rparr>, ips_Webhook = None\<rparr>,
     ip_Status = \<lparr>ipst_LatestTag = [], ipst_LatestDigest = [], ipst_LatestImage = [], ipst_LastScannedAt = None,
       ipst_ObservedGeneration = 0, ipst_Conditions = []\<rparr>\<rparr>"

lemma api_policy_host: "registryHost registry_lib (image_host ''ghcr.io/acme/api'') = registryHost registry_lib ''https://GHCR.io''"
  by code_simp

lemma registry_config: "js_DockerConfig registry_lib s = Inr [(''https://GHCR.io'', \<lparr>re_Username = ''bot'', re_Password = ''pw'', re_Auth = []\<rparr>)]"
  by (simp add: registry_lib_def)

theorem scan_credentials_for_host_witness:
  "\<forall>E :: unit api. \<exists>registry. scan_credentials (E\<lparr>ct_GetSecret := (\<lambda>_ _ _. Inr registry_secret)\<rparr>) registry_lib api_policy () = Inr (''bot'', ''pw'')
     \<and> registryHost registry_lib registry = registryHost registry_lib (image_host ''ghcr.io/acme/api'')"
proof
  fix E :: "unit api"
  have ref: "ips_SecretRef (ip_Spec api_policy) = Some ''registry''" "ips_Image (ip_Spec api_policy) = ''ghcr.io/acme/api''"
    by (simp_all add: api_policy_def)
  have cred: "scan_credentials (E\<lparr>ct_GetSecret := (\<lambda>_ _ _. Inr registry_secret)\<rparr>) registry_lib api_policy () = Inr (''bot'', ''pw'')"
    by (simp add: scan_credentials_def ref registry_secret_def get_str_def Credentials_def api_policy_host registry_config)
  show "\<exists>registry. scan_credentials (E\<lparr>ct_GetSecret := (\<lambda>_ _ _. Inr registry_secret)\<rparr>) registry_lib api_policy () = Inr (''bot'', ''pw'')
     \<and> registryHost registry_lib registry = registryHost registry_lib (image_host ''ghcr.io/acme/api'')"
    using scan_credentials_for_host [OF cred ref(1)] cred ref(2) by metis
qed

end
