(* ===== verification/Paths.thy ===== *)
theory Paths
  imports Prelude
begin

text \<open>
  File paths: the lexical functions of Go's \<open>path/filepath\<close> on Unix that the code uses, and the
  containment checks of \<open>internal/renderer/renderer.go\<close> (\<open>Dir\<close>, \<open>Within\<close>, \<open>Contained\<close>,
  \<open>brokenLinkWithin\<close>, \<open>Relative\<close>). A path is a list of elements joined by slashes; \<open>Clean\<close> works on
  these elements. What the file system answers (\<open>EvalSymlinks\<close>, \<open>Readlink\<close>, the walk of a directory)
  is a parameter. The theorems show that a checked path lies below its root.
\<close>

subsection \<open>Lexical paths\<close>

abbreviation slash :: char where
  "slash \<equiv> CHR ''/''"

definition IsAbs :: "string \<Rightarrow> bool" where
  "IsAbs path = HasPrefix path ''/''"

text \<open>The loop of \<open>filepath.Clean\<close> over the elements, with the output so far in reverse.\<close>

fun clean_parts :: "bool \<Rightarrow> string list \<Rightarrow> string list \<Rightarrow> string list" where
  "clean_parts rooted out [] = List.rev out"
| "clean_parts rooted out (p # ps) =
     (if p = [] \<or> p = ''.'' then clean_parts rooted out ps
      else if p = ''..'' then
        (case out of
           [] \<Rightarrow> clean_parts rooted (if rooted then [] else [''..'']) ps
         | last_part # below \<Rightarrow> clean_parts rooted (if last_part = ''..'' then ''..'' # out else below) ps)
      else clean_parts rooted (p # out) ps)"

definition parts :: "string \<Rightarrow> string list" where
  "parts path = clean_parts (IsAbs path) [] (Split slash path)"

definition Clean :: "string \<Rightarrow> string" where
  "Clean path =
     (let body = Join ''/'' (parts path) in
      if IsAbs path then slash # body else if body = [] then ''.'' else body)"

definition IsLocal :: "string \<Rightarrow> bool" where
  "IsLocal path \<longleftrightarrow>
     \<not> IsAbs path \<and> path \<noteq> [] \<and>
     (let path = (if list_ex (\<lambda>p. p = ''.'' \<or> p = ''..'') (Split slash path) then Clean path else path)
      in path \<noteq> ''..'' \<and> \<not> HasPrefix path ''../'')"

definition Base :: "string \<Rightarrow> string" where
  "Base path =
     (if path = [] then ''.''
      else let stripped = List.rev (dropWhile (\<lambda>c. c = slash) (List.rev path)) in
           if stripped = [] then ''/'' else last (Split slash stripped))"

definition JoinPath :: "string \<Rightarrow> string \<Rightarrow> string" where
  "JoinPath a b =
     (if a = [] \<and> b = [] then [] else if a = [] then Clean b else if b = [] then Clean a else Clean (a @ ''/'' @ b))"

definition DirOf :: "string \<Rightarrow> string" where
  "DirOf path = Clean (Join ''/'' (butlast (Split slash path)) @ (if slash \<in> set path then ''/'' else []))"

fun strip_common :: "string list \<Rightarrow> string list \<Rightarrow> string list \<times> string list" where
  "strip_common (x # xs) (y # ys) = (if x = y then strip_common xs ys else (x # xs, y # ys))"
| "strip_common xs ys = (xs, ys)"

definition Rel :: "string \<Rightarrow> string \<Rightarrow> string option" where
  "Rel base targ =
     (let base = Clean base; targ = Clean targ in
      if base = targ then Some ''.''
      else if IsAbs base \<noteq> IsAbs targ then None
      else
        (case strip_common (parts base) (parts targ) of
           (up, down) \<Rightarrow>
             if up \<noteq> [] \<and> hd up = ''..'' then None
             else Some (Join ''/'' (replicate (length up) ''..'' @ down))))"

subsection \<open>Containment (\<open>internal/renderer/renderer.go\<close>)\<close>

definition Dir :: "string \<Rightarrow> string \<Rightarrow> string + string" where
  "Dir workspace path =
     (if workspace = [] then Inl ''workspace is required''
      else if IsAbs path then Inl ''render path must be relative''
      else if path \<noteq> [] \<and> \<not> IsLocal path then Inl ''render path must stay inside workspace''
      else Inr (JoinPath workspace path))"

datatype fs_error = NotExist string | FsError string

fun fs_text :: "fs_error \<Rightarrow> string" where
  "fs_text (NotExist m) = m"
| "fs_text (FsError m) = m"

definition Within :: "(string \<Rightarrow> fs_error + string) \<Rightarrow> string \<Rightarrow> string \<Rightarrow> fs_error + bool" where
  "Within EvalSymlinks root path =
     (case EvalSymlinks root of
        Inl err \<Rightarrow> Inl err
      | Inr resolvedRoot \<Rightarrow>
          (case EvalSymlinks path of
             Inl err \<Rightarrow> Inl err
           | Inr resolved \<Rightarrow>
               (case Rel resolvedRoot resolved of
                  None \<Rightarrow> Inr False
                | Some rel \<Rightarrow> Inr (IsLocal rel))))"

definition Relative :: "string \<Rightarrow> string \<Rightarrow> string" where
  "Relative root path = (case Rel root path of Some rel \<Rightarrow> rel | None \<Rightarrow> path)"

definition brokenLinkWithin :: "(string \<Rightarrow> fs_error + string) \<Rightarrow> string \<Rightarrow> string \<Rightarrow> fs_error + bool" where
  "brokenLinkWithin Readlink root path =
     (case Readlink path of
        Inl err \<Rightarrow> Inl err
      | Inr target \<Rightarrow>
          if IsAbs target then Inr False
          else (case Rel root (JoinPath (DirOf path) target) of
                  None \<Rightarrow> Inr False
                | Some rel \<Rightarrow> Inr (IsLocal rel)))"

text \<open>The entries of a walk: a path with whether it is a symbolic link, or the error met there.\<close>

fun contained_walk :: "(string \<Rightarrow> fs_error + string) \<Rightarrow> (string \<Rightarrow> fs_error + string) \<Rightarrow> string
    \<Rightarrow> (fs_error + string \<times> bool) list \<Rightarrow> string option" where
  "contained_walk EvalSymlinks Readlink root [] = None"
| "contained_walk EvalSymlinks Readlink root (entry # entries) =
     (case entry of
        Inl err \<Rightarrow> Some (fs_text err)
      | Inr (path, link) \<Rightarrow>
          if \<not> link then contained_walk EvalSymlinks Readlink root entries
          else
            (case (case Within EvalSymlinks root path of
                     Inl (NotExist _) \<Rightarrow> brokenLinkWithin Readlink root path
                   | r \<Rightarrow> r) of
               Inl err \<Rightarrow> Some (''resolve symlink '' @ Relative root path @ '': '' @ fs_text err)
             | Inr False \<Rightarrow> Some (''symlink '' @ Relative root path @ '' points outside the workspace'')
             | Inr True \<Rightarrow> contained_walk EvalSymlinks Readlink root entries))"

definition Contained :: "(string \<Rightarrow> fs_error + string) \<Rightarrow> (string \<Rightarrow> fs_error + string)
    \<Rightarrow> (string \<Rightarrow> (fs_error + string \<times> bool) list) \<Rightarrow> string \<Rightarrow> string \<Rightarrow> string option" where
  "Contained EvalSymlinks Readlink WalkDir root dir =
     (case Within EvalSymlinks root dir of
        Inl err \<Rightarrow> Some (''resolve render path '' @ Relative root dir @ '': '' @ fs_text err)
      | Inr False \<Rightarrow> Some (''render path '' @ Relative root dir @ '' points outside the workspace'')
      | Inr True \<Rightarrow> contained_walk EvalSymlinks Readlink root (WalkDir dir))"

subsection \<open>Elements\<close>

abbreviation dotdot :: string where
  "dotdot \<equiv> ''..''"

definition plain :: "string list \<Rightarrow> bool" where
  "plain ps \<longleftrightarrow> (\<forall>p \<in> set ps. p \<noteq> [] \<and> p \<noteq> ''.'' \<and> slash \<notin> set p)"

lemma plain_simps [simp]:
  "plain []" "plain (p # ps) \<longleftrightarrow> p \<noteq> [] \<and> p \<noteq> ''.'' \<and> slash \<notin> set p \<and> plain ps" "plain (ps @ qs) \<longleftrightarrow> plain ps \<and> plain qs"
  "plain (List.rev ps) \<longleftrightarrow> plain ps"
  by (auto simp: plain_def)

lemma Split_Join: "plain ps \<Longrightarrow> ps \<noteq> [] \<Longrightarrow> Split slash (Join ''/'' ps) = ps"
  by (rule Split_Join_sep) (auto simp: plain_def)

lemma Join_empty: "plain ps \<Longrightarrow> Join ''/'' ps = [] \<longleftrightarrow> ps = []"
  by (induction "''/''" ps rule: Join.induct) auto

lemma Join_relative: "plain ps \<Longrightarrow> \<not> IsAbs (Join ''/'' ps)"
  by (induction "''/''" ps rule: Join.induct) (auto simp: IsAbs_def neq_Nil_conv)

lemma clean_parts_plain:
  "(\<forall>p \<in> set ps. slash \<notin> set p) \<Longrightarrow> plain out \<Longrightarrow> plain (clean_parts rooted out ps)"
  by (induction rooted out ps rule: clean_parts.induct) (auto split: list.splits)

lemma parts_plain: "plain (parts path)"
  unfolding parts_def by (rule clean_parts_plain) (auto dest: Split_no_sep)

lemma clean_parts_append:
  "clean_parts rooted out (ps @ qs) = clean_parts rooted (List.rev (clean_parts rooted out ps)) qs"
  by (induction rooted out ps rule: clean_parts.induct) (auto split: list.splits)

text \<open>Where a parent element is left over, it stands at the front, and never in a rooted path.\<close>

lemma clean_parts_id: "plain ps \<Longrightarrow> dotdot \<notin> set ps \<Longrightarrow> clean_parts rooted out ps = List.rev out @ ps"
  by (induction rooted out ps rule: clean_parts.induct) auto

lemma clean_parts_rooted: "dotdot \<notin> set out \<Longrightarrow> dotdot \<notin> set (clean_parts True out ps)"
  by (induction True out ps rule: clean_parts.induct) (auto split: list.splits)

lemma clean_parts_up:
  assumes "dotdot \<notin> set low"
  shows "\<exists>m low'. clean_parts False (low @ replicate n dotdot) ps = replicate m dotdot @ low' \<and> dotdot \<notin> set low' \<and> n \<le> m"
  using assms
proof (induction ps arbitrary: n low)
  case Nil
  then show ?case
    by (intro exI [of _ n] exI [of _ "List.rev low"]) auto
next
  case (Cons p ps)
  consider "p = [] \<or> p = ''.''" | "p = dotdot" "low = []" | l below where "p = dotdot" "low = l # below"
    | "p \<noteq> []" "p \<noteq> ''.''" "p \<noteq> dotdot"
    by (metis neq_Nil_conv)
  then show ?case
  proof cases
    case 1
    then show ?thesis
      using Cons.IH [OF Cons.prems] by auto
  next
    case 2
    then have "clean_parts False (low @ replicate n dotdot) (p # ps) = clean_parts False ([] @ replicate (Suc n) dotdot) ps"
      by (cases n) auto
    then show ?thesis
      using Cons.IH [of "[]" "Suc n"] by (auto dest: Suc_leD)
  next
    case 3
    then show ?thesis
      using Cons.IH [of below n] Cons.prems by auto
  next
    case 4
    then show ?thesis
      using Cons.IH [of "p # low" n] Cons.prems by auto
  qed
qed

lemma parts_up: "\<not> IsAbs path \<Longrightarrow> dotdot \<in> set (parts path) \<Longrightarrow> \<exists>ps. parts path = dotdot # ps"
  using clean_parts_up [of "[]" 0 "Split slash path"]
  by (auto simp: parts_def) (metis Cons_eq_appendI gr0_conv_Suc in_set_replicate neq0_conv replicate_Suc)

text \<open>Elements below a directory, one that does not climb, stay below it.\<close>

lemma clean_parts_below:
  "dotdot \<notin> set acc \<Longrightarrow> dotdot \<notin> set (clean_parts False acc ps) \<Longrightarrow>
   clean_parts rooted (acc @ base) ps = List.rev base @ clean_parts False acc ps"
proof (induction ps arbitrary: acc)
  case (Cons p ps)
  consider "p = [] \<or> p = ''.''" | "p = dotdot" "acc = []" | a below where "p = dotdot" "acc = a # below"
    | "p \<noteq> []" "p \<noteq> ''.''" "p \<noteq> dotdot"
    by (metis neq_Nil_conv)
  then show ?case
  proof cases
    case 1
    then show ?thesis
      using Cons.IH [of acc] Cons.prems by auto
  next
    case 2
    then have "dotdot \<in> set (clean_parts False acc (p # ps))"
      using clean_parts_up [of "[]" 1 ps] by auto
    then show ?thesis
      using Cons.prems by blast
  next
    case 3
    then show ?thesis
      using Cons.IH [of below] Cons.prems by auto
  next
    case 4
    then show ?thesis
      using Cons.IH [of "p # acc"] Cons.prems by auto
  qed
qed simp

subsection \<open>Cleaned paths\<close>

lemma parts_absolute: "IsAbs path \<Longrightarrow> dotdot \<notin> set (parts path)"
  by (simp add: parts_def clean_parts_rooted)

lemma Clean_absolute [simp]: "IsAbs (Clean path) \<longleftrightarrow> IsAbs path"
  using Join_relative [OF parts_plain, of path] by (auto simp: Clean_def Let_def IsAbs_def)

lemma parts_rooted: "parts (slash # body) = clean_parts True [] (Split slash (slash # body))"
  by (simp add: parts_def IsAbs_def)

lemma parts_relative: "\<not> IsAbs path \<Longrightarrow> parts path = clean_parts False [] (Split slash path)"
  by (simp add: parts_def)

lemma parts_Clean [simp]: "parts (Clean path) = parts path"
proof (cases "IsAbs path")
  case True
  have "clean_parts True [] (parts path) = parts path"
    using clean_parts_id [OF parts_plain parts_absolute [OF True], of True "[]"] by simp
  moreover have "clean_parts True [] (Split slash (slash # Join ''/'' (parts path))) = clean_parts True [] (parts path)"
    by (cases "parts path = []") (simp_all add: Split_Join parts_plain)
  moreover have "Clean path = slash # Join ''/'' (parts path)"
    using True by (simp add: Clean_def Let_def)
  ultimately show ?thesis
    using parts_rooted [of "Join ''/'' (parts path)"] by (simp only:)
next
  case False
  have "clean_parts False [] (parts path) = parts path"
  proof -
    obtain m low where up: "parts path = replicate m dotdot @ low" "dotdot \<notin> set low"
      using clean_parts_up [of "[]" 0 "Split slash path"] False by (auto simp: parts_def)
    have "clean_parts False [] (replicate m dotdot @ low) = clean_parts False (replicate m dotdot) low"
    proof -
      have "clean_parts False (replicate n dotdot) (replicate m dotdot @ low) = clean_parts False (replicate (n + m) dotdot) low" for n
      proof (induction m arbitrary: n)
        case (Suc m)
        show ?case
          using Suc [of "Suc n"] by (cases n) auto
      qed simp
      from this [of 0] show ?thesis by simp
    qed
    then show ?thesis
      using up parts_plain [of path] by (simp add: clean_parts_id)
  qed
  moreover have "Clean path = (if parts path = [] then ''.'' else Join ''/'' (parts path))"
    using False Join_empty [OF parts_plain, of path] by (simp add: Clean_def Let_def)
  ultimately show ?thesis
    using parts_relative [of "Clean path"] False Clean_absolute [of path] Split_Join [OF parts_plain [of path]]
    by (cases "parts path = []") simp_all
qed

lemma Join_up: "HasPrefix (Join ''/'' (dotdot # ps)) ''..'' \<and> (ps = [] \<longrightarrow> Join ''/'' (dotdot # ps) = ''..'')
    \<and> (ps \<noteq> [] \<longrightarrow> HasPrefix (Join ''/'' (dotdot # ps)) ''../'')"
  by (cases ps) auto

lemma clean_parts_no_dots:
  "list_all (\<lambda>p. p \<noteq> ''.'' \<and> p \<noteq> dotdot) ps \<Longrightarrow> dotdot \<notin> set out \<Longrightarrow> dotdot \<notin> set (clean_parts rooted out ps)"
  by (induction rooted out ps rule: clean_parts.induct) auto

lemma IsLocal_no_up: "IsLocal path \<Longrightarrow> \<not> IsAbs path \<and> dotdot \<notin> set (parts path)"
proof -
  assume loc: "IsLocal path"
  then have rel: "\<not> IsAbs path"
    by (simp add: IsLocal_def)
  have "dotdot \<notin> set (parts path)"
  proof (cases "list_ex (\<lambda>p. p = ''.'' \<or> p = dotdot) (Split slash path)")
    case True
    show ?thesis
    proof
      assume "dotdot \<in> set (parts path)"
      then obtain ps where "parts path = dotdot # ps"
        using parts_up [OF rel] by blast
      then have "Clean path = Join ''/'' (dotdot # ps)"
        using rel Join_empty [OF parts_plain, of path] by (simp add: Clean_def Let_def)
      then have "Clean path = ''..'' \<or> HasPrefix (Clean path) ''../''"
        using Join_up [of ps] by auto
      then show False
        using loc True by (auto simp: IsLocal_def Let_def)
    qed
  next
    case False
    then show ?thesis
      unfolding parts_def by (intro clean_parts_no_dots) (auto simp: list_ex_iff list_all_iff)
  qed
  then show ?thesis
    using rel by blast
qed

lemma parts_join:
  assumes "IsAbs base" and "\<not> IsAbs path" and "dotdot \<notin> set (parts path)"
  shows "parts (base @ ''/'' @ path) = parts base @ parts path"
proof -
  have "IsAbs (base @ ''/'' @ path)"
    using assms(1) by (cases base) (auto simp: IsAbs_def)
  then show ?thesis
    using assms clean_parts_below [of "[]" "Split slash path" True "List.rev (clean_parts True [] (Split slash base))"]
    by (simp add: parts_def Split_append_all clean_parts_append)
qed

lemma strip_common: "strip_common xs ys = (up, down) \<Longrightarrow> \<exists>zs. xs = zs @ up \<and> ys = zs @ down"
proof (induction xs ys rule: strip_common.induct)
  case (1 x xs y ys)
  then show ?case
    by (cases "x = y") (simp_all, metis append_Cons)
qed auto

lemma climbing_not_local:
  assumes "n > 0" "plain down"
  shows "\<not> IsLocal (Join ''/'' (replicate n dotdot @ down))"
proof
  let ?p = "Join ''/'' (replicate n dotdot @ down)"
  assume "IsLocal ?p"
  then have rel: "\<not> IsAbs ?p" and none: "dotdot \<notin> set (parts ?p)"
    using IsLocal_no_up by blast+
  obtain m where m: "n = Suc m"
    using assms(1) by (cases n) auto
  have "plain (replicate n dotdot @ down)"
    unfolding plain_simps using assms(2) by (simp add: plain_def)
  then have "Split slash ?p = dotdot # replicate m dotdot @ down"
    using Split_Join [of "replicate n dotdot @ down"] unfolding m by (simp del: Join.simps)
  then have "parts ?p = clean_parts False (replicate 1 dotdot) (replicate m dotdot @ down)"
    using rel by (simp add: parts_def)
  moreover obtain k low where "clean_parts False (replicate 1 dotdot) (replicate m dotdot @ down) = replicate k dotdot @ low" "1 \<le> k"
    using clean_parts_up [of "[]" 1 "replicate m dotdot @ down"] by auto
  ultimately show False
    using none by simp
qed

subsection \<open>Properties\<close>

text \<open>A render path never leaves the checked-out workspace: whatever path an Application names, the
  directory \<open>Dir\<close> gives lies at or below the workspace, element by element, and does not climb.\<close>

theorem Dir_inside:
  assumes "Dir workspace path = Inr dir" and "IsAbs workspace"
  shows "IsAbs dir \<and> (\<exists>rest. parts dir = parts workspace @ rest \<and> ''..'' \<notin> set rest)"
proof (cases "path = []")
  case True
  then show ?thesis
    using assms by (auto simp: Dir_def JoinPath_def split: if_splits)
next
  case False
  then have ok: "workspace \<noteq> []" "IsLocal path" "dir = Clean (workspace @ ''/'' @ path)"
    using assms by (auto simp: Dir_def JoinPath_def split: if_splits)
  then have "parts dir = parts workspace @ parts path"
    using IsLocal_no_up [OF ok(2)] parts_join [OF assms(2)] by simp
  moreover have "IsAbs dir"
    using ok(1,3) assms(2) by (cases workspace) (simp_all, simp_all add: IsAbs_def)
  ultimately show ?thesis
    using IsLocal_no_up [OF ok(2)] by auto
qed

theorem Dir_inside_witness:
  "parts ''/cache/repo/deploy/web'' = parts ''/cache/repo'' @ [''deploy'', ''web''] \<and>
   (\<exists>rest. parts ''/cache/repo/deploy/web'' = parts ''/cache/repo'' @ rest \<and> ''..'' \<notin> set rest)"
proof -
  have "Dir ''/cache/repo'' ''deploy/x/../web'' = Inr ''/cache/repo/deploy/web''"
    by code_simp
  moreover have "IsAbs ''/cache/repo''" "parts ''/cache/repo/deploy/web'' = parts ''/cache/repo'' @ [''deploy'', ''web'']"
    by code_simp+
  ultimately show ?thesis
    using Dir_inside by blast
qed

text \<open>\<open>Within\<close> is right about links: when it says a path lies inside a root, the resolved path is
  at or below the resolved root, element by element.\<close>

theorem Within_inside:
  assumes "Within EvalSymlinks root path = Inr True"
  shows "\<exists>resolvedRoot resolved rest. EvalSymlinks root = Inr resolvedRoot \<and> EvalSymlinks path = Inr resolved
    \<and> IsAbs resolved = IsAbs resolvedRoot \<and> parts resolved = parts resolvedRoot @ rest"
proof -
  obtain r p rel where res: "EvalSymlinks root = Inr r" "EvalSymlinks path = Inr p" and rel: "Rel r p = Some rel" "IsLocal rel"
    using assms by (auto simp: Within_def split: sum.splits option.splits)
  have "IsAbs p = IsAbs r \<and> (\<exists>rest. parts p = parts r @ rest)"
  proof (cases "Clean r = Clean p")
    case True
    then show ?thesis
      by (metis Clean_absolute parts_Clean append_Nil2)
  next
    case False
    obtain up down where sc: "strip_common (parts r) (parts p) = (up, down)"
      by fastforce
    have abs: "IsAbs p = IsAbs r" and form: "rel = Join ''/'' (replicate (length up) dotdot @ down)"
      using rel(1) False sc by (auto simp: Rel_def Let_def split: if_splits)
    obtain zs where zs: "parts r = zs @ up" "parts p = zs @ down"
      using strip_common [OF sc] by blast
    have "up = []"
      using rel(2) climbing_not_local [of "length up" down] zs(2) parts_plain [of p] by (auto simp: form)
    then show ?thesis
      using abs zs by auto
  qed
  then show ?thesis
    using res by blast
qed

theorem Within_inside_witness:
  "parts ''/cache/repo/a'' = parts ''/cache/repo'' @ [''a''] \<and>
   (\<exists>rest. parts ''/cache/repo/a'' = parts ''/cache/repo'' @ rest)"
proof -
  have "Within Inr ''/cache/repo'' ''/cache/repo/a'' = Inr True" "parts ''/cache/repo/a'' = parts ''/cache/repo'' @ [''a'']"
    by code_simp+
  then show ?thesis
    using Within_inside [of Inr "''/cache/repo''" "''/cache/repo/a''"] by simp
qed

end
