(* ===== verification/Repositories.thy ===== *)
theory Repositories
  imports Images Paths
begin

text \<open>
  The Repository controller (\<open>internal/controller/repository_controller.go\<close>) and the discovery of
  Applications from a repository's \<open>.ksync.yaml\<close> files (\<open>repository_discovery.go\<close>). Whoever can push to
  the repository writes these files, so the theorems say what a push can and cannot cause: the
  Applications discovery writes stay in the Repository's namespace, run as the service account its
  owner pinned and switch on nothing its policy does not allow; a refused file changes nothing; and
  an Application removed from Git takes its workloads with it only when the policy says so.

  The file system, the YAML decoder and the API are the record \<open>repo_lib\<close>. Owner references, which the
  model's metadata does not carry, appear as the error of \<open>SetControllerReference\<close>.
\<close>

record 'w repo_lib =
  rl_EvalSymlinks :: "string \<Rightarrow> fs_error + string"
  rl_ReadFile :: "string \<Rightarrow> fs_error + string"
  rl_DecodeMap :: "string \<Rightarrow> string + gomap"
  rl_DecodeEnvelope :: "string \<Rightarrow> string + application list"
  rl_DecodeApplication :: "string \<Rightarrow> string + (string \<times> application)" \<comment> \<open>the kind, and the rest\<close>
  rl_CreateOrUpdate :: "string \<Rightarrow> string \<Rightarrow> (application \<Rightarrow> api_error + application) \<Rightarrow> 'w \<Rightarrow> 'w \<times> api_error option"
  rl_SetControllerReference :: "repository \<Rightarrow> application \<Rightarrow> api_error option"
  rl_ListApplications :: "string \<Rightarrow> string \<Rightarrow> string \<Rightarrow> 'w \<Rightarrow> api_error + application list" \<comment> \<open>namespace, label, value\<close>
  rl_Patch :: "application \<Rightarrow> application \<Rightarrow> 'w \<Rightarrow> 'w \<times> api_error option"
  rl_Delete :: "application \<Rightarrow> 'w \<Rightarrow> 'w \<times> api_error option"
  rl_GetRepository :: "string \<Rightarrow> string \<Rightarrow> 'w \<Rightarrow> api_error + repository"
  rl_UpdateStatus :: "repository \<Rightarrow> 'w \<Rightarrow> 'w \<times> api_error option"
  rl_Event :: "repository \<Rightarrow> event \<Rightarrow> 'w \<Rightarrow> 'w"
  rl_ListPolicies :: "string \<Rightarrow> 'w \<Rightarrow> api_error + image_policy list"
  rl_Resolve :: "git_repository \<Rightarrow> 'w \<Rightarrow> source_error + resolved_source"
  rl_ImageUpdater :: "('w git_attempt \<times> (git_repository \<Rightarrow> git_error option) \<times> bool) option"
  rl_Quote :: "string \<Rightarrow> string"

abbreviation repo_Name :: "repository \<Rightarrow> string" where
  "repo_Name r \<equiv> om_Name (repo_Meta r)"
abbreviation repo_Namespace :: "repository \<Rightarrow> string" where
  "repo_Namespace r \<equiv> om_Namespace (repo_Meta r)"

definition configFileName :: string where
  "configFileName = ''.ksync.yaml''"

definition repositoryApplicationLabel :: string where
  "repositoryApplicationLabel = ''sync.kuvryn.io/repository''"

definition DiscoveredFromAnnotation :: string where
  "DiscoveredFromAnnotation = ''sync.kuvryn.io/discovered-from''"

subsection \<open>Config paths\<close>

fun config_paths_loop :: "(string \<Rightarrow> string) \<Rightarrow> string list \<Rightarrow> string list \<Rightarrow> string + string list" where
  "config_paths_loop Q [] out = Inr out"
| "config_paths_loop Q (raw # rest) out =
     (let path = TrimSpace raw; clean = Clean path in
      if path = [] then Inl ''applicationConfigPaths must not contain empty paths''
      else if IsAbs path then Inl (''applicationConfigPaths path '' @ Q raw @ '' must be repository-relative'')
      else if clean = ''.'' \<or> \<not> IsLocal clean then Inl (''applicationConfigPaths path '' @ Q raw @ '' must stay inside the repository'')
      else if Base clean \<noteq> configFileName then Inl (''applicationConfigPaths path '' @ Q raw @ '' must name a '' @ configFileName @ '' file'')
      else if clean \<in> set out then Inl (''applicationConfigPaths path '' @ Q clean @ '' is listed more than once'')
      else config_paths_loop Q rest (out @ [clean]))"

definition configPaths :: "(string \<Rightarrow> string) \<Rightarrow> repository \<Rightarrow> string + string list" where
  "configPaths Q repository =
     (let paths = repo_ApplicationConfigPaths (repo_Spec repository) in
      config_paths_loop Q (if paths = [] then [configFileName] else paths) [])"

subsection \<open>Reading the files\<close>

definition applicationsFromConfigFile :: "'w repo_lib \<Rightarrow> repository \<Rightarrow> string \<Rightarrow> string \<Rightarrow> string + application list option" where
  "applicationsFromConfigFile R repository workspace configPath =
     (let path = JoinPath workspace configPath in
      case Within (rl_EvalSymlinks R) workspace path of
        Inl (NotExist _) \<Rightarrow> Inr None
      | Inl (FsError err) \<Rightarrow> Inl (''could not resolve '' @ configPath @ '': '' @ err)
      | Inr False \<Rightarrow> Inl (configPath @ '' resolves outside the repository; .ksync.yaml files and links to them must stay inside it'')
      | Inr True \<Rightarrow>
          (case rl_ReadFile R path of
             Inl (NotExist _) \<Rightarrow> Inr None
           | Inl (FsError err) \<Rightarrow> Inl (''could not read '' @ configPath @ '': '' @ err)
           | Inr data \<Rightarrow>
               (case rl_DecodeMap R data of
                  Inl err \<Rightarrow> Inl (''could not parse '' @ configPath @ '': '' @ err)
                | Inr raw \<Rightarrow>
                    if ''applications'' \<in> fst ` set raw then
                      (case rl_DecodeEnvelope R data of
                         Inl err \<Rightarrow> Inl (''could not parse '' @ configPath @ '': '' @ err)
                       | Inr apps \<Rightarrow> Inr (Some apps))
                    else
                      (case rl_DecodeApplication R data of
                         Inl err \<Rightarrow> Inl (''could not parse '' @ configPath @ '': '' @ err)
                       | Inr (kind, app) \<Rightarrow>
                           if kind = ''Application'' \<or> app_Name app \<noteq> [] \<or> render_Type (src_Render (aspec_Source (app_Spec app))) \<noteq> RenderTypeNone
                              \<or> src_Path (aspec_Source (app_Spec app)) \<noteq> []
                           then Inr (Some [app])
                           else Inl (configPath @ '' must contain kind: Application or an applications list for repository ''
                             @ rl_Quote R (repo_Name repository))))))"

subsection \<open>Checking an Application\<close>

fun check_rules :: "(bool \<times> bool \<times> string \<times> string) list \<Rightarrow> (string \<Rightarrow> string \<Rightarrow> string) \<Rightarrow> string option" where
  "check_rules [] msg = None"
| "check_rules ((requested, allowed, fieldName, allowance) # rules) msg =
     (if requested \<and> \<not> allowed then Some (msg fieldName allowance) else check_rules rules msg)"

definition checkApplicationPolicy :: "(string \<Rightarrow> string) \<Rightarrow> repository \<Rightarrow> string \<Rightarrow> application \<Rightarrow> string option" where
  "checkApplicationPolicy Q repository configPath app =
     (let policy = repo_ApplicationPolicy (repo_Spec repository); spec = app_Spec app in
      check_rules
        [(sync_Automatic (aspec_Sync spec), ap_AllowAutomatic policy, ''spec.sync.automatic'', ''allowAutomatic''),
         (sync_Prune (aspec_Sync spec), ap_AllowPrune policy, ''spec.sync.prune'', ''allowPrune''),
         (sync_ConflictPolicy (aspec_Sync spec) = ConflictPolicyAdopt, ap_AllowAdopt policy, ''spec.sync.conflictPolicy adopt'', ''allowAdopt''),
         (aspec_DeletionPolicy spec = DeletionPolicyDeleteManagedResources, ap_AllowDeleteManagedResources policy,
          ''spec.deletionPolicy DeleteManagedResources'', ''allowDeleteManagedResources'')]
        (\<lambda>fieldName allowance. configPath @ '' application '' @ Q (app_Name app) @ '' sets '' @ fieldName
           @ ''; set spec.applicationPolicy.'' @ allowance @ '' on Repository '' @ Q (repo_Name repository) @ '' to allow it''))"

definition own_annotation :: "string \<Rightarrow> bool" where
  "own_annotation key = HasPrefix key ''sync.kuvryn.io/''"

definition with_defaults :: "repository \<Rightarrow> application \<Rightarrow> application" where
  "with_defaults repository app =
     (let app = (if app_Namespace app = [] then app\<lparr>app_Meta := (app_Meta app)\<lparr>om_Namespace := repo_Namespace repository\<rparr>\<rparr> else app);
          src = aspec_Source (app_Spec app)
      in if src_RepositoryRef src = []
         then app\<lparr>app_Spec := (app_Spec app)\<lparr>aspec_Source := src\<lparr>src_RepositoryRef := repo_Name repository\<rparr>\<rparr>\<rparr> else app)"

definition service_account_error :: "(string \<Rightarrow> string) \<Rightarrow> repository \<Rightarrow> string \<Rightarrow> application \<Rightarrow> string option" where
  "service_account_error Q repository configPath app =
     (let pinned = repo_ApplicationServiceAccountName (repo_Spec repository); name = aspec_ServiceAccountName (app_Spec app) in
      if name \<noteq> [] \<and> name \<noteq> pinned then
        Some (if pinned = [] then configPath @ '' application '' @ Q (app_Name app)
                @ '' may not set serviceAccountName; set spec.applicationServiceAccountName on Repository '' @ Q (repo_Name repository)
              else configPath @ '' application '' @ Q (app_Name app) @ '' names service account '' @ Q name @ '' but Repository ''
                @ Q (repo_Name repository) @ '' pins '' @ Q pinned)
      else None)"

text \<open>\<open>normalizeDiscoveredApplication\<close>; the namespace is defaulted before it is compared, and so is the
  reference to the repository.\<close>

definition normalizeDiscoveredApplication :: "(string \<Rightarrow> string) \<Rightarrow> repository \<Rightarrow> string \<Rightarrow> nat \<Rightarrow> application \<Rightarrow> string list
    \<Rightarrow> string + application" where
  "normalizeDiscoveredApplication Q repository configPath index app seen =
     (if app_Name app = [] then Inl (configPath @ '' application at index '' @ itoa (int index) @ '' is missing metadata.name'')
      else if app_Name app \<in> set seen then Inl (''application '' @ Q (app_Name app) @ '' is declared by more than one .ksync.yaml file'')
      else
        (let app = with_defaults repository app; src = aspec_Source (app_Spec app) in
         if app_Namespace app \<noteq> repo_Namespace repository then
           Inl (configPath @ '' application '' @ Q (app_Name app) @ '' must stay in repository namespace '' @ Q (repo_Namespace repository))
         else if src_RepositoryRef src \<noteq> repo_Name repository then
           Inl (configPath @ '' application '' @ Q (app_Name app) @ '' references repository '' @ Q (src_RepositoryRef src)
             @ '' instead of '' @ Q (repo_Name repository))
         else if render_Type (src_Render src) = RenderTypeNone then
           Inl (configPath @ '' application '' @ Q (app_Name app) @ '' must set spec.source.render.type'')
         else
           (case service_account_error Q repository configPath app of
              Some err \<Rightarrow> Inl err
            | None \<Rightarrow>
                (let app = app\<lparr>app_Spec := (app_Spec app)\<lparr>aspec_ServiceAccountName :=
                       repo_ApplicationServiceAccountName (repo_Spec repository)\<rparr>\<rparr>
                 in case checkApplicationPolicy Q repository configPath app of
                      Some err \<Rightarrow> Inl err
                    | None \<Rightarrow> Inr (set_annotations (\<lambda>key. if own_annotation key then None else app_Annotations app key) app)))))"

subsection \<open>Discovery\<close>

fun normalize_apps :: "(string \<Rightarrow> string) \<Rightarrow> repository \<Rightarrow> string \<Rightarrow> nat \<Rightarrow> application list \<Rightarrow> string list
    \<Rightarrow> string + (application \<times> string) list" where
  "normalize_apps Q repository configPath i [] seen = Inr []"
| "normalize_apps Q repository configPath i (app # apps) seen =
     (case normalizeDiscoveredApplication Q repository configPath i app seen of
        Inl err \<Rightarrow> Inl err
      | Inr app \<Rightarrow>
          (case normalize_apps Q repository configPath (Suc i) apps (app_Name app # seen) of
             Inl err \<Rightarrow> Inl err
           | Inr rest \<Rightarrow> Inr ((app, configPath) # rest)))"

text \<open>The check of every file before anything is written: the Applications with the files they are
  from.\<close>

fun discover :: "'w repo_lib \<Rightarrow> repository \<Rightarrow> string \<Rightarrow> string list \<Rightarrow> string list \<Rightarrow> string + (application \<times> string) list" where
  "discover R repository workspace [] seen = Inr []"
| "discover R repository workspace (configPath # paths) seen =
     (case applicationsFromConfigFile R repository workspace configPath of
        Inl err \<Rightarrow> Inl err
      | Inr None \<Rightarrow> discover R repository workspace paths seen
      | Inr (Some apps) \<Rightarrow>
          (case normalize_apps (rl_Quote R) repository configPath 0 apps seen of
             Inl err \<Rightarrow> Inl err
           | Inr found \<Rightarrow>
               (case discover R repository workspace paths (List.rev (map (app_Name \<circ> fst) found) @ seen) of
                  Inl err \<Rightarrow> Inl err
                | Inr rest \<Rightarrow> Inr (found @ rest))))"

definition ensureDiscoveredApplicationMetadata :: "repository \<Rightarrow> string \<Rightarrow> application \<Rightarrow> application" where
  "ensureDiscoveredApplicationMetadata repository configPath app =
     app\<lparr>app_Meta := (app_Meta app)\<lparr>om_Labels := (om_Labels (app_Meta app))(repositoryApplicationLabel \<mapsto> repo_Name repository),
        om_Annotations := (om_Annotations (app_Meta app))(DiscoveredFromAnnotation \<mapsto> configPath)\<rparr>\<rparr>"

text \<open>The function that \<open>CreateOrUpdate\<close> applies to the stored Application, or to an empty one.\<close>

definition mutate :: "'w repo_lib \<Rightarrow> repository \<Rightarrow> application \<Rightarrow> string \<Rightarrow> application \<Rightarrow> api_error + application" where
  "mutate R repository desired configPath app =
     (let app = (if om_ResourceVersion (app_Meta app) = [] then app\<lparr>app_Meta := app_Meta desired\<rparr> else app);
          app = app\<lparr>app_Spec := app_Spec desired\<rparr>;
          app = ensureDiscoveredApplicationMetadata repository configPath app
      in case rl_SetControllerReference R repository app of
           Some err \<Rightarrow> Inl err
         | None \<Rightarrow> Inr app)"

definition upsertDiscoveredApplication :: "'w repo_lib \<Rightarrow> repository \<Rightarrow> application \<Rightarrow> string \<Rightarrow> 'w \<Rightarrow> 'w \<times> api_error option" where
  "upsertDiscoveredApplication R repository desired configPath w =
     rl_CreateOrUpdate R (app_Namespace desired) (app_Name desired) (mutate R repository desired configPath) w"

fun upsert_all :: "'w repo_lib \<Rightarrow> repository \<Rightarrow> (application \<times> string) list \<Rightarrow> 'w \<Rightarrow> 'w \<times> api_error option" where
  "upsert_all R repository [] w = (w, None)"
| "upsert_all R repository ((app, configPath) # rest) w =
     (case upsertDiscoveredApplication R repository app configPath w of
        (w, Some err) \<Rightarrow> (w, Some err)
      | (w, None) \<Rightarrow> upsert_all R repository rest w)"

definition ignore_not_found :: "api_error option \<Rightarrow> api_error option" where
  "ignore_not_found e = (case e of Some err \<Rightarrow> if IsNotFound err then None else Some err | None \<Rightarrow> None)"

fun prune_loop :: "'w repo_lib \<Rightarrow> repository \<Rightarrow> string list \<Rightarrow> application list \<Rightarrow> 'w \<Rightarrow> 'w \<times> api_error option" where
  "prune_loop R repository seen [] w = (w, None)"
| "prune_loop R repository seen (app # apps) w =
     (if app_Name app \<in> set seen then prune_loop R repository seen apps w
      else
        (let orphaning = (aspec_DeletionPolicy (app_Spec app) = DeletionPolicyDeleteManagedResources \<and>
               \<not> ap_AllowDeleteManagedResources (repo_ApplicationPolicy (repo_Spec repository)));
             orphaned = app\<lparr>app_Spec := (app_Spec app)\<lparr>aspec_DeletionPolicy := DeletionPolicyOrphan\<rparr>\<rparr>;
             app' = (if orphaning then orphaned else app);
             (w, patched) = (if orphaning then rl_Patch R orphaned app w else (w, None))
         in case ignore_not_found patched of
              Some err \<Rightarrow> (w, Some err)
            | None \<Rightarrow>
                (case rl_Delete R app' w of
                   (w, e) \<Rightarrow>
                     (case ignore_not_found e of
                        Some err \<Rightarrow> (w, Some err)
                      | None \<Rightarrow> prune_loop R repository seen apps w))))"

definition pruneRemovedDiscoveredApplications :: "'w repo_lib \<Rightarrow> repository \<Rightarrow> string list \<Rightarrow> 'w \<Rightarrow> 'w \<times> api_error option" where
  "pruneRemovedDiscoveredApplications R repository seen w =
     (case rl_ListApplications R (repo_Namespace repository) repositoryApplicationLabel (repo_Name repository) w of
        Inl err \<Rightarrow> (w, Some err)
      | Inr apps \<Rightarrow> prune_loop R repository seen apps w)"

definition reconcileDiscoveredApplications :: "'w repo_lib \<Rightarrow> repository \<Rightarrow> resolved_source \<Rightarrow> 'w \<Rightarrow> 'w \<times> string option" where
  "reconcileDiscoveredApplications R repository resolved w =
     (case configPaths (rl_Quote R) repository of
        Inl err \<Rightarrow> (w, Some err)
      | Inr paths \<Rightarrow>
          (case discover R repository (res_CacheDir resolved) paths [] of
             Inl err \<Rightarrow> (w, Some err)
           | Inr desired \<Rightarrow>
               (case upsert_all R repository desired w of
                  (w, Some err) \<Rightarrow> (w, Some (error_text err))
                | (w, None) \<Rightarrow>
                    (case pruneRemovedDiscoveredApplications R repository (map (app_Name \<circ> fst) desired) w of
                       (w, e) \<Rightarrow> (w, map_option error_text e)))))"

subsection \<open>Writing images back\<close>

definition policy_images :: "image_policy list \<Rightarrow> string \<rightharpoonup> policy_image" where
  "policy_images policies = foldl (\<lambda>m p.
     if ipst_LatestImage (ip_Status p) \<noteq> []
     then m(om_Namespace (ip_Meta p) @ '':'' @ om_Name (ip_Meta p) \<mapsto>
            \<lparr>img_Name = ips_Image (ip_Spec p), img_Tag = ipst_LatestTag (ip_Status p), img_Full = ipst_LatestImage (ip_Status p)\<rparr>)
     else m) Map.empty policies"

definition writeBackImages :: "'w api \<Rightarrow> 'w repo_lib \<Rightarrow> 'w git_attempt \<times> (git_repository \<Rightarrow> git_error option) \<times> bool
    \<Rightarrow> repository \<Rightarrow> git_repository_spec \<Rightarrow> image_update_spec \<Rightarrow> 'w \<Rightarrow> 'w \<times> (string + (string \<times> image_change list))" where
  "writeBackImages E R = (\<lambda>(attempt, AuthMethod, allowLocal) repository git spec w.
     (let branch = (if iu_Branch spec = [] then git_Revision git else iu_Branch spec) in
      if branch = [] then (w, Inl ''set spec.imageUpdate.branch or spec.git.revision'')
      else
        (case credentialsFromSecret E (repo_Namespace repository) (iu_SecretRef spec) w of
           Inl err \<Rightarrow> (w, Inl (source_error_text err))
         | Inr creds \<Rightarrow>
             (case rl_ListPolicies R (repo_Namespace repository) w of
                Inl err \<Rightarrow> (w, Inl (error_text err))
              | Inr policies \<Rightarrow>
                  (let images = policy_images policies in
                   if list_all (\<lambda>p. ipst_LatestImage (ip_Status p) = []) policies then (w, Inr ([], []))
                   else
                     (case Update AuthMethod allowLocal attempt
                        \<lparr>ur_URL = git_URL git, ur_Branch = branch, ur_Path = iu_Path spec, ur_Auth = creds,
                         ur_Namespace = repo_Namespace repository, ur_Images = images,
                         ur_AuthorName = iu_AuthorName spec, ur_AuthorEmail = iu_AuthorEmail spec\<rparr> w of
                        (w, Inl err) \<Rightarrow> (w, Inl (git_text err))
                      | (w, Inr r) \<Rightarrow> (w, Inr r)))))))"

definition repository_condition :: "repository \<Rightarrow> string \<Rightarrow> condition_status \<Rightarrow> string \<Rightarrow> string \<Rightarrow> condition" where
  "repository_condition repository ty state reason text = \<lparr>cond_Type = ty, cond_Status = state, cond_Reason = reason,
     cond_Message = text, cond_ObservedGeneration = om_Generation (repo_Meta repository)\<rparr>"

definition set_repository_condition :: "lib \<Rightarrow> condition \<Rightarrow> repository \<Rightarrow> repository" where
  "set_repository_condition L c repository = repository\<lparr>repo_Status := (repo_Status repository)\<lparr>repostatus_Conditions :=
     SetStatusCondition L (repostatus_Conditions (repo_Status repository)) c\<rparr>\<rparr>"

definition updateImages :: "'w api \<Rightarrow> lib \<Rightarrow> 'w repo_lib \<Rightarrow> git_repository_spec \<Rightarrow> repository \<Rightarrow> 'w \<Rightarrow> 'w \<times> repository \<times> bool" where
  "updateImages E L R git repository w =
     (case repo_ImageUpdate (repo_Spec repository) of
        None \<Rightarrow> (w, repository\<lparr>repo_Status := (repo_Status repository)\<lparr>repostatus_Conditions :=
            RemoveStatusCondition L (repostatus_Conditions (repo_Status repository)) ''ImagesUpdated''\<rparr>\<rparr>, False)
      | Some spec \<Rightarrow>
          (case rl_ImageUpdater R of
             None \<Rightarrow> (w, set_repository_condition L (repository_condition repository ''ImagesUpdated'' ConditionFalse ''Disabled''
                 ''Image write-back is not enabled in this controller'') repository, False)
           | Some updater \<Rightarrow>
               (case writeBackImages E R updater repository git spec w of
                  (w, Inl err) \<Rightarrow>
                    (let text = safeMessage err ''Image update failed'' in
                     (rl_Event R repository (EventWarning, ''ImageUpdateFailed'', text) w,
                      set_repository_condition L (repository_condition repository ''ImagesUpdated'' ConditionFalse ''UpdateFailed'' text) repository,
                      False))
                | (w, Inr (commit, changes)) \<Rightarrow>
                    if commit \<noteq> [] then
                      (let text = ''Pushed '' @ commit @ '' updating '' @ itoa (int (length changes)) @ '' image reference(s)'' in
                       (rl_Event R repository (EventNormal, ''ImagesUpdated'', text) w,
                        set_repository_condition L (repository_condition repository ''ImagesUpdated'' ConditionTrue ''Committed'' text) repository,
                        True))
                    else (w, set_repository_condition L (repository_condition repository ''ImagesUpdated'' ConditionTrue ''UpToDate''
                        ''Image references match their ImagePolicies'') repository, False))))"

subsection \<open>Reconciling a Repository\<close>

definition markFailed :: "lib \<Rightarrow> 'w repo_lib \<Rightarrow> string \<Rightarrow> string \<Rightarrow> repository \<Rightarrow> 'w \<Rightarrow> repository \<times> 'w" where
  "markFailed L R reason text repository w =
     (let failed = set_repository_condition L (repository_condition repository ''Ready'' ConditionFalse reason text)
            (repository\<lparr>repo_Status := (repo_Status repository)\<lparr>repostatus_State := RepositoryStateFailed\<rparr>\<rparr>)
      in (failed, rl_Event R failed (EventWarning, reason, text) w))"

definition markSourceError :: "lib \<Rightarrow> 'w repo_lib \<Rightarrow> source_error \<Rightarrow> repository \<Rightarrow> 'w \<Rightarrow> repository \<times> 'w" where
  "markSourceError L R err repository w =
     (case err of
        SourceError reason text \<Rightarrow> markFailed L R reason text repository w
      | PlainError _ \<Rightarrow> markFailed L R ''SourceFailure'' ''Repository source reconciliation failed'' repository w)"

definition updateStatus :: "'w repo_lib \<Rightarrow> int \<Rightarrow> repository \<times> 'w \<Rightarrow> 'w \<times> int \<times> api_error option" where
  "updateStatus R after = (\<lambda>(repository, w). case rl_UpdateStatus R repository w of (w, e) \<Rightarrow> (w, after, e))"

definition markReady :: "lib \<Rightarrow> 'w repo_lib \<Rightarrow> string \<Rightarrow> time \<Rightarrow> repository \<Rightarrow> 'w \<Rightarrow> repository \<times> 'w" where
  "markReady L R sourceRevision now repository w =
     (let ready = set_repository_condition L (repository_condition repository ''Ready'' ConditionTrue ''FetchSucceeded''
              ''Git source resolved successfully'')
            (repository\<lparr>repo_Status := (repo_Status repository)\<lparr>repostatus_State := RepositoryStateReady,
               repostatus_ObservedRevision := sourceRevision, repostatus_LastFetchedAt := Some now\<rparr>\<rparr>)
      in (ready, rl_Event R ready (EventNormal, ''RepositoryReady'', ''Git source resolved successfully'') w))"

definition Repository_Reconcile :: "'w api \<Rightarrow> lib \<Rightarrow> 'w repo_lib \<Rightarrow> string \<Rightarrow> string \<Rightarrow> 'w \<Rightarrow> 'w \<times> int \<times> api_error option" where
  "Repository_Reconcile E L R namespace name w =
     (case rl_GetRepository R namespace name w of
        Inl err \<Rightarrow> (w, 0, if IsNotFound err then None else Some err)
      | Inr repository \<Rightarrow>
          (let after = (case repo_PollInterval (repo_Spec repository) of Some d \<Rightarrow> d | None \<Rightarrow> 0) in
           if repo_Type (repo_Spec repository) \<notin> {RepositoryTypeNone, RepositoryTypeGit} then
             updateStatus R after (markFailed L R ''ValidationFailure'' ''Only Git repositories are supported'' repository w)
           else
             (case repo_Git (repo_Spec repository) of
                None \<Rightarrow> updateStatus R after (markFailed L R ''ValidationFailure'' ''Git repository configuration is required'' repository w)
              | Some git \<Rightarrow>
                  (case loadGitCredentials E repository w of
                     Inl err \<Rightarrow> updateStatus R after (markSourceError L R err repository w)
                   | Inr creds \<Rightarrow>
                       (case rl_Resolve R \<lparr>gr_URL = git_URL git, gr_Revision = git_Revision git, gr_Auth = creds\<rparr> w of
                          Inl err \<Rightarrow> updateStatus R after (markSourceError L R err repository w)
                        | Inr resolved \<Rightarrow>
                            (case reconcileDiscoveredApplications R repository resolved w of
                               (w, Some err) \<Rightarrow> updateStatus R after (markFailed L R ''ValidationFailure''
                                   (safeMessage err ''Repository application discovery failed'') repository w)
                             | (w, None) \<Rightarrow>
                                 (case updateImages E L R git repository w of
                                    (w, repository, pushed) \<Rightarrow>
                                      updateStatus R (if pushed then second else after)
                                        (markReady L R (res_Revision resolved) (clock E w) repository w))))))))"

text \<open>Which events re-queue a Repository.\<close>

definition latestImageChanged :: "image_policy \<Rightarrow> image_policy \<Rightarrow> bool" where
  "latestImageChanged old updated \<longleftrightarrow> ipst_LatestImage (ip_Status old) \<noteq> ipst_LatestImage (ip_Status updated)"

definition repositoriesForImagePolicy :: "(string \<Rightarrow> api_error + repository list) \<Rightarrow> image_policy \<Rightarrow> (string \<times> string) list" where
  "repositoriesForImagePolicy List_repositories policy =
     (case List_repositories (om_Namespace (ip_Meta policy)) of
        Inl _ \<Rightarrow> []
      | Inr rs \<Rightarrow> map (\<lambda>r. (repo_Namespace r, repo_Name r)) (filter (\<lambda>r. repo_ImageUpdate (repo_Spec r) \<noteq> None) rs))"

subsection \<open>What a discovered Application may be\<close>

definition within_policy :: "repository \<Rightarrow> application \<Rightarrow> bool" where
  "within_policy repository app \<longleftrightarrow>
     app_Namespace app = repo_Namespace repository
     \<and> src_RepositoryRef (aspec_Source (app_Spec app)) = repo_Name repository
     \<and> aspec_ServiceAccountName (app_Spec app) = repo_ApplicationServiceAccountName (repo_Spec repository)
     \<and> (let policy = repo_ApplicationPolicy (repo_Spec repository); spec = app_Spec app in
        (sync_Automatic (aspec_Sync spec) \<longrightarrow> ap_AllowAutomatic policy)
        \<and> (sync_Prune (aspec_Sync spec) \<longrightarrow> ap_AllowPrune policy)
        \<and> (sync_ConflictPolicy (aspec_Sync spec) = ConflictPolicyAdopt \<longrightarrow> ap_AllowAdopt policy)
        \<and> (aspec_DeletionPolicy spec = DeletionPolicyDeleteManagedResources \<longrightarrow> ap_AllowDeleteManagedResources policy))"

lemma with_defaults_keeps:
  "app_Name (with_defaults repository app) = app_Name app"
  "app_Annotations (with_defaults repository app) = app_Annotations app"
  by (simp_all add: with_defaults_def Let_def)

lemma normalize_within:
  assumes "normalizeDiscoveredApplication Q repository configPath i app seen = Inr app'"
  shows "within_policy repository app'" "app_Name app' = app_Name app" "app_Name app' \<notin> set seen" "app_Name app' \<noteq> []"
    and "own_annotation key \<Longrightarrow> app_Annotations app' key = None"
  using assms
  by (auto simp: normalizeDiscoveredApplication_def Let_def within_policy_def checkApplicationPolicy_def with_defaults_keeps
      split: if_splits option.splits)

lemma normalize_apps_within:
  "normalize_apps Q repository configPath i apps seen = Inr found \<Longrightarrow> (app, path) \<in> set found \<Longrightarrow>
   within_policy repository app \<and> app_Name app \<notin> set seen \<and> (\<forall>key. own_annotation key \<longrightarrow> app_Annotations app key = None)"
proof (induction apps arbitrary: i seen found)
  case (Cons a apps)
  obtain a' rest where a': "normalizeDiscoveredApplication Q repository configPath i a seen = Inr a'"
    and rest: "normalize_apps Q repository configPath (Suc i) apps (app_Name a' # seen) = Inr rest" "found = (a', configPath) # rest"
    using Cons.prems(1) by (auto split: sum.splits)
  show ?case
    using Cons.IH [OF rest(1)] Cons.prems(2) rest(2) normalize_within [OF a'] by auto
qed simp

lemma discover_within:
  "discover R repository workspace paths seen = Inr found \<Longrightarrow> (app, path) \<in> set found \<Longrightarrow>
   within_policy repository app \<and> app_Name app \<notin> set seen \<and> (\<forall>key. own_annotation key \<longrightarrow> app_Annotations app key = None)"
proof (induction paths arbitrary: seen found)
  case (Cons p paths)
  then show ?case
    by (fastforce split: sum.splits option.splits dest: normalize_apps_within)
qed simp

text \<open>The requests that discovery makes of the API, in order.\<close>

datatype app_request = Put application | Patched application | Deleted application

text \<open>What \<open>CreateOrUpdate\<close>, \<open>Patch\<close> and \<open>Delete\<close> promise about the requests they make: a patch and a
  deletion are sent as given, and \<open>CreateOrUpdate\<close> sends nothing or one object, the result of the
  mutate function on an object of the given name.\<close>

definition store_laws :: "'w repo_lib \<Rightarrow> ('w \<Rightarrow> app_request list) \<Rightarrow> bool" where
  "store_laws R sent \<longleftrightarrow>
     (\<forall>namespace name f w w' e. rl_CreateOrUpdate R namespace name f w = (w', e) \<longrightarrow>
        sent w' = sent w \<or>
        (\<exists>a b. app_Namespace a = namespace \<and> app_Name a = name \<and> f a = Inr b \<and> sent w' = sent w @ [Put b]))
     \<and> (\<forall>a old w w' e. rl_Patch R a old w = (w', e) \<longrightarrow> sent w' = sent w @ [Patched a])
     \<and> (\<forall>a w w' e. rl_Delete R a w = (w', e) \<longrightarrow> sent w' = sent w @ [Deleted a])"

lemma store_lawsD:
  assumes "store_laws R sent"
  shows "rl_Patch R a old w = (w', e) \<Longrightarrow> sent w' = sent w @ [Patched a]"
    and "rl_Delete R a w = (w', e) \<Longrightarrow> sent w' = sent w @ [Deleted a]"
    and "rl_CreateOrUpdate R namespace name f w = (w', e) \<Longrightarrow> sent w' = sent w \<or>
      (\<exists>a b. app_Namespace a = namespace \<and> app_Name a = name \<and> f a = Inr b \<and> sent w' = sent w @ [Put b])"
  using assms unfolding store_laws_def by blast+

text \<open>An Application with the metadata of one that the API lists for the Repository's namespace and label.\<close>

definition labelled_here :: "'w repo_lib \<Rightarrow> repository \<Rightarrow> application \<Rightarrow> bool" where
  "labelled_here R repository a \<longleftrightarrow> (\<exists>w apps x.
     rl_ListApplications R (repo_Namespace repository) repositoryApplicationLabel (repo_Name repository) w = Inr apps
     \<and> x \<in> set apps \<and> app_Meta a = app_Meta x)"

definition harmless :: "'w repo_lib \<Rightarrow> repository \<Rightarrow> string list \<Rightarrow> app_request \<Rightarrow> bool" where
  "harmless R repository declared req \<longleftrightarrow>
     (case req of
        Put a \<Rightarrow> within_policy repository a \<and> app_Name a \<in> set declared
      | Patched a \<Rightarrow> labelled_here R repository a \<and> app_Name a \<notin> set declared
          \<and> aspec_DeletionPolicy (app_Spec a) = DeletionPolicyOrphan
      | Deleted a \<Rightarrow> labelled_here R repository a \<and> app_Name a \<notin> set declared \<and>
          (aspec_DeletionPolicy (app_Spec a) = DeletionPolicyDeleteManagedResources \<longrightarrow>
             ap_AllowDeleteManagedResources (repo_ApplicationPolicy (repo_Spec repository))))"

lemma mutate_within:
  assumes "within_policy repository desired" "app_Namespace a = app_Namespace desired" "app_Name a = app_Name desired"
    and "mutate R repository desired configPath a = Inr b"
  shows "within_policy repository b \<and> app_Name b = app_Name desired"
  using assms by (auto simp: mutate_def Let_def ensureDiscoveredApplicationMetadata_def within_policy_def split: option.splits if_splits)

lemma upsert_all_harmless:
  assumes "store_laws R sent"
  shows "upsert_all R repository apps w = (w', e) \<Longrightarrow> \<forall>(a, p) \<in> set apps. within_policy repository a \<and> app_Name a \<in> set declared \<Longrightarrow>
    \<exists>reqs. sent w' = sent w @ reqs \<and> list_all (harmless R repository declared) reqs"
proof (induction apps arbitrary: w)
  case (Cons ap apps)
  obtain a p where ap: "ap = (a, p)" by (cases ap)
  obtain w1 e1 where up: "upsertDiscoveredApplication R repository a p w = (w1, e1)" by fastforce
  have first: "\<exists>reqs. sent w1 = sent w @ reqs \<and> list_all (harmless R repository declared) reqs"
  proof -
    consider "sent w1 = sent w" | x b where "app_Namespace x = app_Namespace a" "app_Name x = app_Name a"
        "mutate R repository a p x = Inr b" "sent w1 = sent w @ [Put b]"
      using store_lawsD(3) [OF assms up [unfolded upsertDiscoveredApplication_def]] by blast
    then show ?thesis
    proof cases
      case 1
      then show ?thesis by (intro exI [of _ "[]"]) simp
    next
      case 2
      then have "harmless R repository declared (Put b)"
        using mutate_within [OF _ 2(1-3)] Cons.prems(2) ap by (auto simp: harmless_def)
      then show ?thesis
        using 2(4) by (intro exI [of _ "[Put b]"]) simp
    qed
  qed
  show ?case
  proof (cases e1)
    case None
    then obtain reqs' where "sent w' = sent w1 @ reqs'" "list_all (harmless R repository declared) reqs'"
      using Cons.IH [of w1] Cons.prems up ap by auto
    then show ?thesis
      using first by (metis append.assoc list_all_append)
  next
    case (Some err)
    then show ?thesis
      using Cons.prems(1) up ap first by auto
  qed
qed simp

lemma prune_loop_harmless:
  assumes "store_laws R sent"
  shows "prune_loop R repository declared apps w = (w', e) \<Longrightarrow> \<forall>a \<in> set apps. labelled_here R repository a \<Longrightarrow>
    \<exists>reqs. sent w' = sent w @ reqs \<and> list_all (harmless R repository declared) reqs"
proof (induction apps arbitrary: w)
  case (Cons app apps)
  show ?case
  proof (cases "app_Name app \<in> set declared")
    case True
    then show ?thesis
      using Cons by auto
  next
    case False
    define orphaning where "orphaning = (aspec_DeletionPolicy (app_Spec app) = DeletionPolicyDeleteManagedResources \<and>
      \<not> ap_AllowDeleteManagedResources (repo_ApplicationPolicy (repo_Spec repository)))"
    define orphaned where "orphaned = app\<lparr>app_Spec := (app_Spec app)\<lparr>aspec_DeletionPolicy := DeletionPolicyOrphan\<rparr>\<rparr>"
    have here: "labelled_here R repository app" "labelled_here R repository orphaned"
      using Cons.prems(2) by (simp_all add: labelled_here_def orphaned_def)
    obtain w1 patched where p: "(if orphaning then rl_Patch R orphaned app w else (w, None)) = (w1, patched)"
      by fastforce
    have s1: "sent w1 = sent w @ (if orphaning then [Patched orphaned] else [])"
      using store_lawsD(1) [OF assms, of orphaned app w w1 patched] p by (cases orphaning) auto
    have h1: "list_all (harmless R repository declared) (if orphaning then [Patched orphaned] else [])"
      using False here by (simp add: harmless_def orphaned_def [symmetric]) (simp add: orphaned_def)
    have unfolded: "prune_loop R repository declared (app # apps) w =
      (case ignore_not_found patched of
         Some err \<Rightarrow> (w1, Some err)
       | None \<Rightarrow> (case rl_Delete R (if orphaning then orphaned else app) w1 of
           (w, e) \<Rightarrow> (case ignore_not_found e of Some err \<Rightarrow> (w, Some err) | None \<Rightarrow> prune_loop R repository declared apps w)))"
      using False p unfolding orphaning_def orphaned_def by (simp add: Let_def del: if_split)
    show ?thesis
    proof (cases "ignore_not_found patched")
      case (Some err)
      then show ?thesis
        using Cons.prems(1) unfolded s1 h1 by auto
    next
      case None
      obtain w2 e2 where d: "rl_Delete R (if orphaning then orphaned else app) w1 = (w2, e2)"
        by fastforce
      have s2: "sent w2 = sent w1 @ [Deleted (if orphaning then orphaned else app)]"
        by (rule store_lawsD(2) [OF assms d])
      have h2: "harmless R repository declared (Deleted (if orphaning then orphaned else app))"
        using False here by (cases orphaning) (auto simp: harmless_def orphaning_def, simp_all add: orphaned_def)
      have more: "\<exists>reqs. sent w' = sent w2 @ reqs \<and> list_all (harmless R repository declared) reqs"
        using Cons.IH [of w2] Cons.prems unfolded None d by (cases "ignore_not_found e2") auto
      then obtain reqs where "sent w' = sent w2 @ reqs" "list_all (harmless R repository declared) reqs" by blast
      then show ?thesis
        using s1 h1 s2 h2
        by (intro exI [of _ "(if orphaning then [Patched orphaned] else []) @ Deleted (if orphaning then orphaned else app) # reqs"]) simp
    qed
  qed
qed simp

text \<open>C6. What a push to the repository can cause is bounded by the Repository's owner: every Application
  discovery writes stays in the Repository's namespace, reads from this Repository, runs as the
  pinned service account and switches on only what the policy allows; only Applications of that namespace with this
  Repository's label that no file declares are deleted, and with their workloads only where the policy allows that; and when any
  file is refused, nothing is written at all.\<close>

theorem discovery_bounded:
  assumes "store_laws R sent" and "reconcileDiscoveredApplications R repository resolved w = (w', e)"
  shows "(w' = w \<and> e \<noteq> None)
    \<or> (\<exists>paths desired reqs. configPaths (rl_Quote R) repository = Inr paths
        \<and> discover R repository (res_CacheDir resolved) paths [] = Inr desired
        \<and> sent w' = sent w @ reqs \<and> list_all (harmless R repository (map (app_Name \<circ> fst) desired)) reqs)"
proof (cases "\<exists>paths desired. configPaths (rl_Quote R) repository = Inr paths \<and> discover R repository (res_CacheDir resolved) paths [] = Inr desired")
  case False
  then show ?thesis
    using assms(2) by (auto simp: reconcileDiscoveredApplications_def split: sum.splits)
next
  case True
  then obtain paths desired where ok: "configPaths (rl_Quote R) repository = Inr paths"
    "discover R repository (res_CacheDir resolved) paths [] = Inr desired" by blast
  let ?declared = "map (app_Name \<circ> fst) desired"
  have "\<forall>(a, p) \<in> set desired. within_policy repository a \<and> app_Name a \<in> set ?declared"
    using discover_within [OF ok(2)] by force
  note puts = upsert_all_harmless [OF assms(1) _ this]
  obtain w1 e1 where up: "upsert_all R repository desired w = (w1, e1)" by fastforce
  obtain r1 where r1: "sent w1 = sent w @ r1" "list_all (harmless R repository ?declared) r1"
    using puts [OF up] by blast
  have pruned: "\<exists>r2. sent w2 = sent w1 @ r2 \<and> list_all (harmless R repository ?declared) r2"
    if "pruneRemovedDiscoveredApplications R repository ?declared w1 = (w2, e2)" for w2 e2
  proof (cases "rl_ListApplications R (repo_Namespace repository) repositoryApplicationLabel (repo_Name repository) w1")
    case (Inl err)
    then show ?thesis using that by (simp add: pruneRemovedDiscoveredApplications_def)
  next
    case (Inr apps)
    then have "\<forall>a \<in> set apps. labelled_here R repository a" by (auto simp: labelled_here_def)
    then show ?thesis
      using prune_loop_harmless [OF assms(1)] that Inr by (simp add: pruneRemovedDiscoveredApplications_def)
  qed
  have "\<exists>r2. sent w' = sent w1 @ r2 \<and> list_all (harmless R repository ?declared) r2"
    using assms(2) ok up pruned
    by (cases e1) (auto simp: reconcileDiscoveredApplications_def split: sum.splits prod.splits option.splits)
  then obtain r2 where "sent w' = sent w1 @ r2" "list_all (harmless R repository ?declared) r2"
    by blast
  then have "sent w' = sent w @ (r1 @ r2) \<and> list_all (harmless R repository ?declared) (r1 @ r2)"
    using r1 by simp
  then show ?thesis
    using ok by blast
qed

text \<open>A repository that declares one Application for a namespace of its own, and a store that keeps the
  requests.\<close>

definition shop_repository :: repository where
  "shop_repository = \<lparr>repo_Meta = zero_meta\<lparr>om_Name := ''deploy'', om_Namespace := ''shop''\<rparr>,
     repo_Spec = \<lparr>repo_Type = RepositoryTypeGit, repo_Git = None, repo_ApplicationConfigPaths = [], repo_ApplicationServiceAccountName = ''deployer'',
       repo_ApplicationPolicy = \<lparr>ap_AllowAutomatic = False, ap_AllowPrune = False, ap_AllowAdopt = False, ap_AllowDeleteManagedResources = False\<rparr>,
       repo_PollInterval = None, repo_Webhook = None, repo_ImageUpdate = None\<rparr>,
     repo_Status = \<lparr>repostatus_State = RepositoryStateNone, repostatus_ObservedRevision = [], repostatus_LastFetchedAt = None, repostatus_Conditions = []\<rparr>\<rparr>"

definition declared_app :: application where
  "declared_app = zero_application\<lparr>app_Meta := zero_meta\<lparr>om_Name := ''web''\<rparr>,
     app_Spec := (app_Spec zero_application)\<lparr>aspec_Source := (aspec_Source (app_Spec zero_application))\<lparr>
       src_Render := \<lparr>render_Type = RenderTypeYAML, render_Helm = None\<rparr>\<rparr>\<rparr>\<rparr>"

definition fresh_app :: "string \<Rightarrow> string \<Rightarrow> application" where
  "fresh_app namespace name = zero_application\<lparr>app_Meta := zero_meta\<lparr>om_Name := name, om_Namespace := namespace\<rparr>\<rparr>"

definition keeping :: "app_request list repo_lib" where
  "keeping = \<lparr>rl_EvalSymlinks = Inr, rl_ReadFile = Inr, rl_DecodeMap = (\<lambda>_. Inr []), rl_DecodeEnvelope = (\<lambda>_. Inr []),
     rl_DecodeApplication = (\<lambda>_. Inr (''Application'', declared_app)),
     rl_CreateOrUpdate = (\<lambda>namespace name f w.
       case f (fresh_app namespace name) of
         Inl err \<Rightarrow> (w, Some err)
       | Inr b \<Rightarrow> (w @ [Put b], None)),
     rl_SetControllerReference = (\<lambda>_ _. None), rl_ListApplications = (\<lambda>_ _ _ _. Inr []),
     rl_Patch = (\<lambda>a _ w. (w @ [Patched a], None)), rl_Delete = (\<lambda>a w. (w @ [Deleted a], None)),
     rl_GetRepository = (\<lambda>_ _ _. Inr shop_repository), rl_UpdateStatus = (\<lambda>_ w. (w, None)), rl_Event = (\<lambda>_ _ w. w),
     rl_ListPolicies = (\<lambda>_ _. Inr []), rl_Resolve = (\<lambda>_ _. Inl (SourceError [] [])), rl_ImageUpdater = None, rl_Quote = (\<lambda>s. s)\<rparr>"

lemma keeping_laws: "store_laws keeping (\<lambda>w. w)"
proof -
  have "app_Namespace (fresh_app namespace name) = namespace" "app_Name (fresh_app namespace name) = name" for name namespace
    by (simp_all add: fresh_app_def)
  then show ?thesis
    unfolding store_laws_def keeping_def by (simp split: sum.splits) blast
qed

definition is_put :: "app_request \<Rightarrow> bool" where
  "is_put req = (case req of Put _ \<Rightarrow> True | _ \<Rightarrow> False)"

definition discovered_requests :: "app_request list" where
  "discovered_requests = fst (reconcileDiscoveredApplications keeping shop_repository \<lparr>res_Revision = ''main'', res_CacheDir = ''/cache/deploy''\<rparr> [])"

lemma discovered_requests_computed: "length discovered_requests = 1 \<and> list_all is_put discovered_requests"
  by code_simp

theorem discovery_bounded_witness:
  "length discovered_requests = 1 \<and>
   list_all (\<lambda>r. case r of Put b \<Rightarrow> within_policy shop_repository b | _ \<Rightarrow> False) discovered_requests"
proof -
  have nonempty: "discovered_requests \<noteq> []"
    using discovered_requests_computed by auto
  obtain e where e: "reconcileDiscoveredApplications keeping shop_repository \<lparr>res_Revision = ''main'', res_CacheDir = ''/cache/deploy''\<rparr> []
      = (discovered_requests, e)"
    unfolding discovered_requests_def by (metis prod.collapse)
  obtain declared where "list_all (harmless keeping shop_repository declared) discovered_requests"
    using discovery_bounded [OF keeping_laws e] nonempty by auto
  then show ?thesis
    using discovered_requests_computed
    by (auto simp: list_all_iff harmless_def is_put_def split: app_request.splits)
qed

end
