(* ===== verification/Receiver.thy ===== *)
theory Receiver
  imports Repositories Complex_Main "HOL-Library.AList"
begin

text \<open>
  The webhook receiver, \<open>internal/receiver/receiver.go\<close>: it turns an authenticated push notification
  into a request to reconcile a Repository or to scan an ImagePolicy. The rate limiter, HMAC-SHA256,
  the JSON and URL parsers and the API are parameters, in the record \<open>receiver_lib\<close>. The state is the
  two maps of limiters, which the receiver's mutex guards; a handler is one step on them.

  The theorems: strangers cannot learn which objects exist, use up an object's budget or change
  anything; what is accepted was authenticated with the object's own token and names its own
  repository; the map of peers never grows beyond its bound.
\<close>

record ('l, 'w) receiver_lib =
  lim_New :: "rat \<Rightarrow> int \<Rightarrow> 'l"
  lim_Allow :: "'l \<Rightarrow> time \<Rightarrow> 'l \<times> bool"
  hmac_hex :: "string \<Rightarrow> string \<Rightarrow> string" \<comment> \<open>key and message\<close>
  js_Payload :: "string \<Rightarrow> string list option" \<comment> \<open>the six URLs of a push, in the order they are compared\<close>
  url_Split :: "string \<Rightarrow> (string \<times> string) option" \<comment> \<open>host name and path\<close>
  net_SplitHostPort :: "string \<Rightarrow> string option" \<comment> \<open>the host\<close>
  rv_now :: "'w \<Rightarrow> time"
  rv_GetRepository :: "string \<Rightarrow> string \<Rightarrow> 'w \<Rightarrow> api_error + repository"
  rv_GetPolicy :: "string \<Rightarrow> string \<Rightarrow> 'w \<Rightarrow> api_error + image_policy"
  rv_GetSecret :: "string \<Rightarrow> string \<Rightarrow> 'w \<Rightarrow> api_error + secret"
  rv_PatchRepository :: "repository \<Rightarrow> repository \<Rightarrow> 'w \<Rightarrow> 'w \<times> api_error option"
  rv_PatchPolicy :: "image_policy \<Rightarrow> image_policy \<Rightarrow> 'w \<Rightarrow> 'w \<times> api_error option"
  rv_FormatNano :: "time \<Rightarrow> string"

record 'l receiver =
  rc_Limit :: rat
  rc_Burst :: int
  rc_PeerLimit :: rat
  rc_PeerBurst :: int
  rc_limiters :: "(string \<times> 'l) list"
  rc_peers :: "(string \<times> 'l) list"

datatype body_error = MaxBytesError | ReadError

record http_request =
  rq_RemoteAddr :: string
  rq_Header :: "string \<Rightarrow> string" \<comment> \<open>empty where the header is absent\<close>
  rq_Body :: "body_error + string"
  rq_namespace :: string
  rq_name :: string

type_synonym reply = "int \<times> string"

definition RequestedAtAnnotation :: string where
  "RequestedAtAnnotation = ''sync.kuvryn.io/reconcile-requested-at''"

definition maxPeers :: nat where
  "maxPeers = 10000"

subsection \<open>Rate limits\<close>

definition take_token :: "('l, 'w) receiver_lib \<Rightarrow> (string \<times> 'l) list \<Rightarrow> string \<Rightarrow> rat \<Rightarrow> int \<Rightarrow> time \<Rightarrow> (string \<times> 'l) list \<times> bool" where
  "take_token V limiters key limit burst now =
     (let limiter = (case map_of limiters key of Some l \<Rightarrow> l | None \<Rightarrow> lim_New V limit burst);
          (limiter, ok) = lim_Allow V limiter now
      in (AList.update key limiter limiters, ok))"

definition allowObject :: "('l, 'w) receiver_lib \<Rightarrow> string \<Rightarrow> time \<Rightarrow> 'l receiver \<Rightarrow> 'l receiver \<times> bool" where
  "allowObject V key now r =
     (let (limit, burst) = (if rc_Limit r = 0 then (1, 10) else (rc_Limit r, rc_Burst r));
          (limiters, ok) = take_token V (rc_limiters r) key limit burst now
      in (r\<lparr>rc_limiters := limiters\<rparr>, ok))"

definition allowPeer :: "('l, 'w) receiver_lib \<Rightarrow> http_request \<Rightarrow> time \<Rightarrow> 'l receiver \<Rightarrow> 'l receiver \<times> bool" where
  "allowPeer V req now r =
     (let peer = (case net_SplitHostPort V (rq_RemoteAddr req) of Some host \<Rightarrow> host | None \<Rightarrow> rq_RemoteAddr req);
          (limit, burst) = (if rc_PeerLimit r = 0 then (5, 50) else (rc_PeerLimit r, rc_PeerBurst r));
          peers = (if length (rc_peers r) \<ge> maxPeers then [] else rc_peers r);
          (peers, ok) = take_token V peers peer limit burst now
      in (r\<lparr>rc_peers := peers\<rparr>, ok))"

subsection \<open>Authentication\<close>

definition authentic :: "('l, 'w) receiver_lib \<Rightarrow> http_request \<Rightarrow> string \<Rightarrow> string \<Rightarrow> bool" where
  "authentic V req body token =
     (let signature = rq_Header req ''X-Hub-Signature-256''; gitlab = rq_Header req ''X-Gitlab-Token'' in
      if signature \<noteq> [] then signature = ''sha256='' @ hmac_hex V token body
      else if gitlab \<noteq> [] then gitlab = token
      else case CutPrefix (rq_Header req ''Authorization'') ''Bearer '' of
             Some bearer \<Rightarrow> bearer \<noteq> [] \<and> bearer = token
           | None \<Rightarrow> False)"

text \<open>\<open>token\<close>: the object and the token its webhook names, empty where anything is missing.\<close>

definition webhook_token :: "('l, 'w) receiver_lib \<Rightarrow> (string \<Rightarrow> string \<Rightarrow> 'w \<Rightarrow> api_error + 'o) \<Rightarrow> ('o \<Rightarrow> string) \<Rightarrow> string \<Rightarrow> string \<Rightarrow> 'w
    \<Rightarrow> api_error + (string \<times> 'o option)" where
  "webhook_token V get secretName namespace name w =
     (case get namespace name w of
        Inl err \<Rightarrow> if IsNotFound err then Inr ([], None) else Inl err
      | Inr obj \<Rightarrow>
          if secretName obj = [] then Inr ([], Some obj)
          else
            (case rv_GetSecret V namespace (secretName obj) w of
               Inl err \<Rightarrow> if IsNotFound err then Inr ([], Some obj) else Inl err
             | Inr sec \<Rightarrow> Inr (get_str (sec_Data sec) ''token'', Some obj)))"

definition rv_admit :: "('l, 'w) receiver_lib \<Rightarrow> string \<Rightarrow> (string \<Rightarrow> string \<Rightarrow> 'w \<Rightarrow> api_error + 'o) \<Rightarrow> ('o \<Rightarrow> string) \<Rightarrow> http_request
    \<Rightarrow> 'w \<Rightarrow> 'l receiver \<Rightarrow> 'l receiver \<times> (reply + string \<times> 'o option)" where
  "rv_admit V kind get secretName req w r =
     (case allowPeer V req (rv_now V w) r of
        (r, False) \<Rightarrow> (r, Inl (429, ''rate_limited''))
      | (r, True) \<Rightarrow>
          (case rq_Body req of
             Inl MaxBytesError \<Rightarrow> (r, Inl (413, ''too_large''))
           | Inl ReadError \<Rightarrow> (r, Inl (400, ''bad_request''))
           | Inr body \<Rightarrow>
               (case webhook_token V get secretName (rq_namespace req) (rq_name req) w of
                  Inl err \<Rightarrow> (r, Inl (500, ''error''))
                | Inr (token, obj) \<Rightarrow>
                    if token = [] \<or> \<not> authentic V req body token then (r, Inl (401, ''unauthorized''))
                    else
                      (case allowObject V (kind @ ''/'' @ rq_namespace req @ ''/'' @ rq_name req) (rv_now V w) r of
                         (r, False) \<Rightarrow> (r, Inl (429, ''rate_limited''))
                       | (r, True) \<Rightarrow> (r, Inr (body, obj))))))"

subsection \<open>Push payloads\<close>

fun replace_first :: "char \<Rightarrow> char \<Rightarrow> string \<Rightarrow> string" where
  "replace_first a b [] = []"
| "replace_first a b (c # s) = (if c = a then b # s else c # replace_first a b s)"

definition trim_slashes :: "string \<Rightarrow> string" where
  "trim_slashes s = List.rev (dropWhile (\<lambda>c. c = slash) (List.rev (dropWhile (\<lambda>c. c = slash) s)))"

definition rv_normalize :: "('l, 'w) receiver_lib \<Rightarrow> string \<Rightarrow> string" where
  "rv_normalize V raw =
     (let raw = TrimSpace raw;
          raw = (if \<not> Contains raw ''://'' \<and> Contains raw ''@'' \<and> Contains raw '':''
                 then ''ssh://'' @ replace_first CHR '':'' slash raw else raw)
      in case url_Split V raw of
           None \<Rightarrow> raw
         | Some (host, path) \<Rightarrow> ToLower host @ ''/'' @ TrimSuffix (trim_slashes path) ''.git'')"

definition matches :: "('l, 'w) receiver_lib \<Rightarrow> string \<Rightarrow> string \<Rightarrow> bool" where
  "matches V body repositoryURL =
     (case js_Payload V body of
        None \<Rightarrow> False
      | Some urls \<Rightarrow> list_ex (\<lambda>candidate. candidate \<noteq> [] \<and> rv_normalize V candidate = rv_normalize V repositoryURL) urls)"

subsection \<open>Handlers\<close>

definition request_annotations :: "('l, 'w) receiver_lib \<Rightarrow> 'w \<Rightarrow> object_meta \<Rightarrow> object_meta" where
  "request_annotations V w m = m\<lparr>om_Annotations := (om_Annotations m)(RequestedAtAnnotation \<mapsto> rv_FormatNano V (rv_now V w))\<rparr>"

definition requestReconcile :: "('l, 'w) receiver_lib \<Rightarrow> repository \<Rightarrow> 'w \<Rightarrow> 'w \<times> api_error option" where
  "requestReconcile V repository w = rv_PatchRepository V (repository\<lparr>repo_Meta := request_annotations V w (repo_Meta repository)\<rparr>) repository w"

definition requestScan :: "('l, 'w) receiver_lib \<Rightarrow> image_policy \<Rightarrow> 'w \<Rightarrow> 'w \<times> api_error option" where
  "requestScan V policy w = rv_PatchPolicy V (policy\<lparr>ip_Meta := request_annotations V w (ip_Meta policy)\<rparr>) policy w"

definition repository_secret :: "repository \<Rightarrow> string" where
  "repository_secret repository =
     (case (repo_Webhook (repo_Spec repository), repo_Git (repo_Spec repository)) of
        (Some secretRef, Some _) \<Rightarrow> secretRef
      | _ \<Rightarrow> [])"

definition policy_secret :: "image_policy \<Rightarrow> string" where
  "policy_secret policy = (case ips_Webhook (ip_Spec policy) of Some secretRef \<Rightarrow> secretRef | None \<Rightarrow> [])"

definition push_event :: "string \<Rightarrow> bool" where
  "push_event ev = (ev \<in> set [''push'', ''Push Hook'', ''Tag Push Hook''])"

text \<open>\<open>admit\<close> succeeds only with an object that has a Git source (\<open>rv_admit_authentic\<close>), so the branches
  without one are never taken.\<close>

definition receive :: "('l, 'w) receiver_lib \<Rightarrow> http_request \<Rightarrow> 'w \<Rightarrow> 'l receiver \<Rightarrow> 'w \<times> 'l receiver \<times> reply" where
  "receive V req w r =
     (case rv_admit V ''repository'' (rv_GetRepository V) repository_secret req w r of
        (r, Inl answer) \<Rightarrow> (w, r, answer)
      | (r, Inr (body, None)) \<Rightarrow> (w, r, 500, ''error'')
      | (r, Inr (body, Some repository)) \<Rightarrow>
          (let ev = rq_Header req ''X-GitHub-Event'' @ rq_Header req ''X-Gitlab-Event'' in
           if ev = ''ping'' then (w, r, 200, ''ping'')
           else if \<not> push_event ev then (w, r, 202, ''ignored'')
           else
             (case repo_Git (repo_Spec repository) of
                None \<Rightarrow> (w, r, 500, ''error'')
              | Some git \<Rightarrow>
                  if \<not> matches V body (git_URL git) then (w, r, 400, ''repository_mismatch'')
                  else
                    (case requestReconcile V repository w of
                       (w, Some err) \<Rightarrow> (w, r, 500, ''error'')
                     | (w, None) \<Rightarrow> (w, r, 202, ''accepted'')))))"

definition receiveImage :: "('l, 'w) receiver_lib \<Rightarrow> http_request \<Rightarrow> 'w \<Rightarrow> 'l receiver \<Rightarrow> 'w \<times> 'l receiver \<times> reply" where
  "receiveImage V req w r =
     (case rv_admit V ''imagepolicy'' (rv_GetPolicy V) policy_secret req w r of
        (r, Inl answer) \<Rightarrow> (w, r, answer)
      | (r, Inr (body, None)) \<Rightarrow> (w, r, 500, ''error'')
      | (r, Inr (body, Some policy)) \<Rightarrow>
          (case requestScan V policy w of
             (w, Some err) \<Rightarrow> (w, r, 500, ''error'')
           | (w, None) \<Rightarrow> (w, r, 202, ''accepted'')))"

subsection \<open>Invariants of the limiters\<close>

lemma take_token_length: "length (fst (take_token V limiters key limit burst now)) \<le> Suc (length limiters)"
proof -
  have "length (AList.update key l limiters) \<le> Suc (length limiters)" for l
    by (induction limiters) auto
  then show ?thesis
    by (simp add: take_token_def Let_def split: prod.splits)
qed

lemma allowPeer_fields: "fst (allowPeer V req now r) = r\<lparr>rc_peers := rc_peers (fst (allowPeer V req now r))\<rparr>"
  by (simp add: allowPeer_def Let_def split: prod.splits)

lemma allowPeer_bound: "length (rc_peers (fst (allowPeer V req now r))) \<le> maxPeers"
proof -
  define peers where "peers = (if length (rc_peers r) \<ge> maxPeers then [] else rc_peers r)"
  have "length peers < maxPeers"
    by (simp add: peers_def maxPeers_def)
  moreover have "\<exists>peer limit burst. rc_peers (fst (allowPeer V req now r)) = fst (take_token V peers peer limit burst now)"
    by (auto simp: allowPeer_def Let_def peers_def split: prod.splits) (metis fst_conv)+
  ultimately show ?thesis
    using take_token_length [of V peers] by (metis Suc_leI le_trans)
qed

lemma rv_admit_peers: "rc_peers (fst (rv_admit V kind get secretName req w r)) = rc_peers (fst (allowPeer V req (rv_now V w) r))"
  by (auto simp: rv_admit_def allowObject_def Let_def split: prod.splits bool.splits sum.splits body_error.splits if_splits)

text \<open>Every reply of \<open>admit\<close> before authentication, by the peer's own limit and the body alone.\<close>

definition stranger_reply :: "('l, 'w) receiver_lib \<Rightarrow> http_request \<Rightarrow> time \<Rightarrow> 'l receiver \<Rightarrow> reply" where
  "stranger_reply V req now r =
     (if \<not> snd (allowPeer V req now r) then (429, ''rate_limited'')
      else case rq_Body req of
             Inl MaxBytesError \<Rightarrow> (413, ''too_large'')
           | Inl ReadError \<Rightarrow> (400, ''bad_request'')
           | Inr _ \<Rightarrow> (401, ''unauthorized''))"

lemma rv_admit_stranger:
  assumes "webhook_token V get secretName (rq_namespace req) (rq_name req) w = Inr (token, obj)"
    and "\<And>body. rq_Body req = Inr body \<Longrightarrow> token = [] \<or> \<not> authentic V req body token"
  shows "rv_admit V kind get secretName req w r =
    (fst (allowPeer V req (rv_now V w) r), Inl (stranger_reply V req (rv_now V w) r))"
  using assms
  by (auto simp: rv_admit_def stranger_reply_def split: prod.splits bool.splits sum.splits body_error.splits)

lemma rv_admit_authentic:
  assumes "rv_admit V kind get secretName req w r = (r', Inr (body, obj))"
  shows "\<exists>o' token. obj = Some o' \<and> get (rq_namespace req) (rq_name req) w = Inr o' \<and> secretName o' \<noteq> []
    \<and> (\<exists>sec. rv_GetSecret V (rq_namespace req) (secretName o') w = Inr sec \<and> token = get_str (sec_Data sec) ''token'')
    \<and> token \<noteq> [] \<and> rq_Body req = Inr body \<and> authentic V req body token"
  using assms
  by (auto simp: rv_admit_def webhook_token_def split: prod.splits bool.splits sum.splits body_error.splits if_splits)

subsection \<open>Properties\<close>

text \<open>C11. Strangers learn and change nothing: a request that the named object's token does not
  authenticate, because the object, its webhook, its Secret or its token is missing or because the
  signature is wrong, is answered the same in every case, from the caller's own limit and the body
  alone; the cluster and every object's budget stay as they are.\<close>

theorem strangers_learn_nothing:
  assumes "webhook_token V (rv_GetRepository V) repository_secret (rq_namespace req) (rq_name req) w = Inr (token, obj)"
    and "\<And>body. rq_Body req = Inr body \<Longrightarrow> token = [] \<or> \<not> authentic V req body token"
  shows "receive V req w r = (w, fst (allowPeer V req (rv_now V w) r), stranger_reply V req (rv_now V w) r)
    \<and> rc_limiters (fst (allowPeer V req (rv_now V w) r)) = rc_limiters r"
proof -
  have "rc_limiters (fst (allowPeer V req (rv_now V w) r)) = rc_limiters r"
    by (subst allowPeer_fields) simp
  then show ?thesis
    using rv_admit_stranger [OF assms] by (simp add: receive_def)
qed

text \<open>C20. Only an authenticated push of the Repository's own repository is acted on: a reply that a
  fetch was accepted, or any change to the cluster, means the body was authenticated with the token
  of the Repository's own webhook Secret, the event is a push, and the payload names the
  Repository's URL.\<close>

theorem accepted_push_authentic:
  assumes "receive V req w r = (w', r', answer)" and "w' \<noteq> w \<or> answer = (202, ''accepted'')"
  shows "\<exists>repository sec git body. rv_GetRepository V (rq_namespace req) (rq_name req) w = Inr repository
    \<and> rv_GetSecret V (rq_namespace req) (repository_secret repository) w = Inr sec
    \<and> rq_Body req = Inr body \<and> get_str (sec_Data sec) ''token'' \<noteq> []
    \<and> authentic V req body (get_str (sec_Data sec) ''token'')
    \<and> push_event (rq_Header req ''X-GitHub-Event'' @ rq_Header req ''X-Gitlab-Event'')
    \<and> repo_Git (repo_Spec repository) = Some git \<and> matches V body (git_URL git)
    \<and> w' = fst (requestReconcile V repository w)"
proof -
  obtain r1 body obj where adm: "rv_admit V ''repository'' (rv_GetRepository V) repository_secret req w r = (r1, Inr (body, obj))"
  proof (cases "rv_admit V ''repository'' (rv_GetRepository V) repository_secret req w r")
    case (Pair r1 x)
    then show ?thesis
      using that assms by (cases x) (auto simp: receive_def rv_admit_def split: prod.splits bool.splits sum.splits body_error.splits if_splits)
  qed
  obtain repository sec where auth: "obj = Some repository" "rv_GetRepository V (rq_namespace req) (rq_name req) w = Inr repository"
    "rv_GetSecret V (rq_namespace req) (repository_secret repository) w = Inr sec" "rq_Body req = Inr body"
    "get_str (sec_Data sec) ''token'' \<noteq> []" "authentic V req body (get_str (sec_Data sec) ''token'')"
    using rv_admit_authentic [OF adm] by blast
  obtain git where "repo_Git (repo_Spec repository) = Some git" "matches V body (git_URL git)"
    "push_event (rq_Header req ''X-GitHub-Event'' @ rq_Header req ''X-Gitlab-Event'')"
    "w' = fst (requestReconcile V repository w)"
    using assms adm auth(1) by (auto simp: receive_def Let_def split: if_splits option.splits prod.splits)
  then show ?thesis
    using auth by blast
qed

text \<open>The limiters of peers stay bounded: whatever the requests, their map never has more than
  \<open>maxPeers\<close> entries.\<close>

theorem peers_bounded:
  "length (rc_peers (fst (snd (receive V req w r)))) \<le> maxPeers
   \<and> length (rc_peers (fst (snd (receiveImage V req w r)))) \<le> maxPeers"
proof -
  have "rc_peers (fst (snd (receive V req w r))) = rc_peers (fst (allowPeer V req (rv_now V w) r))"
    using rv_admit_peers [of V "''repository''" "rv_GetRepository V" repository_secret req w r]
    by (auto simp: receive_def Let_def split: prod.splits sum.splits option.splits)
  moreover have "rc_peers (fst (snd (receiveImage V req w r))) = rc_peers (fst (allowPeer V req (rv_now V w) r))"
    using rv_admit_peers [of V "''imagepolicy''" "rv_GetPolicy V" policy_secret req w r]
    by (auto simp: receiveImage_def split: prod.splits sum.splits option.splits)
  ultimately show ?thesis
    using allowPeer_bound by simp
qed

text \<open>A receiver in front of one Repository, and two requests to it.\<close>

definition hooked_repository :: repository where
  "hooked_repository = shop_repository\<lparr>repo_Spec := (repo_Spec shop_repository)\<lparr>repo_Webhook := Some ''hook'',
     repo_Git := Some \<lparr>git_URL = ''https://git.example/shop.git'', git_Revision = ''main'', git_AuthSecretRef = None\<rparr>\<rparr>\<rparr>"

definition hook_lib :: "(unit, nat) receiver_lib" where
  "hook_lib = \<lparr>lim_New = (\<lambda>_ _. ()), lim_Allow = (\<lambda>l _. (l, True)), hmac_hex = (\<lambda>key msg. key @ msg),
     js_Payload = (\<lambda>body. Some [body]), url_Split = (\<lambda>u. Some (u, [])), net_SplitHostPort = Some, rv_now = (\<lambda>_. 0),
     rv_GetRepository = (\<lambda>_ _ _. Inr hooked_repository), rv_GetPolicy = (\<lambda>_ _ _. Inl (Other_Error [])),
     rv_GetSecret = (\<lambda>_ _ _. Inr \<lparr>sec_Labels = Map.empty, sec_Data = [''token'' \<mapsto> ''s3cret'']\<rparr>),
     rv_PatchRepository = (\<lambda>_ _ w. (Suc w, None)), rv_PatchPolicy = (\<lambda>_ _ w. (w, None)), rv_FormatNano = itoa\<rparr>"

definition idle_receiver :: "unit receiver" where
  "idle_receiver = \<lparr>rc_Limit = 0, rc_Burst = 0, rc_PeerLimit = 0, rc_PeerBurst = 0, rc_limiters = [], rc_peers = []\<rparr>"

definition push_with :: "string \<Rightarrow> http_request" where
  "push_with token = \<lparr>rq_RemoteAddr = ''10.0.0.1'',
     rq_Header = (\<lambda>h. if h = ''X-Gitlab-Token'' then token else if h = ''X-Gitlab-Event'' then ''Push Hook'' else []),
     rq_Body = Inr ''https://git.example/shop.git'', rq_namespace = ''shop'', rq_name = ''deploy''\<rparr>"

lemma hook_token:
  "webhook_token hook_lib (rv_GetRepository hook_lib) repository_secret ''shop'' ''deploy'' 0 = Inr (''s3cret'', Some hooked_repository)"
  by (simp add: webhook_token_def hook_lib_def repository_secret_def hooked_repository_def get_str_def)

theorem strangers_learn_nothing_witness:
  "snd (snd (receive hook_lib (push_with ''guess'') 0 idle_receiver)) = stranger_reply hook_lib (push_with ''guess'') 0 idle_receiver
   \<and> fst (receive hook_lib (push_with ''guess'') 0 idle_receiver) = 0"
proof -
  have "\<not> authentic hook_lib (push_with ''guess'') body ''s3cret''" for body
    by (simp add: authentic_def push_with_def)
  then show ?thesis
    using strangers_learn_nothing [of hook_lib "push_with ''guess''" 0 "''s3cret''" "Some hooked_repository" idle_receiver] hook_token
    by (simp add: push_with_def [of "''guess''"]) (simp add: hook_lib_def)
qed

theorem accepted_push_authentic_witness:
  "fst (receive hook_lib (push_with ''s3cret'') 0 idle_receiver) = 1
   \<and> authentic hook_lib (push_with ''s3cret'') ''https://git.example/shop.git'' ''s3cret''"
proof -
  have changed: "fst (receive hook_lib (push_with ''s3cret'') 0 idle_receiver) = 1"
    by code_simp
  obtain w' r' answer where rc: "receive hook_lib (push_with ''s3cret'') 0 idle_receiver = (w', r', answer)"
    using prod_cases3 by blast
  have "w' \<noteq> 0"
    using changed rc by simp
  then show ?thesis
    using accepted_push_authentic [OF rc] changed
    by (auto simp: hook_lib_def push_with_def [of "''s3cret''"] get_str_def)
qed

end
