(* ===== verification/Watches.thy ===== *)
theory Watches
  imports Applier
begin

text \<open>
  The drift watches of \<open>internal/controller/application_watches.go\<close>: \<open>newDriftWatches\<close>, \<open>ensure\<close>,
  \<open>ensureKind\<close> and \<open>register\<close>. Several reconcile workers call \<open>ensure\<close> at once, so the model is a step
  relation. A step is one critical section of the mutex, one call of \<open>register\<close>, which runs without
  it, or one arm of the \<open>select\<close>; a worker is where it stands in \<open>ensure\<close>. Channels are numbered in the
  order they are made. The API's answers come from the world, which may change between any two steps.

  The theorems are invariants of all interleavings: no kind is watched twice, no worker waits for a
  channel that nobody will close, and \<open>ensure\<close> reports success only for kinds that are watched.
\<close>

subsection \<open>State\<close>

type_synonym group_kind = "string \<times> string"

definition GroupKind :: "gvk \<Rightarrow> group_kind" where
  "GroupKind k = (gvk_Group k, gvk_Kind k)"

record drift_watches =
  dw_watched :: "group_kind set"
  dw_denied :: "group_kind \<rightharpoonup> time"
  dw_pending :: "group_kind \<rightharpoonup> nat"

record 'w watch_api =
  wa_now :: "'w \<Rightarrow> time"
  wa_RESTMapping :: "group_kind \<Rightarrow> string \<Rightarrow> 'w \<Rightarrow> api_error + string" \<comment> \<open>the resource\<close>
  wa_CreateReview :: "string \<Rightarrow> string \<Rightarrow> string \<Rightarrow> 'w \<Rightarrow> api_error + bool" \<comment> \<open>group, resource, verb\<close>
  wa_Watch :: "gvk \<Rightarrow> 'w \<Rightarrow> 'w \<times> api_error option"

definition newDriftWatches :: drift_watches where
  "newDriftWatches = \<lparr>dw_watched = set (map GroupKind DefaultKinds), dw_denied = Map.empty, dw_pending = Map.empty\<rparr>"

subsection \<open>Sequential parts\<close>

text \<open>What the first critical section of \<open>ensureKind\<close> decides: an answer, a check of its own on a new
  channel, or waiting for the check another worker makes.\<close>

datatype head_outcome = Answer bool | Check | Wait nat

definition enter :: "int \<Rightarrow> time \<Rightarrow> group_kind \<Rightarrow> drift_watches \<Rightarrow> head_outcome" where
  "enter recheck now gk w =
     (if gk \<in> dw_watched w then Answer True
      else if (case dw_denied w gk of Some deniedAt \<Rightarrow> now - deniedAt < recheck | None \<Rightarrow> False) then Answer False
      else case dw_pending w gk of
             None \<Rightarrow> Check
           | Some inFlight \<Rightarrow> Wait inFlight)"

fun allowed_verbs :: "'w watch_api \<Rightarrow> string \<Rightarrow> string \<Rightarrow> string list \<Rightarrow> 'w \<Rightarrow> bool" where
  "allowed_verbs W grp res [] w = True"
| "allowed_verbs W grp res (verb # verbs) w =
     (case wa_CreateReview W grp res verb w of
        Inl err \<Rightarrow> False
      | Inr ok \<Rightarrow> if \<not> ok then False else allowed_verbs W grp res verbs w)"

definition register :: "'w watch_api \<Rightarrow> gvk \<Rightarrow> 'w \<Rightarrow> 'w \<times> bool" where
  "register W k w =
     (case wa_RESTMapping W (GroupKind k) (gvk_Version k) w of
        Inl err \<Rightarrow> (w, False)
      | Inr res \<Rightarrow>
          if \<not> allowed_verbs W (gvk_Group k) res [''list'', ''watch''] w then (w, False)
          else case wa_Watch W k w of
                 (w, Some err) \<Rightarrow> (w, False)
               | (w, None) \<Rightarrow> (w, True))"

text \<open>The second critical section, which records the outcome of a check.\<close>

definition publish :: "time \<Rightarrow> group_kind \<Rightarrow> bool \<Rightarrow> drift_watches \<Rightarrow> drift_watches" where
  "publish now gk watched w =
     (let w = (if watched then w\<lparr>dw_denied := (dw_denied w)(gk := None), dw_watched := insert gk (dw_watched w)\<rparr>
               else w\<lparr>dw_denied := (dw_denied w)(gk \<mapsto> now)\<rparr>)
      in w\<lparr>dw_pending := (dw_pending w)(gk := None)\<rparr>)"

subsection \<open>Interleaved workers\<close>

datatype position = Head | Checking nat | Checked nat bool | Waiting nat

record worker =
  wk_asked :: "gvk list" \<comment> \<open>the kinds \<open>ensure\<close> has gone through\<close>
  wk_todo :: "gvk list" \<comment> \<open>the kinds left, the current one first\<close>
  wk_all :: bool
  wk_pos :: position

record 'w watching =
  ws_shared :: drift_watches
  ws_closed :: "nat set"
  ws_channels :: nat \<comment> \<open>how many channels were made\<close>
  ws_workers :: "nat \<rightharpoonup> worker"
  ws_started :: "group_kind list" \<comment> \<open>the watches \<open>register\<close> started, newest first\<close>
  ws_world :: 'w

definition ensure :: "gvk list \<Rightarrow> worker" where
  "ensure kinds = \<lparr>wk_asked = [], wk_todo = kinds, wk_all = True, wk_pos = Head\<rparr>"

definition answer :: "bool \<Rightarrow> worker \<Rightarrow> worker" where
  "answer watched v = v\<lparr>wk_asked := wk_asked v @ [hd (wk_todo v)], wk_todo := tl (wk_todo v),
     wk_all := (wk_all v \<and> watched), wk_pos := Head\<rparr>"

definition move :: "nat \<Rightarrow> worker \<Rightarrow> 'w watching \<Rightarrow> 'w watching" where
  "move i v s = s\<lparr>ws_workers := (ws_workers s)(i \<mapsto> v)\<rparr>"

inductive watch_step :: "'w watch_api \<Rightarrow> int \<Rightarrow> 'w watching \<Rightarrow> 'w watching \<Rightarrow> bool" for W recheck where
  call: "ws_workers s i = None \<Longrightarrow> watch_step W recheck s (move i (ensure kinds) s)"
| answered: "\<lbrakk>ws_workers s i = Some v; wk_pos v = Head; wk_todo v = k # ks;
     enter recheck (wa_now W (ws_world s)) (GroupKind k) (ws_shared s) = Answer b\<rbrakk>
   \<Longrightarrow> watch_step W recheck s (move i (answer b v) s)"
| check: "\<lbrakk>ws_workers s i = Some v; wk_pos v = Head; wk_todo v = k # ks;
     enter recheck (wa_now W (ws_world s)) (GroupKind k) (ws_shared s) = Check\<rbrakk>
   \<Longrightarrow> watch_step W recheck s (move i (v\<lparr>wk_pos := Checking (ws_channels s)\<rparr>)
        (s\<lparr>ws_channels := Suc (ws_channels s),
           ws_shared := (ws_shared s)\<lparr>dw_pending := (dw_pending (ws_shared s))(GroupKind k \<mapsto> ws_channels s)\<rparr>\<rparr>))"
| join: "\<lbrakk>ws_workers s i = Some v; wk_pos v = Head; wk_todo v = k # ks;
     enter recheck (wa_now W (ws_world s)) (GroupKind k) (ws_shared s) = Wait inFlight\<rbrakk>
   \<Longrightarrow> watch_step W recheck s (move i (v\<lparr>wk_pos := Waiting inFlight\<rparr>) s)"
| registers: "\<lbrakk>ws_workers s i = Some v; wk_pos v = Checking ch; wk_todo v = k # ks; register W k (ws_world s) = (w, ok)\<rbrakk>
   \<Longrightarrow> watch_step W recheck s (move i (v\<lparr>wk_pos := Checked ch ok\<rparr>)
        (s\<lparr>ws_world := w, ws_started := (if ok then GroupKind k # ws_started s else ws_started s)\<rparr>))"
| publishes: "\<lbrakk>ws_workers s i = Some v; wk_pos v = Checked ch ok; wk_todo v = k # ks\<rbrakk>
   \<Longrightarrow> watch_step W recheck s (move i (answer ok v)
        (s\<lparr>ws_shared := publish (wa_now W (ws_world s)) (GroupKind k) ok (ws_shared s),
           ws_closed := insert ch (ws_closed s)\<rparr>))"
| wakes: "\<lbrakk>ws_workers s i = Some v; wk_pos v = Waiting inFlight; inFlight \<in> ws_closed s\<rbrakk>
   \<Longrightarrow> watch_step W recheck s (move i (v\<lparr>wk_pos := Head\<rparr>) s)"
| cancelled: "\<lbrakk>ws_workers s i = Some v; wk_pos v = Waiting inFlight; wk_todo v = k # ks\<rbrakk>
   \<Longrightarrow> watch_step W recheck s (move i (answer False v) s)"
| returns: "\<lbrakk>ws_workers s i = Some v; wk_pos v = Head; wk_todo v = []\<rbrakk>
   \<Longrightarrow> watch_step W recheck s (s\<lparr>ws_workers := (ws_workers s)(i := None)\<rparr>)"
| world: "watch_step W recheck s (s\<lparr>ws_world := w\<rparr>)"

definition starting :: "'w \<Rightarrow> 'w watching" where
  "starting w = \<lparr>ws_shared = newDriftWatches, ws_closed = {}, ws_channels = 0, ws_workers = Map.empty,
     ws_started = [], ws_world = w\<rparr>"

inductive reachable :: "'w watch_api \<Rightarrow> int \<Rightarrow> 'w watching \<Rightarrow> bool" for W recheck where
  starts: "reachable W recheck (starting w)"
| steps: "reachable W recheck s \<Longrightarrow> watch_step W recheck s s' \<Longrightarrow> reachable W recheck s'"

subsection \<open>Invariants\<close>

text \<open>The check a worker is making, as its kind and channel, and the kind it has begun to watch but
  not yet recorded.\<close>

definition holds :: "worker \<Rightarrow> (group_kind \<times> nat) option" where
  "holds v = (case wk_pos v of
      Checking ch \<Rightarrow> Some (GroupKind (hd (wk_todo v)), ch)
    | Checked ch _ \<Rightarrow> Some (GroupKind (hd (wk_todo v)), ch)
    | _ \<Rightarrow> None)"

definition found :: "worker \<Rightarrow> group_kind option" where
  "found v = (case wk_pos v of Checked ch ok \<Rightarrow> if ok then Some (GroupKind (hd (wk_todo v))) else None | _ \<Rightarrow> None)"

definition waits :: "worker \<Rightarrow> nat option" where
  "waits v = (case wk_pos v of Waiting ch \<Rightarrow> Some ch | _ \<Rightarrow> None)"

definition each :: "(worker \<Rightarrow> 'a option) \<Rightarrow> 'w watching \<Rightarrow> nat \<Rightarrow> 'a option" where
  "each f s i = (case ws_workers s i of None \<Rightarrow> None | Some v \<Rightarrow> f v)"

lemma each_move [simp]: "each f (move i v s) = (each f s)(i := f v)"
  by (auto simp: each_def move_def)

lemma each_at: "ws_workers s i = Some v \<Longrightarrow> each f s i = f v"
  by (simp add: each_def)

lemma each_same:
  "each f (s\<lparr>ws_shared := a\<rparr>) = each f s" "each f (s\<lparr>ws_closed := b\<rparr>) = each f s" "each f (s\<lparr>ws_channels := c\<rparr>) = each f s"
  "each f (s\<lparr>ws_started := d\<rparr>) = each f s" "each f (s\<lparr>ws_world := w\<rparr>) = each f s"
  "each f (s\<lparr>ws_workers := (ws_workers s)(i := None)\<rparr>) = (each f s)(i := None)"
  by (auto simp: each_def)

lemma move_fields [simp]:
  "ws_shared (move i v s) = ws_shared s" "ws_closed (move i v s) = ws_closed s" "ws_channels (move i v s) = ws_channels s"
  "ws_started (move i v s) = ws_started s" "ws_world (move i v s) = ws_world s"
  "ws_workers (move i v s) = (ws_workers s)(i \<mapsto> v)"
  by (simp_all add: move_def)

lemma at_position [simp]:
  "wk_pos v = Head \<Longrightarrow> holds v = None" "wk_pos v = Head \<Longrightarrow> found v = None" "wk_pos v = Head \<Longrightarrow> waits v = None"
  "wk_pos v = Waiting ch \<Longrightarrow> holds v = None" "wk_pos v = Waiting ch \<Longrightarrow> found v = None" "wk_pos v = Waiting ch \<Longrightarrow> waits v = Some ch"
  "wk_pos v = Checking ch \<Longrightarrow> holds v = Some (GroupKind (hd (wk_todo v)), ch)" "wk_pos v = Checking ch \<Longrightarrow> found v = None"
  "wk_pos v = Checking ch \<Longrightarrow> waits v = None" "wk_pos v = Checked ch ok \<Longrightarrow> waits v = None"
  "wk_pos v = Checked ch ok \<Longrightarrow> holds v = Some (GroupKind (hd (wk_todo v)), ch)"
  "wk_pos v = Checked ch ok \<Longrightarrow> found v = (if ok then Some (GroupKind (hd (wk_todo v))) else None)"
  by (simp_all add: holds_def found_def waits_def)

lemma answer_fields [simp]:
  "wk_pos (answer b v) = Head" "wk_asked (answer b v) = wk_asked v @ [hd (wk_todo v)]"
  "wk_all (answer b v) = (wk_all v \<and> b)" "wk_todo (answer b v) = tl (wk_todo v)"
  "wk_pos (ensure kinds) = Head" "wk_asked (ensure kinds) = []"
  by (simp_all add: answer_def ensure_def)

lemma each_none: "ws_workers s i = None \<Longrightarrow> each f s i = None"
  by (simp add: each_def)

lemma enter_Check: "enter recheck now gk w = Check \<Longrightarrow> gk \<notin> dw_watched w \<and> dw_pending w gk = None"
  by (auto simp: enter_def split: if_splits option.splits)

lemma enter_Wait: "enter recheck now gk w = Wait ch \<Longrightarrow> dw_pending w gk = Some ch"
  by (auto simp: enter_def split: if_splits option.splits)

lemma enter_True: "enter recheck now gk w = Answer True \<Longrightarrow> gk \<in> dw_watched w"
  by (auto simp: enter_def split: if_splits option.splits)

lemma publish_fields [simp]:
  "dw_pending (publish now gk ok w) = (dw_pending w)(gk := None)"
  "dw_watched (publish now gk ok w) = (if ok then insert gk (dw_watched w) else dw_watched w)"
  by (simp_all add: publish_def Let_def)

lemma ran_forget:
  assumes "m k = Some x"
  shows "ran m \<subseteq> insert x (ran (m(k := None)))" "insert x (ran (m(k := None))) = ran m"
proof -
  have "y \<in> ran (m(k := None))" if "m j = Some y" "y \<noteq> x" for j y
    using that assms by (intro ranI [of _ j]) auto
  then show "ran m \<subseteq> insert x (ran (m(k := None)))"
    unfolding ran_def by blast
  then show "insert x (ran (m(k := None))) = ran m"
    using ranI [of m k x] assms by (auto simp: ran_def split: if_splits)
qed

lemma ran_None: "m i = None \<Longrightarrow> ran (m(i := None)) = ran m"
  by (metis fun_upd_triv)

text \<open>Checks and pending channels correspond one to one.\<close>

definition one_check :: "(nat \<Rightarrow> ('k \<times> nat) option) \<Rightarrow> ('k \<rightharpoonup> nat) \<Rightarrow> 'k set \<Rightarrow> nat set \<Rightarrow> nat \<Rightarrow> bool" where
  "one_check c p watched closed n \<longleftrightarrow>
     (\<forall>i gk ch. c i = Some (gk, ch) \<longrightarrow> p gk = Some ch)
   \<and> (\<forall>i j x. c i = Some x \<longrightarrow> c j = Some x \<longrightarrow> i = j)
   \<and> (\<forall>gk ch. p gk = Some ch \<longrightarrow> ch < n \<and> ch \<notin> closed \<and> gk \<notin> watched \<and> (\<exists>i. c i = Some (gk, ch)))
   \<and> (\<forall>gk gk' ch. p gk = Some ch \<longrightarrow> p gk' = Some ch \<longrightarrow> gk = gk')
   \<and> (\<forall>ch \<in> closed. ch < n)"

lemma one_checkD:
  assumes "one_check c p watched closed n" "c i = Some (gk, ch)"
  shows "p gk = Some ch" "gk \<notin> watched" "ch \<notin> closed" "c j = Some (gk, ch') \<Longrightarrow> i = j"
proof -
  show "p gk = Some ch"
    using assms unfolding one_check_def by blast
  then show "gk \<notin> watched" "ch \<notin> closed"
    using assms(1) unfolding one_check_def by blast+
  show "i = j" if "c j = Some (gk, ch')"
    using assms that unfolding one_check_def by (metis option.inject)
qed

lemma one_check_begin:
  assumes inv: "one_check c p watched closed n" and free: "c i = None" "p gk = None" "gk \<notin> watched"
  shows "one_check (c(i \<mapsto> (gk, n))) (p(gk \<mapsto> n)) watched closed (Suc n)"
proof -
  have below: "p gk' = Some ch \<Longrightarrow> ch < n" "c j = Some (gk', ch) \<Longrightarrow> gk' \<noteq> gk \<and> ch < n" "ch \<in> closed \<Longrightarrow> ch < n" for gk' ch j
    using inv free unfolding one_check_def by (metis option.distinct(1))+
  have others: "p gk' = Some ch \<Longrightarrow> \<exists>j. j \<noteq> i \<and> c j = Some (gk', ch)" for gk' ch
    using inv free unfolding one_check_def by (metis option.distinct(1))
  show ?thesis
    unfolding one_check_def
  proof (intro conjI allI impI ballI)
    fix j k x assume "(c(i \<mapsto> (gk, n))) j = Some x" "(c(i \<mapsto> (gk, n))) k = Some x"
    then show "j = k"
      using inv below(2) unfolding one_check_def by (cases x) (auto split: if_splits)
  next
    fix gk' ch assume "(p(gk \<mapsto> n)) gk' = Some ch"
    then have new: "gk' = gk \<and> ch = n \<or> gk' \<noteq> gk \<and> p gk' = Some ch"
      by (auto split: if_splits)
    then show "ch < Suc n" "ch \<notin> closed" "gk' \<notin> watched"
      using inv free(3) below(1,3) unfolding one_check_def by (auto simp: less_Suc_eq)
    show "\<exists>j. (c(i \<mapsto> (gk, n))) j = Some (gk', ch)"
      using new others [of gk' ch] by (metis fun_upd_other fun_upd_same)
  qed (use inv below in \<open>auto simp: one_check_def less_Suc_eq split: if_splits\<close>)
qed

lemma one_check_end:
  assumes inv: "one_check c p watched closed n" and mine: "c i = Some (gk, ch)"
  shows "one_check (c(i := None)) (p(gk := None)) (if ok then insert gk watched else watched) (insert ch closed) n"
proof -
  note held = one_checkD [OF inv mine]
  have other: "c j = Some (gk', ch') \<Longrightarrow> j \<noteq> i \<Longrightarrow> gk' \<noteq> gk" for j gk' ch'
    using held(4) by blast
  have chan: "p gk' = Some ch' \<Longrightarrow> gk' \<noteq> gk \<Longrightarrow> ch' \<noteq> ch" "ch < n" for gk' ch'
    using inv held(1) unfolding one_check_def by blast+
  show ?thesis
    unfolding one_check_def
  proof (intro conjI allI impI ballI)
    fix gk' ch' assume p: "(p(gk := None)) gk' = Some ch'"
    then have q: "p gk' = Some ch'" "gk' \<noteq> gk"
      by (auto split: if_splits)
    then obtain j where j: "c j = Some (gk', ch')"
      using inv unfolding one_check_def by blast
    have "j \<noteq> i"
      using j mine q by auto
    then show "\<exists>j. (c(i := None)) j = Some (gk', ch')"
      using j by auto
    show "ch' < n" "ch' \<notin> insert ch closed" "gk' \<notin> (if ok then insert gk watched else watched)"
      using inv q chan unfolding one_check_def by auto
  next
    fix j gk' ch' assume "(c(i := None)) j = Some (gk', ch')"
    then show "(p(gk := None)) gk' = Some ch'"
      using inv other unfolding one_check_def by (auto split: if_splits)
  qed (use inv chan in \<open>auto simp: one_check_def split: if_splits\<close>)
qed

abbreviation checked_once :: "'w watching \<Rightarrow> bool" where
  "checked_once s \<equiv> one_check (each holds s) (dw_pending (ws_shared s)) (dw_watched (ws_shared s)) (ws_closed s) (ws_channels s)"

lemma checked_once_step: "watch_step W recheck s s' \<Longrightarrow> checked_once s \<Longrightarrow> checked_once s'"
proof (induction rule: watch_step.induct)
  case (check s i v k ks)
  then show ?case
    using one_check_begin [OF check.prems, of i "GroupKind k"] enter_Check [OF check.hyps(4)]
    by (simp add: each_same each_at fun_upd_def)
next
  case (publishes s i v ch ok k ks)
  then show ?case
    using one_check_end [OF publishes.prems, of i "GroupKind k" ch ok]
    by (simp add: each_same each_at fun_upd_def)
qed (simp_all add: each_same each_at each_none fun_upd_idem)

definition awaited :: "'w watching \<Rightarrow> bool" where
  "awaited s \<longleftrightarrow> (\<forall>i ch. each waits s i = Some ch \<longrightarrow> ch \<in> ws_closed s \<or> ch \<in> ran (dw_pending (ws_shared s)))"

lemma awaited_step: "watch_step W recheck s s' \<Longrightarrow> checked_once s \<Longrightarrow> awaited s \<Longrightarrow> awaited s'"
proof (induction rule: watch_step.induct)
  case (check s i v k ks)
  then show ?case
    using enter_Check [OF check.hyps(4)] by (auto simp: awaited_def each_same)
next
  case (join s i v k ks ch)
  then show ?case
    using enter_Wait [OF join.hyps(4)] by (auto simp: awaited_def ranI)
next
  case (publishes s i v ch ok k ks)
  then have "dw_pending (ws_shared s) (GroupKind k) = Some ch"
    using each_at [OF publishes.hyps(1), of holds] one_checkD(1) [OF publishes.prems(1), of i] by simp
  note ran_forget(1) [of "dw_pending (ws_shared s)" "GroupKind k", OF this]
  then show ?case
    using publishes.prems(2) by (fastforce simp: awaited_def each_same)
qed (auto simp: awaited_def each_same split: if_splits)

definition busy :: "'w watching \<Rightarrow> bool" where
  "busy s \<longleftrightarrow> (\<forall>i v. ws_workers s i = Some v \<longrightarrow> wk_pos v \<noteq> Head \<longrightarrow> wk_todo v \<noteq> [])"

lemma busy_step: "watch_step W recheck s s' \<Longrightarrow> busy s \<Longrightarrow> busy s'"
  by (induction rule: watch_step.induct) (auto simp: busy_def split: if_splits)

abbreviation default_kinds :: "group_kind set" where
  "default_kinds \<equiv> GroupKind ` set DefaultKinds"

definition started_once :: "'w watching \<Rightarrow> bool" where
  "started_once s \<longleftrightarrow> distinct (ws_started s) \<and> set (ws_started s) \<inter> default_kinds = {}
     \<and> default_kinds \<subseteq> dw_watched (ws_shared s)
     \<and> default_kinds \<union> set (ws_started s) = dw_watched (ws_shared s) \<union> ran (each found s)"

lemma found_holds: "each found s i = Some gk \<Longrightarrow> \<exists>ch. each holds s i = Some (gk, ch)"
  by (auto simp: each_def holds_def found_def split: position.splits if_splits option.splits)

lemma started_once_step: "watch_step W recheck s s' \<Longrightarrow> checked_once s \<Longrightarrow> started_once s \<Longrightarrow> started_once s'"
proof (induction rule: watch_step.induct)
  case (registers s i v ch k ks w ok)
  then have holding: "each holds s i = Some (GroupKind k, ch)" and free: "each found s i = None"
    using each_at [of s i v holds] each_at [of s i v found] by simp_all
  have "GroupKind k \<notin> dw_watched (ws_shared s)"
    by (rule one_checkD(2) [OF registers.prems(1) holding])
  moreover have "GroupKind k \<notin> ran (each found s)"
  proof
    assume "GroupKind k \<in> ran (each found s)"
    then obtain j where j: "each found s j = Some (GroupKind k)"
      by (auto simp: ran_def)
    then have "i = j"
      using found_holds [OF j] one_checkD(4) [OF registers.prems(1) holding] by blast
    then show False
      using j free by simp
  qed
  ultimately show ?case
    using registers.prems(2) registers.hyps free
    by (auto simp: started_once_def each_same ran_map_upd fun_upd_idem)
next
  case (publishes s i v ch ok k ks)
  have mine: "each found s i = (if ok then Some (GroupKind k) else None)"
    using publishes.hyps by (simp add: each_at)
  then have "if ok then insert (GroupKind k) (ran ((each found s)(i := None))) = ran (each found s)
    else ran ((each found s)(i := None)) = ran (each found s)"
    by (simp add: ran_None ran_forget(2))
  then show ?case
    using publishes.prems(2) by (auto simp: started_once_def each_same split: if_splits)
qed (simp_all add: started_once_def each_same each_at each_none fun_upd_idem)

definition truthful :: "'w watching \<Rightarrow> bool" where
  "truthful s \<longleftrightarrow> (\<forall>i v. ws_workers s i = Some v \<longrightarrow> wk_all v \<longrightarrow> GroupKind ` set (wk_asked v) \<subseteq> dw_watched (ws_shared s))"

lemma truthful_step: "watch_step W recheck s s' \<Longrightarrow> truthful s \<Longrightarrow> truthful s'"
proof (induction rule: watch_step.induct)
  case (answered s i v k ks b)
  then show ?case
    using enter_True [of recheck _ "GroupKind k"] by (cases b) (auto simp: truthful_def split: if_splits)
next
  case (publishes s i v ch ok k ks)
  then show ?case
    by (cases ok) (fastforce simp: truthful_def split: if_splits)+
qed (auto simp: truthful_def split: if_splits)

lemma reachable_invariants:
  "reachable W recheck s \<Longrightarrow> checked_once s \<and> awaited s \<and> busy s \<and> started_once s \<and> truthful s"
proof (induction rule: reachable.induct)
  case (starts w)
  then show ?case
    by (auto simp: starting_def newDriftWatches_def one_check_def each_def awaited_def busy_def started_once_def truthful_def ran_def)
next
  case (steps s s')
  then show ?case
    using checked_once_step awaited_step busy_step started_once_step truthful_step by blast
qed

subsection \<open>Properties\<close>

text \<open>C12. However the workers interleave, no kind is watched twice: a kind is checked by at most one
  worker at a time, and \<open>register\<close> starts at most one watch for it, never for a kind watched from
  the start; what is recorded as watched has a watch.\<close>

theorem watched_at_most_once:
  assumes "reachable W recheck s"
  shows "distinct (ws_started s) \<and> set (ws_started s) \<inter> default_kinds = {}
    \<and> dw_watched (ws_shared s) \<subseteq> default_kinds \<union> set (ws_started s)
    \<and> (\<forall>i j gk ch ch'. each holds s i = Some (gk, ch) \<longrightarrow> each holds s j = Some (gk, ch') \<longrightarrow> i = j)"
proof -
  note inv = reachable_invariants [OF assms]
  have "i = j" if "each holds s i = Some (gk, ch)" "each holds s j = Some (gk, ch')" for i j gk ch ch'
    by (rule one_checkD(4) [OF conjunct1 [OF inv] that])
  moreover have "started_once s"
    using inv by simp
  ultimately show ?thesis
    unfolding started_once_def by (intro conjI) auto
qed

text \<open>C19. No worker waits forever: a worker that waits for another's check can go on, because its
  channel is closed, or the worker that will close the channel is still checking and has a step to
  take.\<close>

theorem waiting_is_served:
  assumes "reachable W recheck s" and "ws_workers s i = Some v" and "wk_pos v = Waiting ch"
  shows "watch_step W recheck s (move i (v\<lparr>wk_pos := Head\<rparr>) s)
    \<or> (\<exists>j u s'. ws_workers s j = Some u \<and> wk_pos u \<in> {Checking ch, Checked ch True, Checked ch False}
         \<and> watch_step W recheck s s' \<and> ws_workers s' j \<noteq> Some u)"
proof (cases "ch \<in> ws_closed s")
  case True
  then show ?thesis
    using watch_step.wakes [OF assms(2,3)] by blast
next
  case False
  note inv = reachable_invariants [OF assms(1)]
  have "each waits s i = Some ch"
    using each_at [OF assms(2), of waits] assms(3) by simp
  then have "ch \<in> ran (dw_pending (ws_shared s))"
    using inv False unfolding awaited_def by blast
  then obtain gk where gk: "dw_pending (ws_shared s) gk = Some ch"
    by (auto simp: ran_def)
  then obtain j where "each holds s j = Some (gk, ch)"
    using inv unfolding one_check_def by blast
  then obtain u where u: "ws_workers s j = Some u" "holds u = Some (gk, ch)"
    by (auto simp: each_def split: option.splits)
  then have pos: "wk_pos u = Checking ch \<or> (\<exists>ok. wk_pos u = Checked ch ok)"
    by (auto simp: holds_def split: position.splits)
  then obtain k ks where todo: "wk_todo u = k # ks"
    using inv u(1) unfolding busy_def by (cases "wk_todo u") auto
  obtain w ok where reg: "register W k (ws_world s) = (w, ok)"
    by fastforce
  have "\<exists>s'. watch_step W recheck s s' \<and> ws_workers s' j \<noteq> Some u"
    using pos
  proof
    assume "wk_pos u = Checking ch"
    then show ?thesis
      using watch_step.registers [OF u(1) _ todo reg] by (fastforce dest: arg_cong [of _ _ wk_pos])
  next
    assume "\<exists>ok. wk_pos u = Checked ch ok"
    then obtain b where "wk_pos u = Checked ch b" ..
    then show ?thesis
      using watch_step.publishes [OF u(1) _ todo] by (fastforce dest: arg_cong [of _ _ wk_pos])
  qed
  then obtain s' where "watch_step W recheck s s'" "ws_workers s' j \<noteq> Some u"
    by blast
  moreover have "wk_pos u \<in> {Checking ch, Checked ch True, Checked ch False}"
    using pos by (metis insertCI)
  ultimately show ?thesis
    using u(1) by blast
qed

text \<open>\<open>ensure\<close> reports success only for what is watched: when it has gone through its kinds without
  an answer of no, every one of them is watched.\<close>

theorem ensure_truthful:
  assumes "reachable W recheck s" and "ws_workers s i = Some v" and "wk_todo v = []" "wk_all v"
  shows "GroupKind ` set (wk_asked v) \<subseteq> default_kinds \<union> set (ws_started s)"
proof -
  have "truthful s" "started_once s"
    using reachable_invariants [OF assms(1)] by simp_all
  then have "GroupKind ` set (wk_asked v) \<subseteq> dw_watched (ws_shared s)"
    and "dw_watched (ws_shared s) \<subseteq> default_kinds \<union> set (ws_started s)"
    using assms(2,4) unfolding truthful_def started_once_def by auto
  then show ?thesis
    by (rule subset_trans)
qed

subsection \<open>Two workers\<close>

text \<open>Two workers ask for Jobs at once in a cluster that allows everything: the first checks, the
  second waits for it.\<close>

definition job_kind :: gvk where
  "job_kind = \<lparr>gvk_Group = ''batch'', gvk_Version = ''v1'', gvk_Kind = ''Job''\<rparr>"

definition allow_all :: "unit watch_api" where
  "allow_all = \<lparr>wa_now = (\<lambda>_. 0), wa_RESTMapping = (\<lambda>_ _ _. Inr ''jobs''), wa_CreateReview = (\<lambda>_ _ _ _. Inr True),
     wa_Watch = (\<lambda>_ w. (w, None))\<rparr>"

definition both_called :: "unit watching" where
  "both_called = move 1 (ensure [job_kind]) (move 0 (ensure [job_kind]) (starting ()))"

definition first_checks :: "unit watching" where
  "first_checks = move 0 ((ensure [job_kind])\<lparr>wk_pos := Checking 0\<rparr>) (both_called\<lparr>ws_channels := 1,
     ws_shared := newDriftWatches\<lparr>dw_pending := [GroupKind job_kind \<mapsto> 0]\<rparr>\<rparr>)"

definition second_waits :: "unit watching" where
  "second_waits = move 1 ((ensure [job_kind])\<lparr>wk_pos := Waiting 0\<rparr>) first_checks"

definition first_registers :: "unit watching" where
  "first_registers = move 0 ((ensure [job_kind])\<lparr>wk_pos := Checked 0 True\<rparr>)
     (second_waits\<lparr>ws_world := (), ws_started := [GroupKind job_kind]\<rparr>)"

definition first_done :: "unit watching" where
  "first_done = move 0 (answer True ((ensure [job_kind])\<lparr>wk_pos := Checked 0 True\<rparr>)) (first_registers\<lparr>
     ws_shared := publish 0 (GroupKind job_kind) True (ws_shared first_registers), ws_closed := {0}\<rparr>)"

lemmas two_workers = both_called_def first_checks_def second_waits_def first_registers_def first_done_def
  starting_def ensure_def allow_all_def

lemma job_not_default: "GroupKind job_kind \<notin> dw_watched newDriftWatches"
  by (simp add: newDriftWatches_def GroupKind_def job_kind_def DefaultKinds_def core_kind_def apps_kind_def)

lemma newDriftWatches_pending [simp]: "dw_pending newDriftWatches = Map.empty" "dw_denied newDriftWatches = Map.empty"
  by (simp_all add: newDriftWatches_def)

lemma both_called_reachable: "reachable allow_all 60 both_called"
proof -
  have "reachable allow_all 60 (move 0 (ensure [job_kind]) (starting ()))"
    by (rule reachable.steps [OF reachable.starts watch_step.call]) (simp add: starting_def)
  then show ?thesis
    unfolding both_called_def by (rule reachable.steps [OF _ watch_step.call]) (simp add: starting_def)
qed

lemma first_checks_reachable: "reachable allow_all 60 first_checks"
  using reachable.steps [OF both_called_reachable watch_step.check [of both_called 0 "ensure [job_kind]" job_kind "[]" 60 allow_all]]
    job_not_default
  by (simp add: two_workers enter_def)

lemma second_waits_reachable: "reachable allow_all 60 second_waits"
  using reachable.steps [OF first_checks_reachable watch_step.join [of first_checks 1 "ensure [job_kind]" job_kind "[]" 60 allow_all 0]]
    job_not_default
  by (simp add: two_workers enter_def)

lemma first_registers_reachable: "reachable allow_all 60 first_registers"
  using reachable.steps [OF second_waits_reachable watch_step.registers
      [of second_waits 0 "(ensure [job_kind])\<lparr>wk_pos := Checking 0\<rparr>" 0 job_kind "[]" allow_all "()" True 60]]
  by (simp add: two_workers register_def)

lemma first_done_reachable: "reachable allow_all 60 first_done"
  using reachable.steps [OF first_registers_reachable watch_step.publishes
      [of first_registers 0 "(ensure [job_kind])\<lparr>wk_pos := Checked 0 True\<rparr>" 0 True job_kind "[]" allow_all 60]]
  by (simp add: two_workers)

theorem watched_at_most_once_witness:
  "reachable allow_all 60 first_done \<and> ws_started first_done = [GroupKind job_kind]
   \<and> distinct (ws_started first_done) \<and> GroupKind job_kind \<notin> default_kinds"
proof -
  have "ws_started first_done = [GroupKind job_kind]"
    by (simp add: first_done_def first_registers_def)
  then show ?thesis
    using watched_at_most_once [OF first_done_reachable] first_done_reachable by simp
qed

theorem waiting_is_served_witness:
  "ws_workers second_waits 1 = Some ((ensure [job_kind])\<lparr>wk_pos := Waiting 0\<rparr>)
   \<and> (watch_step allow_all 60 second_waits (move 1 ((ensure [job_kind])\<lparr>wk_pos := Waiting 0, wk_pos := Head\<rparr>) second_waits)
     \<or> (\<exists>j u s'. ws_workers second_waits j = Some u \<and> wk_pos u \<in> {Checking 0, Checked 0 True, Checked 0 False}
       \<and> watch_step allow_all 60 second_waits s' \<and> ws_workers s' j \<noteq> Some u))"
proof -
  have there: "ws_workers second_waits 1 = Some ((ensure [job_kind])\<lparr>wk_pos := Waiting 0\<rparr>)"
    by (simp add: second_waits_def)
  show ?thesis
    by (rule conjI [OF there waiting_is_served [OF second_waits_reachable there]]) simp
qed

theorem ensure_truthful_witness:
  "reachable allow_all 60 first_done \<and> GroupKind job_kind \<in> default_kinds \<union> set (ws_started first_done)"
  using ensure_truthful [OF first_done_reachable, of 0 "answer True ((ensure [job_kind])\<lparr>wk_pos := Checked 0 True\<rparr>)"]
    first_done_reachable
  by (simp add: first_done_def ensure_def answer_def)

end
