(* ===== verification/Resource_Graph.thy ===== *)
theory Resource_Graph
  imports Resource
begin

text \<open>
  Package \<open>internal/graph\<close>: the graph of live objects that diagnosis walks. \<open>graph.go\<close> infers the
  relationships between given objects, \<open>collect.go\<close> reads the objects. The builder's Go maps are
  association lists in insertion order; where the source ranges over one it sorts the result, so
  the order does not matter, as \<open>Graph_Build_deterministic\<close> shows. Label selectors are values of the
  Kubernetes library: \<open>graph_lib\<close> has the functions the code calls on them.
\<close>

subsection \<open>Nodes, edges and graphs\<close>

datatype edge_type =
    EdgeOwns | EdgeSelects | EdgeEndpoints | EdgeRoutes | EdgeScales | EdgeBinds | EdgeMounts | EdgeUses | EdgeRunsAs

fun edge_type_string :: "edge_type \<Rightarrow> string" where
  "edge_type_string EdgeOwns = ''Owns''"
| "edge_type_string EdgeSelects = ''Selects''"
| "edge_type_string EdgeEndpoints = ''Endpoints''"
| "edge_type_string EdgeRoutes = ''Routes''"
| "edge_type_string EdgeScales = ''Scales''"
| "edge_type_string EdgeBinds = ''Binds''"
| "edge_type_string EdgeMounts = ''Mounts''"
| "edge_type_string EdgeUses = ''Uses''"
| "edge_type_string EdgeRunsAs = ''RunsAs''"

record edge =
  ed_From :: resource_id
  ed_To :: resource_id
  ed_Type :: edge_type
  ed_Optional :: bool

record node =
  nd_ID :: resource_id
  nd_Missing :: bool
  nd_Unreadable :: bool

record graph =
  g_Nodes :: "node list"
  g_Edges :: "edge list"
  g_Unread :: "string list"
  g_index :: "string \<rightharpoonup> nat"
  g_out :: "string \<Rightarrow> edge list"

text \<open>\<open>labels.SelectorFromSet\<close>; the conversion of a map to a \<open>LabelSelector\<close> and of that to a
  selector, which may fail; \<open>Matches\<close> and \<open>Empty\<close>.\<close>

record 's graph_lib =
  gl_SelectorFromSet :: "(string \<times> string) list \<Rightarrow> 's"
  gl_LabelSelector :: "gomap \<Rightarrow> 's option"
  gl_Matches :: "'s \<Rightarrow> (string \<times> string) list \<Rightarrow> bool"
  gl_Empty :: "'s \<Rightarrow> bool"

definition Key :: "resource_id \<Rightarrow> string" where
  "Key i = ID_Group i @ ''/'' @ ID_Kind i @ ''/'' @ ID_Namespace i @ ''/'' @ ID_Name i"

definition edgeKey :: "lib \<Rightarrow> edge \<Rightarrow> string" where
  "edgeKey L e = ID_String L (ed_From e) @ ''->'' @ ID_String L (ed_To e) @ '':'' @ edge_type_string (ed_Type e)"

subsection \<open>What a Pod spec refers to\<close>

record pod_reference =
  ref_Kind :: string
  ref_Name :: string
  ref_Optional :: bool
  ref_PullOnly :: bool

definition templated :: "string \<Rightarrow> string \<Rightarrow> bool" where
  "templated grp kind \<longleftrightarrow>
     grp = ''apps'' \<and> kind \<in> {''Deployment'', ''StatefulSet'', ''DaemonSet'', ''ReplicaSet''}
     \<or> grp = ''batch'' \<and> kind = ''Job'' \<or> grp = [] \<and> kind = ''ReplicationController''"

definition PodSpec :: "lib \<Rightarrow> unstructured \<Rightarrow> gomap option" where
  "PodSpec L obj =
     (case ParseGroupVersion L (GetAPIVersion L obj) of
        None \<Rightarrow> None
      | Some (grp, _) \<Rightarrow>
          (let kind = GetKind L obj;
               path = (if grp = [] \<and> kind = ''Pod'' then Some [''spec'']
                       else if grp = ''batch'' \<and> kind = ''CronJob'' then Some [''spec'', ''jobTemplate'', ''spec'', ''template'', ''spec'']
                       else if templated grp kind then Some [''spec'', ''template'', ''spec''] else None)
           in case path of
                None \<Rightarrow> None
              | Some p \<Rightarrow> (case NestedMap L (Object obj) p of Found m \<Rightarrow> Some m | _ \<Rightarrow> None)))"

definition add_ref :: "string \<Rightarrow> string \<Rightarrow> bool \<Rightarrow> bool \<Rightarrow> (string \<times> pod_reference) list \<Rightarrow> (string \<times> pod_reference) list" where
  "add_ref kind name optnl pull refs =
     (if name = [] then refs
      else let k = kind @ ''/'' @ name in
           case map_of refs k of
             Some r \<Rightarrow> AList.update k (r\<lparr>ref_Optional := ref_Optional r \<and> optnl, ref_PullOnly := ref_PullOnly r \<and> pull\<rparr>) refs
           | None \<Rightarrow> refs @ [(k, \<lparr>ref_Kind = kind, ref_Name = name, ref_Optional = optnl, ref_PullOnly = pull\<rparr>)])"

text \<open>One mention: \<open>if ref, ok := m[key].(map[string]any); ok { add(...) }\<close>.\<close>

definition add_field :: "string \<Rightarrow> string \<Rightarrow> gomap \<Rightarrow> string \<Rightarrow> (string \<times> pod_reference) list \<Rightarrow> (string \<times> pod_reference) list" where
  "add_field kind nameKey m key refs =
     (case mget m key of
        VMap r \<Rightarrow> add_ref kind (as_str (mget r nameKey)) (as_bool (mget r ''optional'')) False refs
      | _ \<Rightarrow> refs)"

definition container_refs :: "any \<Rightarrow> (string \<times> pod_reference) list \<Rightarrow> (string \<times> pod_reference) list" where
  "container_refs raw refs =
     (let container = as_map raw;
          refs = fold (\<lambda>src refs. add_field ''Secret'' ''name'' (as_map src) ''secretRef''
                    (add_field ''ConfigMap'' ''name'' (as_map src) ''configMapRef'' refs)) (as_list (mget container ''envFrom'')) refs
      in fold (\<lambda>env refs. let vf = as_map (mget (as_map env) ''valueFrom'') in
                 add_field ''Secret'' ''name'' vf ''secretKeyRef'' (add_field ''ConfigMap'' ''name'' vf ''configMapKeyRef'' refs))
           (as_list (mget container ''env'')) refs)"

definition volume_refs :: "any \<Rightarrow> (string \<times> pod_reference) list \<Rightarrow> (string \<times> pod_reference) list" where
  "volume_refs raw refs =
     (let volume = as_map raw;
          refs = add_field ''ConfigMap'' ''name'' volume ''configMap'' refs;
          refs = add_field ''Secret'' ''secretName'' volume ''secret'' refs;
          refs = (case mget volume ''persistentVolumeClaim'' of
                    VMap r \<Rightarrow> add_ref ''PersistentVolumeClaim'' (as_str (mget r ''claimName'')) False False refs
                  | _ \<Rightarrow> refs)
      in fold (\<lambda>p refs. add_field ''Secret'' ''name'' (as_map p) ''secret'' (add_field ''ConfigMap'' ''name'' (as_map p) ''configMap'' refs))
           (as_list (mget (as_map (mget volume ''projected'')) ''sources'')) refs)"

definition ref_lt :: "pod_reference \<Rightarrow> pod_reference \<Rightarrow> bool" where
  "ref_lt a b = (if ref_Kind a \<noteq> ref_Kind b then ref_Kind a < ref_Kind b else ref_Name a < ref_Name b)"

definition collect_refs :: "gomap \<Rightarrow> (string \<times> pod_reference) list" where
  "collect_refs spec =
     (let containers = as_list (mget spec ''initContainers'') @ as_list (mget spec ''containers'')
                       @ as_list (mget spec ''ephemeralContainers'');
          refs = fold container_refs containers [];
          refs = fold volume_refs (as_list (mget spec ''volumes'')) refs;
          refs = fold (\<lambda>raw refs. add_ref ''Secret'' (as_str (mget (as_map raw) ''name'')) False True refs)
                   (as_list (mget spec ''imagePullSecrets'')) refs;
          account = as_str (mget spec ''serviceAccountName'');
          account = (if account = [] then as_str (mget spec ''serviceAccount'') else account)
      in add_ref ''ServiceAccount'' account False False refs)"

definition PodReferences :: "gomap \<Rightarrow> pod_reference list" where
  "PodReferences spec = sort_by ref_lt (map snd (collect_refs spec))"

subsection \<open>The builder\<close>

record builder =
  bd_nodes :: "(string \<times> node) list"
  bd_objects :: "(string \<times> unstructured) list"
  bd_edges :: "(string \<times> edge) list"

definition link :: "resource_id \<Rightarrow> resource_id \<Rightarrow> edge_type \<Rightarrow> bool \<Rightarrow> builder \<Rightarrow> builder" where
  "link src tgt kind optnl b =
     (let k = Key src @ ''->'' @ Key tgt @ '':'' @ edge_type_string kind in
      case map_of (bd_edges b) k of
        Some e \<Rightarrow> b\<lparr>bd_edges := AList.update k (e\<lparr>ed_Optional := ed_Optional e \<and> optnl\<rparr>) (bd_edges b)\<rparr>
      | None \<Rightarrow> b\<lparr>bd_edges := bd_edges b @ [(k, \<lparr>ed_From = src, ed_To = tgt, ed_Type = kind, ed_Optional = optnl\<rparr>)]\<rparr>)"

definition reference :: "resource_id \<Rightarrow> resource_id \<Rightarrow> edge_type \<Rightarrow> bool \<Rightarrow> builder \<Rightarrow> builder" where
  "reference src tgt kind optnl b =
     (case map_of (bd_nodes b) (Key tgt) of
        Some n \<Rightarrow> link src (nd_ID n) kind optnl b
      | None \<Rightarrow> link src tgt kind optnl
          (b\<lparr>bd_nodes := bd_nodes b @ [(Key tgt, \<lparr>nd_ID = tgt, nd_Missing = True, nd_Unreadable = False\<rparr>)]\<rparr>))"

definition core_id :: "string \<Rightarrow> string \<Rightarrow> string \<Rightarrow> resource_id" where
  "core_id kind namespace name =
     \<lparr>ID_Group = [], ID_Version = ''v1'', ID_Kind = kind, ID_Namespace = namespace, ID_Name = name\<rparr>"

definition link_owner :: "lib \<Rightarrow> resource_id \<Rightarrow> owner_reference \<Rightarrow> builder \<Rightarrow> builder" where
  "link_owner L i owner b =
     (case ParseGroupVersion L (owner_APIVersion owner) of
        None \<Rightarrow> b
      | Some (g, v) \<Rightarrow>
          if owner_Kind owner = [] \<or> owner_Name owner = [] then b
          else (case map_of (bd_nodes b) (Key \<lparr>ID_Group = g, ID_Version = v, ID_Kind = owner_Kind owner,
                       ID_Namespace = ID_Namespace i, ID_Name = owner_Name owner\<rparr>) of
                  Some n \<Rightarrow> link (nd_ID n) i EdgeOwns False b
                | None \<Rightarrow> b))"

definition Selector :: "lib \<Rightarrow> 's graph_lib \<Rightarrow> unstructured \<Rightarrow> 's option" where
  "Selector L S obj =
     (let k = GroupVersionKindOf L obj in
      if gvk_Group k = [] \<and> gvk_Kind k = ''Service''
      then (case NestedStringMap L (Object obj) [''spec'', ''selector''] of
              Found m \<Rightarrow> if m = [] then None else Some (gl_SelectorFromSet S m)
            | _ \<Rightarrow> None)
      else (case NestedMap L (Object obj) [''spec'', ''selector''] of
              Found m \<Rightarrow> gl_LabelSelector S m
            | _ \<Rightarrow> None))"

definition select_one :: "lib \<Rightarrow> 's graph_lib \<Rightarrow> resource_id \<Rightarrow> 's \<Rightarrow> bool \<Rightarrow> string \<Rightarrow> builder \<Rightarrow> builder" where
  "select_one L S i selector workloads key b =
     (case (map_of (bd_nodes b) key, map_of (bd_objects b) key) of
        (Some n, Some obj) \<Rightarrow>
          (let tgt = nd_ID n in
           if ID_Namespace tgt \<noteq> ID_Namespace i \<or> tgt = i then b
           else if ID_Group tgt = [] \<and> ID_Kind tgt = ''Pod''
           then (if gl_Matches S selector (GetLabels L obj) then link i tgt EdgeSelects False b else b)
           else if workloads \<and> templated (ID_Group tgt) (ID_Kind tgt)
           then (let template = nval [] (NestedStringMap L (Object obj) [''spec'', ''template'', ''metadata'', ''labels'']) in
                 if template \<noteq> [] \<and> gl_Matches S selector template then link i tgt EdgeSelects False b else b)
           else b)
      | _ \<Rightarrow> b)"

definition selects :: "lib \<Rightarrow> 's graph_lib \<Rightarrow> resource_id \<Rightarrow> 's \<Rightarrow> string list \<Rightarrow> bool \<Rightarrow> builder \<Rightarrow> builder" where
  "selects L S i selector keys workloads b = fold (select_one L S i selector workloads) keys b"

definition backends :: "lib \<Rightarrow> unstructured \<Rightarrow> any list" where
  "backends L obj =
     (case NestedMap L (Object obj) [''spec'', ''defaultBackend''] of Found m \<Rightarrow> [VMap m] | _ \<Rightarrow> [])
     @ concat (map (\<lambda>rule. concat (map (\<lambda>path. case map_of (as_map path) ''backend'' of Some v \<Rightarrow> [v] | None \<Rightarrow> [])
                 (nval [] (NestedSlice L (as_map rule) [''http'', ''paths'']))))
         (nval [] (NestedSlice L (Object obj) [''spec'', ''rules''])))"

definition ingress :: "lib \<Rightarrow> resource_id \<Rightarrow> unstructured \<Rightarrow> builder \<Rightarrow> builder" where
  "ingress L i obj b =
     fold (\<lambda>backend b. let name = nval [] (NestedString L (as_map backend) [''service'', ''name'']) in
             if name \<noteq> [] then reference i (core_id ''Service'' (ID_Namespace i) name) EdgeRoutes False b else b)
       (backends L obj) b"

definition autoscaler :: "lib \<Rightarrow> resource_id \<Rightarrow> unstructured \<Rightarrow> builder \<Rightarrow> builder" where
  "autoscaler L i obj b =
     (let target = map_of (nval [] (NestedStringMap L (Object obj) [''spec'', ''scaleTargetRef''])) in
      case ParseGroupVersion L (get_str target ''apiVersion'') of
        None \<Rightarrow> b
      | Some (g, v) \<Rightarrow>
          if get_str target ''kind'' = [] \<or> get_str target ''name'' = [] then b
          else reference i \<lparr>ID_Group = g, ID_Version = v, ID_Kind = get_str target ''kind'',
                 ID_Namespace = ID_Namespace i, ID_Name = get_str target ''name''\<rparr> EdgeScales False b)"

definition ref_edge :: "string \<Rightarrow> edge_type" where
  "ref_edge kind = (if kind = ''PersistentVolumeClaim'' then EdgeMounts
                    else if kind = ''ServiceAccount'' then EdgeRunsAs else EdgeUses)"

definition podSpec :: "resource_id \<Rightarrow> gomap \<Rightarrow> builder \<Rightarrow> builder" where
  "podSpec i spec b =
     fold (\<lambda>r b. reference i (core_id (ref_Kind r) (ID_Namespace i) (ref_Name r)) (ref_edge (ref_Kind r)) (ref_Optional r) b)
       (PodReferences spec) b"

definition infer_kind :: "lib \<Rightarrow> 's graph_lib \<Rightarrow> resource_id \<Rightarrow> unstructured \<Rightarrow> string list \<Rightarrow> builder \<Rightarrow> builder" where
  "infer_kind L S i obj keys b =
     (if ID_Group i = [] \<and> ID_Kind i = ''Service'' \<or> ID_Group i = ''policy'' \<and> ID_Kind i = ''PodDisruptionBudget''
      then (case Selector L S obj of
              Some s \<Rightarrow> selects L S i s keys (ID_Kind i = ''Service'') b
            | None \<Rightarrow> b)
      else if ID_Group i = ''networking.k8s.io'' \<and> ID_Kind i = ''Ingress'' then ingress L i obj b
      else if ID_Group i = ''autoscaling'' \<and> ID_Kind i = ''HorizontalPodAutoscaler'' then autoscaler L i obj b
      else if ID_Group i = [] \<and> ID_Kind i = ''PersistentVolumeClaim''
      then (let volume = nval [] (NestedString L (Object obj) [''spec'', ''volumeName'']) in
            if volume \<noteq> [] then reference i (core_id ''PersistentVolume'' [] volume) EdgeBinds False b else b)
      else if ID_Group i = ''discovery.k8s.io'' \<and> ID_Kind i = ''EndpointSlice''
      then (let service = label L obj ''kubernetes.io/service-name'' in
            case map_of (bd_nodes b) (Key (core_id ''Service'' (ID_Namespace i) service)) of
              Some n \<Rightarrow> if service \<noteq> [] then link (nd_ID n) i EdgeEndpoints False b else b
            | None \<Rightarrow> b)
      else b)"

definition infer :: "lib \<Rightarrow> 's graph_lib \<Rightarrow> resource_id \<Rightarrow> unstructured \<Rightarrow> string list \<Rightarrow> builder \<Rightarrow> builder" where
  "infer L S i obj keys b =
     (let b = fold (link_owner L i) (GetOwnerReferences L obj) b;
          b = infer_kind L S i obj keys b
      in case PodSpec L obj of Some spec \<Rightarrow> podSpec i spec b | None \<Rightarrow> b)"

definition register_object :: "lib \<Rightarrow> unstructured \<Rightarrow> builder \<Rightarrow> builder" where
  "register_object L obj b =
     (case FromObject L obj of
        Inl _ \<Rightarrow> b
      | Inr i \<Rightarrow>
          if map_of (bd_objects b) (Key i) \<noteq> None then b
          else b\<lparr>bd_objects := bd_objects b @ [(Key i, obj)],
                 bd_nodes := bd_nodes b @ [(Key i, \<lparr>nd_ID = i, nd_Missing = False, nd_Unreadable = False\<rparr>)]\<rparr>)"

definition infer_key :: "lib \<Rightarrow> 's graph_lib \<Rightarrow> string list \<Rightarrow> string \<Rightarrow> builder \<Rightarrow> builder" where
  "infer_key L S keys key b =
     (case (map_of (bd_nodes b) key, map_of (bd_objects b) key) of
        (Some n, Some obj) \<Rightarrow> infer L S (nd_ID n) obj keys b
      | _ \<Rightarrow> b)"

definition builder_graph :: "lib \<Rightarrow> builder \<Rightarrow> graph" where
  "builder_graph L b =
     (let nodes = sort_by (\<lambda>x y. ID_String L (nd_ID x) < ID_String L (nd_ID y)) (map snd (bd_nodes b));
          es = sort_by (\<lambda>x y. edgeKey L x < edgeKey L y) (map snd (bd_edges b))
      in \<lparr>g_Nodes = nodes, g_Edges = es, g_Unread = [],
          g_index = foldl (\<lambda>m (n, j). m(Key (nd_ID n) \<mapsto> j)) Map.empty (zip nodes [0..<length nodes]),
          g_out = foldl (\<lambda>m e. m(Key (ed_From e) := m (Key (ed_From e)) @ [e])) (\<lambda>_. []) es\<rparr>)"

definition Graph_Build :: "lib \<Rightarrow> 's graph_lib \<Rightarrow> unstructured list \<Rightarrow> graph" where
  "Graph_Build L S objects =
     (let b = fold (register_object L) objects \<lparr>bd_nodes = [], bd_objects = [], bd_edges = []\<rparr>;
          keys = sort_by (\<lambda>x y. x < y) (map fst (bd_objects b))
      in builder_graph L (fold (infer_key L S keys) keys b))"

subsection \<open>Reading a graph\<close>

definition graph_Node :: "graph \<Rightarrow> resource_id \<Rightarrow> node option" where
  "graph_Node g i = (case g_index g (Key i) of None \<Rightarrow> None | Some j \<Rightarrow> Some (g_Nodes g ! j))"

definition Out :: "graph \<Rightarrow> resource_id \<Rightarrow> edge list" where
  "Out g i = g_out g (Key i)"

definition Missing :: "graph \<Rightarrow> resource_id list" where
  "Missing g = map nd_ID (filter nd_Missing (g_Nodes g))"

definition MarkUnreadable :: "resource_id list \<Rightarrow> graph \<Rightarrow> graph" where
  "MarkUnreadable ids g =
     fold (\<lambda>i g. case g_index g (Key i) of
         None \<Rightarrow> g
       | Some j \<Rightarrow> if \<not> nd_Missing (g_Nodes g ! j) then g
                  else g\<lparr>g_Nodes := (g_Nodes g)[j := (g_Nodes g ! j)\<lparr>nd_Missing := False, nd_Unreadable := True\<rparr>]\<rparr>)
       ids g"

subsection \<open>Printing a graph\<close>

text \<open>What \<open>MarshalJSON\<close> hands to \<open>json.Marshal\<close>.\<close>

record json_node =
  jn_ID :: string
  jn_APIVersion :: string
  jn_Kind :: string
  jn_Namespace :: string
  jn_Name :: string
  jn_Missing :: bool
  jn_Unreadable :: bool

record json_edge =
  je_From :: string
  je_To :: string
  je_Type :: edge_type
  je_Optional :: bool

definition MarshalJSON :: "lib \<Rightarrow> graph \<Rightarrow> json_node list \<times> json_edge list \<times> string list" where
  "MarshalJSON L g =
     (map (\<lambda>n. let i = nd_ID n in \<lparr>jn_ID = ID_String L i, jn_APIVersion = APIVersion L i, jn_Kind = ID_Kind i,
         jn_Namespace = ID_Namespace i, jn_Name = ID_Name i, jn_Missing = nd_Missing n, jn_Unreadable = nd_Unreadable n\<rparr>) (g_Nodes g),
      map (\<lambda>e. \<lparr>je_From = ID_String L (ed_From e), je_To = ID_String L (ed_To e), je_Type = ed_Type e,
         je_Optional = ed_Optional e\<rparr>) (g_Edges g),
      g_Unread g)"

fun dot_escape :: "string \<Rightarrow> string" where
  "dot_escape [] = []"
| "dot_escape (c # s) =
     (if c = CHR 0x5C then [CHR 0x5C, CHR 0x5C] else if c = CHR 0x22 then [CHR 0x5C, CHR 0x22]
      else if c = CHR 0x0A then [CHR 0x5C, CHR ''n''] else [c]) @ dot_escape s"

definition dot_quote :: "string \<Rightarrow> string" where
  "dot_quote s = [CHR 0x22] @ dot_escape s @ [CHR 0x22]"

definition dot_line :: "string \<Rightarrow> string" where
  "dot_line s = s @ [CHR 0x0A]"

definition node_label :: "resource_id \<Rightarrow> string" where
  "node_label i = (if ID_Namespace i \<noteq> [] then ID_Kind i @ [CHR 0x0A] @ ID_Namespace i @ ''/'' @ ID_Name i
                   else ID_Kind i @ [CHR 0x0A] @ ID_Name i)"

definition dot_node :: "lib \<Rightarrow> node \<Rightarrow> string" where
  "dot_node L n =
     (let attrs = (''label='' @ dot_quote (node_label (nd_ID n))) #
            (if nd_Missing n then [''style=dashed'', ''color=red'', ''xlabel='' @ dot_quote ''missing'']
             else if nd_Unreadable n then [''style=dotted'', ''color=grey'', ''xlabel='' @ dot_quote ''unreadable''] else [])
      in dot_line (''  '' @ dot_quote (ID_String L (nd_ID n)) @ '' ['' @ Join '', '' attrs @ ''];''))"

definition dot_edge :: "lib \<Rightarrow> edge \<Rightarrow> string" where
  "dot_edge L e =
     (let attrs = (''label='' @ dot_quote (edge_type_string (ed_Type e))) # (if ed_Optional e then [''style=dashed''] else [])
      in dot_line (''  '' @ dot_quote (ID_String L (ed_From e)) @ '' -> '' @ dot_quote (ID_String L (ed_To e))
           @ '' ['' @ Join '', '' attrs @ ''];''))"

definition DOT :: "lib \<Rightarrow> graph \<Rightarrow> string" where
  "DOT L g =
     dot_line ''digraph kuvryn_sync {''
     @ concat (map (\<lambda>u. dot_line (''  // '' @ ReplaceAll u [CHR 0x0A] '' '')) (g_Unread g))
     @ dot_line ''  rankdir=LR;''
     @ dot_line (''  node [shape=box, fontname='' @ dot_quote ''Helvetica'' @ ''];'')
     @ concat (map (dot_node L) (g_Nodes g)) @ concat (map (dot_edge L) (g_Edges g)) @ dot_line ''}''"

subsection \<open>Collecting the objects\<close>

datatype 's list_by = Matching 's | Labelled string string

text \<open>The reader, in the world of the reconcile: lists of one namespace with a limit, reads of an
  object or of its metadata (\<open>None\<close> when the metadata does not convert), and the reason of an error.\<close>

record 's graph_reader =
  gr_List :: "gvk \<Rightarrow> string \<Rightarrow> int \<Rightarrow> 's list_by \<Rightarrow> api_error + unstructured list"
  gr_Get :: "gvk \<Rightarrow> string \<Rightarrow> string \<Rightarrow> api_error + unstructured"
  gr_GetMetadata :: "gvk \<Rightarrow> string \<Rightarrow> string \<Rightarrow> api_error + unstructured option"
  gr_ReasonForError :: "api_error \<Rightarrow> string"

definition CollectObjectLimit :: int where "CollectObjectLimit = 500"
definition CollectSelectorLimit :: nat where "CollectSelectorLimit = 20"
definition CollectListLimit :: int where "CollectListLimit = 100"
definition CollectReferenceLimit :: nat where "CollectReferenceLimit = 100"

record collector =
  gc_objects :: "unstructured list"
  gc_seen :: "string list"
  gc_budget :: int
  gc_unread :: "string list"

definition gc_add :: "lib \<Rightarrow> unstructured \<Rightarrow> collector \<Rightarrow> collector" where
  "gc_add L obj c =
     (let uid = GetUID L obj in
      if uid \<noteq> [] \<and> uid \<in> set (gc_seen c) then c
      else c\<lparr>gc_seen := (if uid \<noteq> [] then uid # gc_seen c else gc_seen c),
             gc_objects := gc_objects c @ [obj], gc_budget := gc_budget c - 1\<rparr>)"

definition gc_list :: "'s graph_reader \<Rightarrow> string \<Rightarrow> gvk \<Rightarrow> 's list_by \<Rightarrow> collector \<Rightarrow> collector \<times> unstructured list" where
  "gc_list R namespace kind by c =
     (if gc_budget c \<le> 0 then (c, [])
      else (case gr_List R kind namespace (min CollectListLimit (gc_budget c)) by of
              Inl err \<Rightarrow>
                (let reason = ToLower (gr_ReasonForError R err);
                     reason = (if reason = [] then ''failed'' else reason)
                 in (c\<lparr>gc_unread := List.insert (''could not list '' @ gvk_Kind kind @ ''s: '' @ reason) (gc_unread c)\<rparr>, []))
            | Inr items \<Rightarrow> (c, items)))"

definition IdentityOnly :: "gvk \<Rightarrow> bool" where
  "IdentityOnly k \<longleftrightarrow> gvk_Group k = [] \<and> gvk_Kind k \<in> {''Secret'', ''ConfigMap'', ''ServiceAccount''}"

datatype fetched = Fetched unstructured | NotThere | Unchecked

definition gc_get :: "lib \<Rightarrow> 's graph_reader \<Rightarrow> resource_id \<Rightarrow> fetched" where
  "gc_get L R i =
     (let k = \<lparr>gvk_Group = ID_Group i, gvk_Version = ID_Version i, gvk_Kind = ID_Kind i\<rparr>;
          answer = (if IdentityOnly k
                    then (case gr_GetMetadata R k (ID_Namespace i) (ID_Name i) of
                            Inl e \<Rightarrow> Inl (Some e)
                          | Inr None \<Rightarrow> Inl None
                          | Inr (Some obj) \<Rightarrow> Inr (SetGroupVersionKind L obj k))
                    else (case gr_Get R k (ID_Namespace i) (ID_Name i) of Inl e \<Rightarrow> Inl (Some e) | Inr obj \<Rightarrow> Inr obj))
      in case answer of
           Inr obj \<Rightarrow> Fetched obj
         | Inl None \<Rightarrow> Unchecked
         | Inl (Some e) \<Rightarrow> if IsNotFound e then NotThere else Unchecked)"

definition podSelector :: "lib \<Rightarrow> 's graph_lib \<Rightarrow> unstructured \<Rightarrow> 's option" where
  "podSelector L S obj =
     (let k = GroupVersionKindOf L obj;
          service = (gvk_Group k = [] \<and> gvk_Kind k = ''Service'');
          budget = (gvk_Group k = ''policy'' \<and> gvk_Kind k = ''PodDisruptionBudget'')
      in if \<not> service \<and> \<not> budget \<and> (PodSpec L obj = None \<or> gvk_Kind k = ''Pod'' \<or> gvk_Kind k = ''CronJob'') then None
         else case Selector L S obj of
                None \<Rightarrow> None
              | Some s \<Rightarrow> if gl_Empty S s then None else Some s)"

definition ownedBy :: "lib \<Rightarrow> unstructured \<Rightarrow> string list \<Rightarrow> bool" where
  "ownedBy L obj owners = list_ex (\<lambda>r. owner_UID r \<in> set owners) (GetOwnerReferences L obj)"

definition replica_set_kind :: gvk where
  "replica_set_kind = \<lparr>gvk_Group = ''apps'', gvk_Version = ''v1'', gvk_Kind = ''ReplicaSet''\<rparr>"

definition pod_kind :: gvk where
  "pod_kind = \<lparr>gvk_Group = [], gvk_Version = ''v1'', gvk_Kind = ''Pod''\<rparr>"

definition endpoint_slice_kind :: gvk where
  "endpoint_slice_kind = \<lparr>gvk_Group = ''discovery.k8s.io'', gvk_Version = ''v1'', gvk_Kind = ''EndpointSlice''\<rparr>"

text \<open>The selectors to list by, those of Deployments among them, and the Services.\<close>

definition scope_step :: "lib \<Rightarrow> 's graph_lib \<Rightarrow> unstructured \<Rightarrow> 's list \<times> 's list \<times> string list \<Rightarrow> 's list \<times> 's list \<times> string list" where
  "scope_step L S obj acc =
     (let (selectors, deploymentSelectors, services) = acc;
          k = GroupVersionKindOf L obj;
          services = (if gvk_Group k = [] \<and> gvk_Kind k = ''Service'' \<and> length services < CollectSelectorLimit
                      then services @ [GetName L obj] else services)
      in case podSelector L S obj of
           Some s \<Rightarrow> if length selectors < CollectSelectorLimit
                     then (selectors @ [s],
                           if gvk_Group k = ''apps'' \<and> gvk_Kind k = ''Deployment'' then deploymentSelectors @ [s] else deploymentSelectors,
                           services)
                     else (selectors, deploymentSelectors, services)
         | None \<Rightarrow> (selectors, deploymentSelectors, services))"

definition collect_replica_sets :: "lib \<Rightarrow> 's graph_reader \<Rightarrow> string \<Rightarrow> 's \<Rightarrow> collector \<times> string list \<Rightarrow> collector \<times> string list" where
  "collect_replica_sets L R namespace selector st =
     (let (c, owners) = st;
          (c, items) = gc_list R namespace replica_set_kind (Matching selector) c
      in fold (\<lambda>rs (c, owners). if ownedBy L rs owners then (gc_add L rs c, GetUID L rs # owners) else (c, owners)) items (c, owners))"

definition collect_all :: "lib \<Rightarrow> 's graph_reader \<Rightarrow> string \<Rightarrow> gvk \<Rightarrow> 's list_by \<Rightarrow> collector \<Rightarrow> collector" where
  "collect_all L R namespace kind by c =
     (let (c, items) = gc_list R namespace kind by c in fold (gc_add L) items c)"

record reference_state =
  rs_collector :: collector
  rs_checked :: "resource_id list"
  rs_unreadable :: "resource_id list"
  rs_fetched :: bool

definition check_reference :: "lib \<Rightarrow> 's graph_reader \<Rightarrow> resource_id \<Rightarrow> reference_state \<Rightarrow> reference_state" where
  "check_reference L R i st =
     (if i \<in> set (rs_checked st) then st
      else let st = st\<lparr>rs_checked := i # rs_checked st\<rparr> in
           if length (rs_checked st) > CollectReferenceLimit \<or> gc_budget (rs_collector st) \<le> 0
           then st\<lparr>rs_unreadable := rs_unreadable st @ [i]\<rparr>
           else (case gc_get L R i of
                   Fetched obj \<Rightarrow> st\<lparr>rs_collector := gc_add L obj (rs_collector st), rs_fetched := True\<rparr>
                 | NotThere \<Rightarrow> st
                 | Unchecked \<Rightarrow> st\<lparr>rs_unreadable := rs_unreadable st @ [i]\<rparr>))"

fun reference_rounds :: "nat \<Rightarrow> lib \<Rightarrow> 's graph_lib \<Rightarrow> 's graph_reader \<Rightarrow> reference_state \<Rightarrow> reference_state" where
  "reference_rounds 0 L S R st = st"
| "reference_rounds (Suc n) L S R st =
     (let st = fold (check_reference L R) (Missing (Graph_Build L S (gc_objects (rs_collector st)))) (st\<lparr>rs_fetched := False\<rparr>)
      in if rs_fetched st then reference_rounds n L S R st else st)"

definition Collect :: "lib \<Rightarrow> 's graph_lib \<Rightarrow> 's graph_reader \<Rightarrow> string \<Rightarrow> unstructured list \<Rightarrow> graph \<times> unstructured list" where
  "Collect L S R namespace managed =
     (let uids = map (GetUID L) managed;
          c = \<lparr>gc_objects = managed, gc_seen = uids, gc_budget = CollectObjectLimit, gc_unread = []\<rparr>;
          (selectors, deploymentSelectors, services) = fold (scope_step L S) managed ([], [], []);
          c = fst (fold (collect_replica_sets L R namespace) deploymentSelectors (c, uids));
          c = fold (\<lambda>s. collect_all L R namespace pod_kind (Matching s)) selectors c;
          c = fold (\<lambda>service. collect_all L R namespace endpoint_slice_kind (Labelled ''kubernetes.io/service-name'' service)) services c;
          st = reference_rounds 3 L S R \<lparr>rs_collector = c, rs_checked = [], rs_unreadable = [], rs_fetched = False\<rparr>;
          c = rs_collector st;
          g = MarkUnreadable (rs_unreadable st) (Graph_Build L S (gc_objects c))
      in (g\<lparr>g_Unread := sort_by (\<lambda>x y. x < y) (gc_unread c)\<rparr>, gc_objects c))"

subsection \<open>What the builder keeps\<close>

definition node_ids :: "builder \<Rightarrow> resource_id set" where
  "node_ids b = nd_ID ` snd ` set (bd_nodes b)"

lemma node_idsI: "map_of (bd_nodes b) k = Some n \<Longrightarrow> nd_ID n \<in> node_ids b"
  by (force simp: node_ids_def dest: map_of_SomeD)

lemma link_nodes [simp]: "bd_nodes (link src tgt kind optnl b) = bd_nodes b"
  and link_objects [simp]: "bd_objects (link src tgt kind optnl b) = bd_objects b"
  by (simp_all add: link_def Let_def split: option.split)

lemma node_ids_link [simp]: "node_ids (link src tgt kind optnl b) = node_ids b"
  by (simp add: node_ids_def)

lemma reference_objects [simp]: "bd_objects (reference src tgt kind optnl b) = bd_objects b"
  by (simp add: reference_def split: option.split)

lemma reference_nodes: "node_ids b \<subseteq> node_ids (reference src tgt kind optnl b)"
  by (auto simp: reference_def node_ids_def split: option.split)

text \<open>Every step of \<open>infer\<close> is a \<open>link\<close> between nodes or a \<open>reference\<close> from one. What relates two
  builders that hold the same nodes and objects and survives these two therefore survives
  \<open>infer\<close>; an invariant is the relation of a builder to itself.\<close>

locale builder_relation =
  fixes R :: "builder \<Rightarrow> builder \<Rightarrow> bool"
  assumes same: "R b b' \<Longrightarrow> map_of (bd_nodes b) = map_of (bd_nodes b') \<and> map_of (bd_objects b) = map_of (bd_objects b')
      \<and> node_ids b = node_ids b'"
    and links: "R b b' \<Longrightarrow> src \<in> node_ids b \<Longrightarrow> tgt \<in> node_ids b \<Longrightarrow> R (link src tgt kind optnl b) (link src tgt kind optnl b')"
    and references: "R b b' \<Longrightarrow> src \<in> node_ids b \<Longrightarrow> R (reference src tgt kind optnl b) (reference src tgt kind optnl b')"
begin

text \<open>A step keeps the relation and the node it starts from.\<close>

definition keeps :: "resource_id \<Rightarrow> (builder \<Rightarrow> builder) \<Rightarrow> bool" where
  "keeps i f \<longleftrightarrow> (\<forall>b b'. R b b' \<longrightarrow> i \<in> node_ids b \<longrightarrow> R (f b) (f b') \<and> i \<in> node_ids (f b))"

lemma keepsI: "(\<And>b b'. R b b' \<Longrightarrow> i \<in> node_ids b \<Longrightarrow> R (f b) (f b') \<and> i \<in> node_ids (f b)) \<Longrightarrow> keeps i f"
  by (simp add: keeps_def)

lemma keepsD: "keeps i f \<Longrightarrow> R b b' \<Longrightarrow> i \<in> node_ids b \<Longrightarrow> R (f b) (f b') \<and> i \<in> node_ids (f b)"
  by (simp add: keeps_def)

lemma keeps_id: "keeps i (\<lambda>b. b)"
  by (simp add: keeps_def)

lemma keeps_fold: "(\<And>x. x \<in> set xs \<Longrightarrow> keeps i (f x)) \<Longrightarrow> keeps i (fold f xs)"
proof (induction xs)
  case (Cons x xs)
  then have "keeps i (f x)" "keeps i (fold f xs)"
    by simp_all
  then show ?case
    unfolding keeps_def by (metis fold_simps(2))
qed (simp add: keeps_def)

lemma keeps_reference: "keeps i (reference i tgt kind optnl)"
  using references reference_nodes by (fastforce simp: keeps_def)

lemma keeps_link_owner: "keeps i (link_owner L i owner)"
proof (rule keepsI)
  fix b b' assume r: "R b b'" "i \<in> node_ids b"
  then show "R (link_owner L i owner b) (link_owner L i owner b') \<and> i \<in> node_ids (link_owner L i owner b)"
    using same [OF r(1)] links [OF r(1)] node_idsI [of b]
    by (auto simp: link_owner_def split: option.split)
qed

lemma keeps_select_one: "keeps i (select_one L S i selector workloads key)"
proof (rule keepsI)
  fix b b' assume r: "R b b'" "i \<in> node_ids b"
  show "R (select_one L S i selector workloads key b) (select_one L S i selector workloads key b')
      \<and> i \<in> node_ids (select_one L S i selector workloads key b)"
  proof (cases "map_of (bd_nodes b) key")
    case (Some n)
    then have "R (link i (nd_ID n) EdgeSelects False b) (link i (nd_ID n) EdgeSelects False b')"
      using links [OF r] node_idsI by blast
    with Some r same [OF r(1)] show ?thesis
      by (simp add: select_one_def Let_def split: option.split)
  qed (use r same [OF r(1)] in \<open>simp add: select_one_def\<close>)
qed

lemma keeps_ingress: "keeps i (ingress L i obj)"
  unfolding ingress_def using keeps_reference by (intro keeps_fold) (auto simp: keeps_def Let_def)

lemma keeps_podSpec: "keeps i (podSpec i spec)"
  unfolding podSpec_def by (rule keeps_fold) (rule keeps_reference)

lemma keeps_infer_kind: "keeps i (infer_kind L S i obj keys)"
proof (rule keepsI)
  fix b b' assume r: "R b b'" "i \<in> node_ids b"
  have "R (link (nd_ID n) i EdgeEndpoints False b) (link (nd_ID n) i EdgeEndpoints False b')"
    if "map_of (bd_nodes b) k = Some n" for k n
    using links [OF r(1) node_idsI [OF that] r(2)] .
  moreover have "keeps i (selects L S i s keys workloads)" for s workloads
    unfolding selects_def by (rule keeps_fold) (rule keeps_select_one)
  moreover have "keeps i (autoscaler L i obj)"
    using keeps_reference keeps_id by (auto simp: autoscaler_def keeps_def Let_def split: option.split)
  ultimately show "R (infer_kind L S i obj keys b) (infer_kind L S i obj keys b') \<and> i \<in> node_ids (infer_kind L S i obj keys b)"
    using r same [OF r(1)] keepsD [OF keeps_ingress r] keepsD [OF keeps_reference r] keepsD [OF _ r]
    by (auto simp: infer_kind_def Let_def split: option.split)
qed

lemma keeps_infer: "keeps i (infer L S i obj keys)"
proof (rule keepsI)
  fix b b' assume r: "R b b'" "i \<in> node_ids b"
  have "keeps i (fold (link_owner L i) (GetOwnerReferences L obj))"
    by (rule keeps_fold) (rule keeps_link_owner)
  note owners = keepsD [OF this r]
  note kind = keepsD [OF keeps_infer_kind conjunct1 [OF owners] conjunct2 [OF owners], of L S obj keys]
  show "R (infer L S i obj keys b) (infer L S i obj keys b') \<and> i \<in> node_ids (infer L S i obj keys b)"
    using kind keepsD [OF keeps_podSpec conjunct1 [OF kind] conjunct2 [OF kind]]
    by (auto simp: infer_def Let_def split: option.split)
qed

lemma infer_keys: "R b b' \<Longrightarrow> R (fold (infer_key L S keys) ks b) (fold (infer_key L S keys) ks b')"
proof (induction ks arbitrary: b b')
  case (Cons k ks)
  have "R (infer_key L S keys k b) (infer_key L S keys k b')"
  proof (cases "map_of (bd_nodes b) k")
    case (Some n)
    then show ?thesis
      using Cons.prems same [OF Cons.prems] keepsD [OF keeps_infer Cons.prems node_idsI [OF Some]]
      by (auto simp: infer_key_def split: option.split)
  qed (use Cons.prems same [OF Cons.prems] in \<open>simp add: infer_key_def\<close>)
  then show ?case
    using Cons.IH by simp
qed simp

end

subsection \<open>Well-formed graphs\<close>

text \<open>An edge without its flag, with the key it is stored under: a \<open>link\<close> appends one, or leaves them
  all as they are.\<close>

definition shapes :: "builder \<Rightarrow> (string \<times> resource_id \<times> resource_id \<times> edge_type) list" where
  "shapes b = map (\<lambda>(k, e). (k, ed_From e, ed_To e, ed_Type e)) (bd_edges b)"

definition shape_key :: "resource_id \<Rightarrow> resource_id \<Rightarrow> edge_type \<Rightarrow> string" where
  "shape_key src tgt kind = Key src @ ''->'' @ Key tgt @ '':'' @ edge_type_string kind"

lemma shapesI: "(k, e) \<in> set (bd_edges b) \<Longrightarrow> (k, ed_From e, ed_To e, ed_Type e) \<in> set (shapes b)"
  unfolding shapes_def set_map by (rule image_eqI [of _ _ "(k, e)"]) simp_all

lemma shapes_update:
  "map_of es k = Some e \<Longrightarrow> ed_From e' = ed_From e \<Longrightarrow> ed_To e' = ed_To e \<Longrightarrow> ed_Type e' = ed_Type e \<Longrightarrow>
   map (\<lambda>(k, e). (k, ed_From e, ed_To e, ed_Type e)) (AList.update k e' es) = map (\<lambda>(k, e). (k, ed_From e, ed_To e, ed_Type e)) es"
  by (induction es) (auto split: if_splits)

lemma shapes_keys: "fst ` set (shapes b) = dom (map_of (bd_edges b))"
  by (force simp: shapes_def dom_map_of_conv_image_fst)

lemma link_shapes:
  "shapes (link src tgt kind optnl b) =
     (if shape_key src tgt kind \<in> fst ` set (shapes b) then shapes b else shapes b @ [(shape_key src tgt kind, src, tgt, kind)])"
proof (cases "map_of (bd_edges b) (shape_key src tgt kind)")
  case None
  then show ?thesis
    unfolding shapes_keys link_def Let_def shape_key_def [symmetric] by (simp add: shapes_def dom_def)
next
  case (Some e)
  then show ?thesis
    unfolding shapes_keys link_def Let_def shape_key_def [symmetric] by (simp add: shapes_def dom_def shapes_update)
qed

text \<open>The builder's maps are maps, keyed by identity; edges join nodes; a node is missing when the
  input has no object for it.\<close>

definition builder_ok :: "builder \<Rightarrow> bool" where
  "builder_ok b \<longleftrightarrow> distinct (map fst (bd_nodes b)) \<and> distinct (map fst (shapes b))
     \<and> (\<forall>k n. (k, n) \<in> set (bd_nodes b) \<longrightarrow> k = Key (nd_ID n) \<and> \<not> nd_Unreadable n \<and> nd_Missing n = (map_of (bd_objects b) k = None))
     \<and> dom (map_of (bd_objects b)) \<subseteq> dom (map_of (bd_nodes b))
     \<and> (\<forall>k src tgt kind. (k, src, tgt, kind) \<in> set (shapes b) \<longrightarrow> k = shape_key src tgt kind \<and> src \<in> node_ids b \<and> tgt \<in> node_ids b)"

lemma builder_okD:
  assumes "builder_ok b"
  shows "distinct (map fst (bd_nodes b))" "distinct (map fst (shapes b))"
    and "(k, n) \<in> set (bd_nodes b) \<Longrightarrow> k = Key (nd_ID n) \<and> \<not> nd_Unreadable n \<and> nd_Missing n = (map_of (bd_objects b) k = None)"
    and "dom (map_of (bd_objects b)) \<subseteq> dom (map_of (bd_nodes b))"
    and "(k', src, tgt, kind) \<in> set (shapes b) \<Longrightarrow> k' = shape_key src tgt kind \<and> src \<in> node_ids b \<and> tgt \<in> node_ids b"
  using assms unfolding builder_ok_def by blast+

lemma builder_ok_link:
  assumes "builder_ok b" "src \<in> node_ids b" "tgt \<in> node_ids b"
  shows "builder_ok (link src tgt kind optnl b)"
  using assms unfolding builder_ok_def link_shapes link_nodes link_objects node_ids_link
  by (auto simp: case_prod_unfold)

lemma reference_cases:
  obtains n where "map_of (bd_nodes b) (Key tgt) = Some n" "reference src tgt kind optnl b = link src (nd_ID n) kind optnl b"
  | b1 where "map_of (bd_nodes b) (Key tgt) = None" "reference src tgt kind optnl b = link src tgt kind optnl b1"
      "b1 = b\<lparr>bd_nodes := bd_nodes b @ [(Key tgt, \<lparr>nd_ID = tgt, nd_Missing = True, nd_Unreadable = False\<rparr>)]\<rparr>"
  by (cases "map_of (bd_nodes b) (Key tgt)") (auto simp: reference_def)

lemma builder_ok_reference:
  assumes ok: "builder_ok b" and src: "src \<in> node_ids b"
  shows "builder_ok (reference src tgt kind optnl b)"
proof (cases rule: reference_cases [of b tgt src kind optnl])
  case (1 n)
  then show ?thesis
    using builder_ok_link [OF ok src] node_idsI by metis
next
  case (2 b1)
  have ids: "node_ids b1 = insert tgt (node_ids b)"
    using 2(3) by (simp add: node_ids_def)
  have "Key tgt \<notin> fst ` set (bd_nodes b)"
    using 2(1) by (simp add: map_of_eq_None_iff)
  moreover have "Key tgt \<notin> dom (map_of (bd_objects b))"
    using 2(1) builder_okD(4) [OF ok] by blast
  ultimately have "builder_ok b1"
    using ok unfolding builder_ok_def ids by (auto simp: 2(3) shapes_def case_prod_unfold domIff)
  then show ?thesis
    unfolding 2(2) by (rule builder_ok_link) (simp_all add: ids src)
qed

interpretation ok: builder_relation "\<lambda>b b'. b = b' \<and> builder_ok b"
  by unfold_locales (auto intro: builder_ok_link builder_ok_reference)

text \<open>Registration: one node per object that has an identity, in the order of the input; the first
  object of an identity is kept.\<close>

definition registered :: "builder \<Rightarrow> bool" where
  "registered b \<longleftrightarrow> bd_edges b = [] \<and> distinct (map fst (bd_objects b)) \<and> map fst (bd_nodes b) = map fst (bd_objects b)
     \<and> (\<forall>k n. (k, n) \<in> set (bd_nodes b) \<longrightarrow> k = Key (nd_ID n) \<and> \<not> nd_Missing n \<and> \<not> nd_Unreadable n)"

lemma registered_ok:
  assumes "registered b"
  shows "builder_ok b"
proof -
  have keys: "fst ` set (bd_nodes b) = fst ` set (bd_objects b)"
    using assms unfolding registered_def by (metis list.set_map)
  then have "dom (map_of (bd_objects b)) = dom (map_of (bd_nodes b))"
    by (simp add: dom_map_of_conv_image_fst)
  moreover have "map_of (bd_objects b) k \<noteq> None" if "(k, n) \<in> set (bd_nodes b)" for k n
    using that keys by (metis fst_conv image_eqI map_of_eq_None_iff)
  moreover have "shapes b = []" "distinct (map fst (bd_nodes b))"
    using assms by (simp_all add: registered_def shapes_def)
  ultimately show ?thesis
    using assms unfolding registered_def builder_ok_def by simp
qed

lemma register_object_registered:
  assumes "registered b"
  shows "registered (register_object L obj b)"
proof -
  have "fst ` set (bd_nodes b) = fst ` set (bd_objects b)"
    using assms unfolding registered_def by (metis list.set_map)
  then show ?thesis
    using assms by (simp add: registered_def register_object_def map_of_eq_None_iff split: sum.split)
qed

definition registration :: "lib \<Rightarrow> unstructured list \<Rightarrow> builder" where
  "registration L objects = fold (register_object L) objects \<lparr>bd_nodes = [], bd_objects = [], bd_edges = []\<rparr>"

lemma fold_invariant_list: "P x \<Longrightarrow> (\<And>a x. P x \<Longrightarrow> P (f a x)) \<Longrightarrow> P (fold f xs x)"
  by (induction xs arbitrary: x) auto

lemma registration_registered: "registered (registration L objects)"
  unfolding registration_def
  by (rule fold_invariant_list [of registered]) (simp add: registered_def, rule register_object_registered)

lemma register_object_keys:
  "fst ` set (bd_objects (register_object L obj b)) = fst ` set (bd_objects b) \<union> (case FromObject L obj of Inr i \<Rightarrow> {Key i} | Inl _ \<Rightarrow> {})"
  by (auto simp: register_object_def map_of_eq_None_iff image_iff split: sum.split)

lemma registration_keys: "fst ` set (bd_objects (registration L objects)) = {Key i | i obj. obj \<in> set objects \<and> FromObject L obj = Inr i}"
proof -
  have "fst ` set (bd_objects (fold (register_object L) objects b)) = fst ` set (bd_objects b) \<union> {Key i | i obj. obj \<in> set objects \<and> FromObject L obj = Inr i}" for b
    by (induction objects arbitrary: b) (auto simp: register_object_keys split: sum.splits)
  then show ?thesis
    by (simp add: registration_def)
qed

definition inferred :: "lib \<Rightarrow> 's graph_lib \<Rightarrow> builder \<Rightarrow> builder" where
  "inferred L S b = (let keys = sort_by (\<lambda>x y. x < y) (map fst (bd_objects b)) in fold (infer_key L S keys) keys b)"

lemma Graph_Build_inferred: "Graph_Build L S objects = builder_graph L (inferred L S (registration L objects))"
  by (simp add: Graph_Build_def inferred_def registration_def Let_def)

lemma inferred_ok: "builder_ok (inferred L S (registration L objects))"
  unfolding inferred_def Let_def
  by (rule conjunct2, rule ok.infer_keys) (simp add: registered_ok registration_registered)

text \<open>Inference changes no object, and keeps every node.\<close>

interpretation grows: builder_relation "\<lambda>b b'. b = b' \<and> bd_objects b = objs \<and> ns \<subseteq> set (bd_nodes b)"
proof
  fix b b' :: builder and src tgt kind optnl
  assume "b = b' \<and> bd_objects b = objs \<and> ns \<subseteq> set (bd_nodes b)"
  then show "reference src tgt kind optnl b = reference src tgt kind optnl b' \<and>
      bd_objects (reference src tgt kind optnl b) = objs \<and> ns \<subseteq> set (bd_nodes (reference src tgt kind optnl b))"
    by (auto simp: reference_def split: option.split)
qed auto

lemma inferred_grows:
  "bd_objects (inferred L S b) = bd_objects b" "set (bd_nodes b) \<subseteq> set (bd_nodes (inferred L S b))"
  using grows.infer_keys [of b b "bd_objects b" "set (bd_nodes b)"] unfolding inferred_def Let_def by blast+

lemma map_snd_keyed: "(\<And>k x. (k, x) \<in> set m \<Longrightarrow> k = f x) \<Longrightarrow> map f (map snd m) = map fst m"
  by (induction m) (auto, metis)

lemma distinct_map_comp: "distinct (map (g \<circ> f) xs) \<Longrightarrow> distinct (map f xs)"
  by (metis distinct_map map_map)

lemma distinct_map_sort_by: "distinct (map f (sort_by lt xs)) = distinct (map f xs)"
  by (metis mset_map mset_sort_by mset_eq_imp_distinct_iff)

lemma builder_graph_nodes: "set (g_Nodes (builder_graph L b)) = snd ` set (bd_nodes b)"
  and builder_graph_edges: "set (g_Edges (builder_graph L b)) = snd ` set (bd_edges b)"
  by (simp_all add: builder_graph_def Let_def)

lemma builder_graph_ids: "nd_ID ` set (g_Nodes (builder_graph L b)) = node_ids b"
  by (simp add: builder_graph_nodes node_ids_def)

lemma builder_graph_distinct_nodes:
  assumes "builder_ok b"
  shows "distinct (map (Key \<circ> nd_ID) (g_Nodes (builder_graph L b)))"
proof -
  have "map (Key \<circ> nd_ID) (map snd (bd_nodes b)) = map fst (bd_nodes b)"
    by (rule map_snd_keyed) (simp add: builder_okD(3) [OF assms])
  then show ?thesis
    using builder_okD(1) [OF assms] by (simp add: builder_graph_def Let_def distinct_map_sort_by del: map_map)
qed

lemma builder_graph_distinct_edges:
  assumes "builder_ok b"
  shows "distinct (map (\<lambda>e. (Key (ed_From e), Key (ed_To e), ed_Type e)) (g_Edges (builder_graph L b)))"
proof -
  let ?txt = "\<lambda>(s, t, kind). s @ ''->'' @ t @ '':'' @ edge_type_string kind"
  let ?key = "\<lambda>e. (Key (ed_From e), Key (ed_To e), ed_Type e)"
  have key: "k = shape_key (ed_From e) (ed_To e) (ed_Type e)" if "(k, e) \<in> set (bd_edges b)" for k e
    using that builder_okD(5) [OF assms, OF shapesI] by blast
  have "map (?txt \<circ> ?key) (map snd (bd_edges b)) = map fst (bd_edges b)"
    by (rule map_snd_keyed) (drule key, simp add: shape_key_def)
  moreover have "map fst (shapes b) = map fst (bd_edges b)"
    by (simp add: shapes_def comp_def case_prod_unfold)
  ultimately have "distinct (map (?txt \<circ> ?key) (map snd (bd_edges b)))"
    using builder_okD(2) [OF assms] by metis
  then have "distinct (map ?key (map snd (bd_edges b)))"
    by (rule distinct_map_comp)
  then show ?thesis
    by (simp add: builder_graph_def Let_def distinct_map_sort_by del: map_map)
qed

text \<open>C14. A graph is well formed: every object of the input has a node and no identity has two; edges
  join nodes of the graph, at most one of a type between two of them; and a node is marked missing
  exactly when the input holds no object of that identity.\<close>

theorem Graph_Build_wf:
  assumes "g = Graph_Build L S objects"
  shows "distinct (map (Key \<circ> nd_ID) (g_Nodes g))
    \<and> distinct (map (\<lambda>e. (Key (ed_From e), Key (ed_To e), ed_Type e)) (g_Edges g))
    \<and> (\<forall>e \<in> set (g_Edges g). {ed_From e, ed_To e} \<subseteq> nd_ID ` set (g_Nodes g))
    \<and> (\<forall>n \<in> set (g_Nodes g). nd_Missing n \<longleftrightarrow> Key (nd_ID n) \<notin> Key ` {i. \<exists>obj \<in> set objects. FromObject L obj = Inr i})
    \<and> Key ` {i. \<exists>obj \<in> set objects. FromObject L obj = Inr i} \<subseteq> (Key \<circ> nd_ID) ` set (g_Nodes g)"
proof -
  define b where "b = inferred L S (registration L objects)"
  have g: "g = builder_graph L b"
    using assms by (simp add: Graph_Build_inferred b_def)
  have ok: "builder_ok b"
    unfolding b_def by (rule inferred_ok)
  have keys: "fst ` set (bd_objects b) = Key ` {i. \<exists>obj \<in> set objects. FromObject L obj = Inr i}"
    unfolding b_def inferred_grows(1) registration_keys by auto
  have edges: "{ed_From e, ed_To e} \<subseteq> nd_ID ` set (g_Nodes g)" if e: "e \<in> set (g_Edges g)" for e
  proof -
    obtain k where "(k, e) \<in> set (bd_edges b)"
      using e unfolding g builder_graph_edges by auto
    then show ?thesis
      using builder_okD(5) [OF ok shapesI] unfolding g builder_graph_ids by blast
  qed
  have node: "\<exists>k. (k, n) \<in> set (bd_nodes b)" if "n \<in> set (g_Nodes g)" for n
    using that unfolding g builder_graph_nodes by auto
  have missing: "nd_Missing n \<longleftrightarrow> Key (nd_ID n) \<notin> fst ` set (bd_objects b)" if "n \<in> set (g_Nodes g)" for n
    using node [OF that] builder_okD(3) [OF ok] by (metis map_of_eq_None_iff)
  have covered: "k \<in> (Key \<circ> nd_ID) ` set (g_Nodes g)" if k: "k \<in> fst ` set (bd_objects b)" for k
  proof -
    have "k \<in> dom (map_of (bd_nodes b))"
      using k builder_okD(4) [OF ok] by (auto simp: dom_map_of_conv_image_fst)
    then obtain n where "(k, n) \<in> set (bd_nodes b)"
      by (auto dest: map_of_SomeD)
    then show ?thesis
      using builder_okD(3) [OF ok] unfolding g builder_graph_nodes by (metis comp_apply image_eqI snd_conv)
  qed
  have "distinct (map (Key \<circ> nd_ID) (g_Nodes g))"
    and "distinct (map (\<lambda>e. (Key (ed_From e), Key (ed_To e), ed_Type e)) (g_Edges g))"
    unfolding g by (rule builder_graph_distinct_nodes [OF ok], rule builder_graph_distinct_edges [OF ok])
  then show ?thesis
    unfolding keys [symmetric] by (intro conjI ballI subsetI edges missing covered)
qed

subsection \<open>The order of the input\<close>

interpretation by_id: key_order "\<lambda>n. ID_String L (nd_ID n)" for L .

interpretation by_name: key_order "\<lambda>k :: string. k" .

interpretation reordered: builder_relation
  "\<lambda>b b'. map_of (bd_nodes b) = map_of (bd_nodes b') \<and> mset (bd_nodes b) = mset (bd_nodes b')
     \<and> map_of (bd_objects b) = map_of (bd_objects b') \<and> bd_edges b = bd_edges b'"
proof (unfold_locales, goal_cases)
  case (1 b b')
  then show ?case
    unfolding node_ids_def by (metis set_mset_mset)
next
  case (2 b b' src tgt kind optnl)
  then show ?case
    by (auto simp: link_def Let_def split: option.split)
next
  case (3 b b' src tgt kind optnl)
  then show ?case
    by (auto simp: reference_def link_def Let_def map_add_def split: option.split)
qed

definition identified :: "lib \<Rightarrow> unstructured list \<Rightarrow> (string \<times> resource_id \<times> unstructured) list" where
  "identified L objects = List.map_filter (\<lambda>obj. map_option (\<lambda>i. (Key i, i, obj)) (object_id L obj)) objects"

lemma registration_once:
  assumes "distinct (map fst (identified L objects))"
  shows "bd_objects (registration L objects) = map (\<lambda>(k, i, obj). (k, obj)) (identified L objects)
    \<and> bd_nodes (registration L objects) = map (\<lambda>(k, i, obj). (k, \<lparr>nd_ID = i, nd_Missing = False, nd_Unreadable = False\<rparr>)) (identified L objects)
    \<and> bd_edges (registration L objects) = []"
  using assms
proof (induction objects rule: rev_induct)
  case (snoc obj objects)
  have split: "identified L (objects @ [obj]) = identified L objects @ identified L [obj]"
    by (simp add: identified_def List.map_filter_def)
  have step: "registration L (objects @ [obj]) = register_object L obj (registration L objects)"
    by (simp add: registration_def)
  have IH: "bd_objects (registration L objects) = map (\<lambda>(k, i, obj). (k, obj)) (identified L objects)"
    "bd_nodes (registration L objects) = map (\<lambda>(k, i, obj). (k, \<lparr>nd_ID = i, nd_Missing = False, nd_Unreadable = False\<rparr>)) (identified L objects)"
    "bd_edges (registration L objects) = []"
    using snoc by (simp_all add: split)
  show ?case
  proof (cases "FromObject L obj")
    case (Inl e)
    then show ?thesis
      using IH by (simp add: split step register_object_def identified_def [of L "[obj]"] List.map_filter_def object_id_def)
  next
    case (Inr i)
    then have one: "identified L [obj] = [(Key i, i, obj)]"
      by (simp add: identified_def List.map_filter_def object_id_def)
    then have "Key i \<notin> fst ` set (bd_objects (registration L objects))"
      using snoc.prems unfolding IH(1) split by (force simp: image_image case_prod_unfold)
    then show ?thesis
      using IH Inr by (simp add: split step one register_object_def map_of_eq_None_iff)
  qed
qed (simp add: registration_def identified_def List.map_filter_def)

lemma identified_mset: "mset objects = mset objects' \<Longrightarrow> mset (identified L objects) = mset (identified L objects')"
  unfolding identified_def List.map_filter_def by (simp add: mset_filter)

lemma Graph_Build_nodes_distinct: "distinct (map (Key \<circ> nd_ID) (g_Nodes (Graph_Build L S objects)))"
  unfolding Graph_Build_inferred by (rule builder_graph_distinct_nodes [OF inferred_ok])

text \<open>The graph is deterministic: where every identity occurs once and the nodes' identities print
  differently, the order of the objects changes nothing in it.\<close>

theorem Graph_Build_deterministic:
  assumes "mset objects' = mset objects" "distinct (map fst (identified L objects))"
    and "inj_on (ID_String L) (nd_ID ` set (g_Nodes (Graph_Build L S objects)))"
  shows "Graph_Build L S objects' = Graph_Build L S objects"
proof -
  have ids: "mset (identified L objects') = mset (identified L objects)"
    by (rule identified_mset [OF assms(1)])
  then have dist: "distinct (map fst (identified L objects'))"
    using assms(2) by (metis mset_map mset_eq_imp_distinct_iff)
  define b b' where "b = registration L objects" and "b' = registration L objects'"
  note reg = registration_once [OF assms(2), folded b_def] registration_once [OF dist, folded b'_def]
  have same: "mset (bd_nodes b') = mset (bd_nodes b)" "mset (bd_objects b') = mset (bd_objects b)" "bd_edges b' = bd_edges b"
    using reg ids by simp_all
  moreover have maps: "map_of (bd_nodes b') = map_of (bd_nodes b)" "map_of (bd_objects b') = map_of (bd_objects b)"
    using same registered_ok [OF registration_registered] registration_registered unfolding b_def b'_def registered_def
    by (metis map_of_inject_set set_mset_mset)+
  moreover have "sort_by (\<lambda>x y. x < y) (map fst (bd_objects b')) = sort_by (\<lambda>x y. x < y) (map fst (bd_objects b))"
    by (rule by_name.sort_by_perm) (simp_all add: same)
  ultimately have out: "mset (bd_nodes (inferred L S b')) = mset (bd_nodes (inferred L S b))" "bd_edges (inferred L S b') = bd_edges (inferred L S b)"
    using reordered.infer_keys [of b' b L S] unfolding inferred_def Let_def by metis+
  have "sort_by (\<lambda>x y. ID_String L (nd_ID x) < ID_String L (nd_ID y)) (map snd (bd_nodes (inferred L S b')))
     = sort_by (\<lambda>x y. ID_String L (nd_ID x) < ID_String L (nd_ID y)) (map snd (bd_nodes (inferred L S b)))"
  proof (rule by_id.sort_by_perm)
    show "mset (map snd (bd_nodes (inferred L S b'))) = mset (map snd (bd_nodes (inferred L S b)))"
      using out(1) by simp
    fix x y
    assume "x \<in> set (map snd (bd_nodes (inferred L S b')))" "y \<in> set (map snd (bd_nodes (inferred L S b')))"
      and "\<not> ID_String L (nd_ID x) < ID_String L (nd_ID y)" "\<not> ID_String L (nd_ID y) < ID_String L (nd_ID x)"
    then have xy: "x \<in> set (g_Nodes (Graph_Build L S objects))" "y \<in> set (g_Nodes (Graph_Build L S objects))"
        "ID_String L (nd_ID x) = ID_String L (nd_ID y)"
      using out(1) unfolding Graph_Build_inferred builder_graph_nodes b_def [symmetric] by (simp_all flip: set_mset_mset)
    then have "nd_ID x = nd_ID y"
      using assms(3) by (meson imageI inj_onD)
    moreover have "inj_on (Key \<circ> nd_ID) (set (g_Nodes (Graph_Build L S objects)))"
      using Graph_Build_nodes_distinct by (metis distinct_map)
    ultimately show "x = y"
      using xy by (simp add: inj_on_def)
  qed
  then show ?thesis
    using out unfolding Graph_Build_inferred b_def [symmetric] b'_def [symmetric] by (simp add: builder_graph_def Let_def)
qed

subsection \<open>Reading a built graph\<close>

lemma g_out_filter: "g_out (builder_graph L b) k = filter (\<lambda>e. Key (ed_From e) = k) (g_Edges (builder_graph L b))"
proof -
  have "foldl (\<lambda>m e. m(Key (ed_From e) := m (Key (ed_From e)) @ [e])) f es k = f k @ filter (\<lambda>e. Key (ed_From e) = k) es"
    for f and es :: "edge list"
    by (induction es arbitrary: f) auto
  then show ?thesis
    by (simp add: builder_graph_def Let_def)
qed

lemma Out_Build: "Out (Graph_Build L S objects) i = filter (\<lambda>e. Key (ed_From e) = Key i) (g_Edges (Graph_Build L S objects))"
  unfolding Out_def Graph_Build_inferred by (rule g_out_filter)

lemma MarkUnreadable_keeps [simp]: "g_Edges (MarkUnreadable ids g) = g_Edges g" "g_out (MarkUnreadable ids g) = g_out g"
  unfolding MarkUnreadable_def by (induction ids arbitrary: g) (auto split: option.split)

lemma Collect_edges:
  assumes "Collect L S R namespace managed = (g, objects)"
  shows "g_Edges g = g_Edges (Graph_Build L S objects)" "Out g i = filter (\<lambda>e. Key (ed_From e) = Key i) (g_Edges g)"
  using assms Out_Build [of L S objects i] by (auto simp: Collect_def Out_def Let_def split: prod.splits)

subsection \<open>How much is read\<close>

text \<open>What \<open>Collect\<close> has read, and its budget, always add up to the limit; no list is longer than the
  budget left, so the budget never becomes negative.\<close>

definition in_budget :: "nat \<Rightarrow> collector \<Rightarrow> bool" where
  "in_budget n c \<longleftrightarrow> 0 \<le> gc_budget c \<and> int (length (gc_objects c)) + gc_budget c = int n + CollectObjectLimit"

definition limited :: "'s graph_reader \<Rightarrow> bool" where
  "limited R \<longleftrightarrow> (\<forall>kind namespace limit by items. gr_List R kind namespace limit by = Inr items \<longrightarrow> int (length items) \<le> limit)"

lemma gc_add_budget:
  "in_budget n c \<Longrightarrow> 0 < gc_budget c \<Longrightarrow> in_budget n (gc_add L obj c)"
  "gc_budget c - 1 \<le> gc_budget (gc_add L obj c)"
  by (auto simp: in_budget_def gc_add_def Let_def)

lemma gc_adds_budget:
  "in_budget n c \<Longrightarrow> int (length items) \<le> gc_budget c \<Longrightarrow> in_budget n (fold (gc_add L) items c)"
proof (induction items arbitrary: c)
  case (Cons obj items)
  then have "in_budget n (gc_add L obj c)"
    by (intro gc_add_budget(1)) auto
  moreover have "int (length items) \<le> gc_budget (gc_add L obj c)"
    using Cons.prems(2) gc_add_budget(2) [of c L obj] by simp
  ultimately show ?case
    using Cons.IH by simp
qed simp

lemma gc_list_budget:
  assumes "limited R" "in_budget n c" "gc_list R namespace kind by c = (c', items)"
  shows "in_budget n c'" "int (length items) \<le> gc_budget c'"
proof -
  have "gr_List R kind namespace (min CollectListLimit (gc_budget c)) by = Inr items \<Longrightarrow> int (length items) \<le> gc_budget c"
    using assms(1) unfolding limited_def by fastforce
  then show "in_budget n c'" "int (length items) \<le> gc_budget c'"
    using assms(2,3) by (auto simp: gc_list_def in_budget_def Let_def split: if_splits sum.splits)
qed

lemma collect_all_budget: "limited R \<Longrightarrow> in_budget n c \<Longrightarrow> in_budget n (collect_all L R namespace kind by c)"
  by (simp add: collect_all_def gc_adds_budget gc_list_budget split: prod.split)

lemma collect_replica_sets_budget:
  assumes "limited R" "in_budget n (fst st)"
  shows "in_budget n (fst (collect_replica_sets L R namespace selector st))"
proof -
  let ?step = "\<lambda>rs (c, owners). if ownedBy L rs owners then (gc_add L rs c, GetUID L rs # owners) else (c, owners)"
  have adds: "in_budget n (fst (fold ?step items (c, owners)))" if "in_budget n c" "int (length items) \<le> gc_budget c" for items c owners
    using that
  proof (induction items arbitrary: c owners)
    case (Cons rs items)
    then have "in_budget n (gc_add L rs c)" "int (length items) \<le> gc_budget (gc_add L rs c)"
      using gc_add_budget(2) [of c L rs] by (auto intro: gc_add_budget(1))
    then show ?case
      using Cons by simp
  qed simp
  obtain c owners where st: "st = (c, owners)" by (cases st)
  obtain c' items where "gc_list R namespace replica_set_kind (Matching selector) c = (c', items)" by force
  then show ?thesis
    using gc_list_budget [OF assms(1), of n c] assms(2) adds by (simp add: st collect_replica_sets_def)
qed

lemma fold_keeps: "(\<And>x s. P s \<Longrightarrow> P (f x s)) \<Longrightarrow> P s \<Longrightarrow> P (fold f xs s)"
  by (induction xs arbitrary: s) auto

lemma check_reference_budget:
  "in_budget n (rs_collector st) \<Longrightarrow> in_budget n (rs_collector (check_reference L R i st))"
  by (auto simp: check_reference_def Let_def intro: gc_add_budget(1) split: fetched.split)

lemma reference_rounds_budget:
  "in_budget n (rs_collector st) \<Longrightarrow> in_budget n (rs_collector (reference_rounds m L S R st))"
proof (induction m arbitrary: st)
  case (Suc m)
  have "in_budget n (rs_collector (fold (check_reference L R) ids (st\<lparr>rs_fetched := False\<rparr>)))" for ids
    by (rule fold_keeps) (auto intro: check_reference_budget Suc.prems)
  then show ?case
    using Suc.IH by (simp add: Let_def)
qed simp

text \<open>C22. A diagnosis works on a bounded part of the cluster: whatever lives there, \<open>Collect\<close> keeps the
  managed objects and at most \<open>CollectObjectLimit\<close> others, provided a list with a limit returns no
  more than it asks for. What is bounded are the objects it returns; a list may also answer with objects that are
  not kept, such as ReplicaSets nobody managed owns and Pods already seen, and those are not counted.\<close>

theorem Collect_bounded:
  assumes "limited R"
  shows "int (length (snd (Collect L S R namespace managed))) \<le> int (length managed) + CollectObjectLimit"
proof -
  let ?c = "\<lparr>gc_objects = managed, gc_seen = map (GetUID L) managed, gc_budget = CollectObjectLimit, gc_unread = []\<rparr>"
  have start: "in_budget (length managed) ?c"
    by (simp add: in_budget_def CollectObjectLimit_def)
  have sets: "in_budget (length managed) (fst (fold (collect_replica_sets L R namespace) ss (?c, us)))" for ss us
    by (rule fold_keeps [of "\<lambda>st. in_budget (length managed) (fst st)"])
       (simp_all add: collect_replica_sets_budget [OF assms] start)
  have "in_budget (length managed) (fold (\<lambda>x. collect_all L R namespace kind (f x)) xs c)"
    if "in_budget (length managed) c" for c kind xs and f :: "'b \<Rightarrow> 'a list_by"
    by (rule fold_keeps) (auto intro: that collect_all_budget [OF assms])
  note lists = this
  have done_: "int (length (gc_objects c)) \<le> int (length managed) + CollectObjectLimit" if "in_budget (length managed) c" for c
    using that by (simp add: in_budget_def)
  show ?thesis
    unfolding Collect_def Let_def case_prod_unfold snd_conv
    by (intro done_ reference_rounds_budget) (simp only: reference_state.select_convs lists sets)
qed

lemma reference_rounds_cong:
  assumes "check_reference L R = check_reference L R'"
  shows "reference_rounds n L S R = reference_rounds n L S R'"
proof
  fix st show "reference_rounds n L S R st = reference_rounds n L S R' st"
    by (induction n arbitrary: st) (simp_all add: assms Let_def)
qed

text \<open>C21. No Secret is read for a diagnosis: of Secrets, ConfigMaps and ServiceAccounts \<open>Collect\<close> asks
  for the metadata only, and it lists nothing but ReplicaSets, Pods and EndpointSlices; the answers
  to any other read make no difference.\<close>

theorem Collect_never_reads_secrets:
  "Collect L S (R\<lparr>gr_Get := (\<lambda>k ns n. if IdentityOnly k then get k ns n else gr_Get R k ns n),
      gr_List := (\<lambda>k. if gvk_Kind k \<in> {''ReplicaSet'', ''Pod'', ''EndpointSlice''} then gr_List R k else list k)\<rparr>) namespace managed
   = Collect L S R namespace managed"
  (is "Collect L S ?R namespace managed = _")
proof -
  have "gc_list ?R namespace kind how = gc_list R namespace kind how" if "gvk_Kind kind \<in> {''ReplicaSet'', ''Pod'', ''EndpointSlice''}" for kind how
    using that by (simp add: gc_list_def fun_eq_iff split: sum.split)
  then have lists: "collect_replica_sets L ?R namespace = collect_replica_sets L R namespace"
    "collect_all L ?R namespace pod_kind = collect_all L R namespace pod_kind"
    "collect_all L ?R namespace endpoint_slice_kind = collect_all L R namespace endpoint_slice_kind"
    by (auto simp: collect_replica_sets_def collect_all_def fun_eq_iff replica_set_kind_def pod_kind_def endpoint_slice_kind_def)
  have get: "gc_get L ?R = gc_get L R"
    by (auto simp: gc_get_def fun_eq_iff Let_def)
  have "check_reference L ?R = check_reference L R"
    unfolding check_reference_def [abs_def] get ..
  then have "reference_rounds 3 L S ?R = reference_rounds 3 L S R"
    by (rule reference_rounds_cong)
  then show ?thesis
    by (simp only: Collect_def lists)
qed

subsection \<open>A small cluster\<close>

definition eq_lib :: "(string \<times> string) list graph_lib" where
  "eq_lib = \<lparr>gl_SelectorFromSet = (\<lambda>m. m), gl_LabelSelector = (\<lambda>m. strs_of (mget m ''matchLabels'')),
     gl_Matches = (\<lambda>s labels. list_all (\<lambda>(k, v). map_of labels k = Some v) s), gl_Empty = (\<lambda>s. s = [])\<rparr>"

definition web_service :: unstructured where
  "web_service = \<lparr>Object = [(''apiVersion'', VStr ''v1''), (''kind'', VStr ''Service''),
     (''metadata'', VMap [(''name'', VStr ''web''), (''namespace'', VStr ''shop'')]),
     (''spec'', VMap [(''selector'', VMap [(''app'', VStr ''web'')])])]\<rparr>"

definition web_pod :: unstructured where
  "web_pod = \<lparr>Object = [(''apiVersion'', VStr ''v1''), (''kind'', VStr ''Pod''),
     (''metadata'', VMap [(''name'', VStr ''web-1''), (''namespace'', VStr ''shop''), (''labels'', VMap [(''app'', VStr ''web'')])]),
     (''spec'', VMap [(''volumes'', VList [VMap [(''secret'', VMap [(''secretName'', VStr ''creds'')])]])])]\<rparr>"

definition web_graph :: graph where
  "web_graph = Graph_Build std_lib eq_lib [web_service, web_pod]"

lemma web_graph_edges: "g_Edges web_graph =
    [\<lparr>ed_From = core_id ''Pod'' ''shop'' ''web-1'', ed_To = core_id ''Secret'' ''shop'' ''creds'', ed_Type = EdgeUses, ed_Optional = False\<rparr>,
     \<lparr>ed_From = core_id ''Service'' ''shop'' ''web'', ed_To = core_id ''Pod'' ''shop'' ''web-1'', ed_Type = EdgeSelects, ed_Optional = False\<rparr>]"
  by code_simp

lemma web_graph_nodes: "g_Nodes web_graph =
    [\<lparr>nd_ID = core_id ''Pod'' ''shop'' ''web-1'', nd_Missing = False, nd_Unreadable = False\<rparr>,
     \<lparr>nd_ID = core_id ''Secret'' ''shop'' ''creds'', nd_Missing = True, nd_Unreadable = False\<rparr>,
     \<lparr>nd_ID = core_id ''Service'' ''shop'' ''web'', nd_Missing = False, nd_Unreadable = False\<rparr>]"
  by code_simp

theorem Graph_Build_wf_witness:
  "core_id ''Secret'' ''shop'' ''creds'' \<in> nd_ID ` set (g_Nodes web_graph)
   \<and> Key (core_id ''Secret'' ''shop'' ''creds'') \<notin> Key ` {i. \<exists>obj \<in> set [web_service, web_pod]. FromObject std_lib obj = Inr i}"
  using Graph_Build_wf [OF web_graph_def] unfolding web_graph_nodes by simp

theorem Graph_Build_deterministic_witness:
  "Graph_Build std_lib eq_lib [web_pod, web_service] = web_graph"
  unfolding web_graph_def
proof (rule Graph_Build_deterministic)
  show "distinct (map fst (identified std_lib [web_service, web_pod]))"
    by code_simp
  show "inj_on (ID_String std_lib) (nd_ID ` set (g_Nodes (Graph_Build std_lib eq_lib [web_service, web_pod])))"
    unfolding web_graph_def [symmetric] web_graph_nodes by code_simp
qed simp

definition web_reader :: "(string \<times> string) list graph_reader" where
  "web_reader = \<lparr>gr_List = (\<lambda>kind namespace limit by. if kind = pod_kind \<and> 1 \<le> limit then Inr [web_pod] else if 0 \<le> limit then Inr [] else Inl (Other_Error ''limit'')),
     gr_Get = (\<lambda>_ _ _. Inl (NotFound ''x'')), gr_GetMetadata = (\<lambda>_ _ _. Inl (Forbidden ''x'')), gr_ReasonForError = (\<lambda>_. [])\<rparr>"

theorem Collect_bounded_witness:
  "limited web_reader \<and> int (length (snd (Collect std_lib eq_lib web_reader ''shop'' [web_service]))) \<le> 501"
proof
  show "limited web_reader"
    by (auto simp: limited_def web_reader_def split: if_splits)
  then show "int (length (snd (Collect std_lib eq_lib web_reader ''shop'' [web_service]))) \<le> 501"
    using Collect_bounded [of web_reader std_lib eq_lib "''shop''" "[web_service]"] by (simp add: CollectObjectLimit_def)
qed

text \<open>\<open>infer\<close> means to link only owners that are present, but looks the owner up among all nodes: an
  owner that another object refers to and that does not exist is linked too, when the referring
  object's key comes first.\<close>

definition budget_owned_by_missing :: "unstructured list" where
  "budget_owned_by_missing =
     [\<lparr>Object = [(''apiVersion'', VStr ''autoscaling/v2''), (''kind'', VStr ''HorizontalPodAutoscaler''),
        (''metadata'', VMap [(''name'', VStr ''web''), (''namespace'', VStr ''shop'')]),
        (''spec'', VMap [(''scaleTargetRef'', VMap [(''apiVersion'', VStr ''apps/v1''), (''kind'', VStr ''Deployment''), (''name'', VStr ''web'')])])]\<rparr>,
      \<lparr>Object = [(''apiVersion'', VStr ''policy/v1''), (''kind'', VStr ''PodDisruptionBudget''),
        (''metadata'', VMap [(''name'', VStr ''web''), (''namespace'', VStr ''shop''),
           (''ownerReferences'', VList [VMap [(''apiVersion'', VStr ''apps/v1''), (''kind'', VStr ''Deployment''), (''name'', VStr ''web'')]])])]\<rparr>]"

lemma missing_owner_linked:
  "\<exists>e \<in> set (g_Edges (Graph_Build std_lib eq_lib budget_owned_by_missing)).
     ed_Type e = EdgeOwns \<and> ed_From e \<in> set (Missing (Graph_Build std_lib eq_lib budget_owned_by_missing))"
  by code_simp

end
