(* ===== verification/Diagnosis.thy ===== *)
theory Diagnosis
  imports Controller_Base Resource_Graph
begin

text \<open>
  Package \<open>internal/diagnosis\<close>: why managed objects are unhealthy. \<open>build\<close> walks the graph down from
  every unhealthy object; its \<open>diagnoser\<close> memoises the causes below a node at a depth, cuts cycles
  and stops when its budget is used up or the context ends. The walk is a recursion over the levels
  that are left below \<open>MaxChain\<close>. Whether the context has ended is a function of the number of nodes
  visited so far, so that it may end at any moment.
\<close>

subsection \<open>Limits and input\<close>

definition MaxCauses :: nat where "MaxCauses = 10"
definition MaxChain :: nat where "MaxChain = 10"
definition MaxMessage :: nat where "MaxMessage = 512"
definition visitBudget :: nat where "visitBudget = MaxCauses * MaxChain * nat CollectObjectLimit"

record diagnosis_input =
  di_Results :: "health_result list"
  di_Graph :: graph
  di_Objects :: "unstructured list"

definition health_rank :: "health_state \<Rightarrow> nat" where
  "health_rank state = (case state of HealthStateDegraded \<Rightarrow> 0 | HealthStateProgressing \<Rightarrow> 1 | _ \<Rightarrow> 2)"

definition result_lt :: "lib \<Rightarrow> health_result \<Rightarrow> health_result \<Rightarrow> bool" where
  "result_lt L a b = (if health_rank (hr_State a) \<noteq> health_rank (hr_State b)
     then health_rank (hr_State a) < health_rank (hr_State b)
     else ID_String L (hr_Resource a) < ID_String L (hr_Resource b))"

subsection \<open>Causes\<close>

definition leaf :: "resource_id \<Rightarrow> string \<Rightarrow> string \<Rightarrow> cause list" where
  "leaf i reason msg = [\<lparr>cs_Resource = i, cs_Reason = reason, cs_Message = msg, cs_Chain = [i], cs_Fallback = False\<rparr>]"

definition below :: "resource_id \<Rightarrow> cause list \<Rightarrow> cause list" where
  "below i causes = map (\<lambda>c. c\<lparr>cs_Chain := i # cs_Chain c\<rparr>) causes"

definition cause_id :: "cause \<Rightarrow> string" where
  "cause_id c = Key (cs_Resource c) @ ''#'' @ cs_Reason c"

fun distinct_loop :: "cause list \<Rightarrow> string list \<Rightarrow> cause list \<Rightarrow> cause list" where
  "distinct_loop [] seen out = out"
| "distinct_loop (c # cs) seen out =
     (if cause_id c \<in> set seen then distinct_loop cs seen out
      else if length (out @ [c]) = MaxCauses then out @ [c]
      else distinct_loop cs (cause_id c # seen) (out @ [c]))"

definition distinct_causes :: "cause list \<Rightarrow> cause list" where
  "distinct_causes causes = distinct_loop causes [] []"

definition ascii_letter :: "char \<Rightarrow> bool" where
  "ascii_letter c = (let n = of_char c :: nat in 65 \<le> n \<and> n \<le> 90 \<or> 97 \<le> n \<and> n \<le> 122)"

definition camel :: "string \<Rightarrow> string" where
  "camel reason =
     (let out = filter (\<lambda>c. ascii_letter c \<or> is_digit c) reason;
          out = (if out = [] \<or> \<not> ascii_letter (hd out) then ''Unhealthy'' @ out else out);
          out = (if length out > 128 then take 128 out else out)
      in ToUpper (take 1 out) @ drop 1 out)"

text \<open>\<open>utf8.RuneStart\<close>: the byte is not of the form \<open>10xxxxxx\<close>.\<close>

definition RuneStart :: "char \<Rightarrow> bool" where
  "RuneStart c = (let n = of_char c :: nat in \<not> (128 \<le> n \<and> n < 192))"

fun rune_cut :: "string \<Rightarrow> nat \<Rightarrow> nat" where
  "rune_cut msg 0 = 0"
| "rune_cut msg (Suc n) = (if \<not> RuneStart (msg ! Suc n) then rune_cut msg n else Suc n)"

definition bound :: "string \<Rightarrow> string" where
  "bound msg = (if length msg \<le> MaxMessage then msg
     else take (rune_cut msg (MaxMessage - length ''...'')) msg @ ''...'')"

subsection \<open>Evidence\<close>

definition podHealthy :: "lib \<Rightarrow> unstructured \<Rightarrow> bool" where
  "podHealthy L obj =
     (let phase = nval [] (NestedString L (Object obj) [''status'', ''phase'']) in
      if phase = ''Succeeded'' then True
      else if phase \<noteq> ''Running'' then False
      else list_all (\<lambda>raw. as_bool (mget (as_map raw) ''ready'')) (nval [] (NestedSlice L (Object obj) [''status'', ''containerStatuses''])))"

definition waitingIgnored :: "string set" where
  "waitingIgnored = {'''', ''ContainerCreating'', ''PodInitializing''}"

definition describe_termination :: "lib \<Rightarrow> gomap \<Rightarrow> string" where
  "describe_termination L terminated =
     (let reason = as_str (mget terminated ''reason'');
          reason = (if reason = [] then ''Terminated'' else reason);
          code = nval 0 (NestedInt64 L terminated [''exitCode''])
      in reason @ '' (exit code '' @ itoa code @ '')'')"

definition containerStatuses :: "lib \<Rightarrow> unstructured \<Rightarrow> string \<Rightarrow> gomap list" where
  "containerStatuses L obj field =
     List.map_filter (\<lambda>item. case item of VMap m \<Rightarrow> Some m | _ \<Rightarrow> None) (nval [] (NestedSlice L (Object obj) [''status'', field]))"

fun first_waiting :: "lib \<Rightarrow> gomap list \<Rightarrow> (string \<times> string) option" where
  "first_waiting L [] = None"
| "first_waiting L (container # rest) =
     (let name = as_str (mget container ''name'');
          waiting = nval [] (NestedMap L container [''state'', ''waiting'']);
          reason = as_str (mget waiting ''reason'')
      in if reason \<in> waitingIgnored then first_waiting L rest
         else let msg = ''container '' @ name @ '' is waiting'';
                  txt = as_str (mget waiting ''message'');
                  msg = (if txt \<noteq> [] then msg @ '': '' @ txt else msg);
                  msg = (case NestedMap L container [''lastState'', ''terminated''] of
                           Found terminated \<Rightarrow> msg @ ''; last terminated: '' @ describe_termination L terminated
                         | _ \<Rightarrow> msg)
              in Some (reason, msg))"

fun first_failed :: "lib \<Rightarrow> gomap list \<Rightarrow> (string \<times> string) option" where
  "first_failed L [] = None"
| "first_failed L (container # rest) =
     (let name = as_str (mget container ''name'');
          terminated = nval [] (NestedMap L container [''state'', ''terminated''])
      in if nval 0 (NestedInt64 L terminated [''exitCode'']) \<noteq> 0
         then let reason = as_str (mget terminated ''reason'');
                  reason = (if reason = [] \<or> reason = ''Error'' then ''ContainerFailed'' else reason)
              in Some (reason, ''container '' @ name @ '' terminated: '' @ describe_termination L terminated)
         else first_failed L rest)"

definition podEvidence :: "lib \<Rightarrow> unstructured \<Rightarrow> (string \<times> string) option" where
  "podEvidence L obj =
     (let scheduled = Conditions L obj ''PodScheduled'' in
      if (case scheduled of Some c \<Rightarrow> hcond_Status c = ''False'' \<and> hcond_Reason c = ''Unschedulable'' | None \<Rightarrow> False)
      then Some (''Unschedulable'', hcond_Message (the scheduled))
      else let containers = containerStatuses L obj ''initContainerStatuses'' @ containerStatuses L obj ''containerStatuses'' in
        case first_waiting L containers of
          Some evidence \<Rightarrow> Some evidence
        | None \<Rightarrow>
            if nval [] (NestedString L (Object obj) [''status'', ''phase'']) \<noteq> ''Failed'' then None
            else case first_failed L containers of
                   Some evidence \<Rightarrow> Some evidence
                 | None \<Rightarrow>
                     (let reason = nval [] (NestedString L (Object obj) [''status'', ''reason'']);
                          msg = nval [] (NestedString L (Object obj) [''status'', ''message''])
                      in Some (if reason = [] then ''PodFailed'' else reason, msg)))"

definition ownEvidence_replicas :: "resource_id \<Rightarrow> (string \<rightharpoonup> health_condition) \<Rightarrow> cause list" where
  "ownEvidence_replicas i conditions =
     (case condition_true conditions ''ReplicaFailure'' of
        Some c \<Rightarrow> leaf i (if hcond_Reason c = [] then ''ReplicaFailure'' else hcond_Reason c) (hcond_Message c)
      | None \<Rightarrow>
          (case conditions ''Progressing'' of
             Some c \<Rightarrow> if hcond_Status c = ''False'' \<and> hcond_Reason c = ''ProgressDeadlineExceeded''
                       then leaf i (hcond_Reason c) (hcond_Message c) else []
           | None \<Rightarrow> []))"

definition ownEvidence :: "lib \<Rightarrow> resource_id \<Rightarrow> unstructured \<Rightarrow> cause list" where
  "ownEvidence L i obj =
     (let conditions = Conditions L obj in
      case conditions ''Failed'' of
        Some c \<Rightarrow>
          if hcond_Status c = ''True'' \<and> ID_Group i = ''batch'' \<and> ID_Kind i = ''Job''
          then leaf i ''JobFailed'' (''Job failed: '' @ (if hcond_Reason c \<noteq> [] then hcond_Reason c @ '': '' @ hcond_Message c else hcond_Message c))
          else ownEvidence_replicas i conditions
      | None \<Rightarrow> ownEvidence_replicas i conditions)"

definition podSpecEdge :: "edge_type \<Rightarrow> bool" where
  "podSpecEdge kind \<longleftrightarrow> kind = EdgeUses \<or> kind = EdgeMounts \<or> kind = EdgeRunsAs"

definition pullOnly :: "lib \<Rightarrow> unstructured \<Rightarrow> resource_id \<Rightarrow> bool" where
  "pullOnly L obj tgt =
     (case PodSpec L obj of
        None \<Rightarrow> False
      | Some spec \<Rightarrow> (case find (\<lambda>r. ref_Kind r = ID_Kind tgt \<and> ref_Name r = ID_Name tgt) (PodReferences spec) of
                       Some r \<Rightarrow> ref_PullOnly r
                     | None \<Rightarrow> False))"

subsection \<open>The walk\<close>

text \<open>What the walk reads: the graph, the objects by key, the budget, and whether the context has ended
  when a given number of nodes has been visited.\<close>

record walk_env =
  we_graph :: graph
  we_objects :: "string \<rightharpoonup> unstructured"
  we_budget :: nat
  we_ended :: "nat \<Rightarrow> bool"

record diagnoser =
  dg_memo :: "string \<times> nat \<rightharpoonup> cause list"
  dg_active :: "string set"
  dg_visits :: nat
  dg_stopped :: bool

type_synonym visitor = "resource_id \<Rightarrow> diagnoser \<Rightarrow> cause list \<times> diagnoser"

text \<open>The loop over the edges that leave \<open>i\<close>: those that are not skipped are visited, and the causes
  below them collected.\<close>

definition visit_edges :: "(edge \<Rightarrow> bool) \<Rightarrow> (cause list \<Rightarrow> cause list) \<Rightarrow> visitor \<Rightarrow> resource_id \<Rightarrow> edge list \<Rightarrow> diagnoser
    \<Rightarrow> cause list \<times> diagnoser" where
  "visit_edges skip f visit_next i es d =
     fold (\<lambda>e (out, d). if skip e then (out, d)
         else let (causes, d) = visit_next (ed_To e) d in (out @ below i (f causes), d)) es ([], d)"

definition follow :: "lib \<Rightarrow> walk_env \<Rightarrow> visitor \<Rightarrow> resource_id \<Rightarrow> edge_type list \<Rightarrow> diagnoser \<Rightarrow> cause list \<times> diagnoser" where
  "follow L W visit_next i types d =
     visit_edges (\<lambda>e. ed_Optional e \<or> ed_Type e \<notin> set types \<or> podSpecEdge (ed_Type e)
           \<and> pullOnly L (case we_objects W (Key i) of Some obj \<Rightarrow> obj | None \<Rightarrow> \<lparr>Object = []\<rparr>) (ed_To e))
       (\<lambda>causes. causes) visit_next i (Out (we_graph W) i) d"

definition pod_refs :: "lib \<Rightarrow> unstructured \<Rightarrow> string \<rightharpoonup> pod_reference" where
  "pod_refs L obj = (case PodSpec L obj of
       Some spec \<Rightarrow> fold (\<lambda>r m. m(ref_Kind r @ ''/'' @ ref_Name r \<mapsto> r)) (PodReferences spec) Map.empty
     | None \<Rightarrow> Map.empty)"

text \<open>A cause the Pod needs and that does not go deeper is told with the Pod's own evidence.\<close>

definition with_pod_evidence :: "resource_id \<Rightarrow> (string \<times> string) option \<Rightarrow> cause \<Rightarrow> cause" where
  "with_pod_evidence i evidence c =
     (case evidence of
        Some (reason, msg) \<Rightarrow>
          if length (cs_Chain c) = 1
          then c\<lparr>cs_Message := cs_Message c @ ''; Pod '' @ ID_Name i @ '': '' @ reason @ '': '' @ msg\<rparr> else c
      | None \<Rightarrow> c)"

definition pod_needs :: "lib \<Rightarrow> walk_env \<Rightarrow> visitor \<Rightarrow> resource_id \<Rightarrow> unstructured \<Rightarrow> diagnoser \<Rightarrow> cause list \<times> diagnoser" where
  "pod_needs L W visit_next i obj d =
     (let evidence = podEvidence L obj;
          pulling = (case evidence of Some (reason, _) \<Rightarrow> reason = ''ImagePullBackOff'' \<or> reason = ''ErrImagePull'' | None \<Rightarrow> False);
          refs = pod_refs L obj
      in visit_edges (\<lambda>e. ed_Optional e \<or> ed_Type e \<noteq> EdgeUses \<and> ed_Type e \<noteq> EdgeMounts
              \<or> (case refs (ID_Kind (ed_To e) @ ''/'' @ ID_Name (ed_To e)) of Some r \<Rightarrow> ref_PullOnly r | None \<Rightarrow> False) \<and> \<not> pulling)
           (map (with_pod_evidence i evidence)) visit_next i (Out (we_graph W) i) d)"

definition pod_causes :: "lib \<Rightarrow> walk_env \<Rightarrow> visitor \<Rightarrow> resource_id \<Rightarrow> unstructured \<Rightarrow> diagnoser \<Rightarrow> cause list \<times> diagnoser" where
  "pod_causes L W visit_next i obj d =
     (if GetDeletionTimestamp L obj \<noteq> None \<or> podHealthy L obj then ([], d)
      else let (out, d) = pod_needs L W visit_next i obj d in
           if out \<noteq> [] then (out, d)
           else case podEvidence L obj of
                  None \<Rightarrow> ([], d)
                | Some (reason, msg) \<Rightarrow> (leaf i reason msg, d))"

definition ready_endpoint :: "lib \<Rightarrow> any \<Rightarrow> bool" where
  "ready_endpoint L endpoint = (case NestedBool L (as_map endpoint) [''conditions'', ''ready''] of Found b \<Rightarrow> b | _ \<Rightarrow> True)"

definition endpoints :: "lib \<Rightarrow> walk_env \<Rightarrow> resource_id \<Rightarrow> cause list" where
  "endpoints L W i =
     (let slices = List.map_filter (\<lambda>e. we_objects W (Key (ed_To e))) (filter (\<lambda>e. ed_Type e = EdgeEndpoints) (Out (we_graph W) i));
          ready = length (filter (ready_endpoint L) (concat (map (\<lambda>s. nval [] (NestedSlice L (Object s) [''endpoints''])) slices)))
      in if slices = [] \<or> ready > 0 then []
         else leaf i ''NoReadyEndpoints'' (''Service '' @ ID_Name i @ '' has no ready endpoints''))"

definition claim_causes :: "lib \<Rightarrow> resource_id \<Rightarrow> unstructured \<Rightarrow> cause list" where
  "claim_causes L i obj =
     (if nval [] (NestedString L (Object obj) [''status'', ''phase'']) = ''Pending''
      then let msg = ''PersistentVolumeClaim '' @ ID_Name i @ '' is Pending'';
               class = nval [] (NestedString L (Object obj) [''spec'', ''storageClassName'']);
               msg = (if class \<noteq> [] then msg @ '' with storage class '' @ class else msg)
           in leaf i ''ClaimPending'' msg
      else [])"

text \<open>The causes found by following edges, or else what follows.\<close>

definition or_else :: "cause list \<times> diagnoser \<Rightarrow> (diagnoser \<Rightarrow> cause list \<times> diagnoser) \<Rightarrow> cause list \<times> diagnoser" where
  "or_else r f = (if fst r \<noteq> [] then r else f (snd r))"

definition explain :: "lib \<Rightarrow> walk_env \<Rightarrow> visitor \<Rightarrow> resource_id \<Rightarrow> diagnoser \<Rightarrow> cause list \<times> diagnoser" where
  "explain L W visit_next i d =
     (if (case graph_Node (we_graph W) i of Some n \<Rightarrow> nd_Missing n | None \<Rightarrow> False)
      then (leaf i (''Missing'' @ ID_Kind i) (ID_Kind i @ '' '' @ QualifiedName i @ '' does not exist''), d)
      else case we_objects W (Key i) of
        None \<Rightarrow> ([], d)
      | Some obj \<Rightarrow>
          if ID_Group i = [] \<and> ID_Kind i = ''Pod'' then pod_causes L W visit_next i obj d
          else if ID_Group i = [] \<and> ID_Kind i = ''PersistentVolumeClaim''
          then or_else (follow L W visit_next i [EdgeBinds] d) (\<lambda>d. (claim_causes L i obj, d))
          else if ID_Group i = [] \<and> ID_Kind i = ''Service''
          then or_else (follow L W visit_next i [EdgeSelects] d) (\<lambda>d. (endpoints L W i, d))
          else or_else (follow L W visit_next i [EdgeOwns] d)
                 (\<lambda>d. or_else (follow L W visit_next i [EdgeUses, EdgeMounts, EdgeRunsAs, EdgeRoutes, EdgeScales, EdgeSelects] d)
                    (\<lambda>d. (ownEvidence L i obj, d))))"

text \<open>\<open>visit n\<close> is \<open>visit\<close> at depth \<open>MaxChain - n\<close>.\<close>

definition visit_node :: "lib \<Rightarrow> walk_env \<Rightarrow> nat \<Rightarrow> visitor option \<Rightarrow> visitor" where
  "visit_node L W depth nxt i d =
     (let key = (Key i, depth) in
      case dg_memo d key of
        Some causes \<Rightarrow> (causes, d)
      | None \<Rightarrow>
          (case nxt of
             None \<Rightarrow> ([], d)
           | Some visit_next \<Rightarrow>
               if dg_stopped d \<or> Key i \<in> dg_active d then ([], d)
               else let d = d\<lparr>dg_visits := Suc (dg_visits d)\<rparr> in
                    if dg_visits d > we_budget W \<or> we_ended W (dg_visits d) then ([], d\<lparr>dg_stopped := True\<rparr>)
                    else let d = d\<lparr>dg_active := insert (Key i) (dg_active d)\<rparr>;
                             (causes, d) = explain L W visit_next i d;
                             causes = distinct_causes causes;
                             d = d\<lparr>dg_active := dg_active d - {Key i}, dg_memo := (dg_memo d)(key \<mapsto> causes)\<rparr>
                         in (causes, d)))"

primrec diagnose_visit :: "lib \<Rightarrow> walk_env \<Rightarrow> nat \<Rightarrow> visitor" where
  "diagnose_visit L W 0 = visit_node L W MaxChain None"
| "diagnose_visit L W (Suc n) = visit_node L W (MaxChain - Suc n) (Some (diagnose_visit L W n))"

subsection \<open>Reporting\<close>

definition fallback :: "graph \<Rightarrow> health_result \<Rightarrow> cause" where
  "fallback g result =
     (let reason = (if hr_Reason result = [] then health_state_string (hr_State result) else hr_Reason result);
          msg = (if g_Unread g \<noteq> [] then TrimPrefix (hr_Message result @ ''; not visible: '' @ Join ''; '' (g_Unread g)) ''; ''
                 else hr_Message result)
      in \<lparr>cs_Resource = hr_Resource result, cs_Reason = reason, cs_Message = msg, cs_Chain = [hr_Resource result], cs_Fallback = True\<rparr>)"

text \<open>Reports the causes of one object; \<open>True\<close> when the limit is reached, which ends \<open>build\<close>.\<close>

fun report_causes :: "cause list \<Rightarrow> string list \<Rightarrow> cause list \<Rightarrow> bool \<times> string list \<times> cause list" where
  "report_causes [] seen out = (False, seen, out)"
| "report_causes (c # cs) seen out =
     (let c = c\<lparr>cs_Reason := camel (cs_Reason c)\<rparr>;
          i = cause_id c
      in if i \<in> set seen then report_causes cs seen out
         else let out = out @ [c\<lparr>cs_Message := bound (redact_String (cs_Message c))\<rparr>] in
              if length out = MaxCauses then (True, i # seen, out) else report_causes cs (i # seen) out)"

fun report_results :: "lib \<Rightarrow> walk_env \<Rightarrow> health_result list \<Rightarrow> diagnoser \<Rightarrow> string list \<Rightarrow> cause list \<Rightarrow> cause list \<times> nat" where
  "report_results L W [] d seen out = (out, dg_visits d)"
| "report_results L W (r # rs) d seen out =
     (let (causes, d) = diagnose_visit L W MaxChain (hr_Resource r) d;
          causes = (if causes = [] then [fallback (we_graph W) r] else causes)
      in case report_causes causes seen out of
           (True, seen, out) \<Rightarrow> (out, dg_visits d)
         | (False, seen, out) \<Rightarrow> report_results L W rs d seen out)"

definition index_by_key :: "lib \<Rightarrow> unstructured list \<Rightarrow> string \<rightharpoonup> unstructured" where
  "index_by_key L objects =
     fold (\<lambda>obj m. case FromObject L obj of Inr i \<Rightarrow> m(Key i \<mapsto> obj) | Inl _ \<Rightarrow> m) objects Map.empty"

definition unhealthy_results :: "lib \<Rightarrow> health_result list \<Rightarrow> health_result list" where
  "unhealthy_results L results = sort_by (result_lt L) (filter (\<lambda>r. hr_State r \<noteq> HealthStateHealthy) results)"

definition build :: "lib \<Rightarrow> (nat \<Rightarrow> bool) \<Rightarrow> diagnosis_input \<Rightarrow> nat \<Rightarrow> cause list \<times> nat" where
  "build L ended inp budget =
     report_results L \<lparr>we_graph = di_Graph inp, we_objects = index_by_key L (di_Objects inp), we_budget = budget, we_ended = ended\<rparr>
       (unhealthy_results L (di_Results inp))
       \<lparr>dg_memo = Map.empty, dg_active = {}, dg_visits = 0, dg_stopped = False\<rparr> [] []"

definition Diagnosis_Build :: "lib \<Rightarrow> (nat \<Rightarrow> bool) \<Rightarrow> diagnosis_input \<Rightarrow> cause list" where
  "Diagnosis_Build L ended inp = fst (build L ended inp visitBudget)"

text \<open>What \<open>diagnose\<close> of the Application controller computes for its unhealthy results.\<close>

definition diagnosis_of :: "lib \<Rightarrow> 's graph_lib \<Rightarrow> 's graph_reader \<Rightarrow> (nat \<Rightarrow> bool) \<Rightarrow> string \<Rightarrow> health_result list
    \<Rightarrow> unstructured list \<Rightarrow> cause list" where
  "diagnosis_of L S R ended namespace results observed =
     (let (g, objects) = Collect L S R namespace observed
      in Diagnosis_Build L ended \<lparr>di_Results = results, di_Graph = g, di_Objects = objects\<rparr>)"

subsection \<open>What the walk finds\<close>

text \<open>A required reference of the graph, by key: nodes may be known at more than one API version.\<close>

definition required :: "graph \<Rightarrow> resource_id \<Rightarrow> resource_id \<Rightarrow> bool" where
  "required g a b \<longleftrightarrow> (\<exists>e \<in> set (Out g a). \<not> ed_Optional e \<and> Key (ed_To e) = Key b)"

text \<open>A cause below the node of key \<open>k\<close>: its chain starts there, ends at the cause, follows required
  references and has at most \<open>n\<close> elements.\<close>

definition sound_cause :: "graph \<Rightarrow> nat \<Rightarrow> string \<Rightarrow> cause \<Rightarrow> bool" where
  "sound_cause g n k c \<longleftrightarrow> cs_Chain c \<noteq> [] \<and> Key (hd (cs_Chain c)) = k \<and> last (cs_Chain c) = cs_Resource c
     \<and> successively (required g) (cs_Chain c) \<and> length (cs_Chain c) \<le> n"

definition walk_ok :: "walk_env \<Rightarrow> diagnoser \<Rightarrow> bool" where
  "walk_ok W d \<longleftrightarrow> (\<forall>k depth cs. dg_memo d (k, depth) = Some cs \<longrightarrow> (\<forall>c \<in> set cs. sound_cause (we_graph W) (MaxChain - depth) k c))
     \<and> dg_visits d \<le> we_budget W + (if dg_stopped d then 1 else 0)"

lemma sound_leaf: "c \<in> set (leaf i reason msg) \<Longrightarrow> sound_cause g (Suc n) (Key i) c"
  by (simp add: leaf_def sound_cause_def)

lemma sound_below:
  assumes "e \<in> set (Out g i)" "\<not> ed_Optional e" and "\<And>c. c \<in> set cs \<Longrightarrow> sound_cause g n (Key (ed_To e)) c"
    and "c \<in> set (below i cs)"
  shows "sound_cause g (Suc n) (Key i) c"
proof -
  obtain c0 where c: "c = c0\<lparr>cs_Chain := i # cs_Chain c0\<rparr>" and c0: "c0 \<in> set cs"
    using assms(4) by (auto simp: below_def)
  have s: "sound_cause g n (Key (ed_To e)) c0"
    by (rule assms(3) [OF c0])
  then have "required g i (hd (cs_Chain c0))"
    using assms(1,2) by (auto simp: required_def sound_cause_def)
  then show ?thesis
    using s by (cases "cs_Chain c0") (auto simp: c sound_cause_def)
qed

lemma sound_pod_evidence: "sound_cause g n k (with_pod_evidence i evidence c) = sound_cause g n k c"
  by (auto simp: with_pod_evidence_def sound_cause_def split: option.split)

lemma distinct_loop_subset: "set (distinct_loop cs seen out) \<subseteq> set cs \<union> set out"
  by (induction cs seen out rule: distinct_loop.induct) auto

lemma distinct_causes_subset: "set (distinct_causes cs) \<subseteq> set cs"
  using distinct_loop_subset [of cs "[]" "[]"] by (simp add: distinct_causes_def)

text \<open>The interface of one level of the walk to the level above.\<close>

locale visiting =
  fixes W :: walk_env and n :: nat and vis :: visitor
  assumes visits: "walk_ok W d \<Longrightarrow> vis i d = (cs, d') \<Longrightarrow> walk_ok W d' \<and> (\<forall>c \<in> set cs. sound_cause (we_graph W) n (Key i) c)"
begin

lemma visit_edges_sound:
  assumes "walk_ok W d" "set es \<subseteq> set (Out (we_graph W) i)" "visit_edges skip f vis i es d = (out, d')"
    and skip: "\<And>e. \<not> skip e \<Longrightarrow> \<not> ed_Optional e"
    and f: "\<And>k cs. (\<forall>c \<in> set cs. sound_cause (we_graph W) n k c) \<Longrightarrow> \<forall>c \<in> set (f cs). sound_cause (we_graph W) n k c"
  shows "walk_ok W d' \<and> (\<forall>c \<in> set out. sound_cause (we_graph W) (Suc n) (Key i) c)"
proof -
  let ?step = "\<lambda>e (out, d). if skip e then (out, d) else let (causes, d) = vis (ed_To e) d in (out @ below i (f causes), d)"
  have "walk_ok W (snd (fold ?step es (acc, d))) \<and> (\<forall>c \<in> set (fst (fold ?step es (acc, d))). sound_cause (we_graph W) (Suc n) (Key i) c)"
    if "walk_ok W d" "set es \<subseteq> set (Out (we_graph W) i)" "\<forall>c \<in> set acc. sound_cause (we_graph W) (Suc n) (Key i) c" for acc d es
    using that
  proof (induction es arbitrary: acc d)
    case (Cons e es)
    show ?case
    proof (cases "skip e")
      case False
      obtain causes d1 where v: "vis (ed_To e) d = (causes, d1)" by force
      note ok = visits [OF Cons.prems(1) v]
      have "\<forall>c \<in> set (below i (f causes)). sound_cause (we_graph W) (Suc n) (Key i) c"
        using sound_below [of e "we_graph W" i "f causes" n] f [OF conjunct2 [OF ok]] skip [OF False] Cons.prems(2) by auto
      then have "\<forall>c \<in> set (acc @ below i (f causes)). sound_cause (we_graph W) (Suc n) (Key i) c"
        using Cons.prems(3) by auto
      then show ?thesis
        using Cons.IH [OF conjunct1 [OF ok], of "acc @ below i (f causes)"] Cons.prems(2) False v by simp
    qed (use Cons in simp)
  qed simp
  from this [OF assms(1,2), of "[]"] show ?thesis
    using assms(3) unfolding visit_edges_def by simp
qed

lemma follow_sound:
  "walk_ok W d \<Longrightarrow> follow L W vis i types d = (cs, d') \<Longrightarrow> walk_ok W d' \<and> (\<forall>c \<in> set cs. sound_cause (we_graph W) (Suc n) (Key i) c)"
  unfolding follow_def by (erule visit_edges_sound [rotated 2]) auto

lemma pod_needs_sound:
  "walk_ok W d \<Longrightarrow> pod_needs L W vis i obj d = (cs, d') \<Longrightarrow> walk_ok W d' \<and> (\<forall>c \<in> set cs. sound_cause (we_graph W) (Suc n) (Key i) c)"
  unfolding pod_needs_def Let_def by (erule visit_edges_sound [rotated 2]) (auto simp: sound_pod_evidence)

lemma or_else_sound:
  assumes "or_else r f = (cs, d')" "\<And>cs d'. r = (cs, d') \<Longrightarrow> P cs d'" "\<And>d cs d'. P [] d \<Longrightarrow> f d = (cs, d') \<Longrightarrow> P cs d'"
  shows "P cs d'"
  using assms by (cases r) (auto simp: or_else_def split: if_splits)

lemma explain_sound:
  assumes "walk_ok W d" "explain L W vis i d = (cs, d')"
  shows "walk_ok W d' \<and> (\<forall>c \<in> set cs. sound_cause (we_graph W) (Suc n) (Key i) c)"
proof -
  have leaves: "\<forall>c \<in> set (leaf i reason msg). sound_cause (we_graph W) (Suc n) (Key i) c" for reason msg
    using sound_leaf by blast
  have own: "\<forall>c \<in> set (ownEvidence L i obj). sound_cause (we_graph W) (Suc n) (Key i) c"
    "\<forall>c \<in> set (endpoints L W i). sound_cause (we_graph W) (Suc n) (Key i) c"
    "\<forall>c \<in> set (claim_causes L i obj). sound_cause (we_graph W) (Suc n) (Key i) c" for obj
    using leaves by (auto simp: ownEvidence_def ownEvidence_replicas_def endpoints_def claim_causes_def Let_def split: option.splits if_splits)
  have pod: "walk_ok W d' \<and> (\<forall>c \<in> set cs. sound_cause (we_graph W) (Suc n) (Key i) c)" if "pod_causes L W vis i obj d = (cs, d')" for obj
    using that pod_needs_sound [OF assms(1), of L i obj] leaves assms(1)
    by (auto simp: pod_causes_def split: if_splits prod.splits option.splits)
  let ?P = "\<lambda>cs d'. walk_ok W d' \<and> (\<forall>c \<in> set cs. sound_cause (we_graph W) (Suc n) (Key i) c)"
  have follows: "?P cs d'" if "or_else (follow L W vis i types d) f = (cs, d')" "walk_ok W d" "\<And>d cs d'. walk_ok W d \<Longrightarrow> f d = (cs, d') \<Longrightarrow> ?P cs d'"
    for types d f cs d'
    by (rule or_else_sound [OF that(1), of ?P]) (auto dest: follow_sound [OF that(2)] that(3))
  show ?thesis
  proof (cases "we_objects W (Key i)")
    case (Some obj)
    show ?thesis
      using assms Some leaves pod own unfolding explain_def
      by (auto split: if_splits elim!: follows)
  qed (use assms leaves in \<open>auto simp: explain_def split: if_splits\<close>)
qed

end

lemma walk_ok_memo: "walk_ok W d \<Longrightarrow> dg_memo d (k, depth) = Some cs \<Longrightarrow> c \<in> set cs \<Longrightarrow> sound_cause (we_graph W) (MaxChain - depth) k c"
  by (simp add: walk_ok_def)

lemma visiting_visit: "n \<le> MaxChain \<Longrightarrow> visiting W n (diagnose_visit L W n)"
proof (induction n)
  case 0
  show ?case
    by unfold_locales (auto simp: visit_node_def Let_def dest: walk_ok_memo split: option.splits)
next
  case (Suc n)
  then have lower: "visiting W n (diagnose_visit L W n)" by simp
  show ?case
  proof
    fix d i cs d'
    assume ok: "walk_ok W d" and v: "diagnose_visit L W (Suc n) i d = (cs, d')"
    show "walk_ok W d' \<and> (\<forall>c \<in> set cs. sound_cause (we_graph W) (Suc n) (Key i) c)"
    proof (cases "dg_memo d (Key i, MaxChain - Suc n)")
      case (Some causes)
      then show ?thesis
        using ok v Suc.prems walk_ok_memo [OF ok Some] by (auto simp: visit_node_def)
    next
      case None
      let ?d = "d\<lparr>dg_visits := Suc (dg_visits d), dg_active := insert (Key i) (dg_active d)\<rparr>"
      obtain causes d1 where e: "explain L W (diagnose_visit L W n) i ?d = (causes, d1)" by force
      consider (cut) "dg_stopped d \<or> Key i \<in> dg_active d"
        | (stop) "\<not> dg_stopped d" "Suc (dg_visits d) > we_budget W \<or> we_ended W (Suc (dg_visits d))" "cs = []"
            "d' = d\<lparr>dg_visits := Suc (dg_visits d), dg_stopped := True\<rparr>"
        | (walk) "\<not> dg_stopped d" "Suc (dg_visits d) \<le> we_budget W" "cs = distinct_causes causes"
            "d' = d1\<lparr>dg_active := dg_active d1 - {Key i}, dg_memo := (dg_memo d1)((Key i, MaxChain - Suc n) \<mapsto> cs)\<rparr>"
        using v None e by (auto simp: visit_node_def Let_def split: if_splits)
      then show ?thesis
      proof cases
        case cut
        then show ?thesis
          using v None ok by (auto simp: visit_node_def Let_def)
      next
        case stop
        then show ?thesis
          using ok by (simp add: walk_ok_def)
      next
        case walk
        have "walk_ok W ?d"
          using ok walk(1,2) by (simp add: walk_ok_def)
        note below = visiting.explain_sound [OF lower this e]
        then have "\<forall>c \<in> set cs. sound_cause (we_graph W) (Suc n) (Key i) c"
          using distinct_causes_subset [of causes] walk(3) by blast
        then show ?thesis
          using below walk(4) Suc.prems by (auto simp: walk_ok_def)
      qed
    qed
  qed
qed

interpretation whole: visiting W MaxChain "diagnose_visit L W MaxChain" for L W
  by (rule visiting_visit) simp

text \<open>Where the resources of a chain come from: the walk starts at a resource that has a property \<open>P\<close> and
  goes on only to the ends of edges, so if those have it, every resource that is blamed has it.\<close>

definition drawn :: "(resource_id \<Rightarrow> bool) \<Rightarrow> cause list \<Rightarrow> bool" where
  "drawn P cs \<longleftrightarrow> (\<forall>c \<in> set cs. \<forall>i \<in> set (cs_Chain c). P i)"

definition memo_drawn :: "(resource_id \<Rightarrow> bool) \<Rightarrow> diagnoser \<Rightarrow> bool" where
  "memo_drawn P d \<longleftrightarrow> (\<forall>k cs. dg_memo d k = Some cs \<longrightarrow> drawn P cs)"

lemma drawn_simps [simp]:
  "drawn P []" "drawn P (xs @ ys) \<longleftrightarrow> drawn P xs \<and> drawn P ys" "drawn P (below i cs) \<longleftrightarrow> (cs = [] \<or> P i) \<and> drawn P cs"
  "drawn P (map (with_pod_evidence i evidence) cs) \<longleftrightarrow> drawn P cs" "P i \<Longrightarrow> drawn P (leaf i reason msg)"
  by (auto simp: drawn_def below_def leaf_def with_pod_evidence_def split: option.splits prod.splits if_splits)

locale drawing =
  fixes P :: "resource_id \<Rightarrow> bool" and W :: walk_env and vis :: visitor
  assumes draws: "memo_drawn P d \<Longrightarrow> P i \<Longrightarrow> vis i d = (cs, d') \<Longrightarrow> drawn P cs \<and> memo_drawn P d'"
    and ends: "e \<in> set (Out (we_graph W) i) \<Longrightarrow> P (ed_To e)"
begin

lemma visit_edges_drawn:
  assumes "memo_drawn P d" "P i" "visit_edges skip f vis i (Out (we_graph W) i) d = (out, d')"
    and f: "\<And>cs. drawn P cs \<Longrightarrow> drawn P (f cs)"
  shows "drawn P out \<and> memo_drawn P d'"
proof -
  let ?step = "\<lambda>e (out, d). if skip e then (out, d) else let (causes, d) = vis (ed_To e) d in (out @ below i (f causes), d)"
  have "drawn P (fst (fold ?step es (acc, d))) \<and> memo_drawn P (snd (fold ?step es (acc, d)))"
    if "memo_drawn P d" "drawn P acc" "set es \<subseteq> set (Out (we_graph W) i)" for acc d es
    using that
  proof (induction es arbitrary: acc d)
    case (Cons e es)
    show ?case
    proof (cases "skip e")
      case False
      obtain causes d1 where v: "vis (ed_To e) d = (causes, d1)" by force
      have "drawn P causes \<and> memo_drawn P d1" using draws [OF Cons.prems(1) ends v, of i] Cons.prems(3) by simp
      then show ?thesis using Cons.IH [of d1 "acc @ below i (f causes)"] Cons.prems(2,3) False v f assms(2) by simp
    qed (use Cons in simp)
  qed simp
  from this [OF assms(1), of "[]" "Out (we_graph W) i"] show ?thesis using assms(3) by (simp add: visit_edges_def)
qed

lemma follow_drawn: "memo_drawn P d \<Longrightarrow> P i \<Longrightarrow> follow L W vis i types d = (cs, d') \<Longrightarrow> drawn P cs \<and> memo_drawn P d'"
  unfolding follow_def by (erule (2) visit_edges_drawn) simp

lemma pod_needs_drawn: "memo_drawn P d \<Longrightarrow> P i \<Longrightarrow> pod_needs L W vis i obj d = (cs, d') \<Longrightarrow> drawn P cs \<and> memo_drawn P d'"
  unfolding pod_needs_def Let_def by (erule (2) visit_edges_drawn) simp

lemma explain_drawn:
  assumes "memo_drawn P d" "P i" "explain L W vis i d = (cs, d')"
  shows "drawn P cs \<and> memo_drawn P d'"
proof -
  have own: "drawn P (ownEvidence L i obj)" "drawn P (endpoints L W i)" "drawn P (claim_causes L i obj)" for obj
    using assms(2) by (simp_all add: ownEvidence_def ownEvidence_replicas_def endpoints_def claim_causes_def Let_def split: option.split)
  have pod: "drawn P cs \<and> memo_drawn P d'" if "pod_causes L W vis i obj d = (cs, d')" for obj
    using that pod_needs_drawn [OF assms(1,2), of L obj] assms(1,2)
    by (auto simp: pod_causes_def split: if_splits prod.splits option.splits)
  have follows: "drawn P cs \<and> memo_drawn P d'"
    if "or_else (follow L W vis i types d) f = (cs, d')" "memo_drawn P d" "\<And>d cs d'. memo_drawn P d \<Longrightarrow> f d = (cs, d') \<Longrightarrow> drawn P cs \<and> memo_drawn P d'"
    for types d f cs d'
    using that follow_drawn [OF that(2) assms(2), of L types]
    by (cases "follow L W vis i types d") (auto simp: or_else_def split: if_splits)
  show ?thesis
  proof (cases "we_objects W (Key i)")
    case (Some obj)
    show ?thesis
      using assms Some pod own unfolding explain_def by (auto split: if_splits elim!: follows)
  qed (use assms in \<open>auto simp: explain_def split: if_splits\<close>)
qed

end

lemma drawn_distinct: "drawn P cs \<Longrightarrow> drawn P (distinct_causes cs)"
  using distinct_causes_subset [of cs] by (auto simp: drawn_def)

lemma visit_node_drawn:
  assumes "visit_node L W depth nxt i d = (cs, d')" "memo_drawn P d" "P i"
    and "\<And>v d cs d'. nxt = Some v \<Longrightarrow> memo_drawn P d \<Longrightarrow> explain L W v i d = (cs, d') \<Longrightarrow> drawn P cs \<and> memo_drawn P d'"
  shows "drawn P cs \<and> memo_drawn P d'"
proof (cases "dg_memo d (Key i, depth)")
  case (Some causes)
  then show ?thesis using assms(1,2) by (auto simp: visit_node_def memo_drawn_def)
next
  case None
  let ?d = "d\<lparr>dg_visits := Suc (dg_visits d), dg_active := insert (Key i) (dg_active d)\<rparr>"
  have ok: "memo_drawn P ?d" "memo_drawn P (d\<lparr>dg_visits := Suc (dg_visits d), dg_stopped := True\<rparr>)"
    using assms(2) by (simp_all add: memo_drawn_def)
  show ?thesis
  proof (cases nxt)
    case None
    then show ?thesis using assms(1,2) \<open>dg_memo d (Key i, depth) = None\<close> by (simp add: visit_node_def)
  next
    case (Some v)
    obtain causes d1 where e: "explain L W v i ?d = (causes, d1)" by force
    have "drawn P (distinct_causes causes)" "memo_drawn P d1" using assms(4) [OF Some ok(1) e] drawn_distinct by auto
    then show ?thesis
      using assms(1,2) ok(2) e None Some by (auto simp: visit_node_def Let_def memo_drawn_def split: if_splits)
  qed
qed

lemma drawing_visit:
  assumes "\<And>e i. e \<in> set (Out (we_graph W) i) \<Longrightarrow> P (ed_To e)"
  shows "drawing P W (diagnose_visit L W n)"
proof (induction n)
  case 0
  show ?case by unfold_locales (auto dest: visit_node_drawn assms)
next
  case (Suc n)
  show ?case
  proof
    fix d i cs d'
    assume "memo_drawn P d" "P i" "diagnose_visit L W (Suc n) i d = (cs, d')"
    then show "drawn P cs \<and> memo_drawn P d'"
      using visit_node_drawn [of L W "MaxChain - Suc n" "Some (diagnose_visit L W n)" i d cs d' P] drawing.explain_drawn [OF Suc]
      by auto
  qed (rule assms)
qed

subsection \<open>What is reported\<close>

text \<open>The reason of a cause is a valid one of the API: a capital letter, then letters and digits.\<close>

definition camel_case :: "string \<Rightarrow> bool" where
  "camel_case s \<longleftrightarrow> s \<noteq> [] \<and> 65 \<le> (of_char (hd s) :: nat) \<and> (of_char (hd s) :: nat) \<le> 90
     \<and> list_all (\<lambda>c. ascii_letter c \<or> is_digit c) s"

lemma camel_valid: "camel_case (camel reason)" "length (camel reason) \<le> 128"
proof -
  define out where "out = filter (\<lambda>c. ascii_letter c \<or> is_digit c) reason"
  define out' where "out' = (if out = [] \<or> \<not> ascii_letter (hd out) then ''Unhealthy'' @ out else out)"
  define cut where "cut = (if length out' > 128 then take 128 out' else out')"
  have alnum: "list_all (\<lambda>c. ascii_letter c \<or> is_digit c) out'"
    by (auto simp: out'_def out_def list_all_iff ascii_letter_def)
  have start: "out' \<noteq> []" "ascii_letter (hd out')"
    by (auto simp: out'_def ascii_letter_def)
  moreover have take: "cut = take 128 out'"
    by (simp add: cut_def)
  ultimately obtain c cs where cut: "cut = c # cs" "ascii_letter c"
    by (cases out') auto
  have "camel reason = ToUpper (take 1 cut) @ drop 1 cut"
    unfolding camel_def Let_def out_def [symmetric] out'_def [symmetric] cut_def [symmetric] ..
  then have "camel reason = upper_char c # cs"
    using cut(1) by (simp add: ToUpper_def)
  moreover have "list_all (\<lambda>c. ascii_letter c \<or> is_digit c) cs"
    using alnum cut(1) set_take_subset [of 128 out'] unfolding take list_all_iff by auto
  moreover have "65 \<le> (of_char (upper_char c) :: nat) \<and> (of_char (upper_char c) :: nat) \<le> 90"
    using cut(2) by (auto simp: upper_char_def ascii_letter_def Let_def)
  moreover have "length cs < 128"
    using arg_cong [OF cut(1), of length] unfolding take by simp
  ultimately show "camel_case (camel reason)" "length (camel reason) \<le> 128"
    by (simp_all add: camel_case_def ascii_letter_def Let_def)
qed

lemma rune_cut_le: "rune_cut msg n \<le> n"
  by (induction msg n rule: rune_cut.induct) auto

lemma bound_length: "length (bound msg) \<le> MaxMessage"
  using rune_cut_le [of msg "MaxMessage - 3"] by (simp add: bound_def MaxMessage_def)

definition reported_form :: "cause \<Rightarrow> cause" where
  "reported_form c = c\<lparr>cs_Reason := camel (cs_Reason c), cs_Message := bound (redact_String (cs_Message c))\<rparr>"

lemma reported_form_simps [simp]:
  "cs_Resource (reported_form c) = cs_Resource c" "cs_Chain (reported_form c) = cs_Chain c" "cs_Reason (reported_form c) = camel (cs_Reason c)"
  "cs_Message (reported_form c) = bound (redact_String (cs_Message c))"
  by (simp_all add: reported_form_def)

definition no_repeats :: "string list \<Rightarrow> cause list \<Rightarrow> bool" where
  "no_repeats seen out \<longleftrightarrow> set seen = cause_id ` set out \<and> distinct (map cause_id out)"

lemma report_causes_cases:
  assumes "report_causes cs seen out = (full, seen', out')" "no_repeats seen out" "length out < MaxCauses"
  shows "no_repeats seen' out' \<and> set out \<subseteq> set out' \<and> set out' \<subseteq> set out \<union> reported_form ` set cs
    \<and> (if full then length out' = MaxCauses
       else length out' < MaxCauses \<and> cause_id ` reported_form ` set cs \<subseteq> set seen')"
  using assms
proof (induction cs seen out rule: report_causes.induct)
  case (2 c cs seen out)
  let ?i = "cause_id (c\<lparr>cs_Reason := camel (cs_Reason c)\<rparr>)"
  have i: "?i = cause_id (reported_form c)"
    by (simp add: cause_id_def)
  have form: "c\<lparr>cs_Reason := camel (cs_Reason c), cs_Message := bound (redact_String (cs_Message c))\<rparr> = reported_form c"
    by (simp add: reported_form_def)
  show ?case
  proof (cases "?i \<in> set seen")
    case True
    then have IH: "no_repeats seen' out' \<and> set out \<subseteq> set out' \<and> set out' \<subseteq> set out \<union> reported_form ` set cs
      \<and> (if full then length out' = MaxCauses else length out' < MaxCauses \<and> cause_id ` reported_form ` set cs \<subseteq> set seen')"
      using 2 by (simp add: Let_def)
    have "cause_id (reported_form c) \<in> set seen'"
      using True IH 2(4) unfolding i no_repeats_def by auto
    with IH show ?thesis by auto
  next
    case False
    then have fresh: "no_repeats (?i # seen) (out @ [reported_form c])"
      using 2(4) unfolding i no_repeats_def by auto
    show ?thesis
    proof (cases "length (out @ [reported_form c]) = MaxCauses")
      case True
      then show ?thesis
        using False fresh 2(3) by (auto simp: Let_def form)
    next
      case more: False
      then have IH: "no_repeats seen' out' \<and> set (out @ [reported_form c]) \<subseteq> set out' \<and> set out' \<subseteq> set (out @ [reported_form c]) \<union> reported_form ` set cs
        \<and> (if full then length out' = MaxCauses else length out' < MaxCauses \<and> cause_id ` reported_form ` set cs \<subseteq> set seen')"
        using False fresh 2 by (simp add: Let_def form)
      then have "cause_id (reported_form c) \<in> set seen'"
        unfolding no_repeats_def by auto
      with IH show ?thesis by auto
    qed
  qed
qed auto

text \<open>A cause below an unhealthy result, as it is reported.\<close>

definition causes_of :: "lib \<Rightarrow> walk_env \<Rightarrow> health_result \<Rightarrow> diagnoser \<Rightarrow> cause list \<times> diagnoser" where
  "causes_of L W r d =
     (let (causes, d) = diagnose_visit L W MaxChain (hr_Resource r) d in (if causes = [] then [fallback (we_graph W) r] else causes, d))"

lemma sound_fallback: "sound_cause g MaxChain (Key (hr_Resource r)) (fallback g r)"
  by (simp add: fallback_def sound_cause_def Let_def MaxChain_def)

lemma causes_of_sound:
  assumes "walk_ok W d" "causes_of L W r d = (cs, d')"
  shows "walk_ok W d'" "cs \<noteq> []" "\<forall>c \<in> set cs. sound_cause (we_graph W) MaxChain (Key (hr_Resource r)) c"
  using assms(2) whole.visits [OF assms(1), of L "hr_Resource r"] sound_fallback
  by (auto simp: causes_of_def split: prod.splits if_splits)

definition explained :: "graph \<Rightarrow> health_result \<Rightarrow> cause \<Rightarrow> bool" where
  "explained g r c \<longleftrightarrow> (\<exists>c'. sound_cause g MaxChain (Key (hr_Resource r)) c' \<and> Key (cs_Resource c') = Key (cs_Resource c) \<and> camel (cs_Reason c') = cs_Reason c)"

definition reported_ok :: "graph \<Rightarrow> health_result list \<Rightarrow> cause list \<Rightarrow> bool" where
  "reported_ok g results out \<longleftrightarrow> (\<forall>c \<in> set out. camel_case (cs_Reason c) \<and> length (cs_Reason c) \<le> 128 \<and> length (cs_Message c) \<le> MaxMessage
     \<and> (\<exists>r \<in> set results. sound_cause g MaxChain (Key (hr_Resource r)) c))"

lemma split_last_hash:
  assumes "a @ CHR ''#'' # x = b @ CHR ''#'' # y" "CHR ''#'' \<notin> set x" "CHR ''#'' \<notin> set y"
  shows "a = b \<and> x = y"
proof -
  have "rev x @ CHR ''#'' # rev a = rev y @ CHR ''#'' # rev b"
    using arg_cong [OF assms(1), of rev] by simp
  then show ?thesis
    using split_at_first [of "rev x" "CHR ''#''" "rev a" "rev y" "rev b"] assms(2,3) by simp
qed

lemma camel_no_hash: "camel_case s \<Longrightarrow> CHR ''#'' \<notin> set s"
  by (auto simp: camel_case_def list_all_iff ascii_letter_def is_digit_def)

lemma cause_id_eq:
  assumes "cause_id c = cause_id c'" "camel_case (cs_Reason c)" "camel_case (cs_Reason c')"
  shows "Key (cs_Resource c) = Key (cs_Resource c') \<and> cs_Reason c = cs_Reason c'"
  using split_last_hash [of "Key (cs_Resource c)" "cs_Reason c"] assms(1) camel_no_hash [OF assms(2)] camel_no_hash [OF assms(3)]
  unfolding cause_id_def by simp

lemma reported_ok_add:
  assumes "reported_ok g results out" "set out' \<subseteq> set out \<union> reported_form ` set cs" "r \<in> set results"
    and "\<forall>c \<in> set cs. sound_cause g MaxChain (Key (hr_Resource r)) c"
  shows "reported_ok g results out'"
  unfolding reported_ok_def
proof
  fix c assume c: "c \<in> set out'"
  show "camel_case (cs_Reason c) \<and> length (cs_Reason c) \<le> 128 \<and> length (cs_Message c) \<le> MaxMessage
     \<and> (\<exists>r \<in> set results. sound_cause g MaxChain (Key (hr_Resource r)) c)"
  proof (cases "c \<in> set out")
    case True
    then show ?thesis using assms(1) by (simp add: reported_ok_def)
  next
    case False
    then obtain c0 where c0: "c = reported_form c0" "c0 \<in> set cs"
      using assms(2) c by blast
    then have "sound_cause g MaxChain (Key (hr_Resource r)) c"
      using assms(4) by (simp add: sound_cause_def)
    then show ?thesis
      using assms(3) camel_valid bound_length c0(1) by auto
  qed
qed

lemma report_results_step:
  "report_results L W (r # rs) d seen out =
     (let (cs, d) = causes_of L W r d; (full, seen, out) = report_causes cs seen out
      in if full then (out, dg_visits d) else report_results L W rs d seen out)"
  by (simp add: causes_of_def case_prod_unfold Let_def split: bool.split prod.split)

lemma report_results_ok:
  assumes "report_results L W rs d seen out = (out', visits)" "walk_ok W d" "no_repeats seen out" "length out < MaxCauses"
    and "reported_ok (we_graph W) results out" "set rs \<subseteq> set results"
  shows "reported_ok (we_graph W) results out' \<and> distinct (map cause_id out') \<and> length out' \<le> MaxCauses \<and> visits \<le> Suc (we_budget W)
    \<and> set out \<subseteq> set out' \<and> (length out' < MaxCauses \<longrightarrow> (\<forall>r \<in> set rs. \<exists>c \<in> set out'. explained (we_graph W) r c))"
  using assms
proof (induction rs arbitrary: d seen out)
  case Nil
  then show ?case
    by (auto simp: no_repeats_def walk_ok_def split: if_splits)
next
  case (Cons r rs)
  obtain cs d1 where c: "causes_of L W r d = (cs, d1)" by force
  note cs = causes_of_sound [OF Cons.prems(2) c]
  obtain full seen1 out1 where rep: "report_causes cs seen out = (full, seen1, out1)" by (cases "report_causes cs seen out")
  note rep1 = report_causes_cases [OF rep Cons.prems(3,4)]
  have ok1: "reported_ok (we_graph W) results out1"
    by (rule reported_ok_add [OF Cons.prems(5) _ _ cs(3)]) (use rep1 Cons.prems(6) in auto)
  show ?case
  proof (cases full)
    case True
    then have "out' = out1" "visits = dg_visits d1"
      using Cons.prems(1) unfolding report_results_step by (simp_all add: c rep)
    then show ?thesis
      using True rep1 ok1 cs(1) by (auto simp: no_repeats_def walk_ok_def split: if_splits)
  next
    case False
    then have "report_results L W rs d1 seen1 out1 = (out', visits)"
      using Cons.prems(1) unfolding report_results_step by (simp add: c rep)
    from Cons.IH [OF this cs(1) _ _ ok1] have IH: "reported_ok (we_graph W) results out' \<and> distinct (map cause_id out')
        \<and> length out' \<le> MaxCauses \<and> visits \<le> Suc (we_budget W) \<and> set out1 \<subseteq> set out'
        \<and> (length out' < MaxCauses \<longrightarrow> (\<forall>r \<in> set rs. \<exists>c \<in> set out'. explained (we_graph W) r c))"
      using False rep1 Cons.prems(6) by simp
    have "\<exists>c \<in> set out'. explained (we_graph W) r c"
    proof -
      let ?c = "hd cs"
      have "?c \<in> set cs" using cs(2) by simp
      then have "cause_id (reported_form ?c) \<in> set seen1"
        using False rep1 by (simp add: image_subset_iff)
      then have "cause_id (reported_form ?c) \<in> cause_id ` set out1"
        using rep1 unfolding no_repeats_def by metis
      then obtain c1 where c1: "c1 \<in> set out1" "cause_id (reported_form ?c) = cause_id c1" by auto
      have "camel_case (cs_Reason c1)"
        using ok1 c1(1) by (simp add: reported_ok_def)
      then have "Key (cs_Resource ?c) = Key (cs_Resource c1) \<and> camel (cs_Reason ?c) = cs_Reason c1"
        using cause_id_eq [OF c1(2)] camel_valid by simp
      then have "explained (we_graph W) r c1"
        using cs(3) \<open>?c \<in> set cs\<close> unfolding explained_def by blast
      then show ?thesis using IH c1(1) by blast
    qed
    then show ?thesis using IH rep1 by auto
  qed
qed

lemma build_ok:
  assumes "build L ended inp budget = (out, visits)"
  shows "reported_ok (di_Graph inp) (unhealthy_results L (di_Results inp)) out" "distinct (map cause_id out)" "length out \<le> MaxCauses"
    "visits \<le> Suc budget"
    "length out < MaxCauses \<Longrightarrow> \<forall>r \<in> set (unhealthy_results L (di_Results inp)). \<exists>c \<in> set out. explained (di_Graph inp) r c"
proof -
  let ?W = "\<lparr>we_graph = di_Graph inp, we_objects = index_by_key L (di_Objects inp), we_budget = budget, we_ended = ended\<rparr>"
  have "walk_ok ?W \<lparr>dg_memo = Map.empty, dg_active = {}, dg_visits = 0, dg_stopped = False\<rparr>" "no_repeats [] []" "length [] < MaxCauses"
    "reported_ok (we_graph ?W) (unhealthy_results L (di_Results inp)) []"
    by (simp_all add: walk_ok_def no_repeats_def MaxCauses_def reported_ok_def)
  from report_results_ok [OF assms [unfolded build_def] this]
  show "reported_ok (di_Graph inp) (unhealthy_results L (di_Results inp)) out" "distinct (map cause_id out)" "length out \<le> MaxCauses"
    "visits \<le> Suc budget"
    "length out < MaxCauses \<Longrightarrow> \<forall>r \<in> set (unhealthy_results L (di_Results inp)). \<exists>c \<in> set out. explained (di_Graph inp) r c"
    by simp_all
qed

text \<open>A resource that the API takes as a reference: its API version, kind and name are not empty.\<close>

definition referable :: "lib \<Rightarrow> resource_id \<Rightarrow> bool" where
  "referable L i \<longleftrightarrow> APIVersion L i \<noteq> [] \<and> ID_Kind i \<noteq> [] \<and> ID_Name i \<noteq> []"

definition referable_input :: "lib \<Rightarrow> diagnosis_input \<Rightarrow> bool" where
  "referable_input L inp \<longleftrightarrow> (\<forall>r \<in> set (di_Results inp). referable L (hr_Resource r))
     \<and> (\<forall>i. \<forall>e \<in> set (Out (di_Graph inp) i). referable L (ed_To e))"

text \<open>The resources a diagnosis may blame: those it starts at and the targets of edges.\<close>

definition blamable :: "graph \<Rightarrow> resource_id set \<Rightarrow> resource_id \<Rightarrow> bool" where
  "blamable g roots i \<longleftrightarrow> i \<in> roots \<or> (\<exists>j. \<exists>e \<in> set (Out g j). ed_To e = i)"

interpretation blaming: drawing "blamable (we_graph W) roots" W "diagnose_visit L W MaxChain" for L W roots
  by (rule drawing_visit) (auto simp: blamable_def)

lemma causes_of_drawn:
  assumes "memo_drawn (blamable (we_graph W) roots) d" "hr_Resource r \<in> roots" "causes_of L W r d = (cs, d')"
  shows "drawn (blamable (we_graph W) roots) cs \<and> memo_drawn (blamable (we_graph W) roots) d'"
proof -
  have r: "blamable (we_graph W) roots (hr_Resource r)" using assms(2) by (simp add: blamable_def)
  then show ?thesis
    using blaming.draws [OF assms(1) r, of L] assms(3)
    by (auto simp: causes_of_def fallback_def drawn_def Let_def split: prod.splits if_splits)
qed

lemma report_results_drawn:
  assumes "report_results L W rs d seen out = (out', visits)" "no_repeats seen out" "length out < MaxCauses"
    and "hr_Resource ` set rs \<subseteq> roots" "memo_drawn (blamable (we_graph W) roots) d" "drawn (blamable (we_graph W) roots) out"
  shows "drawn (blamable (we_graph W) roots) out'"
  using assms
proof (induction rs arbitrary: d seen out)
  case (Cons r rs)
  let ?P = "blamable (we_graph W) roots"
  obtain cs d1 where c: "causes_of L W r d = (cs, d1)" by force
  obtain full seen1 out1 where rep: "report_causes cs seen out = (full, seen1, out1)" by (cases "report_causes cs seen out")
  note rep1 = report_causes_cases [OF rep Cons.prems(2,3)]
  have cs: "drawn ?P cs \<and> memo_drawn ?P d1" using causes_of_drawn [OF Cons.prems(5) _ c] Cons.prems(4) by simp
  then have out1: "drawn ?P out1" using rep1 Cons.prems(6) by (fastforce simp: drawn_def)
  show ?case
  proof (cases full)
    case True
    then show ?thesis using out1 Cons.prems(1) unfolding report_results_step by (simp add: c rep)
  next
    case False
    then show ?thesis
      using Cons.IH [of d1 seen1 out1] Cons.prems(1,4) cs out1 rep1 unfolding report_results_step by (simp add: c rep)
  qed
qed simp

lemma set_unhealthy_results: "set (unhealthy_results L results) = {r \<in> set results. hr_State r \<noteq> HealthStateHealthy}"
  by (simp add: unhealthy_results_def)

lemma distinct_mapI: "distinct (map f xs) \<Longrightarrow> distinct xs"
  by (simp add: distinct_map)

subsection \<open>Properties\<close>

lemma build_referable:
  assumes "build L ended inp budget = (out, visits)" "referable_input L inp"
  shows "drawn (referable L) out"
proof -
  let ?W = "\<lparr>we_graph = di_Graph inp, we_objects = index_by_key L (di_Objects inp), we_budget = budget, we_ended = ended\<rparr>"
  let ?roots = "hr_Resource ` set (di_Results inp)"
  have "drawn (blamable (we_graph ?W) ?roots) out"
    by (rule report_results_drawn [OF assms(1) [unfolded build_def]])
      (auto simp: set_unhealthy_results no_repeats_def MaxCauses_def memo_drawn_def)
  moreover have "referable L i" if "blamable (di_Graph inp) ?roots i" for i
    using that assms(2) by (auto simp: blamable_def referable_input_def)
  ultimately show ?thesis by (auto simp: drawn_def)
qed

text \<open>C13. A diagnosis fits the API's schema: at most ten causes, no
  root and reason twice, every reason a CamelCase word of at most 128 characters, every message at
  most 512 bytes, every chain of one to ten resources that ends at the cause. A reference must also have an API
  version, a kind and a name; every resource of a diagnosis has them, if the results and the targets of
  the graph's edges that it is built from have them.\<close>

theorem Diagnosis_fits_schema:
  assumes "causes = Diagnosis_Build L ended inp"
  shows "length causes \<le> 10 \<and> distinct (map (\<lambda>c. (Key (cs_Resource c), cs_Reason c)) causes)
    \<and> list_all (\<lambda>c. camel_case (cs_Reason c) \<and> length (cs_Reason c) \<le> 128 \<and> length (cs_Message c) \<le> 512
        \<and> 1 \<le> length (cs_Chain c) \<and> length (cs_Chain c) \<le> 10 \<and> last (cs_Chain c) = cs_Resource c) causes
    \<and> (referable_input L inp \<longrightarrow> list_all (\<lambda>c. referable L (cs_Resource c) \<and> list_all (referable L) (cs_Chain c)) causes)"
proof -
  obtain visits where b: "build L ended inp visitBudget = (causes, visits)"
    using assms by (cases "build L ended inp visitBudget") (simp add: Diagnosis_Build_def)
  have ids: "map cause_id causes = map (\<lambda>(k, reason). k @ ''#'' @ reason) (map (\<lambda>c. (Key (cs_Resource c), cs_Reason c)) causes)"
    by (simp add: cause_id_def comp_def)
  have "distinct (map (\<lambda>c. (Key (cs_Resource c), cs_Reason c)) causes)"
    using build_ok(2) [OF b] unfolding ids by (rule distinct_mapI)
  moreover have "list_all (\<lambda>c. camel_case (cs_Reason c) \<and> length (cs_Reason c) \<le> 128 \<and> length (cs_Message c) \<le> 512
        \<and> 1 \<le> length (cs_Chain c) \<and> length (cs_Chain c) \<le> 10 \<and> last (cs_Chain c) = cs_Resource c) causes"
    unfolding list_all_iff
  proof
    fix c assume "c \<in> set causes"
    then show "camel_case (cs_Reason c) \<and> length (cs_Reason c) \<le> 128 \<and> length (cs_Message c) \<le> 512
        \<and> 1 \<le> length (cs_Chain c) \<and> length (cs_Chain c) \<le> 10 \<and> last (cs_Chain c) = cs_Resource c"
      using build_ok(1) [OF b] by (auto simp: reported_ok_def sound_cause_def MaxMessage_def MaxChain_def Suc_le_eq)
  qed
  moreover have "list_all (\<lambda>c. referable L (cs_Resource c) \<and> list_all (referable L) (cs_Chain c)) causes" if "referable_input L inp"
    using build_referable [OF b that] build_ok(1) [OF b]
    by (auto simp: drawn_def list_all_iff reported_ok_def sound_cause_def) (metis last_in_set)
  ultimately show ?thesis
    using build_ok(3) [OF b] by (simp add: MaxCauses_def)
qed

text \<open>A diagnosis blames along real dependencies: the chain of every cause starts at a managed object
  that is not Healthy and each resource in it has a required reference to the next.\<close>

theorem Diagnosis_chain_follows_graph:
  assumes "c \<in> set (Diagnosis_Build L ended inp)"
  shows "\<exists>r \<in> set (di_Results inp). hr_State r \<noteq> HealthStateHealthy \<and> Key (hd (cs_Chain c)) = Key (hr_Resource r)
    \<and> last (cs_Chain c) = cs_Resource c
    \<and> (\<forall>j. Suc j < length (cs_Chain c) \<longrightarrow>
         (\<exists>e \<in> set (Out (di_Graph inp) (cs_Chain c ! j)). \<not> ed_Optional e \<and> Key (ed_To e) = Key (cs_Chain c ! Suc j)))"
proof -
  obtain visits where b: "build L ended inp visitBudget = (Diagnosis_Build L ended inp, visits)"
    by (cases "build L ended inp visitBudget") (simp add: Diagnosis_Build_def)
  obtain r where r: "r \<in> set (di_Results inp)" "hr_State r \<noteq> HealthStateHealthy"
      and s: "sound_cause (di_Graph inp) MaxChain (Key (hr_Resource r)) c"
    using build_ok(1) [OF b] assms unfolding reported_ok_def set_unhealthy_results by blast
  have "required (di_Graph inp) (cs_Chain c ! j) (cs_Chain c ! Suc j)" if "Suc j < length (cs_Chain c)" for j
    using s that unfolding sound_cause_def successively_conv_nth by blast
  then show ?thesis
    using r s unfolding required_def sound_cause_def by blast
qed

text \<open>C10. No unhealthy object is passed over: unless ten causes are reported, every managed object that
  is not Healthy has a reported cause that it depends on, itself or through required references,
  whatever cycles the graph has and whenever the context ends or the budget runs out.\<close>

theorem Diagnosis_complete:
  assumes "causes = Diagnosis_Build L ended inp" "length causes < 10"
    and "r \<in> set (di_Results inp)" "hr_State r \<noteq> HealthStateHealthy"
  shows "\<exists>c \<in> set causes. \<exists>chain. chain \<noteq> [] \<and> Key (hd chain) = Key (hr_Resource r) \<and> Key (last chain) = Key (cs_Resource c)
    \<and> successively (required (di_Graph inp)) chain"
proof -
  obtain visits where b: "build L ended inp visitBudget = (causes, visits)"
    using assms(1) by (cases "build L ended inp visitBudget") (simp add: Diagnosis_Build_def)
  obtain c where "c \<in> set causes" "explained (di_Graph inp) r c"
    using build_ok(5) [OF b] assms(2-4) unfolding set_unhealthy_results MaxCauses_def by auto
  then show ?thesis
    unfolding explained_def sound_cause_def by metis
qed

text \<open>A claim that is bound to a volume that does not exist.\<close>

definition data_claim :: unstructured where
  "data_claim = \<lparr>Object = [(''apiVersion'', VStr ''v1''), (''kind'', VStr ''PersistentVolumeClaim''),
     (''metadata'', VMap [(''name'', VStr ''data''), (''namespace'', VStr ''shop'')]), (''spec'', VMap [(''volumeName'', VStr ''pv1'')])]\<rparr>"

definition claim_id :: resource_id where
  "claim_id = core_id ''PersistentVolumeClaim'' ''shop'' ''data''"

definition volume_id :: resource_id where
  "volume_id = core_id ''PersistentVolume'' [] ''pv1''"

definition claim_graph :: graph where
  "claim_graph =
     (let binds = \<lparr>ed_From = claim_id, ed_To = volume_id, ed_Type = EdgeBinds, ed_Optional = False\<rparr>
      in \<lparr>g_Nodes = [\<lparr>nd_ID = volume_id, nd_Missing = True, nd_Unreadable = False\<rparr>, \<lparr>nd_ID = claim_id, nd_Missing = False, nd_Unreadable = False\<rparr>],
          g_Edges = [binds], g_Unread = [], g_index = [Key volume_id \<mapsto> 0, Key claim_id \<mapsto> 1],
          g_out = (\<lambda>k. if k = Key claim_id then [binds] else [])\<rparr>)"

lemma claim_graph_built: "g_Nodes claim_graph = g_Nodes (Graph_Build std_lib eq_lib [data_claim])"
  "g_Edges claim_graph = g_Edges (Graph_Build std_lib eq_lib [data_claim])"
  by code_simp+

definition unbound_claim :: diagnosis_input where
  "unbound_claim = \<lparr>di_Results = [\<lparr>hr_Resource = claim_id, hr_State = HealthStateProgressing, hr_Reason = ''Pending'', hr_Message = []\<rparr>],
     di_Graph = claim_graph, di_Objects = [data_claim]\<rparr>"

definition missing_volume :: cause where
  "missing_volume = \<lparr>cs_Resource = volume_id, cs_Reason = ''MissingPersistentVolume'', cs_Message = ''PersistentVolume pv1 does not exist'',
     cs_Chain = [claim_id, volume_id], cs_Fallback = False\<rparr>"

definition claim_env :: walk_env where
  "claim_env = \<lparr>we_graph = claim_graph, we_objects = index_by_key std_lib [data_claim], we_budget = visitBudget, we_ended = (\<lambda>_. False)\<rparr>"

lemma claim_env_facts:
  "graph_Node claim_graph volume_id = Some \<lparr>nd_ID = volume_id, nd_Missing = True, nd_Unreadable = False\<rparr>"
  "graph_Node claim_graph claim_id = Some \<lparr>nd_ID = claim_id, nd_Missing = False, nd_Unreadable = False\<rparr>"
  "Out claim_graph claim_id = [\<lparr>ed_From = claim_id, ed_To = volume_id, ed_Type = EdgeBinds, ed_Optional = False\<rparr>]"
  "index_by_key std_lib [data_claim] (Key claim_id) = Some data_claim"
  "Key volume_id \<noteq> Key claim_id" "visitBudget = 50000"
  "ID_Group claim_id = []" "ID_Kind claim_id = ''PersistentVolumeClaim''"
proof -
  show "graph_Node claim_graph volume_id = Some \<lparr>nd_ID = volume_id, nd_Missing = True, nd_Unreadable = False\<rparr>"
    and "graph_Node claim_graph claim_id = Some \<lparr>nd_ID = claim_id, nd_Missing = False, nd_Unreadable = False\<rparr>"
    and "Out claim_graph claim_id = [\<lparr>ed_From = claim_id, ed_To = volume_id, ed_Type = EdgeBinds, ed_Optional = False\<rparr>]"
    and "Key volume_id \<noteq> Key claim_id" "ID_Group claim_id = []" "ID_Kind claim_id = ''PersistentVolumeClaim''"
    by (simp_all add: graph_Node_def Out_def claim_graph_def Let_def volume_id_def claim_id_def core_id_def Key_def)
  show "index_by_key std_lib [data_claim] (Key claim_id) = Some data_claim"
    by code_simp
  show "visitBudget = 50000"
    by (simp add: visitBudget_def MaxCauses_def MaxChain_def CollectObjectLimit_def)
qed

lemma volume_missing:
  assumes "dg_memo d (Key volume_id, MaxChain - Suc n) = None" "\<not> dg_stopped d" "Key volume_id \<notin> dg_active d" "dg_visits d < 50000"
  shows "fst (diagnose_visit std_lib claim_env (Suc n) volume_id d) = leaf volume_id ''MissingPersistentVolume'' ''PersistentVolume pv1 does not exist''"
  using assms
  by (simp add: visit_node_def explain_def claim_env_def claim_env_facts distinct_causes_def leaf_def MaxCauses_def Let_def)
     (simp add: volume_id_def core_id_def QualifiedName_def)

lemma claim_blamed:
  "fst (diagnose_visit std_lib claim_env MaxChain claim_id \<lparr>dg_memo = Map.empty, dg_active = {}, dg_visits = 0, dg_stopped = False\<rparr>)
     = [missing_volume]"
proof -
  let ?d = "\<lparr>dg_memo = Map.empty, dg_active = {Key claim_id}, dg_visits = 1, dg_stopped = False\<rparr>"
  obtain d' where v: "diagnose_visit std_lib claim_env (Suc 8) volume_id ?d
      = (leaf volume_id ''MissingPersistentVolume'' ''PersistentVolume pv1 does not exist'', d')"
    using volume_missing [of ?d 8] claim_env_facts(5) by (cases "diagnose_visit std_lib claim_env (Suc 8) volume_id ?d") auto
  have "follow std_lib claim_env (diagnose_visit std_lib claim_env (Suc 8)) claim_id [EdgeBinds] ?d = ([missing_volume], d')"
    unfolding follow_def visit_edges_def
    using v by (simp add: claim_env_def [THEN arg_cong, of we_graph] claim_env_facts podSpecEdge_def below_def leaf_def missing_volume_def)
  then have "explain std_lib claim_env (diagnose_visit std_lib claim_env (Suc 8)) claim_id ?d = ([missing_volume], d')"
    by (simp add: explain_def or_else_def claim_env_def [THEN arg_cong, of we_graph] claim_env_def [THEN arg_cong, of we_objects] claim_env_facts)
  moreover have levels: "diagnose_visit std_lib claim_env MaxChain = visit_node std_lib claim_env 0 (Some (diagnose_visit std_lib claim_env (Suc 8)))"
    unfolding MaxChain_def using diagnose_visit.simps(2) [of std_lib claim_env "Suc 8"] by (simp add: MaxChain_def)
  ultimately show ?thesis
    unfolding levels by (simp add: visit_node_def claim_env_def [THEN arg_cong, of we_budget] claim_env_def [THEN arg_cong, of we_ended]
        claim_env_facts(6) distinct_causes_def MaxCauses_def Let_def)
qed

lemma unbound_claim_diagnosed: "Diagnosis_Build std_lib (\<lambda>_. False) unbound_claim = [reported_form missing_volume]"
proof -
  let ?d = "\<lparr>dg_memo = Map.empty, dg_active = {}, dg_visits = 0, dg_stopped = False\<rparr>"
  obtain d' where v: "diagnose_visit std_lib claim_env MaxChain claim_id ?d = ([missing_volume], d')"
    using claim_blamed by (cases "diagnose_visit std_lib claim_env MaxChain claim_id ?d") simp
  have rep: "report_causes [missing_volume] [] [] = (False, [cause_id (reported_form missing_volume)], [reported_form missing_volume])"
    by (simp add: Let_def MaxCauses_def reported_form_def cause_id_def)
  have res: "unhealthy_results std_lib (di_Results unbound_claim) = [\<lparr>hr_Resource = claim_id, hr_State = HealthStateProgressing, hr_Reason = ''Pending'', hr_Message = []\<rparr>]"
    by code_simp
  have env: "\<lparr>we_graph = di_Graph unbound_claim, we_objects = index_by_key std_lib (di_Objects unbound_claim), we_budget = visitBudget, we_ended = (\<lambda>_. False)\<rparr> = claim_env"
    by (simp add: claim_env_def unbound_claim_def)
  have "causes_of std_lib claim_env \<lparr>hr_Resource = claim_id, hr_State = HealthStateProgressing, hr_Reason = ''Pending'', hr_Message = []\<rparr> ?d = ([missing_volume], d')"
    by (simp add: causes_of_def v)
  then show ?thesis
    unfolding Diagnosis_Build_def build_def env res report_results_step by (simp add: rep del: report_causes.simps)
qed

theorem Diagnosis_fits_schema_witness:
  "camel_case (cs_Reason (hd (Diagnosis_Build std_lib (\<lambda>_. False) unbound_claim)))
   \<and> length (Diagnosis_Build std_lib (\<lambda>_. False) unbound_claim) = 1
   \<and> list_all (\<lambda>c. referable std_lib (cs_Resource c) \<and> list_all (referable std_lib) (cs_Chain c))
       (Diagnosis_Build std_lib (\<lambda>_. False) unbound_claim)"
proof -
  have "referable std_lib claim_id" "referable std_lib volume_id" by code_simp+
  moreover have "ed_To e = volume_id" if "e \<in> set (Out claim_graph i)" for e i
    using that by (auto simp: claim_graph_def Out_def Let_def split: if_splits)
  ultimately have "referable_input std_lib unbound_claim" by (auto simp: referable_input_def unbound_claim_def)
  then show ?thesis
    using Diagnosis_fits_schema [OF refl, of std_lib "\<lambda>_. False" unbound_claim] unfolding unbound_claim_diagnosed by simp
qed

theorem Diagnosis_chain_follows_graph_witness:
  "\<exists>e \<in> set (Out claim_graph claim_id). \<not> ed_Optional e \<and> Key (ed_To e) = Key volume_id"
proof -
  have "reported_form missing_volume \<in> set (Diagnosis_Build std_lib (\<lambda>_. False) unbound_claim)"
    unfolding unbound_claim_diagnosed by simp
  from Diagnosis_chain_follows_graph [OF this] show ?thesis
    by (auto simp: missing_volume_def unbound_claim_def)
qed

theorem Diagnosis_complete_witness:
  "\<exists>chain. chain \<noteq> [] \<and> Key (hd chain) = Key claim_id \<and> Key (last chain) = Key volume_id \<and> successively (required claim_graph) chain"
  using Diagnosis_complete [OF refl, of std_lib "\<lambda>_. False" unbound_claim
      "\<lparr>hr_Resource = claim_id, hr_State = HealthStateProgressing, hr_Reason = ''Pending'', hr_Message = []\<rparr>"]
  unfolding unbound_claim_diagnosed by (simp add: unbound_claim_def missing_volume_def)

end
