(* ===== verification/Sealing.thy ===== *)
theory Sealing
  imports Redact K8s_Lib
begin

text \<open>
  The console's sealed cookies (\<open>internal/console/session.go\<close>): a value is marshalled to JSON, encrypted
  with AES-256-GCM under a random nonce, and written in unpadded base64url. Base64 is modelled as
  Go's \<open>encoding/base64\<close> computes it. AES-GCM and the JSON codec of the sealed struct are
  parameters; \<open>gcm_laws\<close> says of the cipher that what it sealed opens again, and that it opens
  nothing but what it would itself have sealed under the same key and nonce, which is how GCM
  checks a tag.

  The interface of everything that is written and read back is the locale \<open>codec\<close>: base64, the
  identity kept in a session and the sealed cookie itself.
\<close>

locale codec =
  fixes valid :: "'a \<Rightarrow> bool" and enc :: "'a \<Rightarrow> 'b" and dec :: "'b \<Rightarrow> 'a option"
  assumes dec_enc: "valid v \<Longrightarrow> dec (enc v) = Some v"
begin

lemma enc_inj: "valid v \<Longrightarrow> valid w \<Longrightarrow> enc v = enc w \<Longrightarrow> v = w"
  using dec_enc by (metis option.inject)

lemma dec_unique: "valid v \<Longrightarrow> dec (enc v) = Some w \<Longrightarrow> w = v"
  by (simp add: dec_enc)

end

subsection \<open>base64url without padding\<close>

definition b64_alphabet :: string where
  "b64_alphabet = ''ABCDEFGHIJKLMNOPQRSTUVWXYZabcdefghijklmnopqrstuvwxyz0123456789-_''"

definition b64_char :: "nat \<Rightarrow> char" where
  "b64_char n = b64_alphabet ! n"

definition b64_value :: "char \<Rightarrow> nat option" where
  "b64_value c = map_of (zip b64_alphabet [0..<64]) c"

fun b64_encode :: "string \<Rightarrow> string" where
  "b64_encode [] = []"
| "b64_encode [a] = (let n = of_char a * 16 in [b64_char (n div 64), b64_char (n mod 64)])"
| "b64_encode [a, b] =
     (let n = (of_char a * 256 + of_char b) * 4
      in [b64_char (n div 4096), b64_char (n div 64 mod 64), b64_char (n mod 64)])"
| "b64_encode (a # b # c # r) =
     (let n = (of_char a * 256 + of_char b) * 256 + of_char c
      in [b64_char (n div 262144), b64_char (n div 4096 mod 64), b64_char (n div 64 mod 64), b64_char (n mod 64)]
         @ b64_encode r)"

text \<open>A last group of one digit is an error; the low bits of a last group of two or three are ignored.\<close>

fun b64_groups :: "nat list \<Rightarrow> string option" where
  "b64_groups [] = Some []"
| "b64_groups [w] = None"
| "b64_groups [w, x] = Some [char_of ((w * 64 + x) div 16)]"
| "b64_groups [w, x, y] =
     (let n = (w * 64 + x) * 64 + y in Some [char_of (n div 1024), char_of (n div 4 mod 256)])"
| "b64_groups (w # x # y # z # r) =
     (let n = ((w * 64 + x) * 64 + y) * 64 + z
      in map_option (\<lambda>s. char_of (n div 65536) # char_of (n div 256 mod 256) # char_of (n mod 256) # s)
           (b64_groups r))"

text \<open>The decoder skips carriage returns and line feeds.\<close>

definition b64_decode :: "string \<Rightarrow> string option" where
  "b64_decode s =
     (let vs = map b64_value (filter (\<lambda>c. c \<noteq> CHR 0x0D \<and> c \<noteq> CHR 0x0A) s)
      in if None \<in> set vs then None else b64_groups (map the vs))"

lemma b64_value_char: "n < 64 \<Longrightarrow> b64_value (b64_char n) = Some n"
proof -
  have "\<forall>n \<in> set [0..<64]. b64_value (b64_char n) = Some n" by code_simp
  then show "n < 64 \<Longrightarrow> ?thesis" by simp
qed

lemma b64_char_visible: "n < 64 \<Longrightarrow> b64_char n \<noteq> CHR 0x0D \<and> b64_char n \<noteq> CHR 0x0A"
proof -
  have "\<forall>n \<in> set [0..<64]. b64_char n \<noteq> CHR 0x0D \<and> b64_char n \<noteq> CHR 0x0A" by code_simp
  then show "n < 64 \<Longrightarrow> ?thesis" by simp
qed

text \<open>The digits of an encoding, below 64, as the decoder reads them back.\<close>

fun b64_digits :: "string \<Rightarrow> nat list" where
  "b64_digits [] = []"
| "b64_digits [a] = (let n = of_char a * 16 in [n div 64, n mod 64])"
| "b64_digits [a, b] = (let n = (of_char a * 256 + of_char b) * 4 in [n div 4096, n div 64 mod 64, n mod 64])"
| "b64_digits (a # b # c # r) =
     (let n = (of_char a * 256 + of_char b) * 256 + of_char c
      in [n div 262144, n div 4096 mod 64, n div 64 mod 64, n mod 64] @ b64_digits r)"

lemma of_char_256: "(of_char c :: nat) < 256"
  by (metis of_char_mod_256 mod_less_divisor zero_less_numeral)

lemma b64_encode_digits: "b64_encode s = map b64_char (b64_digits s)"
  by (induction s rule: b64_encode.induct) (simp_all add: Let_def)

text \<open>Bytes and digits of a number, one place at a time.\<close>

lemma byte_place:
  assumes "c < (256 :: nat)"
  shows "(x * 256 + c) div 256 = x" "(x * 256 + c) mod 256 = c"
  using assms by simp_all

lemma byte_parts:
  assumes "b < 256" "c < (256 :: nat)"
  shows "((a * 256 + b) * 256 + c) div 65536 = a" "((a * 256 + b) * 256 + c) div 256 mod 256 = b"
    "((a * 256 + b) * 256 + c) mod 256 = c"
proof -
  have "((a * 256 + b) * 256 + c) div 65536 = ((a * 256 + b) * 256 + c) div 256 div 256"
    by (simp add: div_mult2_eq [symmetric])
  then show "((a * 256 + b) * 256 + c) div 65536 = a"
    by (simp only: byte_place [OF assms(1)] byte_place [OF assms(2)])
qed (simp_all only: byte_place [OF assms(1)] byte_place [OF assms(2)])

lemma two_bytes:
  assumes "b < (256 :: nat)"
  shows "(a * 256 + b) * 4 div 1024 = a" "(a * 256 + b) * 4 div 4 mod 256 = b"
proof -
  have "(a * 256 + b) * 4 div 1024 = (a * 256 + b) * 4 div 4 div 256"
    by (simp only: div_mult2_eq [symmetric] numeral_times_numeral) simp
  then show "(a * 256 + b) * 4 div 1024 = a"
    by (simp only: byte_place [OF assms] nonzero_mult_div_cancel_right zero_neq_numeral not_False_eq_True)
qed (simp add: assms)

lemma byte_bounds:
  assumes "a < 256" "b < 256" "c < (256 :: nat)"
  shows "(a * 256 + b) * 4 < 262144" "(a * 256 + b) * 256 + c < 16777216"
proof -
  have "a \<le> 255" "b \<le> 255" "c \<le> 255" using assms by simp_all
  then have "a * 256 + b \<le> 65535" by linarith
  then have "(a * 256 + b) * 4 \<le> 65535 * 4" by (rule mult_le_mono1)
  then show "(a * 256 + b) * 4 < 262144" by (rule le_less_trans) simp
  have "(a * 256 + b) * 256 + c \<le> 65535 * 256 + 255"
    using \<open>a * 256 + b \<le> 65535\<close> \<open>c \<le> 255\<close> by (intro add_le_mono mult_le_mono1)
  then show "(a * 256 + b) * 256 + c < 16777216" by (rule le_less_trans) simp
qed

lemma three_digits: "(n div 4096 * 64 + n div 64 mod 64) * 64 + n mod 64 = (n :: nat)"
proof -
  have "n div 64 div 64 = n div 4096"
    by (simp add: div_mult2_eq [symmetric])
  then show ?thesis
    by (metis div_mult_mod_eq)
qed

lemma four_digits:
  "((n div 262144 * 64 + n div 4096 mod 64) * 64 + n div 64 mod 64) * 64 + n mod 64 = (n :: nat)"
proof -
  have "n div 4096 div 64 = n div 262144" "n div 64 div 64 = n div 4096"
    by (simp_all add: div_mult2_eq [symmetric])
  then show ?thesis
    by (metis div_mult_mod_eq)
qed

lemma b64_digits_bounded: "d \<in> set (b64_digits s) \<Longrightarrow> d < 64"
proof (induction s rule: b64_digits.induct)
  case (2 a)
  have "of_char a * 16 div 64 < (64 :: nat)"
    using of_char_256 [of a] by (intro less_mult_imp_div_less) simp
  with 2 show ?case by (auto simp add: Let_def simp del: div_mult_mult2 div_mult_self3)
next
  case (3 a b)
  have "(of_char a * 256 + of_char b) * 4 div 4096 < (64 :: nat)"
    using byte_bounds(1) [OF of_char_256 [of a] of_char_256 [of b] of_char_256 [of b]] by (intro less_mult_imp_div_less) simp
  with 3 show ?case by (auto simp: Let_def)
next
  case (4 a b c r)
  have "((of_char a * 256 + of_char b) * 256 + of_char c) div 262144 < (64 :: nat)"
    using byte_bounds(2) [OF of_char_256 [of a] of_char_256 [of b] of_char_256 [of c]] by (intro less_mult_imp_div_less) simp
  with 4 show ?case by (auto simp: Let_def)
qed simp

lemma b64_groups_digits: "b64_groups (b64_digits s) = Some s"
proof (induction s rule: b64_digits.induct)
  case (2 a)
  have "(of_char a * 16 div 64 * 64 + of_char a * 16 mod 64) div 16 = (of_char a :: nat)"
    unfolding div_mult_mod_eq by simp
  then show ?case by (simp only: b64_digits.simps b64_groups.simps Let_def char_of_char)
next
  case (3 a b)
  show ?case
    by (simp only: b64_digits.simps b64_groups.simps Let_def three_digits two_bytes [OF of_char_256] char_of_char)
next
  case (4 a b c r)
  then show ?case
    by (simp only: b64_digits.simps b64_groups.simps Let_def four_digits append.simps
      byte_parts [OF of_char_256 of_char_256] char_of_char option.map)
qed simp

theorem b64_round_trip: "b64_decode (b64_encode s) = Some s"
proof -
  have "filter (\<lambda>c. c \<noteq> CHR 0x0D \<and> c \<noteq> CHR 0x0A) (map b64_char (b64_digits s)) = map b64_char (b64_digits s)"
    using b64_char_visible b64_digits_bounded by (auto simp: filter_id_conv)
  moreover have "map (b64_value \<circ> b64_char) (b64_digits s) = map Some (b64_digits s)"
    using b64_value_char b64_digits_bounded by auto
  moreover have "map (the \<circ> Some) (b64_digits s) = b64_digits s"
    by (simp add: comp_def)
  ultimately show ?thesis
    by (auto simp: b64_decode_def Let_def b64_encode_digits b64_groups_digits simp del: map_eq_conv)
qed

interpretation base64: codec "\<lambda>_. True" b64_encode b64_decode
  by unfold_locales (rule b64_round_trip)

subsection \<open>Sealed values\<close>

record aead =
  gcm_Seal :: "string \<Rightarrow> string \<Rightarrow> string \<Rightarrow> string" \<comment> \<open>key, nonce and plaintext\<close>
  gcm_Open :: "string \<Rightarrow> string \<Rightarrow> string \<Rightarrow> string option" \<comment> \<open>key, nonce and ciphertext\<close>

definition SessionKeySize :: nat where
  "SessionKeySize = 32"

text \<open>The nonce size of \<open>cipher.NewGCM\<close>.\<close>

definition NonceSize :: nat where
  "NonceSize = 12"

text \<open>\<open>newAEAD\<close>: the cipher under a key of the right size. \<open>marshal\<close> and \<open>unmarshal\<close> are \<open>encoding/json\<close>
  at the sealed struct, and \<open>rnd\<close> is what \<open>rand.Read\<close> gave for the nonce.\<close>

definition newAEAD :: "aead \<Rightarrow> string \<Rightarrow> ((string \<Rightarrow> string \<Rightarrow> string) \<times> (string \<Rightarrow> string \<Rightarrow> string option)) option" where
  "newAEAD A key = (if length key \<noteq> SessionKeySize then None else Some (gcm_Seal A key, gcm_Open A key))"

definition seal :: "aead \<Rightarrow> ('v \<Rightarrow> string option) \<Rightarrow> string \<Rightarrow> string option \<Rightarrow> 'v \<Rightarrow> string option" where
  "seal A marshal key rnd v =
     (case newAEAD A key of
        None \<Rightarrow> None
      | Some (aead_Seal, _) \<Rightarrow>
          (case marshal v of
             None \<Rightarrow> None
           | Some plain \<Rightarrow>
               (case rnd of
                  None \<Rightarrow> None
                | Some nonce \<Rightarrow> Some (b64_encode (nonce @ aead_Seal nonce plain)))))"

definition open_sealed :: "aead \<Rightarrow> (string \<Rightarrow> 'v option) \<Rightarrow> string \<Rightarrow> string \<Rightarrow> 'v option" where
  "open_sealed A unmarshal key s =
     (case newAEAD A key of
        None \<Rightarrow> None
      | Some (_, aead_Open) \<Rightarrow>
          (case b64_decode s of
             None \<Rightarrow> None
           | Some raw \<Rightarrow>
               if length raw < NonceSize then None
               else
                 (case aead_Open (take NonceSize raw) (drop NonceSize raw) of
                    None \<Rightarrow> None
                  | Some plain \<Rightarrow> unmarshal plain)))"

definition gcm_laws :: "aead \<Rightarrow> bool" where
  "gcm_laws A \<longleftrightarrow>
     (\<forall>key nonce plain. gcm_Open A key nonce (gcm_Seal A key nonce plain) = Some plain) \<and>
     (\<forall>key nonce c plain. gcm_Open A key nonce c = Some plain \<longrightarrow> c = gcm_Seal A key nonce plain)"

text \<open>What was sealed opens again under the same key, to what the JSON codec makes of it.\<close>

lemma open_seal:
  assumes "gcm_laws A" "seal A marshal key rnd v = Some s" "rnd = Some nonce" "length nonce = NonceSize"
    and "\<And>plain. marshal v = Some plain \<Longrightarrow> unmarshal plain = Some v'"
  shows "open_sealed A unmarshal key s = Some v'"
  using assms
  by (auto simp: seal_def open_sealed_def newAEAD_def gcm_laws_def b64_round_trip split: option.splits if_splits)

text \<open>What opens was sealed under the key: nonce and plaintext determine the whole value.\<close>

lemma open_sealed_only:
  assumes "gcm_laws A" "open_sealed A unmarshal key s = Some v"
  shows "\<exists>nonce plain. length key = SessionKeySize \<and> length nonce = NonceSize
    \<and> b64_decode s = Some (nonce @ gcm_Seal A key nonce plain) \<and> unmarshal plain = Some v"
proof -
  obtain raw plain where raw: "length key = SessionKeySize" "b64_decode s = Some raw" "\<not> length raw < NonceSize"
      "gcm_Open A key (take NonceSize raw) (drop NonceSize raw) = Some plain" "unmarshal plain = Some v"
    using assms(2) by (auto simp: open_sealed_def newAEAD_def split: option.splits if_splits)
  then have "drop NonceSize raw = gcm_Seal A key (take NonceSize raw) plain"
    using assms(1) by (simp add: gcm_laws_def)
  then have "raw = take NonceSize raw @ gcm_Seal A key (take NonceSize raw) plain"
    by (metis append_take_drop_id)
  with raw show ?thesis
    by (intro exI [of _ "take NonceSize raw"] exI [of _ plain]) auto
qed

text \<open>One cipher with these laws, for witnesses: the key is the tag.\<close>

definition tag_aead :: aead where
  "tag_aead = \<lparr>gcm_Seal = (\<lambda>key nonce plain. plain @ key),
     gcm_Open = (\<lambda>key nonce c. if HasSuffix c key then Some (take (length c - length key) c) else None)\<rparr>"

lemma tag_aead_laws: "gcm_laws tag_aead"
  by (auto simp: gcm_laws_def tag_aead_def HasSuffix_def HasPrefix_iff suffix_to_prefix [symmetric] suffix_def)

subsection \<open>Tokens that do not print\<close>

datatype secret_token = Secret string

definition redactedSecret :: string where
  "redactedSecret = ''[redacted]''"

fun Secret_String :: "secret_token \<Rightarrow> string" where
  "Secret_String (Secret _) = redactedSecret"

fun Reveal :: "secret_token \<Rightarrow> string" where
  "Reveal (Secret s) = s"

end
