(* ===== verification/Console_Auth.thy ===== *)
theory Console_Auth
  imports Complex_Main Sealing Api_Types
begin

text \<open>
  Sign-in to the web console (\<open>internal/console\<close>: \<open>config.go\<close>, \<open>auth.go\<close>, \<open>token.go\<close>): the
  settings and what they may be, the signed-in identity and the rules it has to pass, the OIDC flow
  (\<open>Start\<close>, \<open>Callback\<close>), sign-in with a Kubernetes token, and how a request's session cookie becomes
  an identity again.

  A handler is a function from the request, the clock and the random bytes it draws to the reply
  it writes: status, \<open>Location\<close>, headers, cookies in the order they are set, and the text of the
  failure page. \<open>go-oidc\<close>, \<open>oauth2\<close>, the \<open>SelfSubjectReview\<close> client, address and URL parsing, the JSON
  codecs and decimal-to-float conversion are fields of \<open>console_lib\<close>; log lines are not modelled.
  Constant-time comparison is equality.
\<close>

subsection \<open>Settings\<close>

record console_config =
  cc_Listen :: string
  cc_IssuerURL :: string
  cc_ClientID :: string
  cc_ClientSecretFile :: string
  cc_RedirectURL :: string
  cc_UsernameClaim :: string
  cc_GroupsClaim :: string
  cc_UsernamePrefix :: string
  cc_GroupsPrefix :: string
  cc_SessionKeyFile :: string
  cc_ClusterName :: string
  cc_SSOName :: string
  cc_Connectors :: "string list"
  cc_DocsURL :: string
  cc_StatusURL :: string
  cc_InsecureCookies :: bool

subsection \<open>Identities, sessions and the libraries\<close>

record console_identity =
  id_Username :: string
  id_Groups :: "string list"
  id_Expiry :: time
  id_Method :: string
  id_Token :: secret_token

record session_data =
  sd_Username :: string
  sd_Groups :: "string list"
  sd_Expiry :: time
  sd_Method :: string
  sd_Token :: string

record login_state =
  ls_State :: string
  ls_Verifier :: string
  ls_Nonce :: string
  ls_Connector :: string

record id_token =
  it_Nonce :: string
  it_Expiry :: time
  it_Claims :: "string + gomap" \<comment> \<open>\<open>Claims\<close>: an error's text or the claims\<close>

record reviewed_user =
  ru_Username :: string
  ru_Groups :: "string list"

record 'p console_lib =
  cl_AEAD :: aead
  cl_MarshalSession :: "session_data \<Rightarrow> string option"
  cl_UnmarshalSession :: "string \<Rightarrow> session_data option"
  cl_MarshalLogin :: "login_state \<Rightarrow> string option"
  cl_UnmarshalLogin :: "string \<Rightarrow> login_state option"
  cl_ExpClaim :: "string \<Rightarrow> string option" \<comment> \<open>the number under \<open>exp\<close> in a JSON object, when it has one\<close>
  cl_Float64 :: "string \<Rightarrow> rat option"
  cl_Quote :: "string \<Rightarrow> string"
  cl_FormatRFC3339 :: "time \<Rightarrow> string"
  cl_SplitHost :: "string \<Rightarrow> string option" \<comment> \<open>the host of \<open>net.SplitHostPort\<close>\<close>
  cl_Hostname :: "string \<Rightarrow> string option" \<comment> \<open>\<open>url.Parse\<close> and \<open>Hostname\<close>\<close>
  cl_ReadFile :: "string \<Rightarrow> string + string"
  cl_NewProvider :: "console_config \<Rightarrow> string \<Rightarrow> string list \<Rightarrow> string + 'p" \<comment> \<open>client secret and scopes\<close>
  cl_AuthCodeURL :: "'p \<Rightarrow> string \<Rightarrow> string \<Rightarrow> string \<Rightarrow> string option \<Rightarrow> string" \<comment> \<open>state, PKCE verifier, nonce, connector\<close>
  cl_Exchange :: "'p \<Rightarrow> string \<Rightarrow> string \<Rightarrow> string + any" \<comment> \<open>code and verifier; the \<open>id_token\<close> of the answer\<close>
  cl_Verify :: "'p \<Rightarrow> string \<Rightarrow> string + id_token"
  cl_SelfSubjectReview :: "string \<Rightarrow> api_error + reviewed_user" \<comment> \<open>sent with the token\<close>

definition SessionCookie :: string where
  "SessionCookie = ''ksync_session''"
definition StateCookie :: string where
  "StateCookie = ''ksync_state''"
definition MethodOIDC :: string where
  "MethodOIDC = ''oidc''"
definition MethodToken :: string where
  "MethodToken = ''token''"
definition loginWindow :: int where
  "loginWindow = 600 * second"
definition maxSessionCookie :: nat where
  "maxSessionCookie = 4000"
definition systemPrefix :: string where
  "systemPrefix = ''system:''"
definition anonymousUser :: string where
  "anonymousUser = ''system:anonymous''"
definition unauthenticatedGroup :: string where
  "unauthenticatedGroup = ''system:unauthenticated''"
definition serviceAccountPrefix :: string where
  "serviceAccountPrefix = ''system:serviceaccount:''"

definition IsToken :: "console_identity \<Rightarrow> bool" where
  "IsToken i \<longleftrightarrow> id_Method i = MethodToken"

definition sessionFromIdentity :: "console_identity \<Rightarrow> session_data" where
  "sessionFromIdentity i = \<lparr>sd_Username = id_Username i, sd_Groups = id_Groups i, sd_Expiry = id_Expiry i,
     sd_Method = id_Method i, sd_Token = Reveal (id_Token i)\<rparr>"

definition session_identity :: "session_data \<Rightarrow> console_identity" where
  "session_identity d = \<lparr>id_Username = sd_Username d, id_Groups = sd_Groups d, id_Expiry = sd_Expiry d,
     id_Method = (if sd_Method d = [] then MethodOIDC else sd_Method d), id_Token = Secret (sd_Token d)\<rparr>"

definition checkIdentity :: "'p console_lib \<Rightarrow> console_identity \<Rightarrow> string option" where
  "checkIdentity C i =
     (if id_Username i = [] then Some ''an empty username cannot be impersonated''
      else if HasPrefix (id_Username i) systemPrefix
      then Some (''the username '' @ cl_Quote C (id_Username i) @ '' is a system: identity, which the console never impersonates'')
      else
        (case find (\<lambda>g. HasPrefix g systemPrefix) (id_Groups i) of
           Some g \<Rightarrow> Some (''the group '' @ cl_Quote C g @ '' is a system: group, which the console never impersonates'')
         | None \<Rightarrow> None))"

definition checkTokenIdentity :: "'p console_lib \<Rightarrow> string \<Rightarrow> string list \<Rightarrow> string option" where
  "checkTokenIdentity C username groups =
     (if username = [] then Some ''the token has no username''
      else if username = anonymousUser
      then Some ''the token is not authenticated: the API server answered as system:anonymous''
      else if HasPrefix username systemPrefix \<and> \<not> HasPrefix username serviceAccountPrefix
      then Some (''the username '' @ cl_Quote C username @ '' is a system: identity other than a ServiceAccount'')
      else if unauthenticatedGroup \<in> set groups
      then Some ''the token is not authenticated: the API server placed it in system:unauthenticated''
      else None)"

definition check :: "'p console_lib \<Rightarrow> console_identity \<Rightarrow> string option" where
  "check C i =
     (if id_Method i = MethodToken then
        (if id_Token i = Secret [] then Some ''a token session has no token''
         else checkTokenIdentity C (id_Username i) (id_Groups i))
      else if id_Method i = [] \<or> id_Method i = MethodOIDC then
        (if id_Token i \<noteq> Secret [] then Some ''an OIDC session carries a token''
         else checkIdentity C i)
      else Some (''unknown sign-in method '' @ cl_Quote C (id_Method i)))"

subsection \<open>Which settings are accepted\<close>

definition loopback :: "string \<Rightarrow> bool" where
  "loopback host \<longleftrightarrow> host \<in> set [''localhost'', ''127.0.0.1'', ''::1'']"

definition isLoopbackHost :: "'p console_lib \<Rightarrow> string \<Rightarrow> bool" where
  "isLoopbackHost C addr = (case cl_SplitHost C addr of None \<Rightarrow> False | Some host \<Rightarrow> loopback host)"

definition isLoopbackURL :: "'p console_lib \<Rightarrow> string \<Rightarrow> bool" where
  "isLoopbackURL C raw = (case cl_Hostname C raw of None \<Rightarrow> False | Some host \<Rightarrow> loopback host)"

definition OIDCEnabled :: "console_config \<Rightarrow> bool" where
  "OIDCEnabled c \<longleftrightarrow> cc_IssuerURL c \<noteq> [] \<or> cc_ClientID c \<noteq> []"

definition console_Validate :: "'p console_lib \<Rightarrow> console_config \<Rightarrow> string option" where
  "console_Validate C c =
     (if \<not> OIDCEnabled c then
        (if cc_InsecureCookies c \<and> \<not> isLoopbackHost C (cc_Listen c)
         then Some (''console: --insecure-cookies is for local development only; --listen '' @ cl_Quote C (cc_Listen c)
           @ '' must be on localhost, 127.0.0.1 or [::1]'')
         else None)
      else if cc_IssuerURL c = [] \<or> cc_ClientID c = []
      then Some ''console: --oidc-issuer-url and --oidc-client-id must be set together, or both left out for token sign-in only''
      else if cc_RedirectURL c = []
      then Some ''console: OIDC sign-in needs --redirect-url, ending in /auth/callback''
      else if cc_UsernameClaim c = []
      then Some ''console: --username-claim must not be empty''
      else if cc_InsecureCookies c \<and> \<not> isLoopbackURL C (cc_RedirectURL c)
      then Some (''console: --insecure-cookies is for local development only; --redirect-url '' @ cl_Quote C (cc_RedirectURL c)
        @ '' must be on localhost, 127.0.0.1 or [::1]'')
      else None)"

definition splitList :: "string \<Rightarrow> string list" where
  "splitList v = filter (\<lambda>item. item \<noteq> []) (map TrimSpace (Split CHR '','' v))"

subsection \<open>Requests and replies\<close>

record console_request =
  cq_Path :: string
  cq_Query :: "(string \<times> string) list"
  cq_Cookies :: "(string \<times> string) list"
  cq_Form :: "(string \<times> string) list option" \<comment> \<open>the posted form, \<open>None\<close> when \<open>ParseForm\<close> fails\<close>
  cq_ns :: string \<comment> \<open>the path values \<open>ns\<close> and \<open>name\<close>\<close>
  cq_name :: string

record cookie =
  ck_Name :: string
  ck_Value :: string
  ck_Path :: string
  ck_Expires :: time
  ck_MaxAge :: int
  ck_HttpOnly :: bool
  ck_Secure :: bool
  ck_SameSiteLax :: bool

record web_reply =
  wr_Code :: int
  wr_Location :: string
  wr_Cookies :: "cookie list"
  wr_Headers :: "(string \<times> string) list"
  wr_Page :: string

definition get_param :: "(string \<times> string) list \<Rightarrow> string \<Rightarrow> string" where
  "get_param q k = get_str (map_of q) k"

definition has_param :: "(string \<times> string) list \<Rightarrow> string \<Rightarrow> bool" where
  "has_param q k \<longleftrightarrow> k \<in> set (map fst q)"

record 'p auth =
  au_cfg :: console_config
  au_key :: string
  au_clientSecret :: string
  au_provider :: "'p option"

text \<open>\<open>time.Unix(0, 0)\<close>, counted from Go's zero time.\<close>

definition unix_epoch :: time where
  "unix_epoch = 62135596800 * second"

definition cookie_of :: "'p auth \<Rightarrow> string \<Rightarrow> string \<Rightarrow> string \<Rightarrow> time \<Rightarrow> cookie" where
  "cookie_of a name v path expires = \<lparr>ck_Name = name, ck_Value = v, ck_Path = path, ck_Expires = expires,
     ck_MaxAge = (if v = [] then - 1 else 0), ck_HttpOnly = True, ck_Secure = (\<not> cc_InsecureCookies (au_cfg a)),
     ck_SameSiteLax = True\<rparr>"

text \<open>\<open>html.EscapeString\<close> and \<open>url.QueryEscape\<close>.\<close>

definition html_escape_char :: "char \<Rightarrow> string" where
  "html_escape_char c =
     (if c = CHR ''&'' then ''&amp;'' else if c = CHR 0x27 then ''&#39;'' else if c = CHR ''<'' then ''&lt;''
      else if c = CHR ''>'' then ''&gt;'' else if c = CHR 0x22 then ''&#34;'' else [c])"

definition html_EscapeString :: "string \<Rightarrow> string" where
  "html_EscapeString s = concat (map html_escape_char s)"

definition hex_digit :: "nat \<Rightarrow> char" where
  "hex_digit n = ''0123456789ABCDEF'' ! n"

definition query_escape_char :: "char \<Rightarrow> string" where
  "query_escape_char c =
     (if alpha c \<or> is_digit c \<or> c \<in> set ''-_.~'' then [c]
      else if c = CHR '' '' then ''+''
      else [CHR ''%'', hex_digit (of_char c div 16), hex_digit (of_char c mod 16)])"

definition QueryEscape :: "string \<Rightarrow> string" where
  "QueryEscape s = concat (map query_escape_char s)"

definition no_store :: "(string \<times> string) list" where
  "no_store = [(''Cache-Control'', ''no-store'')]"

definition fail_page :: "string \<Rightarrow> string \<Rightarrow> string" where
  \<open>fail_page target message =
     ''<!doctype html><html lang="en"><head><meta charset="utf-8"><meta http-equiv="refresh" content="3;url='' @ html_EscapeString target
     @ ''"><title>Sign-in failed</title></head>''
     @ ''<body><h1>Sign-in failed</h1><p>'' @ html_EscapeString (redact_String message) @ ''</p><p><a href="''
     @ html_EscapeString target @ ''">Return to sign in</a></p></body></html>''\<close>

definition auth_fail :: "int \<Rightarrow> string \<Rightarrow> string \<Rightarrow> web_reply" where
  "auth_fail code reason message = \<lparr>wr_Code = code, wr_Location = [], wr_Cookies = [],
     wr_Headers = (''Content-Type'', ''text/html; charset=utf-8'') # no_store,
     wr_Page = fail_page (''/login?error='' @ QueryEscape reason) message\<rparr>"

definition http_NotFound :: web_reply where
  "http_NotFound = \<lparr>wr_Code = 404, wr_Location = [], wr_Cookies = [], wr_Headers = [], wr_Page = ''404 page not found''\<rparr>"

definition redirect :: "int \<Rightarrow> string \<Rightarrow> (string \<times> string) list \<Rightarrow> cookie list \<Rightarrow> web_reply" where
  "redirect code location headers cookies =
     \<lparr>wr_Code = code, wr_Location = location, wr_Cookies = cookies, wr_Headers = headers, wr_Page = []\<rparr>"

definition readCookie :: "'p console_lib \<Rightarrow> (string \<Rightarrow> 'v option) \<Rightarrow> 'p auth \<Rightarrow> console_request \<Rightarrow> string \<Rightarrow> 'v option" where
  "readCookie C unmarshal a r name =
     (case map_of (cq_Cookies r) name of
        None \<Rightarrow> None
      | Some v \<Rightarrow> open_sealed (cl_AEAD C) unmarshal (au_key a) v)"

subsection \<open>Start-up and discovery\<close>

text \<open>The random bytes of an in-memory key are an argument, \<open>None\<close> when \<open>rand.Read\<close> fails.\<close>

definition sessionKey :: "'p console_lib \<Rightarrow> string option \<Rightarrow> string \<Rightarrow> string + string" where
  "sessionKey C rnd path =
     (if path = [] then (case rnd of None \<Rightarrow> Inl ''rand'' | Some key \<Rightarrow> Inr key)
      else
        (case cl_ReadFile C path of
           Inl err \<Rightarrow> Inl (''console: read session key: '' @ err)
         | Inr key \<Rightarrow>
             if length key \<noteq> SessionKeySize
             then Inl (''console: session key file holds '' @ itoa (int (length key)) @ '' bytes, want exactly '' @ itoa (int SessionKeySize))
             else Inr key))"

definition oidc_discover :: "'p console_lib \<Rightarrow> 'p auth \<Rightarrow> 'p auth \<times> string option" where
  "oidc_discover C a =
     (let scopes = [''openid'', ''profile'', ''email''] @ (if cc_GroupsClaim (au_cfg a) \<noteq> [] then [''groups''] else [])
      in case cl_NewProvider C (au_cfg a) (au_clientSecret a) scopes of
           Inl err \<Rightarrow> (a, Some err)
         | Inr p \<Rightarrow> (a\<lparr>au_provider := Some p\<rparr>, None))"

text \<open>\<open>NewAuth\<close>; the second component says that discovery is to be retried in the background.\<close>

definition NewAuth :: "'p console_lib \<Rightarrow> string option \<Rightarrow> console_config \<Rightarrow> bool \<Rightarrow> string + 'p auth \<times> bool" where
  "NewAuth C rnd cfg has_base =
     (case console_Validate C cfg of
        Some err \<Rightarrow> Inl err
      | None \<Rightarrow>
          if \<not> has_base then Inl ''console: a cluster configuration is required''
          else
            (case sessionKey C rnd (cc_SessionKeyFile cfg) of
               Inl err \<Rightarrow> Inl err
             | Inr key \<Rightarrow>
                 (let a = \<lparr>au_cfg = cfg, au_key = key, au_clientSecret = [], au_provider = None\<rparr> in
                  if \<not> OIDCEnabled cfg then Inr (a, False)
                  else
                    (case (if cc_ClientSecretFile cfg \<noteq> [] then cl_ReadFile C (cc_ClientSecretFile cfg) else Inr []) of
                       Inl err \<Rightarrow> Inl (''console: read client secret: '' @ err)
                     | Inr secret \<Rightarrow>
                         (case oidc_discover C (a\<lparr>au_clientSecret := TrimSpace secret\<rparr>) of
                            (a, err) \<Rightarrow> Inr (a, err \<noteq> None))))))"

definition Ready :: "'p auth \<Rightarrow> bool" where
  "Ready a \<longleftrightarrow> \<not> OIDCEnabled (au_cfg a) \<or> au_provider a \<noteq> None"

text \<open>\<open>retryDiscovery\<close>: one attempt at every tick, given by what the issuer answers then, until one
  succeeds or the context is done.\<close>

fun retryDiscovery :: "'p console_lib list \<Rightarrow> 'p auth \<Rightarrow> 'p auth" where
  "retryDiscovery [] a = a"
| "retryDiscovery (C # ticks) a =
     (case oidc_discover C a of
        (a, Some err) \<Rightarrow> retryDiscovery ticks a
      | (a, None) \<Rightarrow> a)"

subsection \<open>The OIDC flow\<close>

record login_random =
  lr_State :: string
  lr_Nonce :: string
  lr_Verifier :: string
  lr_Seal :: "string option"

definition randomToken :: "string \<Rightarrow> string" where
  "randomToken b = b64_encode b"

definition Start :: "'p console_lib \<Rightarrow> 'p auth \<Rightarrow> time \<Rightarrow> login_random \<Rightarrow> console_request \<Rightarrow> web_reply" where
  "Start C a now rnd r =
     (if \<not> OIDCEnabled (au_cfg a) then http_NotFound
      else
        (case au_provider a of
           None \<Rightarrow> auth_fail 503 ''unavailable'' ''the identity provider is not reachable yet''
         | Some p \<Rightarrow>
             (let connector = get_param (cq_Query r) ''connector'' in
              if connector \<noteq> [] \<and> connector \<notin> set (cc_Connectors (au_cfg a))
              then auth_fail 400 ''connector'' ''unknown sign-in connector''
              else
                (let state = randomToken (lr_State rnd); nonce = randomToken (lr_Nonce rnd); verifier = lr_Verifier rnd in
                 case seal (cl_AEAD C) (cl_MarshalLogin C) (au_key a) (lr_Seal rnd)
                        \<lparr>ls_State = state, ls_Verifier = verifier, ls_Nonce = nonce, ls_Connector = connector\<rparr> of
                   None \<Rightarrow> auth_fail 500 ''internal'' ''could not start sign-in''
                 | Some sealedState \<Rightarrow>
                     redirect 302 (cl_AuthCodeURL C p state verifier nonce (if connector \<noteq> [] then Some connector else None)) []
                       [cookie_of a StateCookie sealedState ''/auth'' (now + loginWindow)]))))"

definition providerErrors :: "(string \<times> string \<times> string) list" where
  "providerErrors =
     (let unavailable = ''The identity provider could not complete the sign-in. Try again later.'';
          config = ''The identity provider rejected the console's sign-in request. Ask your cluster admin to check its OIDC client.''
      in [(''access_denied'', ''denied'', ''The identity provider denied the sign-in.''),
          (''temporarily_unavailable'', ''unavailable'', unavailable),
          (''server_error'', ''unavailable'', unavailable),
          (''invalid_request'', ''config'', config),
          (''unauthorized_client'', ''config'', config),
          (''unsupported_response_type'', ''config'', config),
          (''invalid_scope'', ''config'', config)])"

fun stringsClaim :: "any \<Rightarrow> string list" where
  "stringsClaim (VStr v) = (if v \<noteq> [] then [v] else [])"
| "stringsClaim (VList vs) = filter (\<lambda>s. s \<noteq> []) (map as_str vs)"
| "stringsClaim _ = []"

definition identityFromToken :: "'p console_lib \<Rightarrow> 'p auth \<Rightarrow> id_token \<Rightarrow> int \<times> string + console_identity" where
  "identityFromToken C a tok =
     (case it_Claims tok of
        Inl err \<Rightarrow> Inl (400, ''the ID token claims could not be read: '' @ err)
      | Inr claims \<Rightarrow>
          (let cfg = au_cfg a; username = as_str (mget claims (cc_UsernameClaim cfg)) in
           if username = []
           then Inl (400, ''the ID token has no '' @ cl_Quote C (cc_UsernameClaim cfg) @ '' claim; set --username-claim to a claim the issuer sends'')
           else if cc_UsernameClaim cfg = ''email'' \<and> (case map_of claims ''email_verified'' of None \<Rightarrow> False | Some v \<Rightarrow> v \<noteq> VBool True)
           then Inl (403, ''the ID token's email is not verified'')
           else
             (let i = \<lparr>id_Username = cc_UsernamePrefix cfg @ username,
                    id_Groups = (if cc_GroupsClaim cfg \<noteq> []
                                 then map (\<lambda>g. cc_GroupsPrefix cfg @ g) (stringsClaim (mget claims (cc_GroupsClaim cfg))) else []),
                    id_Expiry = it_Expiry tok, id_Method = MethodOIDC, id_Token = Secret []\<rparr>
              in case checkIdentity C i of
                   Some err \<Rightarrow> Inl (403, err)
                 | None \<Rightarrow> Inr i)))"

text \<open>The part of \<open>Callback\<close> after the state was checked.\<close>

definition redeem :: "'p console_lib \<Rightarrow> 'p auth \<Rightarrow> string option \<Rightarrow> 'p \<Rightarrow> login_state \<Rightarrow> console_request \<Rightarrow> web_reply" where
  "redeem C a rnd p st r =
     (case cl_Exchange C p (get_param (cq_Query r) ''code'') (ls_Verifier st) of
        Inl err \<Rightarrow> auth_fail 400 ''exchange'' (''the authorization code was refused: '' @ err)
      | Inr extra \<Rightarrow>
          if as_str extra = [] then auth_fail 400 ''token'' ''the identity provider returned no ID token''
          else
            (case cl_Verify C p (as_str extra) of
               Inl err \<Rightarrow> auth_fail 400 ''token'' (''the ID token could not be verified: '' @ err)
             | Inr tok \<Rightarrow>
                 if it_Nonce tok \<noteq> ls_Nonce st then auth_fail 400 ''nonce'' ''the ID token nonce does not match''
                 else
                   (case identityFromToken C a tok of
                      Inl (code, err) \<Rightarrow> auth_fail code ''claims'' err
                    | Inr i \<Rightarrow>
                        (case seal (cl_AEAD C) (cl_MarshalSession C) (au_key a) rnd (sessionFromIdentity i) of
                           None \<Rightarrow> auth_fail 500 ''internal'' ''could not create the session''
                         | Some sealed \<Rightarrow>
                             if length sealed > maxSessionCookie then auth_fail 400 ''groups'' ''too many groups for a session''
                             else redirect 303 ''/apps'' []
                               [cookie_of a StateCookie [] ''/auth'' unix_epoch,
                                cookie_of a SessionCookie sealed ''/'' (id_Expiry i)]))))"

definition Callback :: "'p console_lib \<Rightarrow> 'p auth \<Rightarrow> string option \<Rightarrow> console_request \<Rightarrow> web_reply" where
  "Callback C a rnd r =
     (if \<not> OIDCEnabled (au_cfg a) then http_NotFound
      else
        (case au_provider a of
           None \<Rightarrow> auth_fail 503 ''unavailable'' ''the identity provider is not reachable yet''
         | Some p \<Rightarrow>
             (case readCookie C (cl_UnmarshalLogin C) a r StateCookie of
                None \<Rightarrow> auth_fail 400 ''expired'' ''the sign-in expired or was started in another browser''
              | Some st \<Rightarrow>
                  if ls_State st = [] \<or> ls_Nonce st = []
                  then auth_fail 400 ''expired'' ''the sign-in expired or was started in another browser''
                  else if get_param (cq_Query r) ''state'' \<noteq> ls_State st
                  then auth_fail 400 ''state'' ''the sign-in state does not match''
                  else if get_param (cq_Query r) ''error'' \<noteq> []
                  then (case map_of providerErrors (get_param (cq_Query r) ''error'') of
                          Some (reason, message) \<Rightarrow> auth_fail 400 reason message
                        | None \<Rightarrow> auth_fail 400 ''failed'' ''Sign-in failed.'')
                  else redeem C a rnd p st r)))"

definition Logout :: "'p auth \<Rightarrow> web_reply" where
  "Logout a = redirect 303 ''/login'' [] [cookie_of a SessionCookie [] ''/'' unix_epoch]"

definition ClearSession :: "'p auth \<Rightarrow> cookie" where
  "ClearSession a = cookie_of a SessionCookie [] ''/'' unix_epoch"

text \<open>\<open>Auth.Identity\<close>: the signed-in identity, \<open>None\<close> for \<open>ErrNoSession\<close>.\<close>

definition Identity :: "'p console_lib \<Rightarrow> 'p auth \<Rightarrow> time \<Rightarrow> console_request \<Rightarrow> console_identity option" where
  "Identity C a now r =
     (case readCookie C (cl_UnmarshalSession C) a r SessionCookie of
        None \<Rightarrow> None
      | Some d \<Rightarrow>
          (let i = session_identity d in
           if \<not> now < id_Expiry i \<or> check C i \<noteq> None then None else Some i))"

subsection \<open>Sign-in with a Kubernetes token\<close>

definition maxTokenBytes :: nat where
  "maxTokenBytes = 16384"

definition maxTokenSession :: int where
  "maxTokenSession = 8 * 3600 * second"

text \<open>An error that wraps \<open>errTokenRefused\<close> or \<open>errClusterUnavailable\<close>, with its whole text.\<close>

datatype sign_in_error = TokenRefused string | ClusterUnavailable string

definition errTokenRefused :: string where
  "errTokenRefused = ''console: token refused''"

definition errClusterUnavailable :: string where
  "errClusterUnavailable = ''console: the API server could not validate the token''"

text \<open>The bytes a bearer token can hold are those above the space and below \<open>0x7f\<close>.\<close>

definition token_char :: "char \<Rightarrow> bool" where
  "token_char c \<longleftrightarrow> 32 < (of_char c :: nat) \<and> (of_char c :: nat) < 127"

definition normalizeToken :: "string \<Rightarrow> sign_in_error + string" where
  "normalizeToken raw =
     (let token = TrimSpace raw;
          token = (if length token > 7 \<and> ToLower (take 7 token) = ''bearer '' then TrimSpace (drop 7 token) else token)
      in if token = [] then Inl (TokenRefused (errTokenRefused @ '': empty''))
         else if length token > maxTokenBytes
         then Inl (TokenRefused (errTokenRefused @ '': larger than '' @ itoa (int maxTokenBytes) @ '' bytes''))
         else if \<not> list_all token_char token
         then Inl (TokenRefused (errTokenRefused @ '': holds a character a bearer token cannot''))
         else Inr token)"

text \<open>\<open>t.Unix()\<close>, and the conversion of a finite float to \<open>int64\<close>: truncation, and the smallest
  number for what lies below. Values above the cap never reach it.\<close>

definition unix :: "time \<Rightarrow> int" where
  "unix t = t div second - 62135596800"

definition int64_of_float :: "rat \<Rightarrow> int" where
  "int64_of_float x = (if x < - (2 ^ 63) then - (2 ^ 63) else if x < 0 then - \<lfloor>- x\<rfloor> else \<lfloor>x\<rfloor>)"

definition time_Unix :: "int \<Rightarrow> time" where
  "time_Unix s = (s + 62135596800) * second"

definition trim_padding :: "string \<Rightarrow> string" where
  "trim_padding s = rev (dropWhile (\<lambda>c. c = CHR ''='') (rev s))"

text \<open>The \<open>exp\<close> claim of a token that is a JWT with one that reads as a number.\<close>

definition token_exp :: "'p console_lib \<Rightarrow> string \<Rightarrow> rat option" where
  "token_exp C token =
     (case Split CHR ''.'' token of
        [_, claims, _] \<Rightarrow>
          (case b64_decode (trim_padding claims) of
             None \<Rightarrow> None
           | Some payload \<Rightarrow> (case cl_ExpClaim C payload of None \<Rightarrow> None | Some n \<Rightarrow> cl_Float64 C n))
      | _ \<Rightarrow> None)"

definition tokenExpiry :: "'p console_lib \<Rightarrow> string \<Rightarrow> time \<Rightarrow> sign_in_error + time" where
  "tokenExpiry C token now =
     (let limit = now + maxTokenSession in
      case token_exp C token of
        None \<Rightarrow> Inr limit
      | Some seconds \<Rightarrow>
          if seconds \<ge> of_int (unix limit) then Inr limit
          else
            (let exp = time_Unix (int64_of_float seconds) in
             if \<not> now < exp then Inl (TokenRefused (errTokenRefused @ '': expired at '' @ cl_FormatRFC3339 C exp))
             else if exp < limit then Inr exp
             else Inr limit))"

definition selfSubjectReview :: "'p console_lib \<Rightarrow> string \<Rightarrow> sign_in_error + reviewed_user" where
  "selfSubjectReview C token =
     (case cl_SelfSubjectReview C token of
        Inr user \<Rightarrow> Inr user
      | Inl err \<Rightarrow>
          if IsUnauthorized err \<or> IsForbidden err then Inl (TokenRefused (errTokenRefused @ '': the API server refused it''))
          else if IsNotFound err then Inl (ClusterUnavailable (errClusterUnavailable @ '': SelfSubjectReview is not served''))
          else Inl (ClusterUnavailable errClusterUnavailable))"

definition scrub :: "string \<Rightarrow> string \<Rightarrow> string" where
  "scrub msg token = redact_String (if token \<noteq> [] then ReplaceAll msg token Placeholder else msg)"

fun refuseToken :: "sign_in_error \<Rightarrow> web_reply" where
  "refuseToken (ClusterUnavailable _) = redirect 303 ''/login?error=cluster'' no_store []"
| "refuseToken (TokenRefused _) = redirect 303 ''/login?error=token'' no_store []"

definition names_token :: "reviewed_user \<Rightarrow> string \<Rightarrow> bool" where
  "names_token user token \<longleftrightarrow> Contains (ru_Username user) token \<or> list_ex (\<lambda>g. Contains g token) (ru_Groups user)"

definition SignInWithToken :: "'p console_lib \<Rightarrow> 'p auth \<Rightarrow> time \<Rightarrow> string option \<Rightarrow> console_request \<Rightarrow> web_reply" where
  "SignInWithToken C a now rnd r =
     (case cq_Form r of
        None \<Rightarrow> refuseToken (TokenRefused errTokenRefused)
      | Some form \<Rightarrow>
          if has_param (cq_Query r) ''token'' then refuseToken (TokenRefused errTokenRefused)
          else
            (case normalizeToken (get_param form ''token'') of
               Inl err \<Rightarrow> refuseToken err
             | Inr token \<Rightarrow>
                 (case tokenExpiry C token now of
                    Inl err \<Rightarrow> refuseToken err
                  | Inr expiry \<Rightarrow>
                      (case selfSubjectReview C token of
                         Inl err \<Rightarrow> refuseToken err
                       | Inr user \<Rightarrow>
                           if names_token user token then refuseToken (TokenRefused errTokenRefused)
                           else if checkTokenIdentity C (ru_Username user) (ru_Groups user) \<noteq> None
                           then refuseToken (TokenRefused errTokenRefused)
                           else
                             (case seal (cl_AEAD C) (cl_MarshalSession C) (au_key a) rnd
                                     (sessionFromIdentity \<lparr>id_Username = ru_Username user, id_Groups = ru_Groups user,
                                        id_Expiry = expiry, id_Method = MethodToken, id_Token = Secret token\<rparr>) of
                                None \<Rightarrow> refuseToken (ClusterUnavailable errClusterUnavailable)
                              | Some sealed \<Rightarrow>
                                  if length sealed > maxSessionCookie then refuseToken (TokenRefused errTokenRefused)
                                  else redirect 303 ''/apps'' no_store [cookie_of a SessionCookie sealed ''/'' expiry])))))"

subsection \<open>Identities and their rules\<close>

text \<open>Storing an identity in a session and reading it back is the identity, once its method is set, as
  every sign-in does.\<close>

interpretation session_fields: codec "\<lambda>i. id_Method i \<noteq> []" sessionFromIdentity "\<lambda>d. Some (session_identity d)"
proof
  fix i :: console_identity
  assume "id_Method i \<noteq> []"
  then show "Some (session_identity (sessionFromIdentity i)) = Some i"
    by (cases "id_Token i") (simp add: session_identity_def sessionFromIdentity_def)
qed

text \<open>Who may be impersonated, and whom a token session may speak for.\<close>

definition impersonable :: "console_identity \<Rightarrow> bool" where
  "impersonable i \<longleftrightarrow> id_Username i \<noteq> [] \<and> \<not> HasPrefix (id_Username i) systemPrefix
     \<and> list_all (\<lambda>g. \<not> HasPrefix g systemPrefix) (id_Groups i)"

definition token_user :: "string \<Rightarrow> string list \<Rightarrow> bool" where
  "token_user username groups \<longleftrightarrow> username \<noteq> [] \<and> username \<noteq> anonymousUser \<and> unauthenticatedGroup \<notin> set groups
     \<and> (HasPrefix username systemPrefix \<longrightarrow> HasPrefix username serviceAccountPrefix)"

lemma checkIdentity_None [simp]: "checkIdentity C i = None \<longleftrightarrow> impersonable i"
  by (auto simp: checkIdentity_def impersonable_def list_all_iff find_None_iff split: option.splits)
    (auto simp: find_Some_iff)

lemma checkTokenIdentity_None [simp]: "checkTokenIdentity C username groups = None \<longleftrightarrow> token_user username groups"
  by (auto simp: checkTokenIdentity_def token_user_def)

lemma check_None: "check C i = None \<longleftrightarrow>
  (if id_Method i = MethodToken then id_Token i \<noteq> Secret [] \<and> token_user (id_Username i) (id_Groups i)
   else (id_Method i = [] \<or> id_Method i = MethodOIDC) \<and> id_Token i = Secret [] \<and> impersonable i)"
  by (auto simp: check_def)

lemma method_names [simp]: "MethodToken \<noteq> MethodOIDC" "MethodOIDC \<noteq> MethodToken" "MethodToken \<noteq> []" "MethodOIDC \<noteq> []"
  by (simp_all add: MethodToken_def MethodOIDC_def)

lemma IdentityD:
  assumes "Identity C a now r = Some i"
  shows "\<exists>v d. map_of (cq_Cookies r) SessionCookie = Some v \<and> open_sealed (cl_AEAD C) (cl_UnmarshalSession C) (au_key a) v = Some d
    \<and> i = session_identity d" "now < id_Expiry i" "check C i = None"
  using assms by (auto simp: Identity_def readCookie_def Let_def split: option.splits if_splits)

lemma redirect_simps [simp]:
  "wr_Location (redirect code l hs cs) = l" "wr_Cookies (redirect code l hs cs) = cs" "wr_Code (redirect code l hs cs) = code"
  by (simp_all add: redirect_def)

lemma refusal_simps [simp]:
  "wr_Cookies (refuseToken e) = []" "wr_Cookies (auth_fail code reason message) = []" "wr_Cookies http_NotFound = []"
  by (cases e; simp add: redirect_def) (simp_all add: auth_fail_def http_NotFound_def)

subsection \<open>How long a token session lasts\<close>

lemma second_pos [simp]: "0 < second"
  by (simp add: second_def)

lemma unix_below: "time_Unix (unix t) \<le> t" "t < time_Unix (unix t) + second"
proof -
  have "t div second * second \<le> t" "t < t div second * second + second"
    by (simp_all add: second_def)
  then show "time_Unix (unix t) \<le> t" "t < time_Unix (unix t) + second"
    by (simp_all add: time_Unix_def unix_def)
qed

lemma int64_close:
  assumes "- (2 ^ 63) \<le> x"
  shows "of_int (int64_of_float x) < x + 1"
proof (cases "x < 0")
  case True
  then show ?thesis
    using assms floor_correct [of "- x"] by (simp add: int64_of_float_def)
next
  case False
  then show ?thesis
    using assms of_int_floor_le [of x] by (simp add: int64_of_float_def) linarith
qed

lemma int64_floor: "x < - (2 ^ 63) \<Longrightarrow> time_Unix (int64_of_float x) < 0"
  by (simp add: int64_of_float_def time_Unix_def second_def)

text \<open>A token session ends in the future and never more than eight hours away; and where the token is a
  JWT with an expiry, the session outlives that by less than a second.\<close>

theorem tokenExpiry_bounded:
  assumes "tokenExpiry C token now = Inr t" and "0 \<le> now"
  shows "now < t \<and> t \<le> now + maxTokenSession
    \<and> (\<forall>s. token_exp C token = Some s \<longrightarrow> of_int t < (s + 62135596801) * of_int second)"
proof -
  have limit: "now < now + maxTokenSession"
    by (simp add: maxTokenSession_def)
  have close: "of_int (time_Unix k) < (s + 62135596801) * of_int second" if "of_int k < s + 1" for k and s :: rat
  proof -
    have "of_int (k + 62135596800) < s + 62135596801" using that by simp
    then have "of_int (k + 62135596800) * of_int second < (s + 62135596801) * (of_int second :: rat)"
      by (rule mult_strict_right_mono) simp
    then show ?thesis by (simp add: time_Unix_def)
  qed
  show ?thesis
  proof (cases "token_exp C token")
    case None
    with assms limit show ?thesis by (simp add: tokenExpiry_def)
  next
    case (Some s)
    show ?thesis
    proof (cases "s \<ge> of_int (unix (now + maxTokenSession))")
      case True
      have "of_int (now + maxTokenSession) < (of_int (time_Unix (unix (now + maxTokenSession)) + second) :: rat)"
        using unix_below(2) [of "now + maxTokenSession"] by (simp only: of_int_less_iff)
      also have "\<dots> = (of_int (unix (now + maxTokenSession)) + 62135596801) * of_int second"
        by (simp add: time_Unix_def algebra_simps)
      also have "\<dots> \<le> (s + 62135596801) * of_int second"
        using True by (intro mult_right_mono) (simp_all add: second_def)
      finally show ?thesis
        using assms True Some limit by (simp add: tokenExpiry_def)
    next
      case False
      have t: "now < time_Unix (int64_of_float s)" "t \<le> time_Unix (int64_of_float s)" "now < t" "t \<le> now + maxTokenSession"
        using assms(1) False Some limit by (auto simp: tokenExpiry_def Let_def split: if_splits)
      then have "\<not> s < - (2 ^ 63)"
        using int64_floor [of s] assms(2) by linarith
      then have "of_int (time_Unix (int64_of_float s)) < (s + 62135596801) * (of_int second :: rat)"
        using int64_close [of s] by (intro close) simp
      moreover have "of_int t \<le> (of_int (time_Unix (int64_of_float s)) :: rat)" using t(2) by simp
      ultimately show ?thesis using t Some by simp
    qed
  qed
qed

subsection \<open>Sessions\<close>

text \<open>Every session the console serves was sealed by it: the request's cookie decodes to a nonce and
  exactly what AES-GCM under the console's key makes of it and a session; it has not expired; a token session has
  a token and speaks for an authenticated user that is no system identity but a ServiceAccount, and
  every other session carries no token and names a user and groups that are no system identities.\<close>

lemma session_authentic:
  assumes "gcm_laws (cl_AEAD C)" and "Identity C a now r = Some i"
  shows "(\<exists>v nonce plain d. map_of (cq_Cookies r) SessionCookie = Some v
      \<and> b64_decode v = Some (nonce @ gcm_Seal (cl_AEAD C) (au_key a) nonce plain)
      \<and> cl_UnmarshalSession C plain = Some d \<and> i = session_identity d)
    \<and> now < id_Expiry i
    \<and> (if IsToken i then Reveal (id_Token i) \<noteq> [] \<and> token_user (id_Username i) (id_Groups i)
       else Reveal (id_Token i) = [] \<and> impersonable i)"
proof (intro conjI)
  obtain v d where v: "map_of (cq_Cookies r) SessionCookie = Some v"
      "open_sealed (cl_AEAD C) (cl_UnmarshalSession C) (au_key a) v = Some d" "i = session_identity d"
    using IdentityD(1) [OF assms(2)] by blast
  with open_sealed_only [OF assms(1) v(2)]
  show "\<exists>v nonce plain d. map_of (cq_Cookies r) SessionCookie = Some v
      \<and> b64_decode v = Some (nonce @ gcm_Seal (cl_AEAD C) (au_key a) nonce plain)
      \<and> cl_UnmarshalSession C plain = Some d \<and> i = session_identity d"
    by blast
  show "now < id_Expiry i" by (rule IdentityD(2) [OF assms(2)])
  show "if IsToken i then Reveal (id_Token i) \<noteq> [] \<and> token_user (id_Username i) (id_Groups i)
        else Reveal (id_Token i) = [] \<and> impersonable i"
    using IdentityD(3) [OF assms(2)] by (cases "id_Token i") (auto simp: check_None IsToken_def split: if_splits)
qed

text \<open>\<open>utf8.ValidString\<close>: the well-formed byte sequences of Unicode, without surrogates and overlong forms.\<close>

definition byte_in :: "nat \<Rightarrow> nat \<Rightarrow> char \<Rightarrow> bool" where
  "byte_in lo hi c \<longleftrightarrow> lo \<le> of_char c \<and> of_char c \<le> hi"

definition second_lo :: "char \<Rightarrow> nat" where
  "second_lo b = (if of_char b = (224 :: nat) then 160 else if of_char b = (240 :: nat) then 144 else 128)"

definition second_hi :: "char \<Rightarrow> nat" where
  "second_hi b = (if of_char b = (237 :: nat) then 159 else if of_char b = (244 :: nat) then 143 else 191)"

definition continues :: "char \<Rightarrow> bool" where
  "continues c \<longleftrightarrow> byte_in 128 191 c"

fun valid_utf8 :: "string \<Rightarrow> bool" where
  "valid_utf8 [] = True"
| "valid_utf8 (b # s) =
     (if byte_in 0 127 b then valid_utf8 s
      else case s of
        [] \<Rightarrow> False
      | c # s \<Rightarrow>
          if byte_in 194 223 b then continues c \<and> valid_utf8 s
          else case s of
            [] \<Rightarrow> False
          | d # s \<Rightarrow>
              if byte_in 224 239 b then byte_in (second_lo b) (second_hi b) c \<and> continues d \<and> valid_utf8 s
              else case s of
                [] \<Rightarrow> False
              | e # s \<Rightarrow>
                  byte_in 240 244 b \<and> byte_in (second_lo b) (second_hi b) c \<and> continues d \<and> continues e \<and> valid_utf8 s)"

definition ascii :: "string \<Rightarrow> bool" where
  "ascii s = list_all (\<lambda>c. (of_char c :: nat) < 128) s"

lemma ascii_utf8: "ascii s \<Longrightarrow> valid_utf8 s"
  by (induction s) (auto simp: ascii_def byte_in_def)

lemma utf8_byte: "byte_in lo hi c \<Longrightarrow> hi \<le> 244 \<Longrightarrow> byte_in 0 244 c" "continues c \<Longrightarrow> byte_in 0 244 c" "second_hi b \<le> 244"
  by (simp_all add: byte_in_def continues_def second_hi_def)

lemma utf8_bytes: "valid_utf8 s \<Longrightarrow> list_all (byte_in 0 244) s"
proof (induction s rule: valid_utf8.induct)
  case (2 b s)
  show ?case
  proof (cases "byte_in 0 127 b")
    case True
    then show ?thesis using 2 utf8_byte(1) [of 0 127 b] by simp
  next
    case a: False
    then obtain c s1 where s: "s = c # s1" using "2.prems" by (cases s) auto
    show ?thesis
    proof (cases "byte_in 194 223 b")
      case True
      then show ?thesis using "2.IH"(2) [OF a s True] "2.prems" a s utf8_byte(1) [of 194 223 b] utf8_byte(2) by simp
    next
      case b: False
      then obtain d s2 where s1: "s1 = d # s2" using "2.prems" a s by (cases s1) auto
      show ?thesis
      proof (cases "byte_in 224 239 b")
        case True
        then show ?thesis
          using "2.IH"(3) [OF a s b s1 True] "2.prems" a b s s1 utf8_byte(1) [of 224 239 b] utf8_byte(1) [OF _ utf8_byte(3), of "second_lo b" b c]
            utf8_byte(2) by simp
      next
        case c: False
        then obtain e s3 where s2: "s2 = e # s3" using "2.prems" a b s s1 by (cases s2) auto
        then show ?thesis
          using "2.IH"(4) [OF a s b s1 c s2] "2.prems" a b c s s1 utf8_byte(1) [of 240 244 b]
            utf8_byte(1) [OF _ utf8_byte(3), of "second_lo b" b c] utf8_byte(2) by simp
      qed
    qed
  qed
qed simp

text \<open>What the JSON codec of a session promises: valid UTF-8 reads back as it was written. The API server's answer
  to a review is decoded from JSON too, so the names in it are valid UTF-8.\<close>

definition session_json_law :: "'p console_lib \<Rightarrow> bool" where
  "session_json_law C \<longleftrightarrow> (\<forall>d plain. valid_utf8 (sd_Username d) \<and> list_all valid_utf8 (sd_Groups d)
     \<and> valid_utf8 (sd_Method d) \<and> valid_utf8 (sd_Token d)
     \<and> cl_MarshalSession C d = Some plain \<longrightarrow> cl_UnmarshalSession C plain = Some d)"

definition review_json_law :: "'p console_lib \<Rightarrow> bool" where
  "review_json_law C \<longleftrightarrow> (\<forall>token user. cl_SelfSubjectReview C token = Inr user \<longrightarrow>
     valid_utf8 (ru_Username user) \<and> list_all valid_utf8 (ru_Groups user))"

lemma normalizeToken_Inr:
  assumes "normalizeToken raw = Inr token"
  shows "token \<noteq> []" "length token \<le> maxTokenBytes" "list_all token_char token"
  using assms by (auto simp: normalizeToken_def Let_def split: if_splits)

lemma token_char_ascii: "list_all token_char token \<Longrightarrow> ascii token"
  by (auto simp: ascii_def token_char_def list_all_iff)

lemma SignInWithToken_success:
  assumes "wr_Cookies (SignInWithToken C a now rnd r) = [c]"
  shows "\<exists>form token user expiry sealed. cq_Form r = Some form \<and> \<not> has_param (cq_Query r) ''token''
    \<and> normalizeToken (get_param form ''token'') = Inr token \<and> tokenExpiry C token now = Inr expiry
    \<and> selfSubjectReview C token = Inr user \<and> \<not> names_token user token \<and> token_user (ru_Username user) (ru_Groups user)
    \<and> seal (cl_AEAD C) (cl_MarshalSession C) (au_key a) rnd (sessionFromIdentity \<lparr>id_Username = ru_Username user,
        id_Groups = ru_Groups user, id_Expiry = expiry, id_Method = MethodToken, id_Token = Secret token\<rparr>) = Some sealed
    \<and> length sealed \<le> maxSessionCookie \<and> c = cookie_of a SessionCookie sealed ''/'' expiry"
  using assms
  by (auto simp: SignInWithToken_def split: option.splits sum.splits if_splits)

text \<open>C32. Signing in with a token works, and works only as itself: the one cookie a sign-in sets,
  presented later and before it expires, is a session of the user the API server named for exactly the posted token,
  holding that token; the token came in the body and not in the URL, has at most 16 KiB, and appears in
  neither the user's name nor a group; the cookie fits a browser's limit and is not readable by scripts. Relied on are
  authenticated encryption, a JSON codec that reads valid UTF-8 back as it was written, and that the API
  server's answer, itself JSON, names the user and groups in valid UTF-8.\<close>

theorem token_session_round_trip:
  assumes "gcm_laws (cl_AEAD C)" and "session_json_law C"
    and "review_json_law C"
    and "length nonce = NonceSize"
    and "wr_Cookies (SignInWithToken C a now (Some nonce) r) = [c]"
    and "map_of (cq_Cookies r') SessionCookie = Some (ck_Value c)" and "now' < ck_Expires c"
  shows "\<exists>form token user. cq_Form r = Some form \<and> \<not> has_param (cq_Query r) ''token''
    \<and> normalizeToken (get_param form ''token'') = Inr token \<and> length token \<le> maxTokenBytes
    \<and> cl_SelfSubjectReview C token = Inr user \<and> \<not> names_token user token
    \<and> Identity C a now' r' = Some \<lparr>id_Username = ru_Username user, id_Groups = ru_Groups user,
        id_Expiry = ck_Expires c, id_Method = MethodToken, id_Token = Secret token\<rparr>
    \<and> ck_Name c = SessionCookie \<and> ck_HttpOnly c \<and> length (ck_Value c) \<le> maxSessionCookie"
proof -
  obtain form token user expiry sealed where
    form: "cq_Form r = Some form" "\<not> has_param (cq_Query r) ''token''" "normalizeToken (get_param form ''token'') = Inr token"
    and user: "selfSubjectReview C token = Inr user" "\<not> names_token user token" "token_user (ru_Username user) (ru_Groups user)"
    and sealed: "seal (cl_AEAD C) (cl_MarshalSession C) (au_key a) (Some nonce) (sessionFromIdentity \<lparr>id_Username = ru_Username user,
        id_Groups = ru_Groups user, id_Expiry = expiry, id_Method = MethodToken, id_Token = Secret token\<rparr>) = Some sealed"
      "length sealed \<le> maxSessionCookie" "c = cookie_of a SessionCookie sealed ''/'' expiry"
    using SignInWithToken_success [OF assms(5)] by auto
  define i where "i = \<lparr>id_Username = ru_Username user, id_Groups = ru_Groups user, id_Expiry = expiry,
    id_Method = MethodToken, id_Token = Secret token\<rparr>"
  have review: "cl_SelfSubjectReview C token = Inr user"
    using user(1) by (auto simp: selfSubjectReview_def split: sum.splits if_splits)
  have token: "token \<noteq> []" "length token \<le> maxTokenBytes" "ascii token"
    using normalizeToken_Inr [OF form(3)] token_char_ascii by auto
  have texts: "valid_utf8 (ru_Username user) \<and> list_all valid_utf8 (ru_Groups user)"
    using assms(3) review unfolding review_json_law_def by blast
  have kind_ok: "valid_utf8 MethodToken" by (simp add: MethodToken_def byte_in_def)
  have read: "cl_UnmarshalSession C plain = Some (sessionFromIdentity i)" if "cl_MarshalSession C (sessionFromIdentity i) = Some plain" for plain
    using assms(2) that texts kind_ok ascii_utf8 [OF token(3)]
    by (auto simp: session_json_law_def sessionFromIdentity_def i_def)
  have opened: "open_sealed (cl_AEAD C) (cl_UnmarshalSession C) (au_key a) sealed = Some (sessionFromIdentity i)"
    by (rule open_seal [OF assms(1) sealed(1) [folded i_def] refl assms(4) read])
  have "session_identity (sessionFromIdentity i) = i"
    using session_fields.dec_enc [of i] by (simp add: i_def)
  moreover have "check C i = None"
    using user(3) token(1) by (simp add: check_None i_def)
  ultimately have "Identity C a now' r' = Some i"
    using opened assms(6,7) sealed(3) unfolding Identity_def readCookie_def Let_def
    by (simp add: cookie_of_def) (simp add: i_def)
  moreover have "ck_Name c = SessionCookie" "ck_HttpOnly c" "ck_Value c = sealed" "ck_Expires c = expiry"
    using sealed(3) by (simp_all add: cookie_of_def)
  ultimately show ?thesis
    using form token(2) review user(2) sealed(2) unfolding i_def
    by (intro exI [of _ form] exI [of _ token] exI [of _ user]) simp
qed

text \<open>C33. An OIDC session needs the whole proof: a sign-in that sets a session cookie had a sealed state
  cookie whose state is the one in the request, redeemed the code with that sign-in's own PKCE verifier,
  and got an ID token that verifies and carries that sign-in's nonce; the identity comes from that
  token's claims, expires with it, is impersonable, and its email is not marked unverified. The state
  cookie is cleared.\<close>

theorem oidc_session_proven:
  assumes "gcm_laws (cl_AEAD C)" and "c \<in> set (wr_Cookies (Callback C a rnd r))" and "ck_Name c = SessionCookie"
  shows "\<exists>p st v nonce plain raw tok claims i sealed. au_provider a = Some p
    \<and> map_of (cq_Cookies r) StateCookie = Some v \<and> b64_decode v = Some (nonce @ gcm_Seal (cl_AEAD C) (au_key a) nonce plain)
    \<and> cl_UnmarshalLogin C plain = Some st \<and> ls_State st \<noteq> [] \<and> get_param (cq_Query r) ''state'' = ls_State st
    \<and> cl_Exchange C p (get_param (cq_Query r) ''code'') (ls_Verifier st) = Inr (VStr raw)
    \<and> cl_Verify C p raw = Inr tok \<and> ls_Nonce st \<noteq> [] \<and> it_Nonce tok = ls_Nonce st
    \<and> it_Claims tok = Inr claims \<and> id_Username i = cc_UsernamePrefix (au_cfg a) @ as_str (mget claims (cc_UsernameClaim (au_cfg a)))
    \<and> impersonable i \<and> id_Expiry i = it_Expiry tok
    \<and> (cc_UsernameClaim (au_cfg a) = ''email'' \<longrightarrow> map_of claims ''email_verified'' \<in> {None, Some (VBool True)})
    \<and> seal (cl_AEAD C) (cl_MarshalSession C) (au_key a) rnd (sessionFromIdentity i) = Some sealed
    \<and> wr_Cookies (Callback C a rnd r) = [cookie_of a StateCookie [] ''/auth'' unix_epoch, cookie_of a SessionCookie sealed ''/'' (id_Expiry i)]"
proof -
  obtain p st where st: "au_provider a = Some p" "readCookie C (cl_UnmarshalLogin C) a r StateCookie = Some st"
      "ls_State st \<noteq> []" "ls_Nonce st \<noteq> []" "get_param (cq_Query r) ''state'' = ls_State st"
      "Callback C a rnd r = redeem C a rnd p st r"
    using assms(2) by (auto simp: Callback_def split: if_splits option.splits)
  obtain v where v: "map_of (cq_Cookies r) StateCookie = Some v"
      "open_sealed (cl_AEAD C) (cl_UnmarshalLogin C) (au_key a) v = Some st"
    using st(2) by (auto simp: readCookie_def split: option.splits)
  obtain extra tok i sealed where redeemed: "cl_Exchange C p (get_param (cq_Query r) ''code'') (ls_Verifier st) = Inr extra"
      "as_str extra \<noteq> []" "cl_Verify C p (as_str extra) = Inr tok" "it_Nonce tok = ls_Nonce st" "identityFromToken C a tok = Inr i"
      "seal (cl_AEAD C) (cl_MarshalSession C) (au_key a) rnd (sessionFromIdentity i) = Some sealed"
      "wr_Cookies (redeem C a rnd p st r) = [cookie_of a StateCookie [] ''/auth'' unix_epoch, cookie_of a SessionCookie sealed ''/'' (id_Expiry i)]"
    using assms(2) unfolding st(6) by (auto simp: redeem_def split: sum.splits option.splits if_splits prod.splits)
  obtain raw where raw: "extra = VStr raw" using redeemed(2) by (cases extra) auto
  obtain claims where claims: "it_Claims tok = Inr claims" "id_Expiry i = it_Expiry tok" "impersonable i"
      "id_Username i = cc_UsernamePrefix (au_cfg a) @ as_str (mget claims (cc_UsernameClaim (au_cfg a)))"
      "cc_UsernameClaim (au_cfg a) = ''email'' \<longrightarrow> map_of claims ''email_verified'' \<in> {None, Some (VBool True)}"
    using redeemed(5) unfolding identityFromToken_def Let_def by (cases "it_Claims tok") (auto split: if_splits option.splits)
  obtain nonce plain where sealed: "b64_decode v = Some (nonce @ gcm_Seal (cl_AEAD C) (au_key a) nonce plain)"
      "cl_UnmarshalLogin C plain = Some st"
    using open_sealed_only [OF assms(1) v(2)] by blast
  show ?thesis
    unfolding st(6) redeemed(7)
    by (intro exI [of _ p] exI [of _ st] exI [of _ v] exI [of _ nonce] exI [of _ plain] exI [of _ raw] exI [of _ tok]
      exI [of _ claims] exI [of _ i] exI [of _ sealed] conjI refl st v sealed redeemed claims redeemed(1) [unfolded raw]
      redeemed(3) [unfolded raw, simplified])
qed

subsection \<open>A concrete console\<close>

text \<open>A session codec for witnesses: the fields, separated by bytes that UTF-8 does not use.\<close>

definition field_sep :: char where
  "field_sep = CHR 0xFF"

definition item_sep :: char where
  "item_sep = CHR 0xFE"

definition line_of_session :: "session_data \<Rightarrow> string option" where
  "line_of_session d =
     (if 0 \<le> sd_Expiry d \<and> sd_Expiry d \<le> 2 ^ 63 - 1
      then Some (Join [field_sep] [sd_Username d, sd_Method d, sd_Token d, itoa (sd_Expiry d),
             concat (map (\<lambda>g. item_sep # g) (sd_Groups d))])
      else None)"

definition session_of_line :: "string \<Rightarrow> session_data option" where
  "session_of_line s =
     (case Split field_sep s of
        [u, m, t, e, g] \<Rightarrow>
          (case Atoi e of
             None \<Rightarrow> None
           | Some n \<Rightarrow> Some \<lparr>sd_Username = u, sd_Groups = tl (Split item_sep g), sd_Expiry = n, sd_Method = m, sd_Token = t\<rparr>)
      | _ \<Rightarrow> None)"

lemma utf8_no_sep: "valid_utf8 x \<Longrightarrow> field_sep \<notin> set x \<and> item_sep \<notin> set x"
  using utf8_bytes [of x] by (auto simp: byte_in_def field_sep_def item_sep_def list_all_iff)

lemma Split_items:
  "list_all valid_utf8 gs \<Longrightarrow> Split item_sep (concat (map (\<lambda>g. item_sep # g) gs)) = [] # gs"
proof (induction gs)
  case (Cons g gs)
  then have "item_sep \<notin> set g" using utf8_no_sep by simp
  with Cons show ?case
    using Split_append_all [of item_sep g] by (cases gs) (auto simp: Split_snoc)
qed simp

lemma digits_ascii: "ascii (digits_of n)"
  using digits_of_digits [of n] by (auto simp: ascii_def is_digit_def list_all_iff)

lemma line_round_trip:
  assumes "valid_utf8 (sd_Username d)" "list_all valid_utf8 (sd_Groups d)" "valid_utf8 (sd_Method d)" "valid_utf8 (sd_Token d)"
    and "line_of_session d = Some s"
  shows "session_of_line s = Some d"
proof -
  define ls where "ls = [sd_Username d, sd_Method d, sd_Token d, itoa (sd_Expiry d), concat (map (\<lambda>g. item_sep # g) (sd_Groups d))]"
  have b: "0 \<le> sd_Expiry d" "sd_Expiry d \<le> 2 ^ 63 - 1" and s: "s = Join [field_sep] ls"
    using assms(5) by (auto simp: line_of_session_def ls_def split: if_splits)
  have plain: "field_sep \<notin> set x" if "valid_utf8 x" for x
    using utf8_no_sep [OF that] by simp
  have "valid_utf8 (itoa (sd_Expiry d))"
    using b digits_ascii by (simp add: itoa_def ascii_utf8)
  moreover have "field_sep \<notin> set (concat (map (\<lambda>g. item_sep # g) (sd_Groups d)))"
    using assms(2) plain by (auto simp: list_all_iff item_sep_def field_sep_def)
  ultimately have "\<forall>l \<in> set ls. field_sep \<notin> set l"
    using assms plain by (auto simp: ls_def)
  then have "Split field_sep s = ls"
    unfolding s by (rule Split_Join_sep) (simp add: ls_def)
  moreover have "Atoi (itoa (sd_Expiry d)) = Some (sd_Expiry d)"
    using b by (intro Atoi_itoa) simp_all
  ultimately show ?thesis
    by (simp add: session_of_line_def ls_def Split_items [OF assms(2)])
qed

definition sample_user :: reviewed_user where
  "sample_user = \<lparr>ru_Username = ''alice'', ru_Groups = [''system:authenticated'']\<rparr>"

definition sample_login :: login_state where
  "sample_login = \<lparr>ls_State = ''s'', ls_Verifier = ''v'', ls_Nonce = ''n'', ls_Connector = []\<rparr>"

definition sample_id_token :: id_token where
  "sample_id_token = \<lparr>it_Nonce = ''n'', it_Expiry = 7200 * second, it_Claims = Inr [(''email'', VStr ''bob@example.com'')]\<rparr>"

definition sample_console :: "unit console_lib" where
  "sample_console = \<lparr>cl_AEAD = tag_aead, cl_MarshalSession = line_of_session, cl_UnmarshalSession = session_of_line,
     cl_MarshalLogin = (\<lambda>l. if l = sample_login then Some ''login'' else None),
     cl_UnmarshalLogin = (\<lambda>s. if s = ''login'' then Some sample_login else None),
     cl_ExpClaim = (\<lambda>s. Some s), cl_Float64 = (\<lambda>s. map_option of_int (Atoi s)), cl_Quote = (\<lambda>s. s), cl_FormatRFC3339 = itoa,
     cl_SplitHost = (\<lambda>s. None), cl_Hostname = (\<lambda>s. None), cl_ReadFile = (\<lambda>p. Inl ''no file''),
     cl_NewProvider = (\<lambda>c k s. Inr ()), cl_AuthCodeURL = (\<lambda>p s v n c. ''https://idp''),
     cl_Exchange = (\<lambda>p code v. if v = ''v'' then Inr (VStr ''jwt'') else Inl ''invalid_grant''),
     cl_Verify = (\<lambda>p raw. Inr sample_id_token),
     cl_SelfSubjectReview = (\<lambda>token. if token = ''abc'' then Inr sample_user else Inl (Unauthorized ''no''))\<rparr>"

definition sample_config :: console_config where
  "sample_config = \<lparr>cc_Listen = '':8080'', cc_IssuerURL = ''https://idp'', cc_ClientID = ''ksync'', cc_ClientSecretFile = [],
     cc_RedirectURL = ''https://console/auth/callback'', cc_UsernameClaim = ''email'', cc_GroupsClaim = ''groups'',
     cc_UsernamePrefix = [], cc_GroupsPrefix = [], cc_SessionKeyFile = [], cc_ClusterName = ''c'', cc_SSOName = [],
     cc_Connectors = [], cc_DocsURL = [], cc_StatusURL = [], cc_InsecureCookies = False\<rparr>"

definition sample_auth :: "unit auth" where
  "sample_auth = \<lparr>au_cfg = sample_config, au_key = replicate 32 CHR ''k'', au_clientSecret = [], au_provider = Some ()\<rparr>"

definition sample_nonce :: string where
  "sample_nonce = replicate 12 CHR ''r''"

definition sealed_line :: "string \<Rightarrow> string" where
  "sealed_line s = b64_encode (sample_nonce @ s @ au_key sample_auth)"

definition alice_line :: string where
  "alice_line = the (line_of_session \<lparr>sd_Username = ''alice'', sd_Groups = [''system:authenticated''], sd_Expiry = 1000 + maxTokenSession,
     sd_Method = MethodToken, sd_Token = ''abc''\<rparr>)"

definition post_token :: console_request where
  "post_token = \<lparr>cq_Path = ''/auth/token'', cq_Query = [], cq_Cookies = [], cq_Form = Some [(''token'', ''Bearer abc'')], cq_ns = [], cq_name = []\<rparr>"

definition with_cookie :: "string \<Rightarrow> string \<Rightarrow> (string \<times> string) list \<Rightarrow> console_request" where
  "with_cookie name v q = \<lparr>cq_Path = ''/'', cq_Query = q, cq_Cookies = [(name, v)], cq_Form = None, cq_ns = [], cq_name = []\<rparr>"

lemma sample_json_law: "session_json_law sample_console"
  by (auto simp: session_json_law_def sample_console_def intro: line_round_trip)

lemma sample_gcm: "gcm_laws (cl_AEAD sample_console)"
  by (simp add: sample_console_def tag_aead_laws)

lemma length_b64_encode: "length (b64_encode s) \<le> 2 * length s"
  by (induction s rule: b64_encode.induct) (simp_all add: Let_def)

lemma sample_normalize: "normalizeToken ''Bearer abc'' = Inr ''abc''"
  by code_simp

lemma sample_no_exp: "token_exp C ''abc'' = None"
  by (simp add: token_exp_def)

lemma alice_line_of: "line_of_session \<lparr>sd_Username = ''alice'', sd_Groups = [''system:authenticated''], sd_Expiry = 1000 + maxTokenSession,
     sd_Method = MethodToken, sd_Token = ''abc''\<rparr> = Some alice_line" "length alice_line \<le> 100"
proof -
  have "length (itoa (1000 + maxTokenSession)) \<le> 20"
    by (simp add: itoa_def maxTokenSession_def second_def digits_of.simps)
  then show "length alice_line \<le> 100"
    by (simp add: alice_line_def line_of_session_def maxTokenSession_def second_def MethodToken_def)
qed (simp add: alice_line_def line_of_session_def maxTokenSession_def second_def)

lemma sample_seal:
  "seal (cl_AEAD sample_console) (cl_MarshalSession sample_console) (au_key sample_auth) (Some sample_nonce) d
   = map_option sealed_line (line_of_session d)"
  by (simp add: seal_def newAEAD_def sample_console_def tag_aead_def sample_auth_def SessionKeySize_def sealed_line_def split: option.splits)

lemma sealed_line_short: "length s \<le> 100 \<Longrightarrow> length (sealed_line s) \<le> maxSessionCookie"
  using length_b64_encode [of "sample_nonce @ s @ au_key sample_auth"]
  by (simp add: sealed_line_def maxSessionCookie_def sample_nonce_def sample_auth_def)

lemma sample_sign_in: "SignInWithToken sample_console sample_auth 1000 (Some sample_nonce) post_token
  = redirect 303 ''/apps'' no_store [cookie_of sample_auth SessionCookie (sealed_line alice_line) ''/'' (1000 + maxTokenSession)]"
proof -
  have "selfSubjectReview sample_console ''abc'' = Inr sample_user"
    by (simp add: selfSubjectReview_def sample_console_def)
  moreover have "token_user (ru_Username sample_user) (ru_Groups sample_user)" "\<not> names_token sample_user ''abc''"
    by code_simp+
  ultimately show ?thesis
    using sealed_line_short [OF alice_line_of(2)] sample_normalize alice_line_of(1)
    by (simp add: SignInWithToken_def post_token_def has_param_def get_param_def get_str_def tokenExpiry_def sample_no_exp
      sample_seal sessionFromIdentity_def sample_user_def)
qed

lemma sample_open:
  "open_sealed (cl_AEAD sample_console) unmarshal (au_key sample_auth) (sealed_line s) = unmarshal s"
proof -
  have "HasSuffix (s @ au_key sample_auth) (au_key sample_auth)"
    by (simp add: HasSuffix_def HasPrefix_iff)
  then show ?thesis
    by (simp add: open_sealed_def newAEAD_def sample_console_def tag_aead_def sample_auth_def SessionKeySize_def NonceSize_def
      sealed_line_def b64_round_trip sample_nonce_def)
qed

definition alice :: console_identity where
  "alice = \<lparr>id_Username = ''alice'', id_Groups = [''system:authenticated''], id_Expiry = 1000 + maxTokenSession,
     id_Method = MethodToken, id_Token = Secret ''abc''\<rparr>"

lemma alice_signed_in: "Identity sample_console sample_auth 2000 (with_cookie SessionCookie (sealed_line alice_line) []) = Some alice"
proof -
  have "session_of_line alice_line = Some (sessionFromIdentity alice)"
    using alice_line_of(1)
    by (intro line_round_trip) (simp_all add: sessionFromIdentity_def alice_def byte_in_def MethodToken_def)
  moreover have "token_user ''alice'' [''system:authenticated'']"
    by code_simp
  ultimately show ?thesis
    by (simp add: Identity_def readCookie_def with_cookie_def sample_open, simp add: sample_console_def check_None
      session_identity_def sessionFromIdentity_def alice_def maxTokenSession_def second_def)
qed

theorem tokenExpiry_bounded_witness:
  "1000 < 1000 + maxTokenSession \<and> 1000 + maxTokenSession \<le> 1000 + maxTokenSession
    \<and> (\<forall>s. token_exp sample_console ''abc'' = Some s \<longrightarrow> of_int (1000 + maxTokenSession) < (s + 62135596801) * of_int second)"
proof (rule tokenExpiry_bounded)
  show "tokenExpiry sample_console ''abc'' 1000 = Inr (1000 + maxTokenSession)"
    by (simp add: tokenExpiry_def sample_no_exp)
qed simp

theorem token_session_round_trip_witness:
  "\<exists>form token user. cq_Form post_token = Some form \<and> \<not> has_param (cq_Query post_token) ''token''
    \<and> normalizeToken (get_param form ''token'') = Inr token \<and> length token \<le> maxTokenBytes
    \<and> cl_SelfSubjectReview sample_console token = Inr user \<and> \<not> names_token user token
    \<and> Identity sample_console sample_auth 2000 (with_cookie SessionCookie (sealed_line alice_line) []) = Some \<lparr>id_Username = ru_Username user,
        id_Groups = ru_Groups user, id_Expiry = 1000 + maxTokenSession, id_Method = MethodToken, id_Token = Secret token\<rparr>
    \<and> ck_Name (cookie_of sample_auth SessionCookie (sealed_line alice_line) ''/'' (1000 + maxTokenSession)) = SessionCookie
    \<and> ck_HttpOnly (cookie_of sample_auth SessionCookie (sealed_line alice_line) ''/'' (1000 + maxTokenSession))
    \<and> length (sealed_line alice_line) \<le> maxSessionCookie"
proof -
  define c where "c = cookie_of sample_auth SessionCookie (sealed_line alice_line) ''/'' (1000 + maxTokenSession)"
  have c: "ck_Value c = sealed_line alice_line" "ck_Expires c = 1000 + maxTokenSession"
    by (simp_all add: c_def cookie_of_def)
  have cookies: "wr_Cookies (SignInWithToken sample_console sample_auth 1000 (Some sample_nonce) post_token) = [c]"
    by (simp add: sample_sign_in c_def)
  have users: "review_json_law sample_console"
    by (auto simp: review_json_law_def sample_console_def sample_user_def byte_in_def split: if_splits)
  have nonce: "length sample_nonce = NonceSize"
    by (simp add: sample_nonce_def NonceSize_def)
  have sent: "map_of (cq_Cookies (with_cookie SessionCookie (sealed_line alice_line) [])) SessionCookie = Some (ck_Value c)"
    by (simp add: with_cookie_def c)
  have early: "2000 < ck_Expires c"
    by (simp add: c maxTokenSession_def second_def)
  show ?thesis
    using token_session_round_trip [OF sample_gcm sample_json_law users nonce cookies sent early]
    unfolding c unfolding c_def .
qed

text \<open>An \<open>exp\<close> in the same second as the eight-hour cap is taken for a later one: the session ends at
  the cap, up to a second after the token it holds.\<close>

lemma session_outlives_token:
  assumes "token_exp C token = Some (of_int (unix (now + maxTokenSession)))" and "(now + maxTokenSession) mod second \<noteq> 0"
  shows "\<exists>t. tokenExpiry C token now = Inr t \<and> time_Unix (unix (now + maxTokenSession)) < t"
proof -
  have "time_Unix (unix (now + maxTokenSession)) \<noteq> now + maxTokenSession"
    using assms(2) by (auto simp: time_Unix_def unix_def) (metis mod_mult_self2_is_0)
  then have "time_Unix (unix (now + maxTokenSession)) < now + maxTokenSession"
    using unix_below(1) [of "now + maxTokenSession"] by simp
  then show ?thesis
    by (simp add: tokenExpiry_def assms(1))
qed

text \<open>A sign-in through the identity provider.\<close>

definition callback_request :: console_request where
  "callback_request = with_cookie StateCookie (sealed_line ''login'') [(''state'', ''s''), (''code'', ''c'')]"

definition bob :: console_identity where
  "bob = \<lparr>id_Username = ''bob@example.com'', id_Groups = [], id_Expiry = 7200 * second, id_Method = MethodOIDC, id_Token = Secret []\<rparr>"

definition bob_line :: string where
  "bob_line = the (line_of_session (sessionFromIdentity bob))"

lemma bob_line_of: "line_of_session (sessionFromIdentity bob) = Some bob_line" "length bob_line \<le> 100"
proof -
  have "length (itoa (7200 * second)) \<le> 20"
    by (simp add: itoa_def second_def digits_of.simps)
  then show "length bob_line \<le> 100"
    by (simp add: bob_line_def line_of_session_def sessionFromIdentity_def bob_def second_def MethodOIDC_def)
qed (simp add: bob_line_def line_of_session_def sessionFromIdentity_def bob_def second_def)

lemma bob_identity: "identityFromToken sample_console sample_auth sample_id_token = Inr bob"
proof -
  have "impersonable bob" by code_simp
  then have "checkIdentity sample_console bob = None" by simp
  then show ?thesis
    by (simp add: identityFromToken_def sample_id_token_def sample_auth_def sample_config_def mget_def bob_def Let_def
      del: checkIdentity_None)
qed

lemma sample_callback: "wr_Cookies (Callback sample_console sample_auth (Some sample_nonce) callback_request)
  = [cookie_of sample_auth StateCookie [] ''/auth'' unix_epoch, cookie_of sample_auth SessionCookie (sealed_line bob_line) ''/'' (7200 * second)]"
proof -
  have st: "readCookie sample_console (cl_UnmarshalLogin sample_console) sample_auth callback_request StateCookie = Some sample_login"
    unfolding readCookie_def callback_request_def by (simp add: with_cookie_def sample_open) (simp add: sample_console_def)
  have "cl_Exchange sample_console () code ''v'' = Inr (VStr ''jwt'')" "cl_Verify sample_console () raw = Inr sample_id_token" for code raw
    by (simp_all add: sample_console_def)
  then have "wr_Cookies (redeem sample_console sample_auth (Some sample_nonce) () sample_login callback_request)
    = [cookie_of sample_auth StateCookie [] ''/auth'' unix_epoch, cookie_of sample_auth SessionCookie (sealed_line bob_line) ''/'' (7200 * second)]"
    using sealed_line_short [OF bob_line_of(2)] bob_identity bob_line_of(1)
    by (simp add: redeem_def sample_seal sample_login_def) (simp add: sample_id_token_def bob_def)
  moreover have "OIDCEnabled (au_cfg sample_auth)" "au_provider sample_auth = Some ()"
    by (simp_all add: sample_auth_def sample_config_def OIDCEnabled_def)
  ultimately show ?thesis
    by (simp add: Callback_def st) (simp add: callback_request_def with_cookie_def get_param_def get_str_def sample_login_def)
qed

theorem oidc_session_proven_witness:
  "\<exists>p st v nonce plain raw tok claims i sealed. au_provider sample_auth = Some p
    \<and> map_of (cq_Cookies callback_request) StateCookie = Some v
    \<and> b64_decode v = Some (nonce @ gcm_Seal (cl_AEAD sample_console) (au_key sample_auth) nonce plain)
    \<and> cl_UnmarshalLogin sample_console plain = Some st \<and> ls_State st \<noteq> [] \<and> get_param (cq_Query callback_request) ''state'' = ls_State st
    \<and> cl_Exchange sample_console p (get_param (cq_Query callback_request) ''code'') (ls_Verifier st) = Inr (VStr raw)
    \<and> cl_Verify sample_console p raw = Inr tok \<and> ls_Nonce st \<noteq> [] \<and> it_Nonce tok = ls_Nonce st
    \<and> it_Claims tok = Inr claims
    \<and> id_Username i = cc_UsernamePrefix (au_cfg sample_auth) @ as_str (mget claims (cc_UsernameClaim (au_cfg sample_auth)))
    \<and> impersonable i \<and> id_Expiry i = it_Expiry tok
    \<and> (cc_UsernameClaim (au_cfg sample_auth) = ''email'' \<longrightarrow> map_of claims ''email_verified'' \<in> {None, Some (VBool True)})
    \<and> seal (cl_AEAD sample_console) (cl_MarshalSession sample_console) (au_key sample_auth) (Some sample_nonce) (sessionFromIdentity i) = Some sealed
    \<and> wr_Cookies (Callback sample_console sample_auth (Some sample_nonce) callback_request)
      = [cookie_of sample_auth StateCookie [] ''/auth'' unix_epoch, cookie_of sample_auth SessionCookie sealed ''/'' (id_Expiry i)]"
proof (rule oidc_session_proven [OF sample_gcm])
  show "cookie_of sample_auth SessionCookie (sealed_line bob_line) ''/'' (7200 * second)
    \<in> set (wr_Cookies (Callback sample_console sample_auth (Some sample_nonce) callback_request))"
    by (simp add: sample_callback)
  show "ck_Name (cookie_of sample_auth SessionCookie (sealed_line bob_line) ''/'' (7200 * second)) = SessionCookie"
    by (simp add: cookie_of_def)
qed

end
