(* ===== verification/Console_Reads.thy ===== *)
theory Console_Reads
  imports Console_Auth "HOL-Library.AList"
begin

text \<open>
  How the console reads the cluster (\<open>internal/console\<close>: \<open>kube.go\<close>, \<open>readers.go\<close> and the review
  transport of \<open>token.go\<close>): the two kinds of client, the transports that every request passes last
  before it leaves the process, and the cache of clients.

  A transport is a function from the request to a refusal or the request it sends on. The rest of
  client-go (\<open>rest.AnonymousClientConfig\<close>, \<open>rest.DefaultServerUrlFor\<close>) is the record \<open>rest_lib\<close>. The cache
  is shared by concurrent requests; its two critical sections are the steps of \<open>cache_step\<close>, in any
  order, and \<open>cached\<close> is what every interleaving can reach.
\<close>

subsection \<open>Requests to the API server\<close>

record api_request =
  aq_Method :: string
  aq_Scheme :: string
  aq_Host :: string
  aq_Path :: string
  aq_Query :: "(string \<times> string) list"
  aq_Header :: "(string \<times> string list) list" \<comment> \<open>canonical names\<close>

definition header_Values :: "api_request \<Rightarrow> string \<Rightarrow> string list" where
  "header_Values r name = (case map_of (aq_Header r) name of None \<Rightarrow> [] | Some vs \<Rightarrow> vs)"

definition header_Get :: "api_request \<Rightarrow> string \<Rightarrow> string" where
  "header_Get r name = (case header_Values r name of [] \<Rightarrow> [] | v # _ \<Rightarrow> v)"

definition ErrWriteRefused :: string where
  "ErrWriteRefused = ''console: only GET requests are allowed''"
definition ErrForbiddenPath :: string where
  "ErrForbiddenPath = ''console: request path is not allowed''"
definition ErrNotImpersonated :: string where
  "ErrNotImpersonated = ''console: request is not impersonated''"
definition ErrNotTheSessionToken :: string where
  "ErrNotTheSessionToken = ''console: request does not carry exactly the session's token''"

subsection \<open>Paths\<close>

definition tail_forbidden :: "bool \<Rightarrow> string list \<Rightarrow> bool" where
  "tail_forbidden core tail =
     (case tail of
        [] \<Rightarrow> False
      | t # _ \<Rightarrow>
          if t = ''watch'' \<or> t = ''proxy'' then True
          else
            (let tail = (if t = ''namespaces'' \<and> length tail \<ge> 3 then drop 2 tail else tail) in
             if length tail > 2 then True else core \<and> hd tail = ''secrets''))"

definition forbiddenPath :: "string \<Rightarrow> bool" where
  "forbiddenPath path =
     (let segs = filter (\<lambda>seg. seg \<noteq> []) (Split CHR ''/'' path) in
      if list_ex (\<lambda>seg. seg = ''.'' \<or> seg = ''..'') segs then True
      else if segs \<noteq> [] \<and> hd segs = ''api'' then (if length segs = 1 then False else tail_forbidden True (drop 2 segs))
      else if segs \<noteq> [] \<and> hd segs = ''apis'' then (if length segs \<le> 3 then False else tail_forbidden False (drop 3 segs))
      else True)"

subsection \<open>Transports\<close>

record transport =
  tr_user :: string
  tr_token :: string
  tr_origin :: string

definition sameOrigin :: "api_request \<Rightarrow> string \<Rightarrow> bool" where
  "sameOrigin r origin \<longleftrightarrow> origin = [] \<or> aq_Scheme r @ ''://'' @ aq_Host r = origin"

definition roundTripToken :: "transport \<Rightarrow> api_request \<Rightarrow> api_error + api_request" where
  "roundTripToken t r =
     (if list_ex (\<lambda>(name, _). HasPrefix (ToLower name) ''impersonate-'') (aq_Header r)
      then Inl (Wrapped ErrNotTheSessionToken ErrNotTheSessionToken)
      else
        (let authorization = header_Values r ''Authorization'' in
         if length authorization \<noteq> 1 \<or> hd authorization \<noteq> ''Bearer '' @ tr_token t
         then Inl (Wrapped ErrNotTheSessionToken ErrNotTheSessionToken)
         else Inr r))"

definition RoundTrip :: "transport \<Rightarrow> api_request \<Rightarrow> api_error + api_request" where
  "RoundTrip t r =
     (if \<not> sameOrigin r (tr_origin t)
      then Inl (Wrapped ErrForbiddenPath (ErrForbiddenPath @ '': '' @ aq_Host r @ '' is not the API server''))
      else if aq_Method r \<noteq> ''GET''
      then Inl (Wrapped ErrWriteRefused (ErrWriteRefused @ '': '' @ aq_Method r @ '' '' @ aq_Path r))
      else if forbiddenPath (aq_Path r) \<or> has_param (aq_Query r) ''watch'' \<or> header_Get r ''Upgrade'' \<noteq> []
      then Inl (Wrapped ErrForbiddenPath (ErrForbiddenPath @ '': '' @ aq_Path r))
      else if tr_token t \<noteq> [] then roundTripToken t r
      else
        (let user = header_Get r ''Impersonate-User'' in
         if user = [] \<or> HasPrefix user systemPrefix \<or> (tr_user t \<noteq> [] \<and> user \<noteq> tr_user t)
         then Inl (Wrapped ErrNotImpersonated ErrNotImpersonated)
         else if list_ex (\<lambda>g. HasPrefix g systemPrefix) (header_Values r ''Impersonate-Group'')
         then Inl (Wrapped ErrNotImpersonated ErrNotImpersonated)
         else Inr r))"

definition reviewPath :: string where
  "reviewPath = ''/apis/authentication.k8s.io/v1/selfsubjectreviews''"

text \<open>\<open>reviewOnlyTransport\<close>, which sign-in uses.\<close>

definition review_RoundTrip :: "string \<Rightarrow> string \<Rightarrow> api_request \<Rightarrow> api_error + api_request" where
  "review_RoundTrip token origin r =
     (if \<not> sameOrigin r origin \<or> aq_Method r \<noteq> ''POST'' \<or> aq_Path r \<noteq> reviewPath \<or> header_Get r ''Upgrade'' \<noteq> []
      then Inl (Wrapped ErrForbiddenPath (ErrForbiddenPath @ '': '' @ aq_Method r @ '' '' @ aq_Path r))
      else roundTripToken \<lparr>tr_user = [], tr_token = token, tr_origin = []\<rparr> r)"

subsection \<open>Clients\<close>

record rest_config =
  rest_Host :: string
  rest_BearerToken :: string
  rest_CertData :: string
  rest_ImpersonateUser :: string
  rest_ImpersonateGroups :: "string list"
  rest_Timeout :: int

record rest_lib =
  rl_Anonymous :: "rest_config \<Rightarrow> rest_config" \<comment> \<open>\<open>rest.AnonymousClientConfig\<close>\<close>
  rl_ServerUrl :: "rest_config \<Rightarrow> string + string \<times> string" \<comment> \<open>scheme and host\<close>

definition apiOrigin :: "rest_lib \<Rightarrow> rest_config \<Rightarrow> string + string" where
  "apiOrigin L cfg = (case rl_ServerUrl L cfg of Inl err \<Rightarrow> Inl err | Inr (s, host) \<Rightarrow> Inr (s @ ''://'' @ host))"

definition userClientTimeout :: int where
  "userClientTimeout = 10 * second"

definition bounded_timeout :: "rest_config \<Rightarrow> rest_config" where
  "bounded_timeout cfg =
     (if rest_Timeout cfg = 0 \<or> rest_Timeout cfg > userClientTimeout then cfg\<lparr>rest_Timeout := userClientTimeout\<rparr> else cfg)"

definition tokenConfig :: "rest_lib \<Rightarrow> rest_config \<Rightarrow> string \<Rightarrow> rest_config" where
  "tokenConfig L base token = bounded_timeout ((rl_Anonymous L base)\<lparr>rest_BearerToken := token\<rparr>)"

text \<open>A client is its configuration and the transport all its requests pass; \<open>client.New\<close> is not modelled.\<close>

definition UserClient :: "'p console_lib \<Rightarrow> rest_lib \<Rightarrow> rest_config \<Rightarrow> console_identity \<Rightarrow> string + rest_config \<times> transport" where
  "UserClient C L base i =
     (if IsToken i \<or> id_Token i \<noteq> Secret [] then Inl ''console: a token session is never impersonated''
      else
        (case checkIdentity C i of
           Some err \<Rightarrow> Inl err
         | None \<Rightarrow>
             (let cfg = base\<lparr>rest_ImpersonateUser := id_Username i, rest_ImpersonateGroups := id_Groups i\<rparr> in
              case apiOrigin L cfg of
                Inl err \<Rightarrow> Inl err
              | Inr origin \<Rightarrow> Inr (bounded_timeout cfg, \<lparr>tr_user = id_Username i, tr_token = [], tr_origin = origin\<rparr>))))"

definition TokenClient :: "'p console_lib \<Rightarrow> rest_lib \<Rightarrow> rest_config \<Rightarrow> console_identity \<Rightarrow> string + rest_config \<times> transport" where
  "TokenClient C L base i =
     (if \<not> IsToken i \<or> id_Token i = Secret [] then Inl ''console: a token client needs a token session''
      else
        (case checkTokenIdentity C (id_Username i) (id_Groups i) of
           Some err \<Rightarrow> Inl err
         | None \<Rightarrow>
             (let token = Reveal (id_Token i); cfg = tokenConfig L base token in
              case apiOrigin L cfg of
                Inl err \<Rightarrow> Inl err
              | Inr origin \<Rightarrow> Inr (cfg, \<lparr>tr_user = [], tr_token = token, tr_origin = origin\<rparr>))))"

text \<open>The build function that \<open>NewServer\<close> gives the cache.\<close>

definition build_reader :: "'p console_lib \<Rightarrow> rest_lib \<Rightarrow> rest_config \<Rightarrow> console_identity \<Rightarrow> string + rest_config \<times> transport" where
  "build_reader C L base i = (if IsToken i then TokenClient C L base i else UserClient C L base i)"

subsection \<open>What may be read\<close>

text \<open>The requests the console is meant to make: discovery, and one resource, listed or read by name,
  in a namespace or not.\<close>

datatype console_read =
    Core_Versions
  | Core_Resources string
  | Api_Groups
  | Api_Group string
  | Group_Resources string string
  | Core_Read string "string option" string "string option"
  | Group_Read string string "string option" string "string option"

definition in_namespace :: "string option \<Rightarrow> string list" where
  "in_namespace ns = (case ns of None \<Rightarrow> [] | Some n \<Rightarrow> [''namespaces'', n])"

definition named :: "string option \<Rightarrow> string list" where
  "named name = (case name of None \<Rightarrow> [] | Some n \<Rightarrow> [n])"

fun read_segments :: "console_read \<Rightarrow> string list" where
  "read_segments Core_Versions = [''api'']"
| "read_segments (Core_Resources v) = [''api'', v]"
| "read_segments Api_Groups = [''apis'']"
| "read_segments (Api_Group g) = [''apis'', g]"
| "read_segments (Group_Resources g v) = [''apis'', g, v]"
| "read_segments (Core_Read v ns res name) = [''api'', v] @ in_namespace ns @ [res] @ named name"
| "read_segments (Group_Read g v ns res name) = [''apis'', g, v] @ in_namespace ns @ [res] @ named name"

text \<open>Which of them it is meant to refuse: Secrets, the legacy watch and proxy prefixes, and what looks like a list in a
  namespace but is a subresource of the Namespace itself.\<close>

definition namespace_subresources :: "string list" where
  "namespace_subresources = [''status'', ''finalize'']"

fun refused_read :: "console_read \<Rightarrow> bool" where
  "refused_read (Core_Read v ns res name) \<longleftrightarrow> res = ''secrets'' \<or> (ns = None \<and> res \<in> set [''watch'', ''proxy''])
     \<or> (ns \<noteq> None \<and> name = None \<and> res \<in> set namespace_subresources)"
| "refused_read (Group_Read g v ns res name) \<longleftrightarrow> ns = None \<and> res \<in> set [''watch'', ''proxy'']"
| "refused_read _ = False"

definition path_segments :: "string \<Rightarrow> string list" where
  "path_segments path = filter (\<lambda>seg. seg \<noteq> []) (Split CHR ''/'' path)"

text \<open>One resource below an API version, in a namespace or not, listed or by name.\<close>

definition resource_read :: "bool \<Rightarrow> string list \<Rightarrow> bool" where
  "resource_read core tail \<longleftrightarrow> (\<exists>ns res name. tail = in_namespace ns @ [res] @ named name
     \<and> \<not> (core \<and> res = ''secrets'') \<and> \<not> (ns = None \<and> res \<in> set [''watch'', ''proxy'']))"

lemma resource_readI:
  "tail = in_namespace ns @ [res] @ named name \<Longrightarrow> \<not> (core \<and> res = ''secrets'')
    \<Longrightarrow> \<not> (ns = None \<and> res \<in> set [''watch'', ''proxy'']) \<Longrightarrow> resource_read core tail"
  unfolding resource_read_def by blast

lemma named_short: "length below \<le> 1 \<Longrightarrow> \<exists>name. below = named name"
  by (cases below) (auto simp: named_def split: option.splits intro: exI [of _ None] exI [of _ "Some (hd below)"])

lemma tail_forbidden_iff:
  assumes "tail \<noteq> []"
  shows "\<not> tail_forbidden core tail \<longleftrightarrow> resource_read core tail"
proof
  assume allowed: "\<not> tail_forbidden core tail"
  obtain t ts where tail: "tail = t # ts" using assms by (cases tail) auto
  show "resource_read core tail"
  proof (cases "t = ''namespaces'' \<and> length tail \<ge> 3")
    case True
    then obtain n res below where ts: "ts = n # res # below"
      using tail by (auto simp: Suc_le_length_iff numeral_3_eq_3)
    with True allowed tail have below: "length below \<le> 1" "\<not> (core \<and> res = ''secrets'')"
      by (auto simp: tail_forbidden_def Let_def split: if_splits)
    then obtain name where "below = named name" using named_short by blast
    with below(2) tail ts True show ?thesis
      by (intro resource_readI [of _ "Some n" res name]) (simp_all add: in_namespace_def)
  next
    case False
    with allowed tail have short: "length ts \<le> 1" "\<not> (core \<and> t = ''secrets'')" "t \<notin> set [''watch'', ''proxy'']"
      by (auto simp: tail_forbidden_def Let_def split: if_splits)
    then obtain name where "ts = named name" using named_short by blast
    with short(2,3) tail show ?thesis
      by (intro resource_readI [of _ None t name]) (simp_all add: in_namespace_def)
  qed
next
  assume "resource_read core tail"
  then show "\<not> tail_forbidden core tail"
    by (auto simp: resource_read_def tail_forbidden_def in_namespace_def named_def Let_def split: option.splits)
qed

text \<open>The one kind of path the filter lets through beyond these reads: a subresource of a Namespace.\<close>

definition namespace_subresource :: "string list \<Rightarrow> bool" where
  "namespace_subresource segs \<longleftrightarrow> (\<exists>v ns sub. segs = [''api'', v, ''namespaces'', ns, sub] \<and> sub \<in> set namespace_subresources)"

text \<open>The segments of the allowed reads, by their beginning.\<close>

definition allowed_segments :: "string list \<Rightarrow> bool" where
  "allowed_segments segs \<longleftrightarrow> (\<exists>rd. segs = read_segments rd \<and> \<not> refused_read rd) \<or> namespace_subresource segs"

lemma allowed_core: "allowed_segments (''api'' # v # tail) \<longleftrightarrow> tail = [] \<or> resource_read True tail"
proof
  assume "allowed_segments (''api'' # v # tail)"
  then consider rd where "''api'' # v # tail = read_segments rd" "\<not> refused_read rd"
    | ns sub where "tail = in_namespace (Some ns) @ [sub] @ named None" "sub \<in> set namespace_subresources"
    by (auto simp: allowed_segments_def namespace_subresource_def in_namespace_def named_def)
  then show "tail = [] \<or> resource_read True tail"
  proof cases
    case (1 rd)
    then show ?thesis by (cases rd) (auto intro: resource_readI)
  next
    case (2 ns sub)
    then show ?thesis by (intro disjI2 resource_readI [OF 2(1)]) (auto simp: namespace_subresources_def)
  qed
next
  assume "tail = [] \<or> resource_read True tail"
  then show "allowed_segments (''api'' # v # tail)"
  proof
    assume "tail = []"
    then show ?thesis unfolding allowed_segments_def by (intro disjI1 exI [of _ "Core_Resources v"]) simp
  next
    assume "resource_read True tail"
    then obtain ns res name where tail: "tail = in_namespace ns @ [res] @ named name" "res \<noteq> ''secrets''"
        "\<not> (ns = None \<and> res \<in> set [''watch'', ''proxy''])"
      by (auto simp: resource_read_def)
    show ?thesis
    proof (cases "ns \<noteq> None \<and> name = None \<and> res \<in> set namespace_subresources")
      case True
      then show ?thesis
        using tail(1) by (auto simp: allowed_segments_def namespace_subresource_def in_namespace_def named_def)
    next
      case False
      then show ?thesis using tail unfolding allowed_segments_def by (intro disjI1 exI [of _ "Core_Read v ns res name"]) simp
    qed
  qed
qed

lemma allowed_group: "allowed_segments (''apis'' # g # v # tail) \<longleftrightarrow> tail = [] \<or> resource_read False tail"
proof
  assume "allowed_segments (''apis'' # g # v # tail)"
  then obtain rd where "''apis'' # g # v # tail = read_segments rd" "\<not> refused_read rd"
    by (auto simp: allowed_segments_def namespace_subresource_def)
  then show "tail = [] \<or> resource_read False tail"
    by (cases rd) (auto intro: resource_readI)
next
  assume "tail = [] \<or> resource_read False tail"
  then show "allowed_segments (''apis'' # g # v # tail)"
  proof
    assume "tail = []"
    then show ?thesis unfolding allowed_segments_def by (intro disjI1 exI [of _ "Group_Resources g v"]) simp
  next
    assume "resource_read False tail"
    then obtain ns res name where "tail = in_namespace ns @ [res] @ named name"
        "\<not> (ns = None \<and> res \<in> set [''watch'', ''proxy''])"
      by (auto simp: resource_read_def)
    then show ?thesis unfolding allowed_segments_def by (intro disjI1 exI [of _ "Group_Read g v ns res name"]) simp
  qed
qed

lemma allowed_roots: "allowed_segments [''api'']" "allowed_segments [''apis'']" "allowed_segments [''apis'', g]"
  unfolding allowed_segments_def
  by (intro disjI1 exI [of _ Core_Versions], simp)
    (intro disjI1 exI [of _ Api_Groups], simp, intro disjI1 exI [of _ "Api_Group g"], simp)

lemma allowed_begins: "allowed_segments segs \<Longrightarrow> segs \<noteq> [] \<and> hd segs \<in> {''api'', ''apis''}"
proof -
  have "read_segments rd \<noteq> [] \<and> hd (read_segments rd) \<in> {''api'', ''apis''}" for rd by (cases rd) auto
  then show "allowed_segments segs \<Longrightarrow> segs \<noteq> [] \<and> hd segs \<in> {''api'', ''apis''}"
    by (auto simp: allowed_segments_def namespace_subresource_def)
qed

lemma allowed_iff:
  "allowed_segments segs \<longleftrightarrow>
     (segs \<noteq> [] \<and> hd segs = ''api'' \<and> (length segs = 1 \<or> \<not> tail_forbidden True (drop 2 segs)))
     \<or> (segs \<noteq> [] \<and> hd segs = ''apis'' \<and> (length segs \<le> 3 \<or> \<not> tail_forbidden False (drop 3 segs)))"
proof (cases "segs \<noteq> [] \<and> hd segs \<in> {''api'', ''apis''}")
  case False
  then show ?thesis using allowed_begins [of segs] by auto
next
  case True
  then obtain x xs where segs: "segs = x # xs" "x = ''api'' \<or> x = ''apis''" by (cases segs) auto
  have read: "tail = [] \<or> resource_read core tail \<longleftrightarrow> \<not> tail_forbidden core tail" for core tail
    using tail_forbidden_iff by (cases tail) (simp_all add: tail_forbidden_def [of _ "[]"])
  from segs(2) show ?thesis
  proof
    assume "x = ''api''"
    then show ?thesis using segs(1) by (cases xs) (simp_all add: allowed_core allowed_roots read)
  next
    assume x: "x = ''apis''"
    show ?thesis
    proof (cases "length xs < 2")
      case True
      then consider "xs = []" | g where "xs = [g]" by (cases xs) auto
      then show ?thesis by cases (simp_all add: segs(1) x allowed_roots)
    next
      case False
      then obtain g v tail where "xs = g # v # tail" by (cases xs; cases "tl xs") auto
      then show ?thesis by (simp add: segs(1) x allowed_group read) (auto simp: tail_forbidden_def)
    qed
  qed
qed

text \<open>C35. The path filter lets through exactly the reads the console is meant to make, and one kind of path beyond
  them. Meant are discovery, and lists and gets of one resource, without dot segments, whose resource is not the core Secrets,
  not a legacy watch or proxy prefix and no subresource; empty segments do not matter. Beyond them, and against the
  comment of \<open>forbiddenPath\<close>, it lets through the subresources of a Namespace itself, \<open>status\<close> and
  \<open>finalize\<close>, which have the shape of a list in that namespace.\<close>

theorem forbiddenPath_exact:
  "\<not> forbiddenPath path \<longleftrightarrow> ''.'' \<notin> set (path_segments path) \<and> ''..'' \<notin> set (path_segments path)
     \<and> ((\<exists>rd. path_segments path = read_segments rd \<and> \<not> refused_read rd) \<or> namespace_subresource (path_segments path))"
proof -
  have "list_ex (\<lambda>seg. seg = ''.'' \<or> seg = ''..'') segs \<longleftrightarrow> ''.'' \<in> set segs \<or> ''..'' \<in> set segs" for segs
    by (auto simp: list_ex_iff)
  then show ?thesis
    unfolding forbiddenPath_def Let_def path_segments_def [symmetric] allowed_segments_def [symmetric] allowed_iff
    by auto
qed

text \<open>Subresources of a namespace itself pass for a resource in it, such as its status.\<close>

lemma namespace_status_readable: "\<not> forbiddenPath ''/api/v1/namespaces/shop/status''"
  by code_simp

lemma RoundTrip_sent:
  assumes "RoundTrip t r = Inr sent"
  shows "sent = r" "sameOrigin r (tr_origin t)" "aq_Method r = ''GET''" "\<not> forbiddenPath (aq_Path r)"
    "\<not> has_param (aq_Query r) ''watch''" "header_Get r ''Upgrade'' = []"
    "tr_token t \<noteq> [] \<Longrightarrow> header_Values r ''Authorization'' = [''Bearer '' @ tr_token t]
       \<and> list_all (\<lambda>(name, _). \<not> HasPrefix (ToLower name) ''impersonate-'') (aq_Header r)"
    "tr_token t = [] \<Longrightarrow> header_Get r ''Impersonate-User'' \<noteq> [] \<and> (tr_user t \<noteq> [] \<longrightarrow> header_Get r ''Impersonate-User'' = tr_user t)
       \<and> list_all (\<lambda>g. \<not> HasPrefix g systemPrefix) (header_Get r ''Impersonate-User'' # header_Values r ''Impersonate-Group'')"
proof -
  have tokens: "r' = r \<and> header_Values r ''Authorization'' = [''Bearer '' @ tr_token t]
      \<and> list_all (\<lambda>(name, _). \<not> HasPrefix (ToLower name) ''impersonate-'') (aq_Header r)" if "roundTripToken t r = Inr r'" for r'
    using that by (cases "header_Values r ''Authorization''")
      (auto simp: roundTripToken_def Let_def list_ex_iff list_all_iff split: if_splits)
  have sent: "if tr_token t \<noteq> [] then roundTripToken t r = Inr sent
      else sent = r \<and> header_Get r ''Impersonate-User'' \<noteq> [] \<and> (tr_user t \<noteq> [] \<longrightarrow> header_Get r ''Impersonate-User'' = tr_user t)
        \<and> list_all (\<lambda>g. \<not> HasPrefix g systemPrefix) (header_Get r ''Impersonate-User'' # header_Values r ''Impersonate-Group'')"
    using assms by (auto simp: RoundTrip_def Let_def list_ex_iff list_all_iff split: if_splits)
  show "sameOrigin r (tr_origin t)" "aq_Method r = ''GET''" "\<not> forbiddenPath (aq_Path r)" "\<not> has_param (aq_Query r) ''watch''"
      "header_Get r ''Upgrade'' = []"
    using assms by (auto simp: RoundTrip_def split: if_splits)
  show "sent = r" using sent tokens by (auto split: if_splits)
  show "tr_token t \<noteq> [] \<Longrightarrow> header_Values r ''Authorization'' = [''Bearer '' @ tr_token t]
       \<and> list_all (\<lambda>(name, _). \<not> HasPrefix (ToLower name) ''impersonate-'') (aq_Header r)"
    using sent tokens by simp
  show "tr_token t = [] \<Longrightarrow> header_Get r ''Impersonate-User'' \<noteq> [] \<and> (tr_user t \<noteq> [] \<longrightarrow> header_Get r ''Impersonate-User'' = tr_user t)
       \<and> list_all (\<lambda>g. \<not> HasPrefix g systemPrefix) (header_Get r ''Impersonate-User'' # header_Values r ''Impersonate-Group'')"
    using sent by simp
qed

lemma build_reader_transport:
  assumes "build_reader C L base i = Inr (cfg, t)"
  shows "tr_origin t \<noteq> []"
    and "IsToken i \<Longrightarrow> tr_token t = Reveal (id_Token i) \<and> tr_token t \<noteq> [] \<and> cfg = tokenConfig L base (Reveal (id_Token i))"
    and "\<not> IsToken i \<Longrightarrow> tr_token t = [] \<and> tr_user t = id_Username i \<and> impersonable i"
proof -
  have origin: "apiOrigin L cfg' = Inr origin \<Longrightarrow> origin \<noteq> []" for cfg' origin
    by (auto simp: apiOrigin_def split: sum.splits prod.splits)
  show "tr_origin t \<noteq> []"
    using assms origin by (auto simp: build_reader_def UserClient_def TokenClient_def Let_def split: if_splits option.splits sum.splits)
  show "IsToken i \<Longrightarrow> tr_token t = Reveal (id_Token i) \<and> tr_token t \<noteq> [] \<and> cfg = tokenConfig L base (Reveal (id_Token i))"
    using assms by (cases "id_Token i") (auto simp: build_reader_def TokenClient_def Let_def split: if_splits option.splits sum.splits)
  show "\<not> IsToken i \<Longrightarrow> tr_token t = [] \<and> tr_user t = id_Username i \<and> impersonable i"
    using assms by (auto simp: build_reader_def UserClient_def Let_def split: if_splits option.splits sum.splits)
qed

text \<open>C31. Every request that a session's cluster client sends is a read made as its user: it is sent unchanged, is a
  GET to the API server's own origin of a path the console is meant to read (or of a subresource of a Namespace, which the
  path filter lets through with them), watches nothing and
  upgrades nothing; for a token session it carries exactly that session's token and impersonates no one, under a
  configuration without any credential of the console; for any other session it impersonates exactly that
  session's user, and neither the user nor a group is a system identity. The clients are those \<open>build_reader\<close> makes for the
  handlers that read the cluster. The reviews that the console posts itself, of a token at sign-in and of its own
  permissions at the start, do not go through them.\<close>

theorem reads_as_the_user:
  assumes "build_reader C L base i = Inr (cfg, t)" and "RoundTrip t r = Inr sent"
  shows "sent = r \<and> aq_Method r = ''GET'' \<and> aq_Scheme r @ ''://'' @ aq_Host r = tr_origin t
    \<and> ((\<exists>rd. path_segments (aq_Path r) = read_segments rd \<and> \<not> refused_read rd) \<or> namespace_subresource (path_segments (aq_Path r)))
    \<and> \<not> has_param (aq_Query r) ''watch'' \<and> header_Get r ''Upgrade'' = []
    \<and> (if IsToken i
       then header_Values r ''Authorization'' = [''Bearer '' @ Reveal (id_Token i)]
         \<and> list_all (\<lambda>(name, _). \<not> HasPrefix (ToLower name) ''impersonate-'') (aq_Header r)
         \<and> cfg = bounded_timeout ((rl_Anonymous L base)\<lparr>rest_BearerToken := Reveal (id_Token i)\<rparr>)
       else header_Get r ''Impersonate-User'' = id_Username i
         \<and> list_all (\<lambda>g. \<not> HasPrefix g systemPrefix) (id_Username i # header_Values r ''Impersonate-Group''))"
proof -
  note sent = RoundTrip_sent [OF assms(2)]
  note built = build_reader_transport [OF assms(1)]
  have "(\<exists>rd. path_segments (aq_Path r) = read_segments rd \<and> \<not> refused_read rd) \<or> namespace_subresource (path_segments (aq_Path r))"
    using sent(4) allowed_iff [of "path_segments (aq_Path r)"]
    by (auto simp: forbiddenPath_def path_segments_def allowed_segments_def Let_def split: if_splits)
  moreover have "aq_Scheme r @ ''://'' @ aq_Host r = tr_origin t"
    using sent(2) built(1) by (simp add: sameOrigin_def)
  moreover have "header_Values r ''Authorization'' = [''Bearer '' @ Reveal (id_Token i)]
         \<and> list_all (\<lambda>(name, _). \<not> HasPrefix (ToLower name) ''impersonate-'') (aq_Header r)
         \<and> cfg = bounded_timeout ((rl_Anonymous L base)\<lparr>rest_BearerToken := Reveal (id_Token i)\<rparr>)" if "IsToken i"
    using built(2) [OF that] sent(7) unfolding tokenConfig_def by metis
  moreover have "header_Get r ''Impersonate-User'' = id_Username i
         \<and> list_all (\<lambda>g. \<not> HasPrefix g systemPrefix) (id_Username i # header_Values r ''Impersonate-Group'')" if "\<not> IsToken i"
    using sent(8) built(3) [OF that] by (auto simp: impersonable_def)
  ultimately show ?thesis using sent by simp
qed

subsection \<open>The cache of clients\<close>

definition readerTTL :: int where
  "readerTTL = 300 * second"

definition maxReaders :: nat where
  "maxReaders = 1000"

record reader_key =
  rk_Method :: string
  rk_Username :: string
  rk_Groups :: "string list"
  rk_Token :: string

text \<open>SHA-256 in hexadecimal and the JSON text of a key.\<close>

record key_lib =
  kl_Sha256Hex :: "string \<Rightarrow> string"
  kl_Marshal :: "reader_key \<Rightarrow> string"

definition readerKey :: "key_lib \<Rightarrow> console_identity \<Rightarrow> string" where
  "readerKey K i =
     (let k = \<lparr>rk_Method = MethodOIDC, rk_Username = id_Username i, rk_Groups = sort (id_Groups i), rk_Token = []\<rparr>;
          k = (if IsToken i then k\<lparr>rk_Method := MethodToken, rk_Token := kl_Sha256Hex K (Reveal (id_Token i))\<rparr> else k)
      in kl_Marshal K k)"

record 'r reader_entry =
  re_reader :: 'r
  re_expires :: time
  re_seq :: "64 word"

text \<open>A build in flight is kept with the identity it is for and the clock it was started at, both
  variables of the request that builds; \<open>ca_waiting\<close> are the requests blocked on its channel.\<close>

record 'r reader_cache =
  ca_seq :: "64 word"
  ca_entries :: "(string \<times> 'r reader_entry) list"
  ca_inflight :: "(string \<times> console_identity \<times> time) list"
  ca_waiting :: "(string \<times> console_identity) list"

definition newReaderCache :: "'r reader_cache" where
  "newReaderCache = \<lparr>ca_seq = 0, ca_entries = [], ca_inflight = [], ca_waiting = []\<rparr>"

definition evict :: "time \<Rightarrow> (string \<times> 'r reader_entry) list \<Rightarrow> (string \<times> 'r reader_entry) list" where
  "evict now entries =
     (let kept = filter (\<lambda>(k, e). now < re_expires e) entries;
          oldest = fst (foldl (\<lambda>(oldest, oldestSeq) (k, e). if oldest = [] \<or> re_seq e < oldestSeq then (k, re_seq e) else (oldest, oldestSeq))
                          ([], 0) kept)
      in if length kept \<ge> maxReaders then AList.delete oldest kept else kept)"

datatype 'r lookup = Hit 'r | Wait | Build

text \<open>The first critical section of \<open>get\<close>: a reader that is still fresh, a build to wait for, or a build to start.\<close>

definition get_lookup :: "key_lib \<Rightarrow> console_identity \<Rightarrow> time \<Rightarrow> 'r reader_cache \<Rightarrow> 'r reader_cache \<times> 'r lookup" where
  "get_lookup K i now c =
     (let key = readerKey K i in
      case map_of (ca_entries c) key of
        Some e \<Rightarrow>
          if now < re_expires e then (c, Hit (re_reader e))
          else if key \<in> set (map fst (ca_inflight c)) then (c\<lparr>ca_waiting := (key, i) # ca_waiting c\<rparr>, Wait)
          else (c\<lparr>ca_inflight := (key, i, now) # ca_inflight c\<rparr>, Build)
      | None \<Rightarrow>
          if key \<in> set (map fst (ca_inflight c)) then (c\<lparr>ca_waiting := (key, i) # ca_waiting c\<rparr>, Wait)
          else (c\<lparr>ca_inflight := (key, i, now) # ca_inflight c\<rparr>, Build))"

text \<open>The second one, after the build, with the clock of the first.\<close>

definition reader_expiry :: "console_identity \<Rightarrow> time \<Rightarrow> time" where
  "reader_expiry i now = (if id_Expiry i < now + readerTTL then id_Expiry i else now + readerTTL)"

definition make_room :: "string \<Rightarrow> time \<Rightarrow> (string \<times> 'r reader_entry) list \<Rightarrow> (string \<times> 'r reader_entry) list" where
  "make_room key now entries =
     (if key \<notin> set (map fst entries) \<and> length entries \<ge> maxReaders then evict now entries else entries)"

definition get_store :: "string \<Rightarrow> console_identity \<Rightarrow> time \<Rightarrow> string + 'r \<Rightarrow> 'r reader_cache \<Rightarrow> 'r reader_cache" where
  "get_store key i now result c =
     (let c = c\<lparr>ca_inflight := AList.delete key (ca_inflight c)\<rparr> in
      case result of
        Inl err \<Rightarrow> c
      | Inr reader \<Rightarrow>
          if now < reader_expiry i now
          then c\<lparr>ca_seq := ca_seq c + 1,
                 ca_entries := AList.update key \<lparr>re_reader = reader, re_expires = reader_expiry i now, re_seq = ca_seq c + 1\<rparr>
                   (make_room key now (ca_entries c))\<rparr>
          else c)"

text \<open>The requests that share the cache, with the answers \<open>get\<close> gave: a hit answers at once; the end of
  a build answers the request that built and everyone who waits for it. The identities are those with ASCII
  names, whose JSON text is faithful.\<close>

definition plain_identity :: "console_identity \<Rightarrow> bool" where
  "plain_identity i \<longleftrightarrow> ascii (id_Username i) \<and> list_all ascii (id_Groups i)"

inductive cache_step :: "key_lib \<Rightarrow> (console_identity \<Rightarrow> string + 'r) \<Rightarrow> 'r reader_cache \<times> (console_identity \<times> (string + 'r)) list
    \<Rightarrow> 'r reader_cache \<times> (console_identity \<times> (string + 'r)) list \<Rightarrow> bool" for K build where
  hit: "plain_identity i \<Longrightarrow> get_lookup K i now c = (c', Hit reader) \<Longrightarrow> cache_step K build (c, answers) (c', (i, Inr reader) # answers)"
| wait: "plain_identity i \<Longrightarrow> get_lookup K i now c = (c', Wait) \<Longrightarrow> cache_step K build (c, answers) (c', answers)"
| start: "plain_identity i \<Longrightarrow> get_lookup K i now c = (c', Build) \<Longrightarrow> cache_step K build (c, answers) (c', answers)"
| finish: "(key, i, now) \<in> set (ca_inflight c) \<Longrightarrow> c' = get_store key i now (build i) c
    \<Longrightarrow> woken = filter (\<lambda>(k, _). k = key) (ca_waiting c)
    \<Longrightarrow> cache_step K build (c, answers)
          (c'\<lparr>ca_waiting := filter (\<lambda>(k, _). k \<noteq> key) (ca_waiting c)\<rparr>, (i, build i) # map (\<lambda>(_, j). (j, build i)) woken @ answers)"

inductive cached :: "key_lib \<Rightarrow> (console_identity \<Rightarrow> string + 'r) \<Rightarrow> 'r reader_cache \<times> (console_identity \<times> (string + 'r)) list \<Rightarrow> bool" for K build where
  init: "cached K build (newReaderCache, [])"
| step: "cached K build s \<Longrightarrow> cache_step K build s s' \<Longrightarrow> cached K build s'"

inductive_cases cache_stepE: "cache_step K build s s'"

subsection \<open>Invariants of the cache\<close>

lemma length_delete_lt:
  assumes "k \<in> set (map fst xs)"
  shows "length (AList.delete k xs) < length xs"
proof -
  obtain v where "(k, v) \<in> set xs" using assms by auto
  then have "length (filter (\<lambda>(k', _). k \<noteq> k') xs) < length xs"
    by (intro length_filter_less [of "(k, v)"]) auto
  then show ?thesis by (simp add: AList.delete_eq)
qed

lemma oldest_is_kept:
  "kept \<noteq> [] \<Longrightarrow> fst (foldl (\<lambda>(oldest, oldestSeq) (k, e). if oldest = [] \<or> re_seq e < oldestSeq then (k, re_seq e) else (oldest, oldestSeq))
     ([], 0) kept) \<in> set (map fst kept)"
proof (induction kept rule: rev_induct)
  case (snoc x kept)
  then show ?case
    by (cases "foldl (\<lambda>(oldest, oldestSeq) (k, e). if oldest = [] \<or> re_seq e < oldestSeq then (k, re_seq e)
      else (oldest, oldestSeq)) ([], 0) kept"; cases "kept = []"; cases x) auto
qed simp

lemma evict_facts:
  assumes "length entries \<le> maxReaders" "distinct (map fst entries)"
  shows "length (evict now entries) < maxReaders" "set (evict now entries) \<subseteq> set entries" "distinct (map fst (evict now entries))"
proof -
  define kept where "kept = filter (\<lambda>(k, e). now < re_expires e) entries"
  define oldest where "oldest = fst (foldl (\<lambda>(oldest, oldestSeq) (k, e). if oldest = [] \<or> re_seq e < oldestSeq then (k, re_seq e)
    else (oldest, oldestSeq)) ([], 0 :: 64 word) kept)"
  have evict: "evict now entries = (if length kept \<ge> maxReaders then AList.delete oldest kept else kept)"
    by (simp add: evict_def kept_def oldest_def Let_def)
  have kept: "length kept \<le> maxReaders" "set kept \<subseteq> set entries" "distinct (map fst kept)"
    using assms le_trans [OF length_filter_le [of "\<lambda>(k, e). now < re_expires e" entries]]
    by (auto simp: kept_def distinct_map_filter)
  have "oldest \<in> set (map fst kept)" if "length kept \<ge> maxReaders"
    unfolding oldest_def using that by (intro oldest_is_kept) (auto simp: maxReaders_def)
  with kept show "length (evict now entries) < maxReaders"
    using length_delete_lt [of oldest kept] by (auto simp: evict)
  have "set (AList.delete oldest kept) \<subseteq> set kept" by (auto simp: AList.delete_eq)
  with kept show "set (evict now entries) \<subseteq> set entries" "distinct (map fst (evict now entries))"
    by (auto simp: evict AList.distinct_delete)
qed

definition entry_ok :: "key_lib \<Rightarrow> (console_identity \<Rightarrow> string + 'r) \<Rightarrow> string \<Rightarrow> 'r reader_entry \<Rightarrow> bool" where
  "entry_ok K build k e \<longleftrightarrow> (\<exists>i now. plain_identity i \<and> readerKey K i = k \<and> build i = Inr (re_reader e) \<and> now < re_expires e
     \<and> re_expires e \<le> id_Expiry i \<and> re_expires e \<le> now + readerTTL)"

definition served :: "key_lib \<Rightarrow> (console_identity \<Rightarrow> string + 'r) \<Rightarrow> console_identity \<Rightarrow> string + 'r \<Rightarrow> bool" where
  "served K build i result \<longleftrightarrow> plain_identity i
     \<and> (\<exists>j. plain_identity j \<and> readerKey K j = readerKey K i \<and> result = build j)"

definition cache_ok :: "key_lib \<Rightarrow> (console_identity \<Rightarrow> string + 'r) \<Rightarrow> 'r reader_cache \<times> (console_identity \<times> (string + 'r)) list \<Rightarrow> bool" where
  "cache_ok K build s \<longleftrightarrow>
     length (ca_entries (fst s)) \<le> maxReaders \<and> distinct (map fst (ca_entries (fst s)))
     \<and> (\<forall>k e. (k, e) \<in> set (ca_entries (fst s)) \<longrightarrow> entry_ok K build k e)
     \<and> distinct (map fst (ca_inflight (fst s)))
     \<and> (\<forall>k i now. (k, i, now) \<in> set (ca_inflight (fst s)) \<longrightarrow> plain_identity i \<and> readerKey K i = k)
     \<and> (\<forall>k i. (k, i) \<in> set (ca_waiting (fst s)) \<longrightarrow> plain_identity i \<and> readerKey K i = k)
     \<and> (\<forall>i result. (i, result) \<in> set (snd s) \<longrightarrow> served K build i result)"

text \<open>What a lookup does to the cache: nothing, a waiter, or a build under a new key.\<close>

lemma get_lookup_Hit:
  "get_lookup K i now c = (c', Hit reader) \<Longrightarrow>
     c' = c \<and> (\<exists>e. map_of (ca_entries c) (readerKey K i) = Some e \<and> reader = re_reader e \<and> now < re_expires e)"
  by (auto simp: get_lookup_def Let_def split: option.splits if_splits)

lemma get_lookup_Wait:
  "get_lookup K i now c = (c', Wait) \<Longrightarrow> c' = c\<lparr>ca_waiting := (readerKey K i, i) # ca_waiting c\<rparr>"
  by (auto simp: get_lookup_def Let_def split: option.splits if_splits)

lemma get_lookup_Build:
  "get_lookup K i now c = (c', Build) \<Longrightarrow>
     c' = c\<lparr>ca_inflight := (readerKey K i, i, now) # ca_inflight c\<rparr> \<and> readerKey K i \<notin> set (map fst (ca_inflight c))"
  by (auto simp: get_lookup_def Let_def split: option.splits if_splits)

lemma get_store_fields:
  "ca_inflight (get_store key i now result c) = AList.delete key (ca_inflight c)"
  "ca_waiting (get_store key i now result c) = ca_waiting c"
  by (simp_all add: get_store_def Let_def split: sum.splits)

lemma get_store_entries:
  "ca_entries (get_store key i now result c) =
     (case result of
        Inl err \<Rightarrow> ca_entries c
      | Inr reader \<Rightarrow>
          if now < reader_expiry i now
          then AList.update key \<lparr>re_reader = reader, re_expires = reader_expiry i now, re_seq = ca_seq c + 1\<rparr>
                 (make_room key now (ca_entries c))
          else ca_entries c)"
  by (simp add: get_store_def Let_def split: sum.splits)

lemma length_update: "length (AList.update k v xs) = (if k \<in> set (map fst xs) then length xs else Suc (length xs))"
  by (induction xs) auto

lemma set_update_subset: "set (AList.update k v xs) \<subseteq> insert (k, v) (set xs)"
  by (induction xs) auto

lemma make_room_facts:
  assumes "length entries \<le> maxReaders" "distinct (map fst entries)"
  shows "key \<notin> set (map fst (make_room key now entries)) \<Longrightarrow> length (make_room key now entries) < maxReaders"
    "length (make_room key now entries) \<le> maxReaders"
    "set (make_room key now entries) \<subseteq> set entries" "distinct (map fst (make_room key now entries))"
  using assms evict_facts [OF assms, of now] by (auto simp: make_room_def split: if_splits)

lemma stored_entries_ok:
  assumes "length (ca_entries c) \<le> maxReaders" "distinct (map fst (ca_entries c))"
    and "\<forall>k e. (k, e) \<in> set (ca_entries c) \<longrightarrow> entry_ok K build k e" and "plain_identity i" and "readerKey K i = key"
  shows "length (ca_entries (get_store key i now (build i) c)) \<le> maxReaders"
    "distinct (map fst (ca_entries (get_store key i now (build i) c)))"
    "\<forall>k e. (k, e) \<in> set (ca_entries (get_store key i now (build i) c)) \<longrightarrow> entry_ok K build k e"
proof -
  note room = make_room_facts [OF assms(1,2), of key now]
  show "length (ca_entries (get_store key i now (build i) c)) \<le> maxReaders"
    using assms(1) room(1,2) by (auto simp: get_store_entries length_update split: sum.splits)
  show "distinct (map fst (ca_entries (get_store key i now (build i) c)))"
    using assms(2) room(4) by (auto simp: get_store_entries distinct_update split: sum.splits)
  have "entry_ok K build key \<lparr>re_reader = reader, re_expires = reader_expiry i now, re_seq = n\<rparr>"
    if "build i = Inr reader" "now < reader_expiry i now" for reader n
    unfolding entry_ok_def using that assms(4,5) by (intro exI [of _ i] exI [of _ now]) (auto simp: reader_expiry_def)
  then show "\<forall>k e. (k, e) \<in> set (ca_entries (get_store key i now (build i) c)) \<longrightarrow> entry_ok K build k e"
    using assms(3) room(3) set_update_subset [of key _ "make_room key now (ca_entries c)"]
    by (auto simp: get_store_entries split: sum.splits if_splits) blast+
qed

lemma cache_ok_step:
  assumes "cache_ok K build s" "cache_step K build s s'"
  shows "cache_ok K build s'"
  using assms(2)
proof cases
  case (hit i now c c' reader answers)
  obtain e where e: "c' = c" "map_of (ca_entries c) (readerKey K i) = Some e" "reader = re_reader e"
    using get_lookup_Hit [OF hit(4)] by blast
  then have "entry_ok K build (readerKey K i) e"
    using assms(1) map_of_SomeD by (fastforce simp: cache_ok_def hit)
  then have "served K build i (Inr reader)"
    using e(3) hit(3) by (auto simp: entry_ok_def served_def)
  then show ?thesis
    using assms(1) by (auto simp: cache_ok_def hit e(1))
next
  case (wait i now c c' answers)
  then show ?thesis
    using assms(1) get_lookup_Wait [OF wait(4)] by (auto simp: cache_ok_def)
next
  case (start i now c c' answers)
  then show ?thesis
    using assms(1) get_lookup_Build [OF start(4)] by (auto simp: cache_ok_def)
next
  case (finish key i now c c' woken answers)
  have ok: "length (ca_entries c) \<le> maxReaders" "distinct (map fst (ca_entries c))"
      "\<forall>k e. (k, e) \<in> set (ca_entries c) \<longrightarrow> entry_ok K build k e" "plain_identity i" "readerKey K i = key"
      "distinct (map fst (ca_inflight c))" "\<forall>k i now. (k, i, now) \<in> set (ca_inflight c) \<longrightarrow> plain_identity i \<and> readerKey K i = k"
      "\<forall>k i. (k, i) \<in> set (ca_waiting c) \<longrightarrow> plain_identity i \<and> readerKey K i = k"
      "\<forall>i result. (i, result) \<in> set answers \<longrightarrow> served K build i result"
    using assms(1) finish(3) unfolding cache_ok_def finish(1) fst_conv snd_conv by blast+
  note entries = stored_entries_ok [OF ok(1-5), of now]
  have "distinct (map fst (AList.delete key (ca_inflight c)))"
    using ok(6) by (simp add: AList.distinct_delete)
  moreover have "\<forall>k i now. (k, i, now) \<in> set (AList.delete key (ca_inflight c)) \<longrightarrow> plain_identity i \<and> readerKey K i = k"
    using ok(7) by (auto simp: AList.delete_eq)
  moreover have "\<forall>j result. (j, result) \<in> set (map (\<lambda>(_, j). (j, build i)) woken) \<longrightarrow> served K build j result"
    using ok(4,5,8) finish(5) by (auto simp: served_def)
  moreover have "served K build i (build i)"
    using ok(4) by (auto simp: served_def)
  ultimately show ?thesis
    unfolding cache_ok_def finish(2) using entries ok(8,9) finish(4) by (auto simp: get_store_fields)
qed

lemma cached_ok: "cached K build s \<Longrightarrow> cache_ok K build s"
proof (induction rule: cached.induct)
  case init
  show ?case by (simp add: cache_ok_def newReaderCache_def)
next
  case (step s s')
  show ?case by (rule cache_ok_step [OF step(3,2)])
qed

text \<open>However requests interleave, the cache of clients keeps at most a thousand, one per key; each was built for an
  identity of its key and is dropped from use no later than five minutes after its build began and no
  later than that identity's session ends; and no key is built twice at once.\<close>

theorem reader_cache_bounded:
  assumes "cached K build (c, answers)"
  shows "length (ca_entries c) \<le> maxReaders \<and> distinct (map fst (ca_entries c)) \<and> distinct (map fst (ca_inflight c))
    \<and> (\<forall>k e. (k, e) \<in> set (ca_entries c) \<longrightarrow>
         (\<exists>i now. readerKey K i = k \<and> build i = Inr (re_reader e) \<and> now < re_expires e \<and> re_expires e \<le> id_Expiry i
            \<and> re_expires e \<le> now + readerTTL))"
  using cached_ok [OF assms] unfolding cache_ok_def entry_ok_def fst_conv snd_conv by meson

text \<open>What the key's JSON text promises of ASCII text, and that a hash is written in hexadecimal.\<close>

definition key_laws :: "key_lib \<Rightarrow> bool" where
  "key_laws K \<longleftrightarrow> (\<forall>s. ascii (kl_Sha256Hex K s))
     \<and> inj_on (kl_Marshal K) {k. ascii (rk_Method k) \<and> ascii (rk_Username k) \<and> list_all ascii (rk_Groups k) \<and> ascii (rk_Token k)}"

lemma readerKey_same:
  assumes "key_laws K" "readerKey K i = readerKey K j" "plain_identity i" "plain_identity j"
  shows "IsToken i = IsToken j \<and> id_Username i = id_Username j \<and> mset (id_Groups i) = mset (id_Groups j)
    \<and> (IsToken i \<longrightarrow> kl_Sha256Hex K (Reveal (id_Token i)) = kl_Sha256Hex K (Reveal (id_Token j)))"
proof -
  define key where "key x = (if IsToken x
    then \<lparr>rk_Method = MethodToken, rk_Username = id_Username x, rk_Groups = sort (id_Groups x), rk_Token = kl_Sha256Hex K (Reveal (id_Token x))\<rparr>
    else \<lparr>rk_Method = MethodOIDC, rk_Username = id_Username x, rk_Groups = sort (id_Groups x), rk_Token = []\<rparr>)" for x
  have marshal: "readerKey K x = kl_Marshal K (key x)" for x
    by (simp add: readerKey_def key_def Let_def)
  have "ascii (rk_Method (key x)) \<and> ascii (rk_Username (key x)) \<and> list_all ascii (rk_Groups (key x)) \<and> ascii (rk_Token (key x))"
    if "plain_identity x" for x
    using that assms(1)
    by (auto simp: key_def plain_identity_def key_laws_def list_all_iff) (simp_all add: ascii_def MethodToken_def MethodOIDC_def)
  then have same: "key i = key j"
    using assms marshal by (auto simp: key_laws_def dest!: inj_onD)
  then have "sort (id_Groups i) = sort (id_Groups j)"
    by (auto simp: key_def split: if_splits)
  then have "mset (id_Groups i) = mset (id_Groups j)"
    by (metis mset_sort)
  with same show ?thesis
    by (auto simp: key_def split: if_splits)
qed

text \<open>C34. No one is ever served with another's client: whatever reader the cache hands to a request, from an entry, from
  a build it shares or from its own, was built for an identity with the same sign-in method and
  username, the same groups up to their order, and for a token session a token with the same SHA-256.\<close>

theorem reader_never_shared:
  assumes "cached K build (c, answers)" and "key_laws K" and "(i, result) \<in> set answers"
  shows "\<exists>j. result = build j \<and> IsToken j = IsToken i \<and> id_Username j = id_Username i \<and> mset (id_Groups j) = mset (id_Groups i)
    \<and> (IsToken i \<longrightarrow> kl_Sha256Hex K (Reveal (id_Token j)) = kl_Sha256Hex K (Reveal (id_Token i)))"
proof -
  have "served K build i result"
    using cached_ok [OF assms(1)] assms(3) unfolding cache_ok_def fst_conv snd_conv by blast
  then obtain j where "plain_identity i" "plain_identity j" "readerKey K j = readerKey K i" "result = build j"
    by (auto simp: served_def)
  then show ?thesis
    using readerKey_same [OF assms(2), of j i] by auto
qed

subsection \<open>Concrete clients\<close>

definition sample_rest :: rest_lib where
  "sample_rest = \<lparr>rl_Anonymous = (\<lambda>c. c\<lparr>rest_BearerToken := [], rest_CertData := [], rest_ImpersonateUser := [], rest_ImpersonateGroups := []\<rparr>),
     rl_ServerUrl = (\<lambda>c. Inr (''https'', rest_Host c))\<rparr>"

definition sample_base :: rest_config where
  "sample_base = \<lparr>rest_Host = ''kubernetes'', rest_BearerToken = ''own'', rest_CertData = [], rest_ImpersonateUser = [],
     rest_ImpersonateGroups = [], rest_Timeout = 0\<rparr>"

definition pods_request :: api_request where
  "pods_request = \<lparr>aq_Method = ''GET'', aq_Scheme = ''https'', aq_Host = ''kubernetes'', aq_Path = ''/api/v1/namespaces/shop/pods'',
     aq_Query = [], aq_Header = [(''Authorization'', [''Bearer abc''])]\<rparr>"

definition alice_transport :: transport where
  "alice_transport = \<lparr>tr_user = [], tr_token = ''abc'', tr_origin = ''https://kubernetes''\<rparr>"

definition alice_config :: rest_config where
  "alice_config = bounded_timeout ((rl_Anonymous sample_rest sample_base)\<lparr>rest_BearerToken := Reveal (id_Token alice)\<rparr>)"

lemma alice_client: "build_reader sample_console sample_rest sample_base alice = Inr (alice_config, alice_transport)"
proof -
  have "token_user (id_Username alice) (id_Groups alice)" by code_simp
  then have "checkTokenIdentity sample_console (id_Username alice) (id_Groups alice) = None" by simp
  moreover have "apiOrigin sample_rest (tokenConfig sample_rest sample_base (Reveal (id_Token alice))) = Inr ''https://kubernetes''"
    by (simp add: apiOrigin_def sample_rest_def tokenConfig_def bounded_timeout_def sample_base_def)
  moreover have "IsToken alice" "id_Token alice = Secret ''abc''"
    by (simp_all add: alice_def IsToken_def)
  ultimately show ?thesis
    unfolding build_reader_def TokenClient_def Let_def alice_config_def alice_transport_def
    by (simp add: tokenConfig_def del: checkTokenIdentity_None)
qed

lemma pods_sent: "RoundTrip alice_transport pods_request = Inr pods_request"
  by code_simp

theorem reads_as_the_user_witness:
  "pods_request = pods_request \<and> aq_Method pods_request = ''GET''
    \<and> aq_Scheme pods_request @ ''://'' @ aq_Host pods_request = tr_origin alice_transport
    \<and> ((\<exists>rd. path_segments (aq_Path pods_request) = read_segments rd \<and> \<not> refused_read rd)
      \<or> namespace_subresource (path_segments (aq_Path pods_request)))
    \<and> \<not> has_param (aq_Query pods_request) ''watch'' \<and> header_Get pods_request ''Upgrade'' = []
    \<and> (if IsToken alice
       then header_Values pods_request ''Authorization'' = [''Bearer '' @ Reveal (id_Token alice)]
         \<and> list_all (\<lambda>(name, _). \<not> HasPrefix (ToLower name) ''impersonate-'') (aq_Header pods_request)
         \<and> alice_config = bounded_timeout ((rl_Anonymous sample_rest sample_base)\<lparr>rest_BearerToken := Reveal (id_Token alice)\<rparr>)
       else header_Get pods_request ''Impersonate-User'' = id_Username alice
         \<and> list_all (\<lambda>g. \<not> HasPrefix g systemPrefix) (id_Username alice # header_Values pods_request ''Impersonate-Group''))"
  by (rule reads_as_the_user [OF alice_client pods_sent])

definition sample_keys :: key_lib where
  "sample_keys = \<lparr>kl_Sha256Hex = map (\<lambda>_. CHR ''f''),
     kl_Marshal = (\<lambda>k. Join [field_sep] [rk_Method k, rk_Username k, rk_Token k, concat (map (\<lambda>g. item_sep # g) (rk_Groups k))])\<rparr>"

lemma ascii_no_sep: "ascii x \<Longrightarrow> field_sep \<notin> set x \<and> item_sep \<notin> set x"
  by (rule utf8_no_sep [OF ascii_utf8])

lemma sample_key_laws: "key_laws sample_keys"
proof -
  have items: "Split item_sep (concat (map (\<lambda>g. item_sep # g) gs)) = [] # gs" if "list_all ascii gs" for gs
    using that ascii_utf8 by (intro Split_items) (auto simp: list_all_iff)
  have seps: "field_sep \<noteq> item_sep" by (simp add: field_sep_def item_sep_def)
  have split: "Split field_sep (kl_Marshal sample_keys k) = [rk_Method k, rk_Username k, rk_Token k, concat (map (\<lambda>g. item_sep # g) (rk_Groups k))]"
    if "ascii (rk_Method k)" "ascii (rk_Username k)" "list_all ascii (rk_Groups k)" "ascii (rk_Token k)" for k
    unfolding sample_keys_def key_lib.simps
    using that seps by (intro Split_Join_sep) (auto simp: list_all_iff dest: ascii_no_sep)
  have "inj_on (kl_Marshal sample_keys) {k. ascii (rk_Method k) \<and> ascii (rk_Username k) \<and> list_all ascii (rk_Groups k) \<and> ascii (rk_Token k)}"
  proof (rule inj_onI, clarify)
    fix k k' :: reader_key
    assume a: "ascii (rk_Method k)" "ascii (rk_Username k)" "list_all ascii (rk_Groups k)" "ascii (rk_Token k)"
      and a': "ascii (rk_Method k')" "ascii (rk_Username k')" "list_all ascii (rk_Groups k')" "ascii (rk_Token k')"
      and eq: "kl_Marshal sample_keys k = kl_Marshal sample_keys k'"
    have same: "rk_Method k = rk_Method k'" "rk_Username k = rk_Username k'" "rk_Token k = rk_Token k'"
        "concat (map (\<lambda>g. item_sep # g) (rk_Groups k)) = concat (map (\<lambda>g. item_sep # g) (rk_Groups k'))"
      using trans [OF split [OF a, unfolded eq, symmetric] split [OF a']] unfolding list.inject by blast+
    have "rk_Groups k = rk_Groups k'"
      using trans [OF items [OF a(3), unfolded same(4), symmetric] items [OF a'(3)]] by (simp only: list.inject)
    with same(1-3) show "k = k'" by (intro reader_key.equality) simp_all
  qed
  moreover have "ascii (kl_Sha256Hex sample_keys s)" for s
    by (simp add: sample_keys_def ascii_def list_all_iff)
  ultimately show ?thesis by (simp add: key_laws_def)
qed

text \<open>One request builds, the next finds the client.\<close>

abbreviation sample_build :: "console_identity \<Rightarrow> string + rest_config \<times> transport" where
  "sample_build \<equiv> build_reader sample_console sample_rest sample_base"

definition alice_building :: "(rest_config \<times> transport) reader_cache" where
  "alice_building = newReaderCache\<lparr>ca_inflight := [(readerKey sample_keys alice, alice, 1000)]\<rparr>"

definition alice_cached :: "(rest_config \<times> transport) reader_cache" where
  "alice_cached = newReaderCache\<lparr>ca_seq := 1, ca_entries := [(readerKey sample_keys alice,
     \<lparr>re_reader = (alice_config, alice_transport), re_expires = 1000 + readerTTL, re_seq = 1\<rparr>)]\<rparr>"

lemma alice_served: "cached sample_keys sample_build (alice_cached, [(alice, sample_build alice), (alice, sample_build alice)])"
proof -
  have plain: "plain_identity alice" by code_simp
  have expiry: "reader_expiry alice 1000 = 1000 + readerTTL"
    by (simp add: reader_expiry_def alice_def maxTokenSession_def readerTTL_def second_def)
  have "get_lookup sample_keys alice 1000 (newReaderCache :: (rest_config \<times> transport) reader_cache) = (alice_building, Build)"
    by (simp add: get_lookup_def newReaderCache_def alice_building_def)
  then have building: "cached sample_keys sample_build (alice_building, [])"
    using cached.step [OF cached.init cache_step.start [OF plain]] by blast
  have "get_store (readerKey sample_keys alice) alice 1000 (sample_build alice) alice_building = alice_cached"
    by (simp add: get_store_def alice_client alice_building_def alice_cached_def newReaderCache_def make_room_def maxReaders_def expiry
      readerTTL_def second_def)
  then have "cache_step sample_keys sample_build (alice_building, []) (alice_cached, [(alice, sample_build alice)])"
    using cache_step.finish [of "readerKey sample_keys alice" alice 1000 alice_building alice_cached sample_build "[]" sample_keys "[]"]
    by (simp add: alice_building_def newReaderCache_def alice_cached_def)
  then have cached: "cached sample_keys sample_build (alice_cached, [(alice, sample_build alice)])"
    by (rule cached.step [OF building])
  have "get_lookup sample_keys alice 2000 alice_cached = (alice_cached, Hit (alice_config, alice_transport))"
    by (simp add: get_lookup_def alice_cached_def newReaderCache_def readerTTL_def second_def)
  from cached.step [OF cached cache_step.hit [OF plain this]] show ?thesis
    by (simp add: alice_client)
qed

theorem reader_cache_bounded_witness:
  "length (ca_entries alice_cached) \<le> maxReaders \<and> distinct (map fst (ca_entries alice_cached)) \<and> distinct (map fst (ca_inflight alice_cached))
    \<and> (\<forall>k e. (k, e) \<in> set (ca_entries alice_cached) \<longrightarrow>
         (\<exists>i now. readerKey sample_keys i = k \<and> sample_build i = Inr (re_reader e) \<and> now < re_expires e \<and> re_expires e \<le> id_Expiry i
            \<and> re_expires e \<le> now + readerTTL))"
  by (rule reader_cache_bounded [OF alice_served])

theorem reader_never_shared_witness:
  "\<exists>j. sample_build alice = sample_build j \<and> IsToken j = IsToken alice \<and> id_Username j = id_Username alice
    \<and> mset (id_Groups j) = mset (id_Groups alice)
    \<and> (IsToken alice \<longrightarrow> kl_Sha256Hex sample_keys (Reveal (id_Token j)) = kl_Sha256Hex sample_keys (Reveal (id_Token alice)))"
  by (rule reader_never_shared [OF alice_served sample_key_laws]) simp

end
