(* ===== verification/Console_Api.thy ===== *)
theory Console_Api
  imports Console_Reads Applier Health Resource_Graph Images
begin

text \<open>
  What the console answers (\<open>internal/console\<close>: \<open>views.go\<close>, \<open>api.go\<close>, \<open>server.go\<close>, \<open>selfcheck.go\<close>): the rows
  and details it shows, the handlers that read the cluster as the signed-in user, the mapping of
  errors to replies, and the checks on the console itself.

  The user's read-only client is the record \<open>console_reader\<close>, the typed lists and gets the handlers
  make and the generic reader that \<open>ListManaged\<close> uses. A condition's transition time, which the
  model of conditions does not carry, comes with the object that was read (\<open>read_application\<close>). JSON encoding,
  the multiplexer and the embedded files are not modelled.
\<close>

subsection \<open>Values as text\<close>

fun sync_state_string :: "sync_state \<Rightarrow> string" where
  "sync_state_string SyncStateNone = ''''"
| "sync_state_string SyncStateUnknown = ''Unknown''"
| "sync_state_string SyncStateSynced = ''Synced''"
| "sync_state_string SyncStateOutOfSync = ''OutOfSync''"
| "sync_state_string SyncStateDrifted = ''Drifted''"
| "sync_state_string SyncStatePlanning = ''Planning''"
| "sync_state_string SyncStateAwaitingApproval = ''AwaitingApproval''"
| "sync_state_string SyncStateApplying = ''Applying''"
| "sync_state_string SyncStatePruning = ''Pruning''"

fun conflict_policy_string :: "conflict_policy \<Rightarrow> string" where
  "conflict_policy_string ConflictPolicyNone = ''''"
| "conflict_policy_string ConflictPolicyFail = ''fail''"
| "conflict_policy_string ConflictPolicyAdopt = ''adopt''"
| "conflict_policy_string (ConflictPolicyOther s) = s"

fun render_type_string :: "render_type \<Rightarrow> string" where
  "render_type_string RenderTypeNone = ''''"
| "render_type_string RenderTypeYAML = ''yaml''"
| "render_type_string RenderTypeKustomize = ''kustomize''"
| "render_type_string RenderTypeHelm = ''helm''"

fun failure_action_string :: "failure_action \<Rightarrow> string" where
  "failure_action_string FailureActionNone = ''''"
| "failure_action_string FailureActionPause = ''pause''"
| "failure_action_string FailureActionRollback = ''rollback''"

fun deletion_policy_string :: "deletion_policy \<Rightarrow> string" where
  "deletion_policy_string DeletionPolicyNone = ''''"
| "deletion_policy_string DeletionPolicyOrphan = ''Orphan''"
| "deletion_policy_string DeletionPolicyDeleteManagedResources = ''DeleteManagedResources''"

fun revision_phase_string :: "revision_phase \<Rightarrow> string" where
  "revision_phase_string RevisionPhaseNone = ''''"
| "revision_phase_string RevisionPhasePending = ''Pending''"
| "revision_phase_string RevisionPhasePlanning = ''Planning''"
| "revision_phase_string RevisionPhaseAwaitingApproval = ''AwaitingApproval''"
| "revision_phase_string RevisionPhaseApplying = ''Applying''"
| "revision_phase_string RevisionPhaseObserving = ''Observing''"
| "revision_phase_string RevisionPhaseHealthy = ''Healthy''"
| "revision_phase_string RevisionPhaseFailed = ''Failed''"
| "revision_phase_string RevisionPhaseRollingBack = ''RollingBack''"
| "revision_phase_string RevisionPhaseRolledBack = ''RolledBack''"
| "revision_phase_string RevisionPhaseCancelled = ''Cancelled''"

fun plan_action_string :: "plan_action \<Rightarrow> string" where
  "plan_action_string PlanActionCreate = ''Create''"
| "plan_action_string PlanActionUpdate = ''Update''"
| "plan_action_string PlanActionDelete = ''Delete''"
| "plan_action_string PlanActionUnchanged = ''Unchanged''"

fun repository_state_string :: "repository_state \<Rightarrow> string" where
  "repository_state_string RepositoryStateNone = ''''"
| "repository_state_string RepositoryStateUnknown = ''Unknown''"
| "repository_state_string RepositoryStateReady = ''Ready''"
| "repository_state_string RepositoryStateFailed = ''Failed''"

fun condition_status_string :: "condition_status \<Rightarrow> string" where
  "condition_status_string ConditionTrue = ''True''"
| "condition_status_string ConditionFalse = ''False''"
| "condition_status_string ConditionUnknown = ''Unknown''"

text \<open>The em dash, in UTF-8, that is shown for every unknown value.\<close>

definition none_dash :: string where
  "none_dash = [CHR 0xE2, CHR 0x80, CHR 0x94]"

definition stateUnknown :: string where
  "stateUnknown = ''Unknown''"
definition stateSynced :: string where
  "stateSynced = ''Synced''"
definition stateOutdated :: string where
  "stateOutdated = ''OutOfSync''"

definition orDash :: "string \<Rightarrow> string" where
  "orDash s = (if s = [] then none_dash else s)"

definition orUnknown :: "string \<Rightarrow> string" where
  "orUnknown s = (if s = [] then stateUnknown else s)"

definition timeOrDash :: "lib \<Rightarrow> time option \<Rightarrow> string" where
  "timeOrDash L t = (case t of None \<Rightarrow> none_dash | Some t \<Rightarrow> if t = 0 then none_dash else FormatRFC3339 L t)"

definition view_text :: "string \<Rightarrow> string" where
  "view_text s = orDash (redact_String s)"

text \<open>\<open>shortDuration\<close>, of a duration in nanoseconds; \<open>Round\<close> to the second rounds halves away from zero.\<close>

definition round_second :: "int \<Rightarrow> int" where
  "round_second d = (if d < 0 then - ((- d + second div 2) div second) else (d + second div 2) div second)"

definition shortDuration :: "int \<Rightarrow> string" where
  "shortDuration d =
     (if d \<ge> 3600 * second \<and> d mod (3600 * second) = 0 then itoa (d div (3600 * second)) @ ''h''
      else if d \<ge> 60 * second \<and> d mod (60 * second) = 0 then itoa (d div (60 * second)) @ ''m''
      else itoa (round_second d) @ ''s'')"

subsection \<open>Rows\<close>

record app_row =
  ar_Name :: string
  ar_Namespace :: string
  ar_Destination :: string
  ar_Repository :: string
  ar_Path :: string
  ar_Render :: string
  ar_Commit :: string
  ar_Sync :: string
  ar_Health :: string
  ar_LastReconcile :: string
  ar_LastChange :: string

record source_view =
  sv_Repository :: string
  sv_Revision :: string
  sv_Path :: string
  sv_Render :: string

record policy_view =
  pv_Automatic :: bool
  pv_Prune :: bool
  pv_SelfHeal :: bool
  pv_Suspend :: bool
  pv_ConflictPolicy :: string
  pv_FailureAction :: string
  pv_DeletionPolicy :: string
  pv_ServiceAccountName :: string

record condition_view =
  cv_Type :: string
  cv_Status :: string
  cv_Reason :: string
  cv_Message :: string
  cv_LastTransitionTime :: string

record chain_link =
  cll_Kind :: string
  cll_Name :: string
  cll_State :: string

record cause_view =
  cav_Resource :: string
  cav_Reason :: string
  cav_Message :: string
  cav_Chain :: "chain_link list"

record change_view =
  chv_Path :: string
  chv_Before :: string
  chv_After :: string
  chv_Redacted :: bool

record plan_resource_view =
  prv_Action :: string
  prv_Ref :: resource_ref
  prv_Changes :: "change_view list"
  prv_Warnings :: "string list"

record summary_view =
  smv_Create :: int
  smv_Update :: int
  smv_Delete :: int
  smv_Unchanged :: int

record plan_view =
  plv_Revision :: string
  plv_Commit :: string
  plv_Digest :: string
  plv_Phase :: string
  plv_Summary :: summary_view
  plv_Truncated :: bool
  plv_Resources :: "plan_resource_view list"

record app_detail =
  ad_Row :: app_row
  ad_State :: string
  ad_DesiredRevision :: string
  ad_DeployedRevision :: string
  ad_Source :: source_view
  ad_Policy :: policy_view
  ad_Conditions :: "condition_view list"
  ad_Diagnosis :: "cause_view list"
  ad_Plan :: "plan_view option"
  ad_PlanVisible :: bool

record revision_row =
  rr_Name :: string
  rr_Namespace :: string
  rr_Application :: string
  rr_Commit :: string
  rr_Phase :: string
  rr_Plan :: summary_view
  rr_Digest :: string
  rr_ApprovedBy :: string
  rr_Attempts :: int
  rr_Started :: string
  rr_Failure :: string

record resource_row =
  row_Kind :: string
  row_Name :: string
  row_APIVersion :: string
  row_Sync :: string
  row_Health :: string
  row_Visible :: bool

record repo_row =
  rpr_Name :: string
  rpr_Namespace :: string
  rpr_URL :: string
  rpr_Ref :: string
  rpr_Observed :: string
  rpr_State :: string
  rpr_Message :: string
  rpr_Apps :: "int option"
  rpr_Poll :: string
  rpr_Webhook :: bool
  rpr_LastFetch :: string

record image_policy_row =
  ipr_Name :: string
  ipr_Namespace :: string
  ipr_Image :: string
  ipr_Rule :: string
  ipr_Latest :: string
  ipr_Digest :: string
  ipr_LastScan :: string

subsection \<open>Views\<close>

record read_application =
  ra_App :: application
  ra_Transitions :: "time list" \<comment> \<open>one per condition, in order\<close>

definition startOf :: "revision \<Rightarrow> time" where
  "startOf r = (case rstatus_StartedAt (rev_Status r) of Some t \<Rightarrow> t | None \<Rightarrow> rev_Created r)"

definition later :: "time option \<Rightarrow> time option \<Rightarrow> time option" where
  "later latest t = (case t of
       None \<Rightarrow> latest
     | Some t' \<Rightarrow> if t' \<noteq> 0 \<and> (case latest of None \<Rightarrow> True | Some l \<Rightarrow> l < t') then t else latest)"

definition lastChange :: "time option \<Rightarrow> revision option \<Rightarrow> time option" where
  "lastChange transition newest =
     (case newest of
        None \<Rightarrow> transition
      | Some r \<Rightarrow> later (later transition (Some (startOf r))) (rstatus_CompletedAt (rev_Status r)))"

definition newest_transition :: "time list \<Rightarrow> time option" where
  "newest_transition ts =
     foldl (\<lambda>transition t. case transition of None \<Rightarrow> Some t | Some l \<Rightarrow> if l < t then Some t else transition) None ts"

definition appRow :: "lib \<Rightarrow> read_application \<Rightarrow> revision option \<Rightarrow> app_row" where
  "appRow L ra newest =
     (let app = ra_App ra; transition = newest_transition (ra_Transitions ra); src = aspec_Source (app_Spec app) in
      \<lparr>ar_Name = app_Name app, ar_Namespace = app_Namespace app, ar_Destination = DestinationNamespace app,
       ar_Repository = orDash (src_RepositoryRef src), ar_Path = orDash (src_Path src),
       ar_Render = orDash (render_type_string (render_Type (src_Render src))),
       ar_Commit = orDash (astatus_DeployedRevision (app_Status app)),
       ar_Sync = orUnknown (sync_state_string (astatus_Sync (app_Status app))),
       ar_Health = orUnknown (health_state_string (astatus_Health (app_Status app))),
       ar_LastReconcile = timeOrDash L transition,
       ar_LastChange = timeOrDash L (lastChange transition newest)\<rparr>)"

definition qualified_ref :: "resource_ref \<Rightarrow> string" where
  "qualified_ref r = (if ref_Namespace r = [] then resource_ref.ref_Name r else ref_Namespace r @ ''/'' @ resource_ref.ref_Name r)"

definition causes_view :: "diagnosis_cause list \<Rightarrow> cause_view list" where
  "causes_view cs = map (\<lambda>c.
     \<lparr>cav_Resource = resource_ref.ref_Kind (dc_Resource c) @ ''/'' @ qualified_ref (dc_Resource c),
      cav_Reason = orDash (dc_Reason c), cav_Message = view_text (dc_Message c),
      cav_Chain = map (\<lambda>r. \<lparr>cll_Kind = resource_ref.ref_Kind r, cll_Name = qualified_ref r,
        cll_State = (if r = dc_Resource c then orDash (dc_Reason c) else none_dash)\<rparr>) (dc_Chain c)\<rparr>) cs"

definition summaryView :: "plan_summary \<Rightarrow> summary_view" where
  "summaryView s = \<lparr>smv_Create = sum_Create s, smv_Update = sum_Update s, smv_Delete = sum_Delete s, smv_Unchanged = sum_Unchanged s\<rparr>"

definition changeView :: "string \<Rightarrow> plan_field_change \<Rightarrow> change_view" where
  "changeView kind c =
     (if kind = ''Secret'' \<or> fc_Redacted c \<or> SensitivePath (fc_Path c)
      then \<lparr>chv_Path = fc_Path c, chv_Before = Value (fc_Before c), chv_After = Value (fc_After c), chv_Redacted = True\<rparr>
      else \<lparr>chv_Path = fc_Path c, chv_Before = redact_String (fc_Before c), chv_After = redact_String (fc_After c), chv_Redacted = False\<rparr>)"

definition planResourceView :: "plan_resource_change \<Rightarrow> plan_resource_view" where
  "planResourceView r = \<lparr>prv_Action = plan_action_string (prc_Action r), prv_Ref = prc_Resource r,
     prv_Changes = map (changeView (resource_ref.ref_Kind (prc_Resource r))) (prc_Changes r), prv_Warnings = map redact_String (prc_Warnings r)\<rparr>"

definition planView :: "revision \<Rightarrow> plan_view" where
  "planView r =
     (let plan = rstatus_Plan (rev_Status r) in
      \<lparr>plv_Revision = rev_Name r, plv_Commit = orDash (rev_SourceRevision r), plv_Digest = orDash (plan_Digest plan),
       plv_Phase = orUnknown (revision_phase_string (rev_Phase r)), plv_Summary = summaryView (plan_Summary plan),
       plv_Truncated = sum_Truncated (plan_Summary plan), plv_Resources = map planResourceView (plan_Resources plan)\<rparr>)"

definition conditionViews :: "lib \<Rightarrow> condition list \<Rightarrow> time list \<Rightarrow> condition_view list" where
  "conditionViews L cs ts = map (\<lambda>(c, t). \<lparr>cv_Type = cond_Type c, cv_Status = condition_status_string (cond_Status c),
     cv_Reason = orDash (cond_Reason c), cv_Message = view_text (cond_Message c), cv_LastTransitionTime = timeOrDash L (Some t)\<rparr>) (zip cs ts)"

definition appDetail :: "lib \<Rightarrow> read_application \<Rightarrow> revision option \<Rightarrow> bool \<Rightarrow> app_detail" where
  "appDetail L ra newest planVisible =
     (let app = ra_App ra; src = aspec_Source (app_Spec app); st = app_Status app; spec = app_Spec app in
      \<lparr>ad_Row = appRow L ra newest,
       ad_State = orUnknown (health_state_string (astatus_State st)),
       ad_DesiredRevision = orDash (astatus_DesiredRevision st),
       ad_DeployedRevision = orDash (astatus_DeployedRevision st),
       ad_Source = \<lparr>sv_Repository = orDash (src_RepositoryRef src), sv_Revision = orDash (src_Revision src),
         sv_Path = orDash (src_Path src), sv_Render = orDash (render_type_string (render_Type (src_Render src)))\<rparr>,
       ad_Policy = \<lparr>pv_Automatic = sync_Automatic (aspec_Sync spec), pv_Prune = sync_Prune (aspec_Sync spec),
         pv_SelfHeal = sync_SelfHeal (aspec_Sync spec), pv_Suspend = aspec_Suspend spec,
         pv_ConflictPolicy = orDash (conflict_policy_string (sync_ConflictPolicy (aspec_Sync spec))),
         pv_FailureAction = orDash (failure_action_string (fp_Action (strategy_FailurePolicy (aspec_Strategy spec)))),
         pv_DeletionPolicy = orDash (deletion_policy_string (aspec_DeletionPolicy spec)),
         pv_ServiceAccountName = orDash (if astatus_ServiceAccountName st \<noteq> [] then astatus_ServiceAccountName st else aspec_ServiceAccountName spec)\<rparr>,
       ad_Conditions = conditionViews L (astatus_Conditions st) (ra_Transitions ra),
       ad_Diagnosis = causes_view (astatus_Diagnosis st),
       ad_Plan = map_option planView newest,
       ad_PlanVisible = planVisible\<rparr>)"

definition revisionRow :: "lib \<Rightarrow> revision \<Rightarrow> revision_row" where
  "revisionRow L r =
     \<lparr>rr_Name = rev_Name r, rr_Namespace = om_Namespace (rev_Meta r), rr_Application = orDash (rev_ApplicationRef r),
      rr_Commit = orDash (rev_SourceRevision r), rr_Phase = orUnknown (revision_phase_string (rev_Phase r)),
      rr_Plan = summaryView (plan_Summary (rstatus_Plan (rev_Status r))), rr_Digest = orDash (rev_PlanDigest r),
      rr_ApprovedBy = (case rstatus_Approval (rev_Status r) of Some a \<Rightarrow> orDash (appr_ApprovedBy a) | None \<Rightarrow> none_dash),
      rr_Attempts = rstatus_Attempts (rev_Status r),
      rr_Started = (case rstatus_StartedAt (rev_Status r) of None \<Rightarrow> timeOrDash L (Some (rev_Created r)) | Some t \<Rightarrow> timeOrDash L (Some t)),
      rr_Failure = (case rstatus_Failure (rev_Status r) of
          None \<Rightarrow> none_dash
        | Some f \<Rightarrow> view_text (Join '': '' (filter (\<lambda>s. s \<noteq> []) [fail_Reason f, fail_Message f])))\<rparr>"

definition repoRow :: "lib \<Rightarrow> repository \<Rightarrow> int option \<Rightarrow> repo_row" where
  "repoRow L repo apps =
     \<lparr>rpr_Name = om_Name (repo_Meta repo), rpr_Namespace = om_Namespace (repo_Meta repo),
      rpr_URL = (case repo_Git (repo_Spec repo) of None \<Rightarrow> none_dash | Some g \<Rightarrow> view_text (git_URL g)),
      rpr_Ref = (case repo_Git (repo_Spec repo) of None \<Rightarrow> none_dash | Some g \<Rightarrow> orDash (git_Revision g)),
      rpr_Observed = orDash (repostatus_ObservedRevision (repo_Status repo)),
      rpr_State = orUnknown (repository_state_string (repostatus_State (repo_Status repo))),
      rpr_Message = foldl (\<lambda>m c. if cond_Type c = ''Ready'' then view_text (cond_Message c) else m) none_dash (repostatus_Conditions (repo_Status repo)),
      rpr_Apps = apps,
      rpr_Poll = (case repo_PollInterval (repo_Spec repo) of None \<Rightarrow> none_dash | Some d \<Rightarrow> shortDuration d),
      rpr_Webhook = (repo_Webhook (repo_Spec repo) \<noteq> None),
      rpr_LastFetch = timeOrDash L (repostatus_LastFetchedAt (repo_Status repo))\<rparr>"

definition imagePolicyRow :: "lib \<Rightarrow> image_policy \<Rightarrow> image_policy_row" where
  "imagePolicyRow L p =
     (let pol = ips_Policy (ip_Spec p) in
      \<lparr>ipr_Name = om_Name (ip_Meta p), ipr_Namespace = om_Namespace (ip_Meta p), ipr_Image = view_text (ips_Image (ip_Spec p)),
       ipr_Rule = (case isel_Semver pol of Some rng \<Rightarrow> ''semver '' @ rng
                   | None \<Rightarrow> (case isel_TagPattern pol of Some tp \<Rightarrow> ''tagPattern '' @ tp_Regex tp
                   | None \<Rightarrow> (case isel_Digest pol of Some tag \<Rightarrow> ''digest '' @ tag | None \<Rightarrow> none_dash))),
       ipr_Latest = orDash (ipst_LatestTag (ip_Status p)), ipr_Digest = orDash (ipst_LatestDigest (ip_Status p)),
       ipr_LastScan = timeOrDash L (ipst_LastScannedAt (ip_Status p))\<rparr>)"

text \<open>\<open>newestFirst\<close>: by start, then by name, both descending, in a stable sort.\<close>

definition starts_later :: "revision \<Rightarrow> revision \<Rightarrow> bool" where
  "starts_later a b \<longleftrightarrow> startOf b < startOf a \<or> (startOf a = startOf b \<and> rev_Name b < rev_Name a)"

definition newestFirst :: "revision list \<Rightarrow> revision list" where
  "newestFirst revs = sort_by starts_later revs"

subsection \<open>Handlers\<close>

record console_reader =
  cr_Namespaces :: "api_error + string list"
  cr_Applications :: "string \<Rightarrow> api_error + read_application list" \<comment> \<open>in a namespace, or in all for the empty name\<close>
  cr_Application :: "string \<Rightarrow> string \<Rightarrow> api_error + read_application"
  cr_Revisions :: "string \<Rightarrow> api_error + revision list"
  cr_Repositories :: "string \<Rightarrow> api_error + repository list"
  cr_ImagePolicies :: "string \<Rightarrow> api_error + image_policy list"
  cr_Objects :: reader

text \<open>\<open>validation.IsDNS1123Label\<close> and \<open>validation.IsDNS1123Subdomain\<close>, where they find nothing wrong.\<close>

record name_lib =
  nl_Label :: "string \<Rightarrow> bool"
  nl_Subdomain :: "string \<Rightarrow> bool"

definition errNeedNamespace :: string where
  "errNeedNamespace = ''console: a namespace is required''"

definition errInvalidName :: string where
  "errInvalidName = ''console: invalid name''"

definition DeadlineExceeded :: string where
  "DeadlineExceeded = ''context deadline exceeded''"

definition listIn :: "console_request \<Rightarrow> (string \<Rightarrow> api_error + 'a list) \<Rightarrow> api_error + 'a list" where
  "listIn r list =
     (let ns = get_param (cq_Query r) ''namespace'' in
      case list ns of
        Inl err \<Rightarrow> if ns = [] \<and> IsForbidden err then Inl (Wrapped errNeedNamespace errNeedNamespace) else Inl err
      | Inr items \<Rightarrow> Inr items)"

definition namespaces :: "console_request \<Rightarrow> console_reader \<Rightarrow> api_error + string list" where
  "namespaces r rd = (case cr_Namespaces rd of Inl err \<Rightarrow> Inl err | Inr names \<Rightarrow> Inr (sort names))"

definition belongsTo :: "revision \<Rightarrow> string \<Rightarrow> bool" where
  "belongsTo r app \<longleftrightarrow> get_str (om_Labels (rev_Meta r)) ApplicationLabelKey = app \<or> rev_ApplicationRef r = app"

definition note_newest :: "(string \<rightharpoonup> revision) \<Rightarrow> revision \<Rightarrow> (string \<rightharpoonup> revision)" where
  "note_newest out r =
     foldl (\<lambda>out app. let key = om_Namespace (rev_Meta r) @ ''/'' @ app in if app \<noteq> [] \<and> out key = None then out(key \<mapsto> r) else out)
       out [get_str (om_Labels (rev_Meta r)) ApplicationLabelKey, rev_ApplicationRef r]"

definition newestByApplication :: "revision list \<Rightarrow> (string \<rightharpoonup> revision)" where
  "newestByApplication revs = foldl note_newest Map.empty (newestFirst revs)"

definition applications :: "lib \<Rightarrow> console_request \<Rightarrow> console_reader \<Rightarrow> api_error + app_row list" where
  "applications L r rd =
     (case listIn r (cr_Applications rd) of
        Inl err \<Rightarrow> Inl err
      | Inr apps \<Rightarrow>
          (let rows = (\<lambda>newest. map (\<lambda>ra. appRow L ra (newest (app_Namespace (ra_App ra) @ ''/'' @ app_Name (ra_App ra)))) apps) in
           case listIn r (cr_Revisions rd) of
             Inr revs \<Rightarrow> Inr (rows (newestByApplication revs))
           | Inl err \<Rightarrow> if IsForbidden err \<or> errors_Is err errNeedNamespace then Inr (rows Map.empty) else Inl err))"

definition getApplication :: "name_lib \<Rightarrow> console_request \<Rightarrow> console_reader \<Rightarrow> api_error + read_application" where
  "getApplication N r rd =
     (if \<not> nl_Label N (cq_ns r) \<or> \<not> nl_Subdomain N (cq_name r) then Inl (Wrapped errInvalidName errInvalidName)
      else cr_Application rd (cq_ns r) (cq_name r))"

definition revisionsOf :: "console_reader \<Rightarrow> application \<Rightarrow> api_error + revision list" where
  "revisionsOf rd app =
     (case cr_Revisions rd (app_Namespace app) of
        Inl err \<Rightarrow> Inl err
      | Inr revs \<Rightarrow> Inr (newestFirst (filter (\<lambda>r. belongsTo r (app_Name app)) revs)))"

definition newest_of :: "api_error + revision list \<Rightarrow> revision option" where
  "newest_of revs = (case revs of Inr (r # _) \<Rightarrow> Some r | _ \<Rightarrow> None)"

definition application_handler :: "lib \<Rightarrow> name_lib \<Rightarrow> console_request \<Rightarrow> console_reader \<Rightarrow> api_error + app_detail" where
  "application_handler L N r rd =
     (case getApplication N r rd of
        Inl err \<Rightarrow> Inl err
      | Inr ra \<Rightarrow>
          (let revs = revisionsOf rd (ra_App ra) in
           case revs of
             Inl err \<Rightarrow> if \<not> IsForbidden err then Inl err else Inr (appDetail L ra None False)
           | Inr _ \<Rightarrow> Inr (appDetail L ra (newest_of revs) True)))"

definition applicationRevisions_handler :: "lib \<Rightarrow> name_lib \<Rightarrow> console_request \<Rightarrow> console_reader \<Rightarrow> api_error + revision_row list" where
  "applicationRevisions_handler L N r rd =
     (case getApplication N r rd of
        Inl err \<Rightarrow> Inl err
      | Inr ra \<Rightarrow> (case revisionsOf rd (ra_App ra) of Inl err \<Rightarrow> Inl err | Inr revs \<Rightarrow> Inr (map (revisionRow L) revs)))"

definition isSecretKind :: "gvk \<Rightarrow> bool" where
  "isSecretKind k \<longleftrightarrow> gvk_Group k = [] \<and> gvk_Kind k = ''Secret''"

definition console_managedKinds :: "lib \<Rightarrow> application \<Rightarrow> gvk list" where
  "console_managedKinds L app = (if astatus_ManagedKinds (app_Status app) = [] then DefaultKinds else InventoryKinds L app)"

definition secretNames :: "revision option \<Rightarrow> string list" where
  "secretNames r = (case r of
       None \<Rightarrow> []
     | Some r \<Rightarrow> remdups_adj (sort (map (\<lambda>res. resource_ref.ref_Name (prc_Resource res))
         (filter (\<lambda>res. resource_ref.ref_Kind (prc_Resource res) = ''Secret'' \<and> ref_APIVersion (prc_Resource res) = ''v1''
            \<and> prc_Action res \<noteq> PlanActionDelete) (plan_Resources (rstatus_Plan (rev_Status r)))))))"

definition pending_rows :: "revision option \<Rightarrow> string set" where
  "pending_rows newest = (case newest of
       None \<Rightarrow> {}
     | Some r \<Rightarrow> if rev_Phase r = RevisionPhaseHealthy then {}
         else set (map (\<lambda>res. resource_ref.ref_Kind (prc_Resource res) @ ''/'' @ resource_ref.ref_Name (prc_Resource res))
           (filter (\<lambda>res. prc_Action res \<noteq> PlanActionUnchanged) (plan_Resources (rstatus_Plan (rev_Status r))))))"

definition syncOf :: "application \<Rightarrow> string set \<Rightarrow> string \<Rightarrow> string \<Rightarrow> string" where
  "syncOf app pending kind name =
     (if astatus_Sync (app_Status app) = SyncStateNone then stateUnknown
      else if kind @ ''/'' @ name \<in> pending then stateOutdated
      else stateSynced)"

definition managed_row :: "lib \<Rightarrow> application \<Rightarrow> string set \<Rightarrow> unstructured \<Rightarrow> resource_row" where
  "managed_row L app pending obj =
     \<lparr>row_Kind = GetKind L obj, row_Name = GetName L obj, row_APIVersion = GetAPIVersion L obj,
      row_Sync = syncOf app pending (GetKind L obj) (GetName L obj),
      row_Health = (if IdentityOnly (GroupVersionKindOf L obj) then none_dash
                    else case Evaluate L obj of Inl err \<Rightarrow> none_dash | Inr res \<Rightarrow> orUnknown (health_state_string (hr_State res))),
      row_Visible = True\<rparr>"

definition hidden_row :: "string \<Rightarrow> string \<Rightarrow> string \<Rightarrow> resource_row" where
  "hidden_row kind name apiVersion = \<lparr>row_Kind = kind, row_Name = name, row_APIVersion = apiVersion,
     row_Sync = none_dash, row_Health = none_dash, row_Visible = False\<rparr>"

definition console_list_options :: list_options where
  "console_list_options = \<lparr>lo_DesiredKinds = [], lo_MetadataOnly = Some IdentityOnly, lo_Exclude = Some isSecretKind\<rparr>"

definition applicationResources :: "lib \<Rightarrow> name_lib \<Rightarrow> console_request \<Rightarrow> console_reader \<Rightarrow> api_error + resource_row list" where
  "applicationResources L N r rd =
     (case getApplication N r rd of
        Inl err \<Rightarrow> Inl err
      | Inr ra \<Rightarrow>
          (let app = ra_App ra in
           case ListManaged L (cr_Objects rd) app console_list_options of
             Inl err \<Rightarrow> Inl err
           | Inr (managed, skipped) \<Rightarrow>
               (let newest = newest_of (revisionsOf rd app);
                    names = secretNames newest
                in Inr (map (managed_row L app (pending_rows newest)) managed
                     @ map (\<lambda>kind. hidden_row kind none_dash none_dash) skipped
                     @ (if list_ex isSecretKind (console_managedKinds L app)
                        then map (\<lambda>name. hidden_row ''Secret'' name ''v1'') (if names = [] then [none_dash] else names) else [])))))"

definition repositories_handler :: "lib \<Rightarrow> console_request \<Rightarrow> console_reader \<Rightarrow> api_error + repo_row list" where
  "repositories_handler L r rd =
     (case listIn r (cr_Repositories rd) of
        Inl err \<Rightarrow> Inl err
      | Inr repos \<Rightarrow>
          (let counted = cr_Applications rd (get_param (cq_Query r) ''namespace'');
               key = (\<lambda>repo. om_Namespace (repo_Meta repo) @ ''/'' @ om_Name (repo_Meta repo))
           in Inr (map (\<lambda>repo. repoRow L repo (case counted of
                 Inl err \<Rightarrow> None
               | Inr apps \<Rightarrow> Some (int (length (filter (\<lambda>ra. app_Namespace (ra_App ra) @ ''/'' @ src_RepositoryRef (aspec_Source (app_Spec (ra_App ra)))
                   = key repo) apps))))) repos)))"

definition revisions_handler :: "lib \<Rightarrow> console_request \<Rightarrow> console_reader \<Rightarrow> api_error + revision_row list" where
  "revisions_handler L r rd =
     (case listIn r (cr_Revisions rd) of Inl err \<Rightarrow> Inl err | Inr revs \<Rightarrow> Inr (map (revisionRow L) (newestFirst revs)))"

definition imagePolicies_handler :: "lib \<Rightarrow> console_request \<Rightarrow> console_reader \<Rightarrow> api_error + image_policy_row list" where
  "imagePolicies_handler L r rd =
     (case listIn r (cr_ImagePolicies rd) of Inl err \<Rightarrow> Inl err | Inr ps \<Rightarrow> Inr (map (imagePolicyRow L) ps))"

subsection \<open>The server\<close>

record 'p server =
  srv_cfg :: console_config
  srv_auth :: "'p auth option"
  srv_impersonation :: string

record 'a api_reply =
  ap_Code :: int
  ap_Body :: "'a option"
  ap_Error :: string
  ap_NeedNamespace :: bool
  ap_Cookies :: "cookie list"

definition error_reply :: "int \<Rightarrow> string \<Rightarrow> 'a api_reply" where
  "error_reply code e = \<lparr>ap_Code = code, ap_Body = None, ap_Error = e, ap_NeedNamespace = False, ap_Cookies = []\<rparr>"

text \<open>\<open>deadline\<close> says that the request's context has passed its deadline.\<close>

definition writeError :: "'p server \<Rightarrow> bool \<Rightarrow> api_error \<Rightarrow> 'a api_reply" where
  "writeError s deadline err =
     (if errors_Is err errInvalidName then error_reply 400 ''invalid name''
      else if errors_Is err errNeedNamespace then (error_reply 403 ''forbidden'')\<lparr>ap_NeedNamespace := True\<rparr>
      else if IsForbidden err \<or> errors_Is err ErrForbiddenPath \<or> errors_Is err ErrWriteRefused
        \<or> errors_Is err ErrNotImpersonated \<or> errors_Is err ErrNotTheSessionToken
      then error_reply 403 ''forbidden''
      else if IsNotFound err then error_reply 404 ''not found''
      else if deadline \<or> errors_Is err DeadlineExceeded \<or> IsTimeout err then error_reply 504 ''timeout''
      else if IsUnauthorized err
      then (error_reply 401 ''unauthorized'')\<lparr>ap_Cookies := (case srv_auth s of Some a \<Rightarrow> [ClearSession a] | None \<Rightarrow> [])\<rparr>
      else error_reply 502 ''cluster read failed'')"

definition withIdentity :: "'p console_lib \<Rightarrow> 'p server \<Rightarrow> time \<Rightarrow> console_request \<Rightarrow> (console_identity \<Rightarrow> 'a api_reply) \<Rightarrow> 'a api_reply" where
  "withIdentity C s now r k =
     (case srv_auth s of
        None \<Rightarrow> error_reply 401 ''unauthorized''
      | Some a \<Rightarrow>
          (case Identity C a now r of
             None \<Rightarrow> error_reply 401 ''unauthorized''
           | Some i \<Rightarrow> if check C i \<noteq> None then error_reply 401 ''unauthorized'' else k i))"

text \<open>\<open>api\<close>: \<open>newReader\<close> is the cache's \<open>get\<close>.\<close>

definition api_handler :: "'p console_lib \<Rightarrow> 'p server \<Rightarrow> time \<Rightarrow> (console_identity \<Rightarrow> string + console_reader) \<Rightarrow> bool
    \<Rightarrow> (console_request \<Rightarrow> console_reader \<Rightarrow> api_error + 'a) \<Rightarrow> console_request \<Rightarrow> 'a api_reply" where
  "api_handler C s now newReader deadline h r =
     withIdentity C s now r (\<lambda>i.
       case newReader i of
         Inl err \<Rightarrow> error_reply 401 ''unauthorized''
       | Inr rd \<Rightarrow>
           (case h r rd of
              Inl err \<Rightarrow> writeError s deadline err
            | Inr out \<Rightarrow> \<lparr>ap_Code = 200, ap_Body = Some out, ap_Error = [], ap_NeedNamespace = False, ap_Cookies = []\<rparr>))"

record me_response =
  me_Authenticated :: bool
  me_Username :: string
  me_Groups :: "string list"
  me_Method :: string
  me_Cluster :: string
  me_TokenSignIn :: bool
  me_OIDC :: bool
  me_Connectors :: "string list"
  me_SSOName :: string
  me_DocsURL :: string
  me_StatusURL :: string

definition oidcEnabled :: "'p server \<Rightarrow> bool" where
  "oidcEnabled s = (case srv_auth s of None \<Rightarrow> False | Some a \<Rightarrow> OIDCEnabled (au_cfg a))"

definition oidcReady :: "'p server \<Rightarrow> bool" where
  "oidcReady s = (case srv_auth s of None \<Rightarrow> False | Some a \<Rightarrow> Ready a)"

definition me :: "'p console_lib \<Rightarrow> 'p server \<Rightarrow> time \<Rightarrow> console_request \<Rightarrow> me_response" where
  "me C s now r =
     (let cfg = srv_cfg s;
          out = \<lparr>me_Authenticated = False, me_Username = [], me_Groups = [], me_Method = [], me_Cluster = cc_ClusterName cfg,
            me_TokenSignIn = True, me_OIDC = oidcEnabled s, me_Connectors = (if oidcEnabled s then cc_Connectors cfg else []),
            me_SSOName = cc_SSOName cfg, me_DocsURL = cc_DocsURL cfg, me_StatusURL = cc_StatusURL cfg\<rparr>
      in case srv_auth s of
           None \<Rightarrow> out
         | Some a \<Rightarrow>
             (case Identity C a now r of
                None \<Rightarrow> out
              | Some i \<Rightarrow>
                  if check C i \<noteq> None then out
                  else out\<lparr>me_Authenticated := True, me_Username := id_Username i, me_Groups := id_Groups i,
                         me_Method := (if IsToken i then MethodToken else MethodOIDC)\<rparr>))"

definition healthz :: "'p server \<Rightarrow> int \<times> string \<times> string" where
  "healthz s =
     (let oidc = (if srv_auth s \<noteq> None \<and> \<not> oidcEnabled s then ''disabled'' else if oidcReady s then ''ready'' else ''pending'')
      in (if oidc = ''pending'' then 503 else 200, oidc, srv_impersonation s))"

text \<open>\<open>SelfCheck\<close>: \<open>may\<close> is the API server's answer to a review of impersonating users or groups.\<close>

fun missing_rights :: "(string \<Rightarrow> string + bool) \<Rightarrow> string list \<Rightarrow> string list \<Rightarrow> string + string list" where
  "missing_rights may [] missing = Inr missing"
| "missing_rights may (resource # rs) missing =
     (case may resource of
        Inl err \<Rightarrow> Inl (''check impersonate '' @ resource @ '': '' @ err)
      | Inr allowed \<Rightarrow> missing_rights may rs (if allowed then missing else missing @ [resource]))"

definition SelfCheck :: "string option \<Rightarrow> (string \<Rightarrow> string + bool) \<Rightarrow> 'p server \<Rightarrow> 'p server \<times> string option" where
  "SelfCheck client_error may s =
     (if \<not> OIDCEnabled (srv_cfg s) then (s\<lparr>srv_impersonation := ''disabled''\<rparr>, None)
      else
        (case client_error of
           Some err \<Rightarrow> (s, Some err)
         | None \<Rightarrow>
             (case missing_rights may [''users'', ''groups''] [] of
                Inl err \<Rightarrow> (s, Some err)
              | Inr missing \<Rightarrow> (s\<lparr>srv_impersonation := (if missing \<noteq> [] then ''missing'' else ''granted'')\<rparr>, None))))"

subsection \<open>Lists and details agree\<close>

context strict_weak
begin

lemma filter_insort:
  "sorted_wrt (\<lambda>a b. \<not> lt b a) ys \<Longrightarrow>
   filter P (insort_by lt x ys) = (if P x then insort_by lt x (filter P ys) else filter P ys)"
proof (induction ys)
  case (Cons y ys)
  show ?case
  proof (cases "lt y x")
    case True
    then show ?thesis using Cons by auto
  next
    case False
    then have "\<forall>z \<in> set (filter P (y # ys)). \<not> lt z x"
      using Cons.prems less_neg_trans by auto
    then have "insort_by lt x (filter P (y # ys)) = x # filter P (y # ys)"
      by (cases "filter P (y # ys)") (auto simp del: filter.simps)
    then show ?thesis using False by (cases "P y") auto
  qed
qed simp

lemma filter_sort_by: "filter P (sort_by lt xs) = sort_by lt (filter P xs)"
  by (induction xs) (auto simp: filter_insort [OF sorted_sort_by])

end

interpretation latest: strict_weak starts_later
  by unfold_locales (auto simp: starts_later_def)

definition in_ns :: "string \<Rightarrow> revision \<Rightarrow> bool" where
  "in_ns ns r \<longleftrightarrow> om_Namespace (rev_Meta r) = ns"

lemma slash_split:
  "CHR ''/'' \<notin> set a \<Longrightarrow> CHR ''/'' \<notin> set c \<Longrightarrow> a @ ''/'' @ b = c @ ''/'' @ d \<longleftrightarrow> a = c \<and> b = d"
proof (induction a arbitrary: c)
  case Nil
  then show ?case by (cases c) auto
next
  case (Cons x a)
  then show ?case by (cases c) auto
qed

lemma note_newest_apply:
  assumes "app \<noteq> []" "CHR ''/'' \<notin> set ns" "CHR ''/'' \<notin> set (om_Namespace (rev_Meta r))"
  shows "note_newest out r (ns @ ''/'' @ app)
    = (if out (ns @ ''/'' @ app) = None \<and> in_ns ns r \<and> belongsTo r app then Some r else out (ns @ ''/'' @ app))"
proof -
  define key where "key n = om_Namespace (rev_Meta r) @ ''/'' @ n" for n
  define k where "k = ns @ ''/'' @ app"
  have same: "k = key n \<longleftrightarrow> in_ns ns r \<and> n = app" for n
    using slash_split [OF assms(2,3), of app n] by (auto simp: k_def key_def in_ns_def)
  define one where "one out n = (if n \<noteq> [] \<and> out (key n) = None then out(key n \<mapsto> r) else out)" for out n
  have one: "one out n k = (if out k = None \<and> in_ns ns r \<and> n = app then Some r else out k)" for out n
    using same [of n] assms(1) by (auto simp: one_def)
  have "note_newest out r = one (one out (get_str (om_Labels (rev_Meta r)) ApplicationLabelKey)) (rev_ApplicationRef r)"
    unfolding note_newest_def Let_def one_def key_def foldl.simps ..
  then show ?thesis
    unfolding k_def [symmetric] by (simp add: one belongsTo_def)
qed

lemma note_newest_loop:
  assumes "app \<noteq> []" "CHR ''/'' \<notin> set ns" "\<forall>r \<in> set rs. CHR ''/'' \<notin> set (om_Namespace (rev_Meta r))"
  shows "foldl note_newest out rs (ns @ ''/'' @ app)
    = (case out (ns @ ''/'' @ app) of Some r \<Rightarrow> Some r | None \<Rightarrow> find (\<lambda>r. in_ns ns r \<and> belongsTo r app) rs)"
  using assms(3)
proof (induction rs arbitrary: out)
  case (Cons r rs)
  have "note_newest out r (ns @ ''/'' @ app)
      = (if out (ns @ ''/'' @ app) = None \<and> in_ns ns r \<and> belongsTo r app then Some r else out (ns @ ''/'' @ app))"
    using Cons.prems by (intro note_newest_apply assms) simp
  then show ?case
    using Cons by (simp split: option.splits)
qed (simp split: option.splits)

lemma find_hd_filter: "find P xs = (case filter P xs of [] \<Rightarrow> None | x # _ \<Rightarrow> Some x)"
  by (induction xs) auto

lemma newestByApplication_newest:
  assumes "app_Name a \<noteq> []" "CHR ''/'' \<notin> set (app_Namespace a)" "\<forall>r \<in> set revs. CHR ''/'' \<notin> set (om_Namespace (rev_Meta r))"
    and "cr_Revisions rd (app_Namespace a) = Inr (filter (in_ns (app_Namespace a)) revs)"
  shows "newestByApplication revs (app_Namespace a @ ''/'' @ app_Name a) = newest_of (revisionsOf rd a)"
proof -
  have "foldl note_newest Map.empty (newestFirst revs) (app_Namespace a @ ''/'' @ app_Name a)
      = find (\<lambda>r. in_ns (app_Namespace a) r \<and> belongsTo r (app_Name a)) (newestFirst revs)"
    using assms(1-3) note_newest_loop [of "app_Name a" "app_Namespace a" "newestFirst revs" Map.empty]
    by (simp add: newestFirst_def)
  also have "\<dots> = newest_of (revisionsOf rd a)"
    unfolding find_hd_filter newestFirst_def latest.filter_sort_by
    by (simp add: revisionsOf_def newest_of_def newestFirst_def assms(4) conj_commute split: list.splits)
  finally show ?thesis by (simp add: newestByApplication_def)
qed

text \<open>The list of Applications and an Application's own page never disagree: where the user may list Revisions
  everywhere, the row of the page is a row of the list, its last change included, although the one finds the
  newest Revision in a single pass over all of them and the other among the Application's own.\<close>

theorem list_and_detail_agree:
  assumes "applications L r rd = Inr rows" and "application_handler L N r' rd = Inr d"
    and "get_param (cq_Query r) ''namespace'' = []" and "cr_Applications rd [] = Inr apps" and "cr_Application rd (cq_ns r') (cq_name r') = Inr ra"
    and "ra \<in> set apps" and "cr_Revisions rd [] = Inr revs"
    and "cr_Revisions rd (app_Namespace (ra_App ra)) = Inr (filter (in_ns (app_Namespace (ra_App ra))) revs)"
    and "app_Name (ra_App ra) \<noteq> []" and "CHR ''/'' \<notin> set (app_Namespace (ra_App ra))"
    and "\<forall>rev \<in> set revs. CHR ''/'' \<notin> set (om_Namespace (rev_Meta rev))"
  shows "ad_Row d \<in> set rows \<and> ad_PlanVisible d"
proof -
  let ?newest = "newest_of (revisionsOf rd (ra_App ra))"
  have d: "d = appDetail L ra ?newest True"
    using assms(2,5,8) by (auto simp: application_handler_def getApplication_def revisionsOf_def Let_def split: if_splits)
  have rows: "rows = map (\<lambda>ra. appRow L ra (newestByApplication revs (app_Namespace (ra_App ra) @ ''/'' @ app_Name (ra_App ra)))) apps"
    using assms(1,3,4,7) by (simp add: applications_def listIn_def Let_def)
  have "appRow L ra ?newest \<in> set rows"
    using assms(6) newestByApplication_newest [OF assms(9-11,8)] by (auto simp: rows intro!: image_eqI [of _ _ ra])
  then show ?thesis
    by (simp add: d appDetail_def Let_def)
qed

subsection \<open>Secrets\<close>

text \<open>C36. The console never reads Secrets and shows no part of one: an Application's resources do not depend on
  anything the cluster would answer for Secrets, listed or as metadata, and rows that are not visible
  carry neither state nor health.\<close>

theorem console_never_reads_secrets:
  assumes "\<And>k ns ls. \<not> isSecretKind k \<Longrightarrow> rd_List rd' k ns ls = rd_List (cr_Objects rd) k ns ls"
    and "\<And>k ns ls. \<not> isSecretKind k \<Longrightarrow> rd_ListMetadata rd' k ns ls = rd_ListMetadata (cr_Objects rd) k ns ls"
  shows "applicationResources L N r (rd\<lparr>cr_Objects := rd'\<rparr>) = applicationResources L N r rd
    \<and> (\<forall>rows row. applicationResources L N r rd = Inr rows \<and> row \<in> set rows \<and> \<not> row_Visible row
         \<longrightarrow> row_Sync row = none_dash \<and> row_Health row = none_dash)"
proof
  have "ListManaged L rd' a console_list_options = ListManaged L (cr_Objects rd) a console_list_options" for a
    unfolding ListManaged_def
    by (rule list_loop_cong) (use assms in \<open>auto simp: console_list_options_def asks_def\<close>)
  moreover have "getApplication N r (rd\<lparr>cr_Objects := rd'\<rparr>) = getApplication N r rd"
    "revisionsOf (rd\<lparr>cr_Objects := rd'\<rparr>) a = revisionsOf rd a" for a
    by (simp_all add: getApplication_def revisionsOf_def)
  ultimately show "applicationResources L N r (rd\<lparr>cr_Objects := rd'\<rparr>) = applicationResources L N r rd"
    by (simp add: applicationResources_def Let_def split: sum.split)
  show "\<forall>rows row. applicationResources L N r rd = Inr rows \<and> row \<in> set rows \<and> \<not> row_Visible row
         \<longrightarrow> row_Sync row = none_dash \<and> row_Health row = none_dash"
    by (auto simp: applicationResources_def Let_def hidden_row_def managed_row_def split: sum.splits prod.splits if_splits)
qed

text \<open>The plan shown for a Revision hides what is sensitive once more, whatever the stored plan says: a
  change of a Secret, a change of a sensitive path and a change marked as redacted is shown as redacted,
  and each of its values is empty, the placeholder, or one that already held the placeholder.\<close>

theorem planView_hides:
  assumes "res \<in> set (plan_Resources (rstatus_Plan (rev_Status r)))" and "c \<in> set (prc_Changes res)"
    and "resource_ref.ref_Kind (prc_Resource res) = ''Secret'' \<or> fc_Redacted c \<or> SensitivePath (fc_Path c)"
  shows "\<exists>v w. v \<in> set (plv_Resources (planView r)) \<and> prv_Ref v = prc_Resource res \<and> w \<in> set (prv_Changes v)
    \<and> chv_Path w = fc_Path c \<and> chv_Redacted w
    \<and> (chv_Before w \<in> {[], Placeholder} \<or> chv_Before w = fc_Before c \<and> Contains (fc_Before c) Placeholder)
    \<and> (chv_After w \<in> {[], Placeholder} \<or> chv_After w = fc_After c \<and> Contains (fc_After c) Placeholder)"
proof -
  let ?w = "changeView (resource_ref.ref_Kind (prc_Resource res)) c"
  have "planResourceView res \<in> set (plv_Resources (planView r))" "prv_Ref (planResourceView res) = prc_Resource res"
      "?w \<in> set (prv_Changes (planResourceView res))"
    using assms(1,2) by (simp_all add: planView_def planResourceView_def Let_def)
  moreover have "chv_Path ?w = fc_Path c" "chv_Redacted ?w" "chv_Before ?w = Value (fc_Before c)" "chv_After ?w = Value (fc_After c)"
    using assms(3) by (simp_all add: changeView_def)
  moreover have "Value x \<in> {[], Placeholder} \<or> Value x = x \<and> Contains x Placeholder" for x
    by (simp add: Value_def)
  ultimately show ?thesis by metis
qed

subsection \<open>Answers need a session\<close>

text \<open>C30. The API answers with data only to a session, and only with what that session's user can read: the request
  carried a cookie sealed under the console's key for an identity that has not expired and keeps the
  rules of its sign-in method, and the answer is what the handler read through the client for
  exactly that identity.\<close>

theorem api_answers_sessions_only:
  assumes "gcm_laws (cl_AEAD C)" and "ap_Body (api_handler C s now newReader deadline h r) = Some out"
  shows "\<exists>a i v nonce plain d rd. srv_auth s = Some a \<and> map_of (cq_Cookies r) SessionCookie = Some v
    \<and> b64_decode v = Some (nonce @ gcm_Seal (cl_AEAD C) (au_key a) nonce plain)
    \<and> cl_UnmarshalSession C plain = Some d \<and> i = session_identity d \<and> now < id_Expiry i
    \<and> (if IsToken i then Reveal (id_Token i) \<noteq> [] \<and> token_user (id_Username i) (id_Groups i)
       else Reveal (id_Token i) = [] \<and> impersonable i)
    \<and> newReader i = Inr rd \<and> h r rd = Inr out"
proof -
  have bodies: "ap_Body (error_reply code e) = None" "ap_Body (writeError s deadline err) = None" for code e err
    by (simp_all add: error_reply_def writeError_def)
  obtain a i rd where i: "srv_auth s = Some a" "Identity C a now r = Some i" "newReader i = Inr rd" "h r rd = Inr out"
    using assms(2) by (auto simp: api_handler_def withIdentity_def bodies split: option.splits if_splits sum.splits)
  have auth: "now < id_Expiry i"
      "if IsToken i then Reveal (id_Token i) \<noteq> [] \<and> token_user (id_Username i) (id_Groups i)
       else Reveal (id_Token i) = [] \<and> impersonable i"
    using session_authentic [OF assms(1) i(2)] by blast+
  obtain v nonce plain d where "map_of (cq_Cookies r) SessionCookie = Some v"
      "b64_decode v = Some (nonce @ gcm_Seal (cl_AEAD C) (au_key a) nonce plain)" "cl_UnmarshalSession C plain = Some d" "i = session_identity d"
    using session_authentic [OF assms(1) i(2)] by blast
  with i auth show ?thesis
    by (intro exI [of _ a] exI [of _ i] exI [of _ v] exI [of _ nonce] exI [of _ plain] exI [of _ d] exI [of _ rd] conjI)
qed

subsection \<open>A concrete cluster\<close>

definition shop_read :: read_application where
  "shop_read = \<lparr>ra_App = named_application ''team'' ''shop'', ra_Transitions = []\<rparr>"

definition shop_rev :: "string \<Rightarrow> time \<Rightarrow> revision" where
  "shop_rev name t = (let r = named_revision ''team'' name in
     r\<lparr>rev_Meta := (rev_Meta r)\<lparr>om_CreationTimestamp := t\<rparr>, rev_Spec := (rev_Spec r)\<lparr>rspec_ApplicationRef := ''shop''\<rparr>\<rparr>)"

definition shop_revs :: "revision list" where
  "shop_revs = [shop_rev ''shop-1'' 10, shop_rev ''shop-2'' 20]"

definition shop_objects :: "unstructured list \<Rightarrow> reader" where
  "shop_objects secrets = \<lparr>rd_List = (\<lambda>k ns ls. if isSecretKind k then Inr secrets else Inr []), rd_ListMetadata = (\<lambda>k ns ls. Inr [])\<rparr>"

definition shop_reader :: console_reader where
  "shop_reader = \<lparr>cr_Namespaces = Inr [''team''], cr_Applications = (\<lambda>ns. Inr [shop_read]), cr_Application = (\<lambda>ns name. Inr shop_read),
     cr_Revisions = (\<lambda>ns. Inr shop_revs), cr_Repositories = (\<lambda>ns. Inr []), cr_ImagePolicies = (\<lambda>ns. Inr []), cr_Objects = shop_objects []\<rparr>"

definition any_name :: name_lib where
  "any_name = \<lparr>nl_Label = (\<lambda>s. True), nl_Subdomain = (\<lambda>s. True)\<rparr>"

definition get_shop :: console_request where
  "get_shop = \<lparr>cq_Path = ''/api/applications/team/shop'', cq_Query = [], cq_Cookies = [], cq_Form = None, cq_ns = ''team'', cq_name = ''shop''\<rparr>"

lemmas shop_defs = shop_read_def shop_rev_def shop_revs_def shop_reader_def any_name_def get_shop_def zero_values

theorem list_and_detail_agree_witness:
  "ad_Row (appDetail std_lib shop_read (newest_of (revisionsOf shop_reader (ra_App shop_read))) True)
      \<in> set [appRow std_lib shop_read (newestByApplication shop_revs ''team/shop'')]
    \<and> ad_PlanVisible (appDetail std_lib shop_read (newest_of (revisionsOf shop_reader (ra_App shop_read))) True)"
proof (rule list_and_detail_agree)
  show "applications std_lib get_shop shop_reader = Inr [appRow std_lib shop_read (newestByApplication shop_revs ''team/shop'')]"
    by (simp add: applications_def listIn_def get_shop_def get_param_def shop_reader_def) (simp add: shop_defs)
  show "application_handler std_lib any_name get_shop shop_reader
      = Inr (appDetail std_lib shop_read (newest_of (revisionsOf shop_reader (ra_App shop_read))) True)"
    by (simp add: application_handler_def getApplication_def any_name_def revisionsOf_def shop_reader_def Let_def)
  show "cr_Applications shop_reader [] = Inr [shop_read]" "cr_Application shop_reader (cq_ns get_shop) (cq_name get_shop) = Inr shop_read"
      "cr_Revisions shop_reader [] = Inr shop_revs" "get_param (cq_Query get_shop) ''namespace'' = []" "shop_read \<in> set [shop_read]"
    by (simp_all add: shop_reader_def get_shop_def get_param_def)
  show "cr_Revisions shop_reader (app_Namespace (ra_App shop_read)) = Inr (filter (in_ns (app_Namespace (ra_App shop_read))) shop_revs)"
    by (simp add: in_ns_def shop_defs)
qed (simp_all add: shop_defs)

theorem console_never_reads_secrets_witness:
  "applicationResources std_lib any_name get_shop (shop_reader\<lparr>cr_Objects := shop_objects [\<lparr>Object = []\<rparr>]\<rparr>)
      = applicationResources std_lib any_name get_shop shop_reader
    \<and> (case applicationResources std_lib any_name get_shop shop_reader of
         Inl err \<Rightarrow> True
       | Inr rows \<Rightarrow> list_all (\<lambda>row. row_Visible row \<or> row_Sync row = none_dash \<and> row_Health row = none_dash) rows)"
proof -
  have "applicationResources std_lib any_name get_shop (shop_reader\<lparr>cr_Objects := shop_objects [\<lparr>Object = []\<rparr>]\<rparr>)
      = applicationResources std_lib any_name get_shop shop_reader
    \<and> (\<forall>rows row. applicationResources std_lib any_name get_shop shop_reader = Inr rows \<and> row \<in> set rows \<and> \<not> row_Visible row
         \<longrightarrow> row_Sync row = none_dash \<and> row_Health row = none_dash)"
    by (rule console_never_reads_secrets) (simp_all add: shop_objects_def shop_reader_def)
  then show ?thesis
    by (auto simp: list_all_iff split: sum.split)
qed

definition password_change :: plan_field_change where
  "password_change = \<lparr>fc_Path = ''data.password'', fc_Before = ''old'', fc_After = ''new'', fc_Redacted = False\<rparr>"

definition secret_change :: plan_resource_change where
  "secret_change = \<lparr>prc_Resource = \<lparr>ref_APIVersion = ''v1'', ref_Kind = ''Secret'', ref_Namespace = ''team'', ref_Name = ''db''\<rparr>,
     prc_Action = PlanActionUpdate, prc_Destructive = False, prc_Changes = [password_change], prc_Conflicts = [], prc_Warnings = []\<rparr>"

definition secret_revision :: revision where
  "secret_revision = upd_rstatus (\<lambda>st. st\<lparr>rstatus_Plan := zero_plan\<lparr>plan_Resources := [secret_change]\<rparr>\<rparr>) (named_revision ''team'' ''shop-1'')"

theorem planView_hides_witness:
  "\<exists>v w. v \<in> set (plv_Resources (planView secret_revision)) \<and> prv_Ref v = prc_Resource secret_change \<and> w \<in> set (prv_Changes v)
    \<and> chv_Path w = fc_Path password_change \<and> chv_Redacted w
    \<and> (chv_Before w \<in> {[], Placeholder} \<or> chv_Before w = fc_Before password_change \<and> Contains (fc_Before password_change) Placeholder)
    \<and> (chv_After w \<in> {[], Placeholder} \<or> chv_After w = fc_After password_change \<and> Contains (fc_After password_change) Placeholder)"
  by (rule planView_hides) (simp_all add: secret_revision_def secret_change_def)

definition shop_server :: "unit server" where
  "shop_server = \<lparr>srv_cfg = sample_config, srv_auth = Some sample_auth, srv_impersonation = ''granted''\<rparr>"

definition alice_request :: console_request where
  "alice_request = with_cookie SessionCookie (sealed_line alice_line) []"

theorem api_answers_sessions_only_witness:
  "\<exists>a i v nonce plain d rd. srv_auth shop_server = Some a \<and> map_of (cq_Cookies alice_request) SessionCookie = Some v
    \<and> b64_decode v = Some (nonce @ gcm_Seal (cl_AEAD sample_console) (au_key a) nonce plain)
    \<and> cl_UnmarshalSession sample_console plain = Some d \<and> i = session_identity d \<and> 2000 < id_Expiry i
    \<and> (if IsToken i then Reveal (id_Token i) \<noteq> [] \<and> token_user (id_Username i) (id_Groups i)
       else Reveal (id_Token i) = [] \<and> impersonable i)
    \<and> Inr shop_reader = (Inr rd :: string + console_reader) \<and> namespaces alice_request rd = Inr [''team'']"
proof (rule api_answers_sessions_only [OF sample_gcm])
  show "ap_Body (api_handler sample_console shop_server 2000 (\<lambda>i. Inr shop_reader) False namespaces alice_request) = Some [''team'']"
    using IdentityD(3) [OF alice_signed_in] alice_signed_in
    by (simp add: api_handler_def withIdentity_def shop_server_def alice_request_def namespaces_def shop_reader_def)
qed

end
