(* ===== verification/File_System.thy ===== *)
theory File_System
  imports Paths
begin

text \<open>
  The file system the Git cache works on: directories, files and symbolic links in one tree, the
  kernel's resolution of a path (\<open>path_walk\<close>, at most 40 links followed), and the functions of Go's
  \<open>os\<close> package the cache calls. A location is the list of elements below the root of the file
  system. A call may also fail for a reason outside the tree (permissions, a full disk); which
  calls do is \<open>oe_fault\<close> of the environment, and such a call leaves the disk as it was. Permission
  bits are stored and not enforced.
\<close>

subsection \<open>Locations and nodes\<close>

type_synonym loc = "string list"

datatype fnode = FDir | FFile int string | FLink string \<comment> \<open>a file has permission bits and contents\<close>

type_synonym nodes = "loc \<rightharpoonup> fnode"

record disk =
  dk_nodes :: "(loc \<times> fnode) list"
  dk_mtime :: "loc \<Rightarrow> int"
  dk_cwd :: loc

definition disk_node :: "disk \<Rightarrow> nodes" where
  "disk_node d = map_of (dk_nodes d)"

datatype errno = ENOENT | ENOTDIR | EEXIST | ELOOP | EINVAL | EOTHER string

fun errno_text :: "errno \<Rightarrow> string" where
  "errno_text ENOENT = ''no such file or directory''"
| "errno_text ENOTDIR = ''not a directory''"
| "errno_text EEXIST = ''file exists''"
| "errno_text ELOOP = ''too many levels of symbolic links''"
| "errno_text EINVAL = ''invalid argument''"
| "errno_text (EOTHER m) = m"

datatype syscall = SStat | SLstat | SReadlink | SMkdir | SSymlink | SOpen | SWrite | SClose | SRemove | SRename | SReadDir | SChtimes

record os_env =
  oe_fault :: "syscall \<Rightarrow> string \<Rightarrow> string option"
  oe_now :: int
  oe_random :: "nat \<Rightarrow> nat"

subsection \<open>Path resolution\<close>

definition maxLinks :: nat where
  "maxLinks = 40"

text \<open>\<open>path_walk g follow left cur pending\<close> resolves the elements \<open>pending\<close> from \<open>cur\<close>, with \<open>left\<close> links
  still allowed; the last element is not followed unless \<open>follow\<close>. It gives the location reached and
  the links left.\<close>

function path_walk :: "nodes \<Rightarrow> bool \<Rightarrow> nat \<Rightarrow> loc \<Rightarrow> string list \<Rightarrow> errno + loc \<times> nat" where
  "path_walk g follow left cur [] = Inr (cur, left)"
| "path_walk g follow left cur (name # rest) =
     (if g cur \<noteq> Some FDir then Inl ENOTDIR
      else if name = [] \<or> name = ''.'' then path_walk g follow left cur rest
      else if name = ''..'' then path_walk g follow left (butlast cur) rest
      else
        (case g (cur @ [name]) of
           None \<Rightarrow> Inl ENOENT
         | Some (FLink target) \<Rightarrow>
             if \<not> follow \<and> rest = [] then Inr (cur @ [name], left)
             else if left = 0 then Inl ELOOP
             else if target = [] then Inl ENOENT
             else path_walk g follow (left - 1) (if IsAbs target then [] else cur) (Split slash target @ rest)
         | Some _ \<Rightarrow> path_walk g follow left (cur @ [name]) rest))"
  by pat_completeness auto
termination
  by (relation "measures [\<lambda>(g, follow, left, cur, pending). left, \<lambda>(g, follow, left, cur, pending). length pending]") auto

definition start_at :: "disk \<Rightarrow> string \<Rightarrow> loc" where
  "start_at d path = (if IsAbs path then [] else dk_cwd d)"

definition namei :: "disk \<Rightarrow> bool \<Rightarrow> string \<Rightarrow> errno + loc" where
  "namei d follow path =
     (if path = [] then Inl ENOENT
      else map_sum id fst (path_walk (disk_node d) follow maxLinks (start_at d path) (Split slash path)))"

definition checked :: "os_env \<Rightarrow> syscall \<Rightarrow> string \<Rightarrow> errno + 'a \<Rightarrow> errno + 'a" where
  "checked E call path r = (case oe_fault E call path of Some m \<Rightarrow> Inl (EOTHER m) | None \<Rightarrow> r)"

definition info_at :: "disk \<Rightarrow> errno + loc \<Rightarrow> errno + fnode \<times> int" where
  "info_at d r =
     (case r of
        Inl e \<Rightarrow> Inl e
      | Inr p \<Rightarrow> (case disk_node d p of None \<Rightarrow> Inl ENOENT | Some n \<Rightarrow> Inr (n, dk_mtime d p)))"

definition Stat :: "os_env \<Rightarrow> disk \<Rightarrow> string \<Rightarrow> errno + fnode \<times> int" where
  "Stat E d path = checked E SStat path (info_at d (namei d True path))"

definition Lstat :: "os_env \<Rightarrow> disk \<Rightarrow> string \<Rightarrow> errno + fnode \<times> int" where
  "Lstat E d path = checked E SLstat path (info_at d (namei d False path))"

definition Readlink :: "os_env \<Rightarrow> disk \<Rightarrow> string \<Rightarrow> errno + string" where
  "Readlink E d path = checked E SReadlink path
     (case info_at d (namei d False path) of
        Inl e \<Rightarrow> Inl e
      | Inr (FLink target, _) \<Rightarrow> Inr target
      | Inr _ \<Rightarrow> Inl EINVAL)"

subsection \<open>Changes\<close>

text \<open>Where a new entry goes: the directory its parent path leads to, and its name.\<close>

definition entry_place :: "disk \<Rightarrow> string \<Rightarrow> errno + loc \<times> string" where
  "entry_place d path =
     (let es = Split slash path in
      case path_walk (disk_node d) True maxLinks (start_at d path) (butlast es) of
        Inl e \<Rightarrow> Inl e
      | Inr (p, _) \<Rightarrow>
          if disk_node d p \<noteq> Some FDir then Inl ENOTDIR
          else if last es \<in> set [[], ''.'', ''..''] then Inl EEXIST
          else Inr (p, last es))"

definition set_node :: "loc \<Rightarrow> fnode \<Rightarrow> disk \<Rightarrow> disk" where
  "set_node p n d = d\<lparr>dk_nodes := (p, n) # filter (\<lambda>e. fst e \<noteq> p) (dk_nodes d)\<rparr>"

definition set_mtime :: "loc \<Rightarrow> int \<Rightarrow> disk \<Rightarrow> disk" where
  "set_mtime p t d = d\<lparr>dk_mtime := (dk_mtime d)(p := t)\<rparr>"

definition add_entry :: "os_env \<Rightarrow> syscall \<Rightarrow> fnode \<Rightarrow> string \<Rightarrow> disk \<Rightarrow> disk \<times> (errno + loc)" where
  "add_entry E call n path d =
     (case checked E call path (entry_place d path) of
        Inl e \<Rightarrow> (d, Inl e)
      | Inr (p, name) \<Rightarrow>
          if disk_node d (p @ [name]) \<noteq> None then (d, Inl EEXIST)
          else (set_mtime p (oe_now E) (set_mtime (p @ [name]) (oe_now E) (set_node (p @ [name]) n d)), Inr (p @ [name])))"

definition Mkdir :: "os_env \<Rightarrow> string \<Rightarrow> disk \<Rightarrow> disk \<times> (errno + loc)" where
  "Mkdir E path d = add_entry E SMkdir FDir path d"

definition Symlink :: "os_env \<Rightarrow> string \<Rightarrow> string \<Rightarrow> disk \<Rightarrow> disk \<times> (errno + loc)" where
  "Symlink E target path d = (if target = [] then (d, Inl ENOENT) else add_entry E SSymlink (FLink target) path d)"

text \<open>\<open>os.OpenFile\<close> with \<open>O_CREATE|O_EXCL|O_WRONLY\<close>: a link at the path is an entry like any other.\<close>

definition OpenExcl :: "os_env \<Rightarrow> string \<Rightarrow> int \<Rightarrow> disk \<Rightarrow> disk \<times> (errno + loc)" where
  "OpenExcl E path perm d = add_entry E SOpen (FFile perm []) path d"

definition path_of :: "bool \<Rightarrow> loc \<Rightarrow> string" where
  "path_of rooted ps = (if rooted then slash # Join ''/'' ps else Join ''/'' ps)"

definition mkdir_last :: "os_env \<Rightarrow> string \<Rightarrow> disk \<Rightarrow> disk \<times> errno option" where
  "mkdir_last E path d =
     (case Mkdir E path d of
        (d', Inr _) \<Rightarrow> (d', None)
      | (d', Inl e) \<Rightarrow> (d', (case Lstat E d' path of Inr (FDir, _) \<Rightarrow> None | _ \<Rightarrow> Some e)))"

fun mkdir_all :: "os_env \<Rightarrow> bool \<Rightarrow> string list \<Rightarrow> disk \<Rightarrow> disk \<times> errno option" where
  "mkdir_all E rooted [] d =
     (case Stat E d (path_of rooted []) of
        Inr (FDir, _) \<Rightarrow> (d, None)
      | Inr _ \<Rightarrow> (d, Some ENOTDIR)
      | Inl _ \<Rightarrow> mkdir_last E (path_of rooted []) d)"
| "mkdir_all E rooted (name # upper) d =
     (let path = path_of rooted (List.rev (name # upper)) in
      case Stat E d path of
        Inr (FDir, _) \<Rightarrow> (d, None)
      | Inr _ \<Rightarrow> (d, Some ENOTDIR)
      | Inl _ \<Rightarrow>
          (case (if rooted \<or> upper \<noteq> [] then mkdir_all E rooted upper d else (d, None)) of
             (d', Some e) \<Rightarrow> (d', Some e)
           | (d', None) \<Rightarrow> mkdir_last E path d'))"

definition MkdirAll :: "os_env \<Rightarrow> string \<Rightarrow> disk \<Rightarrow> disk \<times> errno option" where
  "MkdirAll E path d = mkdir_all E (IsAbs path) (List.rev (parts path)) d"

text \<open>\<open>os.MkdirTemp\<close>: a new directory named by the pattern with its star replaced by a random number,
  tried up to 10000 times.\<close>

function mkdir_temp :: "os_env \<Rightarrow> string \<Rightarrow> nat \<Rightarrow> disk \<Rightarrow> disk \<times> (errno + string)" where
  "mkdir_temp E stem attempt d =
     (let path = stem @ digits_of (oe_random E attempt) in
      case Mkdir E path d of
        (d', Inr _) \<Rightarrow> (d', Inr path)
      | (d', Inl EEXIST) \<Rightarrow> if attempt + 1 < 10000 then mkdir_temp E stem (attempt + 1) d' else (d', Inl EEXIST)
      | (d', Inl e) \<Rightarrow> (d', Inl e))"
  by pat_completeness auto
termination
  by (relation "measure (\<lambda>(E, stem, attempt, d). 10000 - attempt)") auto

declare mkdir_temp.simps [simp del]

definition MkdirTemp :: "os_env \<Rightarrow> string \<Rightarrow> string \<Rightarrow> disk \<Rightarrow> disk \<times> (errno + string)" where
  "MkdirTemp E dir stem d =
     (if slash \<in> set stem then (d, Inl (EOTHER ''pattern contains path separator''))
      else mkdir_temp E (dir @ (if HasSuffix dir ''/'' then [] else ''/'') @ stem) 0 d)"

definition drop_tree :: "loc \<Rightarrow> disk \<Rightarrow> disk" where
  "drop_tree p d = d\<lparr>dk_nodes := filter (\<lambda>e. \<not> prefix p (fst e)) (dk_nodes d)\<rparr>"

text \<open>\<open>os.RemoveAll\<close>: what the path names and everything below it; a link is removed, not followed.\<close>

definition RemoveAll :: "os_env \<Rightarrow> string \<Rightarrow> disk \<Rightarrow> disk \<times> errno option" where
  "RemoveAll E path d =
     (case checked E SRemove path (entry_place d path) of
        Inl ENOENT \<Rightarrow> (d, None)
      | Inl e \<Rightarrow> (d, Some e)
      | Inr (p, name) \<Rightarrow>
          if disk_node d (p @ [name]) = None then (d, None)
          else (set_mtime p (oe_now E) (drop_tree (p @ [name]) d), None))"

definition relocate :: "loc \<Rightarrow> loc \<Rightarrow> loc \<Rightarrow> loc" where
  "relocate from_loc to_loc p = (if prefix from_loc p then to_loc @ drop (length from_loc) p else p)"

definition move_tree :: "loc \<Rightarrow> loc \<Rightarrow> disk \<Rightarrow> disk" where
  "move_tree from_loc to_loc d =
     d\<lparr>dk_nodes := map (\<lambda>e. (relocate from_loc to_loc (fst e), snd e)) (dk_nodes (drop_tree to_loc d)),
       dk_mtime := (\<lambda>p. dk_mtime d (relocate to_loc from_loc p))\<rparr>"

definition has_entries :: "disk \<Rightarrow> loc \<Rightarrow> bool" where
  "has_entries d p = list_ex (\<lambda>e. strict_prefix p (fst e)) (dk_nodes d)"

definition Rename :: "os_env \<Rightarrow> string \<Rightarrow> string \<Rightarrow> disk \<Rightarrow> disk \<times> errno option" where
  "Rename E oldpath newpath d =
     (case checked E SRename oldpath (entry_place d oldpath) of
        Inl e \<Rightarrow> (d, Some e)
      | Inr (p, name) \<Rightarrow>
          (case entry_place d newpath of
             Inl e \<Rightarrow> (d, Some e)
           | Inr (q, name') \<Rightarrow>
               if disk_node d (p @ [name]) = None then (d, Some ENOENT)
               else if prefix (p @ [name]) (q @ [name']) then (d, Some EINVAL)
               else if prefix (q @ [name']) (p @ [name]) then (d, Some EEXIST)
               else if disk_node d (q @ [name']) \<noteq> None \<and>
                       \<not> (disk_node d (q @ [name']) = Some FDir \<and> disk_node d (p @ [name]) = Some FDir \<and> \<not> has_entries d (q @ [name']))
               then (d, Some EEXIST)
               else (set_mtime p (oe_now E) (set_mtime q (oe_now E) (move_tree (p @ [name]) (q @ [name']) d)), None)))"

text \<open>\<open>os.ReadDir\<close>: the entries of a directory, sorted by name, with what each one is.\<close>

definition entry_names :: "disk \<Rightarrow> loc \<Rightarrow> string list" where
  "entry_names d p =
     sort (remdups (map (\<lambda>e. last (fst e)) (filter (\<lambda>e. fst e \<noteq> [] \<and> butlast (fst e) = p) (dk_nodes d))))"

definition ReadDir :: "os_env \<Rightarrow> disk \<Rightarrow> string \<Rightarrow> errno + (string \<times> fnode option) list" where
  "ReadDir E d path = checked E SReadDir path
     (case namei d True path of
        Inl e \<Rightarrow> Inl e
      | Inr p \<Rightarrow>
          (case disk_node d p of
             None \<Rightarrow> Inl ENOENT
           | Some FDir \<Rightarrow> Inr (map (\<lambda>n. (n, disk_node d (p @ [n]))) (entry_names d p))
           | Some _ \<Rightarrow> Inl ENOTDIR))"

definition Chtimes :: "os_env \<Rightarrow> string \<Rightarrow> int \<Rightarrow> disk \<Rightarrow> disk \<times> errno option" where
  "Chtimes E path t d =
     (case checked E SChtimes path (namei d True path) of
        Inl e \<Rightarrow> (d, Some e)
      | Inr p \<Rightarrow> if disk_node d p = None then (d, Some ENOENT) else (set_mtime p t d, None))"

subsection \<open>Absolute paths\<close>

definition names :: "loc \<Rightarrow> bool" where
  "names ps \<longleftrightarrow> plain ps \<and> ''..'' \<notin> set ps"

lemma names_simps [simp]:
  "names []" "names (p # ps) \<longleftrightarrow> p \<noteq> [] \<and> p \<noteq> ''.'' \<and> slash \<notin> set p \<and> p \<noteq> ''..'' \<and> names ps"
  "names (ps @ qs) \<longleftrightarrow> names ps \<and> names qs" "names (List.rev ps) \<longleftrightarrow> names ps"
  by (auto simp: names_def)

lemma names_butlast [simp]: "names ps \<Longrightarrow> names (butlast ps)"
  by (metis append_butlast_last_id butlast.simps(1) names_simps(3))

lemma path_of_absolute [simp]: "IsAbs (path_of True ps)"
  by (simp add: path_of_def IsAbs_def)

lemma path_of_not_empty [simp]: "path_of True ps \<noteq> []"
  by (simp add: path_of_def)

lemma Split_path_of: "names ps \<Longrightarrow> Split slash (path_of True ps) = [] # (if ps = [] then [[]] else ps)"
  by (auto simp: path_of_def names_def Split_Join)

lemma parts_path_of [simp]: "names ps \<Longrightarrow> parts (path_of True ps) = ps"
  using clean_parts_id [of ps True "[]"] by (auto simp: parts_def Split_path_of names_def)

lemma Clean_path_of: "IsAbs s \<Longrightarrow> Clean s = path_of True (parts s)"
  by (simp add: Clean_def path_of_def Let_def)

lemma names_parts: "IsAbs s \<Longrightarrow> names (parts s)"
  by (simp add: names_def parts_plain parts_absolute)

lemma path_of_eq [simp]: "names ps \<Longrightarrow> names qs \<Longrightarrow> path_of True ps = path_of True qs \<longleftrightarrow> ps = qs"
  by (metis parts_path_of)

lemma IsAbs_append [simp]: "IsAbs a \<Longrightarrow> IsAbs (a @ b)"
  by (cases a) (auto simp: IsAbs_def)

lemma parts_append_slash: "IsAbs a \<Longrightarrow> parts (a @ slash # s) = clean_parts True (List.rev (parts a)) (Split slash s)"
  by (simp add: parts_def Split_append_all clean_parts_append)

lemma JoinPath_path_of:
  assumes "names ps"
  shows "JoinPath (path_of True ps) s = path_of True (clean_parts True (List.rev ps) (Split slash s))"
  using assms by (cases "s = []") (simp_all add: JoinPath_def Clean_path_of parts_append_slash)

lemma JoinPath_name [simp]:
  assumes "names ps" "names [n]"
  shows "JoinPath (path_of True ps) n = path_of True (ps @ [n])"
proof -
  have "Split slash n = [n]"
    using assms(2) by (simp add: Split_snoc)
  then show ?thesis
    using assms clean_parts_id [of "[n]" True "List.rev ps"] by (simp add: JoinPath_path_of)
qed

lemma names_clean_parts: "names ps \<Longrightarrow> names (clean_parts True (List.rev ps) (Split slash s))"
  unfolding names_def using clean_parts_plain [of "Split slash s" "List.rev ps" True] clean_parts_rooted [of "List.rev ps"]
  by (auto dest: Split_no_sep)

lemma DirOf_path_of [simp]:
  assumes "names (ps @ [n])"
  shows "DirOf (path_of True (ps @ [n])) = path_of True ps"
proof -
  have "butlast (Split slash (path_of True (ps @ [n]))) = [] # ps"
    using assms by (simp add: Split_path_of)
  moreover have "slash \<in> set (path_of True (ps @ [n]))"
    by (simp add: path_of_def)
  ultimately have "DirOf (path_of True (ps @ [n])) = Clean (Join ''/'' ([] # ps) @ ''/'')"
    by (simp add: DirOf_def)
  moreover have "Join ''/'' ([] # ps) @ ''/'' = (if ps = [] then ''/'' else path_of True ps @ slash # [])"
    by (cases ps) (auto simp: path_of_def)
  moreover have "parts (path_of True ps @ slash # []) = ps"
    using assms by (simp add: parts_append_slash)
  moreover have "Clean ''/'' = path_of True []"
    by (simp add: Clean_def parts_def IsAbs_def path_of_def)
  ultimately show ?thesis
    by (auto simp: Clean_path_of)
qed

lemma strip_common_append [simp]: "strip_common ps (ps @ qs) = ([], qs)"
  by (induction ps) (auto split: list.splits)

lemma Rel_path_of:
  assumes "names (ps @ qs)"
  shows "Rel (path_of True ps) (path_of True (ps @ qs)) = Some (if qs = [] then ''.'' else Join ''/'' qs)"
  using assms by (auto simp: Rel_def Clean_path_of Let_def)

text \<open>A path that is local relative to a directory lies below it.\<close>

lemma Rel_local_below:
  assumes "names ps" "names qs" "Rel (path_of True ps) (path_of True qs) = Some rel" "IsLocal rel"
  shows "\<exists>rest. qs = ps @ rest"
proof (cases "ps = qs")
  case False
  obtain up down where sc: "strip_common ps qs = (up, down)"
    by fastforce
  then obtain zs where zs: "ps = zs @ up" "qs = zs @ down"
    using strip_common by blast
  have "rel = Join ''/'' (replicate (length up) ''..'' @ down)"
    using assms(1-3) False sc by (auto simp: Rel_def Clean_path_of Let_def split: if_splits)
  then have "up = []"
    using climbing_not_local [of "length up" down] assms(2,4) zs by (auto simp: names_def)
  then show ?thesis
    using zs by auto
qed auto

subsection \<open>Well-formed trees\<close>

definition tree :: "nodes \<Rightarrow> bool" where
  "tree g \<longleftrightarrow> g [] = Some FDir \<and> (\<forall>p. g p \<noteq> None \<longrightarrow> names p) \<and> (\<forall>p n. g (p @ [n]) \<noteq> None \<longrightarrow> g p = Some FDir)"

lemma tree_root [simp]: "tree g \<Longrightarrow> g [] = Some FDir"
  by (simp add: tree_def)

lemma tree_names: "tree g \<Longrightarrow> g p = Some n \<Longrightarrow> names p"
  by (auto simp: tree_def)

lemma tree_parent: "tree g \<Longrightarrow> g (p @ [n]) = Some m \<Longrightarrow> g p = Some FDir"
  by (auto simp: tree_def)

lemma tree_prefix: "tree g \<Longrightarrow> g (p @ q) = Some n \<Longrightarrow> q \<noteq> [] \<Longrightarrow> g p = Some FDir"
proof (induction q arbitrary: n rule: rev_induct)
  case (snoc x q)
  then have "g (p @ q) = Some FDir"
    using tree_parent [of g "p @ q" x] by simp
  then show ?case
    using snoc by (cases "q = []") auto
qed simp

lemma tree_butlast: "tree g \<Longrightarrow> g p = Some n \<Longrightarrow> g (butlast p) = Some FDir"
  using tree_parent [of g "butlast p" "last p" n] by (cases "p = []") auto

text \<open>A disk_node entered below an existing directory, where nothing was, keeps the tree well formed.\<close>

lemma tree_insert:
  assumes "tree g" "g p = Some FDir" "names [n]" "g (p @ [n]) = None"
  shows "tree (g(p @ [n] \<mapsto> m))"
  unfolding tree_def
proof (intro conjI allI impI)
  show "(g(p @ [n] \<mapsto> m)) [] = Some FDir"
    using assms(1) by simp
next
  fix q
  assume "(g(p @ [n] \<mapsto> m)) q \<noteq> None"
  then show "names q"
    using assms(1,3) tree_names [OF assms(1,2)] by (cases "q = p @ [n]") (auto simp: tree_def)
next
  fix q k
  assume "(g(p @ [n] \<mapsto> m)) (q @ [k]) \<noteq> None"
  then have "g q = Some FDir"
    using assms(1,2) by (cases "q = p \<and> k = n") (auto simp: tree_def)
  then show "(g(p @ [n] \<mapsto> m)) q = Some FDir"
    using assms(4) by (cases "q = p @ [n]") auto
qed

subsection \<open>The walk\<close>

lemma walk_names:
  "names (name # rest) \<Longrightarrow> path_walk g follow left cur (name # rest) =
     (if g cur \<noteq> Some FDir then Inl ENOTDIR
      else
        (case g (cur @ [name]) of
           None \<Rightarrow> Inl ENOENT
         | Some (FLink target) \<Rightarrow>
             if \<not> follow \<and> rest = [] then Inr (cur @ [name], left)
             else if left = 0 then Inl ELOOP
             else if target = [] then Inl ENOENT
             else path_walk g follow (left - 1) (if IsAbs target then [] else cur) (Split slash target @ rest)
         | Some _ \<Rightarrow> path_walk g follow left (cur @ [name]) rest))"
  by simp

lemma walk_real:
  assumes "tree g" "names ps" "g (cur @ ps) = Some n" "\<forall>t. n \<noteq> FLink t"
  shows "path_walk g follow left cur (ps @ rest) = path_walk g follow left (cur @ ps) rest"
  using assms
proof (induction ps arbitrary: cur)
  case (Cons p ps)
  have dir: "g cur = Some FDir"
    using tree_prefix [OF Cons.prems(1,3)] by simp
  moreover obtain m where m: "g (cur @ [p]) = Some m" "\<forall>t. m \<noteq> FLink t"
    using tree_prefix [OF Cons.prems(1), of "cur @ [p]" ps n] Cons.prems by (cases "ps = []") auto
  ultimately show ?case
    using Cons by (cases m) auto
qed simp

lemma walk_entry:
  assumes "tree g" "names (ps @ [n])" "g (cur @ ps @ [n]) = Some m" "follow \<longrightarrow> (\<forall>t. m \<noteq> FLink t)"
  shows "path_walk g follow left cur (ps @ [n]) = Inr (cur @ ps @ [n], left)"
proof -
  have dir: "g (cur @ ps) = Some FDir"
    using tree_parent [OF assms(1), of "cur @ ps" n m] assms(3) by simp
  then show ?thesis
    using assms walk_real [OF assms(1) _ dir, of follow left "[n]"] by (cases m) (auto simp: names_def)
qed

lemma walk_missing:
  assumes "tree g" "names (ps @ [n])" "g (cur @ ps) = Some m" "\<forall>t. m \<noteq> FLink t" "g (cur @ ps @ [n]) = None"
  shows "path_walk g follow left cur (ps @ [n]) = Inl (if m = FDir then ENOENT else ENOTDIR)"
  using assms walk_real [OF assms(1) _ assms(3,4), of follow left "[n]"] by (auto simp: names_def)

text \<open>Resolution composes: what stands before the rest of a path is followed to its end first.\<close>

lemma walk_append:
  assumes "follow \<or> ys \<noteq> []"
  shows "path_walk g follow left cur (xs @ ys) =
     (case path_walk g True left cur xs of Inl e \<Rightarrow> Inl e | Inr (c, k) \<Rightarrow> path_walk g follow k c ys)"
proof (induction g True left cur xs rule: path_walk.induct)
  case (2 g left cur name rest)
  have last_one: "\<not> (\<not> follow \<and> rest @ ys = [])"
    using assms by auto
  show ?case
  proof (cases "g cur = Some FDir \<and> name \<noteq> [] \<and> name \<noteq> ''.'' \<and> name \<noteq> ''..''")
    case True
    show ?thesis
    proof (cases "g (cur @ [name])")
      case (Some m)
      then show ?thesis
        using 2 True last_one by (cases m; cases "rest = []"; cases "ys = []"; cases follow) simp_all
    qed (use True in simp)
  next
    case False
    then show ?thesis
      using 2 by auto
  qed
qed simp

text \<open>The ways a walk that succeeds takes its next step.\<close>

lemma walk_step:
  assumes "path_walk g follow left cur (name # rest) = Inr r"
  obtains (Stay) "name = [] \<or> name = ''.''" "g cur = Some FDir" "path_walk g follow left cur rest = Inr r"
  | (Up) "name = ''..''" "g cur = Some FDir" "path_walk g follow left (butlast cur) rest = Inr r"
  | (Link) t where "g cur = Some FDir" "g (cur @ [name]) = Some (FLink t)" "\<not> follow" "rest = []" "r = (cur @ [name], left)"
      "name \<noteq> []" "name \<noteq> ''.''" "name \<noteq> ''..''"
  | (Follow) t where "g cur = Some FDir" "g (cur @ [name]) = Some (FLink t)" "follow \<or> rest \<noteq> []" "left > 0" "t \<noteq> []"
      "name \<noteq> []" "name \<noteq> ''.''" "name \<noteq> ''..''"
      "path_walk g follow (left - 1) (if IsAbs t then [] else cur) (Split slash t @ rest) = Inr r"
  | (Enter) m where "g cur = Some FDir" "g (cur @ [name]) = Some m" "\<forall>t. m \<noteq> FLink t"
      "name \<noteq> []" "name \<noteq> ''.''" "name \<noteq> ''..''" "path_walk g follow left (cur @ [name]) rest = Inr r"
proof (cases "name = [] \<or> name = ''.'' \<or> name = ''..''")
  case True
  then show ?thesis
    using assms Stay Up by (auto split: if_splits)
next
  case False
  then obtain m where m: "g cur = Some FDir" "g (cur @ [name]) = Some m"
    using assms by (cases "g (cur @ [name])") (auto split: if_splits)
  show ?thesis
  proof (cases m)
    case (FLink t)
    show ?thesis
    proof (cases "\<not> follow \<and> rest = []")
      case True
      then show ?thesis
        using assms False m FLink Link by simp
    next
      case nf: False
      then have "left > 0 \<and> t \<noteq> [] \<and> path_walk g follow (left - 1) (if IsAbs t then [] else cur) (Split slash t @ rest) = Inr r"
        using assms False m FLink by (simp split: if_splits)
      then show ?thesis
        using Follow [of t] False m FLink nf by blast
    qed
  qed (use assms False m Enter in simp_all)
qed

text \<open>Induction along a walk that succeeds.\<close>

lemma walk_induct [consumes 1, case_names End Stay Up Link Follow Enter]:
  assumes "path_walk g follow left cur ps = Inr r"
    and "\<And>left cur. r = (cur, left) \<Longrightarrow> P left cur []"
    and "\<And>left cur name rest. name = [] \<or> name = ''.'' \<Longrightarrow> g cur = Some FDir \<Longrightarrow> P left cur rest \<Longrightarrow> P left cur (name # rest)"
    and "\<And>left cur rest. g cur = Some FDir \<Longrightarrow> P left (butlast cur) rest \<Longrightarrow> P left cur (''..'' # rest)"
    and "\<And>left cur name t. g cur = Some FDir \<Longrightarrow> g (cur @ [name]) = Some (FLink t) \<Longrightarrow> \<not> follow \<Longrightarrow>
           r = (cur @ [name], left) \<Longrightarrow> name \<noteq> [] \<Longrightarrow> name \<noteq> ''.'' \<Longrightarrow> name \<noteq> ''..'' \<Longrightarrow> P left cur [name]"
    and "\<And>left cur name rest t. g cur = Some FDir \<Longrightarrow> g (cur @ [name]) = Some (FLink t) \<Longrightarrow> follow \<or> rest \<noteq> [] \<Longrightarrow>
           left > 0 \<Longrightarrow> t \<noteq> [] \<Longrightarrow> name \<noteq> [] \<Longrightarrow> name \<noteq> ''.'' \<Longrightarrow> name \<noteq> ''..'' \<Longrightarrow>
           P (left - 1) (if IsAbs t then [] else cur) (Split slash t @ rest) \<Longrightarrow> P left cur (name # rest)"
    and "\<And>left cur name rest m. g cur = Some FDir \<Longrightarrow> g (cur @ [name]) = Some m \<Longrightarrow> \<forall>t. m \<noteq> FLink t \<Longrightarrow>
           name \<noteq> [] \<Longrightarrow> name \<noteq> ''.'' \<Longrightarrow> name \<noteq> ''..'' \<Longrightarrow> P left (cur @ [name]) rest \<Longrightarrow> P left cur (name # rest)"
  shows "P left cur ps"
  using assms
proof (induction g follow left cur ps rule: path_walk.induct)
  case (2 g follow left cur name rest)
  note ih = 2(1-5) and base = 2(7-12)
  from 2(6) show ?case
  proof (cases rule: walk_step)
    case Stay
    show ?thesis
      by (rule base(2) [OF Stay(1,2)]) (rule ih(1), use Stay base in auto)
  next
    case Up
    have "P left (butlast cur) rest"
      by (rule ih(2)) (use Up base in auto)
    then show ?thesis
      using base(3) [OF Up(2)] Up(1) by simp
  next
    case (Link t)
    then show ?thesis
      using base(4) by blast
  next
    case (Follow t)
    show ?thesis
      by (rule base(5) [OF Follow(1-8)]) (rule ih(5) [of "FLink t" t], use Follow base in auto)
  next
    case (Enter m)
    have "P left (cur @ [name]) rest"
    proof (cases m)
      case FDir
      show ?thesis
        by (rule ih(3) [of m]) (use Enter FDir base in auto)
    next
      case (FFile x y)
      show ?thesis
        by (rule ih(4) [of m x y]) (use Enter FFile base in auto)
    qed (use Enter in auto)
    then show ?thesis
      using base(6) Enter by blast
  qed
qed auto

lemma walk_mono:
  assumes "path_walk g follow left cur ps = Inr r" "\<forall>p n. g p = Some n \<longrightarrow> h p = Some n"
  shows "path_walk h follow left cur ps = Inr r"
  using assms
proof (induction rule: walk_induct)
  case (Enter left cur name rest m)
  then show ?case
    by (cases m) simp_all
next
  case (Follow left cur name rest t)
  then show ?case
    by (cases "rest = []") simp_all
qed simp_all

lemma walk_node:
  assumes "path_walk g follow left cur ps = Inr r" "tree g" "g cur \<noteq> None"
  shows "g (fst r) \<noteq> None"
  using assms
proof (induction rule: walk_induct)
  case (Up left cur rest)
  then show ?case
    using tree_butlast [of g cur FDir] by simp
qed simp_all

text \<open>With \<open>follow\<close>, the walk ends at a directory or a file.\<close>

lemma walk_follows:
  assumes "path_walk g follow left cur ps = Inr r" "follow" "tree g" "\<forall>t. g cur \<noteq> Some (FLink t)"
  shows "g (fst r) \<noteq> Some (FLink t)"
  using assms
proof (induction rule: walk_induct)
  case (Up left cur rest)
  then show ?case
    using tree_butlast [of g cur FDir] by simp
qed simp_all

lemma namei_path_of:
  assumes "tree (disk_node d)" "names ps"
  shows "namei d follow (path_of True ps) = map_sum id fst (path_walk (disk_node d) follow maxLinks [] ps)"
  using assms by (cases ps) (auto simp: namei_def start_at_def Split_path_of)

lemma entry_place_path_of:
  assumes "tree (disk_node d)" "names (ps @ [n])"
  shows "entry_place d (path_of True (ps @ [n])) =
     (case path_walk (disk_node d) True maxLinks [] ps of
        Inl e \<Rightarrow> Inl e
      | Inr (p, _) \<Rightarrow> if disk_node d p \<noteq> Some FDir then Inl ENOTDIR else Inr (p, n))"
  using assms by (auto simp: entry_place_def start_at_def Split_path_of Let_def split: sum.splits)

subsection \<open>Paths that stay inside a directory\<close>

text \<open>\<open>subtree g R\<close> is the tree under \<open>R\<close>; \<open>stays t left x ps\<close> says that resolving \<open>ps\<close> from \<open>x\<close> inside
  that tree never climbs above its top, follows no absolute link and stops within the link limit, up
  to the first element the kernel cannot pass. A tree is sealed when each of its links stays inside.\<close>

definition subtree :: "nodes \<Rightarrow> loc \<Rightarrow> nodes" where
  "subtree g R = (\<lambda>x. g (R @ x))"

function stays :: "nodes \<Rightarrow> nat \<Rightarrow> loc \<Rightarrow> string list \<Rightarrow> bool" where
  "stays t left x [] = True"
| "stays t left x (name # rest) =
     (if t x \<noteq> Some FDir then True
      else if name = [] \<or> name = ''.'' then stays t left x rest
      else if name = ''..'' then x \<noteq> [] \<and> stays t left (butlast x) rest
      else
        (case t (x @ [name]) of
           None \<Rightarrow> True
         | Some (FLink target) \<Rightarrow>
             if left = 0 then False else \<not> IsAbs target \<and> stays t (left - 1) x (Split slash target @ rest)
         | Some _ \<Rightarrow> stays t left (x @ [name]) rest))"
  by pat_completeness auto
termination
  by (relation "measures [\<lambda>(t, left, x, ps). left, \<lambda>(t, left, x, ps). length ps]") auto

definition sealed :: "nodes \<Rightarrow> bool" where
  "sealed t \<longleftrightarrow> (\<forall>x target. t x = Some (FLink target) \<longrightarrow> stays t maxLinks [] x)"

lemma subtree_apply [simp]: "subtree g R x = g (R @ x)"
  by (simp add: subtree_def)

text \<open>The kernel's walk of such a path, from a place inside, ends inside.\<close>

lemma stays_sound:
  assumes "path_walk g follow k cur ps = Inr r" "cur = R @ x" "stays (subtree g R) left x ps"
  shows "prefix R (fst r)"
  using assms
proof (induction arbitrary: x left rule: walk_induct)
  case (Up k cur rest)
  then show ?case
    by (auto simp: butlast_append split: if_splits)
next
  case (Enter k cur name rest m)
  then show ?case
    by (cases m) auto
qed (auto split: if_splits)

lemma stays_append: "stays t left x (ps @ qs) \<Longrightarrow> stays t left x ps"
proof (induction t left x ps rule: stays.induct)
  case (2 t left x name rest)
  show ?case
  proof (cases "t (x @ [name])")
    case (Some m)
    then show ?thesis
      using 2 by (cases m) auto
  qed (use 2 in auto)
qed simp

lemma stays_real:
  assumes "names ps" "\<forall>q. strict_prefix q ps \<longrightarrow> t (x @ q) = Some FDir" "ps \<noteq> [] \<longrightarrow> (\<exists>n. t (x @ ps) = Some n \<and> (\<forall>l. n \<noteq> FLink l))"
  shows "stays t left x (ps @ rest) = stays t left (x @ ps) rest"
  using assms
proof (induction ps arbitrary: x)
  case (Cons p ps)
  have dir: "t x = Some FDir"
    using Cons.prems(2) by (metis append_Nil2 list.discI strict_prefix_simps(2))
  have dirs: "\<forall>q. strict_prefix q ps \<longrightarrow> t ((x @ [p]) @ q) = Some FDir"
    using Cons.prems(2) by (metis append.assoc append_Cons append_Nil strict_prefix_simps(3))
  have ih: "stays t left (x @ [p]) (ps @ rest) = stays t left ((x @ [p]) @ ps) rest"
    by (rule Cons.IH) (use Cons.prems dirs in auto)
  obtain m where m: "t (x @ [p]) = Some m" "\<forall>l. m \<noteq> FLink l"
    using Cons.prems(3) dirs by (cases ps) auto
  show ?case
    using ih m dir Cons.prems(1) by (cases m) simp_all
qed simp

text \<open>In a sealed tree the target of a link, read where the link stands, stays inside.\<close>

lemma sealed_link:
  assumes "tree g" "sealed (subtree g R)" "names R" "g (R @ x @ [n]) = Some (FLink target)"
  shows "\<not> IsAbs target \<and> stays (subtree g R) (maxLinks - 1) x (Split slash target)"
proof -
  have ok: "stays (subtree g R) maxLinks [] (x @ [n])"
    using assms(2,4) by (auto simp: sealed_def)
  have nm: "names (x @ [n])"
    using tree_names [OF assms(1,4)] by simp
  have dirs: "g (R @ q) = Some FDir" if "prefix q x" for q
    using that tree_prefix [OF assms(1), of "R @ q" "drop (length q) x @ [n]"] assms(4) by (auto simp: prefix_def)
  have "stays (subtree g R) maxLinks [] (x @ [n]) = stays (subtree g R) maxLinks x [n]"
    using stays_real [of x "subtree g R" "[]" maxLinks "[n]"] nm dirs by (auto simp: strict_prefix_def)
  then show ?thesis
    using ok nm dirs [of x] assms(4) by (simp add: maxLinks_def)
qed

text \<open>So every path below a sealed directory that does not itself climb resolves inside it.\<close>

theorem sealed_sound:
  assumes "path_walk g follow k cur ps = Inr (r, k')" "tree g" "sealed (subtree g R)" "names R" "prefix R cur" "''..'' \<notin> set ps"
  shows "prefix R r"
  using assms
proof (induction ps arbitrary: k cur)
  case (Cons name rest)
  obtain x where x: "cur = R @ x"
    using Cons.prems(5) by (auto simp: prefix_def)
  have "''..'' \<notin> set rest"
    using Cons.prems(6) by simp
  note ih = Cons.IH [OF _ Cons.prems(2-4) _ this]
  from Cons.prems(1) show ?case
  proof (cases rule: walk_step)
    case (Follow t)
    have "g (R @ x @ [name]) = Some (FLink t)"
      using Follow(2) x by simp
    note inside = sealed_link [OF Cons.prems(2-4) this]
    then have "path_walk g follow (k - 1) cur (Split slash t @ rest) = Inr (r, k')"
      using Follow(9) by simp
    then obtain c l where c: "path_walk g True (k - 1) cur (Split slash t) = Inr (c, l)" "path_walk g follow l c rest = Inr (r, k')"
      unfolding walk_append [OF Follow(3)] by (auto split: sum.splits)
    have "prefix R c"
      using stays_sound [OF c(1) x, of "maxLinks - 1"] inside by simp
    then show ?thesis
      using ih c(2) by blast
  qed (use Cons.prems ih x in auto)
qed simp

subsection \<open>What the changes do\<close>

lemma node_set_mtime [simp]: "disk_node (set_mtime p t d) = disk_node d"
  by (simp add: disk_node_def set_mtime_def)

lemma node_set_node [simp]: "disk_node (set_node p n d) = (disk_node d)(p \<mapsto> n)"
proof -
  have "map_of (filter (\<lambda>e. fst e \<noteq> p) ns) q = (if q = p then None else map_of ns q)" for ns :: "(loc \<times> fnode) list" and q
    by (induction ns) auto
  then show ?thesis
    by (auto simp: disk_node_def set_node_def)
qed

lemma map_of_filter_key: "map_of (filter (\<lambda>e. P (fst e)) ns) q = (if P q then map_of ns q else None)"
  by (induction ns) auto

lemma node_drop_tree [simp]: "disk_node (drop_tree p d) q = (if prefix p q then None else disk_node d q)"
  by (simp add: disk_node_def drop_tree_def map_of_filter_key [of "\<lambda>k. \<not> prefix p k"])

lemma map_of_map_inj:
  assumes "\<forall>e \<in> set ns. f (fst e) = f q \<longrightarrow> fst e = q"
  shows "map_of (map (\<lambda>e. (f (fst e), snd e)) ns) (f q) = map_of ns q"
  using assms by (induction ns) auto

lemma map_of_map_none:
  assumes "\<forall>e \<in> set ns. f (fst e) \<noteq> q"
  shows "map_of (map (\<lambda>e. (f (fst e), snd e)) ns) q = None"
  using assms by (induction ns) auto

text \<open>A moved tree stands at its new place, is gone from the old one, and nothing else changed.\<close>

lemma node_move_tree:
  assumes "\<not> prefix s w" "\<not> prefix w s"
  shows "disk_node (move_tree s w d) q =
    (if prefix w q then disk_node d (s @ drop (length w) q) else if prefix s q then None else disk_node d q)"
proof -
  let ?ns = "dk_nodes (drop_tree w d)" and ?f = "relocate s w"
  have out: "\<not> prefix w (fst e)" if "e \<in> set ?ns" for e
    using that by (auto simp: drop_tree_def)
  have new: "disk_node (move_tree s w d) q = map_of (map (\<lambda>e. (?f (fst e), snd e)) ?ns) q"
    by (simp add: disk_node_def move_tree_def)
  show ?thesis
  proof (cases "prefix w q")
    case True
    then obtain y where y: "q = w @ y"
      by (auto simp: prefix_def)
    then have "?f (s @ y) = q"
      by (simp add: relocate_def)
    moreover have "\<forall>e \<in> set ?ns. ?f (fst e) = ?f (s @ y) \<longrightarrow> fst e = s @ y"
      using out by (auto simp: relocate_def prefix_def)
    ultimately have "map_of (map (\<lambda>e. (?f (fst e), snd e)) ?ns) q = map_of ?ns (s @ y)"
      using map_of_map_inj [of ?ns ?f "s @ y"] by simp
    moreover have "\<not> prefix w (s @ y)"
      using assms by (metis prefix_same_cases prefixI)
    ultimately show ?thesis
      using new y True node_drop_tree [of w d "s @ y"] by (simp add: disk_node_def)
  next
    case False
    show ?thesis
    proof (cases "prefix s q")
      case True
      then have "\<forall>e \<in> set ?ns. ?f (fst e) \<noteq> q"
        using False by (auto simp: relocate_def)
      then show ?thesis
        using new False True map_of_map_none [of ?ns ?f q] by simp
    next
      case ns: False
      then have "?f q = q"
        by (simp add: relocate_def)
      moreover have "\<forall>e \<in> set ?ns. ?f (fst e) = ?f q \<longrightarrow> fst e = q"
        using False ns by (auto simp: relocate_def)
      ultimately show ?thesis
        using new False ns map_of_map_inj [of ?ns ?f q] node_drop_tree [of w d q] by (simp add: disk_node_def)
    qed
  qed
qed

subsection \<open>New entries\<close>

text \<open>\<open>grows P d d'\<close>: the disk only gained nodes, each with property \<open>P\<close>.\<close>

definition grows :: "(loc \<Rightarrow> fnode \<Rightarrow> bool) \<Rightarrow> disk \<Rightarrow> disk \<Rightarrow> bool" where
  "grows P d d' \<longleftrightarrow> tree (disk_node d') \<and>
     (\<forall>p. disk_node d' p = disk_node d p \<or> disk_node d p = None \<and> (\<exists>n. disk_node d' p = Some n \<and> P p n))"

lemma grows_refl [simp]: "tree (disk_node d) \<Longrightarrow> grows P d d"
  by (simp add: grows_def)

lemma grows_tree: "grows P d d' \<Longrightarrow> tree (disk_node d')"
  by (simp add: grows_def)

lemma grows_keeps: "grows P d d' \<Longrightarrow> disk_node d p = Some n \<Longrightarrow> disk_node d' p = Some n"
  unfolding grows_def by (metis option.distinct(1))

lemma grows_new: "grows P d d' \<Longrightarrow> disk_node d' p = Some n \<Longrightarrow> disk_node d p = Some n \<or> P p n"
  unfolding grows_def by (metis option.inject)

lemma grows_trans:
  assumes "grows P d e" "grows P e f"
  shows "grows P d f"
  unfolding grows_def
proof (intro conjI allI)
  show "tree (disk_node f)"
    using assms(2) by (rule grows_tree)
next
  fix p
  show "disk_node f p = disk_node d p \<or> disk_node d p = None \<and> (\<exists>n. disk_node f p = Some n \<and> P p n)"
    using assms unfolding grows_def by metis
qed

lemma grows_mono: "grows P d d' \<Longrightarrow> (\<And>p n. P p n \<Longrightarrow> Q p n) \<Longrightarrow> grows Q d d'"
  unfolding grows_def by blast

lemma grows_same: "grows P d d' \<Longrightarrow> (\<And>n. \<not> P p n) \<Longrightarrow> disk_node d' p = disk_node d p"
  unfolding grows_def by blast

text \<open>A call that creates an entry either leaves the disk alone or enters one node, in the directory
  its parent path leads to, where nothing was.\<close>

lemma add_entry_cases:
  assumes "add_entry E call m (path_of True (ps @ [n])) d = (d', res)" "tree (disk_node d)" "names (ps @ [n])"
  obtains (Failed) e where "res = Inl e" "d' = d"
  | (Added) p k where "res = Inr (p @ [n])" "path_walk (disk_node d) True maxLinks [] ps = Inr (p, k)" "disk_node d p = Some FDir"
      "disk_node d (p @ [n]) = None" "disk_node d' = (disk_node d)(p @ [n] \<mapsto> m)"
proof -
  let ?call = "checked E call (path_of True (ps @ [n])) (entry_place d (path_of True (ps @ [n])))"
  show ?thesis
  proof (cases ?call)
    case (Inl e)
    then show ?thesis
      using assms(1) Failed [of e] by (simp add: add_entry_def)
  next
    case (Inr place)
    then obtain k where k: "path_walk (disk_node d) True maxLinks [] ps = Inr (fst place, k)" "disk_node d (fst place) = Some FDir" "snd place = n"
      using entry_place_path_of [OF assms(2,3)]
      by (auto simp: checked_def split: option.splits sum.splits if_splits)
    then show ?thesis
      using Inr assms(1) Failed Added [of "fst place" k]
      by (cases place) (auto simp: add_entry_def split: if_splits)
  qed
qed

lemma grows_entry:
  assumes "tree (disk_node d)" "disk_node d p = Some FDir" "disk_node d (p @ [n]) = None" "disk_node d' = (disk_node d)(p @ [n] \<mapsto> m)" "names [n]" "P (p @ [n]) m"
  shows "grows P d d'"
  unfolding grows_def using tree_insert [OF assms(1,2,5,3)] assms by auto

lemma walk_nofollow:
  assumes "path_walk g follow left cur ps = Inr r" "\<not> follow" "\<forall>t. g (fst r) \<noteq> Some (FLink t)"
  shows "path_walk g True left cur ps = Inr r"
  using assms
proof (induction rule: walk_induct)
  case (Enter left cur name rest m)
  then show ?case
    by (cases m) simp_all
qed simp_all

lemma info_at_path_of:
  assumes "tree (disk_node d)" "names ps" "info_at d (namei d follow (path_of True ps)) = Inr (n, t)"
  shows "\<exists>q k. path_walk (disk_node d) follow maxLinks [] ps = Inr (q, k) \<and> disk_node d q = Some n \<and> t = dk_mtime d q"
  using assms by (cases "path_walk (disk_node d) follow maxLinks [] ps") (auto simp: info_at_def namei_path_of split: option.splits)

lemma mkdir_last_cases:
  assumes "mkdir_last E (path_of True (ps @ [n])) d = (d', res)" "tree (disk_node d)" "names (ps @ [n])"
  obtains (Failed) e where "res = Some e" "d' = d"
  | (Exists) q k where "res = None" "d' = d" "path_walk (disk_node d) True maxLinks [] (ps @ [n]) = Inr (q, k)" "disk_node d q = Some FDir"
      "path_walk (disk_node d) False maxLinks [] (ps @ [n]) = Inr (q, k)"
  | (Added) p k where "res = None" "path_walk (disk_node d) True maxLinks [] ps = Inr (p, k)" "disk_node d p = Some FDir"
      "disk_node d (p @ [n]) = None" "disk_node d' = (disk_node d)(p @ [n] \<mapsto> FDir)"
proof -
  obtain d1 r1 where mk: "add_entry E SMkdir FDir (path_of True (ps @ [n])) d = (d1, r1)"
    by fastforce
  from mk assms(2,3) show ?thesis
  proof (cases rule: add_entry_cases)
    case (Failed e)
    note add = Failed
    show ?thesis
    proof (cases "\<exists>t. Lstat E d (path_of True (ps @ [n])) = Inr (FDir, t)")
      case True
      then obtain q k where q: "path_walk (disk_node d) False maxLinks [] (ps @ [n]) = Inr (q, k)" "disk_node d q = Some FDir"
        using info_at_path_of [OF assms(2,3), of False FDir] by (auto simp: Lstat_def checked_def split: option.splits)
      then have "path_walk (disk_node d) True maxLinks [] (ps @ [n]) = Inr (q, k)"
        using walk_nofollow [OF q(1)] by simp
      then show ?thesis
        using Exists True q mk add assms(1) by (auto simp: mkdir_last_def Mkdir_def)
    next
      case False
      then show ?thesis
        using mk add assms(1) that(1)
        by (cases "Lstat E d (path_of True (ps @ [n]))")
          (auto simp: mkdir_last_def Mkdir_def split: fnode.splits prod.splits)
    qed
  next
    case (Added p k)
    then show ?thesis
      using that(3) mk assms(1) by (simp add: mkdir_last_def Mkdir_def)
  qed
qed

lemma Stat_path_of:
  assumes "Stat E d (path_of True ps) = Inr (n, t)" "tree (disk_node d)" "names ps"
  shows "\<exists>q k. path_walk (disk_node d) True maxLinks [] ps = Inr (q, k) \<and> disk_node d q = Some n \<and> t = dk_mtime d q"
  using assms info_at_path_of [OF assms(2,3)] by (auto simp: Stat_def checked_def split: option.splits)

text \<open>Making a directory that is there changes nothing.\<close>

lemma mkdir_last_root: "tree (disk_node d) \<Longrightarrow> fst (mkdir_last E (path_of True []) d) = d"
  by (auto simp: mkdir_last_def Mkdir_def add_entry_def checked_def entry_place_def path_of_def start_at_def IsAbs_def
      split: option.splits)

lemma mkdir_all_exists:
  assumes "tree (disk_node d)" "disk_node d ps = Some FDir"
  shows "fst (mkdir_all E True (List.rev ps) d) = d"
  using assms
proof (induction ps rule: rev_induct)
  case Nil
  then show ?case
    using mkdir_last_root by (auto split: sum.splits fnode.splits)
next
  case (snoc n ps)
  have parent: "disk_node d ps = Some FDir"
    using tree_parent [OF snoc.prems] .
  have nm: "names (ps @ [n])"
    using tree_names [OF snoc.prems] .
  have ih: "fst (mkdir_all E True (List.rev ps) d) = d"
    using snoc.IH [OF snoc.prems(1) parent] .
  have "fst (mkdir_last E (path_of True (ps @ [n])) d) = d"
  proof -
    obtain d' res where mk: "mkdir_last E (path_of True (ps @ [n])) d = (d', res)"
      by fastforce
    from mk snoc.prems(1) nm have "d' = d"
    proof (cases rule: mkdir_last_cases)
      case (Added p k)
      have "path_walk (disk_node d) True maxLinks [] ps = Inr (ps, maxLinks)"
        using walk_real [OF snoc.prems(1), of ps "[]" FDir True maxLinks "[]"] parent nm by simp
      then show ?thesis
        using Added snoc.prems(2) by simp
    qed auto
    then show ?thesis
      using mk by simp
  qed
  then show ?case
    using ih by (cases "mkdir_all E True (List.rev ps) d") (auto simp: Let_def split: sum.splits fnode.splits option.splits)
qed

text \<open>What \<open>MkdirAll\<close> adds below an existing directory \<open>R\<close>, where \<open>Q q r\<close> bounds the location \<open>r\<close> a
  path \<open>q\<close> may lead to.\<close>

lemma mkdir_all_grows:
  assumes "tree (disk_node d)" "names (R @ y)" "disk_node d R = Some FDir" "Q [] R"
    and conf: "\<And>q r. prefix q y \<Longrightarrow> path_walk (disk_node d) True maxLinks [] (R @ q) = Inr r \<Longrightarrow> Q q (fst r)"
    and closed: "\<And>q p n. Q q p \<Longrightarrow> Q (q @ [n]) (p @ [n])"
    and "mkdir_all E True (List.rev (R @ y)) d = (d', res)"
  shows "grows (\<lambda>p n. n = FDir \<and> (\<exists>q. prefix q y \<and> Q q p)) d d' \<and>
    (res = None \<longrightarrow> (\<exists>r. path_walk (disk_node d') True maxLinks [] (R @ y) = Inr r \<and> Q y (fst r) \<and> disk_node d' (fst r) = Some FDir))"
  using assms(2,5,7)
proof (induction y arbitrary: d' res rule: rev_induct)
  case Nil
  then have "d' = d"
    using mkdir_all_exists [OF assms(1,3), of E] by simp
  moreover have "path_walk (disk_node d) True maxLinks [] (R @ []) = Inr (R, maxLinks)"
    using walk_real [OF assms(1), of R "[]" FDir True maxLinks "[]"] assms(3) Nil.prems(1) by simp
  ultimately show ?case
    using assms(1,3,4) by auto
next
  case (snoc n y)
  let ?path = "path_of True ((R @ y) @ [n])"
  let ?P = "\<lambda>z p m. m = FDir \<and> (\<exists>q. prefix q z \<and> Q q p)"
  have nm: "names ((R @ y) @ [n])"
    using snoc.prems(1) by simp
  have all: "mkdir_all E True (n # List.rev (R @ y)) d = (d', res)"
    using snoc.prems(3) by simp
  show ?case
  proof (cases "Stat E d ?path")
    case (Inr info)
    then obtain q k where "path_walk (disk_node d) True maxLinks [] ((R @ y) @ [n]) = Inr (q, k)" "disk_node d q = Some (fst info)"
      using Stat_path_of [OF _ assms(1) nm, of E "fst info" "snd info"] by auto
    moreover have "d' = d \<and> (res = None \<longrightarrow> fst info = FDir)"
      using all Inr by (cases info; cases "fst info") (auto simp: Let_def)
    ultimately show ?thesis
      using snoc.prems(2) [of "y @ [n]" "(q, k)"] assms(1) by auto
  next
    case (Inl e0)
    obtain d1 res1 where rec: "mkdir_all E True (List.rev (R @ y)) d = (d1, res1)"
      by fastforce
    have "grows (?P y) d d1 \<and> (res1 = None \<longrightarrow>
        (\<exists>r. path_walk (disk_node d1) True maxLinks [] (R @ y) = Inr r \<and> Q y (fst r) \<and> disk_node d1 (fst r) = Some FDir))"
      by (rule snoc.IH [OF _ _ rec]) (use nm snoc.prems(2) in auto)
    then have g1: "grows (?P (y @ [n])) d d1"
      and r1: "res1 = None \<Longrightarrow> \<exists>r. path_walk (disk_node d1) True maxLinks [] (R @ y) = Inr r \<and> Q y (fst r) \<and> disk_node d1 (fst r) = Some FDir"
      by (auto elim: grows_mono)
    show ?thesis
    proof (cases res1)
      case (Some e1)
      then show ?thesis
        using all Inl rec g1 by (auto simp: Let_def)
    next
      case None
      obtain r k where r: "path_walk (disk_node d1) True maxLinks [] (R @ y) = Inr (r, k)" "Q y r" "disk_node d1 r = Some FDir"
        using r1 [OF None] by auto
      have t1: "tree (disk_node d1)"
        using g1 by (rule grows_tree)
      have mk: "mkdir_last E ?path d1 = (d', res)"
        using all Inl rec None by (simp add: Let_def)
      from mk t1 nm show ?thesis
      proof (cases rule: mkdir_last_cases)
        case (Failed e)
        then show ?thesis
          using g1 by simp
      next
        case (Exists q l)
        have "path_walk (disk_node d1) False k r [n] = Inr (q, l)"
          using Exists(5) r(1) walk_append [of False "[n]" "disk_node d1" maxLinks "[]" "R @ y"] by simp
        then have "q = r @ [n]"
          using nm by (elim walk_step) auto
        then show ?thesis
          using Exists g1 closed [OF r(2), of n] by auto
      next
        case (Added p l)
        then have p: "p = r"
          using r(1) by simp
        have "grows (?P (y @ [n])) d1 d'"
          using grows_entry [OF t1 Added(3,4,5), of "?P (y @ [n])"] nm closed [OF r(2), of n] p by auto
        moreover have "path_walk (disk_node d') True maxLinks [] (R @ y) = Inr (r, k)"
          using walk_mono [OF r(1), of "disk_node d'"] Added(4,5) by (auto split: if_splits)
        then have "path_walk (disk_node d') True maxLinks [] ((R @ y) @ [n]) = Inr (r @ [n], k)"
          using walk_append [of True "[n]" "disk_node d'" maxLinks "[]" "R @ y"] Added(3-5) p nm by auto
        moreover have "disk_node d' (r @ [n]) = Some FDir"
          using Added(5) p by simp
        ultimately show ?thesis
          using grows_trans [OF g1] closed [OF r(2), of n] by (intro conjI impI exI [of _ "(r @ [n], k)"]) simp_all
      qed
    qed
  qed
qed

text \<open>Below a directory that the path stays inside, only directories inside it are made.\<close>

lemma MkdirAll_inside:
  assumes "tree (disk_node d)" "names (R @ y)" "disk_node d R = Some FDir" "stays (subtree (disk_node d) R) maxLinks [] y"
    and "MkdirAll E (path_of True (R @ y)) d = (d', res)"
  shows "grows (\<lambda>p n. n = FDir \<and> prefix R p) d d'"
    and "res = None \<Longrightarrow> \<exists>r k. path_walk (disk_node d') True maxLinks [] (R @ y) = Inr (r, k) \<and> prefix R r \<and> disk_node d' r = Some FDir"
proof -
  have "mkdir_all E True (List.rev (R @ y)) d = (d', res)"
    using assms(2,5) parts_path_of [OF assms(2)] by (simp add: MkdirAll_def)
  moreover have "prefix R (fst r)" if "prefix q y" "path_walk (disk_node d) True maxLinks [] (R @ q) = Inr r" for q r
  proof -
    have "path_walk (disk_node d) True maxLinks R q = Inr r"
      using that(2) walk_real [OF assms(1), of R "[]" FDir True maxLinks q] assms(2,3) by simp
    then show ?thesis
      using stays_sound [of _ _ _ R q r R "[]" maxLinks] assms(4) that(1) stays_append by (auto simp: prefix_def)
  qed
  ultimately have "grows (\<lambda>p n. n = FDir \<and> (\<exists>q. prefix q y \<and> prefix R p)) d d' \<and>
    (res = None \<longrightarrow> (\<exists>r. path_walk (disk_node d') True maxLinks [] (R @ y) = Inr r \<and> prefix R (fst r) \<and> disk_node d' (fst r) = Some FDir))"
    using mkdir_all_grows [OF assms(1-3), of "\<lambda>q p. prefix R p" E d' res] by auto
  then show "grows (\<lambda>p n. n = FDir \<and> prefix R p) d d'"
    and "res = None \<Longrightarrow> \<exists>r k. path_walk (disk_node d') True maxLinks [] (R @ y) = Inr (r, k) \<and> prefix R r \<and> disk_node d' r = Some FDir"
    by (auto elim: grows_mono)
qed

lemma walk_no_links:
  assumes "path_walk g True left cur ps = Inr (r, k)" "tree g" "names ps" "\<And>q t. prefix q ps \<Longrightarrow> g (cur @ q) \<noteq> Some (FLink t)"
  shows "r = cur @ ps"
  using assms
proof (induction ps arbitrary: cur)
  case (Cons p ps)
  from Cons.prems(1) show ?case
  proof (cases rule: walk_step)
    case (Enter m)
    have "r = (cur @ [p]) @ ps"
      by (rule Cons.IH [OF Enter(7)]) (use Cons.prems(2-4) in \<open>force simp: prefix_def\<close>)+
    then show ?thesis
      by simp
  next
    case (Follow t)
    then show ?thesis
      using Cons.prems(4) [of "[p]" t] by simp
  qed (use Cons.prems(3) in auto)
qed simp

text \<open>Along a path without links, it makes the directories of the path.\<close>

lemma MkdirAll_real:
  assumes "tree (disk_node d)" "names ps" "\<And>q t. prefix q ps \<Longrightarrow> disk_node d q \<noteq> Some (FLink t)"
    and "MkdirAll E (path_of True ps) d = (d', res)"
  shows "grows (\<lambda>p n. n = FDir \<and> prefix p ps) d d'" and "res = None \<Longrightarrow> disk_node d' ps = Some FDir"
proof -
  have "mkdir_all E True (List.rev ([] @ ps)) d = (d', res)"
    using assms(2,4) parts_path_of [OF assms(2)] by (simp add: MkdirAll_def)
  moreover have "q = fst r" if "prefix q ps" "path_walk (disk_node d) True maxLinks [] ([] @ q) = Inr r" for q r
  proof -
    have "names q"
      using that(1) assms(2) by (auto simp: prefix_def)
    moreover have "\<And>q' t. prefix q' q \<Longrightarrow> disk_node d ([] @ q') \<noteq> Some (FLink t)"
      using assms(3) that(1) by (simp add: prefix_order.trans)
    ultimately show ?thesis
      using walk_no_links [of "disk_node d" maxLinks "[]" q "fst r" "snd r"] that(2) assms(1) by simp
  qed
  ultimately have all: "grows (\<lambda>p n. n = FDir \<and> (\<exists>q. prefix q ps \<and> q = p)) d d' \<and>
    (res = None \<longrightarrow> (\<exists>r. path_walk (disk_node d') True maxLinks [] ([] @ ps) = Inr r \<and> ps = fst r \<and> disk_node d' (fst r) = Some FDir))"
    using mkdir_all_grows [OF assms(1), of "[]" ps "\<lambda>q p. q = p" E d' res] assms(1,2) by auto
  then show "grows (\<lambda>p n. n = FDir \<and> prefix p ps) d d'"
    by (auto elim: grows_mono)
  show "res = None \<Longrightarrow> disk_node d' ps = Some FDir"
    using all by auto
qed

subsection \<open>Removing and moving\<close>

lemma entry_place_real:
  assumes "tree (disk_node d)" "disk_node d V = Some FDir" "names [n]"
  shows "entry_place d (path_of True (V @ [n])) = Inr (V, n)"
proof -
  have "names V"
    using tree_names [OF assms(1,2)] .
  then show ?thesis
    using entry_place_path_of [OF assms(1), of V n] walk_real [OF assms(1), of V "[]" FDir True maxLinks "[]"] assms(2,3) by simp
qed

lemma tree_below_none:
  assumes "tree g" "g p = None" "prefix p q"
  shows "g q = None"
proof (rule ccontr)
  assume "g q \<noteq> None"
  then obtain n where n: "g q = Some n"
    by blast
  obtain r where "q = p @ r"
    using assms(3) by (auto simp: prefix_def)
  then show False
    using tree_prefix [OF assms(1), of p r n] assms(2) n by (cases "r = []") auto
qed

lemma tree_drop:
  assumes "tree (disk_node d)" "V \<noteq> []"
  shows "tree (disk_node (drop_tree V d))"
  unfolding tree_def
proof (intro conjI allI impI)
  show "disk_node (drop_tree V d) [] = Some FDir"
    using assms by simp
next
  fix p
  assume "disk_node (drop_tree V d) p \<noteq> None"
  then show "names p"
    using assms(1) by (auto simp: tree_def split: if_splits)
next
  fix p n
  assume "disk_node (drop_tree V d) (p @ [n]) \<noteq> None"
  then have "\<not> prefix V (p @ [n])" "disk_node d (p @ [n]) \<noteq> None"
    by (auto split: if_splits)
  then show "disk_node (drop_tree V d) p = Some FDir"
    using tree_parent [OF assms(1), of p n] by auto
qed

lemma RemoveAll_real:
  assumes "RemoveAll E (path_of True (V @ [n])) d = (d', res)" "tree (disk_node d)" "disk_node d V = Some FDir" "names [n]"
  shows "tree (disk_node d')" and "res \<noteq> None \<Longrightarrow> d' = d"
    and "res = None \<Longrightarrow> disk_node d' q = (if prefix (V @ [n]) q then None else disk_node d q)"
    and "p \<noteq> V \<Longrightarrow> dk_mtime d' p = dk_mtime d p"
proof -
  note place = entry_place_real [OF assms(2-4)]
  consider e where "d' = d" "res = Some e"
    | "d' = d" "res = None" "disk_node d (V @ [n]) = None"
    | "d' = set_mtime V (oe_now E) (drop_tree (V @ [n]) d)" "res = None"
    using assms(1) place by (auto simp: RemoveAll_def checked_def split: option.splits if_splits)
  note cases = this
  show "tree (disk_node d')"
    using cases assms(2) tree_drop [OF assms(2), of "V @ [n]"] by cases auto
  show "res \<noteq> None \<Longrightarrow> d' = d"
    using cases by cases auto
  show "disk_node d' q = (if prefix (V @ [n]) q then None else disk_node d q)" if "res = None"
    using cases
  proof cases
    case 2
    then show ?thesis
      using tree_below_none [OF assms(2), of "V @ [n]" q] by auto
  qed (use that in auto)
  show "p \<noteq> V \<Longrightarrow> dk_mtime d' p = dk_mtime d p"
    using cases by cases (auto simp: set_mtime_def drop_tree_def)
qed

lemma sibling_not_prefix: "m \<noteq> n \<Longrightarrow> \<not> prefix (V @ [m]) (V @ [n])"
  by (auto simp: prefix_def)

lemma tree_move:
  assumes "tree (disk_node d)" "disk_node d V = Some FDir" "names [n]" "s \<noteq> n" "disk_node d (V @ [s]) \<noteq> None"
  shows "tree (disk_node (move_tree (V @ [s]) (V @ [n]) d))"
proof -
  let ?g = "disk_node (move_tree (V @ [s]) (V @ [n]) d)"
  have g: "?g q = (if prefix (V @ [n]) q then disk_node d ((V @ [s]) @ drop (length (V @ [n])) q)
      else if prefix (V @ [s]) q then None else disk_node d q)" for q
    using node_move_tree [of "V @ [s]" "V @ [n]" d q] sibling_not_prefix assms(4) by metis
  have nV: "names V"
    using tree_names [OF assms(1,2)] .
  show ?thesis
    unfolding tree_def
  proof (intro conjI allI impI)
    show "?g [] = Some FDir"
      using assms(1) g [of "[]"] by simp
  next
    fix p
    assume "?g p \<noteq> None"
    then consider y where "p = (V @ [n]) @ y" "disk_node d ((V @ [s]) @ y) \<noteq> None" | "disk_node d p \<noteq> None"
      unfolding g by (auto simp: prefix_def split: if_splits)
    then show "names p"
    proof cases
      case 1
      then have "names ((V @ [s]) @ y)"
        using tree_names [OF assms(1)] by blast
      then show ?thesis
        using 1 nV assms(3) by simp
    next
      case 2
      then show ?thesis
        using assms(1) by (auto simp: tree_def)
    qed
  next
    fix p m
    assume some: "?g (p @ [m]) \<noteq> None"
    show "?g p = Some FDir"
    proof (cases "prefix (V @ [n]) (p @ [m])")
      case True
      then obtain y where y: "p @ [m] = (V @ [n]) @ y"
        by (auto simp: prefix_def)
      then have sy: "disk_node d ((V @ [s]) @ y) \<noteq> None"
        using some True unfolding g by simp
      show ?thesis
      proof (cases "y = []")
        case True
        then show ?thesis
          using y assms(2) g [of p] by (auto simp: prefix_def)
      next
        case False
        then obtain z where z: "y = z @ [m]" "p = (V @ [n]) @ z"
          using y by (metis append_assoc append_butlast_last_id butlast_append butlast_snoc last_appendR last_snoc)
        then have "disk_node d ((V @ [s]) @ z) = Some FDir"
          using sy tree_parent [OF assms(1), of "(V @ [s]) @ z" m] by auto
        then show ?thesis
          using z(2) g [of p] by simp
      qed
    next
      case False
      then have "\<not> prefix (V @ [s]) (p @ [m])" "disk_node d (p @ [m]) \<noteq> None"
        using some unfolding g by (auto split: if_splits)
      then show ?thesis
        using False tree_parent [OF assms(1), of p m] g [of p] by auto
    qed
  qed
qed

lemma Rename_real:
  assumes "Rename E (path_of True (V @ [s])) (path_of True (V @ [n])) d = (d', res)"
    and "tree (disk_node d)" "disk_node d V = Some FDir" "names [s]" "names [n]" "s \<noteq> n"
  shows "tree (disk_node d')" and "res \<noteq> None \<Longrightarrow> d' = d"
    and "res = None \<Longrightarrow> disk_node d' q =
      (if prefix (V @ [n]) q then disk_node d ((V @ [s]) @ drop (length (V @ [n])) q) else if prefix (V @ [s]) q then None else disk_node d q)"
proof -
  note place = entry_place_real [OF assms(2,3,4)] entry_place_real [OF assms(2,3,5)]
  consider e where "d' = d" "res = Some e"
    | "disk_node d' = disk_node (move_tree (V @ [s]) (V @ [n]) d)" "res = None" "disk_node d (V @ [s]) \<noteq> None"
    using assms(1) place by (auto simp: Rename_def checked_def split: option.splits if_splits)
  note cases = this
  show "tree (disk_node d')"
    using cases assms(2) tree_move [OF assms(2,3,5,6)] by cases simp_all
  show "res \<noteq> None \<Longrightarrow> d' = d"
    using cases by cases auto
  show "disk_node d' q =
      (if prefix (V @ [n]) q then disk_node d ((V @ [s]) @ drop (length (V @ [n])) q) else if prefix (V @ [s]) q then None else disk_node d q)"
    if "res = None"
    using cases
  proof cases
    case 2
    then show ?thesis
      using node_move_tree [of "V @ [s]" "V @ [n]" d q] sibling_not_prefix assms(6) by metis
  qed (use that in simp)
qed

text \<open>A new regular file leaves every path that stays inside staying inside.\<close>

lemma stays_add_file:
  assumes "t f = None" "u f = Some (FFile perm body)" "\<forall>y. y \<noteq> f \<longrightarrow> u y = t y"
  shows "stays t left x ps \<Longrightarrow> stays u left x ps"
  using assms
proof (induction t left x ps rule: stays.induct)
  case (2 t left x name rest)
  show ?case
  proof (cases "t x = Some FDir")
    case dir: True
    then have tx: "u x = Some FDir"
      using 2(7-9) by (cases "x = f") simp_all
    consider "name = [] \<or> name = ''.''" | "name = ''..''" | "name \<noteq> []" "name \<noteq> ''.''" "name \<noteq> ''..''"
      by blast
    then show ?thesis
    proof cases
      case 1
      then show ?thesis
        using 2(1,6-9) dir tx by simp
    next
      case up: 2
      then show ?thesis
        using 2(2,6-9) dir tx by simp
    next
      case 3
      show ?thesis
      proof (cases "x @ [name] = f")
        case True
        then have "stays u left (x @ [name]) rest"
          using 2(8) by (cases rest) simp_all
        then show ?thesis
          using tx 3 True 2(8) by simp
      next
        case False
        show ?thesis
        proof (cases "t (x @ [name])")
          case None
          then show ?thesis
            using tx 3 False 2(9) by simp
        next
          case (Some m)
          then show ?thesis
            using 2(3-9) 3 dir tx False by (cases m) (simp_all split: if_splits)
        qed
      qed
    qed
  next
    case False
    then have "u x \<noteq> Some FDir"
      using 2(8,9) by (cases "x = f") simp_all
    then show ?thesis
      by (subst stays.simps) (simp only: simp_thms if_True)
  qed
qed simp

lemma sealed_add_file: "sealed t \<Longrightarrow> t f = None \<Longrightarrow> sealed (t(f \<mapsto> FFile perm body))"
  unfolding sealed_def using stays_add_file [of t f "t(f \<mapsto> FFile perm body)" perm body] by (auto split: if_splits)

lemma sealed_empty [simp]: "sealed (\<lambda>x. None)"
  by (simp add: sealed_def)

end
