(* ===== verification/Git_Cache.thy ===== *)
theory Git_Cache
  imports File_System Images
begin

text \<open>
  The Git cache (\<open>internal/source/git/cache.go\<close>): resolving a revision to a commit, checking the
  commit out into a directory shared by every Application, refusing Git paths and links that leave
  it, and pruning what nobody needs any more; and the pruner of \<open>internal/controller/source_cache.go\<close>
  that decides which commits must stay. The disk is the one of \<open>File_System\<close>. The go-git library, the
  SSH key and known_hosts parsers and SHA-256 are parameters, in the records \<open>gogit\<close> and \<open>cache\<close>; the
  bare clones go-git keeps are \<open>cs_repos\<close>, apart from the checkouts on the disk. One operation runs at
  a time on a repository, which is what its lock gives. The theorems show that a checkout is sealed,
  that the writes of a checkout stay inside its own staging directory, and that pruning spares what
  is kept or in use.
\<close>

subsection \<open>Data\<close>

datatype git_failure = ErrAuthenticationRequired string | ErrAuthorizationFailed string | NoErrAlreadyUpToDate | GitError string

fun git_error_text :: "git_failure \<Rightarrow> string" where
  "git_error_text (ErrAuthenticationRequired m) = m"
| "git_error_text (ErrAuthorizationFailed m) = m"
| "git_error_text NoErrAlreadyUpToDate = ''already up-to-date''"
| "git_error_text (GitError m) = m"

text \<open>An advertised reference names a commit by its hash, a 160-bit number, or another reference.\<close>

datatype git_ref = HashReference string nat | SymbolicReference string string

datatype filemode = Regular_Mode | Executable_Mode | Symlink_Mode | Other_Mode

record git_file =
  gf_Name :: string
  gf_Mode :: filemode
  gf_Contents :: "string + string"

datatype git_auth = PublicKeys string string string \<comment> \<open>user, key, known hosts\<close>
  | BasicAuth string string

record 'r gogit =
  gg_OpenError :: "'r \<Rightarrow> string option" \<comment> \<open>\<open>PlainOpen\<close> of a clone that exists\<close>
  gg_Init :: "string + 'r"
  gg_Remote :: "'r \<Rightarrow> string list option" \<comment> \<open>the URLs of \<open>origin\<close>\<close>
  gg_DeleteRemote :: "'r \<Rightarrow> string + 'r"
  gg_CreateRemote :: "string \<Rightarrow> 'r \<Rightarrow> string + 'r"
  gg_Fetch :: "git_auth option \<Rightarrow> 'r \<Rightarrow> 'r \<times> git_failure option"
  gg_List :: "git_auth option \<Rightarrow> 'r \<Rightarrow> git_failure + git_ref list"
  gg_ResolveRevision :: "string \<Rightarrow> 'r \<Rightarrow> string + nat"
  gg_Commit :: "string \<Rightarrow> 'r \<Rightarrow> string option" \<comment> \<open>the error of \<open>CommitObject\<close>\<close>
  gg_Tree :: "string \<Rightarrow> 'r \<Rightarrow> string + git_file list" \<comment> \<open>the files of the commit's tree\<close>
  gg_NewEndpoint :: "string \<Rightarrow> string + string" \<comment> \<open>the user of the URL\<close>
  gg_NewPublicKeys :: "string \<Rightarrow> string \<Rightarrow> string option"
  gg_KnownHosts :: "string \<Rightarrow> string option"

record cache =
  gc_Root :: string
  gc_sha256 :: "string \<Rightarrow> nat"
  gc_allowLocal :: bool

record 'r cache_state =
  cs_disk :: disk
  cs_repos :: "string \<rightharpoonup> 'r"

definition defaultRevision :: string where
  "defaultRevision = ''HEAD''"

definition checkoutMarker :: string where
  "checkoutMarker = ''.kuvryn-sync-checkout''"

definition maxSymlinkHops :: nat where
  "maxSymlinkHops = 40"

text \<open>The low digits of a number in hexadecimal: how \<open>hex.EncodeToString\<close> and \<open>Hash.String\<close> write one.\<close>

definition hex_alphabet :: string where
  "hex_alphabet = ''0123456789abcdef''"

fun hex_digits :: "nat \<Rightarrow> nat \<Rightarrow> string" where
  "hex_digits 0 n = []"
| "hex_digits (Suc k) n = hex_digits k (n div 16) @ [hex_alphabet ! (n mod 16)]"

definition hash_String :: "nat \<Rightarrow> string" where
  "hash_String h = hex_digits 40 h"

abbreviation SourceFailure :: "string \<Rightarrow> source_error" where
  "SourceFailure msg \<equiv> SourceError ''SourceFailure'' msg"

abbreviation ValidationFailure :: "string \<Rightarrow> source_error" where
  "ValidationFailure msg \<equiv> SourceError ''ValidationFailure'' msg"

abbreviation AuthenticationFailure :: "string \<Rightarrow> source_error" where
  "AuthenticationFailure msg \<equiv> SourceError ''AuthenticationFailure'' msg"

definition os_error :: "errno \<Rightarrow> source_error" where
  "os_error e = PlainError (Other_Error (errno_text e))"

subsection \<open>Pruning\<close>

definition canonicalURL :: "string \<Rightarrow> string" where
  "canonicalURL rawURL = TrimSpace rawURL"

definition cacheDir :: "cache \<Rightarrow> string \<Rightarrow> string" where
  "cacheDir C rawURL = JoinPath (gc_Root C) (hex_digits 64 (gc_sha256 C (canonicalURL rawURL)))"

definition cacheKey :: "string \<Rightarrow> bool" where
  "cacheKey name \<longleftrightarrow> length name = 64 \<and> list_all (\<lambda>c. c \<in> set hex_alphabet) name"

definition unusedSince :: "os_env \<Rightarrow> disk \<Rightarrow> string \<Rightarrow> int \<Rightarrow> bool" where
  "unusedSince E d path t = (case Stat E d path of Inl _ \<Rightarrow> False | Inr (_, modTime) \<Rightarrow> modTime < t)"

definition kept :: "cache \<Rightarrow> (string \<times> string list) list \<Rightarrow> string \<Rightarrow> string list option" where
  "kept C keep dir =
     (let mine = filter (\<lambda>(url, commits). cacheDir C url = dir) keep in
      if mine = [] then None else Some (concat (map snd mine)))"

fun prune_worktrees :: "os_env \<Rightarrow> string \<Rightarrow> string list \<Rightarrow> int \<Rightarrow> (string \<times> fnode option) list \<Rightarrow> disk
    \<Rightarrow> disk \<times> string list \<times> source_error list" where
  "prune_worktrees E worktrees commits olderThan [] d = (d, [], [])"
| "prune_worktrees E worktrees commits olderThan (entry # entries) d =
     (let path = JoinPath worktrees (fst entry) in
      if fst entry \<in> set commits \<or> \<not> unusedSince E d path olderThan then prune_worktrees E worktrees commits olderThan entries d
      else
        (case RemoveAll E path d of
           (d', Some e) \<Rightarrow>
             (case prune_worktrees E worktrees commits olderThan entries d' of
                (d'', removed, errs) \<Rightarrow> (d'', removed, SourceFailure ''Could not remove unused source worktree'' # errs))
         | (d', None) \<Rightarrow>
             (case prune_worktrees E worktrees commits olderThan entries d' of
                (d'', removed, errs) \<Rightarrow> (d'', path # removed, errs))))"

definition pruneRepository :: "os_env \<Rightarrow> string \<Rightarrow> string list option \<Rightarrow> int \<Rightarrow> 'r cache_state
    \<Rightarrow> 'r cache_state \<times> string list \<times> source_error list" where
  "pruneRepository E dir commits olderThan s =
     (case commits of
        None \<Rightarrow>
          if \<not> unusedSince E (cs_disk s) dir olderThan then (s, [], [])
          else
            (case RemoveAll E dir (cs_disk s) of
               (d, Some e) \<Rightarrow> (s\<lparr>cs_disk := d\<rparr>, [], [SourceFailure ''Could not remove unused source cache''])
             | (d, None) \<Rightarrow> (\<lparr>cs_disk = d, cs_repos = (cs_repos s)(dir := None)\<rparr>, [dir], []))
      | Some cs \<Rightarrow>
          (let worktrees = JoinPath dir ''worktrees'' in
           case ReadDir E (cs_disk s) worktrees of
             Inl ENOENT \<Rightarrow> (s, [], [])
           | Inl e \<Rightarrow> (s, [], [SourceFailure ''Could not inspect source worktrees''])
           | Inr entries \<Rightarrow>
               (case prune_worktrees E worktrees cs olderThan entries (cs_disk s) of
                  (d, removed, errs) \<Rightarrow> (s\<lparr>cs_disk := d\<rparr>, removed, errs))))"

fun prune_entries :: "os_env \<Rightarrow> cache \<Rightarrow> (string \<times> string list) list \<Rightarrow> int \<Rightarrow> (string \<times> fnode option) list \<Rightarrow> 'r cache_state
    \<Rightarrow> 'r cache_state \<times> string list \<times> source_error list" where
  "prune_entries E C keep olderThan [] s = (s, [], [])"
| "prune_entries E C keep olderThan (entry # entries) s =
     (if snd entry \<noteq> Some FDir \<or> \<not> cacheKey (fst entry) then prune_entries E C keep olderThan entries s
      else
        (let dir = JoinPath (gc_Root C) (fst entry) in
         case pruneRepository E dir (kept C keep dir) olderThan s of
           (s', paths, errs) \<Rightarrow>
             (case prune_entries E C keep olderThan entries s' of
                (s'', paths', errs') \<Rightarrow> (s'', paths @ paths', errs @ errs'))))"

definition Cache_Prune :: "os_env \<Rightarrow> cache \<Rightarrow> (string \<times> string list) list \<Rightarrow> int \<Rightarrow> 'r cache_state
    \<Rightarrow> 'r cache_state \<times> string list \<times> source_error list" where
  "Cache_Prune E C keep olderThan s =
     (case ReadDir E (cs_disk s) (gc_Root C) of
        Inl ENOENT \<Rightarrow> (s, [], [])
      | Inl e \<Rightarrow> (s, [], [SourceFailure ''Could not inspect source cache''])
      | Inr entries \<Rightarrow> prune_entries E C keep olderThan entries s)"

definition markUsed :: "os_env \<Rightarrow> string \<Rightarrow> disk \<Rightarrow> disk \<times> errno option" where
  "markUsed E path d = Chtimes E path (oe_now E) d"

subsection \<open>The clone\<close>

definition put_repo :: "string \<Rightarrow> 'r \<Rightarrow> 'r cache_state \<Rightarrow> 'r cache_state" where
  "put_repo dir repo s = s\<lparr>cs_repos := (cs_repos s)(dir \<mapsto> repo)\<rparr>"

definition PlainOpen :: "os_env \<Rightarrow> 'r gogit \<Rightarrow> string \<Rightarrow> 'r cache_state \<Rightarrow> 'r cache_state \<times> (source_error + 'r)" where
  "PlainOpen E G dir s =
     (case cs_repos s dir of
        Some repo \<Rightarrow>
          (case gg_OpenError G repo of
             Some m \<Rightarrow> (s, Inl (SourceFailure ''Could not open repository cache''))
           | None \<Rightarrow> (s, Inr repo))
      | None \<Rightarrow>
          (case MkdirAll E dir (cs_disk s) of
             (d, Some e) \<Rightarrow> (s\<lparr>cs_disk := d\<rparr>, Inl (SourceFailure ''Could not create repository cache''))
           | (d, None) \<Rightarrow>
               (case gg_Init G of
                  Inl m \<Rightarrow> (s\<lparr>cs_disk := d\<rparr>, Inl (SourceFailure ''Could not open repository cache''))
                | Inr repo \<Rightarrow> (put_repo dir repo (s\<lparr>cs_disk := d\<rparr>), Inr repo))))"

definition openRepository :: "os_env \<Rightarrow> 'r gogit \<Rightarrow> string \<Rightarrow> git_repository \<Rightarrow> 'r cache_state \<Rightarrow> 'r cache_state \<times> (source_error + 'r)" where
  "openRepository E G dir repository s =
     (case PlainOpen E G dir s of
        (s1, Inl err) \<Rightarrow> (s1, Inl err)
      | (s1, Inr repo) \<Rightarrow>
          if gg_Remote G repo = Some [gr_URL repository] then (s1, Inr repo)
          else
            (case (if gg_Remote G repo \<noteq> None then gg_DeleteRemote G repo else Inr repo) of
               Inl m \<Rightarrow> (s1, Inl (SourceFailure ''Could not update repository cache remote''))
             | Inr repo1 \<Rightarrow>
                 (case gg_CreateRemote G (gr_URL repository) repo1 of
                    Inl m \<Rightarrow> (put_repo dir repo1 s1, Inl (SourceFailure ''Could not configure repository cache remote''))
                  | Inr repo2 \<Rightarrow> (put_repo dir repo2 s1, Inr repo2))))"

definition classifyGitError :: "git_failure \<Rightarrow> string \<Rightarrow> source_error" where
  "classifyGitError err msg =
     (case err of
        ErrAuthenticationRequired _ \<Rightarrow> AuthenticationFailure ''Git authentication failed''
      | ErrAuthorizationFailed _ \<Rightarrow> AuthenticationFailure ''Git authentication failed''
      | _ \<Rightarrow>
          (let lower = ToLower (git_error_text err) in
           if Contains lower ''unable to authenticate'' \<or> Contains lower ''knownhosts'' \<or> Contains lower ''host key''
           then AuthenticationFailure ''Git authentication failed''
           else SourceFailure msg))"

definition fetch :: "'r gogit \<Rightarrow> git_auth option \<Rightarrow> 'r \<Rightarrow> 'r \<times> source_error option" where
  "fetch G auth repo =
     (case gg_Fetch G auth repo of
        (repo', None) \<Rightarrow> (repo', None)
      | (repo', Some NoErrAlreadyUpToDate) \<Rightarrow> (repo', None)
      | (repo', Some err) \<Rightarrow> (repo', Some (classifyGitError err ''Git fetch failed'')))"

text \<open>The advertised \<open>HEAD\<close>: the commit itself, or the branch to resolve.\<close>

fun advertised :: "git_ref list \<Rightarrow> string \<Rightarrow> nat + string" where
  "advertised [] revision = Inr revision"
| "advertised (HashReference name h # refs) revision = (if name \<noteq> ''HEAD'' then advertised refs revision else Inl h)"
| "advertised (SymbolicReference name target # refs) revision =
     (if name \<noteq> ''HEAD'' then advertised refs revision else advertised refs target)"

definition resolve_revision :: "'r gogit \<Rightarrow> 'r \<Rightarrow> string \<Rightarrow> source_error + string" where
  "resolve_revision G repo revision =
     (case gg_ResolveRevision G revision repo of
        Inl m \<Rightarrow> Inl (SourceFailure ''Could not resolve Git revision'')
      | Inr h \<Rightarrow> Inr (hash_String h))"

definition resolve_commit :: "'r gogit \<Rightarrow> git_auth option \<Rightarrow> 'r \<Rightarrow> string \<Rightarrow> source_error + string" where
  "resolve_commit G auth repo revision =
     (if revision = defaultRevision then
        (if gg_Remote G repo = None then Inl (SourceFailure ''Could not resolve Git revision'')
         else
           (case gg_List G auth repo of
              Inl err \<Rightarrow> Inl (classifyGitError err ''Could not list Git remote'')
            | Inr refs \<Rightarrow>
                (case advertised refs revision of
                   Inl h \<Rightarrow> Inr (hash_String h)
                 | Inr branch \<Rightarrow>
                     if branch = defaultRevision
                     then Inl (SourceFailure ''Git remote does not advertise a default branch; set a revision'')
                     else resolve_revision G repo branch)))
      else resolve_revision G repo revision)"

subsection \<open>The checkout\<close>

definition inside :: "string \<Rightarrow> string \<Rightarrow> bool" where
  "inside root path = (case Rel root (Clean path) of None \<Rightarrow> False | Some rel \<Rightarrow> IsLocal rel)"

function resolve_loop :: "os_env \<Rightarrow> disk \<Rightarrow> string \<Rightarrow> nat \<Rightarrow> string \<Rightarrow> string list \<Rightarrow> errno + bool" where
  "resolve_loop E d root hops current [] = Inr True"
| "resolve_loop E d root hops current (name # pending) =
     (if name = [] \<or> name = ''.'' then resolve_loop E d root hops current pending
      else if name = ''..'' then
        (if current = root then Inr False else resolve_loop E d root hops (DirOf current) pending)
      else
        (let next_path = JoinPath current name in
         case Lstat E d next_path of
           Inl ENOENT \<Rightarrow> Inr True
         | Inl ENOTDIR \<Rightarrow> Inr True
         | Inl err \<Rightarrow> Inl err
         | Inr (FLink _, _) \<Rightarrow>
             if hops + 1 > maxSymlinkHops then Inr False
             else
               (case Readlink E d next_path of
                  Inl err \<Rightarrow> Inl err
                | Inr target \<Rightarrow>
                    if IsAbs target then Inr False
                    else resolve_loop E d root (hops + 1) current (Split slash target @ pending))
         | Inr _ \<Rightarrow> resolve_loop E d root hops next_path pending))"
  by pat_completeness auto
termination
  by (relation "measures [\<lambda>(E, d, root, hops, current, pending). maxSymlinkHops - hops,
      \<lambda>(E, d, root, hops, current, pending). length pending]") auto

definition resolvesInside :: "os_env \<Rightarrow> disk \<Rightarrow> string \<Rightarrow> string \<Rightarrow> errno + bool" where
  "resolvesInside E d root path =
     (case Rel root path of
        None \<Rightarrow> Inr False
      | Some rel \<Rightarrow> if \<not> inside root path then Inr False else resolve_loop E d root 0 root (Split slash rel))"

text \<open>Writing a new file; when the write itself fails, the empty file stays.\<close>

definition createFile :: "os_env \<Rightarrow> string \<Rightarrow> int \<Rightarrow> string \<Rightarrow> disk \<Rightarrow> disk \<times> errno option" where
  "createFile E path perm contents d =
     (case OpenExcl E path perm d of
        (d1, Inl e) \<Rightarrow> (d1, Some e)
      | (d1, Inr place) \<Rightarrow>
          (case oe_fault E SWrite path of
             Some m \<Rightarrow> (d1, Some (EOTHER m))
           | None \<Rightarrow> (set_node place (FFile perm contents) d1, map_option EOTHER (oe_fault E SClose path))))"

definition writeBlob :: "os_env \<Rightarrow> string \<Rightarrow> int \<Rightarrow> git_file \<Rightarrow> disk \<Rightarrow> disk \<times> source_error option" where
  "writeBlob E path perm f d =
     (case gf_Contents f of
        Inl m \<Rightarrow> (d, Some (PlainError (Other_Error m)))
      | Inr contents \<Rightarrow>
          (case createFile E path perm contents d of (d', r) \<Rightarrow> (d', map_option os_error r)))"

definition write_entry :: "os_env \<Rightarrow> string \<Rightarrow> string \<Rightarrow> git_file \<Rightarrow> disk \<Rightarrow> disk \<times> source_error option" where
  "write_entry E root path f d =
     (case gf_Mode f of
        Symlink_Mode \<Rightarrow>
          (case gf_Contents f of
             Inl m \<Rightarrow> (d, Some (PlainError (Other_Error m)))
           | Inr target \<Rightarrow>
               if IsAbs target \<or> \<not> inside root (JoinPath (DirOf path) target)
               then (d, Some (ValidationFailure (''Git symlink '' @ gf_Name f @ '' points outside the checkout'')))
               else
                 (case Symlink E target path d of
                    (d', Inl e) \<Rightarrow> (d', Some (os_error e))
                  | (d', Inr _) \<Rightarrow> (d', None)))
      | Executable_Mode \<Rightarrow> writeBlob E path 448 f d
      | _ \<Rightarrow> writeBlob E path 384 f d)"

definition writeFile :: "os_env \<Rightarrow> string \<Rightarrow> git_file \<Rightarrow> disk \<Rightarrow> disk \<times> source_error option" where
  "writeFile E root f d =
     (let path = JoinPath root (gf_Name f) in
      if \<not> inside root path then (d, Some (ValidationFailure (''Git path '' @ gf_Name f @ '' escapes the checkout'')))
      else if ToLower (hd (Split slash (gf_Name f))) = ToLower checkoutMarker
      then (d, Some (ValidationFailure (''Git path '' @ gf_Name f @ '' is reserved'')))
      else
        (case resolvesInside E d root path of
           Inl e \<Rightarrow> (d, Some (os_error e))
         | Inr False \<Rightarrow> (d, Some (ValidationFailure (''Git path '' @ gf_Name f @ '' escapes the checkout through a symlink'')))
         | Inr True \<Rightarrow>
             (case MkdirAll E (DirOf path) d of
                (d1, Some e) \<Rightarrow> (d1, Some (os_error e))
              | (d1, None) \<Rightarrow> write_entry E root path f d1)))"

fun write_files :: "os_env \<Rightarrow> string \<Rightarrow> git_file list \<Rightarrow> disk \<Rightarrow> disk \<times> source_error option" where
  "write_files E root [] d = (d, None)"
| "write_files E root (f # fs) d =
     (case writeFile E root f d of
        (d', Some err) \<Rightarrow> (d', Some err)
      | (d', None) \<Rightarrow> write_files E root fs d')"

text \<open>The walk of a directory, in lexical order, links not followed.\<close>

definition walk_entries :: "disk \<Rightarrow> loc \<Rightarrow> loc list" where
  "walk_entries d R = sort (remdups (filter (prefix R) (map fst (dk_nodes d))))"

fun check_links :: "os_env \<Rightarrow> disk \<Rightarrow> string \<Rightarrow> loc \<Rightarrow> loc list \<Rightarrow> source_error option" where
  "check_links E d root R [] = None"
| "check_links E d root R (p # ps) =
     (let path = foldl JoinPath root (drop (length R) p) in
      case disk_node d p of
        Some (FLink _) \<Rightarrow>
          (case resolvesInside E d root path of
             Inl e \<Rightarrow> Some (os_error e)
           | Inr False \<Rightarrow> Some (ValidationFailure (''Git symlink '' @ Relative root path @ '' points outside the checkout''))
           | Inr True \<Rightarrow> check_links E d root R ps)
      | Some FDir \<Rightarrow>
          (case oe_fault E SReadDir path of
             Some m \<Rightarrow> Some (os_error (EOTHER m))
           | None \<Rightarrow> check_links E d root R ps)
      | _ \<Rightarrow> check_links E d root R ps)"

definition checkSymlinks :: "os_env \<Rightarrow> string \<Rightarrow> disk \<Rightarrow> source_error option" where
  "checkSymlinks E root d =
     (case checked E SLstat root (namei d False root) of
        Inl e \<Rightarrow> Some (os_error e)
      | Inr R \<Rightarrow> check_links E d root R (walk_entries d R))"

fun checkout_error :: "source_error \<Rightarrow> source_error" where
  "checkout_error (SourceError reason msg) = SourceError reason msg"
| "checkout_error (PlainError _) = SourceFailure ''Could not check out Git commit''"

text \<open>Publishing: the staging directory takes the place of the checkout.\<close>

definition publish_checkout :: "os_env \<Rightarrow> string \<Rightarrow> string \<Rightarrow> disk \<Rightarrow> disk \<times> (source_error + string)" where
  "publish_checkout E staging worktree d =
     (case RemoveAll E worktree d of
        (d1, Some e) \<Rightarrow> (d1, Inl (SourceFailure ''Could not reset source worktree''))
      | (d1, None) \<Rightarrow>
          (case Rename E staging worktree d1 of
             (d2, Some e) \<Rightarrow> (d2, Inl (SourceFailure ''Could not publish source worktree''))
           | (d2, None) \<Rightarrow> (d2, Inr worktree)))"

text \<open>What happens between the staging directory's creation and its removal.\<close>

definition fill_staging :: "os_env \<Rightarrow> string \<Rightarrow> git_file list \<Rightarrow> string \<Rightarrow> string \<Rightarrow> disk \<Rightarrow> disk \<times> (source_error + string)" where
  "fill_staging E staging fs commit worktree d =
     (case (case write_files E staging fs d of
              (d1, None) \<Rightarrow> (d1, checkSymlinks E staging d1)
            | (d1, Some err) \<Rightarrow> (d1, Some err)) of
        (d1, Some err) \<Rightarrow> (d1, Inl (checkout_error err))
      | (d1, None) \<Rightarrow>
          (case createFile E (JoinPath staging checkoutMarker) 384 commit d1 of
             (d2, Some e) \<Rightarrow> (d2, Inl (SourceFailure ''Could not mark source worktree''))
           | (d2, None) \<Rightarrow> publish_checkout E staging worktree d2))"

text \<open>The directory of a new checkout, filled beside its place; the staging directory is removed whatever
  happened.\<close>

definition new_checkout :: "os_env \<Rightarrow> git_file list \<Rightarrow> string \<Rightarrow> string \<Rightarrow> disk \<Rightarrow> disk \<times> (source_error + string)" where
  "new_checkout E fs commit worktree d =
     (case MkdirAll E (DirOf worktree) d of
        (d1, Some e) \<Rightarrow> (d1, Inl (SourceFailure ''Could not create source worktree''))
      | (d1, None) \<Rightarrow>
          (case MkdirTemp E (DirOf worktree) (commit @ ''-'') d1 of
             (d2, Inl e) \<Rightarrow> (d2, Inl (SourceFailure ''Could not create source worktree''))
           | (d2, Inr staging) \<Rightarrow>
               (case fill_staging E staging fs commit worktree d2 of
                  (d3, res) \<Rightarrow> (fst (RemoveAll E staging d3), res))))"

definition materializeWorktree :: "os_env \<Rightarrow> 'r gogit \<Rightarrow> 'r \<Rightarrow> string \<Rightarrow> string \<Rightarrow> disk \<Rightarrow> disk \<times> (source_error + string)" where
  "materializeWorktree E G repo dir commit d =
     (let worktree = JoinPath (JoinPath dir ''worktrees'') commit in
      case Stat E d (JoinPath worktree checkoutMarker) of
        Inr _ \<Rightarrow> (d, Inr worktree)
      | Inl e \<Rightarrow>
          if e \<noteq> ENOENT then (d, Inl (SourceFailure ''Could not inspect source worktree''))
          else if gg_Commit G commit repo \<noteq> None then (d, Inl (SourceFailure ''Could not read Git commit''))
          else
            (case gg_Tree G commit repo of
               Inl m \<Rightarrow> (d, Inl (SourceFailure ''Could not read Git tree''))
             | Inr fs \<Rightarrow> new_checkout E fs commit worktree d))"

subsection \<open>Credentials and resolution\<close>

definition knownHostsCallback :: "os_env \<Rightarrow> 'r gogit \<Rightarrow> string \<Rightarrow> source_error + string" where
  "knownHostsCallback E G knownHosts =
     (if oe_fault E SOpen ''kuvryn-sync-known-hosts'' \<noteq> None \<or> oe_fault E SWrite ''kuvryn-sync-known-hosts'' \<noteq> None \<or>
         oe_fault E SClose ''kuvryn-sync-known-hosts'' \<noteq> None
      then Inl (AuthenticationFailure ''Could not prepare Git known_hosts'')
      else if gg_KnownHosts G knownHosts \<noteq> None then Inl (AuthenticationFailure ''Git known_hosts is invalid'')
      else Inr knownHosts)"

definition AuthMethod :: "os_env \<Rightarrow> 'r gogit \<Rightarrow> git_repository \<Rightarrow> source_error + git_auth option" where
  "AuthMethod E G repository =
     (let cr = gr_Auth repository in
      if isSSH (gr_URL repository) then
        (case gg_NewEndpoint G (gr_URL repository) of
           Inl m \<Rightarrow> Inl (ValidationFailure ''Git repository URL is invalid'')
         | Inr endpointUser \<Rightarrow>
             (let user = (if endpointUser = [] then ''git'' else endpointUser) in
              if cr_SSHKey cr = [] then Inl (AuthenticationFailure ''SSH Git repository requires an SSH private key Secret'')
              else if gg_NewPublicKeys G user (cr_SSHKey cr) \<noteq> None
              then Inl (AuthenticationFailure ''Git SSH private key is invalid'')
              else if TrimSpace (cr_KnownHosts cr) = []
              then Inl (AuthenticationFailure ''SSH Git repository requires known_hosts in the credentials Secret'')
              else
                (case knownHostsCallback E G (cr_KnownHosts cr) of
                   Inl err \<Rightarrow> Inl err
                 | Inr hosts \<Rightarrow> Inr (Some (PublicKeys user (cr_SSHKey cr) hosts)))))
      else if cr_Token cr \<noteq> [] then
        Inr (Some (BasicAuth (if cr_Username cr = [] then ''oauth2'' else cr_Username cr) (cr_Token cr)))
      else if cr_Password cr \<noteq> [] then Inr (Some (BasicAuth (cr_Username cr) (cr_Password cr)))
      else Inr None)"

definition mark_both :: "os_env \<Rightarrow> string \<Rightarrow> string \<Rightarrow> disk \<Rightarrow> disk \<times> bool" where
  "mark_both E dir worktree d =
     (case markUsed E dir d of
        (d1, r1) \<Rightarrow> (case markUsed E worktree d1 of (d2, r2) \<Rightarrow> (d2, r1 = None \<and> r2 = None)))"

definition resolve_locked :: "os_env \<Rightarrow> 'r gogit \<Rightarrow> string \<Rightarrow> git_auth option \<Rightarrow> git_repository \<Rightarrow> string \<Rightarrow> 'r cache_state
    \<Rightarrow> 'r cache_state \<times> (source_error + resolved_source)" where
  "resolve_locked E G dir auth repository revision s =
     (case openRepository E G dir repository s of
        (s1, Inl err) \<Rightarrow> (s1, Inl err)
      | (s1, Inr repo) \<Rightarrow>
          (case fetch G auth repo of
             (repo', Some err) \<Rightarrow> (put_repo dir repo' s1, Inl err)
           | (repo', None) \<Rightarrow>
               (let s2 = put_repo dir repo' s1 in
                case resolve_commit G auth repo' revision of
                  Inl err \<Rightarrow> (s2, Inl err)
                | Inr commit \<Rightarrow>
                    (case materializeWorktree E G repo' dir commit (cs_disk s2) of
                       (d, Inl err) \<Rightarrow> (s2\<lparr>cs_disk := d\<rparr>, Inl err)
                     | (d, Inr worktree) \<Rightarrow>
                         (case mark_both E dir worktree d of
                            (d', ok) \<Rightarrow>
                              (s2\<lparr>cs_disk := d'\<rparr>,
                               if ok then Inr \<lparr>res_Revision = commit, res_CacheDir = worktree\<rparr>
                               else Inl (SourceFailure ''Could not mark source cache as used'')))))))"

definition Resolve :: "os_env \<Rightarrow> 'r gogit \<Rightarrow> cache \<Rightarrow> git_repository \<Rightarrow> 'r cache_state
    \<Rightarrow> 'r cache_state \<times> (source_error + resolved_source)" where
  "Resolve E G C repository s =
     (if TrimSpace (gr_URL repository) = [] then (s, Inl (ValidationFailure ''Git repository URL is required''))
      else
        (let revision = (if TrimSpace (gr_Revision repository) = [] then defaultRevision else TrimSpace (gr_Revision repository)) in
         if \<not> RemoteURL (gr_URL repository) \<and> \<not> gc_allowLocal C
         then (s, Inl (ValidationFailure ''Git repository URL must use https, http, ssh, or git''))
         else
           (case MkdirAll E (gc_Root C) (cs_disk s) of
              (d, Some e) \<Rightarrow> (s\<lparr>cs_disk := d\<rparr>, Inl (SourceFailure ''Could not create source cache''))
            | (d, None) \<Rightarrow>
                (case AuthMethod E G repository of
                   Inl err \<Rightarrow> (s\<lparr>cs_disk := d\<rparr>, Inl err)
                 | Inr auth \<Rightarrow>
                     resolve_locked E G (cacheDir C (gr_URL repository)) auth repository revision (s\<lparr>cs_disk := d\<rparr>)))))"

subsection \<open>Containment\<close>

lemma inside_below:
  assumes "inside (path_of True R) (path_of True q)" "names R" "names q"
  shows "\<exists>x. q = R @ x"
  using assms Rel_local_below [OF assms(2,3)] by (auto simp: inside_def Clean_path_of split: option.splits)

text \<open>What \<open>os.Lstat\<close> and \<open>os.Readlink\<close> say of an entry of a real directory.\<close>

lemma Lstat_entry:
  assumes "tree (disk_node d)" "disk_node d p = Some FDir" "names [n]" "Lstat E d (path_of True (p @ [n])) = res"
  shows "(\<exists>m. res = Inl (EOTHER m)) \<or> res = (case disk_node d (p @ [n]) of None \<Rightarrow> Inl ENOENT | Some v \<Rightarrow> Inr (v, dk_mtime d (p @ [n])))"
proof (cases "oe_fault E SLstat (path_of True (p @ [n]))")
  case None
  have nm: "names (p @ [n])"
    using assms(3) tree_names [OF assms(1,2)] by simp
  show ?thesis
  proof (cases "disk_node d (p @ [n])")
    case None
    then have "path_walk (disk_node d) False maxLinks [] (p @ [n]) = Inl ENOENT"
      using walk_missing [OF assms(1) nm, of "[]" FDir] assms(2) by simp
    then show ?thesis
      using \<open>oe_fault _ _ _ = None\<close> None assms(4) namei_path_of [OF assms(1) nm] by (auto simp: Lstat_def checked_def info_at_def)
  next
    case (Some v)
    then have "path_walk (disk_node d) False maxLinks [] (p @ [n]) = Inr (p @ [n], maxLinks)"
      using walk_entry [OF assms(1) nm, of "[]" v False] by simp
    then show ?thesis
      using \<open>oe_fault _ _ _ = None\<close> Some assms(4) namei_path_of [OF assms(1) nm] by (auto simp: Lstat_def checked_def info_at_def)
  qed
qed (use assms(4) in \<open>auto simp: Lstat_def checked_def\<close>)

lemma Readlink_entry:
  assumes "tree (disk_node d)" "disk_node d (p @ [n]) = Some (FLink target)" "Readlink E d (path_of True (p @ [n])) = Inr t"
  shows "t = target"
proof -
  have "path_walk (disk_node d) False maxLinks [] (p @ [n]) = Inr (p @ [n], maxLinks)"
    using walk_entry [OF assms(1) tree_names [OF assms(1,2)], of "[]"] assms(2) by simp
  then show ?thesis
    using assms(2,3) namei_path_of [OF assms(1) tree_names [OF assms(1,2)]]
    by (auto simp: Readlink_def checked_def info_at_def split: option.splits)
qed

text \<open>Where \<open>resolvesInside\<close> says yes, the path stays inside.\<close>

lemma resolve_loop_stays:
  assumes "tree (disk_node d)" "names R"
  shows "resolve_loop E d (path_of True R) hops (path_of True (R @ x)) ps = Inr True \<Longrightarrow>
    names x \<Longrightarrow> disk_node d (R @ x) = Some n \<Longrightarrow> \<forall>t. n \<noteq> FLink t \<Longrightarrow> \<forall>p \<in> set ps. slash \<notin> set p \<Longrightarrow>
    stays (subtree (disk_node d) R) (maxLinks - hops) x ps"
proof (induction "(maxSymlinkHops - hops, length ps)" arbitrary: hops x ps n
      rule: wf_induct_rule [OF wf_lex_prod [OF wf_less_than wf_less_than]])
  case 1
  note ih = 1(1) and run = 1(2) and nx = 1(3) and here = 1(4,5) and ns = 1(6)
  show ?case
  proof (cases ps)
    case (Cons name rest)
    have ih_rest: "stays (subtree (disk_node d) R) (maxLinks - hops) y rest"
      if "resolve_loop E d (path_of True R) hops (path_of True (R @ y)) rest = Inr True" "names y" "disk_node d (R @ y) = Some m" "\<forall>t. m \<noteq> FLink t"
      for y m
      by (rule ih [OF _ that]) (use Cons ns in auto)
    show ?thesis
    proof (cases "disk_node d (R @ x) = Some FDir")
      case dir: True
      consider "name = [] \<or> name = ''.''" | "name = ''..''" | "names [name]"
        using Cons ns by fastforce
      then show ?thesis
      proof cases
        case 1
        then show ?thesis
          using ih_rest [OF _ nx here] run Cons dir by auto
      next
        case 2
        have "x \<noteq> []"
          using run Cons 2 by auto
        then obtain y z where yz: "x = y @ [z]"
          by (metis rev_exhaust)
        have "resolve_loop E d (path_of True R) hops (DirOf (path_of True (R @ x))) rest = Inr True"
          using run Cons 2 by (auto split: if_splits)
        moreover have "DirOf (path_of True (R @ x)) = path_of True (R @ y)"
          using DirOf_path_of [of "R @ y" z] assms(2) nx yz by simp
        moreover have "disk_node d (R @ y) = Some FDir"
          using tree_parent [OF assms(1), of "R @ y" z] dir yz by simp
        ultimately show ?thesis
          using ih_rest [of y FDir] Cons 2 dir nx yz by auto
      next
        case 3
        have nxt: "JoinPath (path_of True (R @ x)) name = path_of True ((R @ x) @ [name])"
          using JoinPath_name [of "R @ x" name] assms(2) nx 3 by simp
        let ?l = "Lstat E d (path_of True ((R @ x) @ [name]))"
        have l: "(\<exists>m. ?l = Inl (EOTHER m)) \<or>
            ?l = (case disk_node d ((R @ x) @ [name]) of None \<Rightarrow> Inl ENOENT | Some v \<Rightarrow> Inr (v, dk_mtime d ((R @ x) @ [name])))"
          by (rule Lstat_entry [OF assms(1) dir 3]) simp
        show ?thesis
        proof (cases "disk_node d ((R @ x) @ [name])")
          case None
          then show ?thesis
            using Cons dir 3 by simp
        next
          case (Some v)
          then have lv: "?l = Inr (v, dk_mtime d ((R @ x) @ [name]))"
            using l run Cons 3 nxt by auto
          show ?thesis
          proof (cases v)
            case (FLink target)
            let ?rl = "Readlink E d (path_of True ((R @ x) @ [name]))"
            have link: "hops + 1 \<le> maxSymlinkHops"
              using run Cons 3 nxt lv FLink by (auto split: if_splits)
            obtain t where "?rl = Inr t"
              using run Cons 3 nxt lv FLink link by (cases ?rl) auto
            then have rl: "?rl = Inr target"
              using Readlink_entry [OF assms(1), of "R @ x" name target E t] Some FLink by simp
            have "\<not> IsAbs target" and rec: "resolve_loop E d (path_of True R) (hops + 1) (path_of True (R @ x)) (Split slash target @ rest) = Inr True"
              using run Cons 3 nxt lv FLink link rl by (auto split: if_splits)
            moreover have "stays (subtree (disk_node d) R) (maxLinks - (hops + 1)) x (Split slash target @ rest)"
              by (rule ih [OF _ rec nx here]) (use link Cons ns in \<open>auto dest: Split_no_sep\<close>)
            ultimately show ?thesis
              using Cons dir 3 Some FLink link by (simp add: maxLinks_def maxSymlinkHops_def)
          qed (use run Cons 3 nxt lv dir Some nx ih_rest [of "x @ [name]" v] in simp_all)
        qed
      qed
    qed (use Cons here in auto)
  qed simp
qed

lemma resolvesInside_stays:
  assumes "resolvesInside E d (path_of True R) (path_of True (R @ x)) = Inr True" "tree (disk_node d)" "names (R @ x)" "disk_node d R = Some FDir"
  shows "stays (subtree (disk_node d) R) maxLinks [] x"
proof (cases "x = []")
  case False
  have run: "resolve_loop E d (path_of True R) 0 (path_of True (R @ [])) x = Inr True"
    using assms(1) False Rel_path_of [OF assms(3)] Split_Join [of x] assms(3)
    by (auto simp: resolvesInside_def names_def split: if_splits)
  have "stays (subtree (disk_node d) R) (maxLinks - 0) [] x"
    by (rule resolve_loop_stays [OF assms(2) _ run]) (use assms(3,4) in \<open>auto simp: names_def plain_def\<close>)
  then show ?thesis
    by simp
qed simp

subsection \<open>Writing a checkout\<close>

lemma createFile_cases:
  assumes "createFile E (path_of True (ps @ [n])) perm contents d = (d', res)" "tree (disk_node d)" "names (ps @ [n])"
  obtains (Failed) e where "res = Some e" "d' = d"
  | (Added) p k body where "path_walk (disk_node d) True maxLinks [] ps = Inr (p, k)" "disk_node d p = Some FDir"
      "disk_node d (p @ [n]) = None" "disk_node d' = (disk_node d)(p @ [n] \<mapsto> FFile perm body)" "res = None \<longrightarrow> body = contents"
proof -
  obtain d1 r1 where add: "add_entry E SOpen (FFile perm []) (path_of True (ps @ [n])) d = (d1, r1)"
    by fastforce
  from add assms(2,3) show ?thesis
  proof (cases rule: add_entry_cases)
    case (Failed e)
    then show ?thesis
      using that(1) [of e] add assms(1) by (simp add: createFile_def OpenExcl_def)
  next
    case (Added p k)
    note entry = that(2) [OF Added(2-4)]
    show ?thesis
    proof (cases "oe_fault E SWrite (path_of True (ps @ [n]))")
      case None
      then show ?thesis
        using entry [of contents] Added(1,5) add assms(1) by (auto simp: createFile_def OpenExcl_def)
    next
      case (Some m)
      then show ?thesis
        using entry [of "[]"] Added(1,5) add assms(1) by (auto simp: createFile_def OpenExcl_def)
    qed
  qed
qed

text \<open>Every entry a checkout makes goes into the directory its parent path leads to.\<close>

lemma write_entry_grows:
  assumes "write_entry E root (path_of True (ps @ [n])) f d = (d', res)" "tree (disk_node d)" "names (ps @ [n])"
    and place: "\<And>p k. path_walk (disk_node d) True maxLinks [] ps = Inr (p, k) \<Longrightarrow> disk_node d (p @ [n]) = None \<Longrightarrow> Q (p @ [n])"
  shows "grows (\<lambda>p m. Q p) d d'"
proof -
  have grow: "grows (\<lambda>p m. Q p) d d1"
    if "path_walk (disk_node d) True maxLinks [] ps = Inr (p, k)" "disk_node d p = Some FDir" "disk_node d (p @ [n]) = None" "disk_node d1 = (disk_node d)(p @ [n] \<mapsto> m)"
    for p k m d1
    using grows_entry [OF assms(2) that(2-4), of "\<lambda>p m. Q p"] place [OF that(1,3)] assms(3) by simp
  have blob: "grows (\<lambda>p m. Q p) d d'" if wb: "writeBlob E (path_of True (ps @ [n])) perm f d = (d', res)" for perm
  proof (cases "gf_Contents f")
    case (Inr contents)
    obtain r where "createFile E (path_of True (ps @ [n])) perm contents d = (d', r)"
      using wb Inr by (auto simp: writeBlob_def split: prod.splits)
    then show ?thesis
      using assms(2,3) by (cases rule: createFile_cases) (auto intro: grow grows_refl [OF assms(2)])
  qed (use wb assms(2) in \<open>auto simp: writeBlob_def\<close>)
  have link: "grows (\<lambda>p m. Q p) d d1" if "add_entry E SSymlink (FLink target) (path_of True (ps @ [n])) d = (d1, r)" for target d1 r
    using that assms(2,3) by (cases rule: add_entry_cases) (auto intro: grow grows_refl [OF assms(2)])
  show ?thesis
  proof (cases "gf_Mode f")
    case Symlink_Mode
    show ?thesis
    proof (cases "gf_Contents f")
      case (Inr target)
      then show ?thesis
        using assms(1,2) Symlink_Mode link [of target]
        by (cases "add_entry E SSymlink (FLink target) (path_of True (ps @ [n])) d")
          (auto simp: write_entry_def Symlink_def split: if_splits sum.splits)
    qed (use assms(1,2) Symlink_Mode in \<open>auto simp: write_entry_def\<close>)
  qed (use assms(1) blob in \<open>auto simp: write_entry_def\<close>)
qed

lemma writeFile_grows:
  assumes "writeFile E (path_of True R) f d = (d', res)" "tree (disk_node d)" "disk_node d R = Some FDir" "R \<noteq> []"
  shows "grows (\<lambda>p m. prefix R p) d d'"
proof -
  have nR: "names R"
    using tree_names [OF assms(2,3)] .
  define q where "q = clean_parts True (List.rev R) (Split slash (gf_Name f))"
  have path: "JoinPath (path_of True R) (gf_Name f) = path_of True q" and nq: "names q"
    using JoinPath_path_of [OF nR] names_clean_parts [OF nR] by (auto simp: q_def)
  consider "d' = d"
    | "inside (path_of True R) (path_of True q)" "resolvesInside E d (path_of True R) (path_of True q) = Inr True"
    using assms(1) path by (auto simp: writeFile_def Let_def split: if_splits sum.splits bool.splits)
  then show ?thesis
  proof cases
    case 1
    then show ?thesis
      using assms(2) by simp
  next
    case 2
    then obtain x where x: "q = R @ x"
      using inside_below [OF _ nR nq] by blast
    have st: "stays (subtree (disk_node d) R) maxLinks [] x"
      using resolvesInside_stays [OF _ assms(2) _ assms(3)] 2 nq x by blast
    have rest: "(case MkdirAll E (DirOf (path_of True q)) d of
          (d1, Some e) \<Rightarrow> (d1, Some (os_error e))
        | (d1, None) \<Rightarrow> write_entry E (path_of True R) (path_of True q) f d1) = (d', res) \<or> d' = d"
      using assms(1) path 2 by (auto simp: writeFile_def Let_def split: if_splits)
    obtain d1 r1 where mk: "MkdirAll E (DirOf (path_of True q)) d = (d1, r1)"
      by fastforce
    show ?thesis
    proof (cases "x = []")
      case True
      obtain R0 r where R: "R = R0 @ [r]"
        using assms(4) by (metis rev_exhaust)
      have q: "q = R0 @ [r]" and dir: "disk_node d R0 = Some FDir"
        using x True R tree_parent [OF assms(2), of R0 r] assms(3) by auto
      have "d1 = d"
        using mk mkdir_all_exists [OF assms(2) dir, of E] q nq by (simp add: MkdirAll_def)
      have "grows (\<lambda>p m. prefix R p) d d2" if we: "write_entry E (path_of True R) (path_of True q) f d = (d2, r2)" for d2 r2
      proof (rule write_entry_grows [OF we [unfolded q] assms(2)])
        fix p k
        assume "path_walk (disk_node d) True maxLinks [] R0 = Inr (p, k)" "disk_node d (p @ [r]) = None"
        moreover have "path_walk (disk_node d) True maxLinks [] R0 = Inr (R0, maxLinks)"
          using walk_real [OF assms(2), of R0 "[]" FDir True maxLinks "[]"] dir nR R by simp
        ultimately show "prefix R (p @ [r])"
          using assms(3) R by simp
      qed (use nq q in simp)
      then show ?thesis
        using rest mk \<open>d1 = d\<close> assms(2) by (cases r1) auto
    next
      case False
      then obtain y n where yn: "x = y @ [n]"
        by (metis rev_exhaust)
      have q: "q = (R @ y) @ [n]" and nRy: "names ((R @ y) @ [n])"
        using x yn nq by auto
      have mk': "MkdirAll E (path_of True (R @ y)) d = (d1, r1)"
        using mk DirOf_path_of [OF nRy] q by simp
      have sy: "stays (subtree (disk_node d) R) maxLinks [] y"
        using stays_append st yn by blast
      note all = MkdirAll_inside [OF assms(2) _ assms(3) sy mk']
      have g1: "grows (\<lambda>p m. prefix R p) d d1"
        using all(1) nRy by (auto elim: grows_mono)
      have "grows (\<lambda>p m. prefix R p) d1 d2"
        if we: "write_entry E (path_of True R) (path_of True q) f d1 = (d2, r2)" and "r1 = None" for d2 r2
      proof (rule write_entry_grows [OF we [unfolded q] grows_tree [OF g1] nRy])
        fix p k
        assume "path_walk (disk_node d1) True maxLinks [] (R @ y) = Inr (p, k)"
        then show "prefix R (p @ [n])"
          using all(2) nRy \<open>r1 = None\<close> by auto
      qed
      then show ?thesis
        using rest mk g1 grows_trans [OF g1] assms(2) by (cases r1) auto
    qed
  qed
qed

lemma write_files_grows:
  assumes "write_files E (path_of True R) fs d = (d', res)" "tree (disk_node d)" "disk_node d R = Some FDir" "R \<noteq> []"
  shows "grows (\<lambda>p m. prefix R p) d d'"
  using assms
proof (induction fs arbitrary: d)
  case (Cons f fs)
  obtain d1 r1 where w: "writeFile E (path_of True R) f d = (d1, r1)"
    by fastforce
  note g1 = writeFile_grows [OF w Cons.prems(2-4)]
  show ?case
  proof (cases r1)
    case None
    then have "grows (\<lambda>p m. prefix R p) d1 d'"
      using Cons.IH [of d1] Cons.prems(1,4) w grows_tree [OF g1] grows_keeps [OF g1 Cons.prems(3)] by simp
    then show ?thesis
      using grows_trans [OF g1] by blast
  qed (use Cons.prems(1) w g1 in auto)
qed simp

lemma foldl_JoinPath: "names (R @ x) \<Longrightarrow> foldl JoinPath (path_of True R) x = path_of True (R @ x)"
proof (induction x arbitrary: R)
  case (Cons n x)
  then show ?case
    using Cons.IH [of "R @ [n]"] by simp
qed simp

lemma check_links_sound:
  "check_links E d root R ps = None \<Longrightarrow> p \<in> set ps \<Longrightarrow> disk_node d p = Some (FLink t) \<Longrightarrow>
   resolvesInside E d root (foldl JoinPath root (drop (length R) p)) = Inr True"
  by (induction ps) (auto simp: Let_def split: option.splits fnode.splits sum.splits bool.splits)

text \<open>A tree that \<open>checkSymlinks\<close> passes is sealed.\<close>

lemma checkSymlinks_sealed:
  assumes "checkSymlinks E (path_of True R) d = None" "tree (disk_node d)" "disk_node d R = Some FDir"
  shows "sealed (subtree (disk_node d) R)"
  unfolding sealed_def
proof (intro allI impI)
  fix x t
  assume "subtree (disk_node d) R x = Some (FLink t)"
  then have link: "disk_node d (R @ x) = Some (FLink t)"
    by simp
  have nR: "names R"
    using tree_names [OF assms(2,3)] .
  have "namei d False (path_of True R) = Inr R"
    using namei_path_of [OF assms(2) nR] walk_real [OF assms(2) nR, of "[]" FDir False maxLinks "[]"] assms(3) by simp
  then have "check_links E d (path_of True R) R (walk_entries d R) = None"
    using assms(1) by (auto simp: checkSymlinks_def checked_def split: option.splits)
  moreover have "R @ x \<in> set (walk_entries d R)"
    using link map_of_mem_keys [of "dk_nodes d" "R @ x"] by (auto simp: walk_entries_def disk_node_def)
  ultimately have "resolvesInside E d (path_of True R) (foldl JoinPath (path_of True R) (drop (length R) (R @ x))) = Inr True"
    using check_links_sound link by blast
  then show "stays (subtree (disk_node d) R) maxLinks [] x"
    using resolvesInside_stays [OF _ assms(2) tree_names [OF assms(2) link] assms(3)]
      foldl_JoinPath [OF tree_names [OF assms(2) link]] by simp
qed

lemma marker_name [simp]: "names [checkoutMarker]"
  by (simp add: checkoutMarker_def)

lemma grows_frame: "grows (\<lambda>p m. prefix S p) d d' \<Longrightarrow> \<not> prefix S q \<Longrightarrow> disk_node d' q = disk_node d q"
  by (rule grows_same) auto

text \<open>The marker leaves a sealed staging directory sealed.\<close>

lemma mark_staging:
  assumes "createFile E (path_of True (S @ [checkoutMarker])) 384 commit d = (d', res)" "tree (disk_node d)" "disk_node d S = Some FDir"
    and "sealed (subtree (disk_node d) S)"
  shows "tree (disk_node d')" and "\<not> prefix S q \<Longrightarrow> disk_node d' q = disk_node d q" and "disk_node d' S = Some FDir"
    and "res = None \<Longrightarrow> sealed (subtree (disk_node d') S) \<and> disk_node d' (S @ [checkoutMarker]) = Some (FFile 384 commit)"
proof -
  have nS: "names S" and nm: "names (S @ [checkoutMarker])"
    using tree_names [OF assms(2,3)] marker_name by (simp_all only: names_simps(3))
  have "tree (disk_node d') \<and> (\<forall>q. \<not> prefix S q \<longrightarrow> disk_node d' q = disk_node d q) \<and> disk_node d' S = Some FDir \<and>
      (res = None \<longrightarrow> sealed (subtree (disk_node d') S) \<and> disk_node d' (S @ [checkoutMarker]) = Some (FFile 384 commit))"
    using assms(1,2) nm
  proof (cases rule: createFile_cases)
    case (Added p k body)
    have p: "p = S"
      using Added(1) walk_real [OF assms(2) nS, of "[]" FDir True maxLinks "[]"] assms(3) by simp
    have "subtree (disk_node d') S = (subtree (disk_node d) S)([checkoutMarker] \<mapsto> FFile 384 body)"
      using Added(4) p by (auto simp: subtree_def fun_eq_iff)
    then have "sealed (subtree (disk_node d') S)"
      using sealed_add_file [OF assms(4), of "[checkoutMarker]" 384 body] Added(3) p by simp
    moreover have "tree (disk_node d')"
      using tree_insert [OF assms(2) Added(2) marker_name Added(3)] Added(4) by simp
    ultimately show ?thesis
      using Added(3-5) p assms(3) by auto
  qed (use assms in simp)
  then show "tree (disk_node d')" "\<not> prefix S q \<Longrightarrow> disk_node d' q = disk_node d q" "disk_node d' S = Some FDir"
    "res = None \<Longrightarrow> sealed (subtree (disk_node d') S) \<and> disk_node d' (S @ [checkoutMarker]) = Some (FFile 384 commit)"
    by simp_all
qed

lemma publish_effect:
  assumes "publish_checkout E (path_of True (V @ [s])) (path_of True (V @ [c])) d = (d', res)"
    and "tree (disk_node d)" "disk_node d (V @ [s]) = Some FDir" "names [c]" "s \<noteq> c"
  shows "tree (disk_node d') \<and> (\<forall>q. \<not> prefix (V @ [s]) q \<longrightarrow> \<not> prefix (V @ [c]) q \<longrightarrow> disk_node d' q = disk_node d q) \<and>
    (case res of
       Inr w \<Rightarrow> w = path_of True (V @ [c]) \<and> subtree (disk_node d') (V @ [c]) = subtree (disk_node d) (V @ [s])
     | Inl _ \<Rightarrow> subtree (disk_node d') (V @ [c]) = subtree (disk_node d) (V @ [c]) \<or> subtree (disk_node d') (V @ [c]) = (\<lambda>x. None))"
proof -
  let ?S = "V @ [s]" and ?W = "V @ [c]"
  have apart: "\<not> prefix ?W (?S @ x)" for x
    using assms(5) by (auto simp: prefix_def)
  have ns: "names [s]" and dV: "disk_node d V = Some FDir"
    using tree_names [OF assms(2,3)] tree_parent [OF assms(2,3)] by auto
  obtain d1 r1 where ra: "RemoveAll E (path_of True ?W) d = (d1, r1)"
    by fastforce
  note rm = RemoveAll_real [OF ra assms(2) dV assms(4)]
  show ?thesis
  proof (cases r1)
    case (Some e)
    then show ?thesis
      using assms(1,2) ra rm(2) by (auto simp: publish_checkout_def)
  next
    case None
    have n1: "disk_node d1 q = (if prefix ?W q then None else disk_node d q)" for q
      using rm(3) [OF None] .
    have dV1: "disk_node d1 V = Some FDir"
      using n1 [of V] dV by (auto simp: prefix_def)
    obtain d2 r2 where rn: "Rename E (path_of True ?S) (path_of True ?W) d1 = (d2, r2)"
      by fastforce
    note mv = Rename_real [OF rn rm(1) dV1 ns assms(4,5)]
    show ?thesis
    proof (cases r2)
      case (Some e)
      have "subtree (disk_node d1) ?W = (\<lambda>x. None)"
        using n1 by (auto simp: subtree_def)
      then show ?thesis
        using assms(1) ra None rn Some mv(2) rm(1) n1 by (auto simp: publish_checkout_def)
    next
      case none: None
      have n2: "disk_node d2 q = (if prefix ?W q then disk_node d1 (?S @ drop (length ?W) q) else if prefix ?S q then None else disk_node d1 q)" for q
        using mv(3) [OF none] .
      have "subtree (disk_node d2) ?W = subtree (disk_node d) ?S"
        unfolding subtree_def n2 n1 using apart by auto
      then show ?thesis
        using assms(1) ra None rn none mv(1) n1 n2 by (auto simp: publish_checkout_def)
    qed
  qed
qed

text \<open>Filling a staging directory: nothing outside it and the checkout it replaces changes, and what is
  published is sealed.\<close>

lemma fill_staging_effect:
  assumes "fill_staging E (path_of True (V @ [s])) fs commit (path_of True (V @ [c])) d = (d', res)"
    and "tree (disk_node d)" "disk_node d (V @ [s]) = Some FDir" "names [c]" "s \<noteq> c"
  shows "tree (disk_node d') \<and> (\<forall>q. \<not> prefix (V @ [s]) q \<longrightarrow> \<not> prefix (V @ [c]) q \<longrightarrow> disk_node d' q = disk_node d q) \<and>
    (case res of
       Inr w \<Rightarrow> w = path_of True (V @ [c]) \<and> sealed (subtree (disk_node d') (V @ [c])) \<and>
         disk_node d' (V @ [c]) = Some FDir \<and> disk_node d' (V @ [c, checkoutMarker]) = Some (FFile 384 commit)
     | Inl _ \<Rightarrow> subtree (disk_node d') (V @ [c]) = subtree (disk_node d) (V @ [c]) \<or> subtree (disk_node d') (V @ [c]) = (\<lambda>x. None))"
proof -
  let ?S = "V @ [s]" and ?W = "V @ [c]"
  have nS: "names ?S"
    using tree_names [OF assms(2,3)] .
  have apart: "\<not> prefix ?S (?W @ x)" for x
    using assms(5) by (auto simp: prefix_def)
  obtain d1 r1 where w: "write_files E (path_of True ?S) fs d = (d1, r1)"
    by fastforce
  have g1: "grows (\<lambda>p m. prefix ?S p) d d1"
    using write_files_grows [OF w assms(2,3)] by simp
  note t1 = grows_tree [OF g1] and S1 = grows_keeps [OF g1 assms(3)] and same1 = grows_frame [OF g1]
  show ?thesis
  proof (cases "r1 = None \<and> checkSymlinks E (path_of True ?S) d1 = None")
    case False
    then have "d' = d1" "\<exists>e. res = Inl e"
      using assms(1) w by (auto simp: fill_staging_def split: option.splits)
    then show ?thesis
      using t1 same1 apart by (auto simp: subtree_def)
  next
    case True
    obtain d2 r2 where cf: "createFile E (path_of True (?S @ [checkoutMarker])) 384 commit d1 = (d2, r2)"
      by fastforce
    note mark = mark_staging [OF cf t1 S1 checkSymlinks_sealed [OF conjunct2 [OF True] t1 S1]]
    have run: "fill_staging E (path_of True ?S) fs commit (path_of True ?W) d =
        (if r2 = None then publish_checkout E (path_of True ?S) (path_of True ?W) d2
         else (d2, Inl (SourceFailure ''Could not mark source worktree'')))"
      using w True cf JoinPath_name [OF nS marker_name] by (auto simp: fill_staging_def split: option.splits)
    show ?thesis
    proof (cases r2)
      case (Some e)
      then show ?thesis
        using assms(1) run mark(1,2) same1 apart by (auto simp: subtree_def)
    next
      case None
      have pub: "publish_checkout E (path_of True ?S) (path_of True ?W) d2 = (d', res)"
        using assms(1) run None by simp
      note eff = publish_effect [OF pub mark(1,3) assms(4,5)]
      have top: "disk_node d' (?W @ x) = disk_node d2 (?S @ x)" if "res = Inr w" for x w
      proof -
        have "subtree (disk_node d') ?W x = subtree (disk_node d2) ?S x"
          using eff that by simp
        then show ?thesis
          by simp
      qed
      have "subtree (disk_node d2) ?W = subtree (disk_node d) ?W"
        using mark(2) same1 apart by (simp add: subtree_def)
      then show ?thesis
        using eff top [of _ "[]"] top [of _ "[checkoutMarker]"] mark(2-4) same1 None by (cases res) auto
    qed
  qed
qed

subsection \<open>One checkout\<close>

lemma hex_alphabet_chars: "slash \<notin> set hex_alphabet" "CHR ''-'' \<notin> set hex_alphabet" "CHR ''.'' \<notin> set hex_alphabet"
  by (simp_all add: hex_alphabet_def)

lemma hex_digits_chars: "set (hex_digits k n) \<subseteq> set hex_alphabet"
proof (induction k arbitrary: n)
  case (Suc k)
  moreover have "hex_alphabet ! (n mod 16) \<in> set hex_alphabet"
    by (rule nth_mem) (simp add: hex_alphabet_def)
  ultimately show ?case
    by auto
qed simp

lemma length_hex_digits [simp]: "length (hex_digits k n) = k"
  by (induction k arbitrary: n) auto

lemma hex_name:
  assumes "k \<noteq> 0"
  shows "names [hex_digits k n]" "CHR ''-'' \<notin> set (hex_digits k n)" "CHR ''.'' \<notin> set (hex_digits k n)"
proof -
  have "CHR ''.'' \<notin> set (hex_digits k n)" "slash \<notin> set (hex_digits k n)"
    using hex_digits_chars [of k n] hex_alphabet_chars by blast+
  moreover have "hex_digits k n \<noteq> []"
    using assms length_hex_digits [of k n] by (metis list.size(3))
  ultimately show "names [hex_digits k n]" "CHR ''.'' \<notin> set (hex_digits k n)"
    by auto
  show "CHR ''-'' \<notin> set (hex_digits k n)"
    using hex_digits_chars [of k n] hex_alphabet_chars by blast
qed

lemma cacheKey_hex: "cacheKey (hex_digits 64 n)"
  using hex_digits_chars [of 64 n] by (auto simp: cacheKey_def list_all_iff)

lemma Join_snoc: "ps \<noteq> [] \<Longrightarrow> Join sep (ps @ [p]) = Join sep ps @ sep @ p"
  by (induction sep ps rule: Join.induct) auto

lemma path_of_snoc: "V \<noteq> [] \<Longrightarrow> path_of True V @ ''/'' @ n = path_of True (V @ [n])"
  by (simp add: path_of_def Join_snoc)

lemma path_of_no_suffix:
  assumes "names V" "V \<noteq> []"
  shows "\<not> HasSuffix (path_of True V) ''/''"
proof -
  obtain U v where v: "V = U @ [v]"
    using assms(2) by (metis rev_exhaust)
  then obtain w c where "v = w @ [c]" "c \<noteq> slash"
    using assms(1) by (cases v rule: rev_cases) auto
  then show ?thesis
    using v by (cases "U = []") (auto simp: HasSuffix_def path_of_def Join_snoc)
qed

text \<open>A staging directory is new, and its name is the commit, a dash and a number.\<close>

lemma mkdir_temp_effect:
  assumes "mkdir_temp E (path_of True V @ ''/'' @ stem) attempt d = (d', res)" "tree (disk_node d)" "disk_node d V = Some FDir" "V \<noteq> []"
    and "stem \<noteq> []" "slash \<notin> set stem" "CHR ''.'' \<notin> set stem"
  shows "case res of
      Inl e \<Rightarrow> d' = d
    | Inr staging \<Rightarrow> (\<exists>k. staging = path_of True (V @ [stem @ digits_of k]) \<and>
        disk_node d (V @ [stem @ digits_of k]) = None \<and> disk_node d' = (disk_node d)(V @ [stem @ digits_of k] \<mapsto> FDir))"
  using assms(1)
proof (induction "10000 - attempt" arbitrary: attempt rule: less_induct)
  case less
  define n where "n = stem @ digits_of (oe_random E attempt)"
  have "list_all is_digit (digits_of (oe_random E attempt))"
    by (rule digits_of_digits)
  then have "slash \<notin> set n" "n \<noteq> []" "n \<noteq> ''.''" "n \<noteq> ''..''"
    using assms(5-7) by (auto simp: n_def list_all_iff is_digit_def append_eq_Cons_conv)
  then have nm: "names (V @ [n])"
    using tree_names [OF assms(2,3)] by simp
  obtain d1 r1 where mk: "add_entry E SMkdir FDir (path_of True (V @ [n])) d = (d1, r1)"
    by fastforce
  have path: "path_of True V @ ''/'' @ stem @ digits_of (oe_random E attempt) = path_of True (V @ [n])"
    using path_of_snoc [OF assms(4)] by (simp add: n_def)
  from mk assms(2) nm show ?case
  proof (cases rule: add_entry_cases)
    case (Failed e)
    then show ?thesis
      using less.hyps [of "attempt + 1"] less.prems mk path
      by (cases e) (auto simp: mkdir_temp.simps [of E _ attempt] Mkdir_def Let_def split: if_splits)
  next
    case (Added p k)
    have "p = V"
      using Added(2) walk_real [OF assms(2) _ , of V "[]" FDir True maxLinks "[]"] assms(3) nm by simp
    then show ?thesis
      using less.prems mk path Added by (auto simp: mkdir_temp.simps [of E _ attempt] Mkdir_def Let_def n_def)
  qed
qed

text \<open>The state of one published checkout: sealed, and a directory if anything.\<close>

definition checkout_ok :: "nodes \<Rightarrow> bool" where
  "checkout_ok t \<longleftrightarrow> sealed t \<and> (t [] = None \<or> t [] = Some FDir)"

lemma checkout_ok_empty [simp]: "checkout_ok (\<lambda>x. None)"
  by (simp add: checkout_ok_def)

text \<open>A staging directory's name has a dash, a commit's has none.\<close>

definition staged :: "string \<Rightarrow> bool" where
  "staged name \<longleftrightarrow> CHR ''-'' \<in> set name"

lemma MkdirTemp_effect:
  assumes "MkdirTemp E (path_of True V) (c @ ''-'') d = (d', res)" "tree (disk_node d)" "disk_node d V = Some FDir" "V \<noteq> []"
    and "names [c]" "CHR ''.'' \<notin> set c"
  shows "case res of
      Inl e \<Rightarrow> d' = d
    | Inr staging \<Rightarrow> (\<exists>n. staging = path_of True (V @ [n]) \<and> staged n \<and> tree (disk_node d') \<and> disk_node d' = (disk_node d)(V @ [n] \<mapsto> FDir))"
proof -
  have "mkdir_temp E (path_of True V @ ''/'' @ c @ ''-'') 0 d = (d', res)"
    using assms(1,4,5) path_of_no_suffix [OF tree_names [OF assms(2,3)] assms(4)] by (simp add: MkdirTemp_def)
  note temp = mkdir_temp_effect [OF this assms(2-4)]
  have "names [(c @ ''-'') @ digits_of k]" for k
    using assms(5,6) digits_of_digits [of k] by (auto simp: list_all_iff is_digit_def append_eq_Cons_conv)
  then show ?thesis
    using temp assms(5,6) tree_insert [OF assms(2,3)] by (auto simp: staged_def split: sum.splits)
qed

lemma staging_effect:
  assumes "fill_staging E (path_of True (V @ [s])) fs commit (path_of True (V @ [c])) d = (d1, res)" "d' = fst (RemoveAll E (path_of True (V @ [s])) d1)"
    and "tree (disk_node d)" "disk_node d (V @ [s]) = Some FDir" "names [c]" "staged s" "\<not> staged c"
  shows "tree (disk_node d') \<and> (\<forall>q. \<not> prefix (V @ [s]) q \<longrightarrow> \<not> prefix (V @ [c]) q \<longrightarrow> disk_node d' q = disk_node d q) \<and>
    (case res of
       Inr w \<Rightarrow> w = path_of True (V @ [c]) \<and> checkout_ok (subtree (disk_node d') (V @ [c]))
     | Inl _ \<Rightarrow> subtree (disk_node d') (V @ [c]) = subtree (disk_node d) (V @ [c]) \<or> subtree (disk_node d') (V @ [c]) = (\<lambda>x. None))"
proof -
  let ?S = "V @ [s]" and ?W = "V @ [c]"
  have sc: "s \<noteq> c"
    using assms(6,7) by auto
  note fill = fill_staging_effect [OF assms(1,3-5) sc]
  have ns: "names [s]"
    using tree_names [OF assms(3,4)] by simp
  have dV: "disk_node d1 V = Some FDir"
    using fill tree_parent [OF assms(3,4)] by (auto simp: prefix_def)
  obtain r where ra: "RemoveAll E (path_of True ?S) d1 = (d', r)"
    using assms(2) by (cases "RemoveAll E (path_of True ?S) d1") auto
  note rm = RemoveAll_real [OF ra conjunct1 [OF fill] dV ns]
  have same: "disk_node d' q = disk_node d1 q" if "\<not> prefix ?S q" for q
    using rm(2,3) that by (cases r) auto
  then have "subtree (disk_node d') ?W = subtree (disk_node d1) ?W"
    using sc by (auto simp: subtree_def prefix_def)
  then show ?thesis
    using fill rm(1) same by (cases res) (auto simp: checkout_ok_def)
qed

subsection \<open>The cache as a whole\<close>

text \<open>The invariant of the cache below its root: no link leads to a repository's checkouts, and each
  published checkout, a directory whose name has no dash, is sealed.\<close>

definition git_cache_ok :: "loc \<Rightarrow> disk \<Rightarrow> bool" where
  "git_cache_ok R d \<longleftrightarrow> tree (disk_node d) \<and>
     (\<forall>key. cacheKey key \<longrightarrow>
        (\<forall>q t. prefix q (R @ [key, ''worktrees'']) \<longrightarrow> disk_node d q \<noteq> Some (FLink t)) \<and>
        (\<forall>c. \<not> staged c \<longrightarrow> checkout_ok (subtree (disk_node d) (R @ [key, ''worktrees'', c]))))"

lemma cache_ok_tree: "git_cache_ok R d \<Longrightarrow> tree (disk_node d)"
  by (simp add: git_cache_ok_def)

lemma cache_ok_real: "git_cache_ok R d \<Longrightarrow> cacheKey key \<Longrightarrow> prefix q (R @ [key, ''worktrees'']) \<Longrightarrow> disk_node d q \<noteq> Some (FLink t)"
  by (auto simp: git_cache_ok_def)

lemma cache_ok_checkout: "git_cache_ok R d \<Longrightarrow> cacheKey key \<Longrightarrow> \<not> staged c \<Longrightarrow> checkout_ok (subtree (disk_node d) (R @ [key, ''worktrees'', c]))"
  by (auto simp: git_cache_ok_def)

lemma cacheKey_name: "cacheKey key \<Longrightarrow> names [key]"
  using hex_alphabet_chars by (auto simp: cacheKey_def list_all_iff)

lemma cache_ok_dirs:
  assumes "git_cache_ok R d" "grows (\<lambda>p n. n = FDir \<and> length p \<le> length R + 2) d d'"
  shows "git_cache_ok R d'"
proof -
  have sub: "subtree (disk_node d') (R @ [key, ''worktrees'', c]) = subtree (disk_node d) (R @ [key, ''worktrees'', c])" for key c
    using grows_same [OF assms(2)] by (auto simp: subtree_def)
  have "disk_node d' q \<noteq> Some (FLink t)" if "disk_node d q \<noteq> Some (FLink t)" for q t
    using grows_new [OF assms(2), of q "FLink t"] that by auto
  then show ?thesis
    using assms(1) grows_tree [OF assms(2)] sub by (auto simp: git_cache_ok_def)
qed

lemma cache_ok_publish:
  assumes "git_cache_ok R d" "tree (disk_node d')" "V = R @ [key, ''worktrees'']" "staged s" "checkout_ok (subtree (disk_node d') (V @ [c]))"
    and same: "\<And>q. \<not> prefix (V @ [s]) q \<Longrightarrow> \<not> prefix (V @ [c]) q \<Longrightarrow> disk_node d' q = disk_node d q"
  shows "git_cache_ok R d'"
  unfolding git_cache_ok_def
proof (intro conjI allI impI)
  fix key' q t
  assume "cacheKey key'" "prefix q (R @ [key', ''worktrees''])"
  moreover have "disk_node d' q = disk_node d q"
    using prefix_length_le [OF calculation(2)] assms(3) by (intro same) (auto dest: prefix_length_le)
  ultimately show "disk_node d' q \<noteq> Some (FLink t)"
    using cache_ok_real [OF assms(1)] by simp
next
  fix key' c'
  assume kc: "cacheKey key'" "\<not> staged c'"
  show "checkout_ok (subtree (disk_node d') (R @ [key', ''worktrees'', c']))"
  proof (cases "key' = key \<and> c' = c")
    case False
    then have "subtree (disk_node d') (R @ [key', ''worktrees'', c']) = subtree (disk_node d) (R @ [key', ''worktrees'', c'])"
      unfolding subtree_def using assms(3,4) kc(2) by (intro ext same) (auto simp: prefix_def)
    then show ?thesis
      using cache_ok_checkout [OF assms(1) kc] by simp
  qed (use assms(3,5) in simp)
qed (use assms(2) in simp)

lemma worktrees_name [simp]: "names [''worktrees'']"
  by simp

lemma MkdirAll_ok:
  assumes "MkdirAll E (path_of True ps) d = (d', res)" "git_cache_ok R d" "cacheKey key" "names R" "prefix ps (R @ [key, ''worktrees''])"
  shows "git_cache_ok R d'" and "res = None \<Longrightarrow> disk_node d' ps = Some FDir"
proof -
  have np: "names ps"
    using assms(4,5) cacheKey_name [OF assms(3)] by (metis names_simps(1-3) prefixE worktrees_name)
  have real: "disk_node d q \<noteq> Some (FLink t)" if "prefix q ps" for q t
    using cache_ok_real [OF assms(2,3)] that assms(5) by (metis prefix_order.trans)
  note made = MkdirAll_real [OF cache_ok_tree [OF assms(2)] np real assms(1)]
  have "grows (\<lambda>p n. n = FDir \<and> length p \<le> length R + 2) d d'"
    using made(1) by (rule grows_mono) (use prefix_length_le [OF assms(5)] in \<open>auto dest: prefix_length_le\<close>)
  then show "git_cache_ok R d'"
    by (rule cache_ok_dirs [OF assms(2)])
  show "res = None \<Longrightarrow> disk_node d' ps = Some FDir"
    by (rule made(2))
qed

lemma new_checkout_ok:
  assumes "new_checkout E fs c (path_of True (R @ [key, ''worktrees'', c])) d = (d', res)"
    and "git_cache_ok R d" "cacheKey key" "names R" "names [c]" "\<not> staged c" "CHR ''.'' \<notin> set c"
  shows "git_cache_ok R d' \<and> (\<forall>w. res = Inr w \<longrightarrow> w = path_of True (R @ [key, ''worktrees'', c]))"
proof -
  let ?V = "R @ [key, ''worktrees'']"
  have dir: "DirOf (path_of True (?V @ [c])) = path_of True ?V"
    using DirOf_path_of [of ?V c] assms(4,5) cacheKey_name [OF assms(3)] by simp
  obtain d1 r1 where mk: "MkdirAll E (path_of True ?V) d = (d1, r1)"
    by fastforce
  note made = MkdirAll_ok [OF mk assms(2-4)]
  have ok1: "git_cache_ok R d1"
    using made(1) by simp
  note t1 = cache_ok_tree [OF ok1]
  show ?thesis
  proof (cases r1)
    case (Some e)
    then show ?thesis
      using assms(1) dir mk ok1 by (auto simp: new_checkout_def)
  next
    case None
    obtain d2 r2 where tmp: "MkdirTemp E (path_of True ?V) (c @ ''-'') d1 = (d2, r2)"
      by fastforce
    have V1: "disk_node d1 ?V = Some FDir"
      using made(2) None by simp
    note temp = MkdirTemp_effect [OF tmp t1 V1 _ assms(5,7)]
    show ?thesis
    proof (cases r2)
      case (Inl e)
      then show ?thesis
        using assms(1) dir mk None tmp ok1 temp by (auto simp: new_checkout_def)
    next
      case (Inr staging)
      then obtain n where n: "staging = path_of True (?V @ [n])" "staged n" "tree (disk_node d2)" "disk_node d2 = (disk_node d1)(?V @ [n] \<mapsto> FDir)"
        using temp by auto
      obtain d3 r3 where fill: "fill_staging E (path_of True (?V @ [n])) fs c (path_of True (?V @ [c])) d2 = (d3, r3)"
        by fastforce
      have d': "d' = fst (RemoveAll E (path_of True (?V @ [n])) d3)" "res = r3"
        using assms(1) dir mk None tmp Inr n(1) fill by (auto simp: new_checkout_def)
      have S2: "disk_node d2 (?V @ [n]) = Some FDir"
        using n(4) by simp
      note eff = staging_effect [OF fill d'(1) n(3) S2 assms(5) n(2) assms(6)]
      have same: "disk_node d' q = disk_node d1 q" if "\<not> prefix (?V @ [n]) q" "\<not> prefix (?V @ [c]) q" for q
        using eff that n(4) by auto
      have "subtree (disk_node d2) (?V @ [c]) = subtree (disk_node d1) (?V @ [c])"
        using n(2,4) assms(6) by (auto simp: subtree_def fun_eq_iff)
      then have "checkout_ok (subtree (disk_node d') (?V @ [c]))"
        using eff cache_ok_checkout [OF ok1 assms(3,6)] by (cases r3) auto
      then have "git_cache_ok R d'"
        using cache_ok_publish [OF ok1 _ refl n(2) _ same] eff by auto
      then show ?thesis
        using eff d'(2) by auto
    qed
  qed
qed

lemma materializeWorktree_ok:
  assumes "materializeWorktree E G repo (path_of True (R @ [key])) (hash_String h) d = (d', res)"
    and "git_cache_ok R d" "cacheKey key" "names R"
  shows "git_cache_ok R d'" and "res = Inr w \<Longrightarrow> w = path_of True (R @ [key, ''worktrees'', hash_String h])"
proof -
  let ?c = "hash_String h"
  have c: "names [?c]" "\<not> staged ?c" "CHR ''.'' \<notin> set ?c"
    using hex_name [of 40 h] by (auto simp: hash_String_def staged_def)
  have "JoinPath (JoinPath (path_of True (R @ [key])) ''worktrees'') ?c = path_of True (R @ [key, ''worktrees'', ?c])"
    using JoinPath_name [of "R @ [key]" "''worktrees''"] JoinPath_name [of "R @ [key, ''worktrees'']" ?c] c(1) assms(4)
      cacheKey_name [OF assms(3)] by simp
  then have "(d' = d \<and> (\<forall>w. res = Inr w \<longrightarrow> w = path_of True (R @ [key, ''worktrees'', ?c]))) \<or>
      (\<exists>fs. new_checkout E fs ?c (path_of True (R @ [key, ''worktrees'', ?c])) d = (d', res))"
    using assms(1) by (auto simp: materializeWorktree_def Let_def split: sum.splits if_splits)
  then have "git_cache_ok R d' \<and> (\<forall>w. res = Inr w \<longrightarrow> w = path_of True (R @ [key, ''worktrees'', ?c]))"
    using new_checkout_ok [OF _ assms(2-4) c] assms(2) by blast
  then show "git_cache_ok R d'" and "res = Inr w \<Longrightarrow> w = path_of True (R @ [key, ''worktrees'', hash_String h])"
    by auto
qed

subsection \<open>Resolution keeps the invariant\<close>

lemma cacheDir_loc:
  assumes "gc_Root C = path_of True R" "names R"
  shows "\<exists>key. cacheKey key \<and> cacheDir C url = path_of True (R @ [key])"
  using cacheKey_hex JoinPath_name [OF assms(2) cacheKey_name [OF cacheKey_hex]] assms(1) by (auto simp: cacheDir_def)

lemma PlainOpen_ok:
  assumes "PlainOpen E G (path_of True (R @ [key])) s = (s', res)" "git_cache_ok R (cs_disk s)" "cacheKey key" "names R"
  shows "git_cache_ok R (cs_disk s')"
proof -
  obtain d1 r1 where mk: "MkdirAll E (path_of True (R @ [key])) (cs_disk s) = (d1, r1)"
    by fastforce
  have "git_cache_ok R d1"
    using MkdirAll_ok(1) [OF mk assms(2-4)] by simp
  then show ?thesis
    using assms(1,2) mk by (auto simp: PlainOpen_def put_repo_def split: option.splits sum.splits)
qed

lemma openRepository_ok:
  assumes "openRepository E G (path_of True (R @ [key])) repository s = (s', res)" "git_cache_ok R (cs_disk s)" "cacheKey key" "names R"
  shows "git_cache_ok R (cs_disk s')"
proof -
  obtain s1 r1 where po: "PlainOpen E G (path_of True (R @ [key])) s = (s1, r1)"
    by fastforce
  have "git_cache_ok R (cs_disk s1)"
    using PlainOpen_ok [OF po assms(2-4)] .
  then show ?thesis
    using assms(1) po by (auto simp: openRepository_def put_repo_def split: sum.splits if_splits)
qed

lemma cache_ok_same: "git_cache_ok R d \<Longrightarrow> disk_node d' = disk_node d \<Longrightarrow> git_cache_ok R d'"
  by (simp add: git_cache_ok_def)

lemma node_mark_both [simp]: "mark_both E dir worktree d = (d', ok) \<Longrightarrow> disk_node d' = disk_node d"
  by (auto simp: mark_both_def markUsed_def Chtimes_def split: prod.splits sum.splits if_splits)

lemma resolve_commit_hash: "resolve_commit G auth repo revision = Inr commit \<Longrightarrow> \<exists>h. commit = hash_String h"
  by (auto simp: resolve_commit_def resolve_revision_def split: if_splits sum.splits)

lemma resolve_locked_ok:
  assumes "resolve_locked E G (path_of True (R @ [key])) auth repository revision s = (s', res)"
    and "git_cache_ok R (cs_disk s)" "cacheKey key" "names R"
  shows "git_cache_ok R (cs_disk s') \<and>
    (\<forall>src. res = Inr src \<longrightarrow> (\<exists>h d. res_Revision src = hash_String h \<and> res_CacheDir src = path_of True (R @ [key, ''worktrees'', hash_String h]) \<and>
       git_cache_ok R d \<and> mark_both E (path_of True (R @ [key])) (res_CacheDir src) d = (cs_disk s', True)))"
proof -
  let ?dir = "path_of True (R @ [key])"
  obtain s1 r1 where o: "openRepository E G ?dir repository s = (s1, r1)"
    by fastforce
  note ok1 = openRepository_ok [OF o assms(2-4)]
  show ?thesis
  proof (cases r1)
    case (Inl err)
    then show ?thesis
      using assms(1) o ok1 by (auto simp: resolve_locked_def)
  next
    case (Inr repo)
    obtain repo' r2 where f: "fetch G auth repo = (repo', r2)"
      by fastforce
    have ok2: "git_cache_ok R (cs_disk (put_repo ?dir repo' s1))"
      using ok1 by (simp add: put_repo_def)
    show ?thesis
    proof (cases "r2 \<noteq> None \<or> (\<exists>err. resolve_commit G auth repo' revision = Inl err)")
      case True
      then show ?thesis
        using assms(1) o Inr f ok2 by (auto simp: resolve_locked_def split: option.splits)
    next
      case False
      then obtain commit where commit: "r2 = None" "resolve_commit G auth repo' revision = Inr commit"
        by (cases "resolve_commit G auth repo' revision") auto
      obtain h where h: "commit = hash_String h"
        using resolve_commit_hash [OF commit(2)] by blast
      obtain d r3 where m: "materializeWorktree E G repo' ?dir commit (cs_disk (put_repo ?dir repo' s1)) = (d, r3)"
        by fastforce
      note mat = materializeWorktree_ok [OF m [unfolded h] ok2 assms(3,4)]
      show ?thesis
      proof (cases r3)
        case (Inl err)
        then show ?thesis
          using assms(1) o Inr f commit m mat(1) by (auto simp: resolve_locked_def Let_def)
      next
        case Inr3: (Inr w)
        obtain d' ok where mb: "mark_both E ?dir w d = (d', ok)"
          by fastforce
        have "git_cache_ok R d'"
          using cache_ok_same [OF mat(1) node_mark_both [OF mb]] .
        moreover have "cs_disk s' = d'" "res = (if ok then Inr \<lparr>res_Revision = commit, res_CacheDir = w\<rparr>
            else Inl (SourceFailure ''Could not mark source cache as used''))"
          using assms(1) o Inr f commit m Inr3 mb by (auto simp: resolve_locked_def Let_def)
        ultimately show ?thesis
          using mb mat(1) mat(2) [OF Inr3] h by (intro conjI allI impI exI [of _ h] exI [of _ d]) (auto split: if_splits)
      qed
    qed
  qed
qed

lemma Resolve_ok:
  assumes "Resolve E G C repository s = (s', res)" "git_cache_ok R (cs_disk s)" "gc_Root C = path_of True R" "names R"
  shows "git_cache_ok R (cs_disk s')"
    and "res = Inr src \<Longrightarrow> \<exists>key h d. cacheKey key \<and> cacheDir C (gr_URL repository) = path_of True (R @ [key]) \<and>
      res_Revision src = hash_String h \<and> res_CacheDir src = path_of True (R @ [key, ''worktrees'', hash_String h]) \<and>
      git_cache_ok R d \<and> mark_both E (path_of True (R @ [key])) (res_CacheDir src) d = (cs_disk s', True)"
proof -
  obtain key where key: "cacheKey key" "cacheDir C (gr_URL repository) = path_of True (R @ [key])"
    using cacheDir_loc [OF assms(3,4)] by blast
  obtain d1 r1 where mk: "MkdirAll E (path_of True R) (cs_disk s) = (d1, r1)"
    by fastforce
  have ok1: "git_cache_ok R d1"
    using MkdirAll_ok(1) [OF mk assms(2) key(1) assms(4)] by simp
  consider "s' = s" "\<exists>e. res = Inl e" | "s' = s\<lparr>cs_disk := d1\<rparr>" "\<exists>e. res = Inl e"
    | auth revision where "resolve_locked E G (path_of True (R @ [key])) auth repository revision (s\<lparr>cs_disk := d1\<rparr>) = (s', res)"
    using assms(1) mk key(2) assms(3) by (auto simp: Resolve_def Let_def split: if_splits option.splits sum.splits)
  then have "git_cache_ok R (cs_disk s') \<and> (\<forall>src. res = Inr src \<longrightarrow>
      (\<exists>h d. res_Revision src = hash_String h \<and> res_CacheDir src = path_of True (R @ [key, ''worktrees'', hash_String h]) \<and>
       git_cache_ok R d \<and> mark_both E (path_of True (R @ [key])) (res_CacheDir src) d = (cs_disk s', True)))"
  proof cases
    case 3
    then show ?thesis
      using resolve_locked_ok [OF 3 _ key(1) assms(4)] ok1 by simp
  qed (use assms(2) ok1 in auto)
  then show "git_cache_ok R (cs_disk s')"
    and "res = Inr src \<Longrightarrow> \<exists>key h d. cacheKey key \<and> cacheDir C (gr_URL repository) = path_of True (R @ [key]) \<and>
      res_Revision src = hash_String h \<and> res_CacheDir src = path_of True (R @ [key, ''worktrees'', hash_String h]) \<and>
      git_cache_ok R d \<and> mark_both E (path_of True (R @ [key])) (res_CacheDir src) d = (cs_disk s', True)"
    using key by auto
qed

text \<open>A resolved checkout is a directory, and it and its repository are marked as used now.\<close>

lemma Chtimes_real:
  assumes "Chtimes E (path_of True p) t d = (d', None)" "tree (disk_node d)" "names p" "\<And>q l. prefix q p \<Longrightarrow> disk_node d q \<noteq> Some (FLink l)"
  shows "disk_node d p \<noteq> None" and "d' = set_mtime p t d"
proof -
  obtain q where q: "namei d True (path_of True p) = Inr q" "disk_node d q \<noteq> None" "d' = set_mtime q t d"
    using assms(1) by (auto simp: Chtimes_def checked_def split: sum.splits option.splits if_splits)
  then obtain k where "path_walk (disk_node d) True maxLinks [] p = Inr (q, k)"
    using namei_path_of [OF assms(2,3)] by (cases "path_walk (disk_node d) True maxLinks [] p") auto
  then have "q = p"
    using walk_no_links [of "disk_node d" maxLinks "[]" p q k] assms(2-4) by simp
  then show "disk_node d p \<noteq> None" "d' = set_mtime p t d"
    using q by auto
qed

lemma mark_both_real:
  assumes "mark_both E (path_of True (R @ [key])) (path_of True (R @ [key, ''worktrees'', c])) d = (d', True)"
    and "git_cache_ok R d" "cacheKey key" "names R" "names [c]" "\<not> staged c"
  shows "disk_node d' (R @ [key, ''worktrees'', c]) = Some FDir" and "dk_mtime d' (R @ [key]) = oe_now E"
    and "dk_mtime d' (R @ [key, ''worktrees'', c]) = oe_now E"
proof -
  let ?W = "R @ [key, ''worktrees'', c]"
  obtain d1 where m: "Chtimes E (path_of True (R @ [key])) (oe_now E) d = (d1, None)" "Chtimes E (path_of True ?W) (oe_now E) d1 = (d', None)"
    using assms(1) by (auto simp: mark_both_def markUsed_def split: prod.splits)
  have top: "disk_node d ?W = None \<or> disk_node d ?W = Some FDir"
    using cache_ok_checkout [OF assms(2,3,6)] by (simp add: checkout_ok_def)
  have real: "disk_node d q \<noteq> Some (FLink l)" if "prefix q ?W" for q l
  proof (cases "q = ?W")
    case False
    then have "prefix q (R @ [key, ''worktrees''])"
      using that prefix_snoc [of q "R @ [key, ''worktrees'']" c] by simp
    then show ?thesis
      using cache_ok_real [OF assms(2,3)] by blast
  qed (use top in auto)
  have realD: "disk_node d q \<noteq> Some (FLink l)" if "prefix q (R @ [key])" for q l
    using real [of q l] that by (metis append.assoc append_Cons append_Nil prefix_append)
  note td = cache_ok_tree [OF assms(2)]
  have nW: "names ?W"
    using assms(4,5) cacheKey_name [OF assms(3)] by simp
  then have c1: "d1 = set_mtime (R @ [key]) (oe_now E) d"
    using Chtimes_real(2) [OF m(1) td _ realD] by simp
  have c2: "disk_node d1 ?W \<noteq> None" "d' = set_mtime ?W (oe_now E) d1"
    using Chtimes_real [OF m(2) _ nW] td real c1 by auto
  show "disk_node d' ?W = Some FDir"
    using top c1 c2 by auto
  show "dk_mtime d' (R @ [key]) = oe_now E" "dk_mtime d' ?W = oe_now E"
    using c1 c2 by (auto simp: set_mtime_def)
qed

subsection \<open>Pruning spares what is kept or in use\<close>

text \<open>\<open>removes K V d d'\<close>: some entries of the directory \<open>V\<close> are gone, whole, each with property \<open>K\<close>.\<close>

definition removes :: "(string \<Rightarrow> bool) \<Rightarrow> loc \<Rightarrow> disk \<Rightarrow> disk \<Rightarrow> bool" where
  "removes K V d d' \<longleftrightarrow> tree (disk_node d') \<and>
     (\<forall>q. disk_node d' q = disk_node d q \<or> (\<exists>n. K n \<and> prefix (V @ [n]) q)) \<and>
     (\<forall>n. subtree (disk_node d') (V @ [n]) = subtree (disk_node d) (V @ [n]) \<or> subtree (disk_node d') (V @ [n]) = (\<lambda>x. None)) \<and>
     (\<forall>p. p \<noteq> V \<longrightarrow> dk_mtime d' p = dk_mtime d p)"

lemma removes_refl [simp]: "tree (disk_node d) \<Longrightarrow> removes K V d d"
  by (simp add: removes_def)

lemma removes_tree: "removes K V d d' \<Longrightarrow> tree (disk_node d')"
  by (simp add: removes_def)

lemma removes_same: "removes K V d d' \<Longrightarrow> (\<And>n. K n \<Longrightarrow> \<not> prefix (V @ [n]) q) \<Longrightarrow> disk_node d' q = disk_node d q"
  unfolding removes_def by blast

lemma removes_top: "removes K V d d' \<Longrightarrow> disk_node d' V = disk_node d V"
  by (erule removes_same) (auto simp: prefix_def)

lemma removes_entry: "removes K V d d' \<Longrightarrow> \<not> K n \<Longrightarrow> disk_node d' (V @ n # x) = disk_node d (V @ n # x)"
  by (erule removes_same) (auto simp: prefix_def)

lemma removes_mtime: "removes K V d d' \<Longrightarrow> p \<noteq> V \<Longrightarrow> dk_mtime d' p = dk_mtime d p"
  by (simp add: removes_def)

lemma removes_trans: "removes K V d e \<Longrightarrow> removes K V e f \<Longrightarrow> removes K V d f"
  unfolding removes_def by metis

lemma removes_mono: "removes K V d d' \<Longrightarrow> (\<And>n. K n \<Longrightarrow> L n) \<Longrightarrow> removes L V d d'"
  unfolding removes_def by blast

lemma RemoveAll_removes:
  assumes "RemoveAll E (path_of True (V @ [n])) d = (d', res)" "tree (disk_node d)" "disk_node d V = Some FDir" "names [n]" "K n"
  shows "removes K V d d'"
proof -
  note rm = RemoveAll_real [OF assms(1-4)]
  have "disk_node d' q = disk_node d q \<or> prefix (V @ [n]) q" for q
    using rm(2,3) by (cases res) auto
  moreover have "subtree (disk_node d') (V @ [m]) = subtree (disk_node d) (V @ [m]) \<or> subtree (disk_node d') (V @ [m]) = (\<lambda>x. None)" for m
  proof (cases res)
    case None
    then show ?thesis
      using rm(3) by (cases "m = n") (auto simp: subtree_def prefix_def)
  qed (use rm(2) in auto)
  ultimately show ?thesis
    using rm(1,4) assms(5) by (auto simp: removes_def)
qed

lemma unusedSince_real:
  assumes "unusedSince E d (path_of True p) t" "tree (disk_node d)" "disk_node d p = Some FDir"
  shows "dk_mtime d p < t"
proof -
  have np: "names p"
    using tree_names [OF assms(2,3)] .
  obtain n m where "Stat E d (path_of True p) = Inr (n, m)" "m < t"
    using assms(1) by (auto simp: unusedSince_def split: sum.splits)
  then show ?thesis
    using Stat_path_of [OF _ assms(2) np, of E n m] walk_real [OF assms(2) np, of "[]" FDir True maxLinks "[]"] assms(3) by auto
qed

text \<open>What \<open>prune_worktrees\<close> may remove: no kept commit, and no directory used since.\<close>

definition stale :: "string list \<Rightarrow> int \<Rightarrow> disk \<Rightarrow> loc \<Rightarrow> string \<Rightarrow> bool" where
  "stale commits t d V n \<longleftrightarrow> n \<notin> set commits \<and> \<not> (disk_node d (V @ [n]) = Some FDir \<and> t \<le> dk_mtime d (V @ [n]))"

lemma prune_worktrees_removes:
  assumes "prune_worktrees E (path_of True V) commits t entries d1 = (d', removed, errs)"
    and "removes (stale commits t d V) V d d1" "disk_node d V = Some FDir" "names V" "\<forall>e \<in> set entries. names [fst e]"
  shows "removes (stale commits t d V) V d d'"
  using assms(1,2,5)
proof (induction entries arbitrary: d1 removed errs)
  case (Cons e entries)
  let ?n = "fst e" and ?K = "stale commits t d V"
  have nm: "names [?n]"
    using Cons.prems(3) by simp
  have path: "JoinPath (path_of True V) ?n = path_of True (V @ [?n])"
    using JoinPath_name [OF assms(4) nm] .
  show ?case
  proof (cases "?n \<in> set commits \<or> \<not> unusedSince E d1 (path_of True (V @ [?n])) t")
    case True
    then show ?thesis
      using Cons path by (auto simp: Let_def)
  next
    case False
    note t1 = removes_tree [OF Cons.prems(2)]
    have "?K ?n"
    proof (rule ccontr)
      assume nk: "\<not> ?K ?n"
      then have "disk_node d1 (V @ [?n]) = Some FDir" "t \<le> dk_mtime d1 (V @ [?n])"
        using False removes_entry [OF Cons.prems(2) nk, of "[]"] removes_mtime [OF Cons.prems(2), of "V @ [?n]"]
        by (auto simp: stale_def)
      then show False
        using False unusedSince_real [OF _ t1, of E "V @ [?n]" t] by auto
    qed
    moreover obtain d2 r2 where ra: "RemoveAll E (path_of True (V @ [?n])) d1 = (d2, r2)"
      by fastforce
    ultimately have "removes ?K V d d2"
      using removes_trans [OF Cons.prems(2) RemoveAll_removes [OF ra t1 _ nm]] removes_top [OF Cons.prems(2)] assms(3) by simp
    moreover obtain removed2 errs2 where "prune_worktrees E (path_of True V) commits t entries d2 = (d', removed2, errs2)"
      using Cons.prems(1) False path ra by (auto simp: Let_def split: option.splits prod.splits)
    ultimately show ?thesis
      using Cons.IH Cons.prems(3) by simp
  qed
qed simp

lemma ReadDir_real:
  assumes "ReadDir E d (path_of True p) = Inr entries" "tree (disk_node d)" "names p" "\<And>q t. prefix q p \<Longrightarrow> disk_node d q \<noteq> Some (FLink t)"
  shows "disk_node d p = Some FDir" and "e \<in> set entries \<Longrightarrow> names [fst e]"
proof -
  obtain q where q: "namei d True (path_of True p) = Inr q" "disk_node d q = Some FDir"
      "entries = map (\<lambda>n. (n, disk_node d (q @ [n]))) (entry_names d q)"
    using assms(1) by (auto simp: ReadDir_def checked_def split: option.splits sum.splits fnode.splits)
  obtain k where "path_walk (disk_node d) True maxLinks [] p = Inr (q, k)"
    using q(1) namei_path_of [OF assms(2,3)] by (cases "path_walk (disk_node d) True maxLinks [] p") auto
  then have "q = p"
    using walk_no_links [of "disk_node d" maxLinks "[]" p q k] assms(2-4) by simp
  then show "disk_node d p = Some FDir"
    using q(2) by simp
  assume "e \<in> set entries"
  then have "fst e \<in> set (entry_names d q)"
    using q(3) by auto
  then obtain l where "l \<in> fst ` set (dk_nodes d)" "l \<noteq> []" "last l = fst e"
    by (force simp: entry_names_def)
  then have "disk_node d l \<noteq> None"
    by (auto simp: disk_node_def map_of_eq_None_iff)
  then show "names [fst e]"
    using tree_names [OF assms(2), of l] \<open>l \<noteq> []\<close> \<open>last l = fst e\<close> by (metis append_butlast_last_id names_simps(3) not_None_eq)
qed

text \<open>The checkout of commit \<open>c\<close> is spared: its repository is in use and it is kept or was used since, or
  nobody needs its repository but that was used since.\<close>

definition spared :: "cache \<Rightarrow> (string \<times> string list) list \<Rightarrow> int \<Rightarrow> disk \<Rightarrow> loc \<Rightarrow> string \<Rightarrow> string \<Rightarrow> bool" where
  "spared C keep t d R key c \<longleftrightarrow>
     (case kept C keep (path_of True (R @ [key])) of
        None \<Rightarrow> t \<le> dk_mtime d (R @ [key])
      | Some commits \<Rightarrow> c \<in> set commits \<or> t \<le> dk_mtime d (R @ [key, ''worktrees'', c]))"

text \<open>One repository: only its own entries change, the invariant stays, and a spared checkout too.\<close>

lemma subtree_part:
  assumes "subtree g P = subtree h P \<or> subtree g P = (\<lambda>x. None)"
  shows "subtree g (P @ y) = subtree h (P @ y) \<or> subtree g (P @ y) = (\<lambda>x. None)"
proof -
  have "subtree f (P @ y) = (\<lambda>x. subtree f P (y @ x))" for f
    by (simp add: subtree_def)
  then show ?thesis
    using assms by (elim disjE) (simp_all only: simp_thms)
qed

lemma cache_ok_removes_top:
  assumes "git_cache_ok R d" "removes K R d d'"
  shows "git_cache_ok R d'"
  unfolding git_cache_ok_def
proof (intro conjI allI impI)
  have all: "disk_node d' (R @ n # x) = disk_node d (R @ n # x) \<or> disk_node d' (R @ n # x) = None" for n x
  proof -
    have "subtree (disk_node d') (R @ [n]) = subtree (disk_node d) (R @ [n]) \<or> subtree (disk_node d') (R @ [n]) = (\<lambda>x. None)"
      using assms(2) by (simp add: removes_def)
    then show ?thesis
      by (metis append.assoc append_Cons append_Nil subtree_def)
  qed
  show "tree (disk_node d')"
    using removes_tree [OF assms(2)] .
  fix key
  assume key: "cacheKey key"
  {
    fix q t
    assume pq: "prefix q (R @ [key, ''worktrees''])"
    show "disk_node d' q \<noteq> Some (FLink t)"
    proof (cases "\<exists>n x. q = R @ n # x")
      case True
      then show ?thesis
        using all cache_ok_real [OF assms(1) key pq, of t] by (metis option.distinct(1))
    next
      case False
      then have "disk_node d' q = disk_node d q"
        by (intro removes_same [OF assms(2)]) (auto simp: prefix_def)
      then show ?thesis
        using cache_ok_real [OF assms(1) key pq] by simp
    qed
  next
    fix c
    assume "\<not> staged c"
    moreover have "subtree (disk_node d') (R @ [key, ''worktrees'', c]) = subtree (disk_node d) (R @ [key, ''worktrees'', c]) \<or>
        subtree (disk_node d') (R @ [key, ''worktrees'', c]) = (\<lambda>x. None)"
      using subtree_part [of "disk_node d'" "R @ [key]" "disk_node d" "[''worktrees'', c]"] assms(2) by (simp add: removes_def)
    ultimately show "checkout_ok (subtree (disk_node d') (R @ [key, ''worktrees'', c]))"
      using cache_ok_checkout [OF assms(1) key] by auto
  }
qed

lemma cache_ok_removes_worktrees:
  assumes "git_cache_ok R d" "removes K (R @ [key, ''worktrees'']) d d'"
  shows "git_cache_ok R d'"
  unfolding git_cache_ok_def
proof (intro conjI allI impI)
  let ?V = "R @ [key, ''worktrees'']"
  show "tree (disk_node d')"
    using removes_tree [OF assms(2)] .
  fix key'
  assume key: "cacheKey key'"
  {
    fix q t
    assume pq: "prefix q (R @ [key', ''worktrees''])"
    have "disk_node d' q = disk_node d q"
      by (rule removes_same [OF assms(2)]) (use prefix_length_le [OF pq] in \<open>auto dest: prefix_length_le\<close>)
    then show "disk_node d' q \<noteq> Some (FLink t)"
      using cache_ok_real [OF assms(1) key pq] by simp
  next
    fix c
    assume c: "\<not> staged c"
    show "checkout_ok (subtree (disk_node d') (R @ [key', ''worktrees'', c]))"
    proof (cases "key' = key")
      case True
      then have "subtree (disk_node d') (R @ [key', ''worktrees'', c]) = subtree (disk_node d) (R @ [key', ''worktrees'', c]) \<or>
          subtree (disk_node d') (R @ [key', ''worktrees'', c]) = (\<lambda>x. None)"
        using assms(2) by (simp add: removes_def)
      then show ?thesis
        using cache_ok_checkout [OF assms(1) key c] by auto
    next
      case False
      then have "subtree (disk_node d') (R @ [key', ''worktrees'', c]) = subtree (disk_node d) (R @ [key', ''worktrees'', c])"
        unfolding subtree_def by (intro ext removes_same [OF assms(2)]) (auto simp: prefix_def)
      then show ?thesis
        using cache_ok_checkout [OF assms(1) key c] by simp
    qed
  }
qed

lemma pruneRepository_removes:
  assumes "pruneRepository E (path_of True (R @ [key])) commits t s = (s', removed, errs)"
    and "git_cache_ok R (cs_disk s)" "cacheKey key" "names R" "disk_node (cs_disk s) R = Some FDir"
  shows "case commits of
      None \<Rightarrow> removes (\<lambda>n. n = key \<and> \<not> (disk_node (cs_disk s) (R @ [key]) = Some FDir \<and> t \<le> dk_mtime (cs_disk s) (R @ [key]))) R (cs_disk s) (cs_disk s')
    | Some cs \<Rightarrow> removes (stale cs t (cs_disk s) (R @ [key, ''worktrees''])) (R @ [key, ''worktrees'']) (cs_disk s) (cs_disk s')"
proof (cases commits)
  case None
  let ?d = "cs_disk s" and ?K = "\<lambda>n. n = key \<and> \<not> (disk_node (cs_disk s) (R @ [key]) = Some FDir \<and> t \<le> dk_mtime (cs_disk s) (R @ [key]))"
  note td = cache_ok_tree [OF assms(2)]
  obtain d1 r1 where ra: "RemoveAll E (path_of True (R @ [key])) ?d = (d1, r1)"
    by fastforce
  have "removes ?K R ?d d1" if "unusedSince E ?d (path_of True (R @ [key])) t"
    by (rule RemoveAll_removes [OF ra td assms(5) cacheKey_name [OF assms(3)]]) (use unusedSince_real [OF that td] in auto)
  then show ?thesis
    using assms(1) None ra td by (auto simp: pruneRepository_def split: if_splits option.splits)
next
  case (Some cs)
  let ?d = "cs_disk s" and ?V = "R @ [key, ''worktrees'']"
  note td = cache_ok_tree [OF assms(2)]
  have nV: "names ?V" and nD: "names (R @ [key])"
    using assms(4) cacheKey_name [OF assms(3)] by auto
  have path: "JoinPath (path_of True (R @ [key])) ''worktrees'' = path_of True ?V"
    using JoinPath_name [OF nD worktrees_name] by simp
  consider "s' = s" | entries d1 where "ReadDir E ?d (path_of True ?V) = Inr entries"
      "prune_worktrees E (path_of True ?V) cs t entries ?d = (d1, removed, errs)" "cs_disk s' = d1"
    using assms(1) Some path by (auto simp: pruneRepository_def Let_def split: sum.splits errno.splits prod.splits)
  then show ?thesis
  proof cases
    case 2
    note rd = ReadDir_real [OF 2(1) td nV]
    have "removes (stale cs t ?d ?V) ?V ?d d1"
      by (rule prune_worktrees_removes [OF 2(2) removes_refl [OF td] _ nV])
        (use rd cache_ok_real [OF assms(2,3)] in auto)
    then show ?thesis
      using Some 2(3) by simp
  qed (use Some td in simp)
qed

text \<open>A spared checkout that is there, and its whole content, before and after.\<close>

definition holds_checkout :: "cache \<Rightarrow> (string \<times> string list) list \<Rightarrow> int \<Rightarrow> loc \<Rightarrow> string \<Rightarrow> string \<Rightarrow> disk \<Rightarrow> disk \<Rightarrow> bool" where
  "holds_checkout C keep t R key c d d' \<longleftrightarrow>
     spared C keep t d' R key c \<and> disk_node d' (R @ [key, ''worktrees'', c]) = Some FDir \<and>
     subtree (disk_node d') (R @ [key, ''worktrees'', c]) = subtree (disk_node d) (R @ [key, ''worktrees'', c])"

lemma holds_trans: "holds_checkout C keep t R key c d e \<Longrightarrow> holds_checkout C keep t R key c e f \<Longrightarrow> holds_checkout C keep t R key c d f"
  by (simp add: holds_checkout_def)

lemma holds_other:
  assumes "holds_checkout C keep t R key c d d"
    and "\<And>q. prefix (R @ [key, ''worktrees'', c]) q \<Longrightarrow> disk_node d' q = disk_node d q"
    and "dk_mtime d' (R @ [key]) = dk_mtime d (R @ [key])"
    and "dk_mtime d' (R @ [key, ''worktrees'', c]) = dk_mtime d (R @ [key, ''worktrees'', c])"
  shows "holds_checkout C keep t R key c d d'"
  using assms by (auto simp: holds_checkout_def spared_def subtree_def split: option.splits)

lemma pruneRepository_effect:
  assumes "pruneRepository E (path_of True (R @ [key])) (kept C keep (path_of True (R @ [key]))) t s = (s', removed, errs)"
    and "git_cache_ok R (cs_disk s)" "cacheKey key" "names R" "disk_node (cs_disk s) R = Some FDir"
  shows "git_cache_ok R (cs_disk s')" and "\<not> prefix (R @ [key]) q \<Longrightarrow> disk_node (cs_disk s') q = disk_node (cs_disk s) q"
    and "holds_checkout C keep t R key' c (cs_disk s) (cs_disk s) \<Longrightarrow> holds_checkout C keep t R key' c (cs_disk s) (cs_disk s')"
proof -
  let ?d = "cs_disk s" and ?d' = "cs_disk s'" and ?V = "R @ [key, ''worktrees'']"
  note eff = pruneRepository_removes [OF assms]
  have "git_cache_ok R ?d' \<and> (\<not> prefix (R @ [key]) q \<longrightarrow> disk_node ?d' q = disk_node ?d q) \<and>
    (holds_checkout C keep t R key' c ?d ?d \<longrightarrow> holds_checkout C keep t R key' c ?d ?d')"
  proof (cases "kept C keep (path_of True (R @ [key]))")
    case None
    then have rm: "removes (\<lambda>n. n = key \<and> \<not> (disk_node ?d (R @ [key]) = Some FDir \<and> t \<le> dk_mtime ?d (R @ [key]))) R ?d ?d'"
      using eff by simp
    have "holds_checkout C keep t R key' c ?d ?d'" if h: "holds_checkout C keep t R key' c ?d ?d"
    proof (rule holds_other [OF h])
      have "disk_node ?d (R @ [key']) = Some FDir"
        using h tree_prefix [OF cache_ok_tree [OF assms(2)], of "R @ [key']" "[''worktrees'', c]"] by (simp add: holds_checkout_def)
      then show "disk_node ?d' q = disk_node ?d q" if "prefix (R @ [key', ''worktrees'', c]) q" for q
        using h None that by (intro removes_same [OF rm]) (auto simp: holds_checkout_def spared_def prefix_def)
    qed (use removes_mtime [OF rm] in auto)
    then show ?thesis
      using cache_ok_removes_top [OF assms(2) rm] removes_same [OF rm, of q] by auto
  next
    case (Some cs)
    then have rm: "removes (stale cs t ?d ?V) ?V ?d ?d'"
      using eff by simp
    have "holds_checkout C keep t R key' c ?d ?d'" if h: "holds_checkout C keep t R key' c ?d ?d"
    proof (rule holds_other [OF h])
      show "disk_node ?d' q = disk_node ?d q" if "prefix (R @ [key', ''worktrees'', c]) q" for q
        using h Some that by (intro removes_same [OF rm]) (auto simp: holds_checkout_def spared_def stale_def prefix_def)
    qed (use removes_mtime [OF rm] in auto)
    moreover have "disk_node ?d' q = disk_node ?d q" if "\<not> prefix (R @ [key]) q"
      by (rule removes_same [OF rm]) (use that in \<open>auto simp: prefix_def\<close>)
    ultimately show ?thesis
      using cache_ok_removes_worktrees [OF assms(2) rm] by auto
  qed
  then show "git_cache_ok R (cs_disk s')" "\<not> prefix (R @ [key]) q \<Longrightarrow> disk_node (cs_disk s') q = disk_node (cs_disk s) q"
    "holds_checkout C keep t R key' c (cs_disk s) (cs_disk s) \<Longrightarrow> holds_checkout C keep t R key' c (cs_disk s) (cs_disk s')"
    by auto
qed

lemma holds_start: "holds_checkout C keep t R key c d d' \<Longrightarrow> holds_checkout C keep t R key c d' d'"
  by (simp add: holds_checkout_def)

lemma prune_entries_effect:
  assumes "prune_entries E C keep t entries s = (s', removed, errs)"
    and "gc_Root C = path_of True R" "names R" "git_cache_ok R (cs_disk s)" "disk_node (cs_disk s) R = Some FDir"
  shows "git_cache_ok R (cs_disk s') \<and>
    ((\<forall>n. cacheKey n \<longrightarrow> \<not> prefix (R @ [n]) q) \<longrightarrow> disk_node (cs_disk s') q = disk_node (cs_disk s) q) \<and>
    (holds_checkout C keep t R key c (cs_disk s) (cs_disk s) \<longrightarrow> holds_checkout C keep t R key c (cs_disk s) (cs_disk s'))"
  using assms(1,4,5)
proof (induction entries arbitrary: s removed errs)
  case (Cons e entries)
  show ?case
  proof (cases "snd e \<noteq> Some FDir \<or> \<not> cacheKey (fst e)")
    case True
    then show ?thesis
      using Cons by simp
  next
    case False
    then have ck: "cacheKey (fst e)"
      by simp
    let ?dir = "path_of True (R @ [fst e])"
    obtain s1 removed1 errs1 where pr: "pruneRepository E ?dir (kept C keep ?dir) t s = (s1, removed1, errs1)"
      using prod_cases3 by blast
    note eff = pruneRepository_effect [OF pr Cons.prems(2) ck assms(3) Cons.prems(3)]
    have R1: "disk_node (cs_disk s1) R = Some FDir"
      using eff(2) [of R] Cons.prems(3) by (auto simp: prefix_def)
    obtain removed2 errs2 where "prune_entries E C keep t entries s1 = (s', removed2, errs2)"
      using Cons.prems(1) False pr JoinPath_name [OF assms(3) cacheKey_name [OF ck]] assms(2)
      by (auto simp: Let_def split: prod.splits)
    note ih = Cons.IH [OF this eff(1) R1]
    show ?thesis
      using ih eff(2) [of q] eff(3) [of key c] ck holds_trans holds_start by metis
  qed
qed simp

lemma Prune_effect:
  assumes "Cache_Prune E C keep t s = (s', removed, errs)" "gc_Root C = path_of True R" "names R" "git_cache_ok R (cs_disk s)"
  shows "git_cache_ok R (cs_disk s') \<and>
    ((\<forall>n. cacheKey n \<longrightarrow> \<not> prefix (R @ [n]) q) \<longrightarrow> disk_node (cs_disk s') q = disk_node (cs_disk s) q) \<and>
    (holds_checkout C keep t R key c (cs_disk s) (cs_disk s) \<longrightarrow> holds_checkout C keep t R key c (cs_disk s) (cs_disk s'))"
proof -
  consider "s' = s" | entries where "ReadDir E (cs_disk s) (path_of True R) = Inr entries" "prune_entries E C keep t entries s = (s', removed, errs)"
    using assms(1,2) by (auto simp: Cache_Prune_def split: sum.splits errno.splits)
  then show ?thesis
  proof cases
    case 2
    have real: "disk_node (cs_disk s) q \<noteq> Some (FLink t)" if "prefix q R" for q t
      using cache_ok_real [OF assms(4) cacheKey_hex] that by (metis prefix_append)
    have "disk_node (cs_disk s) R = Some FDir"
      using ReadDir_real(1) [OF 2(1) cache_ok_tree [OF assms(4)] assms(3) real] .
    then show ?thesis
      using prune_entries_effect [OF 2(2) assms(2-4)] by simp
  qed (use assms(4) in simp)
qed

subsection \<open>Reachable caches\<close>

text \<open>A cache starts with no repository below its root, which lies on no link, and is changed by
  \<open>Resolve\<close> and \<open>Prune\<close> only.\<close>

definition fresh_cache :: "cache \<Rightarrow> disk \<Rightarrow> bool" where
  "fresh_cache C d \<longleftrightarrow> tree (disk_node d) \<and> (\<forall>q t. prefix q (parts (gc_Root C)) \<longrightarrow> disk_node d q \<noteq> Some (FLink t)) \<and>
     (\<forall>key. cacheKey key \<longrightarrow> disk_node d (parts (gc_Root C) @ [key]) = None)"

inductive cache_reachable :: "cache \<Rightarrow> 'r cache_state \<Rightarrow> bool" for C where
  start: "fresh_cache C (cs_disk s) \<Longrightarrow> cache_reachable C s"
| resolved: "cache_reachable C s \<Longrightarrow> Resolve E G C repository s = (s', res) \<Longrightarrow> cache_reachable C s'"
| pruned: "cache_reachable C s \<Longrightarrow> Cache_Prune E C keep t s = (s', removed, errs) \<Longrightarrow> cache_reachable C s'"

lemma reachable_ok:
  assumes "cache_reachable C s" "gc_Root C = path_of True R" "names R"
  shows "git_cache_ok R (cs_disk s)"
  using assms(1)
proof (induction rule: cache_reachable.induct)
  case (start s)
  then have fr: "tree (disk_node (cs_disk s))" "\<And>q t. prefix q R \<Longrightarrow> disk_node (cs_disk s) q \<noteq> Some (FLink t)"
      "\<And>key. cacheKey key \<Longrightarrow> disk_node (cs_disk s) (R @ [key]) = None"
    using assms(2,3) by (auto simp: fresh_cache_def)
  have none: "disk_node (cs_disk s) (R @ key # x) = None" if "cacheKey key" for key x
    using tree_below_none [OF fr(1) fr(3) [OF that], of "R @ key # x"] by simp
  have "disk_node (cs_disk s) q \<noteq> Some (FLink t)" if "cacheKey key" "prefix q (R @ [key, ''worktrees''])" for key q t
    using that(2) fr(2) none [OF that(1)] by (auto simp: prefix_append prefix_Cons)
  then show ?case
    using fr(1) none by (auto simp: git_cache_ok_def checkout_ok_def subtree_def sealed_def)
next
  case (resolved s E G repository s' res)
  then show ?case
    using Resolve_ok(1) assms(2,3) by blast
next
  case (pruned s E keep t s' removed errs)
  then show ?case
    using Prune_effect [OF pruned.hyps(2) assms(2,3)] by blast
qed

subsection \<open>Properties\<close>

lemma clean_root:
  assumes "IsAbs root" "Clean root = root"
  shows "root = path_of True (parts root)" and "names (parts root)"
  using assms Clean_path_of names_parts by metis+

lemma resolved_location:
  assumes "cache_reachable C s" "IsAbs (gc_Root C)" "Clean (gc_Root C) = gc_Root C" "Resolve E G C repository s = (s', Inr src)"
  obtains key c where "cacheKey key" "names [c]" "\<not> staged c" "git_cache_ok (parts (gc_Root C)) (cs_disk s')"
    "cacheDir C (gr_URL repository) = path_of True (parts (gc_Root C) @ [key])"
    "parts (res_CacheDir src) = parts (gc_Root C) @ [key, ''worktrees'', c]"
    "disk_node (cs_disk s') (parts (gc_Root C) @ [key, ''worktrees'', c]) = Some FDir"
    "dk_mtime (cs_disk s') (parts (gc_Root C) @ [key]) = oe_now E"
    "dk_mtime (cs_disk s') (parts (gc_Root C) @ [key, ''worktrees'', c]) = oe_now E"
proof -
  let ?R = "parts (gc_Root C)"
  note root = clean_root [OF assms(2,3)]
  note ok = Resolve_ok [OF assms(4) reachable_ok [OF assms(1) root] root]
  obtain key h d where r: "cacheKey key" "cacheDir C (gr_URL repository) = path_of True (?R @ [key])"
      "res_CacheDir src = path_of True (?R @ [key, ''worktrees'', hash_String h])" "git_cache_ok ?R d"
      "mark_both E (path_of True (?R @ [key])) (res_CacheDir src) d = (cs_disk s', True)"
    using ok(2) by blast
  have c: "names [hash_String h]" "\<not> staged (hash_String h)"
    using hex_name [of 40 h] by (auto simp: hash_String_def staged_def)
  have "parts (res_CacheDir src) = ?R @ [key, ''worktrees'', hash_String h]"
    using r(3) root(2) cacheKey_name [OF r(1)] c(1) by simp
  then show ?thesis
    using that [OF r(1) c ok(1) r(2)] mark_both_real [OF r(5) [unfolded r(3)] r(4,1) root(2) c] by blast
qed

text \<open>A small cache for the examples: an empty disk, and a repository whose one commit has a link in a
  directory and the file it leads to.\<close>

definition demo_env :: os_env where
  "demo_env = \<lparr>oe_fault = (\<lambda>_ _. None), oe_now = 100, oe_random = id\<rparr>"

definition demo_files :: "git_file list" where
  "demo_files = [\<lparr>gf_Name = ''d/l'', gf_Mode = Symlink_Mode, gf_Contents = Inr ''../f''\<rparr>,
     \<lparr>gf_Name = ''f'', gf_Mode = Regular_Mode, gf_Contents = Inr ''x''\<rparr>]"

definition demo_git :: "unit gogit" where
  "demo_git = \<lparr>gg_OpenError = (\<lambda>_. None), gg_Init = Inr (), gg_Remote = (\<lambda>_. Some [''https://x'']), gg_DeleteRemote = Inr,
     gg_CreateRemote = (\<lambda>_. Inr), gg_Fetch = (\<lambda>_ r. (r, None)), gg_List = (\<lambda>_ _. Inr []), gg_ResolveRevision = (\<lambda>_ _. Inr 7),
     gg_Commit = (\<lambda>_ _. None), gg_Tree = (\<lambda>_ _. Inr demo_files),
     gg_NewEndpoint = (\<lambda>_. Inr []), gg_NewPublicKeys = (\<lambda>_ _. None), gg_KnownHosts = (\<lambda>_. None)\<rparr>"

definition demo_cache :: cache where
  "demo_cache = \<lparr>gc_Root = ''/c'', gc_sha256 = (\<lambda>_. 0), gc_allowLocal = False\<rparr>"

definition demo_key :: string where
  "demo_key = hex_digits 64 0"

definition disk_of :: "(loc \<times> fnode) list \<Rightarrow> disk" where
  "disk_of ns = \<lparr>dk_nodes = ns, dk_mtime = (\<lambda>_. 0), dk_cwd = []\<rparr>"

definition demo_state :: "unit cache_state" where
  "demo_state = \<lparr>cs_disk = disk_of [([], FDir)], cs_repos = Map.empty\<rparr>"

definition demo_repository :: git_repository where
  "demo_repository = \<lparr>gr_URL = ''https://x'', gr_Revision = ''main'', gr_Auth = zero_credentials\<rparr>"

text \<open>One checkout, of commit \<open>abc\<close>, is there.\<close>

definition demo_checked_out :: "unit cache_state" where
  "demo_checked_out = \<lparr>cs_disk = disk_of [([], FDir), ([''c''], FDir), ([''c'', demo_key], FDir),
     ([''c'', demo_key, ''worktrees''], FDir), ([''c'', demo_key, ''worktrees'', ''abc''], FDir)], cs_repos = Map.empty\<rparr>"

lemma demo_root [simp]: "parts (gc_Root demo_cache) = [''c'']" "IsAbs (gc_Root demo_cache)" "Clean (gc_Root demo_cache) = gc_Root demo_cache"
  by (simp_all add: demo_cache_def parts_def IsAbs_def Clean_def)

lemma demo_key_name: "names [demo_key]" "cacheKey demo_key"
  using hex_name(1) [of 64 0] by (simp_all add: demo_key_def cacheKey_hex del: names_simps)

lemma demo_reachable: "cache_reachable demo_cache demo_state"
  by (rule cache_reachable.start) (auto simp: fresh_cache_def tree_def disk_node_def demo_state_def disk_of_def split: if_splits)

lemma demo_node:
  "disk_node (cs_disk demo_checked_out) p = (if p \<in> {[], [''c''], [''c'', demo_key], [''c'', demo_key, ''worktrees''],
     [''c'', demo_key, ''worktrees'', ''abc'']} then Some FDir else None)"
  by (auto simp: disk_node_def demo_checked_out_def disk_of_def)

lemma demo_ok: "git_cache_ok [''c''] (cs_disk demo_checked_out)"
  using demo_key_name(1) by (auto simp: git_cache_ok_def checkout_ok_def sealed_def subtree_def tree_def demo_node append_eq_Cons_conv split: if_splits)

lemma demo_kept: "kept demo_cache [(''https://x'', [''abc''])] (path_of True [''c'', demo_key]) = Some [''abc'']"
proof -
  have "gc_Root demo_cache = path_of True [''c'']"
    by (simp add: demo_cache_def path_of_def)
  then have "cacheDir demo_cache ''https://x'' = path_of True ([''c''] @ [demo_key])"
    using JoinPath_name [of "[''c'']" demo_key] demo_key_name(1) by (simp add: cacheDir_def demo_cache_def demo_key_def)
  then show ?thesis
    by (simp add: kept_def)
qed

text \<open>C7. What an Application renders from stays in its checkout. In every cache that \<open>Resolve\<close> and
  \<open>Prune\<close> can produce, whatever the repository's commits hold, when \<open>Resolve\<close> returns a checkout then
  every path below it that does not itself climb with \<open>..\<close> is resolved by the kernel, all its
  links followed, to a location inside that checkout, or not at all.\<close>

theorem checkout_confined:
  assumes "cache_reachable C s" and "IsAbs (gc_Root C)" and "Clean (gc_Root C) = gc_Root C" and "''..'' \<notin> set ps"
  shows "case Resolve E G C repository s of
      (s', Inl err) \<Rightarrow> True
    | (s', Inr src) \<Rightarrow>
        (case path_walk (disk_node (cs_disk s')) follow maxLinks [] (parts (res_CacheDir src) @ ps) of
           Inl e \<Rightarrow> True
         | Inr (location, left) \<Rightarrow> prefix (parts (res_CacheDir src)) location)"
proof -
  have "prefix (parts (res_CacheDir src)) location"
    if res: "Resolve E G C repository s = (s', Inr src)"
      and w: "path_walk (disk_node (cs_disk s')) follow maxLinks [] (parts (res_CacheDir src) @ ps) = Inr (location, left)" for s' src location left
    using resolved_location [OF assms(1-3) res]
  proof cases
    case (1 key c)
    let ?W = "parts (gc_Root C) @ [key, ''worktrees'', c]"
    note t = cache_ok_tree [OF 1(4)]
    have "path_walk (disk_node (cs_disk s')) follow maxLinks ?W ps = Inr (location, left)"
      using w walk_real [OF t tree_names [OF t 1(7)], of "[]" FDir follow maxLinks ps] 1(6,7) by simp
    then show ?thesis
      using sealed_sound [OF _ t _ tree_names [OF t 1(7)] _ assms(4), of follow maxLinks ?W location left]
        cache_ok_checkout [OF 1(4,1,3)] 1(6) by (simp add: checkout_ok_def)
  qed
  then show ?thesis
    by (auto split: prod.splits sum.splits)
qed

theorem checkout_confined_witness:
  "case Resolve demo_env demo_git demo_cache demo_repository demo_state of
      (s', Inl err) \<Rightarrow> True
    | (s', Inr src) \<Rightarrow>
        (case path_walk (disk_node (cs_disk s')) True maxLinks [] (parts (res_CacheDir src) @ [''d'', ''l'']) of
           Inl e \<Rightarrow> True
         | Inr (location, left) \<Rightarrow> prefix (parts (res_CacheDir src)) location)"
  by (rule checkout_confined [OF demo_reachable]) simp_all

text \<open>C8. A commit cannot write outside its own checkout. Whatever files a commit holds, links among them
  and names that climb included, writing them into the staging directory, to the end or to the first
  error, changes no file, link or directory that was there before and creates new ones below the
  staging directory only.\<close>

theorem checkout_writes_inside:
  assumes "tree (disk_node d)" and "disk_node d R = Some FDir" and "R \<noteq> []"
  shows "grows (\<lambda>location n. prefix R location) d (fst (write_files E (path_of True R) fs d))"
  using write_files_grows [OF _ assms, of E fs] by (cases "write_files E (path_of True R) fs d") auto

theorem checkout_writes_inside_witness:
  "grows (\<lambda>location n. prefix [''s''] location) (disk_of [([], FDir), ([''s''], FDir)])
     (fst (write_files demo_env (path_of True [''s'']) demo_files (disk_of [([], FDir), ([''s''], FDir)])))"
proof (rule checkout_writes_inside)
  show "tree (disk_node (disk_of [([], FDir), ([''s''], FDir)]))"
    by (auto simp: tree_def disk_node_def disk_of_def append_eq_Cons_conv split: if_splits)
  show "disk_node (disk_of [([], FDir), ([''s''], FDir)]) [''s''] = Some FDir"
    by (simp add: disk_node_def disk_of_def)
qed simp

text \<open>Pruning removes no checkout that is kept or in use, and nothing that is not a repository of this
  cache. A checkout stays as it is when its commit is to be kept for a URL of its repository, when
  its repository is in use and it was used since the limit, and when nobody needs its repository
  but that was used since; and an entry of the cache's root whose name is not a repository's hash
  (the Helm charts) is never touched.\<close>

theorem Prune_spares:
  assumes "git_cache_ok (parts (gc_Root C)) (cs_disk s)" and "IsAbs (gc_Root C)" and "Clean (gc_Root C) = gc_Root C"
    and "W = parts (gc_Root C) @ [key, ''worktrees'', c]" and "disk_node (cs_disk s) W = Some FDir"
    and "case kept C keep (path_of True (parts (gc_Root C) @ [key])) of
        None \<Rightarrow> olderThan \<le> dk_mtime (cs_disk s) (parts (gc_Root C) @ [key])
      | Some commits \<Rightarrow> c \<in> set commits \<or> olderThan \<le> dk_mtime (cs_disk s) W"
    and "\<not> cacheKey other"
  shows "subtree (disk_node (cs_disk (fst (Cache_Prune E C keep olderThan s)))) W = subtree (disk_node (cs_disk s)) W \<and>
    disk_node (cs_disk (fst (Cache_Prune E C keep olderThan s))) (parts (gc_Root C) @ other # x) = disk_node (cs_disk s) (parts (gc_Root C) @ other # x)"
proof -
  let ?R = "parts (gc_Root C)"
  obtain s' removed errs where p: "Cache_Prune E C keep olderThan s = (s', removed, errs)"
    using prod_cases3 by blast
  have "holds_checkout C keep olderThan ?R key c (cs_disk s) (cs_disk s)"
    using assms(4-6) by (auto simp: holds_checkout_def spared_def split: option.splits)
  moreover have "\<forall>n. cacheKey n \<longrightarrow> \<not> prefix (?R @ [n]) (?R @ other # x)"
    using assms(7) by (auto simp: prefix_def)
  ultimately show ?thesis
    using Prune_effect [OF p clean_root [OF assms(2,3)] assms(1)] p assms(4) by (simp add: holds_checkout_def)
qed

theorem Prune_spares_witness:
  "subtree (disk_node (cs_disk (fst (Cache_Prune demo_env demo_cache [(''https://x'', [''abc''])] 50 demo_checked_out)))) [''c'', demo_key, ''worktrees'', ''abc''] =
     subtree (disk_node (cs_disk demo_checked_out)) [''c'', demo_key, ''worktrees'', ''abc''] \<and>
   disk_node (cs_disk (fst (Cache_Prune demo_env demo_cache [(''https://x'', [''abc''])] 50 demo_checked_out))) [''c'', ''charts''] =
     disk_node (cs_disk demo_checked_out) [''c'', ''charts'']"
  using Prune_spares [where C = demo_cache and s = demo_checked_out and W = "[''c'', demo_key, ''worktrees'', ''abc'']" and key = demo_key
      and c = "''abc''" and keep = "[(''https://x'', [''abc''])]" and olderThan = 50 and other = "''charts''" and E = demo_env and x = "[]"]
    demo_ok demo_kept by (simp add: demo_node cacheKey_def)

text \<open>A checkout just handed out survives the next pruning: whatever the pruner decides to keep, a
  \<open>Prune\<close> that runs after \<open>Resolve\<close> with a limit no later than the time of that \<open>Resolve\<close> leaves the
  checkout it returned, and all its content, as it is.\<close>

theorem resolved_survives_prune:
  assumes "cache_reachable C s" and "IsAbs (gc_Root C)" and "Clean (gc_Root C) = gc_Root C" and "olderThan \<le> oe_now E"
  shows "case Resolve E G C repository s of
      (s', Inl err) \<Rightarrow> True
    | (s', Inr src) \<Rightarrow>
        (let W = parts (res_CacheDir src) in
         disk_node (cs_disk s') W = Some FDir \<and>
         subtree (disk_node (cs_disk (fst (Cache_Prune E' C keep olderThan s')))) W = subtree (disk_node (cs_disk s')) W)"
proof -
  have "disk_node (cs_disk s') (parts (res_CacheDir src)) = Some FDir \<and>
      subtree (disk_node (cs_disk (fst (Cache_Prune E' C keep olderThan s')))) (parts (res_CacheDir src)) = subtree (disk_node (cs_disk s')) (parts (res_CacheDir src))"
    if res: "Resolve E G C repository s = (s', Inr src)" for s' src
    using resolved_location [OF assms(1-3) res]
  proof cases
    case (1 key c)
    let ?R = "parts (gc_Root C)"
    obtain s'' removed errs where p: "Cache_Prune E' C keep olderThan s' = (s'', removed, errs)"
      using prod_cases3 by blast
    have "holds_checkout C keep olderThan ?R key c (cs_disk s') (cs_disk s')"
      using 1(7-9) assms(4) by (auto simp: holds_checkout_def spared_def split: option.splits)
    then show ?thesis
      using Prune_effect [OF p clean_root [OF assms(2,3)] 1(4), of _ key c] p 1(6,7) by (simp add: holds_checkout_def)
  qed
  then show ?thesis
    by (auto simp: Let_def split: prod.splits sum.splits)
qed

theorem resolved_survives_prune_witness:
  "case Resolve demo_env demo_git demo_cache demo_repository demo_state of
      (s', Inl err) \<Rightarrow> True
    | (s', Inr src) \<Rightarrow>
        (let W = parts (res_CacheDir src) in
         disk_node (cs_disk s') W = Some FDir \<and>
         subtree (disk_node (cs_disk (fst (Cache_Prune demo_env demo_cache [] 100 s')))) W = subtree (disk_node (cs_disk s')) W)"
  by (rule resolved_survives_prune [OF demo_reachable]) (simp_all add: demo_env_def)

text \<open>SSH is never used without a private key and known hosts, and they are those of the credentials.\<close>

theorem ssh_needs_known_hosts:
  assumes "AuthMethod E G repository = Inr auth" and "isSSH (gr_URL repository)"
  shows "\<exists>user. auth = Some (PublicKeys user (cr_SSHKey (gr_Auth repository)) (cr_KnownHosts (gr_Auth repository))) \<and>
    cr_SSHKey (gr_Auth repository) \<noteq> [] \<and> TrimSpace (cr_KnownHosts (gr_Auth repository)) \<noteq> []"
  using assms by (auto simp: AuthMethod_def knownHostsCallback_def Let_def split: sum.splits if_splits)

end
