(* ===== verification/Source_Cache.thy ===== *)
theory Source_Cache
  imports Git_Cache
begin

text \<open>
  Who uses the cache's disk beside the Git cache, and what decides when it is cleaned: pulled Helm
  charts (\<open>Pull\<close>, \<open>findArchive\<close>, \<open>digestFile\<close> and \<open>PruneCache\<close> of \<open>internal/renderer/helm/pull.go\<close>) and
  the pruner of \<open>internal/controller/source_cache.go\<close>. Helm's own download and the semantic version
  parser are parameters. Both prunings keep one contract, the locale \<open>sweep\<close>: they change only what
  they own. The theorems show that no commit a Repository or Revision still refers to loses its
  checkout, and that a cached chart is only ever found again by the same namespace with the same
  credentials.
\<close>

subsection \<open>Pulled charts (\<open>internal/renderer/helm/pull.go\<close>)\<close>

record helm_lib =
  hl_StrictVersion :: "string \<Rightarrow> string option" \<comment> \<open>the error of \<open>semver.StrictNewVersion\<close>\<close>
  hl_sha256 :: "string \<Rightarrow> nat"
  hl_Download :: "chart_source \<Rightarrow> string \<Rightarrow> disk \<Rightarrow> disk \<times> string option" \<comment> \<open>Helm's pull into a directory\<close>

abbreviation nul :: char where
  "nul \<equiv> CHR 0x00"

definition sha_hex :: "helm_lib \<Rightarrow> string \<Rightarrow> string" where
  "sha_hex H s = hex_digits 64 (hl_sha256 H s)"

definition chart_dir :: "helm_lib \<Rightarrow> string \<Rightarrow> string \<Rightarrow> chart_source \<Rightarrow> string" where
  "chart_dir H dir namespace src =
     (let auth = sha_hex H (chs_Username src @ [nul] @ chs_Password src) in
      JoinPath dir (sha_hex H (chs_Repository src @ [nul] @ chs_Name src @ [nul] @ chs_Version src @ [nul] @ namespace @ [nul] @ auth)))"

definition findArchive :: "disk \<Rightarrow> string \<Rightarrow> string + string" where
  "findArchive d dir =
     (case (case namei d True dir of
              Inl _ \<Rightarrow> []
            | Inr p \<Rightarrow> if disk_node d p = Some FDir then filter (\<lambda>n. HasSuffix n ''.tgz'') (entry_names d p) else []) of
        [n] \<Rightarrow> Inr (JoinPath dir n)
      | _ \<Rightarrow> Inl (''no chart archive in '' @ dir))"

definition digestFile :: "os_env \<Rightarrow> helm_lib \<Rightarrow> disk \<Rightarrow> string \<Rightarrow> string + string \<times> string" where
  "digestFile E H d path =
     (case checked E SOpen path (info_at d (namei d True path)) of
        Inl e \<Rightarrow> Inl (errno_text e)
      | Inr (FFile _ contents, _) \<Rightarrow> Inr (path, ''sha256:'' @ sha_hex H contents)
      | Inr _ \<Rightarrow> Inl ''is a directory'')"

definition Pull :: "os_env \<Rightarrow> helm_lib \<Rightarrow> bool \<Rightarrow> string \<Rightarrow> string \<Rightarrow> chart_source \<Rightarrow> disk \<Rightarrow> disk \<times> (string + string \<times> string)" where
  "Pull E H plainHTTP dir namespace src d =
     (if \<not> plainHTTP \<and> \<not> HasPrefix (chs_Repository src) ''https://'' \<and> \<not> HasPrefix (chs_Repository src) ''oci://''
      then (d, Inl ''chart repository must use https:// or oci://'')
      else
        (case hl_StrictVersion H (TrimPrefix (chs_Version src) ''v'') of
           Some m \<Rightarrow> (d, Inl (''chart version '' @ [CHR 0x22] @ chs_Version src @ [CHR 0x22] @ '' must be an exact semantic version, not a range: '' @ m))
         | None \<Rightarrow>
             (let dest = chart_dir H dir namespace src in
              case findArchive d dest of
                Inr archive \<Rightarrow>
                  (case Chtimes E dest (oe_now E) d of
                     (d1, Some e) \<Rightarrow> (d1, Inl (errno_text e))
                   | (d1, None) \<Rightarrow> (d1, digestFile E H d1 archive))
              | Inl _ \<Rightarrow>
                  (case MkdirAll E dest d of
                     (d1, Some e) \<Rightarrow> (d1, Inl (errno_text e))
                   | (d1, None) \<Rightarrow>
                       (case hl_Download H src dest d1 of
                          (d2, Some m) \<Rightarrow> (d2, Inl (''pull chart '' @ chs_Name src @ '' '' @ chs_Version src @ '': '' @ m))
                        | (d2, None) \<Rightarrow>
                            (case findArchive d2 dest of
                               Inl m \<Rightarrow> (d2, Inl m)
                             | Inr archive \<Rightarrow> (d2, digestFile E H d2 archive)))))))"

fun prune_charts :: "os_env \<Rightarrow> string \<Rightarrow> int \<Rightarrow> (string \<times> fnode option) list \<Rightarrow> disk \<Rightarrow> disk \<times> string list \<times> string list" where
  "prune_charts E dir olderThan [] d = (d, [], [])"
| "prune_charts E dir olderThan (entry # entries) d =
     (if snd entry \<noteq> Some FDir then prune_charts E dir olderThan entries d
      else
        (let dest = JoinPath dir (fst entry) in
         case Stat E d dest of
           Inl ENOENT \<Rightarrow> prune_charts E dir olderThan entries d
         | Inl e \<Rightarrow>
             (case prune_charts E dir olderThan entries d of (d', removed, errs) \<Rightarrow> (d', removed, errno_text e # errs))
         | Inr (_, modTime) \<Rightarrow>
             if \<not> modTime < olderThan then prune_charts E dir olderThan entries d
             else
               (case RemoveAll E dest d of
                  (d1, Some e) \<Rightarrow>
                    (case prune_charts E dir olderThan entries d1 of (d', removed, errs) \<Rightarrow> (d', removed, errno_text e # errs))
                | (d1, None) \<Rightarrow>
                    (case prune_charts E dir olderThan entries d1 of (d', removed, errs) \<Rightarrow> (d', dest # removed, errs)))))"

definition PruneCache :: "os_env \<Rightarrow> string \<Rightarrow> int \<Rightarrow> disk \<Rightarrow> disk \<times> string list \<times> string list" where
  "PruneCache E dir olderThan d =
     (case ReadDir E d dir of
        Inl ENOENT \<Rightarrow> (d, [], [])
      | Inl e \<Rightarrow> (d, [], [errno_text e])
      | Inr entries \<Rightarrow> prune_charts E dir olderThan entries d)"

subsection \<open>The pruner (\<open>internal/controller/source_cache.go\<close>)\<close>

text \<open>Times are in nanoseconds.\<close>

definition cacheGracePeriod :: int where
  "cacheGracePeriod = 60 * 60 * 10 ^ 9"

definition chartCacheMaxIdle :: int where
  "chartCacheMaxIdle = 24 * 60 * 60 * 10 ^ 9"

definition chartCacheSubdir :: string where
  "chartCacheSubdir = ''charts''"

text \<open>\<open>keep[url] = append(keep[url], commit)\<close>, on the map as a list of its entries.\<close>

fun keep_commit :: "string \<Rightarrow> string \<Rightarrow> (string \<times> string list) list \<Rightarrow> (string \<times> string list) list" where
  "keep_commit url commit [] = [(url, [commit])]"
| "keep_commit url commit ((u, commits) # keep) =
     (if u = url then (u, commits @ [commit]) # keep else (u, commits) # keep_commit url commit keep)"

definition repository_url :: "repository \<Rightarrow> string option" where
  "repository_url repository = map_option git_URL (repo_Git (repo_Spec repository))"

fun keep_repositories :: "repository list \<Rightarrow> (string \<times> string list) list \<Rightarrow> (string \<times> string list) list" where
  "keep_repositories [] keep = keep"
| "keep_repositories (repository # repositories) keep =
     keep_repositories repositories
       (case repository_url repository of
          None \<Rightarrow> keep
        | Some url \<Rightarrow> keep_commit url (repostatus_ObservedRevision (repo_Status repository)) keep)"

text \<open>The URL of a Repository by its namespace and name; the last one listed counts.\<close>

fun repository_urls :: "repository list \<Rightarrow> string \<times> string \<rightharpoonup> string" where
  "repository_urls [] = Map.empty"
| "repository_urls (repository # repositories) =
     (case repository_url repository of
        None \<Rightarrow> repository_urls repositories
      | Some url \<Rightarrow> [(om_Namespace (repo_Meta repository), om_Name (repo_Meta repository)) \<mapsto> url] ++ repository_urls repositories)"

fun keep_revisions :: "(string \<times> string \<rightharpoonup> string) \<Rightarrow> revision list \<Rightarrow> (string \<times> string list) list \<Rightarrow> (string \<times> string list) list" where
  "keep_revisions urls [] keep = keep"
| "keep_revisions urls (revision # revisions) keep =
     keep_revisions urls revisions
       (case urls (om_Namespace (rev_Meta revision), rsrc_RepositoryRef (rspec_Source (rev_Spec revision))) of
          None \<Rightarrow> keep
        | Some url \<Rightarrow> keep_commit url (rsrc_Revision (rspec_Source (rev_Spec revision))) keep)"

definition keptCommits :: "api_error + repository list \<Rightarrow> api_error + revision list \<Rightarrow> api_error + (string \<times> string list) list" where
  "keptCommits listRepositories listRevisions =
     (case listRepositories of
        Inl err \<Rightarrow> Inl err
      | Inr repositories \<Rightarrow>
          (case listRevisions of
             Inl err \<Rightarrow> Inl err
           | Inr revisions \<Rightarrow> Inr (keep_revisions (repository_urls repositories) revisions (keep_repositories repositories []))))"

definition pruner_prune :: "os_env \<Rightarrow> cache \<Rightarrow> api_error + repository list \<Rightarrow> api_error + revision list \<Rightarrow> 'r cache_state \<Rightarrow> 'r cache_state \<times> string list" where
  "pruner_prune E C listRepositories listRevisions s =
     (case (case keptCommits listRepositories listRevisions of
              Inl err \<Rightarrow> (s, [error_text err])
            | Inr keep \<Rightarrow>
                (case Cache_Prune E C keep (oe_now E - cacheGracePeriod) s of (s', removed, errs) \<Rightarrow> (s', map source_error_text errs))) of
        (s1, errs) \<Rightarrow>
          (case PruneCache E (JoinPath (gc_Root C) chartCacheSubdir) (oe_now E - chartCacheMaxIdle) (cs_disk s1) of
             (d, removed, chartErrs) \<Rightarrow> (s1\<lparr>cs_disk := d\<rparr>, errs @ chartErrs)))"

subsection \<open>Prunings that change only what they own\<close>

locale sweep =
  fixes view :: "'s \<Rightarrow> nodes" and ok :: "'s \<Rightarrow> bool" and run :: "'s \<Rightarrow> 's" and owns :: "'s \<Rightarrow> loc \<Rightarrow> bool"
  assumes run_ok: "ok s \<Longrightarrow> ok (run s)"
    and run_frame: "ok s \<Longrightarrow> \<not> owns s q \<Longrightarrow> view (run s) q = view s q"
begin

lemma run_subtree: "ok s \<Longrightarrow> (\<And>x. \<not> owns s (p @ x)) \<Longrightarrow> subtree (view (run s)) p = subtree (view s) p"
  by (simp add: subtree_def run_frame)

end

locale sweep_pair = one: sweep view ok run_one owns_one + two: sweep view ok run_two owns_two
  for view :: "'s \<Rightarrow> nodes" and ok run_one owns_one run_two owns_two

sublocale sweep_pair \<subseteq> both: sweep view ok "\<lambda>s. run_two (run_one s)" "\<lambda>s q. owns_one s q \<or> owns_two (run_one s) q"
  by unfold_locales (simp_all add: one.run_ok two.run_ok one.run_frame two.run_frame)

text \<open>What both prunings of one cache rely on: the cache's invariant, and a chart directory that is no link.\<close>

definition sweep_ok :: "cache \<Rightarrow> 'r cache_state \<Rightarrow> bool" where
  "sweep_ok C s \<longleftrightarrow> IsAbs (gc_Root C) \<and> Clean (gc_Root C) = gc_Root C \<and> git_cache_ok (parts (gc_Root C)) (cs_disk s) \<and>
     (\<forall>t. disk_node (cs_disk s) (parts (gc_Root C) @ [chartCacheSubdir]) \<noteq> Some (FLink t))"

definition git_sweep :: "os_env \<Rightarrow> cache \<Rightarrow> (string \<times> string list) list \<Rightarrow> int \<Rightarrow> 'r cache_state \<Rightarrow> 'r cache_state" where
  "git_sweep E C keep t s = fst (Cache_Prune E C keep t s)"

definition git_owns :: "cache \<Rightarrow> (string \<times> string list) list \<Rightarrow> int \<Rightarrow> 'r cache_state \<Rightarrow> loc \<Rightarrow> bool" where
  "git_owns C keep t s q \<longleftrightarrow>
     (\<exists>key. cacheKey key \<and> prefix (parts (gc_Root C) @ [key]) q) \<and>
     \<not> (\<exists>key c. prefix (parts (gc_Root C) @ [key, ''worktrees'', c]) q \<and>
          holds_checkout C keep t (parts (gc_Root C)) key c (cs_disk s) (cs_disk s))"

definition chart_sweep :: "os_env \<Rightarrow> cache \<Rightarrow> int \<Rightarrow> 'r cache_state \<Rightarrow> 'r cache_state" where
  "chart_sweep E C t s = s\<lparr>cs_disk := fst (PruneCache E (JoinPath (gc_Root C) chartCacheSubdir) t (cs_disk s))\<rparr>"

definition chart_owns :: "cache \<Rightarrow> 'r cache_state \<Rightarrow> loc \<Rightarrow> bool" where
  "chart_owns C s q \<longleftrightarrow> strict_prefix (parts (gc_Root C) @ [chartCacheSubdir]) q"

lemma charts_name [simp]: "names [chartCacheSubdir]" "\<not> cacheKey chartCacheSubdir"
  by (simp_all add: chartCacheSubdir_def cacheKey_def)

lemma prune_charts_removes:
  assumes "prune_charts E (path_of True U) t entries d1 = (d', removed, errs)" "removes (\<lambda>n. True) U d d1" "disk_node d U = Some FDir"
    and "names U" "\<forall>e \<in> set entries. names [fst e]"
  shows "removes (\<lambda>n. True) U d d'"
  using assms(1,2,5)
proof (induction entries arbitrary: d1 removed errs)
  case (Cons e entries)
  obtain d2 r2 where ra: "RemoveAll E (path_of True (U @ [fst e])) d1 = (d2, r2)"
    by fastforce
  have nm: "names [fst e]"
    using Cons.prems(3) by simp
  have path: "JoinPath (path_of True U) (fst e) = path_of True (U @ [fst e])"
    using JoinPath_name [OF assms(4) nm] .
  have rm: "removes (\<lambda>n. True) U d d2"
    using removes_trans [OF Cons.prems(2) RemoveAll_removes [OF ra removes_tree [OF Cons.prems(2)] _ nm]]
      removes_top [OF Cons.prems(2)] assms(3) by simp
  have "(\<exists>r es. prune_charts E (path_of True U) t entries d1 = (d', r, es)) \<or> (\<exists>r es. prune_charts E (path_of True U) t entries d2 = (d', r, es))"
    using Cons.prems(1) path ra by (auto simp: Let_def split: if_splits sum.splits errno.splits prod.splits option.splits)
  then show ?case
    using Cons.IH [OF _ Cons.prems(2)] Cons.IH [OF _ rm] Cons.prems(3) by auto
qed simp

lemma PruneCache_removes:
  assumes "PruneCache E (path_of True U) t d = (d', removed, errs)" "tree (disk_node d)" "names U" "\<And>q l. prefix q U \<Longrightarrow> disk_node d q \<noteq> Some (FLink l)"
  shows "removes (\<lambda>n. True) U d d'"
proof -
  consider "d' = d" | entries where "ReadDir E d (path_of True U) = Inr entries" "prune_charts E (path_of True U) t entries d = (d', removed, errs)"
    using assms(1) by (auto simp: PruneCache_def split: sum.splits errno.splits)
  then show ?thesis
  proof cases
    case 2
    note rd = ReadDir_real [OF 2(1) assms(2-4)]
    show ?thesis
      by (rule prune_charts_removes [OF 2(2) removes_refl [OF assms(2)] _ assms(3)]) (use rd in auto)
  qed (use assms(2) in simp)
qed

lemma cache_ok_removes_charts:
  assumes "git_cache_ok R d" "removes K (R @ [n]) d d'" "\<not> cacheKey n"
  shows "git_cache_ok R d'"
proof -
  have same: "disk_node d' q = disk_node d q" if "cacheKey key" "prefix q (R @ [key, ''worktrees'']) \<or> prefix (R @ [key]) q" for key q
    by (rule removes_same [OF assms(2)]) (use that assms(3) in \<open>auto simp: prefix_def append_eq_append_conv2 append_eq_Cons_conv\<close>)
  have "subtree (disk_node d') (R @ [key, ''worktrees'', c]) = subtree (disk_node d) (R @ [key, ''worktrees'', c])" if "cacheKey key" for key c
    using same [OF that] by (auto simp: subtree_def)
  then show ?thesis
    using assms(1) same removes_tree [OF assms(2)] by (auto simp: git_cache_ok_def)
qed

lemma git_sweep_effect:
  assumes "sweep_ok C s"
  shows "sweep_ok C (git_sweep E C keep t s)"
    and "\<not> git_owns C keep t s q \<Longrightarrow> disk_node (cs_disk (git_sweep E C keep t s)) q = disk_node (cs_disk s) q"
proof -
  let ?R = "parts (gc_Root C)"
  have abs: "IsAbs (gc_Root C)" "Clean (gc_Root C) = gc_Root C" and ok: "git_cache_ok ?R (cs_disk s)"
    using assms by (auto simp: sweep_ok_def)
  obtain s' removed errs where p: "Cache_Prune E C keep t s = (s', removed, errs)"
    using prod_cases3 by blast
  note eff = Prune_effect [OF p clean_root [OF abs] ok]
  have out: "\<forall>n. cacheKey n \<longrightarrow> \<not> prefix (?R @ [n]) (?R @ [chartCacheSubdir])"
    by (auto simp: prefix_def)
  show "sweep_ok C (git_sweep E C keep t s)"
    using assms p eff [of "?R @ [chartCacheSubdir]"] out by (auto simp: sweep_ok_def git_sweep_def)
  assume "\<not> git_owns C keep t s q"
  then consider "\<forall>n. cacheKey n \<longrightarrow> \<not> prefix (?R @ [n]) q"
    | key c x where "q = (?R @ [key, ''worktrees'', c]) @ x" "holds_checkout C keep t ?R key c (cs_disk s) (cs_disk s)"
    by (auto simp: git_owns_def prefix_def)
  then show "disk_node (cs_disk (git_sweep E C keep t s)) q = disk_node (cs_disk s) q"
  proof cases
    case 1
    then show ?thesis
      using eff p by (simp add: git_sweep_def)
  next
    case 2
    then have "subtree (disk_node (cs_disk s')) (?R @ [key, ''worktrees'', c]) x = subtree (disk_node (cs_disk s)) (?R @ [key, ''worktrees'', c]) x"
      using eff [of q key c] by (simp add: holds_checkout_def)
    then show ?thesis
      using 2(1) p by (simp add: git_sweep_def)
  qed
qed

lemma chart_sweep_effect:
  assumes "sweep_ok C s"
  shows "sweep_ok C (chart_sweep E C t s)"
    and "\<not> chart_owns C s q \<Longrightarrow> disk_node (cs_disk (chart_sweep E C t s)) q = disk_node (cs_disk s) q"
proof -
  let ?R = "parts (gc_Root C)" and ?d = "cs_disk s"
  have abs: "IsAbs (gc_Root C)" "Clean (gc_Root C) = gc_Root C" and ok: "git_cache_ok ?R ?d"
    and link: "\<And>l. disk_node ?d (?R @ [chartCacheSubdir]) \<noteq> Some (FLink l)"
    using assms by (auto simp: sweep_ok_def)
  note root = clean_root [OF abs]
  have path: "JoinPath (gc_Root C) chartCacheSubdir = path_of True (?R @ [chartCacheSubdir])"
    using JoinPath_name [OF root(2) charts_name(1)] root(1) by metis
  obtain d' removed errs where p: "PruneCache E (path_of True (?R @ [chartCacheSubdir])) t ?d = (d', removed, errs)"
    using prod_cases3 by blast
  have real: "disk_node ?d q \<noteq> Some (FLink l)" if "prefix q (?R @ [chartCacheSubdir])" for q l
    using that link cache_ok_real [OF ok cacheKey_hex, of q] by (auto simp: prefix_snoc intro: prefix_order.trans [OF _ prefixI])
  have rm: "removes (\<lambda>n. True) (?R @ [chartCacheSubdir]) ?d d'"
    by (rule PruneCache_removes [OF p cache_ok_tree [OF ok] _ real])
      (simp_all only: names_simps(3) root(2) charts_name(1) simp_thms)
  show "sweep_ok C (chart_sweep E C t s)"
    using abs link cache_ok_removes_charts [OF ok rm] removes_top [OF rm] p path by (simp add: sweep_ok_def chart_sweep_def)
  assume "\<not> chart_owns C s q"
  then have "disk_node d' q = disk_node ?d q"
    by (intro removes_same [OF rm]) (auto simp: chart_owns_def strict_prefix_def prefix_def)
  then show "disk_node (cs_disk (chart_sweep E C t s)) q = disk_node (cs_disk s) q"
    using p path by (simp add: chart_sweep_def)
qed

interpretation git_pruning: sweep "\<lambda>s. disk_node (cs_disk s)" "sweep_ok C" "git_sweep E C keep t" "git_owns C keep t" for E C keep t
  by unfold_locales (rule git_sweep_effect, assumption+)+

interpretation chart_pruning: sweep "\<lambda>s. disk_node (cs_disk s)" "sweep_ok C" "chart_sweep E C t" "chart_owns C" for E C t
  by unfold_locales (rule chart_sweep_effect, assumption+)+

interpretation both_prunings: sweep_pair "\<lambda>s. disk_node (cs_disk s)" "sweep_ok C" "git_sweep E C keep t" "git_owns C keep t"
    "chart_sweep E C u" "chart_owns C" for E C keep t u
  by unfold_locales

subsection \<open>Which commits are kept\<close>

definition in_keep :: "(string \<times> string list) list \<Rightarrow> string \<Rightarrow> string \<Rightarrow> bool" where
  "in_keep keep url commit \<longleftrightarrow> (\<exists>commits. (url, commits) \<in> set keep \<and> commit \<in> set commits)"

lemma in_keep_commit [simp]: "in_keep (keep_commit url commit keep) u c \<longleftrightarrow> in_keep keep u c \<or> u = url \<and> c = commit"
  by (induction url commit keep rule: keep_commit.induct) (auto simp: in_keep_def)

lemma in_keep_repositories:
  "in_keep (keep_repositories repositories keep) url commit \<longleftrightarrow> in_keep keep url commit \<or>
     (\<exists>r \<in> set repositories. repository_url r = Some url \<and> commit = repostatus_ObservedRevision (repo_Status r))"
  by (induction repositories keep rule: keep_repositories.induct) (auto split: option.splits)

lemma in_keep_revisions:
  "in_keep (keep_revisions urls revisions keep) url commit \<longleftrightarrow> in_keep keep url commit \<or>
     (\<exists>v \<in> set revisions. urls (om_Namespace (rev_Meta v), rsrc_RepositoryRef (rspec_Source (rev_Spec v))) = Some url \<and>
        commit = rsrc_Revision (rspec_Source (rev_Spec v)))"
  by (induction urls revisions keep rule: keep_revisions.induct) (auto split: option.splits)

definition repository_key :: "repository \<Rightarrow> string \<times> string" where
  "repository_key r = (om_Namespace (repo_Meta r), om_Name (repo_Meta r))"

lemma repository_urls_none: "k \<notin> repository_key ` set repositories \<Longrightarrow> repository_urls repositories k = None"
  by (induction repositories) (auto simp: repository_key_def map_add_def split: option.splits)

lemma repository_urls_some:
  "distinct (map repository_key repositories) \<Longrightarrow> r \<in> set repositories \<Longrightarrow> repository_url r = Some url \<Longrightarrow>
   repository_urls repositories (repository_key r) = Some url"
  by (induction repositories) (auto simp: map_add_def repository_urls_none simp flip: repository_key_def split: option.splits)

lemma kept_in_keep: "in_keep keep url commit \<Longrightarrow> \<exists>commits. kept C keep (cacheDir C url) = Some commits \<and> commit \<in> set commits"
  unfolding in_keep_def kept_def Let_def by (force simp: filter_empty_conv)

lemma keptCommits_keep:
  assumes "keptCommits (Inr repositories) (Inr revisions) = Inr keep" "distinct (map repository_key repositories)"
    and "r \<in> set repositories" "repository_url r = Some url"
    and "commit = repostatus_ObservedRevision (repo_Status r) \<or>
      (\<exists>v \<in> set revisions. om_Namespace (rev_Meta v) = om_Namespace (repo_Meta r) \<and>
         rsrc_RepositoryRef (rspec_Source (rev_Spec v)) = om_Name (repo_Meta r) \<and> rsrc_Revision (rspec_Source (rev_Spec v)) = commit)"
  shows "in_keep keep url commit"
proof -
  have keep: "keep = keep_revisions (repository_urls repositories) revisions (keep_repositories repositories [])"
    using assms(1) by (simp add: keptCommits_def)
  have url: "repository_urls repositories (om_Namespace (repo_Meta r), om_Name (repo_Meta r)) = Some url"
    using repository_urls_some [OF assms(2-4)] by (simp add: repository_key_def)
  show ?thesis
    unfolding keep in_keep_revisions in_keep_repositories using assms(3-5) url by metis
qed

lemma pruner_prune_sweeps:
  "fst (pruner_prune E C (Inr repositories) (Inr revisions) s) =
     chart_sweep E C (oe_now E - chartCacheMaxIdle)
       (git_sweep E C (case keptCommits (Inr repositories) (Inr revisions) of Inr keep \<Rightarrow> keep | Inl _ \<Rightarrow> []) (oe_now E - cacheGracePeriod) s)"
  by (simp add: pruner_prune_def keptCommits_def git_sweep_def chart_sweep_def split: prod.splits)

text \<open>C9. The pruner never takes a checkout that a listed Repository still refers to: when the Repositories and
  Revisions are listed, the checkout, under the Repository's current URL, of its observed commit, and of the commit of any
  Revision of the same namespace rendered from that Repository, is after a whole run of the pruner, the Helm charts
  included, exactly what it was before, however long nobody used it. A Revision whose Repository is gone, or has another
  URL by now, keeps nothing.\<close>

theorem pruner_keeps_referenced:
  assumes "sweep_ok C s" and "distinct (map repository_key repositories)"
    and "r \<in> set repositories" and "repository_url r = Some url"
    and "commit = repostatus_ObservedRevision (repo_Status r) \<or>
      (\<exists>v \<in> set revisions. om_Namespace (rev_Meta v) = om_Namespace (repo_Meta r) \<and>
         rsrc_RepositoryRef (rspec_Source (rev_Spec v)) = om_Name (repo_Meta r) \<and> rsrc_Revision (rspec_Source (rev_Spec v)) = commit)"
    and "W = parts (cacheDir C url) @ [''worktrees'', commit]" and "disk_node (cs_disk s) W = Some FDir"
  shows "subtree (disk_node (cs_disk (fst (pruner_prune E C (Inr repositories) (Inr revisions) s)))) W = subtree (disk_node (cs_disk s)) W"
proof -
  let ?R = "parts (gc_Root C)" and ?t = "oe_now E - cacheGracePeriod"
  have abs: "IsAbs (gc_Root C)" "Clean (gc_Root C) = gc_Root C"
    using assms(1) by (auto simp: sweep_ok_def)
  obtain key where key: "cacheKey key" "cacheDir C url = path_of True (?R @ [key])"
    using cacheDir_loc [OF clean_root [OF abs]] by blast
  obtain keep where keep: "keptCommits (Inr repositories) (Inr revisions) = Inr keep"
    by (simp add: keptCommits_def)
  have W: "W = ?R @ [key, ''worktrees'', commit]"
    using assms(6) key(2) clean_root(2) [OF abs] cacheKey_name [OF key(1)] by simp
  obtain commits where "kept C keep (cacheDir C url) = Some commits" "commit \<in> set commits"
    using kept_in_keep [OF keptCommits_keep [OF keep assms(2-5)]] by blast
  then have "holds_checkout C keep ?t ?R key commit (cs_disk s) (cs_disk s)"
    using key(2) W assms(7) by (simp add: holds_checkout_def spared_def)
  then have git: "\<not> git_owns C keep ?t s (W @ x)" for x
    using W by (auto simp: git_owns_def)
  have "\<not> chart_owns C s' (W @ x)" for x and s' :: "'a cache_state"
    using W key(1) charts_name(2) by (auto simp: chart_owns_def strict_prefix_def prefix_def)
  then show ?thesis
    using both_prunings.both.run_subtree [OF assms(1), of keep ?t W E] git pruner_prune_sweeps [of E C repositories revisions s] keep by simp
qed

definition demo_meta :: "string \<Rightarrow> string \<Rightarrow> object_meta" where
  "demo_meta namespace name = \<lparr>om_Name = name, om_Namespace = namespace, om_Labels = Map.empty, om_Annotations = Map.empty,
     om_Generation = 1, om_CreationTimestamp = 0, om_DeletionTimestamp = None, om_Finalizers = [], om_UID = ''u'', om_ResourceVersion = ''1''\<rparr>"

definition demo_repo :: repository where
  "demo_repo = \<lparr>repo_Meta = demo_meta ''ns'' ''app'', repo_Spec =
     \<lparr>repo_Type = RepositoryTypeGit, repo_Git = Some \<lparr>git_URL = ''https://x'', git_Revision = [], git_AuthSecretRef = None\<rparr>,
      repo_ApplicationConfigPaths = [], repo_ApplicationServiceAccountName = [],
      repo_ApplicationPolicy = \<lparr>ap_AllowAutomatic = False, ap_AllowPrune = False, ap_AllowAdopt = False, ap_AllowDeleteManagedResources = False\<rparr>,
      repo_PollInterval = None, repo_Webhook = None, repo_ImageUpdate = None\<rparr>,
     repo_Status = \<lparr>repostatus_State = RepositoryStateNone, repostatus_ObservedRevision = ''abc'', repostatus_LastFetchedAt = None, repostatus_Conditions = []\<rparr>\<rparr>"

theorem pruner_keeps_referenced_witness:
  "subtree (disk_node (cs_disk (fst (pruner_prune demo_env demo_cache (Inr [demo_repo]) (Inr []) demo_checked_out)))) [''c'', demo_key, ''worktrees'', ''abc''] =
     subtree (disk_node (cs_disk demo_checked_out)) [''c'', demo_key, ''worktrees'', ''abc'']"
proof (rule pruner_keeps_referenced [where r = demo_repo and url = "''https://x''" and commit = "''abc''"])
  show "sweep_ok demo_cache demo_checked_out"
    using demo_ok by (simp add: sweep_ok_def demo_node)
  have "cacheDir demo_cache ''https://x'' = path_of True [''c'', demo_key]"
    using demo_kept by (auto simp: kept_def Let_def split: if_splits)
  then show "[''c'', demo_key, ''worktrees'', ''abc''] = parts (cacheDir demo_cache ''https://x'') @ [''worktrees'', ''abc'']"
    using demo_key_name(1) by simp
qed (simp_all add: demo_repo_def repository_url_def demo_node)

subsection \<open>Charts are never shared\<close>

lemma append_sep_eq:
  assumes "a @ c # s = b @ c # t" "c \<notin> set s" "c \<notin> set t"
  shows "a = b \<and> s = t"
  using assms by (auto simp: append_eq_append_conv2 Cons_eq_append_conv append_eq_Cons_conv)

text \<open>Two pulls that share a directory of the chart cache are of the same namespace and use the same
  credentials, as long as SHA-256 does not collide on the four texts hashed for them.\<close>

theorem chart_never_shared:
  assumes "chart_dir H dir ns src = chart_dir H dir ns' src'" and "IsAbs dir" and "Clean dir = dir"
    and "nul \<notin> set ns" and "nul \<notin> set ns'" and "nul \<notin> set (chs_Password src)" and "nul \<notin> set (chs_Password src')"
    and "inj_on (sha_hex H)
      (let auth = (\<lambda>s. chs_Username s @ [nul] @ chs_Password s);
           key = (\<lambda>n s. chs_Repository s @ [nul] @ chs_Name s @ [nul] @ chs_Version s @ [nul] @ n @ [nul] @ sha_hex H (auth s))
       in {auth src, auth src', key ns src, key ns' src'})"
  shows "ns = ns' \<and> chs_Username src = chs_Username src' \<and> chs_Password src = chs_Password src'"
proof -
  let ?auth = "\<lambda>s. chs_Username s @ [nul] @ chs_Password s"
  let ?key = "\<lambda>n s. chs_Repository s @ [nul] @ chs_Name s @ [nul] @ chs_Version s @ [nul] @ n @ [nul] @ sha_hex H (?auth s)"
  let ?head = "\<lambda>s. chs_Repository s @ nul # chs_Name s @ nul # chs_Version s"
  note root = clean_root [OF assms(2,3)]
  have hex: "names [sha_hex H x]" "length (sha_hex H x) = 64" for x
    using hex_name(1) [of 64] by (auto simp: sha_hex_def)
  have join: "JoinPath dir (sha_hex H x) = path_of True (parts dir @ [sha_hex H x])" for x
    using JoinPath_name [OF root(2) hex(1)] root(1) by metis
  have "sha_hex H (?key ns src) = sha_hex H (?key ns' src')"
    using assms(1) join hex(1) root(2) by (simp add: chart_dir_def Let_def)
  then have "?key ns src = ?key ns' src'"
    using assms(8) by (simp only: Let_def inj_on_def) blast
  then have "(?head src @ nul # ns @ [nul]) @ sha_hex H (?auth src) = (?head src' @ nul # ns' @ [nul]) @ sha_hex H (?auth src')"
    by simp
  then have "?head src @ nul # ns @ [nul] = ?head src' @ nul # ns' @ [nul] \<and> sha_hex H (?auth src) = sha_hex H (?auth src')"
    by (subst (asm) append_eq_append_conv) (simp_all add: hex(2))
  moreover from this have "?auth src = ?auth src'"
    using assms(8) by (simp only: Let_def inj_on_def) blast
  ultimately show ?thesis
    using append_sep_eq [of "?head src" nul ns "?head src'" ns'] assms(4-7)
      append_sep_eq [of "chs_Username src" nul "chs_Password src" "chs_Username src'" "chs_Password src'"] by auto
qed

end
