(* ===== verification/Cli_Args.thy ===== *)
theory Cli_Args
  imports Prelude
begin

text \<open>
  The arguments of the command line (\<open>internal/cli/plan.go\<close>): Go's \<open>flag.FlagSet.Parse\<close> for
  flags with string values, \<open>interspersedFlags\<close>, which moves the flags in front so that they may
  be given anywhere, and the commands \<open>ksync\<close> prints for the reader to run next
  (\<open>planCommand\<close>, \<open>approveCommand\<close>). A parsed command line is the list of flags set, in the order they were
  given, and the remaining arguments.
\<close>

subsection \<open>The \<open>flag\<close> package\<close>

datatype flag_error =
    BadFlagSyntax string
  | FlagNotDefined string
  | ErrHelp
  | FlagNeedsArgument string

text \<open>The loop of \<open>parseOne\<close> that cuts \<open>name=value\<close> at the first equals sign after the first character.\<close>

fun cut_value :: "string \<Rightarrow> string \<times> string option" where
  "cut_value [] = ([], None)"
| "cut_value (c # cs) =
     (c # takeWhile (\<lambda>d. d \<noteq> CHR ''='') cs,
      case dropWhile (\<lambda>d. d \<noteq> CHR ''='') cs of [] \<Rightarrow> None | _ # v \<Rightarrow> Some v)"

definition flag_name :: "string \<Rightarrow> string" where
  "flag_name s = (if take 2 s = ''--'' then drop 2 s else drop 1 s)"

fun flag_Parse :: "string list \<Rightarrow> (string \<times> string) list \<Rightarrow> string list
    \<Rightarrow> flag_error + (string \<times> string) list \<times> string list" where
  "flag_Parse defined actual [] = Inr (actual, [])"
| "flag_Parse defined actual (s # args) =
     (if length s < 2 \<or> hd s \<noteq> CHR ''-'' then Inr (actual, s # args)
      else if s = ''--'' then Inr (actual, args)
      else if flag_name s = [] \<or> hd (flag_name s) = CHR ''-'' \<or> hd (flag_name s) = CHR ''=''
      then Inl (BadFlagSyntax s)
      else if fst (cut_value (flag_name s)) \<notin> set defined
      then Inl (if fst (cut_value (flag_name s)) \<in> {''help'', ''h''} then ErrHelp
                else FlagNotDefined (fst (cut_value (flag_name s))))
      else case snd (cut_value (flag_name s)) of
             Some v \<Rightarrow> flag_Parse defined (actual @ [(fst (cut_value (flag_name s)), v)]) args
           | None \<Rightarrow>
               (case args of
                  [] \<Rightarrow> Inl (FlagNeedsArgument (fst (cut_value (flag_name s))))
                | v # rest \<Rightarrow> flag_Parse defined (actual @ [(fst (cut_value (flag_name s)), v)]) rest))"

text \<open>A variable bound to the given flag names: the last one set decides, else the default.\<close>

definition flag_value :: "string list \<Rightarrow> string \<Rightarrow> (string \<times> string) list \<Rightarrow> string" where
  "flag_value names def actual =
     (case filter (\<lambda>(n, _). n \<in> set names) actual of [] \<Rightarrow> def | xs \<Rightarrow> snd (List.last xs))"

definition flagSet :: "(string \<times> string) list \<Rightarrow> string list \<Rightarrow> bool" where
  "flagSet actual names \<longleftrightarrow> list_ex (\<lambda>(n, _). n \<in> set names) actual"

subsection \<open>\<open>newFlagSet\<close> and \<open>interspersedFlags\<close>\<close>

definition defaultNamespace :: string where
  "defaultNamespace = ''default''"

definition newFlagSet :: "string list" where
  "newFlagSet = [''n'', ''namespace'']"

definition namespace_of :: "(string \<times> string) list \<Rightarrow> string" where
  "namespace_of actual = flag_value newFlagSet defaultNamespace actual"

definition takes_value :: "string \<Rightarrow> bool" where
  "takes_value arg \<longleftrightarrow> arg = ''-f'' \<or> arg = ''-o'' \<or> arg = ''-n'' \<or> arg = ''--namespace'' \<or> arg = ''--revision''"

fun intersperse :: "string list \<Rightarrow> string list \<times> string list" where
  "intersperse [] = ([], [])"
| "intersperse (arg # args) =
     (if takes_value arg then
        (case args of
           [] \<Rightarrow> ([arg], [])
         | v # rest \<Rightarrow> (let (flags, positional) = intersperse rest in (arg # v # flags, positional)))
      else (let (flags, positional) = intersperse args in (flags, arg # positional)))"

definition interspersedFlags :: "string list \<Rightarrow> string list" where
  "interspersedFlags args = (let (flags, positional) = intersperse args in flags @ positional)"

definition parse_args :: "string list \<Rightarrow> string list \<Rightarrow> flag_error + (string \<times> string) list \<times> string list" where
  "parse_args extra args = flag_Parse (newFlagSet @ extra) [] (interspersedFlags args)"

subsection \<open>Printed commands\<close>

definition planCommand :: "string \<Rightarrow> string \<Rightarrow> string" where
  "planCommand app ns = ''ksync plan '' @ app @ (if ns \<noteq> defaultNamespace then '' -n '' @ ns else [])"

definition approveCommand :: "string \<Rightarrow> string \<Rightarrow> bool \<Rightarrow> string \<Rightarrow> string" where
  "approveCommand app ns given r =
     ''ksync sync '' @ app @ (if given \<or> ns \<noteq> defaultNamespace then '' -n '' @ ns else []) @ '' --revision '' @ r"

subsection \<open>Lemmas\<close>

text \<open>A command line as its writer means it: options with their values between plain words.\<close>

datatype item = Opt string string | Plain string

fun item_args :: "item \<Rightarrow> string list" where
  "item_args (Opt f v) = [f, v]"
| "item_args (Plain w) = [w]"

fun item_options :: "item list \<Rightarrow> (string \<times> string) list" where
  "item_options [] = []"
| "item_options (Opt f v # items) = (flag_name f, v) # item_options items"
| "item_options (Plain w # items) = item_options items"

fun item_words :: "item list \<Rightarrow> string list" where
  "item_words [] = []"
| "item_words (Opt f v # items) = item_words items"
| "item_words (Plain w # items) = w # item_words items"

definition plain_word :: "string \<Rightarrow> bool" where
  "plain_word w \<longleftrightarrow> length w < 2 \<or> hd w \<noteq> CHR ''-''"

fun item_ok :: "string list \<Rightarrow> item \<Rightarrow> bool" where
  "item_ok defined (Opt f v) \<longleftrightarrow> takes_value f \<and> flag_name f \<in> set defined"
| "item_ok defined (Plain w) \<longleftrightarrow> plain_word w"

lemma plain_not_option: "plain_word w \<Longrightarrow> \<not> takes_value w"
  by (auto simp: plain_word_def takes_value_def)

lemma intersperse_items:
  assumes "list_all (item_ok defined) items"
  shows "intersperse (concat (map item_args items)) =
    (concat (map (\<lambda>(f, v). [f, v]) (List.map_filter (\<lambda>i. case i of Opt f v \<Rightarrow> Some (f, v) | Plain w \<Rightarrow> None) items)),
     item_words items)"
  using assms
proof (induction items)
  case Nil
  then show ?case by simp
next
  case (Cons i items)
  then show ?case by (cases i) (auto simp: plain_not_option List.map_filter_simps)
qed

lemma option_syntax:
  assumes "takes_value f"
  shows "\<not> (length f < 2 \<or> hd f \<noteq> CHR ''-'')" "f \<noteq> ''--''"
    "\<not> (flag_name f = [] \<or> hd (flag_name f) = CHR ''-'' \<or> hd (flag_name f) = CHR ''='')"
    "cut_value (flag_name f) = (flag_name f, None)"
  using assms by (auto simp: takes_value_def flag_name_def)

lemma flag_Parse_option:
  assumes "takes_value f" "flag_name f \<in> set defined"
  shows "flag_Parse defined actual (f # v # args) = flag_Parse defined (actual @ [(flag_name f, v)]) args"
  using option_syntax [OF assms(1)] assms(2) by simp

lemma flag_Parse_words:
  "list_all plain_word ws \<Longrightarrow> flag_Parse defined actual ws = Inr (actual, ws)"
  by (cases ws) (auto simp: plain_word_def)

lemma flag_Parse_options:
  assumes "list_all (item_ok defined) items"
  shows "flag_Parse defined actual
     (concat (map (\<lambda>(f, v). [f, v]) (List.map_filter (\<lambda>i. case i of Opt f v \<Rightarrow> Some (f, v) | Plain w \<Rightarrow> None) items)) @ rest)
   = flag_Parse defined (actual @ item_options items) rest"
  using assms
proof (induction items arbitrary: actual)
  case Nil
  then show ?case by (simp add: List.map_filter_simps)
next
  case (Cons i items)
  then show ?case
    by (cases i) (simp_all add: List.map_filter_simps flag_Parse_option del: flag_Parse.simps)
qed

lemma item_words_plain: "list_all (item_ok defined) items \<Longrightarrow> list_all plain_word (item_words items)"
  by (induction items rule: item_words.induct) auto

text \<open>Wherever the options stand, the parser reads the options and the words as they were meant.\<close>

lemma parse_items:
  assumes "list_all (item_ok (newFlagSet @ extra)) items"
  shows "parse_args extra (concat (map item_args items)) = Inr (item_options items, item_words items)"
  using flag_Parse_options [OF assms, of "[]"] flag_Parse_words [OF item_words_plain [OF assms]]
  by (simp add: parse_args_def interspersedFlags_def intersperse_items [OF assms])

text \<open>Splitting a command at its spaces.\<close>

definition approve_items :: "string \<Rightarrow> string \<Rightarrow> bool \<Rightarrow> string \<Rightarrow> item list" where
  "approve_items app ns given r =
     Plain app # (if given \<or> ns \<noteq> defaultNamespace then [Opt ''-n'' ns] else []) @ [Opt ''--revision'' r]"

lemma approveCommand_words:
  assumes "CHR '' '' \<notin> set app" "CHR '' '' \<notin> set ns" "CHR '' '' \<notin> set r"
  shows "Split (CHR '' '') (approveCommand app ns given r) =
    ''ksync'' # ''sync'' # concat (map item_args (approve_items app ns given r))"
  using assms by (cases "given \<or> ns \<noteq> defaultNamespace")
    (simp_all add: approveCommand_def approve_items_def Split_append Split_snoc)

end
