(* ===== verification/Cli_Revisions.thy ===== *)
theory Cli_Revisions
  imports Cli_Args Webhook "HOL-Library.Product_Lexorder"
begin

text \<open>
  Which Revision a command of \<open>ksync\<close> is about (\<open>internal/cli/plan.go\<close>): the newest one, the one an
  Application wants deployed, and the default target of a rollback. The cluster client is a record
  of parameters, one function per request; a write answers with the object as the server stored it. The
  locale \<open>choice\<close> is the contract of a loop that keeps the best element seen, by a linear order of
  keys; each of the loops is an interpretation of it.
\<close>

record cli_client =
  cc_Applications :: "string \<Rightarrow> api_error + application list"
  cc_Application :: "string \<Rightarrow> string \<Rightarrow> api_error + application"
  cc_Repositories :: "string \<Rightarrow> api_error + repository list"
  cc_Repository :: "string \<Rightarrow> string \<Rightarrow> api_error + repository"
  cc_Revision :: "string \<Rightarrow> string \<Rightarrow> api_error + revision"
  cc_Revisions :: "string \<Rightarrow> string \<Rightarrow> api_error + revision list" \<comment> \<open>by namespace and application label\<close>
  cc_Patch :: "application \<Rightarrow> strmap \<Rightarrow> api_error + application" \<comment> \<open>a merge patch of the annotations\<close>
  cc_Update :: "application \<Rightarrow> api_error + application"

datatype cli_error =
    ApiFailed api_error
  | BadFlags flag_error
  | UsageError string
  | NoRevisionFound string string
  | ForeignRevision string string string
  | ReplacedByRollback string
  | NoPlanYet string
  | NothingToRollBackFrom string
  | IsDesiredRevision string string
  | NoRollbackTarget string
  | OutputFailed string

subsection \<open>Operations\<close>

definition rolledBack :: "lib \<Rightarrow> revision \<Rightarrow> bool" where
  "rolledBack L r = (case FindStatusCondition L (rstatus_Conditions (rev_Status r)) RolledBackCondition of
       None \<Rightarrow> False | Some c \<Rightarrow> cond_Status c = ConditionTrue)"

definition cli_newer :: "revision \<Rightarrow> revision \<Rightarrow> bool" where
  "cli_newer a b =
     (if rev_Created b < rev_Created a then True
      else if rev_Created a = rev_Created b then rev_Name b < rev_Name a
      else False)"

definition cli_applicationRevisions :: "cli_client \<Rightarrow> string \<Rightarrow> string \<Rightarrow> api_error + revision list" where
  "cli_applicationRevisions c app ns = (case cc_Revisions c ns app of
       Inl err \<Rightarrow> Inl err
     | Inr items \<Rightarrow> Inr (filter (\<lambda>r. rev_ApplicationRef r = app) items))"

definition newest_loop :: "revision list \<Rightarrow> revision option" where
  "newest_loop revs = foldl (\<lambda>newest r. case newest of
       None \<Rightarrow> Some r
     | Some n \<Rightarrow> if cli_newer r n then Some r else Some n) None revs"

definition newestRevision :: "cli_client \<Rightarrow> string \<Rightarrow> string \<Rightarrow> cli_error + revision" where
  "newestRevision c app ns = (case cli_applicationRevisions c app ns of
       Inl err \<Rightarrow> Inl (ApiFailed err)
     | Inr revs \<Rightarrow> (case newest_loop revs of None \<Rightarrow> Inl (NoRevisionFound app ns) | Some r \<Rightarrow> Inr r))"

definition rollbackTargetOf :: "revision list \<Rightarrow> string \<Rightarrow> string \<Rightarrow> revision option" where
  "rollbackTargetOf revs commit chosen =
     (let (awaiting, named) = foldl (\<lambda>(awaiting, named) r.
            if rev_SourceRevision r \<noteq> commit then (awaiting, named)
            else
              (if rstatus_Phase (rev_Status r) = RevisionPhaseAwaitingApproval \<and>
                  (case awaiting of
                     None \<Rightarrow> True
                   | Some a \<Rightarrow> rev_Name r = chosen \<or> (rev_Name a \<noteq> chosen \<and> cli_newer r a))
               then Some r else awaiting,
               if rev_Name r = chosen then Some r else named)) (None, None) revs
      in if awaiting \<noteq> None then awaiting else named)"

definition revisionOf :: "lib \<Rightarrow> revision list \<Rightarrow> string \<Rightarrow> revision option" where
  "revisionOf L revs commit = foldl (\<lambda>best r.
       if commit = [] \<or> rev_SourceRevision r \<noteq> commit then best
       else case best of
              None \<Rightarrow> Some r
            | Some b \<Rightarrow>
                if rolledBack L b \<noteq> rolledBack L r then (if rolledBack L b then Some r else Some b)
                else if cli_newer r b then Some r else Some b) None revs"

definition wanted_commit :: "lib \<Rightarrow> application \<Rightarrow> revision list \<Rightarrow> string" where
  "wanted_commit L app revs =
     (let commit = TrimSpace (get_str (app_Annotations app) RollbackRevisionAnnotation) in
      if commit \<noteq> [] then commit
      else
        (let commit = astatus_DesiredRevision (app_Status app) in
         case revisionOf L revs commit of
           None \<Rightarrow> commit
         | Some wanted \<Rightarrow>
             if rolledBack L wanted \<and> astatus_DeployedRevision (app_Status app) \<noteq> []
             then astatus_DeployedRevision (app_Status app) else commit))"

definition pending_target :: "application \<Rightarrow> revision list \<Rightarrow> revision option" where
  "pending_target app revs =
     (let commit = TrimSpace (get_str (app_Annotations app) RollbackRevisionAnnotation) in
      if commit \<noteq> []
      then rollbackTargetOf revs commit (get_str (app_Annotations app) RollbackTargetRevisionAnnotation)
      else None)"

definition wantedRevision :: "lib \<Rightarrow> cli_client \<Rightarrow> string \<Rightarrow> string \<Rightarrow> cli_error + revision" where
  "wantedRevision L c name ns =
     (case cc_Application c ns name of
        Inl err \<Rightarrow> if IsNotFound err then newestRevision c name ns else Inl (ApiFailed err)
      | Inr app \<Rightarrow>
          (case cli_applicationRevisions c name ns of
             Inl err \<Rightarrow> Inl (ApiFailed err)
           | Inr revs \<Rightarrow>
               (case pending_target app revs of
                  Some wanted \<Rightarrow> Inr wanted
                | None \<Rightarrow>
                    (case revisionOf L revs (wanted_commit L app revs) of
                       Some wanted \<Rightarrow> Inr wanted
                     | None \<Rightarrow> newestRevision c name ns))))"

definition rollback_candidate :: "application \<Rightarrow> revision \<Rightarrow> bool" where
  "rollback_candidate app r \<longleftrightarrow>
     rev_ApplicationRef r = app_Name app \<and>
     rstatus_Phase (rev_Status r) \<in> {RevisionPhaseHealthy, RevisionPhaseRolledBack} \<and>
     rev_SourceRevision r \<noteq> astatus_DeployedRevision (app_Status app) \<and>
     rev_SourceRevision r \<noteq> astatus_DesiredRevision (app_Status app)"

definition defaultRollbackTarget :: "application \<Rightarrow> revision list \<Rightarrow> cli_error + string" where
  "defaultRollbackTarget app revs =
     (case foldl (\<lambda>newest r.
             if \<not> rollback_candidate app r then newest
             else case newest of
                    None \<Rightarrow> Some r
                  | Some n \<Rightarrow> if cli_newer r n then Some r else Some n) None revs of
        None \<Rightarrow> Inl (NoRollbackTarget (app_Name app))
      | Some r \<Rightarrow> Inr (rev_Name r))"

subsection \<open>Choosing the best element of a list\<close>

definition pick_best :: "('a \<Rightarrow> 'a \<Rightarrow> bool) \<Rightarrow> 'a list \<Rightarrow> 'a option" where
  "pick_best better xs = foldl (\<lambda>best x. case best of
       None \<Rightarrow> Some x
     | Some b \<Rightarrow> if better x b then Some x else Some b) None xs"

lemma pick_best_simps [simp]:
  "pick_best better [] = None" "pick_best better [x] = Some x"
  "pick_best better (xs @ [x]) = (case pick_best better xs of
     None \<Rightarrow> Some x | Some b \<Rightarrow> if better x b then Some x else Some b)"
  by (simp_all add: pick_best_def)

lemma pick_best_None [simp]: "pick_best better xs = None \<longleftrightarrow> xs = []"
  by (induction xs rule: rev_induct) (auto split: option.splits)

text \<open>A loop that skips elements chooses among the others.\<close>

lemma pick_best_filter:
  assumes "\<And>best x. f best x = (if P x then (case best of
       None \<Rightarrow> Some x | Some b \<Rightarrow> if better x b then Some x else Some b) else best)"
  shows "foldl f None xs = pick_best better (filter P xs)"
  by (induction xs rule: rev_induct) (simp_all add: assms)

definition best_of :: "('a \<Rightarrow> 'k :: linorder) \<Rightarrow> ('a \<Rightarrow> bool) \<Rightarrow> 'a set \<Rightarrow> 'a \<Rightarrow> bool" where
  "best_of key P R r \<longleftrightarrow> r \<in> R \<and> P r \<and> (\<forall>x\<in>R. P x \<longrightarrow> key x \<le> key r)"

locale choice =
  fixes better :: "'a \<Rightarrow> 'a \<Rightarrow> bool"
    and key :: "'a \<Rightarrow> 'k :: linorder"
  assumes by_key: "key x \<noteq> key y \<Longrightarrow> better x y \<longleftrightarrow> key y < key x"
begin

lemma pick_best_max:
  "pick_best better xs = Some b \<Longrightarrow> b \<in> set xs \<and> list_all (\<lambda>x. key x \<le> key b) xs"
proof (induction xs arbitrary: b rule: rev_induct)
  case Nil
  then show ?case by simp
next
  case (snoc x xs)
  show ?case
  proof (cases "pick_best better xs")
    case None
    then show ?thesis using snoc.prems by simp
  next
    case (Some c)
    then have c: "c \<in> set xs" "list_all (\<lambda>x. key x \<le> key c) xs" using snoc.IH by auto
    show ?thesis
    proof (cases "better x c")
      case True
      then have "key c \<le> key x" using by_key [of x c] by force
      then show ?thesis using snoc.prems Some True c by (auto simp: list_all_iff)
    next
      case False
      then have "key x \<le> key c" using by_key [of x c] by force
      then show ?thesis using snoc.prems Some False c by simp
    qed
  qed
qed

lemma pick_best_eqI:
  assumes "inj_on key (set xs)" "b \<in> set xs" "list_all (\<lambda>x. key x \<le> key b) xs"
  shows "pick_best better xs = Some b"
proof (cases "pick_best better xs")
  case None
  then show ?thesis using assms(2) by simp
next
  case (Some c)
  then have c: "c \<in> set xs" "key b \<le> key c" using pick_best_max [OF Some] assms(2) by (auto simp: list_all_iff)
  then have "key c = key b" using assms(3) by (simp add: list_all_iff order_antisym)
  then show ?thesis using Some inj_onD [OF assms(1)] c(1) assms(2) by simp
qed

text \<open>The loop returns the best element of the list as a set, whatever its order.\<close>

lemma pick_best_iff:
  assumes "inj_on key (set (filter P xs))"
  shows "pick_best better (filter P xs) = Some r \<longleftrightarrow> best_of key P (set xs) r"
proof
  assume "pick_best better (filter P xs) = Some r"
  then show "best_of key P (set xs) r" by (drule_tac pick_best_max) (simp add: best_of_def list_all_iff)
next
  assume "best_of key P (set xs) r"
  then show "pick_best better (filter P xs) = Some r"
    by (intro pick_best_eqI [OF assms]) (simp_all add: best_of_def list_all_iff)
qed

end

text \<open>The orders of the loops: by creation and name; the Revisions no rollback holds first; the chosen
  Revision first.\<close>

definition newer_key :: "revision \<Rightarrow> time \<times> string" where
  "newer_key r = (rev_Created r, rev_Name r)"

definition unheld_key :: "lib \<Rightarrow> revision \<Rightarrow> bool \<times> time \<times> string" where
  "unheld_key L r = (\<not> rolledBack L r, newer_key r)"

definition chosen_key :: "string \<Rightarrow> revision \<Rightarrow> bool \<times> time \<times> string" where
  "chosen_key chosen r =
     (rev_Name r = chosen, if rev_Name r = chosen then 0 else rev_Created r, rev_Name r)"

definition better_unheld :: "lib \<Rightarrow> revision \<Rightarrow> revision \<Rightarrow> bool" where
  "better_unheld L r b = (if rolledBack L b \<noteq> rolledBack L r then rolledBack L b else cli_newer r b)"

definition better_chosen :: "string \<Rightarrow> revision \<Rightarrow> revision \<Rightarrow> bool" where
  "better_chosen chosen r a \<longleftrightarrow> rev_Name r = chosen \<or> (rev_Name a \<noteq> chosen \<and> cli_newer r a)"

lemmas key_defs = newer_key_def unheld_key_def chosen_key_def cli_newer_def better_unheld_def better_chosen_def

interpretation newest: choice cli_newer newer_key
  by unfold_locales (auto simp: key_defs less_prod_def)

interpretation unheld: choice "better_unheld L" "unheld_key L" for L
  by unfold_locales (auto simp: key_defs less_prod_def)

interpretation chosen: choice "better_chosen n" "chosen_key n" for n
  by unfold_locales (auto simp: key_defs less_prod_def)

text \<open>Distinct names make every order injective.\<close>

lemma keys_inj:
  assumes "distinct (map rev_Name revs)"
  shows "inj_on newer_key (set (filter P revs))" "inj_on (unheld_key L) (set (filter P revs))"
    "inj_on (chosen_key n) (set (filter P revs))"
  using assms by (auto simp: key_defs distinct_map inj_on_def)

subsection \<open>The loops as choices\<close>

lemma newest_loop_pick: "newest_loop revs = pick_best cli_newer revs"
  by (simp add: newest_loop_def pick_best_def)

definition of_commit :: "string \<Rightarrow> revision \<Rightarrow> bool" where
  "of_commit commit r \<longleftrightarrow> commit \<noteq> [] \<and> rev_SourceRevision r = commit"

definition awaits :: "string \<Rightarrow> revision \<Rightarrow> bool" where
  "awaits commit r \<longleftrightarrow> rev_SourceRevision r = commit \<and> rstatus_Phase (rev_Status r) = RevisionPhaseAwaitingApproval"

lemma revisionOf_pick: "revisionOf L revs commit = pick_best (better_unheld L) (filter (of_commit commit) revs)"
  unfolding revisionOf_def
  by (rule pick_best_filter) (auto simp: of_commit_def better_unheld_def split: option.splits)

lemma defaultRollbackTarget_pick:
  "defaultRollbackTarget app revs = (case pick_best cli_newer (filter (rollback_candidate app) revs) of
     None \<Rightarrow> Inl (NoRollbackTarget (app_Name app)) | Some r \<Rightarrow> Inr (rev_Name r))"
proof -
  have "foldl (\<lambda>newest r. if \<not> rollback_candidate app r then newest
      else case newest of None \<Rightarrow> Some r | Some n \<Rightarrow> if cli_newer r n then Some r else Some n) None revs
    = pick_best cli_newer (filter (rollback_candidate app) revs)"
    by (rule pick_best_filter) simp
  then show ?thesis by (simp add: defaultRollbackTarget_def)
qed

lemma rollbackTargetOf_loop:
  "foldl (\<lambda>(awaiting, named) r.
     if rev_SourceRevision r \<noteq> commit then (awaiting, named)
     else
       (if rstatus_Phase (rev_Status r) = RevisionPhaseAwaitingApproval \<and>
           (case awaiting of
              None \<Rightarrow> True
            | Some a \<Rightarrow> rev_Name r = n \<or> (rev_Name a \<noteq> n \<and> cli_newer r a))
        then Some r else awaiting,
        if rev_Name r = n then Some r else named)) (None, None) revs
   = (pick_best (better_chosen n) (filter (awaits commit) revs),
      pick_best (\<lambda>_ _. True) (filter (\<lambda>r. rev_SourceRevision r = commit \<and> rev_Name r = n) revs))"
  by (induction revs rule: rev_induct) (auto simp: awaits_def better_chosen_def split: option.splits)

lemma rollbackTargetOf_pick:
  "rollbackTargetOf revs commit n =
     (case pick_best (better_chosen n) (filter (awaits commit) revs) of
        Some r \<Rightarrow> Some r
      | None \<Rightarrow> pick_best (\<lambda>_ _. True) (filter (\<lambda>r. rev_SourceRevision r = commit \<and> rev_Name r = n) revs))"
  by (simp add: rollbackTargetOf_def rollbackTargetOf_loop split: option.splits)

subsection \<open>What the choice promises\<close>

text \<open>The specification, over the set of the Application's Revisions: a pending rollback wants its Revision
  that awaits approval, the chosen one before the newest, or else the chosen Revision; otherwise the wanted
  commit is the rollback's, the deployed one while rollbacks hold every Revision of the desired one, or the
  desired one, and of its Revisions the newest not held; without any, the newest Revision.\<close>

definition commit_spec :: "lib \<Rightarrow> application \<Rightarrow> revision set \<Rightarrow> string" where
  "commit_spec L app R =
     (if TrimSpace (get_str (app_Annotations app) RollbackRevisionAnnotation) \<noteq> []
      then TrimSpace (get_str (app_Annotations app) RollbackRevisionAnnotation)
      else if (\<exists>x\<in>R. of_commit (astatus_DesiredRevision (app_Status app)) x) \<and>
              (\<forall>x\<in>R. of_commit (astatus_DesiredRevision (app_Status app)) x \<longrightarrow> rolledBack L x) \<and>
              astatus_DeployedRevision (app_Status app) \<noteq> []
      then astatus_DeployedRevision (app_Status app)
      else astatus_DesiredRevision (app_Status app))"

definition wanted_spec :: "lib \<Rightarrow> application \<Rightarrow> revision set \<Rightarrow> revision \<Rightarrow> bool" where
  "wanted_spec L app R r =
     (let pending = TrimSpace (get_str (app_Annotations app) RollbackRevisionAnnotation);
          target = get_str (app_Annotations app) RollbackTargetRevisionAnnotation
      in if pending \<noteq> [] \<and> (\<exists>x\<in>R. awaits pending x) then best_of (chosen_key target) (awaits pending) R r
         else if pending \<noteq> [] \<and> (\<exists>x\<in>R. rev_SourceRevision x = pending \<and> rev_Name x = target)
         then r \<in> R \<and> rev_SourceRevision r = pending \<and> rev_Name r = target
         else if \<exists>x\<in>R. of_commit (commit_spec L app R) x
         then best_of (unheld_key L) (of_commit (commit_spec L app R)) R r
         else best_of newer_key (\<lambda>x. True) R r)"

lemma pick_best_ex: "(\<exists>r. pick_best better (filter P xs) = Some r) \<longleftrightarrow> (\<exists>x\<in>set xs. P x)"
  using pick_best_None [of better "filter P xs"] by (cases "pick_best better (filter P xs)") (auto simp: filter_empty_conv)

lemma pick_best_none: "pick_best better (filter P xs) = None \<longleftrightarrow> \<not> (\<exists>x\<in>set xs. P x)"
  by (simp add: filter_empty_conv)

lemma named_pick:
  assumes "distinct (map rev_Name revs)"
  shows "pick_best (\<lambda>_ _. True) (filter (\<lambda>x. rev_SourceRevision x = commit \<and> rev_Name x = n) revs) = Some r \<longleftrightarrow>
    r \<in> set revs \<and> rev_SourceRevision r = commit \<and> rev_Name r = n"
proof -
  have "choice (\<lambda>_ _. True) (\<lambda>_ :: revision. ())" by unfold_locales simp
  moreover have "inj_on (\<lambda>_. ()) (set (filter (\<lambda>x. rev_SourceRevision x = commit \<and> rev_Name x = n) revs))"
    using assms by (auto simp: inj_on_def distinct_map)
  ultimately show ?thesis using choice.pick_best_iff by (fastforce simp: best_of_def)
qed

lemma wanted_commit_spec:
  assumes "distinct (map rev_Name revs)"
  shows "wanted_commit L app revs = commit_spec L app (set revs)"
proof -
  let ?d = "astatus_DesiredRevision (app_Status app)"
  have held: "rolledBack L r \<longleftrightarrow> (\<forall>x\<in>set revs. of_commit ?d x \<longrightarrow> rolledBack L x)"
    if "revisionOf L revs ?d = Some r" for r
    using that unfolding revisionOf_pick unheld.pick_best_iff [OF keys_inj(2) [OF assms]]
    by (auto simp: best_of_def unheld_key_def less_eq_prod_def)
  show ?thesis
  proof (cases "revisionOf L revs ?d")
    case None
    then have "\<not> (\<exists>x\<in>set revs. of_commit ?d x)" by (simp add: revisionOf_pick filter_empty_conv)
    then show ?thesis using None by (simp add: wanted_commit_def commit_spec_def)
  next
    case (Some r)
    then have ex: "\<exists>x\<in>set revs. of_commit ?d x"
      by (subst pick_best_ex [of "better_unheld L", symmetric]) (simp add: revisionOf_pick)
    show ?thesis by (simp only: wanted_commit_def commit_spec_def Let_def Some option.case held [OF Some] ex simp_thms)
  qed
qed

lemma wanted_choice:
  assumes "distinct (map rev_Name revs)"
  shows "(case pending_target app revs of
      Some wanted \<Rightarrow> Some wanted
    | None \<Rightarrow> (case revisionOf L revs (wanted_commit L app revs) of
                Some wanted \<Rightarrow> Some wanted | None \<Rightarrow> newest_loop revs)) = Some r
    \<longleftrightarrow> wanted_spec L app (set revs) r"
proof -
  let ?p = "TrimSpace (get_str (app_Annotations app) RollbackRevisionAnnotation)"
  let ?t = "get_str (app_Annotations app) RollbackTargetRevisionAnnotation"
  have newest: "newest_loop revs = Some r \<longleftrightarrow> best_of newer_key (\<lambda>x. True) (set revs) r"
    using newest.pick_best_iff [OF keys_inj(1) [OF assms], of "\<lambda>x. True"] by (simp add: newest_loop_pick)
  have rest: "(case revisionOf L revs (wanted_commit L app revs) of
        Some wanted \<Rightarrow> Some wanted | None \<Rightarrow> newest_loop revs) = Some r
      \<longleftrightarrow> (if \<exists>x\<in>set revs. of_commit (commit_spec L app (set revs)) x
          then best_of (unheld_key L) (of_commit (commit_spec L app (set revs))) (set revs) r
          else best_of newer_key (\<lambda>x. True) (set revs) r)"
    unfolding wanted_commit_spec [OF assms] revisionOf_pick
    using unheld.pick_best_iff [OF keys_inj(2) [OF assms], of L "of_commit (commit_spec L app (set revs))" r]
      pick_best_ex [of "better_unheld L" "of_commit (commit_spec L app (set revs))" revs]
      pick_best_none [of "better_unheld L" "of_commit (commit_spec L app (set revs))" revs] newest
    by (auto split: option.splits)
  have target: "rollbackTargetOf revs ?p ?t = Some w \<longleftrightarrow>
      (if \<exists>x\<in>set revs. awaits ?p x then best_of (chosen_key ?t) (awaits ?p) (set revs) w
       else w \<in> set revs \<and> rev_SourceRevision w = ?p \<and> rev_Name w = ?t)" for w
    unfolding rollbackTargetOf_pick
    using chosen.pick_best_iff [OF keys_inj(3) [OF assms], of ?t "awaits ?p" w]
      pick_best_ex [of "better_chosen ?t" "awaits ?p" revs] pick_best_none [of "better_chosen ?t" "awaits ?p" revs]
      named_pick [OF assms, of ?p ?t w]
    by (auto split: option.splits)
  have some: "rollbackTargetOf revs ?p ?t = None \<longleftrightarrow> \<not> (\<exists>x\<in>set revs. awaits ?p x) \<and>
      \<not> (\<exists>x\<in>set revs. rev_SourceRevision x = ?p \<and> rev_Name x = ?t)"
    unfolding rollbackTargetOf_pick by (auto simp: filter_empty_conv split: option.splits)
  show ?thesis
  proof (cases "?p \<noteq> [] \<and> rollbackTargetOf revs ?p ?t \<noteq> None")
    case True
    then obtain w where w: "rollbackTargetOf revs ?p ?t = Some w" by blast
    then show ?thesis using True target [of r] some by (auto simp: pending_target_def wanted_spec_def Let_def)
  next
    case False
    then have none: "pending_target app revs = None" by (auto simp: pending_target_def Let_def)
    have "\<not> (?p \<noteq> [] \<and> (\<exists>x\<in>set revs. awaits ?p x))"
      "\<not> (?p \<noteq> [] \<and> (\<exists>x\<in>set revs. rev_SourceRevision x = ?p \<and> rev_Name x = ?t))"
      using False some by blast+
    then show ?thesis using rest by (simp only: none option.case wanted_spec_def Let_def if_False)
  qed
qed

lemma cli_applicationRevisions_set:
  assumes "cc_Revisions c ns name = Inr items" "distinct (map rev_Name items)"
  obtains revs where "cli_applicationRevisions c name ns = Inr revs" "distinct (map rev_Name revs)"
    "set revs = {x \<in> set items. rev_ApplicationRef x = name}"
  using assms by (auto simp: cli_applicationRevisions_def distinct_map_filter)

lemma wantedRevision_list:
  assumes "cc_Application c ns name = Inr app" "cli_applicationRevisions c name ns = Inr revs"
  shows "wantedRevision L c name ns = Inr r \<longleftrightarrow>
    (case pending_target app revs of
      Some wanted \<Rightarrow> Some wanted
    | None \<Rightarrow> (case revisionOf L revs (wanted_commit L app revs) of
                Some wanted \<Rightarrow> Some wanted | None \<Rightarrow> newest_loop revs)) = Some r"
  using assms by (auto simp: wantedRevision_def newestRevision_def split: option.splits)

subsection \<open>Properties\<close>

text \<open>C38. The Revision a plan is shown for is the one the Application wants deployed: with the Application and
  its labelled Revisions read, the command finds a Revision exactly when the Application has one, and it is the
  specified one: the pending rollback's that awaits approval, the rollback's chosen one, the newest Revision no
  rollback holds of the wanted commit, or the newest of all. The order of the listing does not
  matter.\<close>

theorem wantedRevision_refines:
  assumes "cc_Application c ns name = Inr app" "cc_Revisions c ns name = Inr items"
    and "distinct (map rev_Name items)"
  shows "(wantedRevision L c name ns = Inr r \<longleftrightarrow>
      {x \<in> set items. rev_ApplicationRef x = name} \<noteq> {} \<and>
      wanted_spec L app {x \<in> set items. rev_ApplicationRef x = name} r) \<and>
    ((\<exists>r. wantedRevision L c name ns = Inr r) \<longleftrightarrow> {x \<in> set items. rev_ApplicationRef x = name} \<noteq> {})"
proof -
  obtain revs where revs: "cli_applicationRevisions c name ns = Inr revs" "distinct (map rev_Name revs)"
    "set revs = {x \<in> set items. rev_ApplicationRef x = name}"
    using cli_applicationRevisions_set [OF assms(2,3)] .
  have iff: "wantedRevision L c name ns = Inr r \<longleftrightarrow> wanted_spec L app (set revs) r" for r
    unfolding wantedRevision_list [OF assms(1) revs(1)] by (rule wanted_choice [OF revs(2)])
  have "set revs \<noteq> {}" if "wanted_spec L app (set revs) r" for r
    using that by (auto simp: wanted_spec_def best_of_def Let_def split: if_splits)
  moreover have "\<exists>r. wantedRevision L c name ns = Inr r" if "set revs \<noteq> {}"
  proof -
    have "\<exists>r. pick_best cli_newer revs = Some r" using that pick_best_None [of cli_newer revs] by (auto simp del: pick_best_None)
    then show ?thesis
      by (auto simp: wantedRevision_list [OF assms(1) revs(1)] newest_loop_pick split: option.splits)
  qed
  ultimately show ?thesis using iff by (auto simp: revs(3) [symmetric])
qed

subsection \<open>Witnesses\<close>

text \<open>An Application that a rollback returned from commit c2 to c1: c2 is still desired, its Revision is
  held, and c1 is deployed.\<close>

definition shop_of :: "string \<Rightarrow> string \<Rightarrow> time \<Rightarrow> condition list \<Rightarrow> revision" where
  "shop_of n commit t conds = zero_revision\<lparr>rev_Meta := zero_meta\<lparr>om_Name := n, om_Namespace := ''web'', om_CreationTimestamp := t\<rparr>,
     rev_Spec := (rev_Spec zero_revision)\<lparr>rspec_ApplicationRef := ''shop'',
       rspec_Source := (rspec_Source (rev_Spec zero_revision))\<lparr>rsrc_Revision := commit\<rparr>\<rparr>,
     rev_Status := (rev_Status zero_revision)\<lparr>rstatus_Conditions := conds\<rparr>\<rparr>"

definition held_condition :: condition where
  "held_condition = \<lparr>cond_Type = RolledBackCondition, cond_Status = ConditionTrue,
     cond_Reason = manualRollbackReason, cond_Message = [], cond_ObservedGeneration = 0\<rparr>"

definition shop_listing :: "revision list" where
  "shop_listing = [shop_of ''shop-2'' ''c2'' 7 [held_condition], shop_of ''shop-1'' ''c1'' 5 []]"

definition rolled_back_shop :: application where
  "rolled_back_shop = upd_status (\<lambda>s. s\<lparr>astatus_DesiredRevision := ''c2'', astatus_DeployedRevision := ''c1''\<rparr>)
     (named_application ''web'' ''shop'')"

definition shop_client :: "revision list \<Rightarrow> application \<Rightarrow> cli_client" where
  "shop_client revs app = \<lparr>cc_Applications = (\<lambda>ns. Inr [app]), cc_Application = (\<lambda>ns n. Inr app),
     cc_Repositories = (\<lambda>ns. Inr []), cc_Repository = (\<lambda>ns n. Inl (NotFound [])),
     cc_Revision = (\<lambda>ns n. case find (\<lambda>r. rev_Name r = n) revs of Some r \<Rightarrow> Inr r | None \<Rightarrow> Inl (NotFound [])),
     cc_Revisions = (\<lambda>ns n. Inr revs), cc_Patch = (\<lambda>a m. Inr a), cc_Update = (\<lambda>a. Inr a)\<rparr>"

theorem wantedRevision_refines_witness:
  "distinct (map rev_Name shop_listing) \<and>
   wantedRevision std_lib (shop_client shop_listing rolled_back_shop) ''shop'' ''web'' = Inr (shop_of ''shop-1'' ''c1'' 5 [])"
proof
  show d: "distinct (map rev_Name shop_listing)" by (simp add: shop_listing_def shop_of_def)
  have set: "{x \<in> set shop_listing. rev_ApplicationRef x = ''shop''} =
      {shop_of ''shop-2'' ''c2'' 7 [held_condition], shop_of ''shop-1'' ''c1'' 5 []}"
    by (auto simp: shop_listing_def shop_of_def)
  have held: "rolledBack std_lib (shop_of ''shop-2'' ''c2'' 7 [held_condition])"
    "\<not> rolledBack std_lib (shop_of ''shop-1'' ''c1'' 5 [])"
    by (simp_all add: rolledBack_def shop_of_def held_condition_def std_lib_def zero_values)
  have commits: "rev_SourceRevision (shop_of n k t cs) = k" for n k t cs by (simp add: shop_of_def)
  have none: "TrimSpace (get_str (app_Annotations rolled_back_shop) RollbackRevisionAnnotation) = []"
    by (simp add: rolled_back_shop_def get_str_def zero_values TrimSpace_def)
  have "astatus_DesiredRevision (app_Status rolled_back_shop) = ''c2''"
    "astatus_DeployedRevision (app_Status rolled_back_shop) = ''c1''"
    by (simp_all add: rolled_back_shop_def)
  then have "commit_spec std_lib rolled_back_shop {shop_of ''shop-2'' ''c2'' 7 [held_condition], shop_of ''shop-1'' ''c1'' 5 []} = ''c1''"
    by (simp add: commit_spec_def none of_commit_def commits held)
  then have "wanted_spec std_lib rolled_back_shop {x \<in> set shop_listing. rev_ApplicationRef x = ''shop''} (shop_of ''shop-1'' ''c1'' 5 [])"
    unfolding set by (simp add: wanted_spec_def none of_commit_def best_of_def commits)
  then show "wantedRevision std_lib (shop_client shop_listing rolled_back_shop) ''shop'' ''web'' = Inr (shop_of ''shop-1'' ''c1'' 5 [])"
    using wantedRevision_refines [of "shop_client shop_listing rolled_back_shop" "''web''" "''shop''" rolled_back_shop
        shop_listing std_lib "shop_of ''shop-1'' ''c1'' 5 []"] d set
    by (auto simp: shop_client_def)
qed

end
