(* ===== verification/Cli_Graph.thy ===== *)
theory Cli_Graph
  imports Console_Api
begin

text \<open>
  What \<open>ksync graph\<close> and \<open>ksync diagnose\<close> print (\<open>internal/cli/graph.go\<close>). The text tree of a resource graph
  is a depth-first walk that expands every object once; its lines are a record of what they show, so that
  the text is their concatenation. The walk has a bound on its nesting, the number of edges of the
  graph, which is always enough (\<open>walk_returns\<close>). Box-drawing characters are in UTF-8.
\<close>

subsection \<open>Texts\<close>

definition refText :: "resource_ref \<Rightarrow> string" where
  "refText r =
     (if ref_Namespace r = [] then resource_ref.ref_Kind r @ ''/'' @ resource_ref.ref_Name r
      else resource_ref.ref_Kind r @ ''/'' @ ref_Namespace r @ ''/'' @ resource_ref.ref_Name r)"

definition idText :: "resource_id \<Rightarrow> string" where
  "idText i = refText \<lparr>ref_APIVersion = [], ref_Kind = ID_Kind i, ref_Namespace = ID_Namespace i, ref_Name = ID_Name i\<rparr>"

definition cli_orUnknown :: "string \<Rightarrow> string" where
  "cli_orUnknown v = (if v = [] then ''Unknown'' else v)"

definition plural :: "nat \<Rightarrow> string \<Rightarrow> string" where
  "plural n noun = (if n = 1 then ''1 '' @ noun else itoa (int n) @ '' '' @ noun @ ''s'')"

definition markText :: "string list \<Rightarrow> string" where
  "markText marks = (if marks = [] then [] else ''  ('' @ Join '', '' marks @ '')'')"

definition nodeMarks :: "node option \<Rightarrow> string list" where
  "nodeMarks n = (case n of
       None \<Rightarrow> []
     | Some n \<Rightarrow> if nd_Missing n then [''missing''] else if nd_Unreadable n then [''unreadable''] else [])"

definition newline :: string where
  "newline = [CHR 0x0A]"

definition tee :: string where
  "tee = [CHR 0xE2, CHR 0x94, CHR 0x9C, CHR 0xE2, CHR 0x94, CHR 0x80, CHR '' '']"

definition bar :: string where
  "bar = [CHR 0xE2, CHR 0x94, CHR 0x82] @ ''  ''"

definition corner :: string where
  "corner = [CHR 0xE2, CHR 0x94, CHR 0x94, CHR 0xE2, CHR 0x94, CHR 0x80, CHR '' '']"

subsection \<open>The tree\<close>

record tree_line =
  tl_prefix :: string
  tl_edge :: edge
  tl_marks :: "string list"

definition line_text :: "tree_line \<Rightarrow> string" where
  "line_text l = tl_prefix l @ edge_type_string (ed_Type (tl_edge l)) @ '' '' @ idText (ed_To (tl_edge l))
     @ markText (tl_marks l) @ newline"

definition edge_marks :: "graph \<Rightarrow> string set \<Rightarrow> string set \<Rightarrow> edge \<Rightarrow> string list" where
  "edge_marks g isRoot shown e =
     nodeMarks (graph_Node g (ed_To e)) @ (if ed_Optional e then [''optional''] else []) @
     (if Key (ed_To e) \<in> isRoot then [''managed'']
      else if Key (ed_To e) \<in> shown \<and> length (Out g (ed_To e)) > 0 then [''shown above''] else [])"

text \<open>\<open>walk\<close> over the edges still to print; the state is what was printed and the set of expanded keys.\<close>

fun walk_tree :: "nat \<Rightarrow> graph \<Rightarrow> string set \<Rightarrow> string \<Rightarrow> edge list \<Rightarrow> tree_line list \<times> string set
    \<Rightarrow> (tree_line list \<times> string set) option" where
  "walk_tree depth g isRoot pre [] st = Some st"
| "walk_tree depth g isRoot pre (e # es) (out, shown) =
     (let branch = (if es = [] then corner else tee);
          indent = (if es = [] then ''   '' else bar);
          key = Key (ed_To e);
          out = out @ [\<lparr>tl_prefix = pre @ branch, tl_edge = e, tl_marks = edge_marks g isRoot shown e\<rparr>]
      in if key \<in> shown then walk_tree depth g isRoot pre es (out, shown)
         else
           (case depth of
              0 \<Rightarrow> None
            | Suc d \<Rightarrow>
                (case walk_tree d g isRoot (pre @ indent) (Out g (ed_To e)) (out, insert key shown) of
                   None \<Rightarrow> None
                 | Some st \<Rightarrow> walk_tree depth g isRoot pre es st)))"

text \<open>The roots: the nodes of the graph that are managed, in the order of the graph, without repetition.\<close>

definition graph_roots :: "graph \<Rightarrow> resource_id list \<Rightarrow> resource_id list" where
  "graph_roots g managed =
     foldl (\<lambda>roots n. foldl (\<lambda>roots i.
         if Key i = Key (nd_ID n) \<and> Key i \<notin> Key ` set roots then roots @ [nd_ID n] else roots) roots managed)
       [] (g_Nodes g)"

record text_tree =
  tr_trees :: "(resource_id \<times> string list \<times> tree_line list) list"
  tr_shown :: "string set"

definition walk_root :: "graph \<Rightarrow> string set \<Rightarrow> text_tree option \<Rightarrow> resource_id \<Rightarrow> text_tree option" where
  "walk_root g isRoot t rt = (case t of
       None \<Rightarrow> None
     | Some t \<Rightarrow>
         (case walk_tree (length (g_Edges g)) g isRoot [] (Out g rt) ([], tr_shown t) of
            None \<Rightarrow> None
          | Some (ls, shown) \<Rightarrow>
              Some \<lparr>tr_trees = tr_trees t @ [(rt, nodeMarks (graph_Node g rt), ls)], tr_shown = shown\<rparr>))"

definition graph_tree :: "graph \<Rightarrow> resource_id list \<Rightarrow> text_tree option" where
  "graph_tree g roots =
     foldl (walk_root g (Key ` set roots)) (Some \<lparr>tr_trees = [], tr_shown = Key ` set roots\<rparr>) roots"

definition unlinked :: "graph \<Rightarrow> string set \<Rightarrow> node list" where
  "unlinked g shown = filter (\<lambda>n. Key (nd_ID n) \<notin> shown) (g_Nodes g)"

definition writeHeader :: "graph \<Rightarrow> resource_id list \<Rightarrow> string \<Rightarrow> string" where
  "writeHeader g roots app =
     (let missing = length (filter nd_Missing (g_Nodes g));
          unreadable = length (filter nd_Unreadable (g_Nodes g))
      in app @ '': '' @ plural (length roots) ''managed resource'' @ '', '' @ plural (length (g_Nodes g)) ''object''
         @ (if missing > 0 then '', '' @ itoa (int missing) @ '' missing'' else [])
         @ (if unreadable > 0 then '', '' @ itoa (int unreadable) @ '' unreadable'' else []) @ newline)"

definition writeUnlinked :: "graph \<Rightarrow> string set \<Rightarrow> string" where
  "writeUnlinked g shown =
     (if unlinked g shown = [] then []
      else newline @ ''Not linked to a managed resource:'' @ newline @
        concat (map (\<lambda>n. idText (nd_ID n) @ markText (nodeMarks (Some n)) @ newline) (unlinked g shown)))"

definition writeUnread :: "string list \<Rightarrow> string" where
  "writeUnread unread =
     (if unread = [] then []
      else newline @ ''Could not read:'' @ newline @
        concat (map (\<lambda>f. redact_String (ReplaceAll f newline '' '') @ newline) unread))"

definition tree_text :: "text_tree \<Rightarrow> string" where
  "tree_text t = concat (map (\<lambda>(rt, marks, ls).
     idText rt @ markText marks @ newline @ concat (map line_text ls)) (tr_trees t))"

definition RenderGraph :: "string \<Rightarrow> graph \<Rightarrow> resource_id list \<Rightarrow> string option" where
  "RenderGraph app g managed =
     (let roots = graph_roots g managed in
      if roots = [] then Some (app @ '': no managed resources found'' @ newline @ writeUnread (g_Unread g))
      else case graph_tree g roots of
             None \<Rightarrow> None
           | Some t \<Rightarrow> Some (writeHeader g roots app @ tree_text t @ writeUnlinked g (tr_shown t) @ writeUnread (g_Unread g)))"

subsection \<open>Diagnoses\<close>

definition chain_text :: "nat \<Rightarrow> resource_ref \<Rightarrow> string" where
  "chain_text depth r =
     (if depth = 0 then ''   '' @ refText r @ newline
      else ''   '' @ concat (replicate (depth - 1) ''   '') @ corner @ refText r @ newline)"

definition cause_text :: "nat \<Rightarrow> diagnosis_cause \<Rightarrow> string" where
  "cause_text i cause =
     newline @ itoa (int i + 1) @ ''. '' @ dc_Reason cause @ ''  '' @ refText (dc_Resource cause) @ newline
     @ (if dc_Message cause \<noteq> [] then ''   '' @ redact_String (dc_Message cause) @ newline else [])
     @ concat (map (\<lambda>(depth, r). chain_text depth r) (enumerate 0 (dc_Chain cause)))"

definition RenderDiagnosis :: "lib \<Rightarrow> application \<Rightarrow> revision_failure option \<Rightarrow> string" where
  "RenderDiagnosis L app failed =
     (let ready = FindStatusCondition L (astatus_Conditions (app_Status app)) ''Ready'';
          notReady = (case ready of None \<Rightarrow> False | Some c \<Rightarrow> cond_Status c = ConditionFalse);
          repeatsFailure = (case (ready, failed) of
              (Some c, Some f) \<Rightarrow> notReady \<and> cond_Reason c = fail_Reason f \<and> cond_Message c = fail_Message f
            | _ \<Rightarrow> False);
          causes = astatus_Diagnosis (app_Status app)
      in app_Name app @ '': health '' @ cli_orUnknown (health_state_string (astatus_Health (app_Status app)))
         @ '', sync '' @ cli_orUnknown (sync_state_string (astatus_Sync (app_Status app))) @ newline
         @ (case ready of
              Some c \<Rightarrow> if notReady \<and> \<not> repeatsFailure
                then ''Ready: False: '' @ cond_Reason c @ '': '' @ redact_String (cond_Message c) @ newline else []
            | None \<Rightarrow> [])
         @ (case failed of
              Some f \<Rightarrow> ''Failure: '' @ fail_Reason f @ '': '' @ redact_String (fail_Message f) @ newline
            | None \<Rightarrow> [])
         @ (if causes = [] then
              (if failed = None \<and> \<not> notReady then ''No failure or unhealthy resource recorded'' @ newline else [])
            else ''Causes ('' @ itoa (int (length causes)) @ ''):'' @ newline
              @ concat (map (\<lambda>(i, cause). cause_text i cause) (enumerate 0 causes))))"

subsection \<open>The walk\<close>

definition out_indexed :: "graph \<Rightarrow> bool" where
  "out_indexed g \<longleftrightarrow> (\<forall>k. g_out g k = filter (\<lambda>e. Key (ed_From e) = k) (g_Edges g))"

lemma indexed_Out: "out_indexed g \<Longrightarrow> Out g i = filter (\<lambda>e. Key (ed_From e) = Key i) (g_Edges g)"
  by (simp add: out_indexed_def Out_def)

lemma Collect_indexed: "out_indexed (fst (Collect L S R ns managed))"
  by (simp add: out_indexed_def Collect_def Let_def Graph_Build_inferred g_out_filter split_beta)

definition from_keys :: "graph \<Rightarrow> string set \<Rightarrow> edge list" where
  "from_keys g K = filter (\<lambda>e. Key (ed_From e) \<in> K) (g_Edges g)"

lemma from_keys_Out: "out_indexed g \<Longrightarrow> Out g i = from_keys g {Key i}"
  by (simp add: indexed_Out from_keys_def)

lemma from_keys_union:
  "K \<inter> K' = {} \<Longrightarrow> mset (from_keys g (K \<union> K')) = mset (from_keys g K) + mset (from_keys g K')"
proof -
  assume disj: "K \<inter> K' = {}"
  have "mset (filter (\<lambda>e. Key (ed_From e) \<in> K \<union> K') es) =
      mset (filter (\<lambda>e. Key (ed_From e) \<in> K) es) + mset (filter (\<lambda>e. Key (ed_From e) \<in> K') es)" for es
    using disj by (induction es) auto
  then show ?thesis by (simp add: from_keys_def)
qed

text \<open>What a walk adds: the edges it was given, and every edge out of an object it expanded, each once; it
  expands the targets of exactly those edges.\<close>

definition targets :: "tree_line list \<Rightarrow> string set" where
  "targets ls = (\<lambda>l. Key (ed_To (tl_edge l))) ` set ls"

lemma targets_simps [simp]:
  "targets [] = {}" "targets (l # ls) = insert (Key (ed_To (tl_edge l))) (targets ls)"
  "targets (ls @ ms) = targets ls \<union> targets ms"
  by (auto simp: targets_def)

definition walked :: "graph \<Rightarrow> edge list \<Rightarrow> string set \<Rightarrow> tree_line list \<Rightarrow> string set \<Rightarrow> bool" where
  "walked g es S ls S' \<longleftrightarrow> S \<subseteq> S' \<and> targets ls \<subseteq> S' \<and> S' \<subseteq> S \<union> targets ls \<and>
     mset (map tl_edge ls) = mset es + mset (from_keys g (S' - S))"

lemma walked_Nil: "walked g [] S [] S"
  by (simp add: walked_def from_keys_def)

lemma walked_shown:
  assumes "walked g es S ls S'" "Key (ed_To (tl_edge l)) \<in> S"
  shows "walked g (tl_edge l # es) S (l # ls) S'"
  using assms by (auto simp: walked_def)

lemma walked_expand:
  assumes "out_indexed g" "k = Key (ed_To (tl_edge l))" "k \<notin> S"
    and "walked g (Out g (ed_To (tl_edge l))) (insert k S) ls S1" "walked g es S1 ms S2"
  shows "walked g (tl_edge l # es) S (l # ls @ ms) S2"
proof -
  have sub: "insert k S \<subseteq> S1" "S1 \<subseteq> S2" using assms(4,5) by (auto simp: walked_def)
  have "S2 - S = ({k} \<union> (S1 - insert k S)) \<union> (S2 - S1)" using sub assms(3) by auto
  then have "mset (from_keys g (S2 - S)) =
      mset (from_keys g {k}) + mset (from_keys g (S1 - insert k S)) + mset (from_keys g (S2 - S1))"
    using sub by (simp only:) (subst from_keys_union, force, subst from_keys_union, auto)
  moreover have "mset (Out g (ed_To (tl_edge l))) = mset (from_keys g {k})"
    by (simp add: from_keys_Out [OF assms(1)] assms(2))
  ultimately show ?thesis using assms(2,4,5) sub by (auto simp: walked_def)
qed

lemma walk_adds:
  assumes "out_indexed g" "walk_tree depth g R pre es st = Some st'"
  shows "\<exists>ls. fst st' = fst st @ ls \<and> walked g es (snd st) ls (snd st')"
  using assms
proof (induction depth g R pre es st arbitrary: st' rule: walk_tree.induct)
  case (1 depth g R pre st)
  then show ?case by (auto intro: walked_Nil)
next
  case (2 depth g R pre e es out S)
  let ?k = "Key (ed_To e)" and ?l = "\<lparr>tl_prefix = pre @ (if es = [] then corner else tee), tl_edge = e,
    tl_marks = edge_marks g R S e\<rparr>"
  show ?case
  proof (cases "?k \<in> S")
    case True
    then have "walk_tree depth g R pre es (out @ [?l], S) = Some st'" using "2.prems"(2) by (simp add: Let_def)
    then obtain ls where "fst st' = (out @ [?l]) @ ls" "walked g es S ls (snd st')"
      using "2.IH"(1) [OF refl refl refl refl True "2.prems"(1)] by fastforce
    then show ?thesis using walked_shown [of g es S ls "snd st'" ?l] True by auto
  next
    case False
    then obtain d st1 where d: "depth = Suc d"
      and first: "walk_tree d g R (pre @ (if es = [] then ''   '' else bar)) (Out g (ed_To e)) (out @ [?l], insert ?k S) = Some st1"
      and rest: "walk_tree depth g R pre es st1 = Some st'"
      using "2.prems"(2) by (auto simp: Let_def split: nat.splits option.splits)
    obtain ls where ls: "fst st1 = (out @ [?l]) @ ls" "walked g (Out g (ed_To e)) (insert ?k S) ls (snd st1)"
      using "2.IH"(2) [OF refl refl refl refl False d "2.prems"(1) first] by auto
    obtain ms where ms: "fst st' = fst st1 @ ms" "walked g es (snd st1) ms (snd st')"
      using "2.IH"(3) [OF refl refl refl refl False d first "2.prems"(1) rest] by auto
    have "walked g (e # es) S (?l # ls @ ms) (snd st')"
      using walked_expand [OF "2.prems"(1), of ?k ?l S ls "snd st1" es ms "snd st'"] False ls(2) ms(2) by simp
    then show ?thesis using ls(1) ms(1) by auto
  qed
qed

inductive_set reached :: "graph \<Rightarrow> string set \<Rightarrow> string set" for g K where
  start: "k \<in> K \<Longrightarrow> k \<in> reached g K"
| follow: "k \<in> reached g K \<Longrightarrow> e \<in> set (g_Edges g) \<Longrightarrow> Key (ed_From e) = k \<Longrightarrow> Key (ed_To e) \<in> reached g K"

lemma walk_reached:
  assumes "out_indexed g" "walk_tree depth g R pre es st = Some st'" "(\<lambda>e. Key (ed_To e)) ` set es \<subseteq> reached g K"
    and "snd st \<subseteq> reached g K"
  shows "snd st' \<subseteq> reached g K"
  using assms
proof (induction depth g R pre es st arbitrary: st' rule: walk_tree.induct)
  case (1 depth g R pre st)
  then show ?case by simp
next
  case (2 depth g R pre e es out S)
  let ?k = "Key (ed_To e)" and ?l = "\<lparr>tl_prefix = pre @ (if es = [] then corner else tee), tl_edge = e,
    tl_marks = edge_marks g R S e\<rparr>"
  have es: "(\<lambda>e. Key (ed_To e)) ` set es \<subseteq> reached g K" and k: "?k \<in> reached g K" using "2.prems"(3) by auto
  show ?case
  proof (cases "?k \<in> S")
    case True
    then have "walk_tree depth g R pre es (out @ [?l], S) = Some st'" using "2.prems"(2) by (simp add: Let_def)
    then show ?thesis using "2.IH"(1) [OF refl refl refl refl True "2.prems"(1) _ es] "2.prems"(4) by simp
  next
    case False
    then obtain d st1 where d: "depth = Suc d"
      and first: "walk_tree d g R (pre @ (if es = [] then ''   '' else bar)) (Out g (ed_To e)) (out @ [?l], insert ?k S) = Some st1"
      and rest: "walk_tree depth g R pre es st1 = Some st'"
      using "2.prems"(2) by (auto simp: Let_def split: nat.splits option.splits)
    have "(\<lambda>e. Key (ed_To e)) ` set (Out g (ed_To e)) \<subseteq> reached g K"
      using k by (auto simp: indexed_Out [OF "2.prems"(1)] intro: reached.follow)
    then have "snd st1 \<subseteq> reached g K"
      using "2.IH"(2) [OF refl refl refl refl False d "2.prems"(1) first] k "2.prems"(4) by simp
    then show ?thesis using "2.IH"(3) [OF refl refl refl refl False d first "2.prems"(1) rest es] by simp
  qed
qed

text \<open>Every expansion adds a key of an edge's target, so the number of edges bounds the nesting.\<close>

definition target_keys :: "graph \<Rightarrow> string set" where
  "target_keys g = (\<lambda>e. Key (ed_To e)) ` set (g_Edges g)"

lemma walk_returns:
  assumes "out_indexed g" "set es \<subseteq> set (g_Edges g)" "card (target_keys g - snd st) \<le> depth"
  shows "\<exists>st'. walk_tree depth g R pre es st = Some st'"
  using assms
proof (induction depth g R pre es st rule: walk_tree.induct)
  case (1 depth g R pre st)
  then show ?case by simp
next
  case (2 depth g R pre e es out S)
  let ?k = "Key (ed_To e)" and ?l = "\<lparr>tl_prefix = pre @ (if es = [] then corner else tee), tl_edge = e,
    tl_marks = edge_marks g R S e\<rparr>"
  have fin: "finite (target_keys g)" by (simp add: target_keys_def)
  have es: "set es \<subseteq> set (g_Edges g)" using "2.prems"(2) by simp
  show ?case
  proof (cases "?k \<in> S")
    case True
    then show ?thesis using "2.IH"(1) [OF refl refl refl refl True "2.prems"(1) es] "2.prems"(3) by (simp add: Let_def)
  next
    case False
    have "?k \<in> target_keys g - S" using False "2.prems"(2) by (auto simp: target_keys_def)
    then have less: "card (target_keys g - insert ?k S) < card (target_keys g - S)"
      using fin by (intro psubset_card_mono) auto
    then obtain d where d: "depth = Suc d" using "2.prems"(3) by (cases depth) auto
    have out_es: "set (Out g (ed_To e)) \<subseteq> set (g_Edges g)" by (simp add: indexed_Out [OF "2.prems"(1)])
    obtain st1 where first:
      "walk_tree d g R (pre @ (if es = [] then ''   '' else bar)) (Out g (ed_To e)) (out @ [?l], insert ?k S) = Some st1"
      using "2.IH"(2) [OF refl refl refl refl False d "2.prems"(1) out_es] less "2.prems"(3) d by auto
    have "S \<subseteq> snd st1" using walk_adds [OF "2.prems"(1) first] by (auto simp: walked_def)
    then have "card (target_keys g - snd st1) \<le> depth"
      using card_mono [of "target_keys g - S" "target_keys g - snd st1"] fin "2.prems"(3) by force
    then obtain st2 where "walk_tree depth g R pre es st1 = Some st2"
      using "2.IH"(3) [OF refl refl refl refl False d first "2.prems"(1) es] by auto
    then show ?thesis using False d first by (simp add: Let_def)
  qed
qed

subsection \<open>The whole tree\<close>

definition tree_edges :: "text_tree \<Rightarrow> edge list" where
  "tree_edges t = concat (map (\<lambda>(rt, marks, ls). map tl_edge ls) (tr_trees t))"

definition partial_tree :: "graph \<Rightarrow> string set \<Rightarrow> resource_id list \<Rightarrow> text_tree \<Rightarrow> bool" where
  "partial_tree g K roots t \<longleftrightarrow> K \<subseteq> tr_shown t \<and> map fst (tr_trees t) = roots \<and>
     mset (tree_edges t) = mset (concat (map (Out g) roots)) + mset (from_keys g (tr_shown t - K)) \<and>
     (\<lambda>e. Key (ed_To e)) ` set (tree_edges t) \<subseteq> tr_shown t \<and> tr_shown t \<subseteq> reached g K"

lemma walk_root_adds:
  assumes "out_indexed g" "partial_tree g K roots t" "Key rt \<in> K"
  shows "\<exists>t'. walk_root g R (Some t) rt = Some t' \<and> partial_tree g K (roots @ [rt]) t'"
proof -
  have "card (target_keys g - tr_shown t) \<le> card (target_keys g)"
    by (intro card_mono) (auto simp: target_keys_def)
  also have "\<dots> \<le> length (g_Edges g)" using card_image_le [of "set (g_Edges g)"] card_length
    by (fastforce simp: target_keys_def intro: le_trans)
  finally have bound: "card (target_keys g - snd ([] :: tree_line list, tr_shown t)) \<le> length (g_Edges g)" by simp
  have "set (Out g rt) \<subseteq> set (g_Edges g)" by (simp add: indexed_Out [OF assms(1)])
  then obtain ls S where walk: "walk_tree (length (g_Edges g)) g R [] (Out g rt) ([], tr_shown t) = Some (ls, S)"
    using walk_returns [OF assms(1) _ bound, of "Out g rt" R "[]"] by auto
  then have w: "walked g (Out g rt) (tr_shown t) ls S" using walk_adds [OF assms(1) walk] by simp
  let ?t = "\<lparr>tr_trees = tr_trees t @ [(rt, nodeMarks (graph_Node g rt), ls)], tr_shown = S\<rparr>"
  have edges: "tree_edges ?t = tree_edges t @ map tl_edge ls" by (simp add: tree_edges_def)
  have tg: "(\<lambda>e. Key (ed_To e)) ` set (tree_edges ?t) = (\<lambda>e. Key (ed_To e)) ` set (tree_edges t) \<union> targets ls"
    by (auto simp: edges targets_def)
  have sub: "K \<subseteq> tr_shown t" "tr_shown t \<subseteq> S" using assms(2) w by (auto simp: partial_tree_def walked_def)
  then have "mset (from_keys g (S - K)) = mset (from_keys g (tr_shown t - K)) + mset (from_keys g (S - tr_shown t))"
    by (subst from_keys_union [symmetric]) (auto intro: arg_cong [where f = "\<lambda>K. mset (from_keys g K)"])
  moreover have "(\<lambda>e. Key (ed_To e)) ` set (Out g rt) \<subseteq> reached g K"
    using assms(3) by (auto simp: indexed_Out [OF assms(1)] intro: reached.intros)
  then have "S \<subseteq> reached g K" using walk_reached [OF assms(1) walk, of K] assms(2) by (simp add: partial_tree_def)
  moreover have "mset (map tl_edge ls) = mset (Out g rt) + mset (from_keys g (S - tr_shown t))" "targets ls \<subseteq> S"
    using w by (simp_all add: walked_def)
  ultimately have "partial_tree g K (roots @ [rt]) ?t"
    using assms(2) sub unfolding partial_tree_def tg by (simp add: edges) blast
  then show ?thesis using walk by (auto simp: walk_root_def)
qed

lemma graph_tree_returns:
  assumes "out_indexed g"
  shows "\<exists>t. graph_tree g roots = Some t \<and> partial_tree g (Key ` set roots) roots t"
proof -
  have "\<exists>t'. foldl (walk_root g R) (Some t) rs = Some t' \<and> partial_tree g K (before @ rs) t'"
    if "partial_tree g K before t" "Key ` set rs \<subseteq> K" for K R rs before t
    using that
  proof (induction rs arbitrary: before t)
    case Nil
    then show ?case by simp
  next
    case (Cons r rs)
    then obtain t' where t': "walk_root g R (Some t) r = Some t'" "partial_tree g K (before @ [r]) t'"
      using walk_root_adds [OF assms Cons.prems(1), of r R] by auto
    then show ?case using Cons.IH [OF t'(2)] Cons.prems(2) by simp
  qed
  moreover have "partial_tree g (Key ` set roots) [] \<lparr>tr_trees = [], tr_shown = Key ` set roots\<rparr>"
    by (auto simp: partial_tree_def tree_edges_def from_keys_def intro: reached.start)
  ultimately show ?thesis unfolding graph_tree_def by fastforce
qed

lemma roots_edges:
  assumes "out_indexed g" "distinct (map Key roots)"
  shows "mset (concat (map (Out g) roots)) = mset (from_keys g (Key ` set roots))"
  using assms(2)
proof (induction roots)
  case Nil
  then show ?case by (simp add: from_keys_def)
next
  case (Cons r roots)
  then have "mset (from_keys g ({Key r} \<union> Key ` set roots)) = mset (Out g r) + mset (from_keys g (Key ` set roots))"
    by (subst from_keys_union) (auto simp: from_keys_Out [OF assms(1)])
  then show ?case using Cons by simp
qed

lemma partial_tree_reached:
  assumes "out_indexed g" "distinct (map Key roots)" "partial_tree g (Key ` set roots) roots t"
  shows "tr_shown t = reached g (Key ` set roots)"
    "mset (tree_edges t) = mset (from_keys g (reached g (Key ` set roots)))"
proof -
  let ?K = "Key ` set roots"
  have t: "?K \<subseteq> tr_shown t" "mset (tree_edges t) = mset (from_keys g ?K) + mset (from_keys g (tr_shown t - ?K))"
    "(\<lambda>e. Key (ed_To e)) ` set (tree_edges t) \<subseteq> tr_shown t"
    "tr_shown t \<subseteq> reached g ?K"
    using assms(3) roots_edges [OF assms(1,2)] by (auto simp: partial_tree_def)
  have "?K \<union> (tr_shown t - ?K) = tr_shown t" using t(1) by auto
  then have edges: "mset (tree_edges t) = mset (from_keys g (tr_shown t))"
    using t(2) from_keys_union [of ?K "tr_shown t - ?K" g] by simp
  then have set: "set (tree_edges t) = {e \<in> set (g_Edges g). Key (ed_From e) \<in> tr_shown t}"
    using mset_eq_setD [OF edges] by (simp add: from_keys_def)
  have "k \<in> tr_shown t" if "k \<in> reached g ?K" for k
    using that by induction (use t(1,3) set in auto)
  then show "tr_shown t = reached g ?K" using t(4) by blast
  then show "mset (tree_edges t) = mset (from_keys g (reached g ?K))" using edges by simp
qed

text \<open>The roots: one per managed object of the graph.\<close>

lemma add_root:
  "foldl (\<lambda>roots i. if Key i = Key n \<and> Key i \<notin> Key ` set roots then roots @ [n] else roots) roots managed
   = (if Key n \<in> Key ` set managed \<and> Key n \<notin> Key ` set roots then roots @ [n] else roots)"
  by (induction managed arbitrary: roots) auto

lemma graph_roots_snoc:
  "graph_roots (g\<lparr>g_Nodes := ns @ [n]\<rparr>) managed =
     (let roots = graph_roots (g\<lparr>g_Nodes := ns\<rparr>) managed in
      if Key (nd_ID n) \<in> Key ` set managed \<and> Key (nd_ID n) \<notin> Key ` set roots then roots @ [nd_ID n] else roots)"
  by (simp add: graph_roots_def add_root Let_def)

lemma graph_roots_keys:
  "distinct (map Key (graph_roots (g\<lparr>g_Nodes := ns\<rparr>) managed)) \<and>
   Key ` set (graph_roots (g\<lparr>g_Nodes := ns\<rparr>) managed) = Key ` nd_ID ` set ns \<inter> Key ` set managed"
proof (induction ns rule: rev_induct)
  case Nil
  then show ?case by (simp add: graph_roots_def)
next
  case (snoc n ns)
  let ?roots = "graph_roots (g\<lparr>g_Nodes := ns\<rparr>) managed" and ?M = "Key ` set managed"
  have "insert (Key (nd_ID n)) (Key ` nd_ID ` set ns) \<inter> ?M =
      (if Key (nd_ID n) \<in> ?M then insert (Key (nd_ID n)) (Key ` nd_ID ` set ns \<inter> ?M) else Key ` nd_ID ` set ns \<inter> ?M)"
    by simp
  then show ?case using snoc unfolding graph_roots_snoc Let_def by (simp add: insert_absorb)
qed

lemma graph_roots_managed:
  "distinct (map Key (graph_roots g managed))"
  "Key ` set (graph_roots g managed) = Key ` nd_ID ` set (g_Nodes g) \<inter> Key ` set managed"
  using graph_roots_keys [where ns = "g_Nodes g" and g = g and managed = managed] by simp_all

subsection \<open>Properties\<close>

text \<open>C37. The tree of a collected graph is complete and finite: however the objects refer to each other, cycles
  included, the walk ends; the roots are the managed objects of the graph, one tree each; every relation that
  starts at an object a root leads to is printed exactly once, and no other; and the objects listed as not linked are
  exactly those no root leads to.\<close>

theorem RenderGraph_complete:
  "case Collect L S R ns objs of (g, _) \<Rightarrow>
     (let roots = graph_roots g managed; K = Key ` nd_ID ` set (g_Nodes g) \<inter> Key ` set managed
      in Key ` set roots = K \<and> distinct (map Key roots) \<and>
         (if roots = []
          then RenderGraph app g managed = Some (app @ '': no managed resources found'' @ newline @ writeUnread (g_Unread g))
          else \<exists>t. RenderGraph app g managed = Some (writeHeader g roots app @ tree_text t
                   @ writeUnlinked g (reached g K) @ writeUnread (g_Unread g)) \<and>
                 map fst (tr_trees t) = roots \<and>
                 mset (tree_edges t) = mset (filter (\<lambda>e. Key (ed_From e) \<in> reached g K) (g_Edges g))))"
proof -
  obtain g objs' where g: "Collect L S R ns objs = (g, objs')" by fastforce
  have "out_indexed g" using Collect_indexed [of L S R ns objs] g by simp
  let ?roots = "graph_roots g managed"
  obtain t where t: "graph_tree g ?roots = Some t" "partial_tree g (Key ` set ?roots) ?roots t"
    using graph_tree_returns [OF \<open>out_indexed g\<close>] by blast
  note shown = partial_tree_reached [OF \<open>out_indexed g\<close> graph_roots_managed(1) t(2)]
  have "map fst (tr_trees t) = ?roots" using t(2) by (simp add: partial_tree_def)
  then show ?thesis
    using t(1) shown by (auto simp: g Let_def RenderGraph_def graph_roots_managed from_keys_def)
qed

end
