(* ===== verification/Cli_Output.thy ===== *)
theory Cli_Output
  imports Cli_Graph
begin

text \<open>
  What the reading commands of \<open>ksync\<close> print: the tables of \<open>internal/cli/commands.go\<close>, laid out by Go's
  \<open>text/tabwriter\<close> (for texts without vertical tabs and form feeds), the history and its audit export,
  the plan documents of \<open>internal/planoutput\<close>, and the installation notes of
  \<open>internal/cli/install.go\<close>. The JSON and YAML encoders are parameters. Writes to standard
  output do not fail.
\<close>

subsection \<open>Tables\<close>

text \<open>\<open>tabwriter.NewWriter(\<dots>, 0, 4, 2, ' ', 0)\<close>: a cell that a tab ends belongs to a column, which is the
  run of adjacent lines that have such a cell; every column is as wide as its widest cell and two
  spaces. Widths count characters, that is, the bytes that do not continue a UTF-8 sequence.\<close>

definition text_width :: "string \<Rightarrow> nat" where
  "text_width s = length (filter (\<lambda>c. of_char c div 64 \<noteq> (2 :: nat)) s)"

fun pad_cells :: "nat list \<Rightarrow> string list \<Rightarrow> string" where
  "pad_cells (w # ws) (c # cs) = c @ replicate (w - text_width c) CHR '' '' @ pad_cells ws cs"
| "pad_cells ws cs = concat cs"

definition column_width :: "nat \<Rightarrow> string list list \<Rightarrow> nat" where
  "column_width j ls = foldl (\<lambda>w l. max w (text_width (l ! j) + 2)) 0 ls"

definition open_cells :: "nat \<Rightarrow> string list list \<Rightarrow> nat" where
  "open_cells n ls = sum_list (map (\<lambda>l. length l - n) ls)"

lemma open_cells_Cons [simp]:
  "open_cells n [] = 0" "open_cells n (l # ls) = (length l - n) + open_cells n ls"
  by (simp_all add: open_cells_def)

lemma open_cells_while:
  "open_cells n (takeWhile P ls) \<le> open_cells n ls" "open_cells n (dropWhile P ls) \<le> open_cells n ls"
  by (induction ls) auto

lemma open_cells_Suc: "open_cells (Suc n) ls \<le> open_cells n ls"
  by (induction ls) auto

function tab_format :: "nat list \<Rightarrow> string list list \<Rightarrow> string list" where
  "tab_format ws [] = []"
| "tab_format ws (l # ls) =
     (if length l \<le> length ws + 1 then pad_cells ws l # tab_format ws ls
      else
        (let block = l # takeWhile (\<lambda>l. length ws + 1 < length l) ls
         in tab_format (ws @ [column_width (length ws) block]) block
            @ tab_format ws (dropWhile (\<lambda>l. length ws + 1 < length l) ls)))"
  by pat_completeness auto

termination
proof (relation "measures [\<lambda>(ws, ls). open_cells (length ws) ls, \<lambda>(ws, ls). length ls]", goal_cases)
  case 1
  then show ?case by simp
next
  case (2 ws l ls)
  then show ?case by auto
next
  case (3 ws l ls block)
  have "open_cells (Suc (length ws)) (takeWhile (\<lambda>l. length ws + 1 < length l) ls) \<le> open_cells (length ws) ls"
    using open_cells_Suc open_cells_while(1) le_trans by blast
  then show ?case using 3 by simp arith
next
  case (4 ws l ls block)
  have "open_cells (length ws) (dropWhile (\<lambda>l. length ws + 1 < length l) ls) \<le> open_cells (length ws) ls"
    by (rule open_cells_while)
  then show ?case using 4 by simp arith
qed

definition tab :: string where
  "tab = [CHR 0x09]"

definition renderTable :: "string list \<Rightarrow> string list list \<Rightarrow> string" where
  "renderTable header rows =
     (let written = concat (map (\<lambda>row. Join tab row @ newline) (header # rows));
          ls = butlast (Split (CHR 0x0A) written)
      in concat (map (\<lambda>l. l @ newline) (tab_format [] (map (Split (CHR 0x09)) ls))))"

definition repository_type_string :: "repository_type \<Rightarrow> string" where
  "repository_type_string t = (case t of
       RepositoryTypeNone \<Rightarrow> [] | RepositoryTypeGit \<Rightarrow> ''git'' | RepositoryTypeOther s \<Rightarrow> s)"

definition RenderApplications :: "application list \<Rightarrow> string" where
  "RenderApplications apps =
     renderTable [''NAME'', ''SYNC'', ''HEALTH'', ''DESIRED'', ''DEPLOYED'', ''SERVICEACCOUNT'']
       (map (\<lambda>a. [app_Name a, sync_state_string (astatus_Sync (app_Status a)),
          health_state_string (astatus_Health (app_Status a)), astatus_DesiredRevision (app_Status a),
          astatus_DeployedRevision (app_Status a), astatus_ServiceAccountName (app_Status a)]) apps)"

definition RenderRepositories :: "repository list \<Rightarrow> string" where
  "RenderRepositories repos =
     renderTable [''NAME'', ''TYPE'', ''STATE'', ''REVISION'']
       (map (\<lambda>r. [om_Name (repo_Meta r), repository_type_string (repo_Type (repo_Spec r)),
          repository_state_string (repostatus_State (repo_Status r)), repostatus_ObservedRevision (repo_Status r)]) repos)"

definition RenderRevision :: "revision \<Rightarrow> string" where
  "RenderRevision r = renderTable [''NAME'', ''PHASE'', ''APPLICATION'', ''REVISION'']
     [[rev_Name r, revision_phase_string (rev_Phase r), rev_ApplicationRef r, rev_SourceRevision r]]"

subsection \<open>History\<close>

definition noApprover :: string where
  "noApprover = [CHR 0xE2, CHR 0x80, CHR 0x94]"

definition cli_startOf :: "revision \<Rightarrow> time" where
  "cli_startOf r = (case rstatus_StartedAt (rev_Status r) of Some t \<Rightarrow> t | None \<Rightarrow> rev_Created r)"

text \<open>\<open>Time.Compare\<close> and \<open>cmp.Compare\<close>.\<close>

definition compare :: "'a :: linorder \<Rightarrow> 'a \<Rightarrow> int" where
  "compare x y = (if x < y then - 1 else if y < x then 1 else 0)"

definition history_compare :: "revision \<Rightarrow> revision \<Rightarrow> int" where
  "history_compare a b =
     (let c = compare (cli_startOf b) (cli_startOf a) in if c \<noteq> 0 then c else compare (rev_Name b) (rev_Name a))"

definition cli_newestFirst :: "revision list \<Rightarrow> revision list" where
  "cli_newestFirst revs = sort_by (\<lambda>a b. history_compare a b < 0) revs"

definition approvalCovers :: "revision \<Rightarrow> bool" where
  "approvalCovers r = (case rstatus_Approval (rev_Status r) of
       None \<Rightarrow> False
     | Some ap \<Rightarrow>
         if appr_ApprovedBy ap = [] \<or> rev_Phase r = RevisionPhaseAwaitingApproval then False
         else appr_DesiredStateHash ap = [] \<or> appr_DesiredStateHash ap = rev_DesiredStateHash r)"

definition history_row :: "revision \<Rightarrow> string list" where
  "history_row r = [rev_Name r, revision_phase_string (rev_Phase r), rev_SourceRevision r,
     (case rstatus_Approval (rev_Status r) of
        Some ap \<Rightarrow> if approvalCovers r then appr_ApprovedBy ap else noApprover
      | None \<Rightarrow> noApprover)]"

definition RenderHistory :: "revision list \<Rightarrow> string" where
  "RenderHistory revs =
     renderTable [''NAME'', ''PHASE'', ''REVISION'', ''APPROVED BY''] (map history_row (cli_newestFirst revs))"

record history_entry =
  he_Revision :: string
  he_SourceRevision :: string
  he_Outcome :: string
  he_FailureReason :: string
  he_FailureMessage :: string
  he_PlanDigest :: string
  he_ApprovedBy :: string
  he_ApprovedAt :: "time option"
  he_StartedAt :: "time option"
  he_CompletedAt :: "time option"

definition history_entry_of :: "revision \<Rightarrow> history_entry" where
  "history_entry_of r =
     (let st = rev_Status r in
      \<lparr>he_Revision = rev_Name r, he_SourceRevision = rev_SourceRevision r, he_Outcome = revision_phase_string (rev_Phase r),
       he_FailureReason = (case rstatus_Failure st of Some f \<Rightarrow> fail_Reason f | None \<Rightarrow> []),
       he_FailureMessage = (case rstatus_Failure st of Some f \<Rightarrow> redact_String (fail_Message f) | None \<Rightarrow> []),
       he_PlanDigest = (case rstatus_Approval st of Some ap \<Rightarrow> appr_PlanDigest ap | None \<Rightarrow> rev_PlanDigest r),
       he_ApprovedBy = (case rstatus_Approval st of Some ap \<Rightarrow> appr_ApprovedBy ap | None \<Rightarrow> []),
       he_ApprovedAt = map_option appr_ApprovedAt (rstatus_Approval st),
       he_StartedAt = rstatus_StartedAt st, he_CompletedAt = rstatus_CompletedAt st\<rparr>)"

definition RenderHistoryJSON :: "(history_entry list \<Rightarrow> string + string) \<Rightarrow> revision list \<Rightarrow> string + string" where
  "RenderHistoryJSON marshal revs =
     marshal (map history_entry_of (sort_by (\<lambda>a b. rev_Created a < rev_Created b) revs))"

subsection \<open>Plan documents\<close>

record plan_document =
  doc_Application :: string
  doc_Revision :: string
  doc_RevisionName :: string
  doc_Phase :: revision_phase
  doc_Plan :: revision_plan

record plan_encoders =
  pe_JSON :: "plan_document \<Rightarrow> string + string"
  pe_YAML :: "plan_document \<Rightarrow> string + string"

definition hidden_change :: "string \<Rightarrow> plan_field_change \<Rightarrow> bool" where
  "hidden_change kind c \<longleftrightarrow> kind = ''Secret'' \<or> fc_Redacted c \<or> SensitivePath (fc_Path c)"

definition redact_plan_change :: "string \<Rightarrow> plan_field_change \<Rightarrow> plan_field_change" where
  "redact_plan_change kind c =
     (if hidden_change kind c
      then c\<lparr>fc_Before := Value (fc_Before c), fc_After := Value (fc_After c), fc_Redacted := True\<rparr> else c)"

definition redact_resource :: "plan_resource_change \<Rightarrow> plan_resource_change" where
  "redact_resource res =
     res\<lparr>prc_Changes := map (redact_plan_change (resource_ref.ref_Kind (prc_Resource res))) (prc_Changes res)\<rparr>"

definition RedactDocument :: "plan_document \<Rightarrow> plan_document" where
  "RedactDocument doc = doc\<lparr>doc_Plan := (doc_Plan doc)\<lparr>plan_Resources := map redact_resource (plan_Resources (doc_Plan doc))\<rparr>\<rparr>"

fun actionPrefix :: "plan_action \<Rightarrow> string" where
  "actionPrefix PlanActionCreate = ''+''"
| "actionPrefix PlanActionUpdate = ''~''"
| "actionPrefix PlanActionDelete = ''-''"
| "actionPrefix PlanActionUnchanged = ''=''"

definition namespaceOrDash :: "string \<Rightarrow> string" where
  "namespaceOrDash ns = (if ns = [] then ''-'' else ns)"

definition emptyDash :: "string \<Rightarrow> string" where
  "emptyDash v = (if v = [] then ''-'' else v)"

definition resource_text :: "plan_resource_change \<Rightarrow> string" where
  "resource_text res =
     (let r = prc_Resource res in
      (if prc_Destructive res then ''! DELETE'' else actionPrefix (prc_Action res)) @ '' '' @ resource_ref.ref_Kind r @ ''/''
      @ namespaceOrDash (ref_Namespace r) @ ''/'' @ resource_ref.ref_Name r @ newline
      @ concat (map (\<lambda>w. ''    WARNING: '' @ w @ newline) (prc_Warnings res))
      @ concat (map (\<lambda>c. ''    CONFLICT: '' @ pc_Path c @ '' owned by '' @ pc_Manager c @ '' policy=''
          @ conflict_policy_string (pc_Policy c) @ newline) (prc_Conflicts res))
      @ concat (map (\<lambda>c. ''    '' @ fc_Path c @ newline @ ''      '' @ emptyDash (fc_Before c) @ '' -> ''
          @ emptyDash (fc_After c) @ newline) (prc_Changes res))
      @ (if prc_Changes res \<noteq> [] \<or> prc_Conflicts res \<noteq> [] \<or> prc_Warnings res \<noteq> [] then newline else []))"

definition writeText :: "plan_document \<Rightarrow> string" where
  "writeText doc =
     (let s = plan_Summary (doc_Plan doc) in
      ''Application: '' @ doc_Application doc @ newline
      @ (if doc_RevisionName doc \<noteq> [] then ''Revision:    '' @ doc_RevisionName doc @ newline else [])
      @ ''Commit:      '' @ doc_Revision doc @ newline
      @ (if doc_Phase doc \<noteq> RevisionPhaseNone then ''Phase:       '' @ revision_phase_string (doc_Phase doc) @ newline else [])
      @ newline
      @ concat (map resource_text (plan_Resources (doc_Plan doc)))
      @ itoa (sum_Update s) @ '' changed'' @ newline @ itoa (sum_Create s) @ '' created'' @ newline
      @ itoa (sum_Delete s) @ '' deleted'' @ newline @ itoa (sum_Unchanged s) @ '' unchanged'' @ newline)"

definition plan_Write :: "plan_encoders \<Rightarrow> plan_document \<Rightarrow> string \<Rightarrow> string + string" where
  "plan_Write E doc format =
     (let doc = RedactDocument doc; f = ToLower format in
      if f = [] \<or> f = ''text'' \<or> f = ''table'' then Inr (writeText doc)
      else if f = ''json'' then pe_JSON E doc
      else if f = ''yaml'' \<or> f = ''yml'' then pe_YAML E doc
      else Inl (''unsupported output format '' @ format))"

subsection \<open>Installation notes\<close>

definition repoURL :: string where
  "repoURL = ''https://github.com/azrtydxb/kuvryn-sync''"

definition alnum_dot :: "char \<Rightarrow> bool" where
  "alnum_dot c \<longleftrightarrow> is_digit c \<or> alpha c \<or> c = CHR ''.''"

text \<open>\<open>releaseTag\<close>: the anchored expression, read left to right; no two of its parts compete for a
  character, so the greedy reading is the only one.\<close>

definition releaseTag :: "string \<Rightarrow> bool" where
  "releaseTag v =
     (case seq (lit ''v'') (seq (many1 is_digit) (seq (lit ''.'') (seq (many1 is_digit)
        (seq (lit ''.'') (many1 is_digit))))) v of
        None \<Rightarrow> False
      | Some (_, rest) \<Rightarrow>
          rest = [] \<or> (case seq (lit ''-'') (many1 alnum_dot) rest of None \<Rightarrow> False | Some (_, rest) \<Rightarrow> rest = []))"

definition imageRef :: string where
  "imageRef = ''ghcr.io/azrtydxb/kuvryn-sync''"

definition lines_text :: "string list \<Rightarrow> string" where
  "lines_text ls = concat (map (\<lambda>l. l @ newline) ls)"

definition renderInstall :: "string \<Rightarrow> string" where
  "renderInstall version =
     (if \<not> releaseTag version \<or> HasSuffix version ''-dirty''
      then lines_text
        [''This ksync build ('' @ cli_orUnknown version @ '') is unreleased, so it has no install bundle.'',
         ''Install a release, or build one from source, as '' @ repoURL @ ''/blob/main/docs/install.md describes.'']
      else lines_text [
       ''Install Kuvryn Sync '' @ version @ ''. cert-manager must be running first.'',
       [],
       ''With the release manifests:'',
       [],
       ''  kubectl apply -f '' @ repoURL @ ''/releases/download/'' @ version @ ''/install.yaml'',
       [],
       ''Or with the Helm chart, from a checkout of the release tag:'',
       [],
       ''  git clone --depth 1 --branch '' @ version @ '' '' @ repoURL @ ''.git'',
       ''  cd kuvryn-sync'',
       ''  kubectl apply -f config/crd/bases'',
       ''  helm upgrade --install kuvryn-sync charts/kuvryn-sync '' @ [CHR 0x5C],
       ''    --namespace kuvryn-sync-system --create-namespace'',
       [],
       ''The image '' @ imageRef @ '':'' @ version @ '' may be private: create a pull Secret and set'',
       ''image.pullSecrets with Helm, or patch the Deployment with the raw manifests.'',
       ''See '' @ repoURL @ ''/blob/'' @ version @ ''/docs/install.md''])"

definition Usage :: string where
  "Usage = lines_text [
     ''Usage: ksync <command> [arguments] [-n namespace]'',
     [],
     ''Read:'',
     ''  ksync apps                                     List Applications'',
     ''  ksync repos                                    List Repositories'',
     ''  ksync repo get <repository>                    Show one Repository'',
     ''  ksync get <application>                        Show one Application (alias: status)'',
     ''  ksync history <application> [-o table|json]    List an Application'' @ [CHR 0x27] @ ''s Revisions'',
     ''  ksync revision <revision>                      Show one Revision'',
     ''  ksync plan <application> [-f file] [-o text|json|yaml]'',
     ''                                                 Show the plan of the Revision the'',
     ''                                                 Application wants deployed'',
     ''  ksync diagnose <application>                   Explain why an Application is not Healthy'',
     ''  ksync graph <application> [-o text|json|dot]   Print the live resource graph'',
     ''  ksync drift <application>                      Show sync state (alias of get)'',
     [],
     ''Change:'',
     ''  ksync sync <application> --revision <revision> Approve a Revision'' @ [CHR 0x27] @ ''s plan (alias: approve)'',
     ''  ksync rollback <application> [--revision <revision>]'',
     ''                                                 Roll back to a healthy Revision; approves'',
     ''                                                 and deploys it under manual sync'',
     ''  ksync suspend <application>                    Stop reconciling an Application'',
     ''  ksync resume <application>                     Resume reconciling an Application'',
     [],
     ''Other:'',
     ''  ksync console [flags]                          Serve the read-only web console'',
     ''  ksync install                                  Print the install commands'',
     ''  ksync version                                  Print the version'',
     ''  ksync help                                     Print this help'',
     [],
     ''Without a command, or with flags only, ksync starts the controller manager.'']"

subsection \<open>Properties\<close>

text \<open>The history lists Revisions in the order of the console.\<close>

lemma history_order: "cli_newestFirst = newestFirst"
proof
  fix revs
  have "(\<lambda>a b. history_compare a b < 0) = starts_later"
    by (auto simp: fun_eq_iff history_compare_def compare_def starts_later_def cli_startOf_def startOf_def Let_def)
  then show "cli_newestFirst revs = newestFirst revs" by (simp add: cli_newestFirst_def newestFirst_def)
qed

text \<open>Two plans look alike when they differ in nothing but the values of hidden changes, and these are empty in
  both or in neither.\<close>

definition masked :: "string \<Rightarrow> bool" where
  "masked v \<longleftrightarrow> v \<noteq> [] \<and> \<not> Contains v Placeholder"

definition change_alike :: "string \<Rightarrow> plan_field_change \<Rightarrow> plan_field_change \<Rightarrow> bool" where
  "change_alike kind c d \<longleftrightarrow> c = d \<or>
     (hidden_change kind c \<and> hidden_change kind d \<and> fc_Path c = fc_Path d \<and>
      (fc_Before c = fc_Before d \<or> masked (fc_Before c) \<and> masked (fc_Before d)) \<and>
      (fc_After c = fc_After d \<or> masked (fc_After c) \<and> masked (fc_After d)))"

definition resource_alike :: "plan_resource_change \<Rightarrow> plan_resource_change \<Rightarrow> bool" where
  "resource_alike x y \<longleftrightarrow> y = x\<lparr>prc_Changes := prc_Changes y\<rparr> \<and>
     list_all2 (change_alike (resource_ref.ref_Kind (prc_Resource x))) (prc_Changes x) (prc_Changes y)"

definition document_alike :: "plan_document \<Rightarrow> plan_document \<Rightarrow> bool" where
  "document_alike x y \<longleftrightarrow> y = x\<lparr>doc_Plan := (doc_Plan x)\<lparr>plan_Resources := plan_Resources (doc_Plan y)\<rparr>\<rparr> \<and>
     list_all2 resource_alike (plan_Resources (doc_Plan x)) (plan_Resources (doc_Plan y))"

lemma redact_plan_change_alike: "change_alike kind c d \<Longrightarrow> redact_plan_change kind c = redact_plan_change kind d"
  by (auto simp: change_alike_def redact_plan_change_def masked_def Value_def intro!: plan_field_change.equality)

lemma redact_resource_alike:
  assumes "resource_alike x y"
  shows "redact_resource x = redact_resource y"
proof -
  let ?k = "resource_ref.ref_Kind (prc_Resource x)"
  have y: "y = x\<lparr>prc_Changes := prc_Changes y\<rparr>" using assms by (simp add: resource_alike_def)
  then have kind: "prc_Resource y = prc_Resource x" by (cases x; cases y) simp
  have "list_all2 (\<lambda>c d. redact_plan_change ?k c = redact_plan_change ?k d) (prc_Changes x) (prc_Changes y)"
    using assms unfolding resource_alike_def by (blast intro: list_all2_mono redact_plan_change_alike)
  then have "map (redact_plan_change ?k) (prc_Changes x) = map (redact_plan_change ?k) (prc_Changes y)"
    by (induction rule: list_all2_induct) simp_all
  then have "redact_resource y = y\<lparr>prc_Changes := map (redact_plan_change ?k) (prc_Changes x)\<rparr>"
    by (simp add: redact_resource_def kind)
  also have "\<dots> = redact_resource x" by (subst y) (simp add: redact_resource_def)
  finally show ?thesis by simp
qed

lemma RedactDocument_alike:
  assumes "document_alike x y"
  shows "RedactDocument x = RedactDocument y"
proof -
  have "list_all2 (\<lambda>a b. redact_resource a = redact_resource b) (plan_Resources (doc_Plan x)) (plan_Resources (doc_Plan y))"
    using assms unfolding document_alike_def by (blast intro: list_all2_mono redact_resource_alike)
  then have "map redact_resource (plan_Resources (doc_Plan x)) = map redact_resource (plan_Resources (doc_Plan y))"
    by (induction rule: list_all2_induct) simp_all
  moreover have "y = x\<lparr>doc_Plan := (doc_Plan x)\<lparr>plan_Resources := plan_Resources (doc_Plan y)\<rparr>\<rparr>"
    using assms by (simp add: document_alike_def)
  ultimately show ?thesis
    by (cases x; cases y; cases "doc_Plan x"; cases "doc_Plan y") (simp add: RedactDocument_def)
qed

text \<open>No output of a plan, in any format, tells two values of a Secret, of a sensitive path or of a
  change marked as redacted apart.\<close>

theorem plan_output_hides:
  assumes "document_alike doc doc'"
  shows "plan_Write E doc format = plan_Write E doc' format"
  by (simp add: plan_Write_def RedactDocument_alike [OF assms])

definition secret_document :: "string \<Rightarrow> plan_document" where
  "secret_document v = \<lparr>doc_Application = ''shop'', doc_Revision = ''c1'', doc_RevisionName = ''shop-1'',
     doc_Phase = RevisionPhaseAwaitingApproval,
     doc_Plan = zero_plan\<lparr>plan_Resources := [secret_change\<lparr>prc_Changes := [password_change\<lparr>fc_After := v\<rparr>]\<rparr>]\<rparr>\<rparr>"

theorem plan_output_hides_witness:
  "\<forall>E. plan_Write E (secret_document ''hunter2'') ''text'' = plan_Write E (secret_document ''swordfish'') ''text''"
proof (intro allI plan_output_hides)
  show "document_alike (secret_document ''hunter2'') (secret_document ''swordfish'')"
    by (simp add: document_alike_def secret_document_def resource_alike_def change_alike_def hidden_change_def
        masked_def secret_change_def password_change_def Placeholder_def)
qed

end
