(* ===== verification/Cli.thy ===== *)
theory Cli
  imports Cli_Revisions Cli_Output Tenant_Safety
begin

text \<open>
  The commands of \<open>ksync\<close> (\<open>internal/cli/plan.go\<close>, \<open>graph.go\<close>, \<open>install.go\<close>): reading and parsing the arguments, the requests
  each command makes, what it prints, and the exit code. A command answers with what it wrote to
  standard output and its error, if any; a command that changes an Application also answers with the
  object as the server returned it. The process's surroundings are the record \<open>cli_env\<close>: the
  cluster clients, the version, the files it reads, the encoders, and the web console it may serve.
\<close>

subsection \<open>Approving\<close>

definition say :: "string \<Rightarrow> string" where
  "say s = s @ newline"

definition approval_patch :: "revision \<Rightarrow> strmap" where
  "approval_patch r = [ApprovedRevisionAnnotation \<mapsto> rev_Name r, ApproveDigestAnnotation \<mapsto> rev_PlanDigest r]"

definition approve :: "lib \<Rightarrow> cli_client \<Rightarrow> string \<Rightarrow> string \<Rightarrow> string \<Rightarrow> string \<times> (cli_error + application)" where
  "approve L c ns name revisionName =
     (case cc_Application c ns name of
        Inl err \<Rightarrow> ([], Inl (ApiFailed err))
      | Inr app \<Rightarrow>
          (case cc_Revision c ns revisionName of
             Inl err \<Rightarrow> ([], Inl (ApiFailed err))
           | Inr r \<Rightarrow>
               if rev_ApplicationRef r \<noteq> app_Name app
               then ([], Inl (ForeignRevision (rev_Name r) (rev_ApplicationRef r) (app_Name app)))
               else if rolledBack L r then ([], Inl (ReplacedByRollback (rev_Name r)))
               else if rev_PlanDigest r = [] then ([], Inl (NoPlanYet (rev_Name r)))
               else
                 (let out = say (''approving '' @ rev_Name r @ '' for '' @ app_Name app @ '' with plan digest '' @ rev_PlanDigest r)
                  in case cc_Patch c app (approval_patch r) of
                       Inl err \<Rightarrow> (out, Inl (ApiFailed err))
                     | Inr app \<Rightarrow> (out @ say (''approved '' @ rev_Name r @ '' for '' @ app_Name app), Inr app))))"

subsection \<open>Rolling back\<close>

definition rollback_from :: "application \<Rightarrow> string" where
  "rollback_from app =
     (let annotations = app_Annotations app;
          from = get_str annotations RollbackFromAnnotation;
          from = (if get_str annotations RollbackRevisionAnnotation = [] \<or> from = []
                  then astatus_DesiredRevision (app_Status app) else from)
      in if from = [] then astatus_DeployedRevision (app_Status app) else from)"

definition request_rollback :: "application \<Rightarrow> revision \<Rightarrow> string \<Rightarrow> application" where
  "request_rollback app r from = set_annotations ((app_Annotations app)
     (RollbackRevisionAnnotation \<mapsto> rev_SourceRevision r, RollbackFromAnnotation \<mapsto> from,
      RollbackKindAnnotation \<mapsto> RollbackKindManual, RollbackTargetRevisionAnnotation \<mapsto> rev_Name r)) app"

definition rebuiltName :: "lib \<Rightarrow> codec \<Rightarrow> application \<Rightarrow> revision \<Rightarrow> string \<times> bool" where
  "rebuiltName L J app r =
     (let serviceAccount = aspec_ServiceAccountName (app_Spec app);
          serviceAccount = (if serviceAccount = [] then astatus_ServiceAccountName (app_Status app) else serviceAccount)
      in if serviceAccount = [] then (rev_Name r, True)
         else case For L J app (rev_SourceRevision r) serviceAccount of
                None \<Rightarrow> (rev_Name r, True)
              | Some (name, _) \<Rightarrow> (name, name = rev_Name r))"

text \<open>The switch of \<open>rollbackOutcome\<close>, and the sentence each case prints.\<close>

datatype rollback_outcome =
    PlansNew string | DeploysIt | NoLongerApproves | ApprovesAs string | NeverDeployed | NoRequester

definition outcome_of :: "lib \<Rightarrow> codec \<Rightarrow> application \<Rightarrow> revision \<Rightarrow> rollback_outcome" where
  "outcome_of L J app r =
     (let requester = get_str (app_Annotations app) RollbackRequestedByAnnotation;
          bound = get_str (app_Annotations app) RollbackTargetHashAnnotation;
          (rebuilt, same) = rebuiltName L J app r
      in if \<not> same then PlansNew rebuilt
         else if sync_Automatic (aspec_Sync (app_Spec app)) then DeploysIt
         else if requester \<noteq> [] \<and> bound \<noteq> [] \<and> bound \<noteq> RollbackBinding L J r app then NoLongerApproves
         else if requester \<noteq> [] \<and> bound \<noteq> [] then ApprovesAs requester
         else if requester \<noteq> [] then NeverDeployed
         else NoRequester)"

definition outcome_text :: "application \<Rightarrow> revision \<Rightarrow> string \<Rightarrow> rollback_outcome \<Rightarrow> string" where
  "outcome_text app r ns oc =
     (let approve = approveCommand (app_Name app) ns False (rev_Name r); n = rev_Name r in
      case oc of
        PlansNew rebuilt \<Rightarrow>
          ''the Application'' @ [CHR 0x27] @ ''s spec changed since '' @ n @ '' was built, so the rollback plans a new Revision, ''
          @ rebuilt @ '', of '' @ rev_SourceRevision r @ '' from the current spec, ''
          @ (if \<not> sync_Automatic (aspec_Sync (app_Spec app))
             then ''which awaits approval; review and approve it with:'' @ newline @ ''  '' @ planCommand (app_Name app) ns
               @ newline @ ''  '' @ approveCommand (app_Name app) ns False rebuilt
             else ''which deploys'')
      | DeploysIt \<Rightarrow> ''the request deploys '' @ n
      | NoLongerApproves \<Rightarrow>
          ''the pending rollback request was recorded before spec.sync or spec.strategy changed, or before '' @ n
          @ '' deployed again, so it no longer approves '' @ n @ ''; it awaits approval once planned: '' @ approve
      | ApprovesAs requester \<Rightarrow>
          ''the request approves and deploys '' @ n @ '' as '' @ requester
          @ '' while it renders what it deployed; no ksync sync is needed''
      | NeverDeployed \<Rightarrow>
          n @ '' never deployed in a completed rollout, so the request does not approve it; it awaits approval once planned: '' @ approve
      | NoRequester \<Rightarrow>
          ''no requester was recorded (are the admission webhooks disabled?), so '' @ n @ '' awaits approval once planned: '' @ approve)"

definition rollbackOutcome :: "lib \<Rightarrow> codec \<Rightarrow> application \<Rightarrow> revision \<Rightarrow> string \<Rightarrow> string" where
  "rollbackOutcome L J app r ns = outcome_text app r ns (outcome_of L J app r)"

definition rollback_target :: "cli_client \<Rightarrow> string \<Rightarrow> application \<Rightarrow> string \<Rightarrow> cli_error + string" where
  "rollback_target c ns app revisionName =
     (if revisionName \<noteq> [] then Inr revisionName
      else case cli_applicationRevisions c (app_Name app) ns of
             Inl err \<Rightarrow> Inl (ApiFailed err)
           | Inr revs \<Rightarrow> defaultRollbackTarget app revs)"

definition rollback_report :: "lib \<Rightarrow> codec \<Rightarrow> application \<Rightarrow> revision \<Rightarrow> string \<Rightarrow> string \<Rightarrow> string" where
  "rollback_report L J app r ns from =
     ((if rolledBack L r
       then say (''revision '' @ rev_Name r @ '' was replaced by an earlier rollback; rolling back to it lifts that hold'')
       else [])
      @ say (''rollback requested for '' @ app_Name app @ '' to '' @ rev_Name r @ '' ('' @ rev_SourceRevision r @ '')''))
     @ say (rollbackOutcome L J app r ns)
     @ (if from \<noteq> rev_SourceRevision r then say (''holding '' @ from @ '' once the rollback completes'') else [])"

definition rollback :: "lib \<Rightarrow> codec \<Rightarrow> cli_client \<Rightarrow> string \<Rightarrow> string \<Rightarrow> string
    \<Rightarrow> string \<times> (cli_error + application \<times> revision)" where
  "rollback L J c ns name revisionName =
     (case cc_Application c ns name of
        Inl err \<Rightarrow> ([], Inl (ApiFailed err))
      | Inr app \<Rightarrow>
          (let from = rollback_from app in
           if from = [] then ([], Inl (NothingToRollBackFrom (app_Name app)))
           else case rollback_target c ns app revisionName of
             Inl err \<Rightarrow> ([], Inl err)
           | Inr target \<Rightarrow>
               (case cc_Revision c ns target of
                  Inl err \<Rightarrow> ([], Inl (ApiFailed err))
                | Inr r \<Rightarrow>
                    if rev_ApplicationRef r \<noteq> app_Name app
                    then ([], Inl (ForeignRevision (rev_Name r) (rev_ApplicationRef r) (app_Name app)))
                    else if rev_SourceRevision r = from \<and> \<not> rolledBack L r
                    then ([], Inl (IsDesiredRevision (rev_Name r) from))
                    else
                      (case cc_Update c (request_rollback app r from) of
                         Inl err \<Rightarrow> ([], Inl (ApiFailed err))
                       | Inr app \<Rightarrow>
                           (rollback_report L J app r ns from,
                            Inr (app, r))))))"

subsection \<open>The other commands\<close>

record 's cli_env =
  ce_Client :: "cli_error + cli_client"
  ce_Objects :: reader
  ce_GraphReader :: "'s graph_reader"
  ce_Selectors :: "'s graph_lib"
  ce_Version :: string
  ce_ReadRevision :: "string \<Rightarrow> cli_error + revision" \<comment> \<open>\<open>os.ReadFile\<close> and \<open>yaml.Unmarshal\<close>\<close>
  ce_Console :: "string list \<Rightarrow> string \<times> cli_error option" \<comment> \<open>serves until interrupted\<close>
  ce_Encoders :: plan_encoders
  ce_History :: "history_entry list \<Rightarrow> string + string"
  ce_Graph :: "json_node list \<times> json_edge list \<times> string list \<Rightarrow> string"

type_synonym cli_outcome = "string \<times> cli_error option"

definition ok :: "string \<Rightarrow> cli_outcome" where
  "ok out = (out, None)"

definition cli_fails :: "cli_error \<Rightarrow> cli_outcome" where
  "cli_fails err = ([], Some err)"

definition done_with :: "string \<times> (cli_error + 'a) \<Rightarrow> cli_outcome" where
  "done_with res = (fst res, case snd res of Inl err \<Rightarrow> Some err | Inr _ \<Rightarrow> None)"

text \<open>Every command starts alike: it parses its flags, checks its arguments and connects.\<close>

definition with_args :: "'s cli_env \<Rightarrow> string list \<Rightarrow> string list \<Rightarrow> ((string \<times> string) list \<Rightarrow> string list \<Rightarrow> bool) \<Rightarrow> string
    \<Rightarrow> ((string \<times> string) list \<Rightarrow> string list \<Rightarrow> cli_client \<Rightarrow> cli_outcome) \<Rightarrow> cli_outcome" where
  "with_args env extra args accepted usage run =
     (case parse_args extra args of
        Inl err \<Rightarrow> cli_fails (BadFlags err)
      | Inr (actual, rest) \<Rightarrow>
          if \<not> accepted actual rest then cli_fails (UsageError usage)
          else case ce_Client env of Inl err \<Rightarrow> cli_fails err | Inr c \<Rightarrow> run actual rest c)"

definition one_arg :: "(string \<times> string) list \<Rightarrow> string list \<Rightarrow> bool" where
  "one_arg actual rest \<longleftrightarrow> length rest = 1"

definition on_answer :: "api_error + 'a \<Rightarrow> ('a \<Rightarrow> cli_outcome) \<Rightarrow> cli_outcome" where
  "on_answer answer run = (case answer of Inl err \<Rightarrow> cli_fails (ApiFailed err) | Inr x \<Rightarrow> run x)"

definition runInstall :: "'s cli_env \<Rightarrow> string list \<Rightarrow> cli_outcome" where
  "runInstall env args = (if args \<noteq> [] then cli_fails (UsageError ''usage: ksync install'') else ok (renderInstall (ce_Version env)))"

definition runApplications :: "'s cli_env \<Rightarrow> string list \<Rightarrow> cli_outcome" where
  "runApplications env args = with_args env [] args (\<lambda>_ _. True) []
     (\<lambda>actual rest c. on_answer (cc_Applications c (namespace_of actual)) (\<lambda>apps. ok (RenderApplications apps)))"

definition runRepositories :: "'s cli_env \<Rightarrow> string list \<Rightarrow> cli_outcome" where
  "runRepositories env args = with_args env [] args (\<lambda>_ _. True) []
     (\<lambda>actual rest c. on_answer (cc_Repositories c (namespace_of actual)) (\<lambda>repos. ok (RenderRepositories repos)))"

definition runRepo :: "'s cli_env \<Rightarrow> string list \<Rightarrow> cli_outcome" where
  "runRepo env args =
     (let usage = ''usage: ksync repo get <name> [-n namespace]'' in
      if args = [] \<or> hd args \<noteq> ''get'' then cli_fails (UsageError usage)
      else with_args env [] (tl args) one_arg usage
        (\<lambda>actual rest c. on_answer (cc_Repository c (namespace_of actual) (hd rest)) (\<lambda>repo. ok (RenderRepositories [repo]))))"

definition runGetApplication :: "'s cli_env \<Rightarrow> string list \<Rightarrow> cli_outcome" where
  "runGetApplication env args = with_args env [] args one_arg ''usage: ksync get <application> [-n namespace]''
     (\<lambda>actual rest c. on_answer (cc_Application c (namespace_of actual) (hd rest)) (\<lambda>app. ok (RenderApplications [app])))"

definition runDrift :: "'s cli_env \<Rightarrow> string list \<Rightarrow> cli_outcome" where
  "runDrift env args = runGetApplication env args"

definition output_of :: "string \<Rightarrow> (string \<times> string) list \<Rightarrow> string" where
  "output_of def actual = flag_value [''o'', ''output''] def actual"

definition runHistory :: "'s cli_env \<Rightarrow> string list \<Rightarrow> cli_outcome" where
  "runHistory env args = with_args env [''output'', ''o''] args
     (\<lambda>actual rest. length rest = 1 \<and> output_of ''table'' actual \<in> {''table'', ''json''})
     ''usage: ksync history <application> [-n namespace] [-o table|json]''
     (\<lambda>actual rest c. on_answer (cli_applicationRevisions c (hd rest) (namespace_of actual)) (\<lambda>revs.
        if output_of ''table'' actual = ''json''
        then (case RenderHistoryJSON (ce_History env) revs of
                Inl err \<Rightarrow> cli_fails (OutputFailed err) | Inr out \<Rightarrow> ok (say out))
        else ok (RenderHistory revs)))"

definition runRevision :: "'s cli_env \<Rightarrow> string list \<Rightarrow> cli_outcome" where
  "runRevision env args = with_args env [] args one_arg ''usage: ksync revision <name> [-n namespace]''
     (\<lambda>actual rest c. on_answer (cc_Revision c (namespace_of actual) (hd rest)) (\<lambda>r. ok (RenderRevision r)))"

definition runSync :: "lib \<Rightarrow> 's cli_env \<Rightarrow> string list \<Rightarrow> cli_outcome" where
  "runSync L env args = with_args env [''revision''] args
     (\<lambda>actual rest. length rest = 1 \<and> flag_value [''revision''] [] actual \<noteq> [])
     ''usage: ksync sync <application> --revision <revision> [-n namespace]''
     (\<lambda>actual rest c. done_with (approve L c (namespace_of actual) (hd rest) (flag_value [''revision''] [] actual)))"

definition runRollback :: "lib \<Rightarrow> codec \<Rightarrow> 's cli_env \<Rightarrow> string list \<Rightarrow> cli_outcome" where
  "runRollback L J env args = with_args env [''revision''] args one_arg
     ''usage: ksync rollback <application> [--revision revision] [-n namespace]''
     (\<lambda>actual rest c. done_with (rollback L J c (namespace_of actual) (hd rest) (flag_value [''revision''] [] actual)))"

definition cli_diagnose :: "lib \<Rightarrow> cli_client \<Rightarrow> string \<Rightarrow> string \<Rightarrow> cli_outcome" where
  "cli_diagnose L c ns name = on_answer (cc_Application c ns name) (\<lambda>app.
     case newestRevision c name ns of
       Inr r \<Rightarrow> ok (RenderDiagnosis L app (rstatus_Failure (rev_Status r)))
     | Inl (NoRevisionFound _ _) \<Rightarrow> ok (RenderDiagnosis L app None)
     | Inl err \<Rightarrow> cli_fails err)"

definition runDiagnose :: "lib \<Rightarrow> 's cli_env \<Rightarrow> string list \<Rightarrow> cli_outcome" where
  "runDiagnose L env args = with_args env [] args one_arg ''usage: ksync diagnose <application> [-n namespace]''
     (\<lambda>actual rest c. cli_diagnose L c (namespace_of actual) (hd rest))"

definition runSuspend :: "'s cli_env \<Rightarrow> string list \<Rightarrow> bool \<Rightarrow> cli_outcome" where
  "runSuspend env args suspend = with_args env [] args one_arg ''usage: ksync suspend|resume <application> [-n namespace]''
     (\<lambda>actual rest c. on_answer (cc_Application c (namespace_of actual) (hd rest)) (\<lambda>app.
        on_answer (cc_Update c (app\<lparr>app_Spec := (app_Spec app)\<lparr>aspec_Suspend := suspend\<rparr>\<rparr>)) (\<lambda>app.
          ok (say (''updated '' @ app_Name app @ '' suspend='' @ (if suspend then ''true'' else ''false''))))))"

definition loadRevision :: "lib \<Rightarrow> 's cli_env \<Rightarrow> string \<Rightarrow> string \<Rightarrow> string \<Rightarrow> cli_error + revision" where
  "loadRevision L env name ns path =
     (if path \<noteq> [] then ce_ReadRevision env path
      else case ce_Client env of Inl err \<Rightarrow> Inl err | Inr c \<Rightarrow> wantedRevision L c name ns)"

definition plan_text_format :: "string \<Rightarrow> bool" where
  "plan_text_format f \<longleftrightarrow> f = [] \<or> ToLower f = ''text'' \<or> ToLower f = ''table''"

definition runPlan :: "lib \<Rightarrow> 's cli_env \<Rightarrow> string list \<Rightarrow> cli_outcome" where
  "runPlan L env args =
     (case parse_args [''o'', ''f''] args of
        Inl err \<Rightarrow> cli_fails (BadFlags err)
      | Inr (actual, rest) \<Rightarrow>
          if length rest \<noteq> 1
          then cli_fails (UsageError ''usage: ksync plan <application> [-n namespace] [-f revision.yaml] [-o text|json|yaml]'')
          else
            (let name = hd rest; ns = namespace_of actual; format = flag_value [''o''] ''text'' actual in
             case loadRevision L env name ns (flag_value [''f''] [] actual) of
               Inl err \<Rightarrow> cli_fails err
             | Inr r \<Rightarrow>
                 (case plan_Write (ce_Encoders env) \<lparr>doc_Application = name, doc_Revision = rev_SourceRevision r,
                        doc_RevisionName = rev_Name r, doc_Phase = rev_Phase r, doc_Plan = rstatus_Plan (rev_Status r)\<rparr> format of
                    Inl err \<Rightarrow> cli_fails (OutputFailed err)
                  | Inr out \<Rightarrow>
                      if plan_text_format format \<and> rev_Name r \<noteq> [] \<and> rev_Phase r = RevisionPhaseAwaitingApproval
                      then
                        (let given = flagSet actual [''n'', ''namespace''];
                             ns = (if \<not> given \<and> om_Namespace (rev_Meta r) \<noteq> [] then om_Namespace (rev_Meta r) else ns)
                         in ok (out @ newline @ say (''Approve with: '' @ approveCommand name ns given (rev_Name r))))
                      else ok out)))"

definition writeGraph :: "lib \<Rightarrow> 's cli_env \<Rightarrow> cli_client \<Rightarrow> string \<Rightarrow> string \<Rightarrow> string \<Rightarrow> cli_outcome" where
  "writeGraph L env c ns name format = on_answer (cc_Application c ns name) (\<lambda>app.
     on_answer (ListManaged L (ce_Objects env) app \<lparr>lo_DesiredKinds = [], lo_MetadataOnly = Some IdentityOnly, lo_Exclude = None\<rparr>)
       (\<lambda>(managed, _).
          let g = fst (Collect L (ce_Selectors env) (ce_GraphReader env) (DestinationNamespace app) managed) in
          if format = ''dot'' then ok (DOT L g)
          else if format = ''text''
          then ok (case RenderGraph (app_Name app) g (List.map_filter (object_id L) managed) of
                 Some out \<Rightarrow> out | None \<Rightarrow> [])
          else ok (ce_Graph env (MarshalJSON L g))))"

definition runGraph :: "lib \<Rightarrow> 's cli_env \<Rightarrow> string list \<Rightarrow> cli_outcome" where
  "runGraph L env args = with_args env [''o''] args
     (\<lambda>actual rest. length rest = 1 \<and> flag_value [''o''] ''text'' actual \<in> {''text'', ''json'', ''dot''})
     ''usage: ksync graph <application> [-n namespace] [-o text|json|dot]''
     (\<lambda>actual rest c. writeGraph L env c (namespace_of actual) (hd rest) (flag_value [''o''] ''text'' actual))"

text \<open>\<open>Run\<close>: whether a subcommand ran, its exit code, and what it printed to standard output with its error. Without
  a command, or with flags only, the controller manager starts instead.\<close>

definition Run :: "lib \<Rightarrow> codec \<Rightarrow> 's cli_env \<Rightarrow> string list \<Rightarrow> bool \<times> int \<times> cli_outcome" where
  "Run L J env args =
     (case args of
        [] \<Rightarrow> (False, 0, ok [])
      | cmd # args \<Rightarrow>
          (let ran = (\<lambda>out :: cli_outcome. (True, if snd out = None then 0 else 1, out)) in
           if cmd \<in> {''apps'', ''applications''} then ran (runApplications env args)
           else if cmd = ''console'' then ran (ce_Console env args)
           else if cmd = ''install'' then ran (runInstall env args)
           else if cmd \<in> {''repos'', ''repositories''} then ran (runRepositories env args)
           else if cmd = ''repo'' then ran (runRepo env args)
           else if cmd \<in> {''status'', ''get''} then ran (runGetApplication env args)
           else if cmd = ''history'' then ran (runHistory env args)
           else if cmd = ''revision'' then ran (runRevision env args)
           else if cmd = ''plan'' then ran (runPlan L env args)
           else if cmd \<in> {''sync'', ''approve''} then ran (runSync L env args)
           else if cmd = ''rollback'' then ran (runRollback L J env args)
           else if cmd = ''drift'' then ran (runDrift env args)
           else if cmd = ''diagnose'' then ran (runDiagnose L env args)
           else if cmd = ''graph'' then ran (runGraph L env args)
           else if cmd = ''suspend'' then ran (runSuspend env args True)
           else if cmd = ''resume'' then ran (runSuspend env args False)
           else if cmd = ''version'' then (True, 0, ok (say (''ksync '' @ ce_Version env)))
           else if cmd = ''help'' then (True, 0, ok Usage)
           else if length cmd > 0 \<and> hd cmd = CHR ''-'' then (False, 0, ok [])
           else (True, 1, cli_fails (UsageError (''unknown ksync command '' @ cmd)))))"

subsection \<open>What the server admits\<close>

text \<open>An object the server stored went through the admission webhook: its annotations, spec and name are those that
  \<open>Default\<close> answered, for some user, time and Revisions, and the stored object carried a request time wherever it
  carried a requester. A merge patch applies to the object the server holds.\<close>

definition stamps_ok :: "lib \<Rightarrow> strmap \<Rightarrow> bool" where
  "stamps_ok L m \<longleftrightarrow> get_str m RollbackRequestedByAnnotation = [] \<or>
     (\<exists>t. ParseRFC3339 L (get_str m RollbackRequestedAtAnnotation) = Some t)"

definition admitted :: "lib \<Rightarrow> codec \<Rightarrow> application \<Rightarrow> application \<Rightarrow> bool" where
  "admitted L J obj a \<longleftrightarrow> (\<exists>get now req a0. 0 \<le> now \<and> now < year_10000 \<and> stamps_ok L (stored req) \<and>
     Default L J get now (Inr req) obj = Inr a0 \<and> app_Annotations a = app_Annotations a0 \<and>
     app_Spec a = app_Spec a0 \<and> app_Name a = app_Name a0 \<and> app_Namespace a = app_Namespace a0)"

definition patch_law :: "lib \<Rightarrow> codec \<Rightarrow> cli_client \<Rightarrow> bool" where
  "patch_law L J c \<longleftrightarrow> (\<forall>app m a. cc_Patch c app m = Inr a \<longrightarrow>
     (\<exists>old. app_Name old = app_Name app \<and> app_Namespace old = app_Namespace app \<and>
        admitted L J (set_annotations (app_Annotations old ++ m) old) a))"

definition update_law :: "lib \<Rightarrow> codec \<Rightarrow> cli_client \<Rightarrow> bool" where
  "update_law L J c \<longleftrightarrow> (\<forall>app a. cc_Update c app = Inr a \<longrightarrow> admitted L J app a)"

lemma Default_keeps:
  assumes "Default L J get now (Inr req) obj = Inr a"
    and "k \<notin> set rollbackRecord" "k \<notin> set approvalRecord" "k \<noteq> ApproveDigestAnnotation"
  shows "app_Annotations a k = app_Annotations obj k"
  using assms(1)
proof (cases rule: Default_cases)
  case (1 m)
  then show ?thesis using record_rollback_cases [OF 1(1)] assms(2-4) by (simp add: restore_keys_apply)
next
  case (2 m)
  then show ?thesis using record_rollback_cases [OF 2(1)] assms(2-4) by simp
next
  case (3 m r)
  then show ?thesis using record_rollback_cases [OF 3(1)] assms(2-4) by simp
qed

lemma record_stamps:
  assumes "rfc3339_law L" "0 \<le> now" "now < year_10000" "stamps_ok L old"
    and "recordRollbackRequester L J get now user obj old m = Inr m'"
  shows "stamps_ok L m'"
proof -
  have parsed: "ParseRFC3339 L (FormatRFC3339 L now) = Some (now - now mod second)"
    using assms(1-3) by (simp add: rfc3339_law_def)
  show ?thesis using record_rollback_cases [OF assms(5)] assms(4) parsed
    by (auto simp: stamps_ok_def get_str_def stamped_rollback_def rollbackRecord_def)
qed

lemma Default_stamps:
  assumes "rfc3339_law L" "0 \<le> now" "now < year_10000" "stamps_ok L (stored req)"
    and "Default L J get now (Inr req) obj = Inr a"
  shows "stamps_ok L (app_Annotations a)"
  using assms(5)
proof (cases rule: Default_cases)
  case (1 m)
  then show ?thesis using record_stamps [OF assms(1-4) 1(1)] by (simp add: stamps_ok_def get_str_def restore_keys_apply)
next
  case (2 m)
  then show ?thesis using record_stamps [OF assms(1-4) 2(1)] by (simp add: stamps_ok_def get_str_def)
next
  case (3 m r)
  then show ?thesis using record_stamps [OF assms(1-4) 3(1)] by (simp add: stamps_ok_def get_str_def)
qed

lemma manualApproval_cong:
  "app_Annotations a = app_Annotations b \<Longrightarrow> manualApproval L a r rollout = manualApproval L b r rollout"
  by (simp add: manualApproval_def)

lemma admitted_digest_user:
  assumes "Default L J get now (Inr req) obj = Inr a" "app_Annotations obj ApproveDigestAnnotation = Some d"
  shows "ui_Username (ar_UserInfo req) \<noteq> []"
  using assms(1)
proof (cases rule: Default_cases)
  case (1 m)
  then show ?thesis using record_rollback_cases [OF 1(1)] assms(2) by simp
next
  case (2 m)
  then show ?thesis using record_rollback_cases [OF 2(1)] assms(2) by simp
next
  case (3 m r)
  then show ?thesis by (simp add: authenticated_def)
qed

lemma approve_succeeds:
  assumes "approve L c ns name revisionName = (out, Inr a)"
  obtains app shown where "cc_Application c ns name = Inr app" "cc_Revision c ns revisionName = Inr shown"
    "rev_ApplicationRef shown = app_Name app" "\<not> rolledBack L shown" "rev_PlanDigest shown \<noteq> []"
    "cc_Patch c app (approval_patch shown) = Inr a"
    "out = say (''approving '' @ rev_Name shown @ '' for '' @ app_Name app @ '' with plan digest '' @ rev_PlanDigest shown)
       @ say (''approved '' @ rev_Name shown @ '' for '' @ app_Name a)"
  using assms by (auto simp: approve_def Let_def split: sum.splits if_splits)

lemma rollback_succeeds:
  assumes "rollback L J c ns name revisionName = (out, Inr (a, r))"
  obtains app frm where "cc_Application c ns name = Inr app" "frm = rollback_from app" "frm \<noteq> []"
    "rev_ApplicationRef r = app_Name app" "rev_SourceRevision r \<noteq> frm \<or> rolledBack L r"
    "cc_Update c (request_rollback app r frm) = Inr a"
    "\<exists>before after. out = before @ say (rollbackOutcome L J a r ns) @ after"
proof -
  obtain app where app: "cc_Application c ns name = Inr app"
    using assms by (auto simp: rollback_def split: sum.splits)
  let ?from = "rollback_from app"
  have r: "?from \<noteq> []" "rev_ApplicationRef r = app_Name app" "rev_SourceRevision r \<noteq> ?from \<or> rolledBack L r"
    "cc_Update c (request_rollback app r ?from) = Inr a"
    using assms app by (auto simp: rollback_def Let_def split: sum.splits if_splits)
  have "out = rollback_report L J a r ns ?from"
    using assms app by (auto simp: rollback_def Let_def split: sum.splits if_splits)
  then have "\<exists>x y. out = x @ say (rollbackOutcome L J a r ns) @ y" unfolding rollback_report_def by blast
  then show thesis using that [OF app refl r] by blast
qed

subsection \<open>Properties\<close>

text \<open>C5. What the approver was shown is what is approved, end to end: when \<open>ksync sync\<close> succeeds, it printed the plan
  digest of a Revision of this Application that no rollback replaced. Whatever changed meanwhile, and in every state of
  a rollout, the stored approval is accepted for no other Revision and for none a rollback holds; for that Revision
  it is accepted under one named user while the plan has the printed digest. For a plan with another digest it is stale,
  with one exception, the code's own: while a rollout is in progress, the approval the Revision recorded when it
  started goes on to count, provided it is of the printed digest by the same user and the desired state is still the same.\<close>

theorem sync_approves_what_was_shown:
  assumes "rfc3339_law L" "patch_law L J c"
    and "approve L c ns name revisionName = (out, Inr a)"
  shows "\<exists>app shown user t. cc_Application c ns name = Inr app \<and> cc_Revision c ns revisionName = Inr shown \<and>
    rev_ApplicationRef shown = app_Name app \<and> \<not> rolledBack L shown \<and> rev_PlanDigest shown \<noteq> [] \<and> user \<noteq> [] \<and>
    out = say (''approving '' @ rev_Name shown @ '' for '' @ app_Name app @ '' with plan digest '' @ rev_PlanDigest shown)
      @ say (''approved '' @ rev_Name shown @ '' for '' @ app_Name a) \<and>
    (\<forall>r rollout. manualApproval L a r rollout =
       (if rev_Name r \<noteq> rev_Name shown \<or> heldBy L r \<noteq> None then (None, False)
        else if rev_PlanDigest r = rev_PlanDigest shown then
          (Some \<lparr>appr_ApprovedBy = user, appr_ApprovedAt = t, appr_PlanDigest = rev_PlanDigest shown,
                 appr_DesiredStateHash = rev_DesiredStateHash r\<rparr>, False)
        else (carried_on user (rev_PlanDigest shown) rollout r, carried_on user (rev_PlanDigest shown) rollout r = None)))"
proof -
  obtain app shown where shown: "cc_Application c ns name = Inr app" "cc_Revision c ns revisionName = Inr shown"
    "rev_ApplicationRef shown = app_Name app" "\<not> rolledBack L shown" "rev_PlanDigest shown \<noteq> []"
    "cc_Patch c app (approval_patch shown) = Inr a"
    "out = say (''approving '' @ rev_Name shown @ '' for '' @ app_Name app @ '' with plan digest '' @ rev_PlanDigest shown)
       @ say (''approved '' @ rev_Name shown @ '' for '' @ app_Name a)"
    using approve_succeeds [OF assms(3)] .
  obtain old get now req a0 where adm: "0 \<le> now" "now < year_10000"
    "Default L J get now (Inr req) (set_annotations (app_Annotations old ++ approval_patch shown) old) = Inr a0"
    "app_Annotations a = app_Annotations a0"
    using assms(2) shown(6) unfolding patch_law_def admitted_def by blast
  let ?obj = "set_annotations (app_Annotations old ++ approval_patch shown) old"
  have sent: "app_Annotations ?obj ApproveDigestAnnotation = Some (rev_PlanDigest shown)"
    "app_Annotations ?obj ApprovedRevisionAnnotation = Some (rev_Name shown)"
    by (simp_all add: approval_patch_def)
  have name: "get_str (app_Annotations a0) ApprovedRevisionAnnotation = rev_Name shown"
    using Default_keeps [OF adm(3), of ApprovedRevisionAnnotation] sent(2) by (simp add: get_str_def)
  have "manualApproval L a r rollout =
      (if rev_Name r \<noteq> rev_Name shown \<or> heldBy L r \<noteq> None then (None, False)
       else if rev_PlanDigest r = rev_PlanDigest shown then
         (Some \<lparr>appr_ApprovedBy = ui_Username (ar_UserInfo req), appr_ApprovedAt = now - now mod second,
                appr_PlanDigest = rev_PlanDigest shown, appr_DesiredStateHash = rev_DesiredStateHash r\<rparr>, False)
       else (carried_on (ui_Username (ar_UserInfo req)) (rev_PlanDigest shown) rollout r,
             carried_on (ui_Username (ar_UserInfo req)) (rev_PlanDigest shown) rollout r = None))" for r rollout
    unfolding manualApproval_cong [OF adm(4)] admitted_approval_exact [OF assms(1) adm(1-3) sent(1)] name by (rule refl)
  then show ?thesis using shown admitted_digest_user [OF adm(3) sent(1)] by blast
qed

text \<open>What the controller does with the plan of the Revision at hand, once conflicts and dependencies allow it:
  it walks the groups with the given approval recorded, or it waits for an approval.\<close>

definition deploys :: "'w api \<Rightarrow> lib \<Rightarrow> codec \<Rightarrow> attempt \<Rightarrow> planned_revision_state \<Rightarrow> 'w ctl \<Rightarrow> revision_approval option \<Rightarrow> bool" where
  "deploys E L J att pd s approval \<longleftrightarrow>
     (\<exists>s'. rstatus_Approval (rev_Status (c_rev s')) = approval \<and> rev_Name (c_rev s') = rev_Name (c_rev s) \<and>
       act_approved E L J att pd s = applyAndObserve E L (at_hold att) (pd_rendered pd) (rollout_progress_of att pd) s')"

definition awaits_approval :: "'w api \<Rightarrow> lib \<Rightarrow> codec \<Rightarrow> attempt \<Rightarrow> planned_revision_state \<Rightarrow> 'w ctl \<Rightarrow> bool" where
  "awaits_approval E L J att pd s \<longleftrightarrow>
     (\<exists>stale s'. c_rev s' = c_rev s \<and>
       act_approved E L J att pd s = ends (awaitApproval E L (at_hold att) (at_previousPhase att) stale s'))"

lemma act_approved_outcome:
  fixes E :: "'w api" and L :: lib and J :: codec and att :: attempt and s :: "'w ctl"
  defines "approval \<equiv> fst (rolloutApproval L J (c_app s) (c_rev s) (at_request att) (at_rollout att))"
  shows "sync_Automatic (aspec_Sync (app_Spec (c_app s))) \<Longrightarrow> deploys E L J att pd s (rstatus_Approval (rev_Status (c_rev s)))"
    "\<not> sync_Automatic (aspec_Sync (app_Spec (c_app s))) \<Longrightarrow> approval \<noteq> None \<Longrightarrow> deploys E L J att pd s approval"
    "\<not> sync_Automatic (aspec_Sync (app_Spec (c_app s))) \<Longrightarrow> approval = None \<Longrightarrow> awaits_approval E L J att pd s"
proof -
  obtain s1 given stale where a: "ask_approval E L J att s = (s1, given, stale)" by (cases "ask_approval E L J att s")
  have s1: "given = approval" "c_app s1 = c_app s" "c_rev s1 = c_rev s"
    using ask_approval_keeps [OF a] c_rev_asking [of E L J att s] a by (simp_all add: approval_def)
  let ?on = "\<lambda>s. if at_rollout att = rolloutComplete
    then s\<lparr>c_rev := upd_rstatus (\<lambda>st. st\<lparr>rstatus_StartedAt := Some (at_now att)\<rparr>) (c_rev s)\<rparr> else s"
  show "deploys E L J att pd s (rstatus_Approval (rev_Status (c_rev s)))" if "sync_Automatic (aspec_Sync (app_Spec (c_app s)))"
    unfolding deploys_def using a s1 that by (intro exI [of _ "?on s1"]) (simp add: act_approved_def Let_def)
  show "deploys E L J att pd s approval" if "\<not> sync_Automatic (aspec_Sync (app_Spec (c_app s)))" "approval \<noteq> None"
    unfolding deploys_def using a s1 that
    by (intro exI [of _ "?on (record_approval given s1)"]) (auto simp: act_approved_def record_approval_def Let_def)
  show "awaits_approval E L J att pd s" if "\<not> sync_Automatic (aspec_Sync (app_Spec (c_app s)))" "approval = None"
    unfolding awaits_approval_def using a s1 that by (intro exI [of _ stale] exI [of _ s1]) (simp add: act_approved_def)
qed

text \<open>The account the CLI takes the name from is the one the controller uses.\<close>

lemma rebuiltName_planned:
  assumes "aspec_ServiceAccountName (app_Spec a) \<noteq> [] \<or> astatus_ServiceAccountName (app_Status a) = account"
    and "effectiveServiceAccount a account \<noteq> []"
    and "For L J a (rev_SourceRevision r) (effectiveServiceAccount a account) = Some (n, hash)"
  shows "rebuiltName L J a r = (n, n = rev_Name r)"
  using assms by (auto simp: rebuiltName_def effectiveServiceAccount_def Let_def)

text \<open>On manual sync, and with no approval of the plan, the request alone decides.\<close>

lemma manual_gate:
  assumes "\<not> sync_Automatic (aspec_Sync (app_Spec a))" "fst (manualApproval L a r rollout) = None"
  shows "fst (rolloutApproval L J a r req rollout) = fst (rollbackApproval L J a req r rollout)"
  using assms
  by (cases "manualApproval L a r rollout"; cases "rollbackApproval L J a req r rollout")
    (simp add: rolloutApproval_def Let_def split: option.split)

text \<open>What a recorded manual request is worth for the planned Revision.\<close>

lemma request_worth:
  assumes "active req" "\<not> automatic req" "rev_SourceRevision r = req_target req" "heldBy L r = None" "rev_PlanDigest r \<noteq> []"
    and "get_str (app_Annotations a) RollbackTargetRevisionAnnotation \<noteq> []" "stamps_ok L (app_Annotations a)"
  shows "case fst (rollbackApproval L J a req r rollout) of
      None \<Rightarrow> get_str (app_Annotations a) RollbackRequestedByAnnotation = []
        \<or> get_str (app_Annotations a) RollbackTargetHashAnnotation = []
        \<or> rev_Name r \<noteq> get_str (app_Annotations a) RollbackTargetRevisionAnnotation
        \<or> Binding L J (rev_DesiredStateHash r) a \<noteq> get_str (app_Annotations a) RollbackTargetHashAnnotation
    | Some ap \<Rightarrow> appr_ApprovedBy ap = get_str (app_Annotations a) RollbackRequestedByAnnotation
        \<and> appr_DesiredStateHash ap = rev_DesiredStateHash r
        \<and> get_str (app_Annotations a) RollbackRequestedByAnnotation \<noteq> []
        \<and> get_str (app_Annotations a) RollbackTargetHashAnnotation \<noteq> []
        \<and> rev_Name r = get_str (app_Annotations a) RollbackTargetRevisionAnnotation
        \<and> Binding L J (rev_DesiredStateHash r) a = get_str (app_Annotations a) RollbackTargetHashAnnotation"
  using assms by (auto simp: rollbackApproval_def stamps_ok_def Let_def split: option.split)

text \<open>What a successful \<open>ksync rollback\<close> leaves on the Application, after the webhook.\<close>

lemma recorded_request:
  assumes "rfc3339_law L" "update_law L J c"
    and "rollback L J c ns name revisionName = (out, Inr (a, r))"
    and "TrimSpace (rev_SourceRevision r) = rev_SourceRevision r" "rev_SourceRevision r \<noteq> []"
  shows "\<exists>before after. out = before @ say (rollbackOutcome L J a r ns) @ after"
    "get_str (app_Annotations a) RollbackTargetRevisionAnnotation = rev_Name r" "stamps_ok L (app_Annotations a)"
    "req_target (rollbackRequestOf a) = rev_SourceRevision r" "active (rollbackRequestOf a)"
    "\<not> automatic (rollbackRequestOf a)"
proof -
  obtain app frm where app: "cc_Update c (request_rollback app r frm) = Inr a"
    and out: "\<exists>before after. out = before @ say (rollbackOutcome L J a r ns) @ after"
    using rollback_succeeds [OF assms(3)] by metis
  obtain get now req a0 where adm: "0 \<le> now" "now < year_10000" "stamps_ok L (stored req)"
    "Default L J get now (Inr req) (request_rollback app r frm) = Inr a0" "app_Annotations a = app_Annotations a0"
    using assms(2) app unfolding update_law_def admitted_def by blast
  have ann: "get_str (app_Annotations a) RollbackRevisionAnnotation = rev_SourceRevision r"
    "get_str (app_Annotations a) RollbackKindAnnotation = RollbackKindManual"
    "get_str (app_Annotations a) RollbackTargetRevisionAnnotation = rev_Name r"
    using Default_keeps [OF adm(4)] by (simp_all add: adm(5) get_str_def request_rollback_def)
  show "stamps_ok L (app_Annotations a)" using Default_stamps [OF assms(1) adm(1-4)] adm(5) by simp
  show "req_target (rollbackRequestOf a) = rev_SourceRevision r" "active (rollbackRequestOf a)"
    "\<not> automatic (rollbackRequestOf a)"
    using assms(4,5) by (simp_all add: rollbackRequestOf_def active_def automatic_def ann
        RollbackKindManual_def RollbackKindAutomatic_def)
  show "\<exists>before after. out = before @ say (rollbackOutcome L J a r ns) @ after"
    "get_str (app_Annotations a) RollbackTargetRevisionAnnotation = rev_Name r"
    by (fact out, fact ann(3))
qed

text \<open>C39. What \<open>ksync rollback\<close> prints is what the controller does. When the request was recorded through the admission
  webhook and the controller has planned the Revision that \<open>ensureRevision\<close> names for the target's commit, not
  held, with a plan that has a digest, with the desired state the target once deployed, and not
  approved in any other way, the printed sentence is true, whatever the state of the rollout: that the spec changed and
  a new Revision of the printed name is planned, which deploys or awaits approval; that the request deploys the target;
  that it approves and deploys it as the printed user, whose approval is then the one recorded; or that the target
  awaits an approval. The service account must be known to the CLI: named in the spec, or recorded in the status as the
  controller's default.\<close>

theorem rollback_outcome_truthful:
  assumes "rfc3339_law L" "update_law L J c"
    and "rollback L J c ns name revisionName = (out, Inr (a, r))"
    and "TrimSpace (rev_SourceRevision r) = rev_SourceRevision r" "rev_SourceRevision r \<noteq> []" "rev_Name r \<noteq> []"
    and "aspec_ServiceAccountName (app_Spec a) \<noteq> [] \<or> astatus_ServiceAccountName (app_Status a) = ct_DefaultServiceAccount E"
    and "effectiveServiceAccount a (ct_DefaultServiceAccount E) \<noteq> []"
    and "c_app s = upd_status f a" "at_request att = rollbackRequestOf a"
    and "For L J a (rev_SourceRevision r) (effectiveServiceAccount a (ct_DefaultServiceAccount E)) = Some (rev_Name (c_rev s), hash)"
    and "rev_SourceRevision (c_rev s) = rev_SourceRevision r" "heldBy L (c_rev s) = None" "rev_PlanDigest (c_rev s) \<noteq> []"
    and "rev_DesiredStateHash (c_rev s) = rstatus_DeployedDesiredStateHash (rev_Status r)"
    and "fst (manualApproval L a (c_rev s) (at_rollout att)) = None"
  shows "(\<exists>before after. out = before @ say (outcome_text a r ns (outcome_of L J a r)) @ after) \<and>
    (case outcome_of L J a r of
       PlansNew n \<Rightarrow> rev_Name (c_rev s) = n \<and> n \<noteq> rev_Name r \<and>
         (if sync_Automatic (aspec_Sync (app_Spec a)) then deploys E L J att pd s (rstatus_Approval (rev_Status (c_rev s)))
          else awaits_approval E L J att pd s)
     | DeploysIt \<Rightarrow> rev_Name (c_rev s) = rev_Name r \<and> deploys E L J att pd s (rstatus_Approval (rev_Status (c_rev s)))
     | ApprovesAs user \<Rightarrow> rev_Name (c_rev s) = rev_Name r \<and>
         (\<exists>ap. appr_ApprovedBy ap = user \<and> appr_DesiredStateHash ap = rev_DesiredStateHash (c_rev s) \<and>
            deploys E L J att pd s (Some ap))
     | _ \<Rightarrow> rev_Name (c_rev s) = rev_Name r \<and> awaits_approval E L J att pd s)"
proof -
  note request = recorded_request [OF assms(1-5)]
  have bound: "Binding L J (rev_DesiredStateHash (c_rev s)) a = RollbackBinding L J r a"
    by (simp add: RollbackBinding_def assms(15))
  define by_request where "by_request = fst (rollbackApproval L J a (rollbackRequestOf a) (c_rev s) (at_rollout att))"
  have worth: "case by_request of
      None \<Rightarrow> get_str (app_Annotations a) RollbackRequestedByAnnotation = []
        \<or> get_str (app_Annotations a) RollbackTargetHashAnnotation = [] \<or> rev_Name (c_rev s) \<noteq> rev_Name r
        \<or> get_str (app_Annotations a) RollbackTargetHashAnnotation \<noteq> RollbackBinding L J r a
    | Some ap \<Rightarrow> appr_ApprovedBy ap = get_str (app_Annotations a) RollbackRequestedByAnnotation
        \<and> appr_DesiredStateHash ap = rev_DesiredStateHash (c_rev s)
        \<and> get_str (app_Annotations a) RollbackRequestedByAnnotation \<noteq> []
        \<and> get_str (app_Annotations a) RollbackTargetHashAnnotation \<noteq> [] \<and> rev_Name (c_rev s) = rev_Name r
        \<and> get_str (app_Annotations a) RollbackTargetHashAnnotation = RollbackBinding L J r a"
    using request_worth [OF request(5,6), of "c_rev s" L a J "at_rollout att"] assms(6,12-14) request(3)
    by (auto simp: by_request_def request(2,4) bound split: option.splits)
  have gate: "fst (rolloutApproval L J (c_app s) (c_rev s) (at_request att) (at_rollout att)) = by_request"
    if "\<not> sync_Automatic (aspec_Sync (app_Spec a))"
    using manual_gate [OF that assms(16)] by (simp add: assms(9,10) by_request_def)
  have spec: "app_Spec (c_app s) = app_Spec a" by (simp add: assms(9))
  note act = act_approved_outcome [where s = s and E = E and L = L and J = J and att = att and pd = pd, unfolded spec]
  have "case outcome_of L J a r of
       PlansNew n \<Rightarrow> rev_Name (c_rev s) = n \<and> n \<noteq> rev_Name r \<and>
         (if sync_Automatic (aspec_Sync (app_Spec a)) then deploys E L J att pd s (rstatus_Approval (rev_Status (c_rev s)))
          else awaits_approval E L J att pd s)
     | DeploysIt \<Rightarrow> rev_Name (c_rev s) = rev_Name r \<and> deploys E L J att pd s (rstatus_Approval (rev_Status (c_rev s)))
     | ApprovesAs user \<Rightarrow> rev_Name (c_rev s) = rev_Name r \<and>
         (\<exists>ap. appr_ApprovedBy ap = user \<and> appr_DesiredStateHash ap = rev_DesiredStateHash (c_rev s) \<and>
            deploys E L J att pd s (Some ap))
     | _ \<Rightarrow> rev_Name (c_rev s) = rev_Name r \<and> awaits_approval E L J att pd s"
  proof (cases "sync_Automatic (aspec_Sync (app_Spec a))")
    case True
    then show ?thesis using act(1) rebuiltName_planned [OF assms(7,8,11)] by (simp add: outcome_of_def Let_def)
  next
    case False
    show ?thesis
      using worth act(2,3) [OF False] False rebuiltName_planned [OF assms(7,8,11)] unfolding gate [OF False]
      by (cases by_request) (auto simp: outcome_of_def Let_def)
  qed
  then show ?thesis using request(1) by (simp add: rollbackOutcome_def)
qed

text \<open>C40. The command a reader is told to run is the approval it announces: split at its spaces and run, with the
  names free of spaces and the Application's not a flag, the printed approval command approves exactly the
  named Revision of the named Application in that namespace, and its exit code says whether that
  succeeded.\<close>

theorem printed_approval_runs:
  assumes "CHR '' '' \<notin> set app" "CHR '' '' \<notin> set ns" "CHR '' '' \<notin> set r" "plain_word app" "r \<noteq> []"
    and "ce_Client env = Inr c"
  shows "Run L J env (tl (Split (CHR '' '') (approveCommand app ns given r))) =
    (True, if snd (done_with (approve L c ns app r)) = None then 0 else 1, done_with (approve L c ns app r))"
proof -
  let ?items = "approve_items app ns given r"
  have items: "list_all (item_ok (newFlagSet @ [''revision''])) ?items"
    using assms(4) by (simp add: approve_items_def newFlagSet_def takes_value_def flag_name_def)
  have "parse_args [''revision''] (concat (map item_args ?items)) = Inr (item_options ?items, item_words ?items)"
    by (rule parse_items [OF items])
  moreover have "item_words ?items = [app]" by (simp add: approve_items_def)
  moreover have "namespace_of (item_options ?items) = ns" "flag_value [''revision''] [] (item_options ?items) = r"
    by (auto simp: approve_items_def namespace_of_def newFlagSet_def flag_value_def flag_name_def)
  ultimately have "runSync L env (concat (map item_args ?items)) = done_with (approve L c ns app r)"
    using assms(5,6) by (simp add: runSync_def with_args_def)
  then show ?thesis
    by (simp add: approveCommand_words [OF assms(1-3)] Run_def Let_def del: concat.simps)
qed

text \<open>\<open>ksync history\<close> registers \<open>--output\<close> beside \<open>-o\<close>, but \<open>interspersedFlags\<close> does not know it: after the
  Application's name it is taken for an argument and the command is refused.\<close>

lemma history_output_after_name_refused:
  "runHistory env [''shop'', ''--output'', ''json'']
     = cli_fails (UsageError ''usage: ksync history <application> [-n namespace] [-o table|json]'')"
proof -
  have "parse_args [''output'', ''o''] [''shop'', ''--output'', ''json''] = Inr ([], [''shop'', ''--output'', ''json''])"
    by code_simp
  then show ?thesis by (simp add: runHistory_def with_args_def)
qed

subsection \<open>Witnesses\<close>

text \<open>A server behind the webhook, at a fixed time and for one user, that holds one Application and one Revision.\<close>

definition deployed_revision :: revision where
  "deployed_revision = upd_rstatus (\<lambda>st. st\<lparr>rstatus_DeployedDesiredStateHash := ''h1''\<rparr>) planned_revision"

definition stored_shop :: application where
  "stored_shop = named_application ''web'' ''shop''"

definition webhook_admit :: "revision \<Rightarrow> application \<Rightarrow> api_error + application" where
  "webhook_admit r obj = (case Default std_lib sample_codec (\<lambda>ns n. Inr r) (9 * second) (Inr approve_request) obj of
       Inl _ \<Rightarrow> Inl (Other_Error ''denied'') | Inr a \<Rightarrow> Inr a)"

definition admitting_client :: "application \<Rightarrow> revision \<Rightarrow> cli_client" where
  "admitting_client app r = (shop_client [r] app)
     \<lparr>cc_Patch := (\<lambda>x m. if app_Name x = app_Name app \<and> app_Namespace x = app_Namespace app
         then webhook_admit r (set_annotations (app_Annotations app ++ m) app) else Inl (NotFound [])),
      cc_Update := webhook_admit r\<rparr>"

lemma webhook_admit_admitted: "webhook_admit r obj = Inr a \<Longrightarrow> admitted std_lib sample_codec obj a"
proof -
  assume "webhook_admit r obj = Inr a"
  then have "Default std_lib sample_codec (\<lambda>ns n. Inr r) (9 * second) (Inr approve_request) obj = Inr a"
    by (auto simp: webhook_admit_def split: sum.splits)
  moreover have "0 \<le> 9 * second" "9 * second < year_10000" by (simp_all add: second_def year_10000_def)
  moreover have "stamps_ok std_lib (stored approve_request)"
    by (simp add: stamps_ok_def stored_def approve_request_def get_str_def zero_values)
  ultimately show ?thesis unfolding admitted_def by blast
qed

lemma admitting_laws:
  "patch_law std_lib sample_codec (admitting_client app r)" "update_law std_lib sample_codec (admitting_client app r)"
  unfolding patch_law_def update_law_def admitting_client_def
  by (fastforce split: if_splits dest: webhook_admit_admitted) (simp add: webhook_admit_admitted)

lemma shop_approves:
  "\<exists>out. approve std_lib (admitting_client stored_shop planned_revision) ''web'' ''shop'' ''shop-1'' = (out, Inr approved)"
proof -
  have r: "rev_Name planned_revision = ''shop-1''" "rev_ApplicationRef planned_revision = ''shop''"
    "rev_PlanDigest planned_revision = ''d1''" "\<not> rolledBack std_lib planned_revision"
    by code_simp+
  have "app_Name stored_shop = ''shop''" "app_Annotations stored_shop = Map.empty" by (simp_all add: stored_shop_def zero_values)
  moreover have "set_annotations (Map.empty ++ approval_patch planned_revision) stored_shop = approving"
    by (simp add: approval_patch_def r approving_def stored_shop_def)
  ultimately show ?thesis
    using approving_admitted by (simp add: approve_def admitting_client_def shop_client_def webhook_admit_def r Let_def)
qed

theorem sync_approves_what_was_shown_witness:
  "patch_law std_lib sample_codec (admitting_client stored_shop planned_revision) \<and>
   (\<exists>user t. user \<noteq> [] \<and> manualApproval std_lib approved planned_revision rolloutNotStarted =
      (Some \<lparr>appr_ApprovedBy = user, appr_ApprovedAt = t, appr_PlanDigest = ''d1'', appr_DesiredStateHash = ''h1''\<rparr>, False))"
proof
  let ?c = "admitting_client stored_shop planned_revision"
  show law: "patch_law std_lib sample_codec ?c" by (rule admitting_laws)
  obtain out where run: "approve std_lib ?c ''web'' ''shop'' ''shop-1'' = (out, Inr approved)" using shop_approves by blast
  have r: "rev_Name planned_revision = ''shop-1''" "rev_PlanDigest planned_revision = ''d1''"
    "heldBy std_lib planned_revision = None" "rev_DesiredStateHash planned_revision = ''h1''"
    by code_simp+
  have "cc_Revision ?c ''web'' ''shop-1'' = Inr planned_revision"
    using r(1) by (simp add: admitting_client_def shop_client_def)
  then show "\<exists>user t. user \<noteq> [] \<and> manualApproval std_lib approved planned_revision rolloutNotStarted =
      (Some \<lparr>appr_ApprovedBy = user, appr_ApprovedAt = t, appr_PlanDigest = ''d1'', appr_DesiredStateHash = ''h1''\<rparr>, False)"
    using sync_approves_what_was_shown [OF std_rfc3339_law law run] r by fastforce
qed

definition desired_shop :: application where
  "desired_shop = upd_status (\<lambda>st. st\<lparr>astatus_DesiredRevision := ''c2'', astatus_ServiceAccountName := ''deployer''\<rparr>) stored_shop"

definition recorded_shop :: application where
  "recorded_shop = set_annotations [RollbackRevisionAnnotation \<mapsto> ''c1'', RollbackFromAnnotation \<mapsto> ''c2'',
     RollbackKindAnnotation \<mapsto> RollbackKindManual, RollbackTargetRevisionAnnotation \<mapsto> ''shop-1'',
     RollbackRequestedByAnnotation \<mapsto> ''alice'', RollbackRequestedAtAnnotation \<mapsto> FormatRFC3339 std_lib (9 * second),
     RollbackTargetHashAnnotation \<mapsto> ''h1''] desired_shop"

lemma rollback_recorded:
  "Default std_lib sample_codec (\<lambda>ns n. Inr deployed_revision) (9 * second) (Inr approve_request)
     (request_rollback desired_shop deployed_revision ''c2'') = Inr recorded_shop"
proof -
  let ?obj = "request_rollback desired_shop deployed_revision ''c2''"
  have r: "rev_Name deployed_revision = ''shop-1''" "rev_ApplicationRef deployed_revision = ''shop''"
    "rev_SourceRevision deployed_revision = ''c1''" by code_simp+
  have shop: "app_Annotations desired_shop = Map.empty" "app_Name desired_shop = ''shop''"
    by (simp_all add: desired_shop_def stored_shop_def zero_values)
  have ann: "app_Annotations ?obj = [RollbackRevisionAnnotation \<mapsto> ''c1'', RollbackFromAnnotation \<mapsto> ''c2'',
      RollbackKindAnnotation \<mapsto> RollbackKindManual, RollbackTargetRevisionAnnotation \<mapsto> ''shop-1'']"
    by (simp add: request_rollback_def r shop)
  have trims: "TrimSpace ''c1'' = ''c1''" "TrimSpace ''shop-1'' = ''shop-1''" "TrimSpace [] = []" by code_simp+
  have hash: "RollbackBinding std_lib sample_codec deployed_revision ?obj = ''h1''" by code_simp
  have chosen: "chosen_hash std_lib sample_codec (\<lambda>ns n. Inr deployed_revision) ?obj ''shop-1'' ''c1'' = Inr ''h1''"
    by (simp add: chosen_hash_def r hash) (simp add: request_rollback_def shop)
  have changed: "rollback_changed Map.empty (app_Annotations ?obj)"
    by (simp add: rollback_changed_def ann get_str_def trims)
  have user: "authenticated Webhook.alice" "ui_Username Webhook.alice = ''alice''" by code_simp+
  have rec: "recordRollbackRequester std_lib sample_codec (\<lambda>ns n. Inr deployed_revision) (9 * second) Webhook.alice ?obj
      Map.empty (app_Annotations ?obj) = Inr (app_Annotations recorded_shop)"
  proof -
    have "(delete_keys (app_Annotations ?obj) rollbackRecord)
        (RollbackRequestedByAnnotation \<mapsto> ''alice'', RollbackRequestedAtAnnotation \<mapsto> FormatRFC3339 std_lib (9 * second),
         RollbackTargetHashAnnotation \<mapsto> ''h1'') = app_Annotations recorded_shop"
      by (rule ext) (simp add: ann recorded_shop_def)
    then show ?thesis
      using changed chosen user by (simp add: recordRollbackRequester_def Let_def) (simp add: ann get_str_def trims)
  qed
  have kept: "set_annotations (restore_keys approvalRecord Map.empty (delete_key (app_Annotations recorded_shop) ApproveDigestAnnotation)) ?obj
      = recorded_shop"
  proof -
    have "restore_keys approvalRecord Map.empty (delete_key (app_Annotations recorded_shop) ApproveDigestAnnotation)
        = app_Annotations recorded_shop"
      by (rule ext) (simp add: restore_keys_apply recorded_shop_def)
    then show ?thesis by (simp add: recorded_shop_def request_rollback_def set_annotations_def)
  qed
  have "app_Annotations recorded_shop ApproveDigestAnnotation = None"
    "get_str (delete_key (app_Annotations recorded_shop) ApproveDigestAnnotation) ApprovedRevisionAnnotation = []"
    by (simp_all add: recorded_shop_def get_str_def)
  moreover have "app_Annotations (named_application ''web'' ''shop'') = Map.empty" by (simp add: zero_values)
  ultimately show ?thesis using rec kept by (simp add: Default_def approve_request_def Let_def)
qed

lemma shop_rolls_back:
  "\<exists>out. rollback std_lib sample_codec (admitting_client desired_shop deployed_revision) ''web'' ''shop'' ''shop-1''
     = (out, Inr (recorded_shop, deployed_revision))"
proof -
  have r: "rev_Name deployed_revision = ''shop-1''" "rev_ApplicationRef deployed_revision = ''shop''"
    "rev_SourceRevision deployed_revision = ''c1''" "\<not> rolledBack std_lib deployed_revision" by code_simp+
  have "app_Name desired_shop = ''shop''" "rollback_from desired_shop = ''c2''"
    by (simp_all add: desired_shop_def stored_shop_def rollback_from_def zero_values)
  then show ?thesis
    using rollback_recorded
    by (simp add: rollback_def rollback_target_def admitting_client_def shop_client_def webhook_admit_def r Let_def)
qed

text \<open>The controller has planned the chosen Revision again.\<close>

definition rollback_ctl :: "unit ctl" where
  "rollback_ctl = \<lparr>c_app = recorded_shop, c_rev = deployed_revision, c_world = ()\<rparr>"

definition rollback_attempt :: attempt where
  "rollback_attempt = first_attempt\<lparr>at_request := rollbackRequestOf recorded_shop\<rparr>"

theorem rollback_outcome_truthful_witness:
  "update_law std_lib sample_codec (admitting_client desired_shop deployed_revision) \<and>
   outcome_of std_lib sample_codec recorded_shop deployed_revision = ApprovesAs ''alice'' \<and>
   (\<exists>ap. appr_ApprovedBy ap = ''alice'' \<and> appr_DesiredStateHash ap = ''h1'' \<and>
      deploys (calm_api []) std_lib sample_codec rollback_attempt first_planned rollback_ctl (Some ap))"
proof (intro conjI)
  let ?c = "admitting_client desired_shop deployed_revision"
  show law: "update_law std_lib sample_codec ?c" by (rule admitting_laws)
  show oc: "outcome_of std_lib sample_codec recorded_shop deployed_revision = ApprovesAs ''alice''" by code_simp
  have r: "rev_Name deployed_revision = ''shop-1''" "rev_SourceRevision deployed_revision = ''c1''"
    "TrimSpace ''c1'' = ''c1''" "rev_PlanDigest deployed_revision = ''d1''" "heldBy std_lib deployed_revision = None"
    "rev_DesiredStateHash deployed_revision = ''h1''" "rstatus_DeployedDesiredStateHash (rev_Status deployed_revision) = ''h1''"
    "astatus_ServiceAccountName (app_Status recorded_shop) = ''deployer''"
    "effectiveServiceAccount recorded_shop ''deployer'' = ''deployer''"
    "For std_lib sample_codec recorded_shop ''c1'' ''deployer'' = Some (''shop-1'', ''1'')"
    by code_simp+
  have none: "fst (manualApproval std_lib recorded_shop deployed_revision rolloutNotStarted) = None" by code_simp
  have d: "ct_DefaultServiceAccount (calm_api []) = ''deployer''" by (simp add: calm_api_def)
  have s: "c_rev rollback_ctl = deployed_revision" "c_app rollback_ctl = upd_status (\<lambda>st. st) recorded_shop"
    "at_request rollback_attempt = rollbackRequestOf recorded_shop" "at_rollout rollback_attempt = rolloutNotStarted"
    by (simp_all add: rollback_ctl_def rollback_attempt_def first_attempt_def upd_status_def)
  obtain out where run: "rollback std_lib sample_codec ?c ''web'' ''shop'' ''shop-1'' = (out, Inr (recorded_shop, deployed_revision))"
    using shop_rolls_back by blast
  note truth = rollback_outcome_truthful [OF std_rfc3339_law law run, of "calm_api []" rollback_ctl "\<lambda>st. st" rollback_attempt "''1''",
      unfolded s d r oc, OF _ _ _ _ _ refl refl]
  show "\<exists>ap. appr_ApprovedBy ap = ''alice'' \<and> appr_DesiredStateHash ap = ''h1'' \<and>
      deploys (calm_api []) std_lib sample_codec rollback_attempt first_planned rollback_ctl (Some ap)"
    using truth none by simp
qed

definition shop_env :: "unit cli_env" where
  "shop_env = \<lparr>ce_Client = Inr (admitting_client stored_shop planned_revision), ce_Objects = shop_objects [],
     ce_GraphReader = \<lparr>gr_List = (\<lambda>_ _ _ _. Inr []), gr_Get = (\<lambda>_ _ _. Inl (NotFound [])),
       gr_GetMetadata = (\<lambda>_ _ _. Inl (NotFound [])), gr_ReasonForError = (\<lambda>_. [])\<rparr>,
     ce_Selectors = \<lparr>gl_SelectorFromSet = (\<lambda>_. ()), gl_LabelSelector = (\<lambda>_. None), gl_Matches = (\<lambda>_ _. False), gl_Empty = (\<lambda>_. True)\<rparr>,
     ce_Version = ''dev'', ce_ReadRevision = (\<lambda>_. Inl (OutputFailed [])), ce_Console = (\<lambda>_. ([], None)),
     ce_Encoders = \<lparr>pe_JSON = (\<lambda>_. Inr []), pe_YAML = (\<lambda>_. Inr [])\<rparr>, ce_History = (\<lambda>_. Inr []), ce_Graph = (\<lambda>_. [])\<rparr>"

theorem printed_approval_runs_witness:
  "fst (snd (Run std_lib sample_codec shop_env
     (tl (Split (CHR '' '') ''ksync sync shop -n web --revision shop-1'')))) = 0"
proof -
  have cmd: "''ksync sync shop -n web --revision shop-1'' = approveCommand ''shop'' ''web'' False ''shop-1''"
    by (simp add: approveCommand_def defaultNamespace_def)
  obtain out where "approve std_lib (admitting_client stored_shop planned_revision) ''web'' ''shop'' ''shop-1'' = (out, Inr approved)"
    using shop_approves by blast
  moreover have "Run std_lib sample_codec shop_env (tl (Split (CHR '' '') (approveCommand ''shop'' ''web'' False ''shop-1''))) =
      (True, if snd (done_with (approve std_lib (admitting_client stored_shop planned_revision) ''web'' ''shop'' ''shop-1'')) = None then 0 else 1,
       done_with (approve std_lib (admitting_client stored_shop planned_revision) ''web'' ''shop'' ''shop-1''))"
    by (rule printed_approval_runs) (simp_all add: shop_env_def plain_word_def)
  ultimately show ?thesis unfolding cmd by (simp add: done_with_def)
qed

end
