(* ===== verification/Spec2Isabelle.thy ===== *)
theory Spec2Isabelle
  imports Webhook Tenant_Safety Receiver Watches Diagnosis Console_Api Source_Cache Cli
begin

text \<open>
  \<^bold>\<open>Kuvryn Sync\<close> is a GitOps controller for Kubernetes. An Application names a Git source, a way to
  render it and a destination namespace; each source revision it deploys is recorded as a Revision. A
  reconcile resolves the source, renders the desired objects, plans the difference to the live ones,
  waits for an approval where sync is manual, applies the objects group by group with server-side
  apply, watches their health, prunes what is no longer desired, and records the outcome; failures
  retry or roll back. This development models that core and proves what makes it correct.

  \<^bold>\<open>Theories and sources\<close> (paths under \<open>src/\<close>):

  \<^item> \<open>Prelude\<close>: Go's string functions, a stable sort over a strict order, maps with defaults, and the
    lemmas on lists and options that the components share.
  \<^item> \<open>K8s_Lib\<close>: what the code uses of the Kubernetes libraries. Unstructured objects are nested maps
    (association lists, in iteration order), API errors are a datatype, and the functions of the
    library are the fields of the record \<open>lib\<close>, a parameter of the model. Laws that a theorem needs of
    them (\<open>condition_laws\<close>, \<open>rfc3339_law\<close>, \<open>field_laws\<close>, \<open>kind_law\<close>) are named hypotheses; \<open>std_lib\<close> is
    a concrete instance that satisfies them and on which the witnesses compute.
  \<^item> \<open>Api_Types\<close>: \<open>api/v1alpha1\<close>, the resources as records and their enumerations as datatypes.
  \<^item> \<open>Resource\<close>, \<open>Ordering\<close>, \<open>Applier\<close>, \<open>Pruning\<close>, \<open>Redact\<close>, \<open>Normalize\<close>, \<open>Planner\<close>, \<open>Validate\<close>,
    \<open>Health\<close>: the packages of the same names under \<open>internal/\<close>; \<open>History\<close>: \<open>internal/history\<close>,
    \<open>internal/rollback\<close> and \<open>internal/retry\<close>.
  \<^item> \<open>Rollout\<close>: \<open>internal/status\<close>, \<open>internal/syncpolicy\<close> and
    \<open>internal/controller/application_rollout.go\<close>.
  \<^item> \<open>Approval\<close>: \<open>internal/revisionid\<close>, and the approvals and rollback requests of
    \<open>application_controller.go\<close> and \<open>application_rollback.go\<close>; \<open>Webhook\<close>: the admission webhook that
    writes them, \<open>internal/webhook/v1alpha1/application_webhook.go\<close>.
  \<^item> \<open>Guards\<close>: the decisions of \<open>application_controller.go\<close> that need no cluster: dependency cycles,
    conflicts, stale objects, digests, masking, retry backoff.
  \<^item> \<open>Controller_Base\<close>, \<open>Controller_Rollout\<close>, \<open>Rendering\<close>, \<open>Controller\<close>, \<open>Reconciler\<close>: \<open>Reconcile\<close> and
    every handler it calls, in \<open>application_controller.go\<close>, \<open>application_rollback.go\<close>,
    \<open>application_health.go\<close>, \<open>application_diagnosis.go\<close>, and \<open>internal/live\<close>.
  \<^item> \<open>Watches\<close>: \<open>application_watches.go\<close>. Any number of reconciles call \<open>ensure\<close> at once; each is a
    worker, each critical section under the mutex is one step of the relation \<open>watch_step\<close>, and the
    requests made outside the mutex are steps of their own.
  \<^item> \<open>Paths\<close>: the path checks of \<open>internal/renderer/renderer.go\<close>, over a model of Go's \<open>filepath\<close> for
    Unix and a file system that is a parameter.
  \<^item> \<open>Images\<close>: \<open>internal/imagepolicy\<close>, \<open>internal/imageupdate\<close> and \<open>imagepolicy_controller.go\<close>;
    \<open>Repositories\<close>: \<open>repository_controller.go\<close> and \<open>repository_discovery.go\<close>; \<open>Receiver\<close>:
    \<open>internal/receiver\<close>.
  \<^item> \<open>Resource_Graph\<close>: \<open>internal/graph\<close>, the graph of live objects and its bounded collection;
    \<open>Diagnosis\<close>: \<open>internal/diagnosis\<close>, the walk from unhealthy objects to root causes.
  \<^item> \<open>Sealing\<close>, \<open>Console_Auth\<close>, \<open>Console_Reads\<close>, \<open>Console_Api\<close>: \<open>internal/console\<close>, the read-only web console: its
    sealed cookies, sign-in, the transports and cached clients it reads the cluster through, and what
    it answers.
  \<^item> \<open>File_System\<close>: a Unix file system with symbolic links, the kernel's resolution of a path, and the
    functions of Go's \<open>os\<close> package on it; \<open>Git_Cache\<close>: \<open>internal/source/git/cache.go\<close> on that file
    system; \<open>Source_Cache\<close>: the pruner of \<open>internal/controller/source_cache.go\<close> and the chart cache of
    \<open>internal/renderer/helm/pull.go\<close>.
  \<^item> \<open>Cli_Args\<close>, \<open>Cli_Revisions\<close>, \<open>Cli_Graph\<close>, \<open>Cli_Output\<close>, \<open>Cli\<close>: the command line, \<open>internal/cli\<close> and
    \<open>internal/planoutput\<close>: arguments and Go's flag parser, which Revision a command is about, the graph
    tree and the diagnosis text, tables and plan documents, and the commands with \<open>Run\<close>.
  \<^item> \<open>Rollout_Safety\<close> and \<open>Tenant_Safety\<close>: the theorems about whole reconciles.

  \<^bold>\<open>State.\<close> A reconcile passes the record \<open>ctl\<close> along: the Application and the Revision it holds in
  memory and the world \<open>'w\<close>, of which nothing is known but the answers of the record \<open>api\<close> (every
  request to a cluster, the clock, Events, the notification queue) and of the record \<open>sources\<close> (the
  Git resolver, the renderers, the chart registry, decoders). Theorems hold for every \<open>api\<close>: the
  cluster may refuse any request and change between any two of them. A handler that ends a reconcile
  returns the state, the time after which to requeue, and the error, if any; each early return of the
  source is a branch.

  \<^bold>\<open>What is shown.\<close> Ordering: the grouping loop refines a declarative grouping, loses nothing, and is
  staged. Applier and pruning: when ownership is forced, what the inventory may contain, exactly which
  objects a prune deletes. Planner: each identity is classified once, by what its objects call for; reported changes are exactly the declared or
  owned fields that differ, where an absent field and an empty string are not told apart (server-side apply
  would); a converged cluster plans nothing; plans do not depend on input order and show no value at a
  sensitive path, unless it already holds the text of the placeholder. Health: counts add up and failing
  rules hold a rollout. Approvals: only a named user's decision about exactly this desired state and
  plan deploys, a rollout that one let start being carried on, the webhook lets nobody forge one, and what it stamps is what the controller reads.
  Guards: the dependency search terminates and is exact; a failed Revision is decided within a
  minute. Reconciles: acting on a plan records a rollout as complete only when every deployed object was read back
  Healthy, apart from a plan with nothing to change while no rollout is in progress, which the code
  confirms without reading health; and without an approval a reconcile of an Application that is not being
  deleted writes nothing to the tenant's cluster, unless it carries on a rollout in progress. Watches: in every
  reachable state of every interleaving no kind is watched twice, no worker waits for a check that
  nobody will finish, and a positive answer is true. Paths: what is accepted lies inside the
  workspace. Images: the newest version is selected, credentials go to their own registry, rewriting
  markers is idempotent and stays in the namespace, and an update ends after three attempts.
  Repositories: discovery writes only what the Repository's owner allows, and deletes only what carries its label. Receiver: only an
  authenticated push is acted on and strangers learn nothing. Resource graph: graphs are well formed
  and do not depend on the order of the objects; collecting one keeps a bounded number of objects
  and reads no content of a Secret. Diagnosis: what is reported fits the API's schema, as far as references are named
  provided the input names them, follows real dependencies and
  passes over no unhealthy object. Console: sessions come only from cookies it sealed, after a complete
  sign-in; every request of a session's cluster client is an allowed read made as the session's user (the path
  filter also lets the subresources of a Namespace pass; the console's own reviews of tokens and
  permissions are not such requests); no client is ever
  shared between users, whatever the interleaving; and no Secret is read. Git cache: in every reachable
  cache the kernel resolves each path below a checkout inside it, a commit's files are written into
  its own staging directory only, and no pruning takes a checkout that was just returned or that a
  listed Repository, or a Revision rendered from it, refers to under its current URL; a cached chart is found again only by the namespace and
  credentials it was pulled with. Command line: the Revision whose plan is shown is the one the
  Application wants deployed; what a user approves is exactly the plan whose digest was printed, through the
  webhook to the controller; what a rollback prints is what the controller does once it has planned the
  Revision the request leads to, rendered as it once was and not approved otherwise; the
  command it tells the reader to run does what it says; the printed graph is finite and complete, and no
  output tells two secret values apart.

  \<^bold>\<open>Interfaces.\<close> The comparisons that sorts use are the locales \<open>strict_weak\<close> and \<open>key_order\<close>; an
  approval, manual or of a rollback, is an \<open>approval_gate\<close>; what survives the two ways in which a
  graph's builder grows is a \<open>builder_relation\<close>, and one level of a diagnosis is \<open>visiting\<close> for the
  level above; what is written and read back is a \<open>codec\<close>; the prunings of the Git
  cache and of the chart cache are each a \<open>sweep\<close>, and one after the other again one; a loop that keeps the
  best Revision seen is a \<open>choice\<close>; what a diagnosis may name is \<open>drawing\<close> along the graph; handlers that keep a rollout's recorded
  progress are \<open>keeps_rollout\<close>, and those that only read the tenant's cluster \<open>reads_only\<close>. Each is
  interpreted on the model's own comparisons, gates and handlers, and the properties rest on the
  facts this gives.

  \<^bold>\<open>Bounds.\<close> Integers are unbounded: counters are attempts, counts and generations far below 2^31, and
  times are nanoseconds as \<open>int\<close>. Strings are bytes, and trimming and lower case treat ASCII only. The search for dependency cycles takes fuel; \<open>dependency_fuel\<close> is
  one more than the number of names, and the theorem shows it is enough. The loop of \<open>Update\<close> counts
  its three attempts down, the walk of a printed graph the edges left (\<open>walk_returns\<close> shows that their
  number is enough), the walk of a diagnosis the levels left below \<open>MaxChain\<close>. Resolving a path
  follows at most 40 links, in the kernel and in \<open>resolvesInside\<close>; both are total by the measure (links
  left, elements left). Every other loop is a structural recursion.

  \<^bold>\<open>Assumptions of the model.\<close> A read leaves the world as it is; a status update keeps the object in
  memory, apart from its resource version; a Go map is iterated in the order of its association list;
  the compiled HealthChecks are computed anew instead of cached; logs, metrics and traces are left
  out. Regular expressions given by users, semantic versions, URL and JSON parsing, HMAC and rate
  limiters are fields of \<open>image_lib\<close>, \<open>repo_lib\<close> and \<open>receiver_lib\<close>; OIDC, OAuth, JSON and AES-GCM of
  \<open>console_lib\<close> and \<open>aead\<close>, of which \<open>gcm_laws\<close> says that exactly what was sealed opens; JSON reads
  back what is valid UTF-8 (\<open>session_json_law\<close>, \<open>review_json_law\<close>); \<open>store_laws\<close> states what
  \<open>CreateOrUpdate\<close>, \<open>Patch\<close> and \<open>Delete\<close> send. The Git cache is the only writer below its root while it
  holds a repository's lock; a failed system call leaves the disk as it was; go-git keeps its clones
  apart from the checkouts. What the server stores went through the webhook (\<open>admitted\<close>), and a merge patch applies
  to the object it holds (\<open>patch_law\<close>, \<open>update_law\<close>). The lists one command makes see the same Revisions.

  \<^bold>\<open>Not modelled.\<close> The renderers and decryption (they drive other programs), the download of a
  chart, the console's multiplexer and static files, the flags of \<open>ksync console\<close>, the main packages, notification delivery, impersonation, metrics and tracing
  (I/O), generated deep copies. One attempt of an image update (clone, commit, push) is a parameter.
\<close>

end
